(* ===== verification/Prelude.thy ===== *)
theory Prelude
  imports Main "HOL-Library.List_Lexorder" "HOL-Library.Char_ord" "HOL-Library.Sublist"
begin

text \<open>
  The shared vocabulary of the development: Go strings, Go errors and the generic lemmas that the
  component theories use.

  A Go string is a sequence of bytes and Isabelle's \<^typ>\<open>string\<close> is a list of 8-bit characters,
  so a Go string is modelled by the list of its bytes (UTF-8 where the program holds text).
  The functions of Go's \<open>strings\<close> package that the program calls are defined here with the
  meaning of the standard library. An error value is its text and the list of
  sentinel errors that \<open>errors.Is\<close> finds in its chain.
\<close>

named_theorems go_string "evaluation of the string functions"
named_theorems frame "which state an operation leaves alone"

section \<open>Bytes\<close>

definition byte :: "char \<Rightarrow> nat" where
  "byte c = of_char c"

definition newline :: char where
  "newline = CHR 0x0A"

definition ascii_ws :: "char \<Rightarrow> bool" where
  "ascii_ws c = (byte c = 32 \<or> 9 \<le> byte c \<and> byte c \<le> 13)"

definition ascii_lower :: "char \<Rightarrow> char" where
  "ascii_lower c = (if 65 \<le> byte c \<and> byte c \<le> 90 then char_of (byte c + 32) else c)"

definition is_digit :: "char \<Rightarrow> bool" where
  "is_digit c = (48 \<le> byte c \<and> byte c \<le> 57)"

definition is_letter :: "char \<Rightarrow> bool" where
  "is_letter c = (97 \<le> byte c \<and> byte c \<le> 122 \<or> 65 \<le> byte c \<and> byte c \<le> 90)"

definition is_hex_char :: "char \<Rightarrow> bool" where
  "is_hex_char c =
     (is_digit c \<or> 97 \<le> byte c \<and> byte c \<le> 102 \<or> 65 \<le> byte c \<and> byte c \<le> 70)"

section \<open>Prefixes, suffixes, searching\<close>

fun has_prefix :: "string \<Rightarrow> string \<Rightarrow> bool" where
  "has_prefix [] s = True"
| "has_prefix (p # ps) [] = False"
| "has_prefix (p # ps) (c # cs) = (p = c \<and> has_prefix ps cs)"

definition has_suffix :: "string \<Rightarrow> string \<Rightarrow> bool" where
  "has_suffix p s = has_prefix (rev p) (rev s)"

definition trim_prefix :: "string \<Rightarrow> string \<Rightarrow> string" where
  "trim_prefix p s = (if has_prefix p s then drop (length p) s else s)"

definition trim_suffix :: "string \<Rightarrow> string \<Rightarrow> string" where
  "trim_suffix p s = (if has_suffix p s then take (length s - length p) s else s)"

text \<open>\<open>strings.Index\<close>: the first occurrence, \<^term>\<open>None\<close> where Go returns -1.\<close>

fun index_of :: "string \<Rightarrow> string \<Rightarrow> nat option" where
  "index_of sub [] = (if sub = [] then Some 0 else None)"
| "index_of sub (c # cs) =
     (if has_prefix sub (c # cs) then Some 0 else map_option Suc (index_of sub cs))"

text \<open>\<open>strings.LastIndex\<close>.\<close>

fun last_index_of :: "string \<Rightarrow> string \<Rightarrow> nat option" where
  "last_index_of sub [] = (if sub = [] then Some 0 else None)"
| "last_index_of sub (c # cs) =
     (case last_index_of sub cs of
        Some i \<Rightarrow> Some (Suc i)
      | None \<Rightarrow> if has_prefix sub (c # cs) then Some 0 else None)"

definition contains_str :: "string \<Rightarrow> string \<Rightarrow> bool" where
  "contains_str s sub = (index_of sub s \<noteq> None)"

text \<open>\<open>strings.Cut\<close>: \<^term>\<open>None\<close> where Go reports that the separator is absent.\<close>

definition cut_str :: "string \<Rightarrow> string \<Rightarrow> (string \<times> string) option" where
  "cut_str s sep =
     (case index_of sep s of
        None \<Rightarrow> None
      | Some i \<Rightarrow> Some (take i s, drop (i + length sep) s))"

text \<open>\<open>strings.Split\<close> with a separator of one byte.\<close>

fun split_on :: "char \<Rightarrow> string \<Rightarrow> string list" where
  "split_on c [] = [[]]"
| "split_on c (x # xs) =
     (if x = c then [] # split_on c xs
      else (case split_on c xs of [] \<Rightarrow> [[x]] | y # ys \<Rightarrow> (x # y) # ys))"

fun join_with :: "string \<Rightarrow> string list \<Rightarrow> string" where
  "join_with sep [] = []"
| "join_with sep [x] = x"
| "join_with sep (x # y # ys) = x @ sep @ join_with sep (y # ys)"

text \<open>\<open>strings.ReplaceAll\<close>, for a non-empty old string.\<close>

function replace_all :: "string \<Rightarrow> string \<Rightarrow> string \<Rightarrow> string" where
  "replace_all old new [] = []"
| "replace_all old new (c # cs) =
     (if old \<noteq> [] \<and> has_prefix old (c # cs)
      then new @ replace_all old new (drop (length old - 1) cs)
      else c # replace_all old new cs)"
  by pat_completeness auto
termination
  by (relation "measure (\<lambda>(old, new, s). length s)") auto

lemma has_prefix_iff_prefix [go_string]: "has_prefix p s \<longleftrightarrow> prefix p s"
  by (induction p s rule: has_prefix.induct) auto

lemma has_prefix_append [simp]: "has_prefix p (p @ s)"
  by (induction p) auto

lemma has_prefix_take: "has_prefix p s \<Longrightarrow> s = p @ drop (length p) s"
  by (induction p s rule: has_prefix.induct) auto

lemma has_prefix_same [simp]: "has_prefix p p"
  by (induction p) auto

lemma has_suffix_append [simp]: "has_suffix p (s @ p)"
  by (simp add: has_suffix_def)

lemma has_suffixD: "has_suffix p s \<Longrightarrow> \<exists>u. s = u @ p"
proof -
  assume "has_suffix p s"
  then have "rev s = rev p @ drop (length (rev p)) (rev s)"
    unfolding has_suffix_def by (rule has_prefix_take)
  then have "s = rev (drop (length p) (rev s)) @ p"
    by (metis length_rev rev_append rev_rev_ident)
  then show ?thesis by blast
qed

lemma trim_suffix_append [simp]: "trim_suffix p (s @ p) = s"
  by (simp add: trim_suffix_def)

lemma trim_prefix_append [simp]: "trim_prefix p (p @ s) = s"
  by (simp add: trim_prefix_def)

lemma index_of_Some_split: "index_of sub s = Some i \<Longrightarrow> s = take i s @ sub @ drop (i + length sub) s"
proof (induction sub s arbitrary: i rule: index_of.induct)
  case (1 sub)
  then show ?case by (auto split: if_splits)
next
  case (2 sub c cs)
  show ?case
  proof (cases "has_prefix sub (c # cs)")
    case True
    with 2 have "i = 0" by simp
    with has_prefix_take [OF True] show ?thesis by simp
  next
    case False
    with 2 obtain j where "i = Suc j" "index_of sub cs = Some j" by auto
    with False 2 show ?thesis by simp
  qed
qed

lemma has_prefix_length: "has_prefix p s \<Longrightarrow> length p \<le> length s"
  by (induction p s rule: has_prefix.induct) auto

lemma index_of_le: "index_of sub s = Some i \<Longrightarrow> i + length sub \<le> length s"
  by (induction sub s arbitrary: i rule: index_of.induct)
    (auto split: if_splits dest: has_prefix_length)

lemma contains_str_iff: "contains_str s sub \<longleftrightarrow> (\<exists>u v. s = u @ sub @ v)"
proof
  assume "contains_str s sub"
  then show "\<exists>u v. s = u @ sub @ v"
    unfolding contains_str_def by (blast dest: index_of_Some_split)
next
  assume "\<exists>u v. s = u @ sub @ v"
  then obtain u v where s: "s = u @ sub @ v" by blast
  have "index_of sub (u @ sub @ v) \<noteq> None"
  proof (induction u)
    case Nil
    have "has_prefix sub (sub @ v)" by (rule has_prefix_append)
    then show ?case by (cases "sub @ v") auto
  next
    case (Cons a u)
    then show ?case by auto
  qed
  with s show "contains_str s sub" by (simp add: contains_str_def)
qed

lemma split_on_nonempty [simp]: "split_on c s \<noteq> []"
  by (induction s) (auto split: list.splits)

lemma join_split [simp]: "join_with [c] (split_on c s) = s"
proof (induction s)
  case Nil
  then show ?case by simp
next
  case (Cons x xs)
  obtain y ys where yys: "split_on c xs = y # ys"
    by (cases "split_on c xs") auto
  show ?case
  proof (cases "x = c")
    case True
    with Cons yys show ?thesis by simp
  next
    case False
    with Cons yys show ?thesis by (cases ys) simp_all
  qed
qed

lemma split_on_pieces: "p \<in> set (split_on c s) \<Longrightarrow> c \<notin> set p"
  by (induction s arbitrary: p) (auto split: list.splits if_splits)

lemma split_on_absent: "c \<notin> set s \<Longrightarrow> split_on c s = [s]"
  by (induction s) auto

section \<open>Trimming and case folding\<close>

text \<open>
  \<open>strings.TrimSpace\<close> removes Unicode white space: the six ASCII bytes and the UTF-8
  encodings of U+0085, U+00A0, U+1680, U+2000 to U+200A, U+2028, U+2029, U+202F, U+205F and
  U+3000. UTF-8 is self-synchronising, so trimming at the end is matching reversed encodings.
\<close>

definition wide_ws :: "string list" where
  "wide_ws =
     [[CHR 0xC2, CHR 0x85], [CHR 0xC2, CHR 0xA0], [CHR 0xE1, CHR 0x9A, CHR 0x80],
      [CHR 0xE2, CHR 0x80, CHR 0x80], [CHR 0xE2, CHR 0x80, CHR 0x81],
      [CHR 0xE2, CHR 0x80, CHR 0x82], [CHR 0xE2, CHR 0x80, CHR 0x83],
      [CHR 0xE2, CHR 0x80, CHR 0x84], [CHR 0xE2, CHR 0x80, CHR 0x85],
      [CHR 0xE2, CHR 0x80, CHR 0x86], [CHR 0xE2, CHR 0x80, CHR 0x87],
      [CHR 0xE2, CHR 0x80, CHR 0x88], [CHR 0xE2, CHR 0x80, CHR 0x89],
      [CHR 0xE2, CHR 0x80, CHR 0x8A], [CHR 0xE2, CHR 0x80, CHR 0xA8],
      [CHR 0xE2, CHR 0x80, CHR 0xA9], [CHR 0xE2, CHR 0x80, CHR 0xAF],
      [CHR 0xE2, CHR 0x81, CHR 0x9F], [CHR 0xE3, CHR 0x80, CHR 0x80]]"

text \<open>The number of bytes of the white-space rune that starts a string, 0 if none does.\<close>

fun ws_head :: "string list \<Rightarrow> string \<Rightarrow> nat" where
  "ws_head tbl [] = 0"
| "ws_head tbl (c # cs) =
     (if ascii_ws c then 1
      else if byte c < 128 then 0
      else (case find (\<lambda>p. has_prefix p (c # cs)) tbl of None \<Rightarrow> 0 | Some p \<Rightarrow> length p))"

function trim_front :: "string list \<Rightarrow> string \<Rightarrow> string" where
  "trim_front tbl s = (if ws_head tbl s = 0 \<or> s = [] then s else trim_front tbl (drop (ws_head tbl s) s))"
  by pat_completeness auto
termination
  by (relation "measure (\<lambda>(tbl, s). length s)") auto

declare trim_front.simps [simp del]

definition trim_space :: "string \<Rightarrow> string" where
  "trim_space s = rev (trim_front (map rev wide_ws) (rev (trim_front wide_ws s)))"

lemma trim_front_Nil [simp]: "trim_front tbl [] = []"
  by (simp add: trim_front.simps)

lemma trim_space_Nil [simp]: "trim_space [] = []"
  by (simp add: trim_space_def)

lemma trim_front_id: "ws_head tbl s = 0 \<Longrightarrow> trim_front tbl s = s"
  by (simp add: trim_front.simps)

lemma trim_front_head: "ws_head tbl (trim_front tbl s) = 0"
proof (induction tbl s rule: trim_front.induct)
  case (1 tbl s)
  then show ?case
    by (cases "ws_head tbl s = 0 \<or> s = []") (auto simp: trim_front.simps [of tbl s])
qed

lemma trim_front_suffix: "suffix (trim_front tbl s) s"
proof (induction tbl s rule: trim_front.induct)
  case (1 tbl s)
  show ?case
  proof (cases "ws_head tbl s = 0 \<or> s = []")
    case True
    then show ?thesis by (simp add: trim_front.simps [of tbl s])
  next
    case False
    then have "suffix (trim_front tbl (drop (ws_head tbl s) s)) (drop (ws_head tbl s) s)"
      using 1 by blast
    then have "suffix (trim_front tbl (drop (ws_head tbl s) s)) s"
      using suffix_drop suffix_order.trans by blast
    with False show ?thesis by (simp add: trim_front.simps [of tbl s])
  qed
qed

lemma find_prefix_mono:
  assumes "find (\<lambda>p. has_prefix p t) tbl = None" "prefix u t"
  shows "find (\<lambda>p. has_prefix p u) tbl = None"
  using assms
  by (auto simp: find_None_iff has_prefix_iff_prefix intro: prefix_order.trans)

lemma ws_head_prefix:
  assumes "ws_head tbl t = 0" "prefix u t" "\<forall>p \<in> set tbl. p \<noteq> []"
  shows "ws_head tbl u = 0"
proof (cases u)
  case Nil
  then show ?thesis by simp
next
  case (Cons c cs)
  with assms(2) obtain ds where t: "t = c # ds" by (cases t) auto
  show ?thesis
  proof (cases "byte c < 128")
    case True
    with assms(1) t Cons show ?thesis by (auto split: if_splits)
  next
    case False
    with assms(1,3) t have "find (\<lambda>p. has_prefix p t) tbl = None"
      by (auto split: if_splits option.splits simp: find_Some_iff) (metis nth_mem)
    then have "find (\<lambda>p. has_prefix p u) tbl = None"
      using assms(2) by (rule find_prefix_mono)
    with assms(1) t Cons show ?thesis by (auto split: if_splits)
  qed
qed

lemma wide_ws_nonempty: "\<forall>p \<in> set wide_ws. p \<noteq> []" "\<forall>p \<in> set (map rev wide_ws). p \<noteq> []"
  by (simp_all add: wide_ws_def)

lemma trim_space_head: "ws_head wide_ws (trim_space s) = 0"
proof -
  let ?t = "trim_front wide_ws s"
  have "suffix (trim_front (map rev wide_ws) (rev ?t)) (rev ?t)"
    by (rule trim_front_suffix)
  then have "prefix (trim_space s) ?t"
    by (simp add: trim_space_def suffix_to_prefix)
  then show ?thesis
    by (rule ws_head_prefix [OF trim_front_head _ wide_ws_nonempty(1)])
qed

lemma trim_space_last: "ws_head (map rev wide_ws) (rev (trim_space s)) = 0"
  by (simp add: trim_space_def trim_front_head)

lemma trim_space_idem [simp]: "trim_space (trim_space s) = trim_space s"
  using trim_front_id [OF trim_space_head [of s]] trim_front_id [OF trim_space_last [of s]]
  by (simp add: trim_space_def [of "trim_space s"])

lemma trim_space_length: "length (trim_space s) \<le> length s"
proof -
  have "length (trim_front (map rev wide_ws) (rev (trim_front wide_ws s)))
      \<le> length (rev (trim_front wide_ws s))"
    by (rule suffix_length_le [OF trim_front_suffix])
  also have "\<dots> \<le> length s"
    by (simp add: suffix_length_le [OF trim_front_suffix])
  finally show ?thesis by (simp add: trim_space_def)
qed

text \<open>A string that starts and ends with an ASCII byte that is not white space is not trimmed.\<close>

lemma trim_space_id:
  assumes "s = [] \<or> (byte (hd s) < 128 \<and> \<not> ascii_ws (hd s) \<and> byte (last s) < 128 \<and> \<not> ascii_ws (last s))"
  shows "trim_space s = s"
proof (cases s)
  case Nil
  then show ?thesis by simp
next
  case (Cons c cs)
  from Cons assms have "ws_head wide_ws s = 0" by simp
  then have f: "trim_front wide_ws s = s" by (rule trim_front_id)
  obtain d ds where d: "rev s = d # ds" using Cons by (cases "rev s") auto
  then have "d = last s" by (metis last_rev list.sel(1) hd_rev rev_rev_ident)
  with assms Cons d have "ws_head (map rev wide_ws) (rev s) = 0" by simp
  then have "trim_front (map rev wide_ws) (rev s) = rev s" by (rule trim_front_id)
  with f show ?thesis by (simp add: trim_space_def)
qed

text \<open>\<open>strings.Trim\<close> with a cutset.\<close>

definition trim_set :: "char list \<Rightarrow> string \<Rightarrow> string" where
  "trim_set cs s = rev (dropWhile (\<lambda>c. c \<in> set cs) (rev (dropWhile (\<lambda>c. c \<in> set cs) s)))"

text \<open>
  \<open>strings.ToLower\<close> and \<open>strings.EqualFold\<close> are only ever compared with ASCII literals by the
  program. Beside the ASCII letters, the runes with an ASCII lower case are U+212A (to k) and
  U+0130 (to i), and those that fold to an ASCII letter are U+212A (to k) and U+017F (to s);
  every other rune keeps at least one byte outside ASCII and so differs from every
  ASCII literal, whatever its lower case is. The two functions below are therefore exact in
  every comparison the program makes.
\<close>

function map_runes :: "(string \<times> char) list \<Rightarrow> string \<Rightarrow> string" where
  "map_runes tbl [] = []"
| "map_runes tbl (c # cs) =
     (if byte c < 128 then ascii_lower c # map_runes tbl cs
      else (case find (\<lambda>(p, r). has_prefix p (c # cs)) tbl of
              None \<Rightarrow> c # map_runes tbl cs
            | Some (p, r) \<Rightarrow> r # map_runes tbl (drop (length p - 1) cs)))"
  by pat_completeness auto
termination
  by (relation "measure (\<lambda>(tbl, s). length s)") auto

definition to_lower :: "string \<Rightarrow> string" where
  "to_lower s = map_runes [([CHR 0xE2, CHR 0x84, CHR 0xAA], CHR ''k''), ([CHR 0xC4, CHR 0xB0], CHR ''i'')] s"

definition fold_case :: "string \<Rightarrow> string" where
  "fold_case s = map_runes [([CHR 0xE2, CHR 0x84, CHR 0xAA], CHR ''k''), ([CHR 0xC5, CHR 0xBF], CHR ''s'')] s"

definition equal_fold :: "string \<Rightarrow> string \<Rightarrow> bool" where
  "equal_fold a b = (fold_case a = fold_case b)"

section \<open>Hex digests and decimal text\<close>

definition is_hex :: "string \<Rightarrow> nat \<Rightarrow> bool" where
  "is_hex v n = (n \<le> length v \<and> list_all is_hex_char v)"

definition is_sha256 :: "string \<Rightarrow> bool" where
  "is_sha256 v = (length v = 64 \<and> is_hex v 64)"

definition digit_char :: "nat \<Rightarrow> char" where
  "digit_char n = char_of (48 + n mod 10)"

fun nat_text :: "nat \<Rightarrow> string" where
  "nat_text n = (if n < 10 then [digit_char n] else nat_text (n div 10) @ [digit_char n])"

declare nat_text.simps [simp del]

definition int_text :: "int \<Rightarrow> string" where
  "int_text i = (if i < 0 then CHR ''-'' # nat_text (nat (- i)) else nat_text (nat i))"

lemma nat_text_nonempty [simp]: "nat_text n \<noteq> []"
  by (subst nat_text.simps) simp

lemma is_digit_digit_char [simp]: "is_digit (digit_char n)"
proof -
  have "byte (digit_char n) = 48 + n mod 10"
    unfolding byte_def digit_char_def by simp
  then show ?thesis by (simp add: is_digit_def)
qed

lemma nat_text_digits: "c \<in> set (nat_text n) \<Longrightarrow> is_digit c"
proof (induction n rule: nat_text.induct)
  case (1 n)
  then show ?case
    by (cases "n < 10") (auto simp: nat_text.simps [of n])
qed

text \<open>
  \<open>strconv.Quote\<close>, the verb \<open>%q\<close>. (Bytes outside ASCII are kept: whether Go escapes a rune depends on
  the Unicode tables. The program only uses it in messages.)
\<close>

definition hex_char :: "nat \<Rightarrow> char" where
  "hex_char n = (if n < 10 then char_of (48 + n) else char_of (87 + n))"

definition quote_char :: "char \<Rightarrow> string" where
  "quote_char c =
     (let n = byte c in
      if c = CHR 0x22 \<or> c = CHR 0x5C then [CHR 0x5C, c]
      else if 7 \<le> n \<and> n \<le> 13 then [CHR 0x5C, ''abtnvfr'' ! (n - 7)]
      else if n < 32 \<or> n = 127 then [CHR 0x5C, CHR ''x'', hex_char (n div 16), hex_char (n mod 16)]
      else [c])"

definition go_quote :: "string \<Rightarrow> string" where
  "go_quote s = [CHR 0x22] @ concat (map quote_char s) @ [CHR 0x22]"

section \<open>Errors\<close>

text \<open>
  The sentinel errors of the packages \<open>core\<close>, \<open>storage\<close>, \<open>skillfilesystem\<close> and of the operating system that the
  program tests with \<open>errors.Is\<close>. \<open>InProviderError\<close> stands for a \<open>providerError\<close> in the chain, which
  the Issues provider looks for with \<open>errors.As\<close>.
\<close>

datatype sentinel =
    ErrNotExist
  | ErrExist
  | ErrCanceled
  | ErrUnavailable
  | ErrConflict
  | ErrPrerequisiteMissing
  | ErrMirrorInProgress
  | ErrGraphUnavailable
  | ErrGraphStale
  | ErrIncompatible
  | ErrSkillNotFound
  | ErrUnsupportedSkill
  | ErrSkillInvocationReplay
  | ErrSkillInvocationIDCollision
  | ErrSkillNameAmbiguous
  | ErrSkillAliasInvalid
  | ErrSkillRuntimeIncompatible
  | ErrSkillArgumentsSchemaInvalid
  | ErrSkillArgumentsInvalid
  | ErrSkillInvocationRecordInvalid
  | ErrSkillInvocationsSectionInvalid
  | ErrSkillInvocationContradiction
  | ErrSkillInvocationArtifactUnsafe
  | ErrRemoteNotFound
  | ErrSyncStillRunning
  | ErrSyncRecoveryRequired
  | ErrSyncLivenessUnverifiable
  | DeadlineExceeded
  | InProviderError
  | InMcpProviderError
  | InMcpProtocolError
  | InMcpRpcError

datatype err = GoErr (err_chain: "sentinel list") (err_text: string)

type_synonym 'a res = "err + 'a"

definition errors_is :: "err \<Rightarrow> sentinel \<Rightarrow> bool" where
  "errors_is e s = (s \<in> set (err_chain e))"

text \<open>\<open>errors.New(text)\<close>, and \<open>fmt.Errorf("text")\<close> with no wrapped error.\<close>

definition new_err :: "string \<Rightarrow> err" where
  "new_err t = GoErr [] t"

text \<open>\<open>fmt.Errorf("prefix: %w", e)\<close>.\<close>

definition wrap_with :: "string \<Rightarrow> err \<Rightarrow> err" where
  "wrap_with t e = GoErr (err_chain e) (t @ '': '' @ err_text e)"

text \<open>\<open>errors.Join(a, b)\<close> of two errors, and of two results that may be \<open>nil\<close>.\<close>

definition join_err :: "err \<Rightarrow> err \<Rightarrow> err" where
  "join_err a b = GoErr (err_chain a @ err_chain b) (err_text a @ [newline] @ err_text b)"

fun join_errs :: "err option \<Rightarrow> err option \<Rightarrow> err option" where
  "join_errs None b = b"
| "join_errs (Some a) None = Some a"
| "join_errs (Some a) (Some b) = Some (join_err a b)"

lemma errors_is_simps [simp]:
  "errors_is (GoErr ss t) s \<longleftrightarrow> s \<in> set ss"
  "errors_is (new_err t) s \<longleftrightarrow> False"
  "errors_is (wrap_with t e) s \<longleftrightarrow> errors_is e s"
  by (simp_all add: errors_is_def new_err_def wrap_with_def)

lemma new_err_text [simp]: "err_text (new_err t) = t"
  by (simp add: new_err_def)

section \<open>Generic list and option lemmas\<close>

fun first_nonempty :: "string list \<Rightarrow> string" where
  "first_nonempty [] = []"
| "first_nonempty (v # vs) = (if v \<noteq> [] then v else first_nonempty vs)"

lemma map_of_filter_fst: "P k \<Longrightarrow> map_of (filter (\<lambda>(k, v). P k) kvs) k = map_of kvs k"
  by (induction kvs) auto

lemma take_length_append [simp]: "take (length a) (a @ b) = a"
  by simp

end
