(* ===== verification/Lock_Protocol.thy ===== *)
theory Lock_Protocol
  imports Prelude
begin

text \<open>
  The mirror lock as concurrent processes run it, one system call at a time: the exclusive creation
  and the write of \<open>Acquire\<close> (a failed one removes the file), the read and the removal of \<open>Release\<close>, the read and the removal of
  \<open>ClearOrphan\<close>, and a crash at any point. The path of one key refers to at most one
  file; a file is known by the number of its creation, so that a process that still has an open
  file writes to that file and not to a newer one of the same name. The owner identifier of an
  acquisition is fresh, so it is the number of its file. The code of \<open>ClearOrphan\<close> reads and then
  removes; with \<open>atomic\<close> only the schedules are taken in which no other step comes between
  the two, and without it all of them. A process identifier is not reused.
\<close>

datatype content = Unwritten | OwnedBy nat nat

datatype proc =
    Idle
  | Creating nat
  | Holding nat
  | Releasing nat
  | Clearing
  | Crashed

record lock_sys =
  lk_file :: "(nat \<times> content) option"
  lk_next :: nat
  lk_proc :: "nat \<Rightarrow> proc"

definition start_sys :: lock_sys where
  "start_sys = \<lparr>lk_file = None, lk_next = 0, lk_proc = (\<lambda>p. Idle)\<rparr>"

definition set_proc :: "nat \<Rightarrow> proc \<Rightarrow> lock_sys \<Rightarrow> lock_sys" where
  "set_proc p st s = s\<lparr>lk_proc := (lk_proc s)(p := st)\<rparr>"

text \<open>A write through the descriptor of file \<open>i\<close>: invisible once the path names another file.\<close>

definition write_owner :: "nat \<Rightarrow> nat \<Rightarrow> (nat \<times> content) option \<Rightarrow> (nat \<times> content) option" where
  "write_owner p i f =
     (case f of None \<Rightarrow> None | Some (j, c) \<Rightarrow> if j = i then Some (i, OwnedBy p i) else Some (j, c))"

inductive lock_step :: "bool \<Rightarrow> lock_sys \<Rightarrow> lock_sys \<Rightarrow> bool" for atomic where
  create: "lk_proc s p = Idle \<Longrightarrow> lk_file s = None \<Longrightarrow>
     lock_step atomic s (set_proc p (Creating (lk_next s))
       (s\<lparr>lk_file := Some (lk_next s, Unwritten), lk_next := Suc (lk_next s)\<rparr>))"
| write_file: "lk_proc s p = Creating i \<Longrightarrow>
     lock_step atomic s (set_proc p (Holding i) (s\<lparr>lk_file := write_owner p i (lk_file s)\<rparr>))"
| write_failed: "lk_proc s p = Creating i \<Longrightarrow>
     lock_step atomic s (set_proc p Idle (s\<lparr>lk_file := None\<rparr>))"
| release_read: "lk_proc s p = Holding i \<Longrightarrow> lk_file s = Some (j, OwnedBy q i) \<Longrightarrow>
     lock_step atomic s (set_proc p (Releasing i) s)"
| release_lost: "lk_proc s p = Holding i \<Longrightarrow> \<nexists>j q. lk_file s = Some (j, OwnedBy q i) \<Longrightarrow>
     lock_step atomic s (set_proc p Idle s)"
| release_remove: "lk_proc s p = Releasing i \<Longrightarrow>
     lock_step atomic s (set_proc p Idle (s\<lparr>lk_file := None\<rparr>))"
| crash: "lk_proc s p \<noteq> Crashed \<Longrightarrow> lock_step atomic s (set_proc p Crashed s)"
| clear_atomic: "atomic \<Longrightarrow> lk_proc s p = Idle \<Longrightarrow> lk_file s = Some (j, OwnedBy q i) \<Longrightarrow>
     lk_proc s q = Crashed \<Longrightarrow> lock_step atomic s (s\<lparr>lk_file := None\<rparr>)"
| clear_read: "\<not> atomic \<Longrightarrow> lk_proc s p = Idle \<Longrightarrow> lk_file s = Some (j, OwnedBy q i) \<Longrightarrow>
     lk_proc s q = Crashed \<Longrightarrow> lock_step atomic s (set_proc p Clearing s)"
| clear_remove: "lk_proc s p = Clearing \<Longrightarrow>
     lock_step atomic s (set_proc p Idle (s\<lparr>lk_file := None\<rparr>))"

inductive reachable :: "bool \<Rightarrow> lock_sys \<Rightarrow> bool" for atomic where
  start: "reachable atomic start_sys"
| step: "reachable atomic s \<Longrightarrow> lock_step atomic s s' \<Longrightarrow> reachable atomic s'"

text \<open>The file a process is working under, while it is inside \<open>run\<close>.\<close>

fun section_file :: "proc \<Rightarrow> nat option" where
  "section_file (Creating i) = Some i"
| "section_file (Holding i) = Some i"
| "section_file (Releasing i) = Some i"
| "section_file _ = None"

text \<open>
  The invariant: whoever is inside works under the file the path names, files are numbered below
  the counter, a written file names its one possible owner, and nobody is between the
  two halves of a recovery.
\<close>

definition lock_inv :: "lock_sys \<Rightarrow> bool" where
  "lock_inv s =
     ((\<forall>p i. section_file (lk_proc s p) = Some i \<longrightarrow> (\<exists>c. lk_file s = Some (i, c)))
      \<and> (\<forall>p q i. section_file (lk_proc s p) = Some i \<and> section_file (lk_proc s q) = Some i \<longrightarrow> p = q)
      \<and> (\<forall>i c. lk_file s = Some (i, c) \<longrightarrow> i < lk_next s)
      \<and> (\<forall>j q i p. lk_file s = Some (j, OwnedBy q i) \<and> section_file (lk_proc s p) = Some j \<longrightarrow> p = q)
      \<and> (\<forall>p. lk_proc s p \<noteq> Clearing))"

lemma lock_inv_start: "lock_inv start_sys"
  by (simp add: lock_inv_def start_sys_def)

lemma lock_inv_outside:
  assumes "lock_inv s" "\<And>p. section_file (lk_proc s p) = None" "\<And>p. lk_proc s' p \<noteq> Clearing"
    "\<And>p. section_file (lk_proc s' p) = None" "\<And>i c. lk_file s' = Some (i, c) \<Longrightarrow> i < lk_next s'"
  shows "lock_inv s'"
  using assms by (simp add: lock_inv_def)

text \<open>A process that stays under its file, or leaves it, keeps the invariant.\<close>

lemma lock_inv_proc:
  assumes "lock_inv s" "section_file st = None \<or> section_file st = section_file (lk_proc s p)" "st \<noteq> Clearing"
  shows "lock_inv (set_proc p st s)"
proof -
  let ?s = "set_proc p st s"
  have sub: "section_file (lk_proc ?s r) = Some i \<Longrightarrow> section_file (lk_proc s r) = Some i" for r i
    using assms(2) by (auto simp: set_proc_def split: if_splits)
  have same: "lk_file ?s = lk_file s" "lk_next ?s = lk_next s" by (simp_all add: set_proc_def)
  have "\<forall>r. lk_proc ?s r \<noteq> Clearing"
    using assms(1,3) by (simp add: set_proc_def lock_inv_def)
  moreover have "\<forall>r i. section_file (lk_proc ?s r) = Some i \<longrightarrow> (\<exists>c. lk_file s = Some (i, c))"
    using assms(1) sub unfolding lock_inv_def by blast
  moreover have "\<forall>q r i. section_file (lk_proc ?s q) = Some i \<and> section_file (lk_proc ?s r) = Some i \<longrightarrow> q = r"
    using assms(1) sub unfolding lock_inv_def by blast
  moreover have "\<forall>j q i r. lk_file s = Some (j, OwnedBy q i) \<and> section_file (lk_proc ?s r) = Some j \<longrightarrow> r = q"
    using assms(1) sub unfolding lock_inv_def by blast
  moreover have "\<forall>i c. lk_file s = Some (i, c) \<longrightarrow> i < lk_next s"
    using assms(1) unfolding lock_inv_def by blast
  ultimately show ?thesis unfolding lock_inv_def same by blast
qed

text \<open>Whoever is inside may remove the file and leave: nobody else is inside.\<close>

lemma lock_inv_removed:
  assumes "lock_inv s" "section_file (lk_proc s p) = Some i"
  shows "lock_inv (set_proc p Idle (s\<lparr>lk_file := None\<rparr>))"
proof -
  let ?s = "set_proc p Idle (s\<lparr>lk_file := None\<rparr>)"
  have "section_file (lk_proc ?s q) = None" for q
  proof (rule ccontr)
    assume "section_file (lk_proc ?s q) \<noteq> None"
    then obtain k where k: "q \<noteq> p" "section_file (lk_proc s q) = Some k"
      by (auto simp: set_proc_def split: if_splits)
    with assms show False unfolding lock_inv_def
      by (metis Pair_inject option.inject)
  qed
  with assms(1) show ?thesis by (auto simp: lock_inv_def set_proc_def)
qed

lemma lock_inv_step:
  assumes "lock_step True s s'" "lock_inv s"
  shows "lock_inv s'"
  using assms(1)
proof (cases rule: lock_step.cases)
  case (create p)
  with assms(2) show ?thesis by (auto simp: lock_inv_def set_proc_def)
next
  case (write_file p i)
  then have "section_file (lk_proc s p) = Some i" by simp
  with assms(2) obtain c where c: "lk_file s = Some (i, c)" unfolding lock_inv_def by blast
  have lkf: "lk_file s' = Some (i, OwnedBy p i)" "lk_next s' = lk_next s"
    using write_file c by (simp_all add: set_proc_def write_owner_def)
  have sec: "section_file (lk_proc s' r) = section_file (lk_proc s r)" for r
    using write_file by (simp add: set_proc_def)
  have cl: "lk_proc s' r \<noteq> Clearing" for r
    using write_file assms(2) by (simp add: set_proc_def lock_inv_def)
  have only_p: "r = p" if "section_file (lk_proc s r) = Some i" for r
    using assms(2) that \<open>section_file (lk_proc s p) = Some i\<close> unfolding lock_inv_def by blast
  have at_i: "k = i" if "section_file (lk_proc s r) = Some k" for r k
    using assms(2) that c unfolding lock_inv_def by fastforce
  have "i < lk_next s" using assms(2) c unfolding lock_inv_def by blast
  moreover have "q = r" if "section_file (lk_proc s q) = Some k" "section_file (lk_proc s r) = Some k" for q r k
    using assms(2) that unfolding lock_inv_def by blast
  ultimately show ?thesis
    unfolding lock_inv_def lkf sec using cl only_p at_i by blast
next
  case (release_read p i j q)
  with lock_inv_proc [OF assms(2), of "Releasing i" p] show ?thesis by simp
next
  case (release_lost p i)
  with lock_inv_proc [OF assms(2), of Idle p] show ?thesis by simp
next
  case (release_remove p i)
  with lock_inv_removed [OF assms(2), of p i] show ?thesis by simp
next
  case (write_failed p i)
  with lock_inv_removed [OF assms(2), of p i] show ?thesis by simp
next
  case (crash p)
  with lock_inv_proc [OF assms(2), of Crashed p] show ?thesis by simp
next
  case (clear_atomic p j q i)
  have "section_file (lk_proc s r) = None" for r
  proof (rule ccontr)
    assume "section_file (lk_proc s r) \<noteq> None"
    then obtain k where k: "section_file (lk_proc s r) = Some k" by auto
    with assms(2) clear_atomic have "k = j" "r = q" by (auto simp: lock_inv_def)
    with k clear_atomic show False by simp
  qed
  with clear_atomic assms(2) show ?thesis by (auto simp: lock_inv_def)
next
  case clear_read
  then show ?thesis by simp
next
  case (clear_remove p)
  with assms(2) show ?thesis by (auto simp: lock_inv_def)
qed

lemma reachable_inv: "reachable True s \<Longrightarrow> lock_inv s"
  by (induction rule: reachable.induct) (auto intro: lock_inv_start lock_inv_step)

section \<open>Properties\<close>

text \<open>C33: as long as nothing runs between the two halves of a \<open>ClearOrphan\<close> (in particular when nobody
  calls it) the lock is exclusive: whatever the interleaving of acquisitions, failed writes, releases,
  crashes and recoveries, at most one process at a time is between its acquisition and
  the end of its release.\<close>

theorem mirror_lock_exclusive:
  assumes "reachable True s" "section_file (lk_proc s p) \<noteq> None" "section_file (lk_proc s q) \<noteq> None"
  shows "p = q"
  using reachable_inv [OF assms(1)] assms(2,3) unfolding lock_inv_def
  by (metis Pair_inject not_None_eq option.inject)

lemma one_holder: "reachable at (set_proc 0 (Holding 0)
    (start_sys\<lparr>lk_file := Some (0, OwnedBy 0 0), lk_next := 1\<rparr>))"
proof -
  have "lock_step at start_sys (set_proc 0 (Creating 0) (start_sys\<lparr>lk_file := Some (0, Unwritten), lk_next := 1\<rparr>))"
    using lock_step.create [of start_sys 0 at] by (simp add: start_sys_def set_proc_def)
  from reachable.step [OF reachable.start this]
  have r: "reachable at (set_proc 0 (Creating 0) (start_sys\<lparr>lk_file := Some (0, Unwritten), lk_next := 1\<rparr>))" .
  have "lock_step at (set_proc 0 (Creating 0) (start_sys\<lparr>lk_file := Some (0, Unwritten), lk_next := 1\<rparr>))
      (set_proc 0 (Holding 0) (start_sys\<lparr>lk_file := Some (0, OwnedBy 0 0), lk_next := 1\<rparr>))"
    using lock_step.write_file [of "set_proc 0 (Creating 0) (start_sys\<lparr>lk_file := Some (0, Unwritten), lk_next := 1\<rparr>)" 0 0 at]
    by (simp add: start_sys_def set_proc_def write_owner_def fun_upd_twist)
  from reachable.step [OF r this] show ?thesis .
qed

theorem mirror_lock_exclusive_witness:
  "\<exists>s. reachable True s \<and> section_file (lk_proc s 0) \<noteq> None
     \<and> (\<forall>q. section_file (lk_proc s q) \<noteq> None \<longrightarrow> q = 0)"
proof -
  define s where "s = set_proc 0 (Holding 0) (start_sys\<lparr>lk_file := Some (0, OwnedBy 0 0), lk_next := 1\<rparr>)"
  have r: "reachable True s" unfolding s_def by (rule one_holder)
  have h: "section_file (lk_proc s 0) \<noteq> None" by (simp add: s_def set_proc_def)
  from mirror_lock_exclusive [OF r _ h] r h show ?thesis by blast
qed

text \<open>The first processes from a list, the others idle.\<close>

definition listed :: "proc list \<Rightarrow> nat \<Rightarrow> proc" where
  "listed ps p = (if p < length ps then ps ! p else Idle)"

definition sys_of :: "(nat \<times> content) option \<Rightarrow> nat \<Rightarrow> proc list \<Rightarrow> lock_sys" where
  "sys_of f n ps = \<lparr>lk_file = f, lk_next = n, lk_proc = listed ps\<rparr>"

lemma listed_set: "p < length ps \<Longrightarrow> (listed ps)(p := q) = listed (ps[p := q])"
  by (auto simp: listed_def fun_eq_iff nth_list_update)

lemma set_sys_of:
  "p < length ps \<Longrightarrow> set_proc p q (sys_of f n ps) = sys_of f n (ps[p := q])"
  "sys_of f n ps\<lparr>lk_file := f'\<rparr> = sys_of f' n ps"
  "sys_of f n ps\<lparr>lk_file := f', lk_next := n'\<rparr> = sys_of f' n' ps"
  "sys_of f n ps\<lparr>lk_next := n'\<rparr> = sys_of f n' ps"
  "lk_file (sys_of f n ps) = f" "lk_next (sys_of f n ps) = n"
  "p < length ps \<Longrightarrow> lk_proc (sys_of f n ps) p = ps ! p"
  by (simp_all add: sys_of_def set_proc_def listed_set) (simp add: listed_def)

lemma reachable_by:
  "reachable at s \<Longrightarrow> lock_step at s s1 \<Longrightarrow> s1 = s' \<Longrightarrow> reachable at s'"
  by (blast intro: reachable.step)

text \<open>With the recovery of the code, which reads the owner and removes the file in two steps, the lock
  is not exclusive: two processes that both saw the dead owner can, one after the other, remove the
  orphan and the fresh lock of a live process, and then two processes hold the lock at once.\<close>

theorem orphan_recovery_races:
  "\<exists>s p q i j. reachable False s \<and> p \<noteq> q \<and> lk_proc s p = Holding i \<and> lk_proc s q = Holding j"
proof -
  note sys = set_sys_of write_owner_def numeral_2_eq_2 numeral_3_eq_3
  have r0: "reachable False (sys_of (Some (0, OwnedBy 0 0)) 1 [Holding 0, Idle, Idle, Idle, Idle])"
    using one_holder [of False]
    by (rule back_subst [where P = "reachable False"])
      (auto simp: start_sys_def set_proc_def sys_of_def listed_def fun_eq_iff nth_Cons split: nat.splits)
  have r1: "reachable False (sys_of (Some (0, OwnedBy 0 0)) 1 [Crashed, Idle, Idle, Idle, Idle])"
    by (rule reachable_by [OF r0 lock_step.crash [of "sys_of (Some (0, OwnedBy 0 0)) 1 [Holding 0, Idle, Idle, Idle, Idle]" 0 False]]) (simp_all add: sys)
  have r2: "reachable False (sys_of (Some (0, OwnedBy 0 0)) 1 [Crashed, Clearing, Idle, Idle, Idle])"
    by (rule reachable_by [OF r1 lock_step.clear_read [of False "sys_of (Some (0, OwnedBy 0 0)) 1 [Crashed, Idle, Idle, Idle, Idle]" 1 0 0 0]]) (simp_all add: sys)
  have r3: "reachable False (sys_of (Some (0, OwnedBy 0 0)) 1 [Crashed, Clearing, Clearing, Idle, Idle])"
    by (rule reachable_by [OF r2 lock_step.clear_read [of False "sys_of (Some (0, OwnedBy 0 0)) 1 [Crashed, Clearing, Idle, Idle, Idle]" 2 0 0 0]]) (simp_all add: sys)
  have r4: "reachable False (sys_of (None) 1 [Crashed, Clearing, Idle, Idle, Idle])"
    by (rule reachable_by [OF r3 lock_step.clear_remove [of "sys_of (Some (0, OwnedBy 0 0)) 1 [Crashed, Clearing, Clearing, Idle, Idle]" 2 False]]) (simp_all add: sys)
  have r5: "reachable False (sys_of (Some (1, Unwritten)) 2 [Crashed, Clearing, Idle, Creating 1, Idle])"
    by (rule reachable_by [OF r4 lock_step.create [of "sys_of (None) 1 [Crashed, Clearing, Idle, Idle, Idle]" 3 False]]) (simp_all add: sys)
  have r6: "reachable False (sys_of (Some (1, OwnedBy 3 1)) 2 [Crashed, Clearing, Idle, Holding 1, Idle])"
    by (rule reachable_by [OF r5 lock_step.write_file [of "sys_of (Some (1, Unwritten)) 2 [Crashed, Clearing, Idle, Creating 1, Idle]" 3 1 False]]) (simp_all add: sys)
  have r7: "reachable False (sys_of (None) 2 [Crashed, Idle, Idle, Holding 1, Idle])"
    by (rule reachable_by [OF r6 lock_step.clear_remove [of "sys_of (Some (1, OwnedBy 3 1)) 2 [Crashed, Clearing, Idle, Holding 1, Idle]" 1 False]]) (simp_all add: sys)
  have r8: "reachable False (sys_of (Some (2, Unwritten)) 3 [Crashed, Idle, Idle, Holding 1, Creating 2])"
    by (rule reachable_by [OF r7 lock_step.create [of "sys_of (None) 2 [Crashed, Idle, Idle, Holding 1, Idle]" 4 False]]) (simp_all add: sys)
  have r9: "reachable False (sys_of (Some (2, OwnedBy 4 2)) 3 [Crashed, Idle, Idle, Holding 1, Holding 2])"
    by (rule reachable_by [OF r8 lock_step.write_file [of "sys_of (Some (2, Unwritten)) 3 [Crashed, Idle, Idle, Holding 1, Creating 2]" 4 2 False]]) (simp_all add: sys)
  show ?thesis
    by (rule exI, rule exI [of _ 3], rule exI [of _ 4], rule exI [of _ 1], rule exI [of _ 2],
        rule conjI [OF r9]) (simp add: set_sys_of)
qed

end
