(* ===== verification/Go_Json.thy ===== *)
theory Go_Json
  imports Prelude
begin

text \<open>
  JSON values as \<open>encoding/json\<close> writes and reads them, below the level of text: a tree whose
  leaves are typed. A number is an integer literal or another literal kept as text, and a
  \<open>time.Time\<close> is a string leaf kept as the instant (nanoseconds since Go's zero time), so that
  RFC 3339 text is only produced where the program prints it. Decoding into a struct follows
  the package: keys match case-insensitively, unknown keys are ignored, a later
  duplicate wins, \<open>null\<close> leaves a scalar alone, and a value of the wrong kind is an error.
\<close>

section \<open>Values\<close>

datatype number = NInt int | NLit string

datatype json =
    JNull
  | JBool bool
  | JNum number
  | JStr string
  | JTime int
  | JArr "json list"
  | JObj "(string \<times> json) list"

text \<open>
  A Go value of type \<open>any\<close> that came from JSON: \<open>float64\<close> and \<open>json.Number\<close> are
  different dynamic types, and a map is kept as its association list sorted by key, so that
  equality is \<open>reflect.DeepEqual\<close>.
\<close>

datatype goval =
    GNil
  | GBool bool
  | GFloat number
  | GNumber number
  | GStr string
  | GList "goval list"
  | GMap "(string \<times> goval) list"

fun number_text :: "number \<Rightarrow> string" where
  "number_text (NInt i) = int_text i"
| "number_text (NLit s) = s"

section \<open>Time\<close>

text \<open>
  An instant counts nanoseconds since January 1, year 1, 00:00 UTC, which is \<open>time.Time{}\<close>.
\<close>

definition is_zero_time :: "int \<Rightarrow> bool" where
  "is_zero_time t = (t = 0)"

definition pad_nat :: "nat \<Rightarrow> nat \<Rightarrow> string" where
  "pad_nat w n = (let t = nat_text n in replicate (w - length t) (CHR ''0'') @ t)"

definition civil_date :: "int \<Rightarrow> int \<times> int \<times> int" where
  "civil_date t =
     (let z = t div 86400000000000 + 306;
          era = z div 146097;
          doe = z - era * 146097;
          yoe = (doe - doe div 1460 + doe div 36524 - doe div 146096) div 365;
          doy = doe - (365 * yoe + yoe div 4 - yoe div 100);
          mp = (5 * doy + 2) div 153;
          d = doy - (153 * mp + 2) div 5 + 1;
          m = (if mp < 10 then mp + 3 else mp - 9);
          y = yoe + era * 400 + (if m \<le> 2 then 1 else 0)
      in (y, m, d))"

definition year_text :: "int \<Rightarrow> string" where
  "year_text t = (case civil_date t of (y, m, d) \<Rightarrow> pad_nat 4 (nat y))"

definition month_text :: "int \<Rightarrow> string" where
  "month_text t = (case civil_date t of (y, m, d) \<Rightarrow> pad_nat 2 (nat m))"

definition date_text :: "int \<Rightarrow> string" where
  "date_text t = (case civil_date t of (y, m, d) \<Rightarrow>
     pad_nat 4 (nat y) @ ''-'' @ pad_nat 2 (nat m) @ ''-'' @ pad_nat 2 (nat d))"

definition fraction_text :: "nat \<Rightarrow> string" where
  "fraction_text n =
     (if n = 0 then []
      else CHR ''.'' # rev (dropWhile (\<lambda>c. c = CHR ''0'') (rev (pad_nat 9 n))))"

text \<open>\<open>t.Format(time.RFC3339Nano)\<close> of an instant in UTC.\<close>

definition rfc3339_text :: "int \<Rightarrow> string" where
  "rfc3339_text t =
     (let s = (t div 1000000000) mod 86400; ns = nat (t mod 1000000000)
      in date_text t @ ''T'' @ pad_nat 2 (nat (s div 3600)) @ '':''
           @ pad_nat 2 (nat (s mod 3600 div 60)) @ '':'' @ pad_nat 2 (nat (s mod 60))
           @ fraction_text ns @ ''Z'')"

section \<open>Maps\<close>

text \<open>A Go map as a sorted association list: assignment, and construction from entries.\<close>

fun map_put :: "string \<Rightarrow> 'v \<Rightarrow> (string \<times> 'v) list \<Rightarrow> (string \<times> 'v) list" where
  "map_put k v [] = [(k, v)]"
| "map_put k v ((k', v') # m) =
     (if k = k' then (k, v) # m
      else if k < k' then (k, v) # (k', v') # m
      else (k', v') # map_put k v m)"

definition map_build :: "(string \<times> 'v) list \<Rightarrow> (string \<times> 'v) list" where
  "map_build kvs = fold (\<lambda>(k, v). map_put k v) kvs []"

lemma map_of_map_put [simp]: "map_of (map_put k v m) = (map_of m)(k \<mapsto> v)"
  by (induction m rule: map_put.induct) (auto simp: fun_eq_iff)

lemma keys_map_put: "fst ` set (map_put k v m) = insert k (fst ` set m)"
  by (induction m rule: map_put.induct) auto

lemma sorted_map_put: "sorted_wrt (<) (map fst m) \<Longrightarrow> sorted_wrt (<) (map fst (map_put k v m))"
proof (induction m rule: map_put.induct)
  case (2 k v k' v' m)
  then show ?case
    using keys_map_put [of k v m] by (auto simp: image_iff dest: order.strict_trans)
qed simp

lemma sorted_map_build: "sorted_wrt (<) (map fst (map_build kvs))"
proof -
  have "sorted_wrt (<) (map fst m) \<Longrightarrow> sorted_wrt (<) (map fst (fold (\<lambda>(k, v). map_put k v) kvs m))"
    for m
    by (induction kvs arbitrary: m) (auto simp: sorted_map_put)
  then show ?thesis by (simp add: map_build_def)
qed

lemma map_put_last:
  "sorted_wrt (<) (map fst m @ [k]) \<Longrightarrow> map_put k v m = m @ [(k, v)]"
  by (induction m rule: map_put.induct) auto

lemma map_build_sorted: "sorted_wrt (<) (map fst kvs) \<Longrightarrow> map_build kvs = kvs"
proof -
  have "sorted_wrt (<) (map fst (m @ kvs)) \<Longrightarrow> fold (\<lambda>(k, v). map_put k v) kvs m = m @ kvs"
    for m :: "(string \<times> 'a) list"
  proof (induction kvs arbitrary: m)
    case Nil
    then show ?case by simp
  next
    case (Cons kv kvs)
    obtain k v where kv: "kv = (k, v)" by (cases kv)
    from Cons.prems kv have "sorted_wrt (<) (map fst m @ [k])"
      by (auto simp: sorted_wrt_append)
    then have "map_put k v m = m @ [(k, v)]" by (rule map_put_last)
    with Cons.IH [of "m @ [(k, v)]"] Cons.prems kv show ?case by simp
  qed
  then show "sorted_wrt (<) (map fst kvs) \<Longrightarrow> map_build kvs = kvs"
    by (simp add: map_build_def)
qed

lemma map_build_values:
  assumes "\<forall>kv \<in> set l. P (snd kv)"
  shows "\<forall>kv \<in> set (map_build l). P (snd kv)"
proof -
  have put: "set (map_put k v m) \<subseteq> insert (k, v) (set m)" for k v and m :: "(string \<times> 'a) list"
    by (induction m rule: map_put.induct) auto
  have step: "\<forall>kv \<in> set (fold (\<lambda>(k, v). map_put k v) l m). P (snd kv)"
    if "\<forall>kv \<in> set l. P (snd kv)" "\<forall>kv \<in> set m. P (snd kv)" for l m :: "(string \<times> 'a) list"
    using that
  proof (induction l arbitrary: m)
    case Nil
    then show ?case by simp
  next
    case (Cons kv l)
    obtain k v where kv: "kv = (k, v)" by (cases kv)
    from put [of k v m] Cons.prems kv have "\<forall>kv \<in> set (map_put k v m). P (snd kv)"
      by auto
    with Cons kv show ?case by auto
  qed
  from step [of l "[]"] assms show ?thesis by (simp add: map_build_def)
qed

section \<open>Conversion between JSON and dynamic values\<close>

text \<open>Decoding into \<open>any\<close>: the flag is \<open>Decoder.UseNumber\<close>.\<close>

primrec any_of_json :: "bool \<Rightarrow> json \<Rightarrow> goval" where
  "any_of_json un JNull = GNil"
| "any_of_json un (JBool b) = GBool b"
| "any_of_json un (JNum n) = (if un then GNumber n else GFloat n)"
| "any_of_json un (JStr s) = GStr s"
| "any_of_json un (JTime t) = GStr (rfc3339_text t)"
| "any_of_json un (JArr xs) = GList (map (any_of_json un) xs)"
| "any_of_json un (JObj kvs) = GMap (map_build (map (map_prod id (any_of_json un)) kvs))"

text \<open>\<open>json.Marshal\<close> of a dynamic value; map keys are written in sorted order.\<close>

primrec json_of_any :: "goval \<Rightarrow> json" where
  "json_of_any GNil = JNull"
| "json_of_any (GBool b) = JBool b"
| "json_of_any (GFloat n) = JNum n"
| "json_of_any (GNumber n) = JNum n"
| "json_of_any (GStr s) = JStr s"
| "json_of_any (GList xs) = JArr (map json_of_any xs)"
| "json_of_any (GMap kvs) = JObj (map (map_prod id json_of_any) kvs)"

text \<open>A value as \<open>UseNumber\<close> decoding yields it: no \<open>float64\<close>, and sorted maps.\<close>

primrec normal_any :: "goval \<Rightarrow> bool" where
  "normal_any GNil = True"
| "normal_any (GBool b) = True"
| "normal_any (GFloat n) = False"
| "normal_any (GNumber n) = True"
| "normal_any (GStr s) = True"
| "normal_any (GList xs) = list_all (\<lambda>b. b) (map normal_any xs)"
| "normal_any (GMap kvs) =
     (sorted_wrt (<) (map fst kvs) \<and> list_all (\<lambda>kb. snd kb) (map (map_prod id normal_any) kvs))"

lemma any_of_json_of_any: "normal_any g \<Longrightarrow> any_of_json True (json_of_any g) = g"
proof (induction g)
  case (GList xs)
  then show ?case by (auto simp: list_all_iff intro: map_idI)
next
  case (GMap kvs)
  have "map (map_prod (\<lambda>x. x) (\<lambda>x. any_of_json True (json_of_any x))) kvs = kvs"
    using GMap by (intro map_idI) (force simp: list_all_iff)
  with GMap.prems show ?case
    by (simp add: map_prod.compositionality comp_def id_def map_build_sorted)
qed auto

lemma normal_any_of_json: "normal_any (any_of_json True j)"
proof (induction j)
  case (JArr xs)
  then show ?case by (auto simp: list_all_iff)
next
  case (JObj kvs)
  have "\<forall>kv \<in> set (map_build (map (map_prod id (any_of_json True)) kvs)). normal_any (snd kv)"
  proof (rule map_build_values)
    show "\<forall>kv \<in> set (map (map_prod id (any_of_json True)) kvs). normal_any (snd kv)"
      using JObj by (force simp: snds.simps)
  qed
  then show ?case
    by (auto simp: list_all_iff sorted_map_build)
qed auto

section \<open>Text\<close>

definition hex_digit :: "nat \<Rightarrow> char" where
  "hex_digit n = (if n < 10 then char_of (48 + n) else char_of (87 + n))"

definition escape_char :: "char \<Rightarrow> string" where
  "escape_char c =
     (let b = byte c in
      if b = 34 then [CHR 0x5C, CHR 0x22]
      else if b = 92 then [CHR 0x5C, CHR 0x5C]
      else if b = 8 then [CHR 0x5C, CHR ''b'']
      else if b = 12 then [CHR 0x5C, CHR ''f'']
      else if b = 10 then [CHR 0x5C, CHR ''n'']
      else if b = 13 then [CHR 0x5C, CHR ''r'']
      else if b = 9 then [CHR 0x5C, CHR ''t'']
      else if b < 32 \<or> b = 60 \<or> b = 62 \<or> b = 38
        then [CHR 0x5C] @ ''u00'' @ [hex_digit (b div 16), hex_digit (b mod 16)]
      else [c])"

text \<open>
  The string escapes of \<open>json.Marshal\<close> (with HTML escaping, its default) on valid UTF-8;
  U+2028 and U+2029 are escaped as well.
\<close>

function escape_text :: "string \<Rightarrow> string" where
  "escape_text [] = []"
| "escape_text (c # cs) =
     (if has_prefix [CHR 0xE2, CHR 0x80, CHR 0xA8] (c # cs)
        then CHR 0x5C # ''u2028'' @ escape_text (drop 2 cs)
      else if has_prefix [CHR 0xE2, CHR 0x80, CHR 0xA9] (c # cs)
        then CHR 0x5C # ''u2029'' @ escape_text (drop 2 cs)
      else escape_char c @ escape_text cs)"
  by pat_completeness auto
termination
  by (relation "measure length") auto

definition quoted_text :: "string \<Rightarrow> string" where
  "quoted_text s = [CHR 0x22] @ escape_text s @ [CHR 0x22]"

primrec json_text :: "json \<Rightarrow> string" where
  "json_text JNull = ''null''"
| "json_text (JBool b) = (if b then ''true'' else ''false'')"
| "json_text (JNum n) = number_text n"
| "json_text (JStr s) = quoted_text s"
| "json_text (JTime t) = [CHR 0x22] @ rfc3339_text t @ [CHR 0x22]"
| "json_text (JArr xs) = ''['' @ join_with '','' (map json_text xs) @ '']''"
| "json_text (JObj kvs) =
     ''{'' @ join_with '',''
       (map (\<lambda>kt. quoted_text (fst kt) @ '':'' @ snd kt) (map (map_prod id json_text) kvs)) @ ''}''"

section \<open>Decoding into structs\<close>

text \<open>The values an object gives to a field, in the order of the text.\<close>

definition field_values :: "string \<Rightarrow> (string \<times> json) list \<Rightarrow> json list" where
  "field_values name kvs = map snd (filter (\<lambda>kv. equal_fold (fst kv) name) kvs)"

fun dec_string :: "string \<Rightarrow> json list \<Rightarrow> string option" where
  "dec_string d [] = Some d"
| "dec_string d (JStr s # vs) = dec_string s vs"
| "dec_string d (JTime t # vs) = dec_string (rfc3339_text t) vs"
| "dec_string d (JNull # vs) = dec_string d vs"
| "dec_string d (_ # vs) = None"

fun dec_int :: "int \<Rightarrow> json list \<Rightarrow> int option" where
  "dec_int d [] = Some d"
| "dec_int d (JNum (NInt i) # vs) =
     (if - (2 ^ 63) \<le> i \<and> i < 2 ^ 63 then dec_int i vs else None)"
| "dec_int d (JNull # vs) = dec_int d vs"
| "dec_int d (_ # vs) = None"

fun dec_bool :: "bool \<Rightarrow> json list \<Rightarrow> bool option" where
  "dec_bool d [] = Some d"
| "dec_bool d (JBool b # vs) = dec_bool b vs"
| "dec_bool d (JNull # vs) = dec_bool d vs"
| "dec_bool d (_ # vs) = None"

fun dec_time :: "int \<Rightarrow> json list \<Rightarrow> int option" where
  "dec_time d [] = Some d"
| "dec_time d (JTime t # vs) = dec_time t vs"
| "dec_time d (JNull # vs) = dec_time d vs"
| "dec_time d (_ # vs) = None"

fun dec_all :: "(json \<Rightarrow> 'a option) \<Rightarrow> json list \<Rightarrow> 'a list option" where
  "dec_all f [] = Some []"
| "dec_all f (j # js) =
     (case f j of None \<Rightarrow> None
      | Some x \<Rightarrow> (case dec_all f js of None \<Rightarrow> None | Some xs \<Rightarrow> Some (x # xs)))"

text \<open>A slice: an array replaces the elements, \<open>null\<close> makes it nil.\<close>

fun dec_slice :: "(json \<Rightarrow> 'a option) \<Rightarrow> 'a list \<Rightarrow> json list \<Rightarrow> 'a list option" where
  "dec_slice f d [] = Some d"
| "dec_slice f d (JArr js # vs) =
     (case dec_all f js of None \<Rightarrow> None | Some xs \<Rightarrow> dec_slice f xs vs)"
| "dec_slice f d (JNull # vs) = dec_slice f [] vs"
| "dec_slice f d (_ # vs) = None"

text \<open>A \<open>map[string]any\<close> field, \<^term>\<open>None\<close> inside for the nil map.\<close>

fun dec_args :: "bool \<Rightarrow> (string \<times> goval) list option \<Rightarrow> json list
    \<Rightarrow> (string \<times> goval) list option option" where
  "dec_args un d [] = Some d"
| "dec_args un d (JObj kvs # vs) =
     dec_args un
       (Some (fold (\<lambda>kv. map_put (fst kv) (any_of_json un (snd kv))) kvs (case d of None \<Rightarrow> [] | Some m \<Rightarrow> m))) vs"
| "dec_args un d (JNull # vs) = dec_args un None vs"
| "dec_args un d (_ # vs) = None"

text \<open>A nested struct: an object is decoded over the fields already there.\<close>

fun dec_struct :: "((string \<times> json) list \<Rightarrow> 'a \<Rightarrow> 'a option) \<Rightarrow> 'a \<Rightarrow> json list \<Rightarrow> 'a option" where
  "dec_struct f d [] = Some d"
| "dec_struct f d (JObj kvs # vs) =
     (case f kvs d of None \<Rightarrow> None | Some x \<Rightarrow> dec_struct f x vs)"
| "dec_struct f d (JNull # vs) = dec_struct f d vs"
| "dec_struct f d (_ # vs) = None"

section \<open>Encoding of optional fields\<close>

text \<open>\<open>omitempty\<close> on strings, lists and integers.\<close>

definition opt_str :: "string \<Rightarrow> string \<Rightarrow> (string \<times> json) list" where
  "opt_str name s = (if s = [] then [] else [(name, JStr s)])"

definition opt_arr :: "string \<Rightarrow> json list \<Rightarrow> (string \<times> json) list" where
  "opt_arr name js = (if js = [] then [] else [(name, JArr js)])"

definition opt_bool :: "string \<Rightarrow> bool \<Rightarrow> (string \<times> json) list" where
  "opt_bool name b = (if b then [(name, JBool True)] else [])"

definition opt_int :: "string \<Rightarrow> int \<Rightarrow> (string \<times> json) list" where
  "opt_int name i = (if i = 0 then [] else [(name, JNum (NInt i))])"

definition opt_args :: "string \<Rightarrow> (string \<times> goval) list option \<Rightarrow> (string \<times> json) list" where
  "opt_args name m = (case m of None \<Rightarrow> []
     | Some kvs \<Rightarrow> if kvs = [] then [] else [(name, json_of_any (GMap kvs))])"

lemma field_values_Nil [simp]: "field_values name [] = []"
  by (simp add: field_values_def)

lemma field_values_append [simp]:
  "field_values name (a @ b) = field_values name a @ field_values name b"
  by (simp add: field_values_def)

lemma field_values_hit [simp]:
  "equal_fold k name \<Longrightarrow> field_values name ((k, v) # kvs) = v # field_values name kvs"
  by (simp add: field_values_def)

lemma field_values_miss [simp]:
  "\<not> equal_fold k name \<Longrightarrow> field_values name ((k, v) # kvs) = field_values name kvs"
  "\<not> equal_fold k name \<Longrightarrow> field_values name (opt_str k s) = []"
  "\<not> equal_fold k name \<Longrightarrow> field_values name (opt_arr k js) = []"
  "\<not> equal_fold k name \<Longrightarrow> field_values name (opt_bool k b) = []"
  "\<not> equal_fold k name \<Longrightarrow> field_values name (opt_int k i) = []"
  "\<not> equal_fold k name \<Longrightarrow> field_values name (opt_args k m) = []"
  by (simp_all add: field_values_def opt_str_def opt_arr_def opt_bool_def opt_int_def opt_args_def
      split: option.splits)

text \<open>A decoder reads back what \<open>omitempty\<close> left out, over the zero value.\<close>

lemma dec_opt_str [simp]:
  "equal_fold k name \<Longrightarrow> dec_string [] (field_values name (opt_str k s) @ vs) = dec_string s vs"
  "equal_fold k name \<Longrightarrow> dec_string [] (field_values name (opt_str k s)) = Some s"
  by (simp_all add: field_values_def opt_str_def)

lemma dec_opt_bool [simp]:
  "equal_fold k name \<Longrightarrow> dec_bool False (field_values name (opt_bool k b) @ vs) = dec_bool b vs"
  "equal_fold k name \<Longrightarrow> dec_bool False (field_values name (opt_bool k b)) = Some b"
  by (simp_all add: field_values_def opt_bool_def)

lemma dec_opt_int [simp]:
  "equal_fold k name \<Longrightarrow> - (2 ^ 63) \<le> i \<Longrightarrow> i < 2 ^ 63 \<Longrightarrow>
     dec_int 0 (field_values name (opt_int k i)) = Some i"
  by (simp add: field_values_def opt_int_def)

lemma dec_opt_arr [simp]:
  "equal_fold k name \<Longrightarrow> dec_all f js = Some xs \<Longrightarrow>
     dec_slice f [] (field_values name (opt_arr k js)) = Some xs"
  by (auto simp: field_values_def opt_arr_def)

lemma equal_fold_refl [simp]: "equal_fold k k"
  by (simp add: equal_fold_def)

lemma fold_case_lower:
  "list_all (\<lambda>c. byte c < 128 \<and> ascii_lower c = c) s \<Longrightarrow> fold_case s = s"
  unfolding fold_case_def by (induction s) auto

lemma equal_fold_lower:
  "list_all (\<lambda>c. byte c < 128 \<and> ascii_lower c = c) a \<Longrightarrow>
   list_all (\<lambda>c. byte c < 128 \<and> ascii_lower c = c) b \<Longrightarrow> equal_fold a b \<longleftrightarrow> a = b"
  by (simp add: equal_fold_def fold_case_lower)

lemma dec_all_map: "(\<And>x. x \<in> set xs \<Longrightarrow> f (g x) = Some x) \<Longrightarrow> dec_all f (map g xs) = Some xs"
  by (induction xs) auto

end
