(* ===== verification/Go_Runtime.thy ===== *)
theory Go_Runtime
  imports Go_Json
begin

text \<open>
  What the program takes from its surroundings, as explicit state. Every fallible step of the
  operating system or of a context check consumes one element of \<open>faults\<close>: an empty list (and
  \<^term>\<open>NoFault\<close>) is success, so a theorem that holds for every \<open>faults\<close> holds for every
  pattern of I/O errors and cancellations. Every \<open>time.Now()\<close> reads the next value of \<open>clock\<close>.
  The records of the components' states extend this one.
\<close>

text \<open>
  \<open>FailClean\<close> is an error with no effect; \<open>FailTorn\<close> is an error of a write that left part of
  its bytes behind, with the flag telling whether only the final newline is missing.
\<close>

datatype fault = NoFault | FailClean err | FailTorn bool err

record env =
  faults :: "fault list"
  clock :: "nat \<Rightarrow> int"
  reads :: nat

definition next_fault :: "'a env_scheme \<Rightarrow> fault \<times> 'a env_scheme" where
  "next_fault w = (case faults w of [] \<Rightarrow> (NoFault, w) | f # fs \<Rightarrow> (f, w\<lparr>faults := fs\<rparr>))"

text \<open>A fallible step without partial effects: \<^term>\<open>None\<close> is success.\<close>

definition try_io :: "'a env_scheme \<Rightarrow> err option \<times> 'a env_scheme" where
  "try_io w =
     (case next_fault w of
        (NoFault, w') \<Rightarrow> (None, w')
      | (FailClean e, w') \<Rightarrow> (Some e, w')
      | (FailTorn b e, w') \<Rightarrow> (Some e, w'))"

text \<open>\<open>ctx.Err()\<close>, and the \<open>select\<close> on \<open>ctx.Done()\<close>.\<close>

definition ctx_err :: "'a env_scheme \<Rightarrow> err option \<times> 'a env_scheme" where
  "ctx_err w = try_io w"

definition time_now :: "'a env_scheme \<Rightarrow> int \<times> 'a env_scheme" where
  "time_now w = (clock w (reads w), w\<lparr>reads := Suc (reads w)\<rparr>)"

lemma next_fault_calm [simp]: "faults w = [] \<Longrightarrow> next_fault w = (NoFault, w)"
  by (simp add: next_fault_def)

lemma try_io_calm [simp]: "faults w = [] \<Longrightarrow> try_io w = (None, w)"
  by (simp add: try_io_def)

lemma ctx_err_calm [simp]: "faults w = [] \<Longrightarrow> ctx_err w = (None, w)"
  by (simp add: ctx_err_def)

text \<open>These steps touch nothing but the environment.\<close>

lemma same_faults [simp, intro]: "\<exists>fs. w = w\<lparr>faults := fs\<rparr>"
  by (rule exI [of _ "faults w"]) simp

lemma next_fault_frame: "next_fault w = (f, w') \<Longrightarrow> \<exists>fs. w' = w\<lparr>faults := fs\<rparr>"
proof -
  assume "next_fault w = (f, w')"
  then have "w' = w\<lparr>faults := faults w'\<rparr>"
    by (auto simp: next_fault_def split: list.splits)
  then show ?thesis ..
qed

lemma try_io_frame: "try_io w = (r, w') \<Longrightarrow> \<exists>fs. w' = w\<lparr>faults := fs\<rparr>"
  unfolding try_io_def by (auto split: prod.splits fault.splits dest: next_fault_frame)

lemma ctx_err_frame: "ctx_err w = (r, w') \<Longrightarrow> \<exists>fs. w' = w\<lparr>faults := fs\<rparr>"
  unfolding ctx_err_def by (rule try_io_frame)

lemma more_next_fault [simp, frame]: "env.more (snd (next_fault w)) = env.more w"
  by (simp add: next_fault_def split: list.splits)

lemma more_try_io [simp, frame]: "env.more (snd (try_io w)) = env.more w"
  using try_io_frame [of w "fst (try_io w)" "snd (try_io w)"] by auto

lemma more_ctx_err [simp, frame]: "env.more (snd (ctx_err w)) = env.more w"
  by (simp add: ctx_err_def)

lemma more_time_now [simp, frame]: "env.more (snd (time_now w)) = env.more w"
  by (simp add: time_now_def)

lemma faults_time_now [simp]: "faults (snd (time_now w)) = faults w"
  by (simp add: time_now_def)

text \<open>No fault is left among those to come.\<close>

definition quiet :: "'a env_scheme \<Rightarrow> bool" where
  "quiet w = (\<forall>f \<in> set (faults w). f = NoFault)"

lemma quiet_calm [simp]: "faults w = [] \<Longrightarrow> quiet w"
  by (simp add: quiet_def)

lemma quiet_try_io: "quiet w \<Longrightarrow> \<exists>fs. try_io w = (None, w\<lparr>faults := fs\<rparr>) \<and> (\<forall>f \<in> set fs. f = NoFault)"
  by (cases "faults w") (auto simp: quiet_def try_io_def next_fault_def intro: exI [of _ "[]"])

lemma quiet_ctx_err: "quiet w \<Longrightarrow> \<exists>fs. ctx_err w = (None, w\<lparr>faults := fs\<rparr>) \<and> (\<forall>f \<in> set fs. f = NoFault)"
  by (simp add: ctx_err_def quiet_try_io)

end
