(* ===== verification/Contracts.thy ===== *)
theory Contracts
  imports Go_Runtime
begin

text \<open>
  The provider-neutral contracts of \<open>core/storagecontract/contracts.go\<close> and their aliases in
  \<open>core/storage_contract.go\<close>: mirror states, failure classes, typed remote revisions, the remote
  diary, the mirror result and the remote binding, with their validations, and the redaction of
  diagnostics before they enter the journal. \<open>crypto/sha256\<close> followed by \<open>hex\<close> is a parameter
  \<open>sha\<close>, and \<open>net/url\<close>'s removal of userinfo a parameter \<open>strip\<close>.
\<close>

section \<open>States and failure classes\<close>

text \<open>Typed string constants; a value decoded from a journal may be any string.\<close>

definition BackendWiki :: string where "BackendWiki = ''wiki''"
definition BackendIssues :: string where "BackendIssues = ''issues''"

definition Mirrored :: string where "Mirrored = ''mirrored''"
definition SyncPending :: string where "SyncPending = ''StorageSyncPending''"
definition SyncConflict :: string where "SyncConflict = ''StorageSyncConflict''"
definition PrerequisiteMissing :: string where
  "PrerequisiteMissing = ''StoragePrerequisiteMissing''"

definition FailureTransient :: string where "FailureTransient = ''transient''"
definition FailureConflict :: string where "FailureConflict = ''conflict''"
definition FailurePrerequisite :: string where "FailurePrerequisite = ''prerequisite_missing''"
definition FailureAlreadyInProgress :: string where
  "FailureAlreadyInProgress = ''already_in_progress''"

lemmas storage_constants =
  BackendWiki_def BackendIssues_def Mirrored_def SyncPending_def SyncConflict_def
  PrerequisiteMissing_def FailureTransient_def FailureConflict_def FailurePrerequisite_def
  FailureAlreadyInProgress_def

text \<open>\<open>StorageEventType\<close>\<close>

definition storage_event_type :: "string \<Rightarrow> string" where
  "storage_event_type state =
     (if state = Mirrored then ''storage.sync.succeeded''
      else if state = SyncConflict then ''storage.sync.conflict''
      else if state = PrerequisiteMissing then ''storage.prerequisite.missing''
      else ''storage.sync.pending'')"

section \<open>Remote revisions\<close>

definition after_colon_hash :: "string \<Rightarrow> bool" where
  "after_colon_hash body =
     (case (index_of '':'' body, last_index_of '':'' body) of
        (Some first, Some last_i) \<Rightarrow>
          \<not> (first = 0 \<or> last_i \<le> first + 1 \<or> last_i + 1 = length body
             \<or> \<not> is_sha256 (drop (last_i + 1) body))
      | _ \<Rightarrow> False)"

definition validate_revision :: "string \<Rightarrow> err option" where
  "validate_revision v =
     (if has_prefix ''git:'' v
      then (if is_hex (trim_prefix ''git:'' v) 7 then None
            else Some (new_err ''git remote revision requires a commit SHA''))
      else if has_prefix ''issue:'' v
      then (if after_colon_hash (trim_prefix ''issue:'' v) then None
            else Some (new_err ''issue remote revision requires id, observed time, and body hash''))
      else if has_prefix ''comment:'' v
      then (if after_colon_hash (trim_prefix ''comment:'' v) then None
            else Some (new_err ''comment remote revision requires id, observed time, and body hash''))
      else Some (new_err (''unsupported remote revision '' @ quoted_text v)))"

section \<open>The remote diary\<close>

record remote_diary =
  rd_session_id :: string
  rd_repository_id :: string
  rd_commit_sha :: string
  rd_artifact_hash :: string
  rd_content :: string

definition validate_diary :: "remote_diary \<Rightarrow> err option" where
  "validate_diary d =
     (if rd_session_id d = [] \<or> rd_repository_id d = [] \<or> rd_commit_sha d = []
         \<or> rd_artifact_hash d = [] \<or> rd_content d = []
      then Some (new_err ''session diary is missing required fields'') else None)"

definition key_preimage :: "string \<Rightarrow> string \<Rightarrow> string \<Rightarrow> string" where
  "key_preimage repo commit artifact_hash =
     repo @ [newline] @ commit @ [newline] @ artifact_hash"

definition diary_key :: "(string \<Rightarrow> string) \<Rightarrow> remote_diary \<Rightarrow> string" where
  "diary_key sha d = sha (key_preimage (rd_repository_id d) (rd_commit_sha d) (rd_artifact_hash d))"

section \<open>The mirror result\<close>

record storage_result =
  sr_event_id :: string
  sr_state :: string
  sr_backend :: string
  sr_provider :: string
  sr_key :: string
  sr_remote_id :: string
  sr_remote_url :: string
  sr_remote_rev :: string
  sr_expected_rev :: string
  sr_local_hash :: string
  sr_effective_remote_hash :: string
  sr_remote_content :: string
  sr_failure_class :: string
  sr_conflict_snapshot :: string
  sr_already_in_progress :: bool
  sr_unverified_identity :: bool
  sr_error :: string
  sr_cause :: "err option"

definition zero_result :: storage_result where
  "zero_result =
     \<lparr>sr_event_id = [], sr_state = [], sr_backend = [], sr_provider = [], sr_key = [],
      sr_remote_id = [], sr_remote_url = [], sr_remote_rev = [], sr_expected_rev = [],
      sr_local_hash = [], sr_effective_remote_hash = [], sr_remote_content = [],
      sr_failure_class = [], sr_conflict_snapshot = [], sr_already_in_progress = False,
      sr_unverified_identity = False, sr_error = [], sr_cause = None\<rparr>"

text \<open>
  The durable form: \<open>RemoteContent\<close>, \<open>UnverifiedIdentity\<close> and \<open>Cause\<close> are tagged \<open>json:"-"\<close>
  and never written.
\<close>

definition enc_result :: "storage_result \<Rightarrow> json" where
  "enc_result r = JObj
     (opt_str ''event_id'' (sr_event_id r) @ [(''state'', JStr (sr_state r))]
      @ opt_str ''backend'' (sr_backend r) @ opt_str ''provider'' (sr_provider r)
      @ opt_str ''idempotency_key'' (sr_key r) @ opt_str ''remote_id'' (sr_remote_id r)
      @ opt_str ''remote_url'' (sr_remote_url r) @ opt_str ''remote_revision'' (sr_remote_rev r)
      @ opt_str ''expected_revision'' (sr_expected_rev r) @ opt_str ''local_hash'' (sr_local_hash r)
      @ opt_str ''effective_remote_hash'' (sr_effective_remote_hash r)
      @ opt_str ''failure_class'' (sr_failure_class r)
      @ opt_str ''conflict_snapshot'' (sr_conflict_snapshot r)
      @ opt_bool ''already_in_progress'' (sr_already_in_progress r)
      @ opt_str ''error'' (sr_error r))"

definition str_field :: "string \<Rightarrow> (string \<times> json) list \<Rightarrow> string option" where
  "str_field name kvs = dec_string [] (field_values name kvs)"

definition dec_result :: "json \<Rightarrow> storage_result option" where
  "dec_result j =
     (case j of
        JNull \<Rightarrow> Some zero_result
      | JObj kvs \<Rightarrow>
          (case (str_field ''event_id'' kvs, str_field ''state'' kvs, str_field ''backend'' kvs,
                 str_field ''provider'' kvs, str_field ''idempotency_key'' kvs,
                 str_field ''remote_id'' kvs, str_field ''remote_url'' kvs,
                 str_field ''remote_revision'' kvs)
           of (Some ev, Some st, Some be, Some pr, Some key, Some rid, Some url, Some rv) \<Rightarrow>
            (case (str_field ''expected_revision'' kvs, str_field ''local_hash'' kvs,
                   str_field ''effective_remote_hash'' kvs, str_field ''failure_class'' kvs,
                   str_field ''conflict_snapshot'' kvs,
                   dec_bool False (field_values ''already_in_progress'' kvs),
                   str_field ''error'' kvs)
             of (Some er, Some lh, Some erh, Some fc, Some cs, Some aip, Some e) \<Rightarrow>
              Some (zero_result\<lparr>sr_event_id := ev, sr_state := st, sr_backend := be,
                sr_provider := pr, sr_key := key, sr_remote_id := rid, sr_remote_url := url,
                sr_remote_rev := rv, sr_expected_rev := er, sr_local_hash := lh,
                sr_effective_remote_hash := erh, sr_failure_class := fc,
                sr_conflict_snapshot := cs, sr_already_in_progress := aip, sr_error := e\<rparr>)
             | _ \<Rightarrow> None)
           | _ \<Rightarrow> None)
      | _ \<Rightarrow> None)"

text \<open>What survives the journal: everything but the three transient fields.\<close>

definition durable_result :: "storage_result \<Rightarrow> storage_result" where
  "durable_result r =
     r\<lparr>sr_remote_content := [], sr_unverified_identity := False, sr_cause := None\<rparr>"

lemma contract_names [simp]:
  "fold_case ''event_id'' = ''event_id''" "fold_case ''state'' = ''state''"
  "fold_case ''backend'' = ''backend''" "fold_case ''provider'' = ''provider''"
  "fold_case ''idempotency_key'' = ''idempotency_key''" "fold_case ''remote_id'' = ''remote_id''"
  "fold_case ''remote_url'' = ''remote_url''" "fold_case ''remote_revision'' = ''remote_revision''"
  "fold_case ''expected_revision'' = ''expected_revision''"
  "fold_case ''local_hash'' = ''local_hash''"
  "fold_case ''effective_remote_hash'' = ''effective_remote_hash''"
  "fold_case ''failure_class'' = ''failure_class''"
  "fold_case ''conflict_snapshot'' = ''conflict_snapshot''"
  "fold_case ''already_in_progress'' = ''already_in_progress''" "fold_case ''error'' = ''error''"
  "fold_case ''url'' = ''url''" "fold_case ''updated_at'' = ''updated_at''"
  by (rule fold_case_lower, code_simp)+

lemma str_field_evals:
  "str_field n (a @ b) = Option.bind (str_field n a) (\<lambda>d. dec_string d (field_values n b))"
  "str_field n [] = Some []"
proof -
  have app: "dec_string d (xs @ ys) = Option.bind (dec_string d xs) (\<lambda>d. dec_string d ys)" for d xs ys
    by (induction d xs rule: dec_string.induct) auto
  show "str_field n (a @ b) = Option.bind (str_field n a) (\<lambda>d. dec_string d (field_values n b))"
    by (simp add: str_field_def app)
  show "str_field n [] = Some []" by (simp add: str_field_def)
qed

lemma dec_enc_result: "dec_result (enc_result r) = Some (durable_result r)"
  by (simp add: dec_result_def enc_result_def str_field_def durable_result_def zero_result_def
      equal_fold_def)

section \<open>Remote bindings\<close>

record remote_binding =
  rb_key :: string
  rb_backend :: string
  rb_provider :: string
  rb_remote_id :: string
  rb_url :: string
  rb_revision :: string
  rb_local_hash :: string
  rb_effective_remote_hash :: string
  rb_updated_at :: int

definition validate_binding :: "remote_binding \<Rightarrow> err option" where
  "validate_binding b =
     (if \<not> is_sha256 (rb_key b)
      then Some (new_err ''remote binding requires a SHA-256 idempotency key'')
      else if rb_backend b \<noteq> BackendWiki \<and> rb_backend b \<noteq> BackendIssues
      then Some (new_err ''remote binding requires a supported backend'')
      else if rb_provider b = [] \<or> rb_remote_id b = [] \<or> rb_url b = []
      then Some (new_err ''remote binding requires provider, remote ID, and URL'')
      else (case validate_revision (rb_revision b) of
              Some e \<Rightarrow> Some e
            | None \<Rightarrow>
                if \<not> is_sha256 (rb_local_hash b) \<or> \<not> is_sha256 (rb_effective_remote_hash b)
                then Some (new_err ''remote binding requires SHA-256 local and effective remote hashes'')
                else if is_zero_time (rb_updated_at b)
                then Some (new_err ''remote binding requires updated_at'')
                else None))"

definition enc_binding :: "remote_binding \<Rightarrow> json" where
  "enc_binding b = JObj
     [(''idempotency_key'', JStr (rb_key b)), (''backend'', JStr (rb_backend b)),
      (''provider'', JStr (rb_provider b)), (''remote_id'', JStr (rb_remote_id b)),
      (''url'', JStr (rb_url b)), (''remote_revision'', JStr (rb_revision b)),
      (''local_hash'', JStr (rb_local_hash b)),
      (''effective_remote_hash'', JStr (rb_effective_remote_hash b)),
      (''updated_at'', JTime (rb_updated_at b))]"

definition dec_binding :: "json \<Rightarrow> remote_binding option" where
  "dec_binding j =
     (case j of
        JNull \<Rightarrow> Some \<lparr>rb_key = [], rb_backend = [], rb_provider = [], rb_remote_id = [],
                   rb_url = [], rb_revision = [], rb_local_hash = [],
                   rb_effective_remote_hash = [], rb_updated_at = 0\<rparr>
      | JObj kvs \<Rightarrow>
          (case (str_field ''idempotency_key'' kvs, str_field ''backend'' kvs,
                 str_field ''provider'' kvs, str_field ''remote_id'' kvs, str_field ''url'' kvs,
                 str_field ''remote_revision'' kvs, str_field ''local_hash'' kvs,
                 str_field ''effective_remote_hash'' kvs,
                 dec_time 0 (field_values ''updated_at'' kvs))
           of (Some k, Some be, Some p, Some rid, Some url, Some rv, Some lh, Some erh, Some t) \<Rightarrow>
             Some \<lparr>rb_key = k, rb_backend = be, rb_provider = p, rb_remote_id = rid,
                   rb_url = url, rb_revision = rv, rb_local_hash = lh,
                   rb_effective_remote_hash = erh, rb_updated_at = t\<rparr>
           | _ \<Rightarrow> None)
      | _ \<Rightarrow> None)"

lemma dec_enc_binding [simp]: "dec_binding (enc_binding b) = Some b"
  by (simp add: dec_binding_def enc_binding_def str_field_def equal_fold_def)

section \<open>Diagnostics\<close>

definition maxDiagnosticBytes :: nat where
  "maxDiagnosticBytes = 2048"

text \<open>\<open>strings.Fields\<close> splits around white space.\<close>

function (sequential) fields_of :: "string \<Rightarrow> string \<Rightarrow> string list" where
  "fields_of acc [] = (if acc = [] then [] else [rev acc])"
| "fields_of acc (c # cs) =
     (case ws_head wide_ws (c # cs) of
        0 \<Rightarrow> fields_of (c # acc) cs
      | Suc n \<Rightarrow> (if acc = [] then [] else [rev acc]) @ fields_of [] (drop n cs))"
  by pat_completeness auto
termination
  by (relation "measure (\<lambda>(acc, s). length s)") auto

text \<open>\<open>(?i)(authorization|token|password|secret|pat)\<close> at the start of a string.\<close>

definition credential_words :: "string list" where
  "credential_words = [''authorization'', ''token'', ''password'', ''secret'', ''pat'']"

text \<open>
  A case-insensitive literal at the start of a string: the number of bytes it covers. Besides the
  two cases of an ASCII letter, U+212A folds to k and U+017F to s.
\<close>

fun fold_prefix :: "string \<Rightarrow> string \<Rightarrow> nat option" where
  "fold_prefix [] s = Some 0"
| "fold_prefix (p # ps) [] = None"
| "fold_prefix (p # ps) (c # cs) =
     (if byte c < 128
      then (if ascii_lower c = p then map_option Suc (fold_prefix ps cs) else None)
      else if p = CHR ''k'' \<and> has_prefix [CHR 0xE2, CHR 0x84, CHR 0xAA] (c # cs)
      then map_option (\<lambda>n. n + 3) (fold_prefix ps (drop 2 cs))
      else if p = CHR ''s'' \<and> has_prefix [CHR 0xC5, CHR 0xBF] (c # cs)
      then map_option (\<lambda>n. n + 2) (fold_prefix ps (drop 1 cs))
      else None)"

text \<open>The class \<open>\s\<close> of the regular expression package, and the end of a credential value.\<close>

definition re_space :: "char \<Rightarrow> bool" where
  "re_space c = (byte c = 32 \<or> byte c = 9 \<or> byte c = 10 \<or> byte c = 12 \<or> byte c = 13)"

definition value_end :: "char \<Rightarrow> bool" where
  "value_end c = (re_space c \<or> c = CHR '','' \<or> c = CHR '';'' \<or> c = CHR '')'')"

text \<open>
  A match of \<open>credentialLike\<close> at the start of a string: the length of the first two groups (the
  word with its separator, kept) and of the third (the value, replaced). No keyword is
  a prefix of another and the value cannot start with white space, so the leftmost-first match
  is unique.
\<close>

definition match_credential :: "string \<Rightarrow> (nat \<times> nat) option" where
  "match_credential s =
     (case List.map_filter (\<lambda>w. fold_prefix w s) credential_words of
        [] \<Rightarrow> None
      | n # _ \<Rightarrow>
          (let r = drop n s; r1 = dropWhile re_space r in
           case r1 of
             [] \<Rightarrow> None
           | c # r2 \<Rightarrow>
               if c = CHR '':'' \<or> c = CHR ''=''
               then (let v = dropWhile re_space r2; m = length (takeWhile (\<lambda>c. \<not> value_end c) v)
                     in if m = 0 then None else Some (length s - length v, m))
               else None))"

definition redacted :: string where
  "redacted = ''[redacted]''"

function (sequential) redact :: "string \<Rightarrow> string" where
  "redact [] = []"
| "redact (c # cs) =
     (case match_credential (c # cs) of
        Some (keep, n) \<Rightarrow> take keep (c # cs) @ redacted @ redact (drop (keep + n - 1) cs)
      | None \<Rightarrow> c # redact cs)"
  by pat_completeness auto
termination
  by (relation "measure length") auto

definition url_cutset :: "char list" where
  "url_cutset = ''()[]{}<>,;'' @ [CHR 0x22, CHR 0x27]"

fun strip_urls :: "(string \<Rightarrow> string option) \<Rightarrow> string list \<Rightarrow> string \<Rightarrow> string" where
  "strip_urls strip [] v = v"
| "strip_urls strip (f # fs) v =
     (if \<not> contains_str f ''://'' then strip_urls strip fs v
      else (let trimmed = trim_set url_cutset f in
            case strip trimmed of
              None \<Rightarrow> strip_urls strip fs v
            | Some clean \<Rightarrow> strip_urls strip fs (replace_all trimmed clean v)))"

text \<open>
  \<open>SafeDiagnostic\<close>; \<open>strip u\<close> is \<^term>\<open>Some\<close> of the URL without its userinfo when \<open>url.Parse\<close>
  accepts \<open>u\<close> and finds a userinfo.
\<close>

definition bound_diagnostic :: "string \<Rightarrow> string" where
  "bound_diagnostic v =
     (if length v > maxDiagnosticBytes then take maxDiagnosticBytes v @ '' [truncated]'' else v)"

definition safe_diagnostic :: "(string \<Rightarrow> string option) \<Rightarrow> string \<Rightarrow> string" where
  "safe_diagnostic strip v =
     trim_space (bound_diagnostic (redact (strip_urls strip (fields_of [] v) v)))"

text \<open>\<open>StorageResultForJournal\<close>\<close>

definition result_for_journal :: "(string \<Rightarrow> string option) \<Rightarrow> storage_result \<Rightarrow> storage_result" where
  "result_for_journal strip r =
     (let r1 = (if sr_error r = []
                then (case sr_cause r of None \<Rightarrow> r | Some e \<Rightarrow> r\<lparr>sr_error := err_text e\<rparr>)
                else r)
      in r1\<lparr>sr_error := safe_diagnostic strip (sr_error r1)\<rparr>)"

lemma result_for_journal_state [simp]:
  "sr_state (result_for_journal strip r) = sr_state r"
  "sr_key (result_for_journal strip r) = sr_key r"
  "sr_already_in_progress (result_for_journal strip r) = sr_already_in_progress r"
  by (simp_all add: result_for_journal_def Let_def split: option.splits)

section \<open>Properties\<close>

lemma map_filter_empty: "(\<And>w. w \<in> set ws \<Longrightarrow> f w = None) \<Longrightarrow> List.map_filter f ws = []"
  by (induction ws) (simp_all add: List.map_filter_simps)

lemma map_filter_one: "f x = Some y \<Longrightarrow> List.map_filter f xs = [] \<Longrightarrow> List.map_filter f (x # xs) = [y]"
  by (simp add: List.map_filter_simps)

lemma fold_prefix_digit:
  assumes "is_digit c" "is_letter p"
  shows "fold_prefix (p # ps) (c # t) = None"
proof -
  from assms(1) have "byte c < 128" "ascii_lower c = c" by (auto simp: is_digit_def ascii_lower_def)
  moreover have "c \<noteq> p" using assms by (auto simp: is_digit_def is_letter_def)
  ultimately show ?thesis by simp
qed

lemma credential_words_letter:
  assumes "w \<in> set credential_words"
  shows "\<exists>p ps. w = p # ps \<and> is_letter p"
proof -
  have "list_all (\<lambda>w. w \<noteq> [] \<and> is_letter (hd w)) credential_words" by code_simp
  with assms have "w \<noteq> []" "is_letter (hd w)" by (simp_all add: list_all_iff)
  then show ?thesis by (cases w) auto
qed

lemma redact_digits: "list_all is_digit t \<Longrightarrow> redact t = t"
proof (induction t)
  case Nil
  then show ?case by simp
next
  case (Cons c t)
  then have "is_digit c" by simp
  have "fold_prefix w (c # t) = None" if w: "w \<in> set credential_words" for w
    using credential_words_letter [OF w] fold_prefix_digit [OF \<open>is_digit c\<close>] by auto
  then have "List.map_filter (\<lambda>w. fold_prefix w (c # t)) credential_words = []"
    by (intro map_filter_empty)
  with Cons show ?case by (simp add: match_credential_def)
qed

lemma strip_urls_none: "strip_urls (\<lambda>u. None) fs v = v"
  by (induction fs) (auto simp: Let_def)

lemma bearer_prefix:
  "fold_prefix ''authorization'' (''Authorization: Bearer '' @ t) = Some 13"
  "w \<in> set (tl credential_words) \<Longrightarrow> fold_prefix w (''Authorization: Bearer '' @ t) = None"
proof -
  have low: "list_all (\<lambda>c. byte c < 128) ''Authorization''"
    "map ascii_lower ''Authorization'' = ''authorization''" by code_simp+
  then show "fold_prefix ''authorization'' (''Authorization: Bearer '' @ t) = Some 13" by simp
  have "list_all (\<lambda>w. w \<noteq> [] \<and> hd w \<noteq> CHR ''a'') (tl credential_words)" by code_simp
  then show "w \<in> set (tl credential_words) \<Longrightarrow> fold_prefix w (''Authorization: Bearer '' @ t) = None"
    using low by (cases w) (auto simp: list_all_iff)
qed

lemma bearer_match: "match_credential (''Authorization: Bearer '' @ t) = Some (15, 6)"
proof -
  have rest: "List.map_filter (\<lambda>w. fold_prefix w (''Authorization: Bearer '' @ t)) (tl credential_words) = []"
    by (intro map_filter_empty bearer_prefix(2))
  have "credential_words = ''authorization'' # tl credential_words"
    by (simp add: credential_words_def)
  then have w: "List.map_filter (\<lambda>w. fold_prefix w (''Authorization: Bearer '' @ t)) credential_words = [13]"
    by (rule ssubst) (rule map_filter_one [OF bearer_prefix(1) rest])
  have sp: "\<not> re_space CHR '':''" "re_space CHR '' ''" "\<not> re_space CHR ''B''"
    "list_all (\<lambda>c. \<not> value_end c) ''Bearer''" "value_end CHR '' ''"
    by code_simp+
  have "drop 13 (''Authorization: Bearer '' @ t) = '': Bearer '' @ t" by simp
  with w sp show ?thesis by (simp add: match_credential_def Let_def)
qed

lemma redact_step:
  "match_credential s = Some (k, n) \<Longrightarrow> s \<noteq> [] \<Longrightarrow> 0 < k + n \<Longrightarrow>
     redact s = take k s @ redacted @ redact (drop (k + n) s)"
  by (cases s) (auto simp: drop_Cons' )

lemma match_space [simp]: "match_credential (CHR '' '' # t) = None"
proof -
  have sp: "byte (CHR '' '') < 128 \<and> ascii_lower (CHR '' '') = CHR '' '' \<and> \<not> is_letter (CHR '' '')"
    by code_simp
  have "fold_prefix w (CHR '' '' # t) = None" if w: "w \<in> set credential_words" for w
    using credential_words_letter [OF w] sp by auto
  then have "List.map_filter (\<lambda>w. fold_prefix w (CHR '' '' # t)) credential_words = []"
    by (intro map_filter_empty)
  then show ?thesis by (simp add: match_credential_def)
qed

lemma redact_bearer:
  "redact (''Authorization: Bearer '' @ t) = ''Authorization: [redacted] '' @ redact t"
proof -
  have "drop (15 + 6) (''Authorization: Bearer '' @ t) = CHR '' '' # t" by simp
  then have "redact (''Authorization: Bearer '' @ t) = ''Authorization: '' @ redacted @ redact (CHR '' '' # t)"
    using redact_step [OF bearer_match, of t] by simp
  then show ?thesis by (simp add: redacted_def)
qed

text \<open>A diagnostic is bounded whatever the provider wrote: \<open>SafeDiagnostic\<close> never returns more than
  the 2048 bytes of its limit and the 12 bytes of the truncation mark.\<close>

theorem safe_diagnostic_bounded: "length (safe_diagnostic strip v) \<le> maxDiagnosticBytes + 12"
proof -
  have "length (bound_diagnostic x) \<le> maxDiagnosticBytes + 12" for x
    by (simp add: bound_diagnostic_def)
  then show ?thesis
    unfolding safe_diagnostic_def using trim_space_length order_trans by blast
qed

text \<open>\<open>SafeDiagnostic\<close> does not redact a bearer token: in \<open>Authorization: Bearer <digits>\<close> the value
  it replaces is the scheme word alone, and the token that follows stays in the diagnostic.\<close>

theorem bearer_token_survives:
  assumes "list_all is_digit t" "t \<noteq> []" "length t \<le> 1000"
  shows "safe_diagnostic (\<lambda>u. None) (''Authorization: Bearer '' @ t) = ''Authorization: [redacted] '' @ t"
proof -
  have "bound_diagnostic (''Authorization: [redacted] '' @ t) = ''Authorization: [redacted] '' @ t"
    using assms(3) by (simp add: bound_diagnostic_def maxDiagnosticBytes_def)
  moreover have "is_digit (last t)" using assms(1,2) by (simp add: list_all_iff)
  then have "byte (last t) < 128" "\<not> ascii_ws (last t)" by (auto simp: is_digit_def ascii_ws_def)
  then have "trim_space (''Authorization: [redacted] '' @ t) = ''Authorization: [redacted] '' @ t"
    using assms(2) by (intro trim_space_id) (simp add: byte_def ascii_ws_def)
  ultimately show ?thesis
    by (simp only: safe_diagnostic_def strip_urls_none redact_bearer redact_digits [OF assms(1)])
qed

theorem bearer_token_survives_witness:
  "safe_diagnostic (\<lambda>u. None) ''Authorization: Bearer 12345'' = ''Authorization: [redacted] 12345''"
  using bearer_token_survives [of "''12345''"] by (simp add: is_digit_def byte_def)

lemma cut_at:
  "x \<notin> set a \<Longrightarrow> x \<notin> set b \<Longrightarrow> a @ [x] @ c = b @ [x] @ d \<longleftrightarrow> a = b \<and> c = d" for x :: char
  by (induction a arbitrary: b) (case_tac b; auto)+

text \<open>The text that a diary's idempotency key hashes determines the repository, the commit and the
  artifact hash when the first two hold no newline, so that two such diaries share a key only if
  the hash itself collides.\<close>

theorem key_preimage_injective:
  assumes "newline \<notin> set repo" "newline \<notin> set commit" "newline \<notin> set repo'" "newline \<notin> set commit'"
  shows "key_preimage repo commit h = key_preimage repo' commit' h'
       \<longleftrightarrow> repo = repo' \<and> commit = commit' \<and> h = h'"
  unfolding key_preimage_def using cut_at [OF assms(1,3)] cut_at [OF assms(2,4)] by metis

theorem key_preimage_injective_witness:
  "key_preimage ''r'' ''c1'' ''h'' \<noteq> key_preimage ''r'' ''c2'' ''h''"
  using key_preimage_injective [of "''r''" "''c1''" "''r''" "''c2''" "''h''" "''h''"]
  by (simp add: newline_def)

text \<open>The newline is not excluded from the fields, so different diaries can share an idempotency key
  with every hash function: part of the commit may be read as part of the repository.\<close>

theorem key_fields_run_together:
  "diary_key sha (d\<lparr>rd_repository_id := repo @ [newline] @ c1, rd_commit_sha := c2\<rparr>)
     = diary_key sha (d\<lparr>rd_repository_id := repo, rd_commit_sha := c1 @ [newline] @ c2\<rparr>)"
  by (simp add: diary_key_def key_preimage_def)

end
