(* ===== verification/Journal.thy ===== *)
theory Journal
  imports Contracts
begin

text \<open>
  \<open>core/event.go\<close> and \<open>core/journal.go\<close>: events, handler attempts and the append-only journal
  with one JSONL segment per saga. A segment is the list of its lines, each the JSON value it
  parses to, with a flag for a last line without newline, which is what an interrupted write
  leaves. The segment of a saga is named by the hash of its identifier (\<open>sha\<close>).
  The text of an \<open>encoding/json\<close> error is not modelled, only that there is one. Instants are
  those \<open>time.Time\<close> can encode (years 0 to 9999), so that \<open>json.Marshal\<close> of a record succeeds.
\<close>

section \<open>Events and attempts\<close>

record event =
  ev_id :: string
  ev_type :: string
  ev_occurred_at :: int
  ev_repository_id :: string
  ev_saga_id :: string
  ev_correlation_id :: string
  ev_causation_id :: string
  ev_schema_version :: int
  ev_payload :: "json option"

record handler_attempt =
  ha_event_id :: string
  ha_saga_id :: string
  ha_handler_id :: string
  ha_attempted_at :: int
  ha_outcome :: string
  ha_error :: string

record journal_record =
  jr_kind :: string
  jr_event :: "event option"
  jr_attempt :: "handler_attempt option"

definition validate_event :: "event \<Rightarrow> err option" where
  "validate_event e =
     (if ev_id e = [] \<or> ev_type e = [] \<or> ev_repository_id e = [] \<or> ev_saga_id e = []
         \<or> ev_correlation_id e = [] \<or> ev_schema_version e < 1 \<or> ev_payload e = None
      then Some (new_err ''event is missing required fields'')
      else if is_zero_time (ev_occurred_at e)
      then Some (new_err ''event occurred_at is required'')
      else None)"

definition validate_attempt :: "handler_attempt \<Rightarrow> err option" where
  "validate_attempt a =
     (if ha_event_id a = [] \<or> ha_saga_id a = [] \<or> ha_handler_id a = [] \<or> ha_outcome a = []
         \<or> is_zero_time (ha_attempted_at a)
      then Some (new_err ''handler attempt is missing required fields'')
      else None)"

text \<open>\<open>HandlerAttempt.Err\<close>\<close>

definition attempt_err :: "handler_attempt \<Rightarrow> err option" where
  "attempt_err a =
     (if ha_error a = [] then None
      else Some (new_err (''handler '' @ ha_handler_id a @ '': '' @ ha_error a)))"

definition zero_event :: event where
  "zero_event = \<lparr>ev_id = [], ev_type = [], ev_occurred_at = 0, ev_repository_id = [],
     ev_saga_id = [], ev_correlation_id = [], ev_causation_id = [], ev_schema_version = 0,
     ev_payload = None\<rparr>"

definition zero_attempt :: handler_attempt where
  "zero_attempt = \<lparr>ha_event_id = [], ha_saga_id = [], ha_handler_id = [], ha_attempted_at = 0,
     ha_outcome = [], ha_error = []\<rparr>"

section \<open>Records as JSON\<close>

definition enc_event :: "event \<Rightarrow> json" where
  "enc_event e = JObj
     [(''event_id'', JStr (ev_id e)), (''type'', JStr (ev_type e)),
      (''occurred_at'', JTime (ev_occurred_at e)),
      (''repository_id'', JStr (ev_repository_id e)), (''saga_id'', JStr (ev_saga_id e)),
      (''correlation_id'', JStr (ev_correlation_id e)),
      (''causation_id'', JStr (ev_causation_id e)),
      (''schema_version'', JNum (NInt (ev_schema_version e))),
      (''payload'', (case ev_payload e of None \<Rightarrow> JNull | Some j \<Rightarrow> j))]"

definition enc_attempt :: "handler_attempt \<Rightarrow> json" where
  "enc_attempt a = JObj
     ([(''event_id'', JStr (ha_event_id a)), (''saga_id'', JStr (ha_saga_id a)),
       (''handler_id'', JStr (ha_handler_id a)), (''attempted_at'', JTime (ha_attempted_at a)),
       (''outcome'', JStr (ha_outcome a))] @ opt_str ''error'' (ha_error a))"

definition enc_record :: "journal_record \<Rightarrow> json" where
  "enc_record r = JObj
     ([(''kind'', JStr (jr_kind r))]
      @ (case jr_event r of None \<Rightarrow> [] | Some e \<Rightarrow> [(''event'', enc_event e)])
      @ (case jr_attempt r of None \<Rightarrow> [] | Some a \<Rightarrow> [(''attempt'', enc_attempt a)]))"

text \<open>A pointer field: an object is decoded over the struct already there, or over a new one.\<close>

fun dec_ptr :: "((string \<times> json) list \<Rightarrow> 'a \<Rightarrow> 'a option) \<Rightarrow> 'a \<Rightarrow> 'a option \<Rightarrow> json list
    \<Rightarrow> 'a option option" where
  "dec_ptr f z d [] = Some d"
| "dec_ptr f z d (JObj kvs # vs) =
     (case f kvs (case d of None \<Rightarrow> z | Some x \<Rightarrow> x) of
        None \<Rightarrow> None | Some x \<Rightarrow> dec_ptr f z (Some x) vs)"
| "dec_ptr f z d (JNull # vs) = dec_ptr f z None vs"
| "dec_ptr f z d (_ # vs) = None"

fun last_value :: "json option \<Rightarrow> json list \<Rightarrow> json option" where
  "last_value d [] = d"
| "last_value d (v # vs) = last_value (Some v) vs"

definition dec_event :: "(string \<times> json) list \<Rightarrow> event \<Rightarrow> event option" where
  "dec_event kvs d =
     (case (dec_string (ev_id d) (field_values ''event_id'' kvs),
            dec_string (ev_type d) (field_values ''type'' kvs),
            dec_time (ev_occurred_at d) (field_values ''occurred_at'' kvs),
            dec_string (ev_repository_id d) (field_values ''repository_id'' kvs),
            dec_string (ev_saga_id d) (field_values ''saga_id'' kvs),
            dec_string (ev_correlation_id d) (field_values ''correlation_id'' kvs),
            dec_string (ev_causation_id d) (field_values ''causation_id'' kvs),
            dec_int (ev_schema_version d) (field_values ''schema_version'' kvs))
      of (Some i, Some t, Some oc, Some r, Some s, Some co, Some ca, Some v) \<Rightarrow>
        Some \<lparr>ev_id = i, ev_type = t, ev_occurred_at = oc, ev_repository_id = r,
              ev_saga_id = s, ev_correlation_id = co, ev_causation_id = ca,
              ev_schema_version = v,
              ev_payload = last_value (ev_payload d) (field_values ''payload'' kvs)\<rparr>
      | _ \<Rightarrow> None)"

definition dec_attempt :: "(string \<times> json) list \<Rightarrow> handler_attempt \<Rightarrow> handler_attempt option" where
  "dec_attempt kvs d =
     (case (dec_string (ha_event_id d) (field_values ''event_id'' kvs),
            dec_string (ha_saga_id d) (field_values ''saga_id'' kvs),
            dec_string (ha_handler_id d) (field_values ''handler_id'' kvs),
            dec_time (ha_attempted_at d) (field_values ''attempted_at'' kvs),
            dec_string (ha_outcome d) (field_values ''outcome'' kvs),
            dec_string (ha_error d) (field_values ''error'' kvs))
      of (Some i, Some s, Some h, Some t, Some oc, Some e) \<Rightarrow>
        Some \<lparr>ha_event_id = i, ha_saga_id = s, ha_handler_id = h, ha_attempted_at = t,
              ha_outcome = oc, ha_error = e\<rparr>
      | _ \<Rightarrow> None)"

definition dec_record :: "json \<Rightarrow> journal_record option" where
  "dec_record j =
     (case j of
        JNull \<Rightarrow> Some \<lparr>jr_kind = [], jr_event = None, jr_attempt = None\<rparr>
      | JObj kvs \<Rightarrow>
          (case (str_field ''kind'' kvs,
                 dec_ptr dec_event zero_event None (field_values ''event'' kvs),
                 dec_ptr dec_attempt zero_attempt None (field_values ''attempt'' kvs))
           of (Some k, Some e, Some a) \<Rightarrow> Some \<lparr>jr_kind = k, jr_event = e, jr_attempt = a\<rparr>
           | _ \<Rightarrow> None)
      | _ \<Rightarrow> None)"

text \<open>\<open>migrateEvent\<close>: version 0 becomes version 1 with the saga as its correlation.\<close>

definition migrate_event :: "event \<Rightarrow> event" where
  "migrate_event e =
     (if ev_schema_version e = 0
      then e\<lparr>ev_schema_version := 1,
             ev_correlation_id := (if ev_correlation_id e = [] then ev_saga_id e
                                   else ev_correlation_id e)\<rparr>
      else e)"

lemma journal_names [simp]:
  "fold_case ''type'' = ''type''" "fold_case ''occurred_at'' = ''occurred_at''"
  "fold_case ''repository_id'' = ''repository_id''" "fold_case ''saga_id'' = ''saga_id''"
  "fold_case ''correlation_id'' = ''correlation_id''"
  "fold_case ''causation_id'' = ''causation_id''"
  "fold_case ''schema_version'' = ''schema_version''" "fold_case ''payload'' = ''payload''"
  "fold_case ''handler_id'' = ''handler_id''" "fold_case ''attempted_at'' = ''attempted_at''"
  "fold_case ''outcome'' = ''outcome''" "fold_case ''kind'' = ''kind''"
  "fold_case ''event'' = ''event''" "fold_case ''attempt'' = ''attempt''"
  by (rule fold_case_lower, code_simp)+

definition int64 :: "int \<Rightarrow> bool" where
  "int64 i = (- (2 ^ 63) \<le> i \<and> i < 2 ^ 63)"

lemma dec_enc_event:
  assumes "ev_payload e \<noteq> None" "int64 (ev_schema_version e)"
  shows "\<exists>kvs. enc_event e = JObj kvs \<and> dec_event kvs zero_event = Some e"
  using assms
  by (auto simp: enc_event_def dec_event_def zero_event_def equal_fold_def int64_def)

lemma dec_enc_attempt: "\<exists>kvs. enc_attempt a = JObj kvs \<and> dec_attempt kvs zero_attempt = Some a"
  by (simp add: enc_attempt_def dec_attempt_def zero_attempt_def equal_fold_def)

text \<open>A record the journal can write and read back.\<close>

definition record_ok :: "journal_record \<Rightarrow> bool" where
  "record_ok r =
     ((jr_kind r = ''event'' \<or> jr_kind r = ''attempt'')
      \<and> (case jr_event r of None \<Rightarrow> True
         | Some e \<Rightarrow> ev_payload e \<noteq> None \<and> int64 (ev_schema_version e) \<and> ev_schema_version e \<noteq> 0))"

lemma dec_enc_record:
  assumes "record_ok r"
  shows "dec_record (enc_record r) = Some r"
proof -
  obtain akvs where a: "\<And>a. jr_attempt r = Some a \<Longrightarrow> enc_attempt a = JObj (akvs a)
      \<and> dec_attempt (akvs a) zero_attempt = Some a"
    using dec_enc_attempt by metis
  obtain ekvs where e: "\<And>e. jr_event r = Some e \<Longrightarrow> enc_event e = JObj (ekvs e)
      \<and> dec_event (ekvs e) zero_event = Some e"
  proof -
    have "\<exists>kvs. enc_event e = JObj kvs \<and> dec_event kvs zero_event = Some e"
      if "jr_event r = Some e" for e
      using assms that by (intro dec_enc_event) (auto simp: record_ok_def)
    then show thesis using that by metis
  qed
  show ?thesis
    using a e
    by (cases "jr_event r"; cases "jr_attempt r")
      (simp_all add: enc_record_def dec_record_def str_field_def equal_fold_def)
qed

section \<open>Segments\<close>

text \<open>
  A line of a segment: JSON text, white space, or anything else \<open>json.Unmarshal\<close> rejects.
  \<open>seg_open\<close> says that the last line has no newline yet, so that the next write continues it.
\<close>

datatype jline = Line json | Blank | Bad

record segment =
  seg_lines :: "jline list"
  seg_open :: bool

datatype dir_entry = File segment | Subdir

record jstate = env +
  entries :: "(string \<times> dir_entry) list"

definition empty_segment :: segment where
  "empty_segment = \<lparr>seg_lines = [], seg_open = False\<rparr>"

text \<open>
  What \<open>Write\<close> of a marshalled record and a newline leaves: after an unterminated line the
  two texts become one line, which is two JSON values or a broken one and so never parses.
\<close>

definition put_line :: "jline \<Rightarrow> bool \<Rightarrow> segment \<Rightarrow> segment" where
  "put_line l unterminated s =
     (if seg_open s
      then \<lparr>seg_lines = butlast (seg_lines s) @ [Bad], seg_open = unterminated\<rparr>
      else \<lparr>seg_lines = seg_lines s @ [l], seg_open = unterminated\<rparr>)"

definition safe_segment_name :: "(string \<Rightarrow> string) \<Rightarrow> string \<Rightarrow> string" where
  "safe_segment_name sha s = sha s @ ''.jsonl''"

text \<open>The longest line \<open>bufio.Scanner\<close> returns with the buffer that \<open>ReadSaga\<close> gives it.\<close>

definition max_line :: nat where
  "max_line = 8 * 1048576"

definition json_error :: err where
  "json_error = new_err ''journal record: invalid JSON''"

definition line_too_long :: err where
  "line_too_long = new_err ''bufio.Scanner: token too long''"

section \<open>Appending\<close>

definition append_record ::
  "(string \<Rightarrow> string) \<Rightarrow> string \<Rightarrow> journal_record \<Rightarrow> 'a jstate_scheme \<Rightarrow> err option \<times> 'a jstate_scheme"
where
  "append_record sha saga r w =
     (case ctx_err w of
        (Some e, w1) \<Rightarrow> (Some e, w1)
      | (None, w1) \<Rightarrow>
     (case try_io w1 of
        (Some e, w2) \<Rightarrow> (Some e, w2)
      | (None, w2) \<Rightarrow>
     (let name = safe_segment_name sha saga in
      case (case map_of (entries w2) name of None \<Rightarrow> Some empty_segment
                                          | Some (File s) \<Rightarrow> Some s | Some Subdir \<Rightarrow> None)
      of None \<Rightarrow> (Some (new_err ''open: is a directory''), w2)
       | Some s \<Rightarrow>
         (case next_fault (w2\<lparr>entries := map_put name (File s) (entries w2)\<rparr>) of
            (FailClean e, w3) \<Rightarrow> (Some e, w3)
          | (FailTorn whole e, w3) \<Rightarrow>
              (Some e, w3\<lparr>entries := map_put name
                 (File (put_line (if whole then Line (enc_record r) else Bad) True s)) (entries w3)\<rparr>)
          | (NoFault, w3) \<Rightarrow>
              try_io (w3\<lparr>entries := map_put name
                 (File (put_line (Line (enc_record r)) False s)) (entries w3)\<rparr>)))))"

definition event_record :: "event \<Rightarrow> journal_record" where
  "event_record e = \<lparr>jr_kind = ''event'', jr_event = Some e, jr_attempt = None\<rparr>"

definition attempt_record :: "handler_attempt \<Rightarrow> journal_record" where
  "attempt_record a = \<lparr>jr_kind = ''attempt'', jr_event = None, jr_attempt = Some a\<rparr>"

definition append_event ::
  "(string \<Rightarrow> string) \<Rightarrow> event \<Rightarrow> 'a jstate_scheme \<Rightarrow> err option \<times> 'a jstate_scheme"
where
  "append_event sha e w =
     (case validate_event e of
        Some er \<Rightarrow> (Some er, w)
      | None \<Rightarrow> append_record sha (ev_saga_id e) (event_record e) w)"

definition append_attempt ::
  "(string \<Rightarrow> string) \<Rightarrow> (string \<Rightarrow> string option) \<Rightarrow> handler_attempt \<Rightarrow> 'a jstate_scheme
     \<Rightarrow> err option \<times> 'a jstate_scheme"
where
  "append_attempt sha strip a w =
     (let a' = a\<lparr>ha_error := safe_diagnostic strip (ha_error a)\<rparr> in
      case validate_attempt a' of
        Some er \<Rightarrow> (Some er, w)
      | None \<Rightarrow> append_record sha (ha_saga_id a') (attempt_record a') w)"

section \<open>Reading\<close>

text \<open>\<open>json.Unmarshal\<close> of one line.\<close>

fun parse_line :: "jline \<Rightarrow> journal_record option" where
  "parse_line (Line j) = dec_record j"
| "parse_line Blank = None"
| "parse_line Bad = None"

fun line_fits :: "jline \<Rightarrow> bool" where
  "line_fits (Line j) = (length (json_text j) < max_line)"
| "line_fits _ = True"

definition migrate_record :: "journal_record \<Rightarrow> journal_record" where
  "migrate_record r = r\<lparr>jr_event := map_option migrate_event (jr_event r)\<rparr>"

text \<open>The scanner loop of \<open>ReadSaga\<close>.\<close>

fun read_lines :: "jline list \<Rightarrow> journal_record list res" where
  "read_lines [] = Inr []"
| "read_lines (l # ls) =
     (if \<not> line_fits l then Inl line_too_long
      else (case parse_line l of
        None \<Rightarrow> Inl json_error
      | Some r0 \<Rightarrow>
         (let r = migrate_record r0 in
          if jr_kind r \<noteq> ''event'' \<and> jr_kind r \<noteq> ''attempt''
          then Inl (new_err (''journal record: unknown kind '' @ quoted_text (jr_kind r)))
          else (case read_lines ls of Inl e \<Rightarrow> Inl e | Inr rs \<Rightarrow> Inr (r # rs)))))"

definition read_saga ::
  "(string \<Rightarrow> string) \<Rightarrow> string \<Rightarrow> 'a jstate_scheme \<Rightarrow> journal_record list res \<times> 'a jstate_scheme"
where
  "read_saga sha saga w =
     (case ctx_err w of
        (Some e, w1) \<Rightarrow> (Inl e, w1)
      | (None, w1) \<Rightarrow>
     (case try_io w1 of
        (Some e, w2) \<Rightarrow> (if errors_is e ErrNotExist then Inr [] else Inl e, w2)
      | (None, w2) \<Rightarrow>
         (case map_of (entries w2) (safe_segment_name sha saga) of
            None \<Rightarrow> (Inr [], w2)
          | Some Subdir \<Rightarrow> (Inl (new_err ''read: is a directory''), w2)
          | Some (File s) \<Rightarrow>
              (case try_io w2 of
                 (Some e, w3) \<Rightarrow> (Inl e, w3)
               | (None, w3) \<Rightarrow> (read_lines (seg_lines s), w3)))))"

text \<open>\<open>ListSagas\<close>: one pass over the lines of a segment, then over the directory.\<close>

fun saga_ids_of :: "jline list \<Rightarrow> string list option" where
  "saga_ids_of [] = Some []"
| "saga_ids_of (l # ls) =
     (if l = Blank then saga_ids_of ls
      else (case parse_line l of
        None \<Rightarrow> None
      | Some r \<Rightarrow>
         (case saga_ids_of ls of
            None \<Rightarrow> None
          | Some ids \<Rightarrow>
              Some ((case jr_event r of None \<Rightarrow> [] | Some e \<Rightarrow> [ev_saga_id e])
                    @ (case jr_attempt r of None \<Rightarrow> [] | Some a \<Rightarrow> [ha_saga_id a]) @ ids))))"

fun scan_entries :: "(string \<times> dir_entry) list \<Rightarrow> 'a jstate_scheme \<Rightarrow> string list res \<times> 'a jstate_scheme" where
  "scan_entries [] w = (Inr [], w)"
| "scan_entries ((name, Subdir) # es) w = scan_entries es w"
| "scan_entries ((name, File s) # es) w =
     (if \<not> has_suffix ''.jsonl'' name then scan_entries es w
      else (case try_io w of
        (Some e, w1) \<Rightarrow> (Inl e, w1)
      | (None, w1) \<Rightarrow>
         (case saga_ids_of (seg_lines s) of
            None \<Rightarrow> (Inl json_error, w1)
          | Some ids \<Rightarrow>
              (case scan_entries es w1 of
                 (Inl e, w2) \<Rightarrow> (Inl e, w2)
               | (Inr rest, w2) \<Rightarrow> (Inr (ids @ rest), w2)))))"

definition list_sagas :: "'a jstate_scheme \<Rightarrow> string list res \<times> 'a jstate_scheme" where
  "list_sagas w =
     (case try_io w of
        (Some e, w1) \<Rightarrow> (Inl e, w1)
      | (None, w1) \<Rightarrow>
         (case scan_entries (entries w1) w1 of
            (Inl e, w2) \<Rightarrow> (Inl e, w2)
          | (Inr ids, w2) \<Rightarrow> (Inr (map fst (map_build (map (\<lambda>i. (i, ())) ids))), w2)))"

definition new_saga_journal :: "string \<Rightarrow> 'a jstate_scheme \<Rightarrow> err option \<times> 'a jstate_scheme" where
  "new_saga_journal dir w =
     (if dir = [] then (Some (new_err ''journal directory is required''), w) else try_io w)"

section \<open>The log of a saga\<close>

definition saga_segment :: "(string \<Rightarrow> string) \<Rightarrow> string \<Rightarrow> 'a jstate_scheme \<Rightarrow> segment" where
  "saga_segment sha saga w =
     (case map_of (entries w) (safe_segment_name sha saga) of
        Some (File s) \<Rightarrow> s | _ \<Rightarrow> empty_segment)"

text \<open>
  The records a saga holds, when its segment ends with a newline and every line can be read.
\<close>

definition saga_log :: "(string \<Rightarrow> string) \<Rightarrow> string \<Rightarrow> 'a jstate_scheme \<Rightarrow> journal_record list option" where
  "saga_log sha saga w =
     (let s = saga_segment sha saga w in
      if seg_open s then None
      else (case read_lines (seg_lines s) of Inl e \<Rightarrow> None | Inr rs \<Rightarrow> Some rs))"

definition journalable :: "journal_record \<Rightarrow> bool" where
  "journalable r = (record_ok r \<and> length (json_text (enc_record r)) < max_line)"

lemma migrate_record_ok [simp]: "record_ok r \<Longrightarrow> migrate_record r = r"
  by (cases r) (auto simp: record_ok_def migrate_record_def migrate_event_def split: option.splits)

lemma read_lines_snoc:
  "read_lines (ls @ [l]) =
     (case read_lines ls of Inl e \<Rightarrow> Inl e
      | Inr rs \<Rightarrow> (case read_lines [l] of Inl e \<Rightarrow> Inl e | Inr rs' \<Rightarrow> Inr (rs @ rs')))"
  by (induction ls) (auto split: sum.splits option.splits simp: Let_def)

lemma read_lines_record [simp]:
  assumes "journalable r"
  shows "read_lines [Line (enc_record r)] = Inr [r]"
proof -
  from assms have ok: "record_ok r" by (simp add: journalable_def)
  then have "jr_kind r = ''event'' \<or> jr_kind r = ''attempt''" by (simp add: record_ok_def)
  with assms ok show ?thesis
    by (auto simp: journalable_def dec_enc_record Let_def)
qed

lemma read_lines_snoc_record:
  assumes "journalable r"
  shows "read_lines (ls @ [Line (enc_record r)]) =
     (case read_lines ls of Inl e \<Rightarrow> Inl e | Inr rs \<Rightarrow> Inr (rs @ [r]))"
  unfolding read_lines_snoc [of ls] read_lines_record [OF assms]
  by (simp split: sum.splits)

lemma read_lines_bad [simp]: "Bad \<in> set ls \<Longrightarrow> \<exists>e. read_lines ls = Inl e"
  by (induction ls) (auto split: sum.splits option.splits simp: Let_def)

lemma saga_segment_put [simp]:
  "saga_segment sha saga (w\<lparr>entries := map_put (safe_segment_name sha saga) (File s) m\<rparr>) = s"
  by (simp add: saga_segment_def)

lemma saga_segment_other:
  "name \<noteq> safe_segment_name sha saga \<Longrightarrow>
     saga_segment sha saga (w\<lparr>entries := map_put name x (entries w)\<rparr>) = saga_segment sha saga w"
  by (simp add: saga_segment_def)

lemma saga_segment_faults [simp]: "saga_segment sha saga (w\<lparr>faults := fs\<rparr>) = saga_segment sha saga w"
  by (simp add: saga_segment_def)

text \<open>
  What an append can do to the segment: nothing, one complete line, or an unterminated line.
  Only the environment and that one entry of the directory change.
\<close>

lemma append_record_cases:
  assumes "append_record sha saga r w = (res, w')"
  obtains (unchanged) e where "res = Some e" "saga_segment sha saga w' = saga_segment sha saga w"
  | (written) "saga_segment sha saga w' = put_line (Line (enc_record r)) False (saga_segment sha saga w)"
  | (torn) l e where "res = Some e" "l = Line (enc_record r) \<or> l = Bad"
      "saga_segment sha saga w' = put_line l True (saga_segment sha saga w)"
proof -
  obtain r1 w1 where 1: "ctx_err w = (r1, w1)" by (cases "ctx_err w")
  obtain r2 w2 where 2: "try_io w1 = (r2, w2)" by (cases "try_io w1")
  from ctx_err_frame [OF 1] try_io_frame [OF 2]
  have seg2: "saga_segment sha saga w1 = saga_segment sha saga w"
    "saga_segment sha saga w2 = saga_segment sha saga w1" by auto
  let ?n = "safe_segment_name sha saga"
  consider (stop) e where "res = Some e" "w' = w1 \<or> w' = w2"
    | (go) s where "s = saga_segment sha saga w2"
       "(case next_fault (w2\<lparr>entries := map_put ?n (File s) (entries w2)\<rparr>) of
            (FailClean e, w3) \<Rightarrow> (Some e, w3)
          | (FailTorn whole e, w3) \<Rightarrow>
              (Some e, w3\<lparr>entries := map_put ?n
                 (File (put_line (if whole then Line (enc_record r) else Bad) True s)) (entries w3)\<rparr>)
          | (NoFault, w3) \<Rightarrow>
              try_io (w3\<lparr>entries := map_put ?n
                 (File (put_line (Line (enc_record r)) False s)) (entries w3)\<rparr>)) = (res, w')"
  proof (cases r1)
    case (Some e)
    with assms 1 that(1) [of e] show thesis by (auto simp: append_record_def)
  next
    case None
    show thesis
    proof (cases r2)
      case (Some e)
      with assms 1 2 None that(1) [of e] show thesis by (auto simp: append_record_def)
    next
      case r2: None
      show thesis
      proof (cases "map_of (entries w2) ?n = Some Subdir")
        case True
        with assms 1 2 None r2 that(1) [of "new_err ''open: is a directory''"] show thesis
          by (auto simp: append_record_def Let_def)
      next
        case False
        have "(case map_of (entries w2) ?n of None \<Rightarrow> Some empty_segment
               | Some (File s) \<Rightarrow> Some s | Some Subdir \<Rightarrow> None) = Some (saga_segment sha saga w2)"
          using False by (auto simp: saga_segment_def split: option.splits dir_entry.splits)
        with assms 1 2 None r2 that(2) show thesis
          by (simp add: append_record_def Let_def)
      qed
    qed
  qed
  then show thesis
  proof cases
    case stop
    with seg2 unchanged show thesis by auto
  next
    case go
    obtain f w3 where nf: "next_fault (w2\<lparr>entries := map_put ?n (File s) (entries w2)\<rparr>) = (f, w3)"
      by (cases "next_fault (w2\<lparr>entries := map_put ?n (File s) (entries w2)\<rparr>)")
    from next_fault_frame [OF nf] have seg3: "saga_segment sha saga w3 = s" by auto
    show thesis
    proof (cases f)
      case NoFault
      with go nf have "try_io (w3\<lparr>entries := map_put ?n
          (File (put_line (Line (enc_record r)) False s)) (entries w3)\<rparr>) = (res, w')" by simp
      from try_io_frame [OF this]
      have "saga_segment sha saga w' = put_line (Line (enc_record r)) False s" by auto
      with go seg2 written show thesis by simp
    next
      case (FailClean e)
      with go nf seg2 seg3 unchanged show thesis by auto
    next
      case (FailTorn whole e)
      with go nf have "res = Some e"
        "saga_segment sha saga w' = put_line (if whole then Line (enc_record r) else Bad) True s"
        by auto
      with go seg2 torn [of e "if whole then Line (enc_record r) else Bad"] show thesis by simp
    qed
  qed
qed

section \<open>The interface of an append-only log\<close>

text \<open>
  What the bus, the recovery inspection and the session close rely on: a successful append adds
  exactly its record at the end, a failed one adds it, leaves the log alone or breaks it,
  and a broken log is never readable again.
\<close>

locale append_log =
  fixes append_to :: "'r \<Rightarrow> 'w \<Rightarrow> err option \<times> 'w"
    and log_of :: "'w \<Rightarrow> 'r list option"
    and loggable :: "'r \<Rightarrow> bool"
  assumes append_success:
      "append_to r w = (None, w') \<Longrightarrow> loggable r \<Longrightarrow> log_of w = Some rs \<Longrightarrow> log_of w' = Some (rs @ [r])"
    and append_failure:
      "append_to r w = (Some e, w') \<Longrightarrow> loggable r \<Longrightarrow> log_of w = Some rs \<Longrightarrow>
         log_of w' = Some rs \<or> log_of w' = Some (rs @ [r]) \<or> log_of w' = None"
    and append_broken: "append_to r w = (res, w') \<Longrightarrow> log_of w = None \<Longrightarrow> log_of w' = None"
begin

lemma append_extends:
  assumes "append_to r w = (res, w')" "loggable r" "log_of w' = Some rs'"
  shows "\<exists>rs. log_of w = Some rs \<and> (rs' = rs \<or> rs' = rs @ [r])"
proof (cases "log_of w")
  case None
  with append_broken [OF assms(1)] assms(3) show ?thesis by simp
next
  case (Some rs)
  show ?thesis
  proof (cases res)
    case None
    with append_success [of r w w' rs] assms Some show ?thesis by auto
  next
    case (Some e)
    with append_failure [of r w e w' rs] assms \<open>log_of w = Some rs\<close> show ?thesis by auto
  qed
qed

lemma append_keeps_prefix:
  assumes "append_to r w = (res, w')" "loggable r" "log_of w' = Some rs'"
  obtains rs where "log_of w = Some rs" "prefix rs rs'"
  using append_extends [OF assms] by auto

lemma append_recorded:
  assumes "append_to r w = (None, w')" "loggable r" "log_of w \<noteq> None"
  shows "\<exists>rs. log_of w' = Some (rs @ [r])"
  using assms append_success by blast

end

lemma put_line_closed [simp]:
  "\<not> seg_open s \<Longrightarrow> put_line l u s = \<lparr>seg_lines = seg_lines s @ [l], seg_open = u\<rparr>"
  by (simp add: put_line_def)

lemma put_line_open [simp]: "seg_open s \<Longrightarrow> Bad \<in> set (seg_lines (put_line l u s))"
  by (simp add: put_line_def)

lemma put_line_bad [simp]:
  "Bad \<in> set (seg_lines s) \<Longrightarrow> Bad \<in> set (seg_lines (put_line l u s))"
  by (simp add: put_line_def)

lemma put_line_broken:
  assumes "seg_open s \<or> (\<exists>e. read_lines (seg_lines s) = Inl e)"
  shows "seg_open (put_line l u s) \<or> (\<exists>e. read_lines (seg_lines (put_line l u s)) = Inl e)"
proof (cases "seg_open s")
  case True
  then show ?thesis using put_line_open read_lines_bad by blast
next
  case False
  with assms obtain e where "read_lines (seg_lines s) = Inl e" by auto
  with False show ?thesis by (simp add: read_lines_snoc)
qed

lemma saga_log_alt:
  "saga_log sha saga w = None \<longleftrightarrow>
     seg_open (saga_segment sha saga w) \<or> (\<exists>e. read_lines (seg_lines (saga_segment sha saga w)) = Inl e)"
  by (simp add: saga_log_def Let_def split: sum.splits)

lemma saga_log_Some:
  "saga_log sha saga w = Some rs \<longleftrightarrow>
     \<not> seg_open (saga_segment sha saga w) \<and> read_lines (seg_lines (saga_segment sha saga w)) = Inr rs"
  by (simp add: saga_log_def Let_def split: sum.splits)

lemma append_record_written:
  assumes "append_record sha saga r w = (None, w')"
  shows "saga_segment sha saga w' = put_line (Line (enc_record r)) False (saga_segment sha saga w)"
  using assms by (cases rule: append_record_cases) simp_all

interpretation sj: append_log "append_record sha saga" "saga_log sha saga" journalable
  for sha saga
proof unfold_locales
  fix r and w w' :: "'a jstate_scheme" and rs
  assume "append_record sha saga r w = (None, w')" "journalable r" "saga_log sha saga w = Some rs"
  then show "saga_log sha saga w' = Some (rs @ [r])"
    by (simp add: saga_log_Some append_record_written read_lines_snoc_record)
next
  fix r and w w' :: "'a jstate_scheme" and rs e
  assume a: "append_record sha saga r w = (Some e, w')" "journalable r" "saga_log sha saga w = Some rs"
  from a(1) show "saga_log sha saga w' = Some rs \<or> saga_log sha saga w' = Some (rs @ [r])
      \<or> saga_log sha saga w' = None"
  proof (cases rule: append_record_cases)
    case unchanged
    with a(3) show ?thesis by (simp add: saga_log_Some)
  next
    case written
    with a show ?thesis by (simp add: saga_log_Some read_lines_snoc_record)
  next
    case (torn l e')
    with a(3) show ?thesis by (simp add: saga_log_Some saga_log_alt)
  qed
next
  fix r and w w' :: "'a jstate_scheme" and res
  assume a: "append_record sha saga r w = (res, w')" "saga_log sha saga w = None"
  from a(1) show "saga_log sha saga w' = None"
  proof (cases rule: append_record_cases)
    case unchanged
    with a(2) show ?thesis by (simp add: saga_log_alt)
  next
    case written
    with a(2) show ?thesis unfolding saga_log_alt by (simp only: put_line_broken)
  next
    case (torn l e')
    with a(2) show ?thesis unfolding saga_log_alt by (simp only: put_line_broken)
  qed
qed

section \<open>Reading the log\<close>

lemma read_saga_calm:
  assumes "faults w = []" "saga_log sha saga w = Some rs"
    "map_of (entries w) (safe_segment_name sha saga) \<noteq> Some Subdir"
  shows "read_saga sha saga w = (Inr rs, w)"
  using assms
  by (cases "map_of (entries w) (safe_segment_name sha saga)")
    (auto simp: read_saga_def saga_log_Some saga_segment_def empty_segment_def split: dir_entry.splits)

text \<open>Reading leaves the directory alone.\<close>

lemma scan_entries_frame: "scan_entries es w = (r, w') \<Longrightarrow> \<exists>fs. w' = w\<lparr>faults := fs\<rparr>"
proof (induction es w arbitrary: r w' rule: scan_entries.induct)
  case (3 name s es w)
  then show ?case
    by (auto split: if_splits prod.splits option.splits sum.splits dest!: try_io_frame)
qed auto

lemma list_sagas_frame: "list_sagas w = (r, w') \<Longrightarrow> \<exists>fs. w' = w\<lparr>faults := fs\<rparr>"
  unfolding list_sagas_def
  by (auto split: prod.splits option.splits sum.splits dest!: try_io_frame scan_entries_frame)

lemma read_saga_frame: "read_saga sha saga w = (r, w') \<Longrightarrow> \<exists>fs. w' = w\<lparr>faults := fs\<rparr>"
  unfolding read_saga_def
  by (auto split: prod.splits option.splits dir_entry.splits
      dest!: try_io_frame ctx_err_frame)

text \<open>Only the faults still to come and the named entry of the directory differ.\<close>

definition only_entry :: "string \<Rightarrow> 'a jstate_scheme \<Rightarrow> 'a jstate_scheme \<Rightarrow> bool" where
  "only_entry name w w' =
     (w'\<lparr>faults := faults w, entries := entries w\<rparr> = w
      \<and> (\<forall>n. n \<noteq> name \<longrightarrow> map_of (entries w') n = map_of (entries w) n))"

lemma append_record_frame:
  assumes "append_record sha saga r w = (res, w')"
  shows "only_entry (safe_segment_name sha saga) w w'"
  using assms unfolding append_record_def only_entry_def
  by (auto simp: Let_def split: prod.splits option.splits dir_entry.splits fault.splits
      dest!: try_io_frame ctx_err_frame next_fault_frame)

text \<open>A sequence of appends to any sagas, whatever their results.\<close>

definition append_all ::
  "(string \<Rightarrow> string) \<Rightarrow> (string \<times> journal_record) list \<Rightarrow> 'a jstate_scheme \<Rightarrow> 'a jstate_scheme" where
  "append_all sha rs w = fold (\<lambda>(saga, r) w. snd (append_record sha saga r w)) rs w"

definition broken_segment :: "string \<Rightarrow> 'a jstate_scheme \<Rightarrow> bool" where
  "broken_segment name w = (\<exists>s. map_of (entries w) name = Some (File s) \<and> Bad \<in> set (seg_lines s))"

lemma append_record_keeps_broken:
  assumes "broken_segment name w"
  shows "broken_segment name (snd (append_record sha saga r w))"
proof -
  obtain res w' where ap: "append_record sha saga r w = (res, w')" by (cases "append_record sha saga r w")
  from assms obtain s where s: "map_of (entries w) name = Some (File s)" "Bad \<in> set (seg_lines s)"
    by (auto simp: broken_segment_def)
  show ?thesis
  proof (cases "name = safe_segment_name sha saga")
    case False
    with append_record_frame [OF ap] s ap show ?thesis
      by (auto simp: broken_segment_def only_entry_def)
  next
    case True
    with s have seg: "saga_segment sha saga w = s" by (simp add: saga_segment_def)
    from ap have bad: "Bad \<in> set (seg_lines (saga_segment sha saga w'))"
      using seg s(2) by (cases rule: append_record_cases) (metis put_line_bad)+
    then have "map_of (entries w') name = Some (File (saga_segment sha saga w'))"
      using True by (auto simp: saga_segment_def empty_segment_def split: option.splits dir_entry.splits)
    with bad ap show ?thesis by (simp add: broken_segment_def)
  qed
qed

lemma append_all_keeps_broken: "broken_segment name w \<Longrightarrow> broken_segment name (append_all sha rs w)"
  unfolding append_all_def
  by (induction rs arbitrary: w) (auto simp: append_record_keeps_broken)

lemma saga_ids_of_bad [simp]: "Bad \<in> set ls \<Longrightarrow> saga_ids_of ls = None"
  by (induction ls) (auto split: option.splits)

lemma scan_entries_bad:
  "(name, File s) \<in> set es \<Longrightarrow> has_suffix ''.jsonl'' name \<Longrightarrow> Bad \<in> set (seg_lines s) \<Longrightarrow>
     \<exists>e. fst (scan_entries es w) = Inl e"
proof (induction es w rule: scan_entries.induct)
  case (3 n s' es w)
  show ?case
  proof (cases "has_suffix ''.jsonl'' n")
    case False
    with 3 show ?thesis by auto
  next
    case True
    obtain r1 w1 where "try_io w = (r1, w1)" by (cases "try_io w")
    show ?thesis
    proof (cases "r1 = None \<and> saga_ids_of (seg_lines s') \<noteq> None")
      case False
      with True \<open>try_io w = (r1, w1)\<close> show ?thesis by (cases r1) auto
    next
      case go: True
      then obtain ids where ids: "saga_ids_of (seg_lines s') = Some ids" by auto
      with "3.prems" have "(name, File s) \<in> set es" by auto
      with "3.IH"(2) [OF _ \<open>try_io w = (r1, w1)\<close> [symmetric] _ ids] "3.prems" True go
      obtain e where "fst (scan_entries es w1) = Inl e" by auto
      with True go ids \<open>try_io w = (r1, w1)\<close> show ?thesis
        by (cases "scan_entries es w1") auto
    qed
  qed
qed auto

lemma broken_read:
  assumes "broken_segment (safe_segment_name sha saga) w" "quiet w"
  shows "\<exists>e. fst (read_saga sha saga w) = Inl e"
proof -
  obtain s where s: "map_of (entries w) (safe_segment_name sha saga) = Some (File s)"
      "Bad \<in> set (seg_lines s)"
    using assms(1) by (auto simp: broken_segment_def)
  then obtain e where e: "read_lines (seg_lines s) = Inl e" using read_lines_bad by blast
  obtain f1 where 1: "ctx_err w = (None, w\<lparr>faults := f1\<rparr>)" "quiet (w\<lparr>faults := f1\<rparr>)"
    using quiet_ctx_err [OF assms(2)] by (auto simp: quiet_def)
  obtain f2 where 2: "try_io (w\<lparr>faults := f1\<rparr>) = (None, w\<lparr>faults := f2\<rparr>)" "quiet (w\<lparr>faults := f2\<rparr>)"
    using quiet_try_io [OF 1(2)] by (auto simp: quiet_def)
  obtain f3 where 3: "try_io (w\<lparr>faults := f2\<rparr>) = (None, w\<lparr>faults := f3\<rparr>)"
    using quiet_try_io [OF 2(2)] by auto
  from 1 2 3 s e show ?thesis by (simp add: read_saga_def)
qed

lemma broken_list:
  assumes "broken_segment (safe_segment_name sha saga) w"
  shows "\<exists>e. fst (list_sagas w) = Inl e"
proof -
  obtain s where "map_of (entries w) (safe_segment_name sha saga) = Some (File s)"
      "Bad \<in> set (seg_lines s)"
    using assms by (auto simp: broken_segment_def)
  then have s: "(safe_segment_name sha saga, File s) \<in> set (entries w)" "Bad \<in> set (seg_lines s)"
    by (auto dest: map_of_SomeD)
  show ?thesis
  proof (cases "try_io w")
    case (Pair r w1)
    from try_io_frame [OF Pair] have "entries w1 = entries w" by auto
    with s obtain e where "fst (scan_entries (entries w1) w1) = Inl e"
      using scan_entries_bad [of "safe_segment_name sha saga" s "entries w1" w1]
      by (auto simp: safe_segment_name_def)
    with Pair show ?thesis
      by (cases r; cases "scan_entries (entries w1) w1") (auto simp: list_sagas_def)
  qed
qed

lemma record_ok_attempt [simp]: "record_ok (attempt_record a)"
  by (simp add: record_ok_def attempt_record_def)

lemma record_ok_event:
  "validate_event e = None \<Longrightarrow> int64 (ev_schema_version e) \<Longrightarrow> record_ok (event_record e)"
  by (auto simp: record_ok_def event_record_def validate_event_def split: if_splits)

text \<open>Appending when no step fails.\<close>

lemma append_record_calm:
  assumes "faults w = []" "map_of (entries w) (safe_segment_name sha saga) \<noteq> Some Subdir"
  shows "append_record sha saga r w =
     (None, w\<lparr>entries := map_put (safe_segment_name sha saga)
        (File (put_line (Line (enc_record r)) False (saga_segment sha saga w)))
        (map_put (safe_segment_name sha saga) (File (saga_segment sha saga w)) (entries w))\<rparr>)"
proof -
  have "(case map_of (entries w) (safe_segment_name sha saga) of None \<Rightarrow> Some empty_segment
         | Some (File s) \<Rightarrow> Some s | Some Subdir \<Rightarrow> None) = Some (saga_segment sha saga w)"
    using assms(2) by (auto simp: saga_segment_def split: option.splits dir_entry.splits)
  with assms(1) show ?thesis by (simp add: append_record_def Let_def)
qed

section \<open>Properties\<close>

definition sample_event :: event where
  "sample_event = \<lparr>ev_id = ''e1'', ev_type = ''t'', ev_occurred_at = 1, ev_repository_id = ''r'',
     ev_saga_id = ''s'', ev_correlation_id = ''s'', ev_causation_id = [], ev_schema_version = 1,
     ev_payload = Some (JStr ''x'')\<rparr>"

definition empty_journal :: jstate where
  "empty_journal = \<lparr>faults = [], clock = (\<lambda>n. 1 + int n), reads = 0, entries = []\<rparr>"

lemma sample_event_facts [simp]:
  "validate_event sample_event = None" "int64 (ev_schema_version sample_event)"
  "journalable (event_record sample_event)" "ev_saga_id sample_event = ''s''"
  "ev_schema_version sample_event = 1"
proof -
  have "length (json_text (enc_record (event_record sample_event))) < 1000" by code_simp
  then show "journalable (event_record sample_event)"
    by (simp add: journalable_def max_line_def record_ok_def event_record_def sample_event_def int64_def)
qed (simp_all add: validate_event_def sample_event_def int64_def is_zero_time_def)

lemma empty_journal_facts [simp]:
  "faults empty_journal = []" "entries empty_journal = []" "saga_log sha saga empty_journal = Some []"
  by (simp_all add: empty_journal_def saga_log_def saga_segment_def empty_segment_def)



text \<open>The journal is append-only under every pattern of I/O errors: an append, whatever its
  result, keeps every other entry of the directory, and in the saga's own segment, when it ends with
  a newline, keeps all earlier lines and adds at most one; it adds the record's line when it
  succeeds.\<close>

theorem append_record_append_only:
  assumes "append_record sha saga r w = (res, w')" "\<not> seg_open (saga_segment sha saga w)"
  shows "(\<forall>n. n \<noteq> safe_segment_name sha saga \<longrightarrow> map_of (entries w') n = map_of (entries w) n)
     \<and> (\<exists>added. seg_lines (saga_segment sha saga w') = seg_lines (saga_segment sha saga w) @ added
          \<and> (added = [] \<and> res \<noteq> None \<or> added = [Bad] \<and> res \<noteq> None \<or> added = [Line (enc_record r)]))"
proof
  show "\<forall>n. n \<noteq> safe_segment_name sha saga \<longrightarrow> map_of (entries w') n = map_of (entries w) n"
    using append_record_frame [OF assms(1)] by (simp add: only_entry_def)
  from assms(1) show "\<exists>added. seg_lines (saga_segment sha saga w') = seg_lines (saga_segment sha saga w) @ added
          \<and> (added = [] \<and> res \<noteq> None \<or> added = [Bad] \<and> res \<noteq> None \<or> added = [Line (enc_record r)])"
    using assms(2) by (cases rule: append_record_cases) auto
qed

theorem append_record_append_only_witness:
  "\<exists>added. seg_lines (saga_segment (\<lambda>s. s) ''s''
        (snd (append_record (\<lambda>s. s) ''s'' (event_record sample_event) empty_journal))) = added
      \<and> (added = [Bad] \<or> added = [Line (enc_record (event_record sample_event))])"
proof -
  have ap: "append_record (\<lambda>s. s) ''s'' (event_record sample_event) empty_journal
    = (None, snd (append_record (\<lambda>s. s) ''s'' (event_record sample_event) empty_journal))"
    by (simp add: append_record_calm)
  have "\<not> seg_open (saga_segment (\<lambda>s. s) ''s'' empty_journal)"
    "seg_lines (saga_segment (\<lambda>s. s) ''s'' empty_journal) = []"
    by (simp_all add: saga_segment_def empty_segment_def)
  with append_record_append_only [OF ap] show ?thesis by auto
qed

text \<open>A write that is interrupted in the middle of an event's line leaves a fragment that
  no later append repairs: from then on, whatever is appended to whatever saga, with whatever
  errors, \<open>ListSagas\<close> fails for the whole journal, and \<open>ReadSaga\<close> fails for that saga.\<close>

theorem interrupted_append_is_fatal:
  assumes "faults w = [NoFault, NoFault, FailTorn False er] @ fs" "validate_event e = None"
    "map_of (entries w) (safe_segment_name sha (ev_saga_id e)) \<noteq> Some Subdir"
  shows "\<exists>w'. append_event sha e w = (Some er, w')
     \<and> (\<forall>later. \<exists>e1. fst (list_sagas (append_all sha later w')) = Inl e1)
     \<and> (\<forall>later. quiet (append_all sha later w') \<longrightarrow>
          (\<exists>e2. fst (read_saga sha (ev_saga_id e) (append_all sha later w')) = Inl e2))"
proof -
  let ?n = "safe_segment_name sha (ev_saga_id e)"
  have "(case map_of (entries w) ?n of None \<Rightarrow> Some empty_segment
         | Some (File s) \<Rightarrow> Some s | Some Subdir \<Rightarrow> None) = Some (saga_segment sha (ev_saga_id e) w)"
    using assms(3) by (auto simp: saga_segment_def split: option.splits dir_entry.splits)
  then obtain w' where w': "append_event sha e w = (Some er, w')"
      "map_of (entries w') ?n = Some (File (put_line Bad True (saga_segment sha (ev_saga_id e) w)))"
    using assms(1,2)
    by (simp add: append_event_def append_record_def ctx_err_def try_io_def next_fault_def Let_def)
  have "Bad \<in> set (seg_lines (put_line Bad True s))" for s
    by (cases "seg_open s") simp_all
  with w'(2) have "broken_segment ?n w'" by (simp add: broken_segment_def)
  then have "broken_segment ?n (append_all sha later w')" for later
    by (rule append_all_keeps_broken)
  with w'(1) show ?thesis using broken_list broken_read by blast
qed

theorem interrupted_append_is_fatal_witness:
  "\<exists>w'. append_event (\<lambda>s. s) sample_event
          (empty_journal\<lparr>faults := [NoFault, NoFault, FailTorn False (new_err ''disk full'')]\<rparr>)
        = (Some (new_err ''disk full''), w')
     \<and> (\<exists>e1. fst (list_sagas w') = Inl e1)"
  using interrupted_append_is_fatal
    [of "empty_journal\<lparr>faults := [NoFault, NoFault, FailTorn False (new_err ''disk full'')]\<rparr>"
      "new_err ''disk full''" "[]" sample_event "\<lambda>s. s"]
  by (auto simp: append_all_def dest!: spec [where x = "[]"])

text \<open>The sagas that the lines of a directory name.\<close>

definition names_saga :: "jline \<Rightarrow> string \<Rightarrow> bool" where
  "names_saga l saga =
     (\<exists>r. parse_line l = Some r
        \<and> ((\<exists>e. jr_event r = Some e \<and> ev_saga_id e = saga)
           \<or> (\<exists>a. jr_attempt r = Some a \<and> ha_saga_id a = saga)))"

lemma saga_ids_of_set: "saga_ids_of ls = Some ids \<Longrightarrow> saga \<in> set ids \<longleftrightarrow> (\<exists>l \<in> set ls. names_saga l saga)"
proof (induction ls arbitrary: ids)
  case Nil
  then show ?case by simp
next
  case (Cons l ls)
  show ?case
  proof (cases "l = Blank")
    case True
    with Cons show ?thesis by (auto simp: names_saga_def)
  next
    case False
    with Cons.prems obtain r rest where
      r: "parse_line l = Some r" and rest: "saga_ids_of ls = Some rest"
      and ids: "ids = (case jr_event r of None \<Rightarrow> [] | Some e \<Rightarrow> [ev_saga_id e])
                      @ (case jr_attempt r of None \<Rightarrow> [] | Some a \<Rightarrow> [ha_saga_id a]) @ rest"
      by (auto split: option.splits)
    have "names_saga l saga \<longleftrightarrow> saga \<in> set ((case jr_event r of None \<Rightarrow> [] | Some e \<Rightarrow> [ev_saga_id e])
                      @ (case jr_attempt r of None \<Rightarrow> [] | Some a \<Rightarrow> [ha_saga_id a]))"
      using r by (cases "jr_event r"; cases "jr_attempt r") (auto simp: names_saga_def)
    with ids Cons.IH [OF rest] show ?thesis by auto
  qed
qed

lemma scan_entries_set:
  "scan_entries es w = (Inr ids, w') \<Longrightarrow>
     saga \<in> set ids \<longleftrightarrow> (\<exists>name s. (name, File s) \<in> set es \<and> has_suffix ''.jsonl'' name
                          \<and> (\<exists>l \<in> set (seg_lines s). names_saga l saga))"
proof (induction es w arbitrary: ids w' rule: scan_entries.induct)
  case (3 name s es w)
  show ?case
  proof (cases "has_suffix ''.jsonl'' name")
    case False
    with 3 show ?thesis by auto
  next
    case True
    with "3.prems" obtain w1 hd_ids rest where
      st: "try_io w = (None, w1)" "saga_ids_of (seg_lines s) = Some hd_ids"
        "scan_entries es w1 = (Inr rest, w')" "ids = hd_ids @ rest"
      by (auto split: prod.splits option.splits sum.splits)
    with "3.IH"(2) [of None w1 hd_ids rest w'] True saga_ids_of_set [OF st(2)]
    show ?thesis by auto
  qed
qed auto

lemma map_build_keys: "set (map fst (map_build kvs)) = fst ` set kvs"
proof -
  have "fst ` set (fold (\<lambda>(k, v). map_put k v) kvs m) = fst ` set m \<union> fst ` set kvs"
    for m :: "(string \<times> 'a) list"
  proof (induction kvs arbitrary: m)
    case Nil
    then show ?case by simp
  next
    case (Cons kv kvs)
    then show ?case
      using keys_map_put [of "fst kv" "snd kv" m] by (simp add: case_prod_beta)
  qed
  from this [of "[]"] show ?thesis by (simp add: map_build_def)
qed

text \<open>When \<open>ListSagas\<close> returns, its result is strictly sorted and holds exactly the identifiers
  that some record of some segment names, recovered from the records and not from file names.\<close>

theorem list_sagas_exact:
  assumes "list_sagas w = (Inr ids, w')"
  shows "sorted_wrt (<) ids
     \<and> (\<forall>saga. saga \<in> set ids \<longleftrightarrow>
          (\<exists>name s. (name, File s) \<in> set (entries w) \<and> has_suffix ''.jsonl'' name
             \<and> (\<exists>l \<in> set (seg_lines s). names_saga l saga)))"
proof -
  obtain w1 where 1: "try_io w = (None, w1)"
    using assms by (cases "try_io w"; cases "fst (try_io w)") (auto simp: list_sagas_def)
  obtain raw where raw: "scan_entries (entries w1) w1 = (Inr raw, w')"
      "ids = map fst (map_build (map (\<lambda>i. (i, ())) raw))"
    using assms 1 by (auto simp: list_sagas_def split: prod.splits sum.splits)
  have "entries w1 = entries w" using try_io_frame [OF 1] by auto
  with scan_entries_set [OF raw(1)] have
    "saga \<in> set raw \<longleftrightarrow> (\<exists>name s. (name, File s) \<in> set (entries w) \<and> has_suffix ''.jsonl'' name
       \<and> (\<exists>l \<in> set (seg_lines s). names_saga l saga))" for saga by simp
  moreover have "set ids = set raw"
    unfolding raw(2) map_build_keys by (force simp: image_image)
  ultimately show ?thesis using raw(2) sorted_map_build by simp
qed

theorem list_sagas_exact_witness:
  "sorted_wrt (<) [''s''] \<and>
   (\<exists>w'. list_sagas (snd (append_event (\<lambda>s. s) sample_event empty_journal)) = (Inr [''s''], w'))"
proof -
  have run: "append_event (\<lambda>s. s) sample_event empty_journal =
      (None, empty_journal\<lparr>entries := [(''s.jsonl'',
         File \<lparr>seg_lines = [Line (enc_record (event_record sample_event))], seg_open = False\<rparr>)]\<rparr>)"
    by (simp add: append_event_def append_record_calm safe_segment_name_def saga_segment_def
        empty_segment_def)
  have "parse_line (Line (enc_record (event_record sample_event))) = Some (event_record sample_event)"
    using sample_event_facts(3) by (simp add: journalable_def dec_enc_record)
  then have "\<exists>w'. list_sagas (snd (append_event (\<lambda>s. s) sample_event empty_journal)) = (Inr [''s''], w')"
    by (simp add: run list_sagas_def has_suffix_def map_build_def)
      (simp add: event_record_def sample_event_def map_build_def)
  then show ?thesis using list_sagas_exact by blast
qed

text \<open>\<open>AppendEvent\<close> has no limit on the size of a line and \<open>ReadSaga\<close> has one: an event whose line
  reaches the 8 MiB of the scanner's buffer is appended without error, and then the whole saga cannot be
  read any more, however many records follow.\<close>

theorem oversized_event_accepted:
  assumes "faults w = []" "validate_event e = None"
    "max_line \<le> length (json_text (enc_record (event_record e)))"
    "\<not> seg_open (saga_segment sha (ev_saga_id e) w)"
    "map_of (entries w) (safe_segment_name sha (ev_saga_id e)) \<noteq> Some Subdir"
  shows "\<exists>w'. append_event sha e w = (None, w')
     \<and> (\<exists>e1. fst (read_saga sha (ev_saga_id e) w') = Inl e1)"
proof -
  let ?n = "safe_segment_name sha (ev_saga_id e)"
  let ?ls = "seg_lines (saga_segment sha (ev_saga_id e) w)"
  obtain w' where w': "append_event sha e w = (None, w')" "faults w' = []"
      "map_of (entries w') ?n = Some (File \<lparr>seg_lines = ?ls @ [Line (enc_record (event_record e))],
                                          seg_open = False\<rparr>)"
    using append_record_calm [OF assms(1,5)] assms by (simp add: append_event_def)
  have "\<exists>e1. read_lines (?ls @ [Line (enc_record (event_record e))]) = Inl e1"
    unfolding read_lines_snoc [of ?ls] using assms(3) by (simp split: sum.split)
  with w' show ?thesis by (auto simp: read_saga_def)
qed

definition big_event :: event where
  "big_event = sample_event\<lparr>ev_payload := Some (JStr (replicate max_line (CHR ''x'')))\<rparr>"

lemma escape_text_plain: "escape_text (replicate n (CHR ''x'')) = replicate n (CHR ''x'')"
  by (induction n) (simp_all add: escape_char_def Let_def byte_def)

theorem oversized_event_accepted_witness:
  "\<exists>w'. append_event (\<lambda>s. s) big_event empty_journal = (None, w')
     \<and> (\<exists>e1. fst (read_saga (\<lambda>s. s) ''s'' w') = Inl e1)"
proof -
  have "validate_event big_event = None"
    by (simp add: validate_event_def big_event_def sample_event_def is_zero_time_def)
  moreover have "max_line \<le> length (json_text (enc_record (event_record big_event)))"
    by (simp add: enc_record_def event_record_def enc_event_def big_event_def quoted_text_def
        escape_text_plain)
  ultimately show ?thesis
    using oversized_event_accepted [of empty_journal big_event "\<lambda>s. s"]
    by (simp add: saga_segment_def empty_segment_def) (simp add: big_event_def)
qed

end
