(* ===== verification/Remote_Mirror.thy ===== *)
theory Remote_Mirror
  imports Contracts
begin

text \<open>
  \<open>storage/storage.go\<close>: the generic mirror over a narrow client seam. The client is code outside
  the package (an API or MCP transport): two state transformers, \<open>cl_get\<close> and \<open>cl_put\<close>, that the
  operations take as an argument. Everything proved here holds for every client.
\<close>

record remote_document =
  do_id :: string
  do_url :: string
  do_revision :: string
  do_content :: string
  do_not_found :: bool

record 'w client =
  cl_get :: "string \<Rightarrow> string \<Rightarrow> string \<Rightarrow> 'w \<Rightarrow> remote_document res \<times> 'w"
  cl_put :: "string \<Rightarrow> string \<Rightarrow> string \<Rightarrow> string \<Rightarrow> string \<Rightarrow> 'w \<Rightarrow> remote_document res \<times> 'w"

record 'w mirror =
  mi_backend :: string
  mi_repository :: string
  mi_client :: "'w client"

definition content_hash :: "(string \<Rightarrow> string) \<Rightarrow> string \<Rightarrow> string" where
  "content_hash sha content = sha content"

definition ErrConflict_err :: err where
  "ErrConflict_err = GoErr [ErrConflict] ''storage mirror conflict''"

text \<open>\<open>fmt.Errorf("%w: %v", ErrUnavailable, err)\<close>: the cause's chain is cut.\<close>

definition unavailable :: "err \<Rightarrow> err" where
  "unavailable e = GoErr [ErrUnavailable] (''storage mirror unavailable: '' @ err_text e)"

definition new_mirror :: "string \<Rightarrow> string \<Rightarrow> 'w client option \<Rightarrow> 'w mirror res" where
  "new_mirror backend repository cl =
     (if backend \<noteq> BackendWiki \<and> backend \<noteq> BackendIssues
      then Inl (new_err ''backend must be wiki or issues'')
      else (case cl of
              None \<Rightarrow> Inl (new_err ''repository and authenticated client are required'')
            | Some c \<Rightarrow>
                if repository = [] then Inl (new_err ''repository and authenticated client are required'')
                else Inr \<lparr>mi_backend = backend, mi_repository = repository, mi_client = c\<rparr>))"

definition start_result :: "(string \<Rightarrow> string) \<Rightarrow> 'w mirror \<Rightarrow> remote_diary \<Rightarrow> storage_result" where
  "start_result sha m d = zero_result\<lparr>sr_backend := mi_backend m, sr_key := diary_key sha d,
     sr_local_hash := content_hash sha (rd_content d)\<rparr>"

text \<open>The three lines every operation has for an error of the client.\<close>

definition failed_with :: "string \<Rightarrow> string \<Rightarrow> err \<Rightarrow> storage_result \<Rightarrow> storage_result" where
  "failed_with state class e r = r\<lparr>sr_state := state, sr_failure_class := class, sr_cause := Some e\<rparr>"

definition client_failure :: "err \<Rightarrow> storage_result \<Rightarrow> storage_result" where
  "client_failure e r =
     (if errors_is e ErrPrerequisiteMissing
      then failed_with PrerequisiteMissing FailurePrerequisite e r
      else failed_with SyncPending FailureTransient (unavailable e) r)"

text \<open>The end of a successful \<open>Put\<close>: an empty answer counts as the local content.\<close>

definition put_result :: "(string \<Rightarrow> string) \<Rightarrow> remote_document \<Rightarrow> storage_result \<Rightarrow> storage_result" where
  "put_result sha created r =
     (let h = content_hash sha (do_content created) in
      r\<lparr>sr_state := Mirrored, sr_remote_id := do_id created, sr_remote_url := do_url created,
        sr_remote_rev := do_revision created,
        sr_effective_remote_hash := (if h = content_hash sha [] then sr_local_hash r else h)\<rparr>)"

definition mirror_mirror ::
  "(string \<Rightarrow> string) \<Rightarrow> 'w mirror \<Rightarrow> remote_diary \<Rightarrow> 'w \<Rightarrow> storage_result \<times> 'w" where
  "mirror_mirror sha m d w =
     (let r = start_result sha m d in
      case validate_diary d of
        Some e \<Rightarrow> (failed_with SyncPending FailureTransient e r, w)
      | None \<Rightarrow>
     (case cl_get (mi_client m) (mi_backend m) (mi_repository m) (sr_key r) w of
        (Inl e, w1) \<Rightarrow> (client_failure e r, w1)
      | (Inr remote, w1) \<Rightarrow>
          if \<not> do_not_found remote \<and> do_content remote = rd_content d
          then (r\<lparr>sr_state := Mirrored, sr_remote_id := do_id remote, sr_remote_url := do_url remote,
                  sr_remote_rev := do_revision remote,
                  sr_effective_remote_hash := content_hash sha (do_content remote)\<rparr>, w1)
          else if \<not> do_not_found remote
          then (r\<lparr>sr_state := SyncConflict, sr_failure_class := FailureConflict,
                  sr_remote_id := do_id remote, sr_remote_url := do_url remote,
                  sr_remote_rev := do_revision remote, sr_expected_rev := [],
                  sr_remote_content := do_content remote,
                  sr_effective_remote_hash := content_hash sha (do_content remote),
                  sr_cause := Some ErrConflict_err\<rparr>, w1)
          else (case cl_put (mi_client m) (mi_backend m) (mi_repository m) (sr_key r) (rd_content d) [] w1 of
                  (Inl e, w2) \<Rightarrow> (client_failure e r, w2)
                | (Inr created, w2) \<Rightarrow> (put_result sha created r, w2))))"

definition mirror_recover ::
  "(string \<Rightarrow> string) \<Rightarrow> 'w mirror \<Rightarrow> remote_diary \<Rightarrow> 'w \<Rightarrow> storage_result \<times> 'w" where
  "mirror_recover sha m d w = mirror_mirror sha m d w"

definition mirror_status ::
  "(string \<Rightarrow> string) \<Rightarrow> 'w mirror \<Rightarrow> remote_diary \<Rightarrow> 'w \<Rightarrow> storage_result \<times> 'w" where
  "mirror_status sha m d w =
     (let r = start_result sha m d in
      case validate_diary d of
        Some e \<Rightarrow> (failed_with SyncPending FailureTransient e r, w)
      | None \<Rightarrow>
     (case cl_get (mi_client m) (mi_backend m) (mi_repository m) (sr_key r) w of
        (Inl e, w1) \<Rightarrow> (client_failure e r, w1)
      | (Inr remote, w1) \<Rightarrow>
          if do_not_found remote
          then (failed_with SyncPending FailureTransient (new_err ''remote document not found'') r, w1)
          else (let r1 = r\<lparr>sr_remote_id := do_id remote, sr_remote_url := do_url remote,
                           sr_remote_rev := do_revision remote,
                           sr_remote_content := do_content remote,
                           sr_effective_remote_hash := content_hash sha (do_content remote)\<rparr>
                in if do_content remote \<noteq> rd_content d
                   then (failed_with SyncConflict FailureConflict ErrConflict_err r1, w1)
                   else (r1\<lparr>sr_state := Mirrored\<rparr>, w1))))"

definition KeepLocal :: string where "KeepLocal = ''keep-local''"
definition KeepRemote :: string where "KeepRemote = ''keep-remote''"

definition mirror_resolve ::
  "(string \<Rightarrow> string) \<Rightarrow> 'w mirror \<Rightarrow> remote_diary \<Rightarrow> string \<Rightarrow> string \<Rightarrow> 'w \<Rightarrow> storage_result \<times> 'w" where
  "mirror_resolve sha m d choice observed w =
     (let r = start_result sha m d in
      if choice \<noteq> KeepLocal \<and> choice \<noteq> KeepRemote
      then (failed_with SyncConflict FailureConflict
              (new_err ''resolution must be keep-local or keep-remote'') r, w)
      else
     (case cl_get (mi_client m) (mi_backend m) (mi_repository m) (sr_key r) w of
        (Inl e, w1) \<Rightarrow> (client_failure e r, w1)
      | (Inr remote, w1) \<Rightarrow>
         (let r1 = r\<lparr>sr_remote_id := do_id remote, sr_remote_url := do_url remote,
                     sr_remote_rev := do_revision remote, sr_expected_rev := observed,
                     sr_remote_content := do_content remote,
                     sr_effective_remote_hash := content_hash sha (do_content remote)\<rparr>
          in if observed = [] \<or> do_revision remote \<noteq> observed
             then (failed_with SyncConflict FailureConflict ErrConflict_err r1, w1)
             else if choice = KeepRemote then (r1\<lparr>sr_state := Mirrored\<rparr>, w1)
             else (case cl_put (mi_client m) (mi_backend m) (mi_repository m) (sr_key r)
                          (rd_content d) observed w1 of
                     (Inl e, w2) \<Rightarrow> (client_failure e r1, w2)
                   | (Inr updated, w2) \<Rightarrow> (put_result sha updated r1, w2)))))"

lemma failed_with_sels [simp]:
  "sr_state (failed_with s c e r) = s" "sr_key (failed_with s c e r) = sr_key r"
  "sr_failure_class (failed_with s c e r) = c" "sr_cause (failed_with s c e r) = Some e"
  by (simp_all add: failed_with_def)

lemma client_failure_state [simp]:
  "sr_state (client_failure e r) = (if errors_is e ErrPrerequisiteMissing then PrerequisiteMissing else SyncPending)"
  "sr_key (client_failure e r) = sr_key r"
  by (simp_all add: client_failure_def)

lemma put_result_state [simp]: "sr_state (put_result sha c r) = Mirrored" "sr_key (put_result sha c r) = sr_key r"
  by (simp_all add: put_result_def Let_def)

lemma storage_states_distinct [simp]:
  "Mirrored \<noteq> SyncPending" "Mirrored \<noteq> SyncConflict" "Mirrored \<noteq> PrerequisiteMissing"
  "SyncPending \<noteq> Mirrored" "SyncConflict \<noteq> Mirrored" "PrerequisiteMissing \<noteq> Mirrored"
  "SyncPending \<noteq> SyncConflict" "SyncConflict \<noteq> SyncPending"
  "PrerequisiteMissing \<noteq> SyncPending" "SyncPending \<noteq> PrerequisiteMissing"
  "PrerequisiteMissing \<noteq> SyncConflict" "SyncConflict \<noteq> PrerequisiteMissing"
  by (simp_all add: storage_constants)

section \<open>Properties\<close>

text \<open>
  A client that counts its writes, for concrete runs: its state is the document it holds, if any,
  and the number of \<open>Put\<close> calls so far.
\<close>

definition one_document :: "(remote_document option \<times> nat) client" where
  "one_document = \<lparr>
     cl_get = (\<lambda>b r k w. (Inr (case fst w of
         None \<Rightarrow> \<lparr>do_id = [], do_url = [], do_revision = [], do_content = [], do_not_found = True\<rparr>
       | Some doc \<Rightarrow> doc), w)),
     cl_put = (\<lambda>b r k content expected w.
       let doc = \<lparr>do_id = ''1'', do_url = ''u'', do_revision = ''git:abcdef1'', do_content = content,
                  do_not_found = False\<rparr>
       in (Inr doc, (Some doc, Suc (snd w))))\<rparr>"

definition sample_mirror :: "(remote_document option \<times> nat) mirror" where
  "sample_mirror = \<lparr>mi_backend = BackendWiki, mi_repository = ''o/r'', mi_client = one_document\<rparr>"

definition sample_remote_diary :: remote_diary where
  "sample_remote_diary = \<lparr>rd_session_id = ''s'', rd_repository_id = ''r'', rd_commit_sha = ''c'',
     rd_artifact_hash = ''h'', rd_content = ''local''\<rparr>"

text \<open>Mirroring never overwrites: when the client finds a document under the diary's key, \<open>Mirror\<close>
  makes no other remote call, whatever the document holds; the outcome is \<open>mirrored\<close> exactly when
  the content is the diary's own, and otherwise a conflict that carries the document's revision
  and content as evidence.\<close>

theorem mirror_never_overwrites:
  assumes "validate_diary d = None"
    "cl_get (mi_client m) (mi_backend m) (mi_repository m) (diary_key sha d) w = (Inr doc, w1)"
    "\<not> do_not_found doc"
  shows "\<exists>r. mirror_mirror sha m d w = (r, w1)
     \<and> (sr_state r = Mirrored \<longleftrightarrow> do_content doc = rd_content d)
     \<and> (do_content doc \<noteq> rd_content d \<longrightarrow> sr_state r = SyncConflict
          \<and> sr_remote_rev r = do_revision doc \<and> sr_remote_content r = do_content doc)"
  using assms by (simp add: mirror_mirror_def start_result_def zero_result_def Let_def)

theorem mirror_never_overwrites_witness:
  "\<exists>r. mirror_mirror (\<lambda>s. s) sample_mirror sample_remote_diary
        (Some \<lparr>do_id = ''1'', do_url = ''u'', do_revision = ''git:abcdef1'', do_content = ''other'',
               do_not_found = False\<rparr>, 0)
      = (r, (Some \<lparr>do_id = ''1'', do_url = ''u'', do_revision = ''git:abcdef1'', do_content = ''other'',
               do_not_found = False\<rparr>, 0)) \<and> sr_state r = SyncConflict"
  using mirror_never_overwrites [of sample_remote_diary sample_mirror "\<lambda>s. s"
      "(Some \<lparr>do_id = ''1'', do_url = ''u'', do_revision = ''git:abcdef1'', do_content = ''other'',
               do_not_found = False\<rparr>, 0)"]
  by (auto simp: validate_diary_def sample_remote_diary_def sample_mirror_def one_document_def)

text \<open>\<open>Resolve\<close> writes only for \<open>keep-local\<close> and only when the revision the caller observed is not
  empty and is still the current one; that single \<open>Put\<close> carries the diary's content and the
  observed revision. In every other case the state is the one after the read.\<close>

theorem resolve_writes_only_observed:
  assumes "cl_get (mi_client m) (mi_backend m) (mi_repository m) (diary_key sha d) w = (Inr doc, w1)"
    "choice = KeepLocal \<or> choice = KeepRemote"
  shows "snd (mirror_resolve sha m d choice observed w) =
     (if choice = KeepLocal \<and> observed \<noteq> [] \<and> do_revision doc = observed
      then snd (cl_put (mi_client m) (mi_backend m) (mi_repository m) (diary_key sha d)
                  (rd_content d) observed w1)
      else w1)
     \<and> (observed = [] \<or> do_revision doc \<noteq> observed \<longrightarrow>
          sr_state (fst (mirror_resolve sha m d choice observed w)) = SyncConflict)"
  using assms
  by (cases "cl_put (mi_client m) (mi_backend m) (mi_repository m) (diary_key sha d) (rd_content d) observed w1")
    (auto simp: mirror_resolve_def start_result_def zero_result_def Let_def KeepLocal_def KeepRemote_def
      split: sum.split)

theorem resolve_writes_only_observed_witness:
  "snd (mirror_resolve (\<lambda>s. s) sample_mirror sample_remote_diary KeepLocal ''stale''
     (Some \<lparr>do_id = ''1'', do_url = ''u'', do_revision = ''git:abcdef1'', do_content = ''other'',
            do_not_found = False\<rparr>, 0))
   = (Some \<lparr>do_id = ''1'', do_url = ''u'', do_revision = ''git:abcdef1'', do_content = ''other'',
            do_not_found = False\<rparr>, 0)"
  using resolve_writes_only_observed [of sample_mirror "\<lambda>s. s" sample_remote_diary
      "(Some \<lparr>do_id = ''1'', do_url = ''u'', do_revision = ''git:abcdef1'', do_content = ''other'',
            do_not_found = False\<rparr>, 0)" _ _ KeepLocal "''stale''"]
  by (simp add: sample_mirror_def one_document_def)

end
