(* ===== verification/Local_Stores.thy ===== *)
theory Local_Stores
  imports Journal Remote_Mirror
begin

text \<open>
  The durable local state of storage mirroring (\<open>storage/recovery.go\<close>): remote bindings, conflict
  snapshots and lock files, each a directory of files keyed by idempotency key or path. A file is
  written through a temporary file and a rename, so it either keeps its old content or has
  the new one; the steps before the rename and the directory sync after it may fail. The
  clock, the process identifier and liveness come from the environment.
\<close>

section \<open>State\<close>

text \<open>The content of a file that should hold JSON.\<close>

datatype json_file = JsonFile json | BadFile

record lock_owner =
  lo_pid :: int
  lo_started_at :: int
  lo_owner_id :: string

text \<open>A lock file: a complete owner record, or the empty or partial file of an interrupted writer.\<close>

datatype lock_file = LockOwner lock_owner | LockGarbage

record store = jstate +
  bindings :: "(string \<times> json_file) list"
  conflicts :: "(string \<times> string) list"
  locks :: "(string \<times> lock_file) list"
  lock_sequence :: nat

fun map_del :: "string \<Rightarrow> (string \<times> 'v) list \<Rightarrow> (string \<times> 'v) list" where
  "map_del k [] = []"
| "map_del k ((k', v) # m) = (if k = k' then map_del k m else (k', v) # map_del k m)"

lemma map_of_map_del [simp]: "map_of (map_del k m) k' = (if k' = k then None else map_of m k')"
  by (induction m) auto

section \<open>Atomic writes\<close>

fun try_ios :: "nat \<Rightarrow> 'a env_scheme \<Rightarrow> err option \<times> 'a env_scheme" where
  "try_ios 0 w = (None, w)"
| "try_ios (Suc n) w =
     (case try_io w of (Some e, w1) \<Rightarrow> (Some e, w1) | (None, w1) \<Rightarrow> try_ios n w1)"

lemma try_ios_frame: "try_ios n w = (r, w') \<Longrightarrow> \<exists>fs. w' = w\<lparr>faults := fs\<rparr>"
proof (induction n arbitrary: w)
  case (Suc n)
  obtain q w1 where 1: "try_io w = (q, w1)" by (cases "try_io w")
  obtain fs where fs: "w1 = w\<lparr>faults := fs\<rparr>" using try_io_frame [OF 1] by auto
  show ?case
  proof (cases q)
    case None
    with Suc.prems 1 have "try_ios n w1 = (r, w')" by simp
    from Suc.IH [OF this] fs show ?thesis by auto
  next
    case (Some e)
    with Suc.prems 1 fs show ?thesis by auto
  qed
qed auto

lemma try_ios_calm [simp]: "faults w = [] \<Longrightarrow> try_ios n w = (None, w)"
  by (induction n) simp_all

text \<open>
  \<open>atomicWrite\<close>: create the directory and the temporary file, set its mode, write, sync, close and
  rename, then open and sync the directory.
\<close>

definition atomic_write ::
  "('a env_scheme \<Rightarrow> 'a env_scheme) \<Rightarrow> 'a env_scheme \<Rightarrow> err option \<times> 'a env_scheme" where
  "atomic_write put w =
     (case try_ios 7 w of
        (Some e, w1) \<Rightarrow> (Some e, w1)
      | (None, w1) \<Rightarrow> try_ios 2 (put w1))"

section \<open>Bindings\<close>

definition binding_path :: "string \<Rightarrow> err option" where
  "binding_path key =
     (if is_sha256 key then None else Some (new_err ''binding key must be a SHA-256 digest''))"

definition save_binding :: "remote_binding \<Rightarrow> 'a store_scheme \<Rightarrow> err option \<times> 'a store_scheme" where
  "save_binding b w =
     (case validate_binding b of
        Some e \<Rightarrow> (Some e, w)
      | None \<Rightarrow>
     (case ctx_err w of
        (Some e, w1) \<Rightarrow> (Some e, w1)
      | (None, w1) \<Rightarrow>
          atomic_write (\<lambda>v. v\<lparr>bindings := map_put (rb_key b) (JsonFile (enc_binding b)) (bindings v)\<rparr>) w1))"

definition save_result :: "string \<Rightarrow> storage_result \<Rightarrow> 'a store_scheme \<Rightarrow> err option \<times> 'a store_scheme" where
  "save_result provider r w =
     (case time_now w of (t, w1) \<Rightarrow>
        save_binding \<lparr>rb_key = sr_key r, rb_backend = sr_backend r, rb_provider = provider,
          rb_remote_id = sr_remote_id r, rb_url = sr_remote_url r, rb_revision = sr_remote_rev r,
          rb_local_hash = sr_local_hash r,
          rb_effective_remote_hash = sr_effective_remote_hash r, rb_updated_at = t\<rparr> w1)"

definition decode_binding_err :: err where
  "decode_binding_err = new_err ''decode remote binding: invalid JSON''"

definition load_binding :: "string \<Rightarrow> 'a store_scheme \<Rightarrow> remote_binding option res \<times> 'a store_scheme" where
  "load_binding key w =
     (case ctx_err w of
        (Some e, w1) \<Rightarrow> (Inl e, w1)
      | (None, w1) \<Rightarrow>
     (case binding_path key of
        Some e \<Rightarrow> (Inl e, w1)
      | None \<Rightarrow>
     (case try_io w1 of
        (Some e, w2) \<Rightarrow> (if errors_is e ErrNotExist then Inr None else Inl e, w2)
      | (None, w2) \<Rightarrow>
         (case map_of (bindings w2) key of
            None \<Rightarrow> (Inr None, w2)
          | Some BadFile \<Rightarrow> (Inl decode_binding_err, w2)
          | Some (JsonFile j) \<Rightarrow>
              (case dec_binding j of
                 None \<Rightarrow> (Inl decode_binding_err, w2)
               | Some b \<Rightarrow>
                   (case validate_binding b of
                      Some e \<Rightarrow> (Inl (wrap_with ''validate remote binding'' e), w2)
                    | None \<Rightarrow> (Inr (Some b), w2)))))))"

section \<open>Conflict snapshots\<close>

text \<open>
  \<open>safeComponent\<close> on valid UTF-8: a rune outside the portable set becomes one underscore, so its
  continuation bytes disappear.
\<close>

definition portable_char :: "char \<Rightarrow> bool" where
  "portable_char c = (is_letter c \<or> is_digit c \<or> c = CHR ''.'' \<or> c = CHR ''_'' \<or> c = CHR ''-'')"

definition safe_component :: "string \<Rightarrow> string" where
  "safe_component v =
     (let s = concat (map (\<lambda>c. if portable_char c then [c]
                               else if 128 \<le> byte c \<and> byte c < 192 then [] else ''_'') v)
      in if s = [] then ''revision'' else s)"

definition conflict_path :: "string \<Rightarrow> string \<Rightarrow> string \<Rightarrow> string" where
  "conflict_path root key revision =
     root @ ''/conflicts/'' @ key @ ''/'' @ safe_component revision @ ''.remote.md''"

definition write_conflict ::
  "string \<Rightarrow> string \<Rightarrow> string \<Rightarrow> string \<Rightarrow> 'a store_scheme \<Rightarrow> string res \<times> 'a store_scheme" where
  "write_conflict root key revision content w =
     (case ctx_err w of
        (Some e, w1) \<Rightarrow> (Inl e, w1)
      | (None, w1) \<Rightarrow>
     (if \<not> is_sha256 key \<or> revision = []
      then (Inl (new_err ''conflict snapshot requires idempotency key and revision''), w1)
      else
     (case try_io w1 of
        (Some e, w2) \<Rightarrow> (Inl e, w2)
      | (None, w2) \<Rightarrow>
         (let path = conflict_path root key revision in
          case atomic_write (\<lambda>v. v\<lparr>conflicts := map_put path content (conflicts v)\<rparr>) w2 of
            (Some e, w3) \<Rightarrow> (Inl e, w3)
          | (None, w3) \<Rightarrow> (Inr path, w3)))))"

section \<open>Lock files\<close>

text \<open>What \<open>MirrorLocks\<close> is built with: the process identifier and the liveness test.\<close>

record lock_config =
  lc_pid :: int
  lc_alive :: "int \<Rightarrow> bool"

definition unix_nano :: "int \<Rightarrow> int" where
  "unix_nano t = t - 62135596800000000000"

definition random_id :: "(string \<Rightarrow> string) \<Rightarrow> int \<Rightarrow> 'a store_scheme \<Rightarrow> string \<times> 'a store_scheme" where
  "random_id sha pid w =
     (let w1 = w\<lparr>lock_sequence := Suc (lock_sequence w)\<rparr> in
      case time_now w1 of (t, w2) \<Rightarrow>
        (take 32 (sha (int_text pid @ ''-'' @ int_text (unix_nano t) @ ''-''
                       @ nat_text (lock_sequence w2))), w2))"

definition lock_path :: "string \<Rightarrow> err option" where
  "lock_path key =
     (if is_sha256 key then None else Some (new_err ''mirror lock key must be a SHA-256 digest''))"

definition owner_valid :: "lock_owner \<Rightarrow> bool" where
  "owner_valid ow = (\<not> (lo_pid ow \<le> 0 \<or> is_zero_time (lo_started_at ow) \<or> lo_owner_id ow = []))"

definition ErrNotExist_err :: err where
  "ErrNotExist_err = GoErr [ErrNotExist] ''file does not exist''"

definition read_lock_owner :: "string \<Rightarrow> 'a store_scheme \<Rightarrow> lock_owner res \<times> 'a store_scheme" where
  "read_lock_owner key w =
     (case try_io w of
        (Some e, w1) \<Rightarrow> (Inl e, w1)
      | (None, w1) \<Rightarrow>
         (case map_of (locks w1) key of
            None \<Rightarrow> (Inl ErrNotExist_err, w1)
          | Some LockGarbage \<Rightarrow> (Inl (new_err ''invalid JSON''), w1)
          | Some (LockOwner ow) \<Rightarrow>
              if owner_valid ow then (Inr ow, w1)
              else (Inl (new_err ''invalid mirror lock owner''), w1)))"

definition in_progress_err :: "lock_owner \<Rightarrow> err" where
  "in_progress_err ow = GoErr [ErrMirrorInProgress]
     (''storage mirror already in progress (pid '' @ int_text (lo_pid ow) @ '' since ''
      @ rfc3339_text (lo_started_at ow) @ '')'')"

definition existing_lock :: "string \<Rightarrow> 'a store_scheme \<Rightarrow> lock_owner res \<times> 'a store_scheme" where
  "existing_lock key w =
     (case read_lock_owner key w of
        (Inl e, w1) \<Rightarrow> (Inl (wrap_with ''read existing mirror lock'' e), w1)
      | (Inr ow, w1) \<Rightarrow> (Inl (in_progress_err ow), w1))"

text \<open>After a failed write \<open>os.Remove\<close> is tried and its own error dropped.\<close>

definition remove_lock :: "string \<Rightarrow> 'a store_scheme \<Rightarrow> err option \<times> 'a store_scheme" where
  "remove_lock key w =
     (case try_io w of
        (Some e, w1) \<Rightarrow> (Some e, w1)
      | (None, w1) \<Rightarrow> (None, w1\<lparr>locks := map_del key (locks w1)\<rparr>))"

definition acquire_lock ::
  "(string \<Rightarrow> string) \<Rightarrow> lock_config \<Rightarrow> string \<Rightarrow> 'a store_scheme \<Rightarrow> lock_owner res \<times> 'a store_scheme"
where
  "acquire_lock sha cfg key w =
     (case ctx_err w of
        (Some e, w1) \<Rightarrow> (Inl e, w1)
      | (None, w1) \<Rightarrow>
     (case lock_path key of
        Some e \<Rightarrow> (Inl e, w1)
      | None \<Rightarrow>
     (case time_now w1 of
        (t, w2) \<Rightarrow>
     (case random_id sha (lc_pid cfg) w2 of
        (oid, w3) \<Rightarrow>
     (let ow = \<lparr>lo_pid = lc_pid cfg, lo_started_at = t, lo_owner_id = oid\<rparr> in
      case try_io w3 of
        (Some e, w4) \<Rightarrow> if errors_is e ErrExist then existing_lock key w4 else (Inl e, w4)
      | (None, w4) \<Rightarrow>
         (case map_of (locks w4) key of
            Some f \<Rightarrow> existing_lock key w4
          | None \<Rightarrow>
             (case try_ios 3 (w4\<lparr>locks := map_put key LockGarbage (locks w4)\<rparr>) of
                (Some e, w5) \<Rightarrow> (Inl e, snd (remove_lock key w5))
              | (None, w5) \<Rightarrow>
                  (Inr ow, w5\<lparr>locks := map_put key (LockOwner ow) (locks w5)\<rparr>))))))))"

definition release_lock ::
  "string \<Rightarrow> lock_owner \<Rightarrow> 'a store_scheme \<Rightarrow> err option \<times> 'a store_scheme" where
  "release_lock key ow w =
     (case try_io w of
        (Some e, w1) \<Rightarrow> (if errors_is e ErrNotExist then None else Some e, w1)
      | (None, w1) \<Rightarrow>
         (case map_of (locks w1) key of
            None \<Rightarrow> (None, w1)
          | Some LockGarbage \<Rightarrow> (Some (new_err ''mirror lock ownership changed before release''), w1)
          | Some (LockOwner cur) \<Rightarrow>
              if lo_owner_id cur \<noteq> lo_owner_id ow
              then (Some (new_err ''mirror lock ownership changed before release''), w1)
              else remove_lock key w1))"

definition lock_owner_of :: "string \<Rightarrow> 'a store_scheme \<Rightarrow> lock_owner option res \<times> 'a store_scheme" where
  "lock_owner_of key w =
     (case ctx_err w of
        (Some e, w1) \<Rightarrow> (Inl e, w1)
      | (None, w1) \<Rightarrow>
     (case lock_path key of
        Some e \<Rightarrow> (Inl e, w1)
      | None \<Rightarrow>
         (case read_lock_owner key w1 of
            (Inl e, w2) \<Rightarrow> (if errors_is e ErrNotExist then Inr None else Inl e, w2)
          | (Inr ow, w2) \<Rightarrow> (Inr (Some ow), w2))))"

definition clear_orphan :: "lock_config \<Rightarrow> string \<Rightarrow> 'a store_scheme \<Rightarrow> err option \<times> 'a store_scheme" where
  "clear_orphan cfg key w =
     (case ctx_err w of
        (Some e, w1) \<Rightarrow> (Some e, w1)
      | (None, w1) \<Rightarrow>
     (case lock_path key of
        Some e \<Rightarrow> (Some e, w1)
      | None \<Rightarrow>
         (case read_lock_owner key w1 of
            (Inl e, w2) \<Rightarrow> (if errors_is e ErrNotExist then None else Some e, w2)
          | (Inr ow, w2) \<Rightarrow>
              if lc_alive cfg (lo_pid ow)
              then (Some (new_err (''cannot clear mirror lock: process '' @ int_text (lo_pid ow)
                                   @ '' is still alive'')), w2)
              else remove_lock key w2)))"

section \<open>The interface of a projection store\<close>

text \<open>
  What the managed mirror relies on: a successful save is what later loads return under its key,
  a save changes no other key, whatever it returns, and a load changes nothing and returns only
  valid values.
\<close>

locale projection_store =
  fixes save :: "'b \<Rightarrow> 'w \<Rightarrow> err option \<times> 'w"
    and load :: "string \<Rightarrow> 'w \<Rightarrow> 'b option res \<times> 'w"
    and key_of :: "'b \<Rightarrow> string"
    and stored :: "'w \<Rightarrow> string \<Rightarrow> 'b option"
    and valid :: "'b \<Rightarrow> bool"
    and undisturbed :: "'w \<Rightarrow> bool"
  assumes save_stores: "save b w = (None, w') \<Longrightarrow> stored w' (key_of b) = Some b \<and> valid b"
    and save_other: "save b w = (res, w') \<Longrightarrow> k \<noteq> key_of b \<Longrightarrow> stored w' k = stored w k"
    and load_same: "load k w = (found, w') \<Longrightarrow> stored w' = stored w"
    and load_valid: "load k w = (Inr (Some b), w') \<Longrightarrow> valid b \<and> stored w k = Some b"
    and load_found: "undisturbed w \<Longrightarrow> stored w k = Some b \<Longrightarrow> valid b \<Longrightarrow> key_of b = k \<Longrightarrow>
        fst (load k w) = Inr (Some b)"
begin

lemma load_after_save:
  "save b w = (None, w') \<Longrightarrow> undisturbed w' \<Longrightarrow> fst (load (key_of b) w') = Inr (Some b)"
  using save_stores load_found by blast

lemma load_after_other_save:
  "save b w = (res, w') \<Longrightarrow> k \<noteq> key_of b \<Longrightarrow> load k w' = (Inr (Some b'), w'') \<Longrightarrow> stored w k = Some b'"
  using save_other load_valid by metis

end

text \<open>The binding a key's file holds.\<close>

definition stored_binding :: "'a store_scheme \<Rightarrow> string \<Rightarrow> remote_binding option" where
  "stored_binding w key =
     (case map_of (bindings w) key of Some (JsonFile j) \<Rightarrow> dec_binding j | _ \<Rightarrow> None)"

lemma stored_binding_faults [simp]: "stored_binding (w\<lparr>faults := fs\<rparr>) = stored_binding w"
  by (simp add: stored_binding_def fun_eq_iff)

lemma stored_binding_put [simp]:
  "stored_binding (w\<lparr>bindings := map_put k (JsonFile (enc_binding b)) (bindings w)\<rparr>) k'
     = (if k' = k then Some b else stored_binding w k')"
  by (simp add: stored_binding_def)

lemma atomic_write_cases:
  assumes "atomic_write put w = (res, w')"
  obtains (kept) e fs where "res = Some e" "w' = w\<lparr>faults := fs\<rparr>"
  | (written) fs fs' where "w' = (put (w\<lparr>faults := fs\<rparr>))\<lparr>faults := fs'\<rparr>"
proof -
  obtain q w1 where 1: "try_ios 7 w = (q, w1)" by (cases "try_ios 7 w")
  obtain fs where fs: "w1 = w\<lparr>faults := fs\<rparr>" using try_ios_frame [OF 1] by auto
  show thesis
  proof (cases q)
    case (Some e)
    with assms 1 fs kept [of e fs] show thesis by (auto simp: atomic_write_def)
  next
    case None
    with assms 1 have "try_ios 2 (put w1) = (res, w')" by (simp add: atomic_write_def)
    from try_ios_frame [OF this] fs written show thesis by auto
  qed
qed

lemma atomic_write_None:
  assumes "atomic_write put w = (None, w')"
  obtains fs fs' where "w' = (put (w\<lparr>faults := fs\<rparr>))\<lparr>faults := fs'\<rparr>"
  using assms by (cases rule: atomic_write_cases) (simp, blast)

text \<open>A save leaves everything but the one file of its key alone.\<close>

lemma save_binding_cases:
  assumes "save_binding b w = (res, w')"
  obtains (kept) e fs where "res = Some e" "w' = w\<lparr>faults := fs\<rparr>"
  | (written) fs where "validate_binding b = None"
      "w' = w\<lparr>faults := fs, bindings := map_put (rb_key b) (JsonFile (enc_binding b)) (bindings w)\<rparr>"
proof (cases "validate_binding b")
  case (Some e)
  with assms kept [of e "faults w"] show thesis by (simp add: save_binding_def)
next
  case None
  obtain q w1 where 1: "ctx_err w = (q, w1)" by (cases "ctx_err w")
  obtain fs where fs: "w1 = w\<lparr>faults := fs\<rparr>" using ctx_err_frame [OF 1] by auto
  show thesis
  proof (cases q)
    case (Some e)
    with assms 1 fs None kept [of e fs] show thesis by (auto simp: save_binding_def)
  next
    case q: None
    let ?put = "\<lambda>v. v\<lparr>bindings := map_put (rb_key b) (JsonFile (enc_binding b)) (bindings v)\<rparr>"
    from assms 1 None q have "atomic_write ?put w1 = (res, w')" by (simp add: save_binding_def)
    then show thesis
    proof (cases rule: atomic_write_cases)
      case (kept e fs1)
      with fs that(1) show thesis by simp
    next
      case (written fs1 fs2)
      with fs None that(2) [of fs2] show thesis by simp
    qed
  qed
qed

lemma load_binding_frame: "load_binding k w = (r, w') \<Longrightarrow> \<exists>fs. w' = w\<lparr>faults := fs\<rparr>"
  unfolding load_binding_def
  by (auto split: prod.splits option.splits json_file.splits dest!: try_io_frame ctx_err_frame)

interpretation binding_store: projection_store save_binding load_binding rb_key stored_binding
  "\<lambda>b. validate_binding b = None" "\<lambda>w. faults w = []"
proof unfold_locales
  fix b and w w' :: "'a store_scheme"
  assume "save_binding b w = (None, w')"
  then show "stored_binding w' (rb_key b) = Some b \<and> validate_binding b = None"
    by (cases rule: save_binding_cases) (simp_all add: stored_binding_def)
next
  fix b and w w' :: "'a store_scheme" and res k
  assume "save_binding b w = (res, w')" "k \<noteq> rb_key b"
  then show "stored_binding w' k = stored_binding w k"
    by (cases rule: save_binding_cases) (simp_all add: stored_binding_def)
next
  fix k and w w' :: "'a store_scheme" and res
  assume "load_binding k w = (res, w')"
  from load_binding_frame [OF this] show "stored_binding w' = stored_binding w" by auto
next
  fix k b and w w' :: "'a store_scheme"
  assume "load_binding k w = (Inr (Some b), w')"
  then show "validate_binding b = None \<and> stored_binding w k = Some b"
    by (auto simp: load_binding_def stored_binding_def split: prod.splits option.splits json_file.splits if_splits
        dest!: try_io_frame ctx_err_frame)
next
  fix k b and w :: "'a store_scheme"
  assume "faults w = []" "stored_binding w k = Some b" "validate_binding b = None" "rb_key b = k"
  moreover from this have "is_sha256 k" by (auto simp: validate_binding_def split: if_splits)
  ultimately show "fst (load_binding k w) = Inr (Some b)"
    by (auto simp: load_binding_def binding_path_def stored_binding_def split: option.splits json_file.splits)
qed

section \<open>Locks that nobody can remove\<close>

text \<open>The operations any process may run on the lock files.\<close>

datatype lock_op =
    OpAcquire lock_config string
  | OpRelease string lock_owner
  | OpClear lock_config string
  | OpOwner string

fun run_lock_op :: "(string \<Rightarrow> string) \<Rightarrow> lock_op \<Rightarrow> 'a store_scheme \<Rightarrow> 'a store_scheme" where
  "run_lock_op sha (OpAcquire cfg key) w = snd (acquire_lock sha cfg key w)"
| "run_lock_op sha (OpRelease key ow) w = snd (release_lock key ow w)"
| "run_lock_op sha (OpClear cfg key) w = snd (clear_orphan cfg key w)"
| "run_lock_op sha (OpOwner key) w = snd (lock_owner_of key w)"

lemma remove_lock_frame:
  "remove_lock key w = (r, w') \<Longrightarrow>
     \<exists>fs. w' = w\<lparr>faults := fs\<rparr> \<or> w' = w\<lparr>faults := fs, locks := map_del key (locks w)\<rparr>"
  unfolding remove_lock_def by (auto split: prod.splits option.splits dest!: try_io_frame)

lemma read_lock_owner_frame: "read_lock_owner key w = (r, w') \<Longrightarrow> \<exists>fs. w' = w\<lparr>faults := fs\<rparr>"
  unfolding read_lock_owner_def
  by (auto split: prod.splits option.splits lock_file.splits if_splits dest!: try_io_frame)

lemma existing_lock_frame: "existing_lock key w = (r, w') \<Longrightarrow> \<exists>fs. w' = w\<lparr>faults := fs\<rparr>"
  unfolding existing_lock_def
  by (auto split: prod.splits sum.splits dest!: read_lock_owner_frame)

lemma existing_lock_fails: "\<exists>e. fst (existing_lock key w) = Inl e"
  unfolding existing_lock_def by (auto split: prod.splits sum.splits)

lemma read_garbage:
  "map_of (locks w) key = Some LockGarbage \<Longrightarrow> \<exists>e. fst (read_lock_owner key w) = Inl e"
  unfolding read_lock_owner_def
  by (auto split: prod.splits option.splits dest!: try_io_frame)

lemma random_id_locks [simp]: "locks (snd (random_id sha pid w)) = locks w"
  by (simp add: random_id_def time_now_def)

text \<open>Before the creation of the file, an acquisition only consumes environment.\<close>

lemma acquire_lock_cases:
  assumes "acquire_lock sha cfg key w = (res, w')"
  obtains (failed) e where "res = Inl e" "locks w' = locks w"
  | (undone) e where "res = Inl e" "map_of (locks w) key = None"
      "locks w' = map_put key LockGarbage (locks w) \<or> locks w' = map_del key (map_put key LockGarbage (locks w))"
  | (held) ow where "res = Inr ow" "map_of (locks w) key = None" "lo_pid ow = lc_pid cfg"
      "locks w' = map_put key (LockOwner ow) (map_put key LockGarbage (locks w))"
proof -
  obtain r1 w1 where 1: "ctx_err w = (r1, w1)" by (cases "ctx_err w")
  have l1: "locks w1 = locks w" using ctx_err_frame [OF 1] by auto
  consider (stop) e where "res = Inl e" "w' = w1"
    | (go) "r1 = None" "lock_path key = None"
    using assms 1 by (auto simp: acquire_lock_def split: option.splits)
  then show thesis
  proof cases
    case stop
    with l1 failed show thesis by simp
  next
    case go
    obtain t w2 where 2: "time_now w1 = (t, w2)" by (cases "time_now w1")
    obtain oid w3 where 3: "random_id sha (lc_pid cfg) w2 = (oid, w3)"
      by (cases "random_id sha (lc_pid cfg) w2")
    obtain r4 w4 where 4: "try_io w3 = (r4, w4)" by (cases "try_io w3")
    let ?ow = "\<lparr>lo_pid = lc_pid cfg, lo_started_at = t, lo_owner_id = oid\<rparr>"
    have l2: "locks w2 = locks w1" using 2 by (auto simp: time_now_def)
    have l3: "locks w3 = locks w2" using 3 random_id_locks by (metis snd_conv)
    have l4: "locks w4 = locks w3" using try_io_frame [OF 4] by auto
    have ex: "locks (snd (existing_lock key w4)) = locks w4"
      using existing_lock_frame [of key w4 "fst (existing_lock key w4)" "snd (existing_lock key w4)"]
      by auto
    show thesis
    proof (cases "r4 = None \<and> map_of (locks w4) key = None")
      case False
      then have "(res, w') = existing_lock key w4 \<or> (\<exists>e. res = Inl e \<and> w' = w4)"
        using assms 1 2 3 4 go
        by (cases r4) (auto simp: acquire_lock_def Let_def split: option.splits if_splits)
      then show thesis
        using failed existing_lock_fails [of key w4] ex l1 l2 l3 l4 by (metis fst_conv snd_conv)
    next
      case True
      obtain r5 w5 where 5: "try_ios 3 (w4\<lparr>locks := map_put key LockGarbage (locks w4)\<rparr>) = (r5, w5)"
        by (cases "try_ios 3 (w4\<lparr>locks := map_put key LockGarbage (locks w4)\<rparr>)")
      have l5: "locks w5 = map_put key LockGarbage (locks w4)" using try_ios_frame [OF 5] by auto
      show thesis
      proof (cases r5)
        case None
        with assms 1 2 3 4 5 go True have "res = Inr ?ow"
            "w' = w5\<lparr>locks := map_put key (LockOwner ?ow) (locks w5)\<rparr>"
          by (simp_all add: acquire_lock_def Let_def)
        with held [of ?ow] l1 l2 l3 l4 l5 True show thesis by simp
      next
        case (Some e)
        with assms 1 2 3 4 5 go True have "res = Inl e" "w' = snd (remove_lock key w5)"
          by (simp_all add: acquire_lock_def Let_def)
        moreover have "locks (snd (remove_lock key w5)) \<in> {locks w5, map_del key (locks w5)}"
          using remove_lock_frame [of key w5 "fst (remove_lock key w5)" "snd (remove_lock key w5)"]
          by auto
        ultimately show thesis using undone [of e] l1 l2 l3 l4 l5 True by auto
      qed
    qed
  qed
qed

lemma release_lock_cases:
  assumes "release_lock key ow w = (res, w')"
  obtains (kept) "locks w' = locks w"
  | (removed) cur where "map_of (locks w) key = Some (LockOwner cur)"
      "lo_owner_id cur = lo_owner_id ow" "locks w' = map_del key (locks w)"
proof -
  obtain q w1 where 1: "try_io w = (q, w1)" by (cases "try_io w")
  have l1: "locks w1 = locks w" using try_io_frame [OF 1] by auto
  consider (same) "w' = w1"
    | (rm) cur where "map_of (locks w1) key = Some (LockOwner cur)" "lo_owner_id cur = lo_owner_id ow"
        "remove_lock key w1 = (res, w')"
    using assms 1
    by (auto simp: release_lock_def split: option.splits lock_file.splits if_splits)
  then show thesis
  proof cases
    case same
    with l1 kept show thesis by simp
  next
    case rm
    from remove_lock_frame [OF rm(3)] rm l1 that show thesis by auto
  qed
qed

lemma clear_orphan_cases:
  assumes "clear_orphan cfg key w = (res, w')"
  obtains (kept) "locks w' = locks w"
  | (removed) ow where "map_of (locks w) key = Some (LockOwner ow)" "owner_valid ow"
      "\<not> lc_alive cfg (lo_pid ow)" "locks w' = map_del key (locks w)"
proof -
  obtain r1 w1 where 1: "ctx_err w = (r1, w1)" by (cases "ctx_err w")
  have l1: "locks w1 = locks w" using ctx_err_frame [OF 1] by auto
  obtain r2 w2 where 2: "read_lock_owner key w1 = (r2, w2)" by (cases "read_lock_owner key w1")
  have l2: "locks w2 = locks w1" using read_lock_owner_frame [OF 2] by auto
  consider (same) "w' = w1 \<or> w' = w2"
    | (rm) ow where "r2 = Inr ow" "\<not> lc_alive cfg (lo_pid ow)" "remove_lock key w2 = (res, w')"
    using assms 1 2 by (auto simp: clear_orphan_def split: option.splits sum.splits if_splits)
  then show thesis
  proof cases
    case same
    with l1 l2 kept show thesis by auto
  next
    case rm
    obtain q w0 where 0: "try_io w1 = (q, w0)" by (cases "try_io w1")
    have "locks w0 = locks w1" using try_io_frame [OF 0] by auto
    with 2 0 rm(1) have "map_of (locks w1) key = Some (LockOwner ow)" "owner_valid ow"
      by (auto simp: read_lock_owner_def split: option.splits lock_file.splits if_splits)
    with remove_lock_frame [OF rm(3)] rm(2) l1 l2 that show thesis by auto
  qed
qed

lemma run_lock_op_garbage:
  assumes "map_of (locks w) key = Some LockGarbage"
  shows "map_of (locks (run_lock_op sha op w)) key = Some LockGarbage"
proof (cases op)
  case (OpAcquire cfg k)
  obtain r w' where "acquire_lock sha cfg k w = (r, w')" by (cases "acquire_lock sha cfg k w")
  moreover from this have "map_of (locks w') key = Some LockGarbage"
    using assms by (cases rule: acquire_lock_cases) (auto split: if_splits)
  ultimately show ?thesis using OpAcquire by simp
next
  case (OpRelease k ow)
  obtain r w' where "release_lock k ow w = (r, w')" by (cases "release_lock k ow w")
  moreover from this have "map_of (locks w') key = Some LockGarbage"
    using assms by (cases rule: release_lock_cases) auto
  ultimately show ?thesis using OpRelease by simp
next
  case (OpClear cfg k)
  obtain r w' where "clear_orphan cfg k w = (r, w')" by (cases "clear_orphan cfg k w")
  moreover from this have "map_of (locks w') key = Some LockGarbage"
    using assms by (cases rule: clear_orphan_cases) auto
  ultimately show ?thesis using OpClear by simp
next
  case (OpOwner k)
  have "locks (snd (lock_owner_of k w)) = locks w"
    unfolding lock_owner_of_def
    by (auto split: prod.splits option.splits sum.splits if_splits
        dest!: ctx_err_frame read_lock_owner_frame)
  with OpOwner assms show ?thesis by simp
qed

section \<open>Properties\<close>

definition sample_key :: string where
  "sample_key = replicate 64 (CHR ''a'')"

definition sample_sha :: "string \<Rightarrow> string" where
  "sample_sha s = sample_key"

lemma sample_key_sha [simp]: "is_sha256 sample_key"
  by code_simp

definition empty_store :: store where
  "empty_store = \<lparr>faults = [], clock = (\<lambda>n. 1 + int n), reads = 0, entries = [],
     bindings = [], conflicts = [], locks = [], lock_sequence = 0\<rparr>"

text \<open>A lock is only acquired when no lock file exists under its key, whatever the existing file
  holds; a successful acquisition leaves a file naming the caller's process, and an acquisition
  never clears or changes a file that was already there.\<close>

theorem acquire_is_exclusive:
  assumes "acquire_lock sha cfg key w = (res, w')"
  shows "(case res of
       Inr ow \<Rightarrow> map_of (locks w) key = None \<and> map_of (locks w') key = Some (LockOwner ow)
                  \<and> lo_pid ow = lc_pid cfg
     | Inl e \<Rightarrow> map_of (locks w) key \<noteq> None \<longrightarrow> map_of (locks w') key = map_of (locks w) key)
     \<and> (\<forall>k. k \<noteq> key \<longrightarrow> map_of (locks w') k = map_of (locks w) k)"
  using assms by (cases rule: acquire_lock_cases) auto

theorem acquire_is_exclusive_witness:
  "\<exists>e w'. acquire_lock (\<lambda>s. s) \<lparr>lc_pid = 7, lc_alive = (\<lambda>p. False)\<rparr> sample_key
        (empty_store\<lparr>locks := [(sample_key, LockGarbage)]\<rparr>) = (Inl e, w')
      \<and> map_of (locks w') sample_key = Some LockGarbage"
proof -
  let ?w = "empty_store\<lparr>locks := [(sample_key, LockGarbage)]\<rparr>"
  obtain res w' where a: "acquire_lock (\<lambda>s. s) \<lparr>lc_pid = 7, lc_alive = (\<lambda>p. False)\<rparr> sample_key ?w = (res, w')"
    by (cases "acquire_lock (\<lambda>s. s) \<lparr>lc_pid = 7, lc_alive = (\<lambda>p. False)\<rparr> sample_key ?w")
  from acquire_is_exclusive [OF a] a show ?thesis by (cases res) auto
qed

text \<open>Explicit recovery removes a lock file only when it holds a complete, valid owner record whose
  process is not alive, and touches no other file.\<close>

theorem clear_orphan_only_dead:
  assumes "clear_orphan cfg key w = (res, w')"
  shows "locks w' = locks w
     \<or> (\<exists>ow. map_of (locks w) key = Some (LockOwner ow) \<and> owner_valid ow
            \<and> \<not> lc_alive cfg (lo_pid ow) \<and> locks w' = map_del key (locks w))"
  using assms by (cases rule: clear_orphan_cases) auto

theorem clear_orphan_only_dead_witness:
  "locks (snd (clear_orphan \<lparr>lc_pid = 7, lc_alive = (\<lambda>p. True)\<rparr> sample_key
      (empty_store\<lparr>locks := [(sample_key, LockOwner \<lparr>lo_pid = 3, lo_started_at = 1, lo_owner_id = ''x''\<rparr>)]\<rparr>)))
   = [(sample_key, LockOwner \<lparr>lo_pid = 3, lo_started_at = 1, lo_owner_id = ''x''\<rparr>)]"
proof -
  let ?cfg = "\<lparr>lc_pid = 7, lc_alive = (\<lambda>p. True)\<rparr>"
  let ?w = "empty_store\<lparr>locks := [(sample_key, LockOwner \<lparr>lo_pid = 3, lo_started_at = 1, lo_owner_id = ''x''\<rparr>)]\<rparr>"
  obtain res w' where a: "clear_orphan ?cfg sample_key ?w = (res, w')"
    by (cases "clear_orphan ?cfg sample_key ?w")
  from clear_orphan_only_dead [OF a] a show ?thesis by auto
qed

text \<open>A process that stops between the exclusive creation of its lock file and the write of its owner
  record leaves a file that no operation ever removes: after any sequence of acquisitions,
  releases and explicit recoveries, with any I/O errors, the file is still there and every
  acquisition of that key fails.\<close>

theorem interrupted_lock_is_stuck:
  assumes "map_of (locks w) key = Some LockGarbage"
  shows "map_of (locks (fold (run_lock_op sha) ops w)) key = Some LockGarbage
     \<and> (\<exists>e. fst (acquire_lock sha cfg key (fold (run_lock_op sha) ops w)) = Inl e)"
proof -
  have g: "map_of (locks (fold (run_lock_op sha) ops w)) key = Some LockGarbage"
    using assms by (induction ops arbitrary: w) (simp_all add: run_lock_op_garbage)
  obtain r w' where "acquire_lock sha cfg key (fold (run_lock_op sha) ops w) = (r, w')"
    by (cases "acquire_lock sha cfg key (fold (run_lock_op sha) ops w)")
  with g show ?thesis by (cases r) (auto elim: acquire_lock_cases)
qed

theorem interrupted_lock_is_stuck_witness:
  "\<exists>e. fst (acquire_lock (\<lambda>s. s) \<lparr>lc_pid = 7, lc_alive = (\<lambda>p. False)\<rparr> sample_key
      (fold (run_lock_op (\<lambda>s. s)) [OpClear \<lparr>lc_pid = 8, lc_alive = (\<lambda>p. False)\<rparr> sample_key]
        (empty_store\<lparr>locks := [(sample_key, LockGarbage)]\<rparr>))) = Inl e"
proof -
  have "map_of (locks (empty_store\<lparr>locks := [(sample_key, LockGarbage)]\<rparr>)) sample_key = Some LockGarbage"
    by simp
  from interrupted_lock_is_stuck [OF this] show ?thesis by blast
qed

text \<open>A binding that \<open>Save\<close> accepts is what \<open>Load\<close> returns afterwards, and \<open>Load\<close> returns only
  bindings that pass validation, whatever the directory holds.\<close>

theorem binding_save_then_load:
  assumes "save_binding b w = (None, w')" "faults w' = []"
  shows "fst (load_binding (rb_key b) w') = Inr (Some b)
     \<and> (\<forall>k v b' v'. load_binding k v = (Inr (Some b'), v') \<longrightarrow> validate_binding b' = None)"
  using binding_store.load_after_save [OF assms] binding_store.load_valid by blast

definition sample_binding :: remote_binding where
  "sample_binding = \<lparr>rb_key = sample_key, rb_backend = BackendWiki, rb_provider = ''github-wiki-git'',
     rb_remote_id = ''page'', rb_url = ''u'', rb_revision = ''git:abcdef1'',
     rb_local_hash = sample_key, rb_effective_remote_hash = sample_key, rb_updated_at = 1\<rparr>"

lemma sample_binding_valid: "validate_binding sample_binding = None"
  by code_simp

theorem binding_save_then_load_witness:
  "\<exists>w'. save_binding sample_binding empty_store = (None, w')
     \<and> fst (load_binding sample_key w') = Inr (Some sample_binding)"
proof -
  have k: "rb_key sample_binding = sample_key" by (simp add: sample_binding_def)
  obtain w' where s: "save_binding sample_binding empty_store = (None, w')" "faults w' = []"
    by (simp add: save_binding_def sample_binding_valid atomic_write_def empty_store_def)
  from binding_save_then_load [OF s] s(1) k show ?thesis by auto
qed

end
