(* ===== verification/Managed_Mirror.thy ===== *)
theory Managed_Mirror
  imports Local_Stores
begin

text \<open>
  \<open>ManagedMirror\<close> of \<open>storage/recovery.go\<close>: the local lock, the durable binding and the conflict
  evidence around the effects of any provider. A provider is what the code reaches through an
  interface: three operations and three optional ones, each a transformer of the whole state,
  since a provider may itself save provisional bindings.
\<close>

type_synonym 'w effect = "'w \<Rightarrow> storage_result \<times> 'w"

record 'w provider =
  pv_mirror :: "remote_diary \<Rightarrow> 'w effect"
  pv_status :: "remote_diary \<Rightarrow> 'w effect"
  pv_resolve :: "remote_diary \<Rightarrow> string \<Rightarrow> string \<Rightarrow> 'w effect"
  pv_create :: "(remote_diary \<Rightarrow> 'w effect) option"
  pv_mirror_bound :: "(remote_diary \<Rightarrow> 'w effect) option"
  pv_recover :: "(remote_diary \<Rightarrow> 'w effect) option"

record 'w managed =
  mm_remote :: "'w provider"
  mm_provider :: string
  mm_root :: string
  mm_locks :: lock_config

definition new_managed_mirror ::
  "string \<Rightarrow> string \<Rightarrow> lock_config \<Rightarrow> 'a store_scheme provider option \<Rightarrow> 'a store_scheme
     \<Rightarrow> 'a store_scheme managed res \<times> 'a store_scheme" where
  "new_managed_mirror root provider cfg remote w =
     (case remote of
        None \<Rightarrow> (Inl (new_err ''managed mirror requires provider and remote''), w)
      | Some pv \<Rightarrow>
          if provider = [] then (Inl (new_err ''managed mirror requires provider and remote''), w)
          else if root = [] then (Inl (new_err ''storage root is required''), w)
          else (case try_ios 3 w of
                  (Some e, w1) \<Rightarrow> (Inl e, w1)
                | (None, w1) \<Rightarrow> (Inr \<lparr>mm_remote = pv, mm_provider = provider, mm_root = root,
                                    mm_locks = cfg\<rparr>, w1)))"

text \<open>What \<open>run\<close> does while it holds the lock.\<close>

definition managed_body ::
  "'a store_scheme managed \<Rightarrow> string \<Rightarrow> 'a store_scheme effect \<Rightarrow> 'a store_scheme effect" where
  "managed_body m key effect w =
     (case effect w of
        (r0, w1) \<Rightarrow>
     (let r = r0\<lparr>sr_provider := mm_provider m\<rparr> in
      if sr_state r \<noteq> Mirrored \<and> sr_state r \<noteq> SyncConflict then (r, w1)
      else
     (case (if sr_state r = SyncConflict
            then (case write_conflict (mm_root m) key (sr_remote_rev r) (sr_remote_content r) w1 of
                    (Inl e, w2) \<Rightarrow>
                      (Inl (failed_with SyncPending FailureTransient
                              (wrap_with ''persist conflict snapshot'' e) r), w2)
                  | (Inr path, w2) \<Rightarrow>
                      (let r' = r\<lparr>sr_conflict_snapshot := path\<rparr> in
                       if sr_unverified_identity r' then (Inl r', w2) else (Inr r', w2)))
            else (Inr r, w1))
      of (Inl done_r, w2) \<Rightarrow> (done_r, w2)
       | (Inr r', w2) \<Rightarrow>
          (case save_result (mm_provider m) r' w2 of
             (Some e, w3) \<Rightarrow>
               (failed_with SyncPending FailureTransient (wrap_with ''persist remote binding'' e) r', w3)
           | (None, w3) \<Rightarrow> (r', w3)))))"

definition managed_run ::
  "(string \<Rightarrow> string) \<Rightarrow> 'a store_scheme managed \<Rightarrow> remote_diary \<Rightarrow> 'a store_scheme effect
     \<Rightarrow> 'a store_scheme effect" where
  "managed_run sha m d effect w =
     (let key = diary_key sha d in
      case acquire_lock sha (mm_locks m) key w of
        (Inl e, w1) \<Rightarrow>
          (let r = zero_result\<lparr>sr_key := key, sr_provider := mm_provider m, sr_state := SyncPending,
                     sr_failure_class := FailureTransient, sr_cause := Some e\<rparr>
           in if errors_is e ErrMirrorInProgress
              then (r\<lparr>sr_failure_class := FailureAlreadyInProgress, sr_already_in_progress := True\<rparr>, w1)
              else (r, w1))
      | (Inr lock, w1) \<Rightarrow>
          (case managed_body m key effect w1 of
             (r, w2) \<Rightarrow> (r, snd (release_lock key lock w2))))"

definition pending_result :: "string \<Rightarrow> err \<Rightarrow> storage_result" where
  "pending_result key e = zero_result\<lparr>sr_key := key, sr_state := SyncPending,
     sr_failure_class := FailureTransient, sr_cause := Some e\<rparr>"

text \<open>The effect of \<open>ManagedMirror.Mirror\<close>: an unbound diary is created, a bound one mirrored in place.\<close>

definition mirror_effect ::
  "(string \<Rightarrow> string) \<Rightarrow> 'a store_scheme managed \<Rightarrow> remote_diary \<Rightarrow> 'a store_scheme effect" where
  "mirror_effect sha m d w =
     (case load_binding (diary_key sha d) w of
        (Inl e, w1) \<Rightarrow> (pending_result (diary_key sha d) e, w1)
      | (Inr None, w1) \<Rightarrow>
          (case pv_create (mm_remote m) of
             Some f \<Rightarrow> f d w1 | None \<Rightarrow> pv_mirror (mm_remote m) d w1)
      | (Inr (Some b), w1) \<Rightarrow>
          (case pv_mirror_bound (mm_remote m) of
             Some f \<Rightarrow> f d w1 | None \<Rightarrow> pv_mirror (mm_remote m) d w1))"

definition managed_mirror ::
  "(string \<Rightarrow> string) \<Rightarrow> 'a store_scheme managed \<Rightarrow> remote_diary \<Rightarrow> 'a store_scheme effect" where
  "managed_mirror sha m d w = managed_run sha m d (mirror_effect sha m d) w"

definition managed_recover ::
  "(string \<Rightarrow> string) \<Rightarrow> 'a store_scheme managed \<Rightarrow> remote_diary \<Rightarrow> 'a store_scheme effect" where
  "managed_recover sha m d w =
     managed_run sha m d
       (\<lambda>v. case pv_recover (mm_remote m) of
              Some f \<Rightarrow> f d v
            | None \<Rightarrow> (pending_result (diary_key sha d)
                         (new_err ''remote provider does not support explicit recovery''), v)) w"

definition managed_status :: "'a store_scheme managed \<Rightarrow> remote_diary \<Rightarrow> 'a store_scheme effect" where
  "managed_status m d w =
     (case pv_status (mm_remote m) d w of (r, w1) \<Rightarrow> (r\<lparr>sr_provider := mm_provider m\<rparr>, w1))"

definition managed_resolve ::
  "(string \<Rightarrow> string) \<Rightarrow> 'a store_scheme managed \<Rightarrow> remote_diary \<Rightarrow> string \<Rightarrow> string
     \<Rightarrow> 'a store_scheme effect" where
  "managed_resolve sha m d choice observed w =
     managed_run sha m d (\<lambda>v. pv_resolve (mm_remote m) d choice observed v) w"

section \<open>Lemmas\<close>

text \<open>The state apart from the environment and the counter of lock identifiers.\<close>

definition same_data :: "'a store_scheme \<Rightarrow> 'a store_scheme \<Rightarrow> bool" where
  "same_data w w' =
     (w'\<lparr>faults := faults w, reads := reads w, lock_sequence := lock_sequence w\<rparr> = w)"

lemma same_data_refl [simp]: "same_data w w"
  by (simp add: same_data_def)

lemma same_data_faults [simp]: "same_data w (w'\<lparr>faults := fs\<rparr>) = same_data w w'"
  by (simp add: same_data_def)

lemma same_data_reads [simp]: "same_data w (w'\<lparr>reads := n\<rparr>) = same_data w w'"
  by (simp add: same_data_def)

lemma same_data_sequence [simp]: "same_data w (w'\<lparr>lock_sequence := n\<rparr>) = same_data w w'"
  by (simp add: same_data_def)

lemma same_data_locks: "same_data w w' \<Longrightarrow> locks w' = locks w \<and> bindings w' = bindings w
    \<and> conflicts w' = conflicts w \<and> entries w' = entries w \<and> store.more w' = store.more w"
proof -
  assume "same_data w w'"
  then have e: "w = w'\<lparr>faults := faults w, reads := reads w, lock_sequence := lock_sequence w\<rparr>"
    by (simp add: same_data_def)
  show ?thesis by (subst e, subst (2) e, subst (3) e, subst (4) e, subst (5) e) simp
qed

lemma acquire_existing:
  assumes "map_of (locks w) key = Some f" "acquire_lock sha cfg key w = (res, w')"
  shows "\<exists>e. res = Inl e \<and> same_data w w'"
proof -
  have ex: "\<exists>e fs. existing_lock key v = (Inl e, v\<lparr>faults := fs\<rparr>)" for v :: "'a store_scheme"
    using existing_lock_fails [of key v]
      existing_lock_frame [of key v "fst (existing_lock key v)" "snd (existing_lock key v)"]
    by (metis prod.collapse)
  obtain r1 w1 where 1: "ctx_err w = (r1, w1)" by (cases "ctx_err w")
  obtain f1 where f1: "w1 = w\<lparr>faults := f1\<rparr>" using ctx_err_frame [OF 1] by auto
  show ?thesis
  proof (cases "r1 = None \<and> lock_path key = None")
    case False
    with assms(2) 1 f1 show ?thesis
      by (cases r1) (auto simp: acquire_lock_def split: option.splits)
  next
    case True
    obtain t w2 where 2: "time_now w1 = (t, w2)" by (cases "time_now w1")
    obtain oid w3 where 3: "random_id sha (lc_pid cfg) w2 = (oid, w3)"
      by (cases "random_id sha (lc_pid cfg) w2")
    obtain r4 w4 where 4: "try_io w3 = (r4, w4)" by (cases "try_io w3")
    have "same_data w w3"
      using 2 3 f1 by (auto simp: time_now_def random_id_def Let_def)
    with try_io_frame [OF 4] have s4: "same_data w w4" by auto
    with assms(1) have "map_of (locks w4) key = Some f" by (auto dest: same_data_locks)
    with assms(2) 1 2 3 4 True have "(res, w') = existing_lock key w4 \<or> (\<exists>e. res = Inl e \<and> w' = w4)"
      by (cases r4) (auto simp: acquire_lock_def Let_def split: if_splits)
    with ex [of w4] s4 show ?thesis by auto
  qed
qed

lemma release_lock_frame:
  "release_lock key ow w = (r, w') \<Longrightarrow> w'\<lparr>faults := faults w, locks := locks w\<rparr> = w"
  unfolding release_lock_def
  by (auto split: prod.splits option.splits lock_file.splits if_splits
      dest!: try_io_frame remove_lock_frame)

lemma release_lock_stores:
  "stored_binding (snd (release_lock key ow w)) = stored_binding w"
  "conflicts (snd (release_lock key ow w)) = conflicts w"
proof -
  obtain r w' where rl: "release_lock key ow w = (r, w')" by (cases "release_lock key ow w")
  have "bindings w = bindings (w'\<lparr>faults := faults w, locks := locks w\<rparr>)"
    "conflicts w = conflicts (w'\<lparr>faults := faults w, locks := locks w\<rparr>)"
    using release_lock_frame [OF rl] by simp_all
  with rl show "stored_binding (snd (release_lock key ow w)) = stored_binding w"
    "conflicts (snd (release_lock key ow w)) = conflicts w"
    by (simp_all add: stored_binding_def fun_eq_iff)
qed

lemma write_conflict_ok:
  assumes "write_conflict root key revision content w = (Inr path, w')"
  shows "map_of (conflicts w') path = Some content \<and> bindings w' = bindings w \<and> locks w' = locks w"
proof -
  have fr: "\<exists>fs. w = v\<lparr>faults := fs\<rparr> \<Longrightarrow> conflicts w = conflicts v \<and> bindings w = bindings v \<and> locks w = locks v"
    for w v :: "'a store_scheme" by auto
  obtain q1 w1 where 1: "ctx_err w = (q1, w1)" by (cases "ctx_err w")
  obtain q2 w2 where 2: "try_io w1 = (q2, w2)" by (cases "try_io w1")
  from assms 1 2 have "atomic_write (\<lambda>v. v\<lparr>conflicts := map_put path content (conflicts v)\<rparr>) w2 = (None, w')"
    by (auto simp: write_conflict_def Let_def split: option.splits if_splits prod.splits)
  then show ?thesis
    using fr [OF ctx_err_frame [OF 1]] fr [OF try_io_frame [OF 2]] by (auto elim!: atomic_write_None)
qed

lemma save_result_ok:
  assumes "save_result provider r w = (None, w')"
  shows "(\<exists>b. stored_binding w' (sr_key r) = Some b \<and> validate_binding b = None
       \<and> rb_key b = sr_key r \<and> rb_provider b = provider \<and> rb_remote_id b = sr_remote_id r
       \<and> rb_revision b = sr_remote_rev r
       \<and> rb_effective_remote_hash b = sr_effective_remote_hash r \<and> rb_local_hash b = sr_local_hash r)
     \<and> conflicts w' = conflicts w \<and> locks w' = locks w"
proof -
  obtain t w1 where 1: "time_now w = (t, w1)" by (cases "time_now w")
  let ?b = "\<lparr>rb_key = sr_key r, rb_backend = sr_backend r, rb_provider = provider,
          rb_remote_id = sr_remote_id r, rb_url = sr_remote_url r, rb_revision = sr_remote_rev r,
          rb_local_hash = sr_local_hash r,
          rb_effective_remote_hash = sr_effective_remote_hash r, rb_updated_at = t\<rparr>"
  from assms 1 have s: "save_binding ?b w1 = (None, w')" by (simp add: save_result_def)
  have w1: "conflicts w1 = conflicts w" "locks w1 = locks w" using 1 by (auto simp: time_now_def)
  from s have "conflicts w' = conflicts w1 \<and> locks w' = locks w1"
    by (cases rule: save_binding_cases) simp_all
  with binding_store.save_stores [OF s] w1 show ?thesis by auto
qed

lemma save_result_frame:
  "save_result provider r w = (res, w') \<Longrightarrow> conflicts w' = conflicts w \<and> locks w' = locks w
     \<and> (\<forall>k. k \<noteq> sr_key r \<longrightarrow> stored_binding w' k = stored_binding w k)"
proof -
  assume a: "save_result provider r w = (res, w')"
  obtain t w1 where 1: "time_now w = (t, w1)" by (cases "time_now w")
  let ?b = "\<lparr>rb_key = sr_key r, rb_backend = sr_backend r, rb_provider = provider,
          rb_remote_id = sr_remote_id r, rb_url = sr_remote_url r, rb_revision = sr_remote_rev r,
          rb_local_hash = sr_local_hash r,
          rb_effective_remote_hash = sr_effective_remote_hash r, rb_updated_at = t\<rparr>"
  from a 1 have s: "save_binding ?b w1 = (res, w')" by (simp add: save_result_def)
  have w1: "conflicts w1 = conflicts w" "locks w1 = locks w" "stored_binding w1 = stored_binding w"
    using 1 by (auto simp: time_now_def stored_binding_def fun_eq_iff)
  from s have "conflicts w' = conflicts w1 \<and> locks w' = locks w1"
    by (cases rule: save_binding_cases) simp_all
  with binding_store.save_other [OF s] w1 show ?thesis by auto
qed

text \<open>What the body guarantees of its result.\<close>

definition settled :: "string \<Rightarrow> storage_result \<Rightarrow> 'a store_scheme \<Rightarrow> bool" where
  "settled provider r w =
     ((sr_state r = Mirrored \<or> sr_state r = SyncConflict \<and> \<not> sr_unverified_identity r \<longrightarrow>
         (\<exists>b. stored_binding w (sr_key r) = Some b \<and> validate_binding b = None
            \<and> rb_key b = sr_key r \<and> rb_provider b = provider \<and> rb_remote_id b = sr_remote_id r
            \<and> rb_revision b = sr_remote_rev r
            \<and> rb_effective_remote_hash b = sr_effective_remote_hash r \<and> rb_local_hash b = sr_local_hash r))
      \<and> (sr_state r = SyncConflict \<longrightarrow>
           map_of (conflicts w) (sr_conflict_snapshot r) = Some (sr_remote_content r)))"

lemma settled_other [simp]:
  "sr_state r \<noteq> Mirrored \<Longrightarrow> sr_state r \<noteq> SyncConflict \<Longrightarrow> settled p r w"
  by (simp add: settled_def)

lemma managed_body_settled:
  assumes "managed_body m key effect w = (r, w')"
  shows "settled (mm_provider m) r w'"
proof -
  obtain r0 w1 where 1: "effect w = (r0, w1)" by (cases "effect w")
  define r1 where "r1 = r0\<lparr>sr_provider := mm_provider m\<rparr>"
  have save: "settled (mm_provider m) r w'"
    if s: "(case save_result (mm_provider m) rr w2 of
             (Some e, w3) \<Rightarrow>
               (failed_with SyncPending FailureTransient (wrap_with ''persist remote binding'' e) rr, w3)
           | (None, w3) \<Rightarrow> (rr, w3)) = (r, w')"
      and c: "sr_state rr = SyncConflict \<longrightarrow>
           map_of (conflicts w2) (sr_conflict_snapshot rr) = Some (sr_remote_content rr)" for rr w2
  proof -
    obtain q w3 where sr: "save_result (mm_provider m) rr w2 = (q, w3)"
      by (cases "save_result (mm_provider m) rr w2")
    show ?thesis
    proof (cases q)
      case (Some e)
      with s sr have "r = failed_with SyncPending FailureTransient (wrap_with ''persist remote binding'' e) rr"
        by simp
      then show ?thesis by simp
    next
      case None
      with s sr have eq: "r = rr" "w' = w3" by simp_all
      from sr None have "save_result (mm_provider m) rr w2 = (None, w3)" by simp
      from save_result_ok [OF this] c eq show ?thesis by (simp add: settled_def)
    qed
  qed
  consider (other) "sr_state r1 \<noteq> Mirrored" "sr_state r1 \<noteq> SyncConflict"
    | (mirrored) "sr_state r1 = Mirrored" | (conflict) "sr_state r1 = SyncConflict" by blast
  then show ?thesis
  proof cases
    case other
    with assms 1 have "r = r1" by (simp add: managed_body_def r1_def)
    with other show ?thesis by simp
  next
    case mirrored
    with assms 1 show ?thesis
      unfolding r1_def managed_body_def Let_def
      by (intro save [of "r0\<lparr>sr_provider := mm_provider m\<rparr>" w1]) simp_all
  next
    case conflict
    obtain q w2 where wc: "write_conflict (mm_root m) key (sr_remote_rev r1) (sr_remote_content r1) w1 = (q, w2)"
      by (cases "write_conflict (mm_root m) key (sr_remote_rev r1) (sr_remote_content r1) w1")
    show ?thesis
    proof (cases q)
      case (Inl e)
      with assms 1 conflict wc
      have "r = failed_with SyncPending FailureTransient (wrap_with ''persist conflict snapshot'' e) r1"
        by (simp add: managed_body_def r1_def Let_def)
      then show ?thesis by simp
    next
      case (Inr path)
      define r2 where "r2 = r1\<lparr>sr_conflict_snapshot := path\<rparr>"
      have ev: "map_of (conflicts w2) (sr_conflict_snapshot r2) = Some (sr_remote_content r2)"
        using write_conflict_ok [of _ _ _ _ w1 path w2] wc Inr by (simp add: r2_def)
      show ?thesis
      proof (cases "sr_unverified_identity r2")
        case True
        with assms 1 conflict wc Inr have "r = r2" "w' = w2"
          by (simp_all add: managed_body_def r1_def r2_def Let_def)
        with True conflict ev show ?thesis by (simp add: settled_def r2_def)
      next
        case False
        with assms 1 conflict wc Inr ev show ?thesis
          unfolding r1_def r2_def managed_body_def Let_def
          by (intro save [of "r0\<lparr>sr_provider := mm_provider m, sr_conflict_snapshot := path\<rparr>" w2]) simp_all
      qed
    qed
  qed
qed

section \<open>Properties\<close>

text \<open>C8: what a managed operation reports is durable: under every provider and every pattern of I/O
  errors, a \<open>mirrored\<close> result, and a conflict of a verified identity, come with a stored, valid
  binding for the result's key that has its remote identity, revision and hashes, and a
  conflict comes with a snapshot file that holds exactly the divergent remote content.\<close>

theorem managed_result_is_durable:
  assumes "managed_run sha m d effect w = (r, w')"
  shows "(sr_state r = Mirrored \<or> sr_state r = SyncConflict \<and> \<not> sr_unverified_identity r \<longrightarrow>
       (\<exists>b. stored_binding w' (sr_key r) = Some b \<and> validate_binding b = None
          \<and> rb_key b = sr_key r \<and> rb_provider b = mm_provider m \<and> rb_remote_id b = sr_remote_id r
          \<and> rb_revision b = sr_remote_rev r
          \<and> rb_effective_remote_hash b = sr_effective_remote_hash r \<and> rb_local_hash b = sr_local_hash r))
     \<and> (sr_state r = SyncConflict \<longrightarrow>
          map_of (conflicts w') (sr_conflict_snapshot r) = Some (sr_remote_content r))"
proof -
  obtain q w1 where 1: "acquire_lock sha (mm_locks m) (diary_key sha d) w = (q, w1)"
    by (cases "acquire_lock sha (mm_locks m) (diary_key sha d) w")
  have "settled (mm_provider m) r w'"
  proof (cases q)
    case (Inl e)
    with assms 1 have "sr_state r = SyncPending"
      by (auto simp: managed_run_def Let_def split: if_splits)
    then show ?thesis by simp
  next
    case (Inr lock)
    obtain r2 w2 where 2: "managed_body m (diary_key sha d) effect w1 = (r2, w2)"
      by (cases "managed_body m (diary_key sha d) effect w1")
    with assms 1 Inr have eq: "r = r2" "w' = snd (release_lock (diary_key sha d) lock w2)"
      by (simp_all add: managed_run_def Let_def)
    from managed_body_settled [OF 2] show ?thesis
      by (simp add: settled_def eq release_lock_stores)
  qed
  then show ?thesis unfolding settled_def .
qed

definition sample_provider :: "store provider" where
  "sample_provider = (let ok = (\<lambda>d w. (zero_result\<lparr>sr_state := Mirrored, sr_key := sample_key,
        sr_backend := BackendWiki, sr_remote_id := ''page'', sr_remote_url := ''u'',
        sr_remote_rev := ''git:abcdef1'', sr_local_hash := sample_key,
        sr_effective_remote_hash := sample_key\<rparr>, w))
     in \<lparr>pv_mirror = ok, pv_status = ok, pv_resolve = (\<lambda>d c ob. ok d), pv_create = None,
         pv_mirror_bound = Some ok, pv_recover = None\<rparr>)"

definition sample_managed :: "store managed" where
  "sample_managed = \<lparr>mm_remote = sample_provider, mm_provider = ''github-wiki-git'', mm_root = ''root'',
     mm_locks = \<lparr>lc_pid = 7, lc_alive = (\<lambda>p. True)\<rparr>\<rparr>"

lemma sample_diary_key [simp]: "diary_key sample_sha d = sample_key"
  by (simp add: diary_key_def sample_sha_def)

lemma sample_lock_path [simp]: "lock_path sample_key = None" "binding_path sample_key = None"
  by (simp_all add: lock_path_def binding_path_def)

lemma sample_save:
  "faults w = [] \<Longrightarrow> clock w (reads w) \<noteq> 0 \<Longrightarrow> save_result ''github-wiki-git''
     (fst (pv_mirror sample_provider d w) \<lparr>sr_provider := ''github-wiki-git''\<rparr>) w
     = (None, w\<lparr>reads := Suc (reads w), bindings := map_put sample_key
          (JsonFile (enc_binding (sample_binding\<lparr>rb_updated_at := clock w (reads w)\<rparr>))) (bindings w)\<rparr>)"
proof -
  assume w: "faults w = []" "clock w (reads w) \<noteq> 0"
  have v: "validate_binding (sample_binding\<lparr>rb_updated_at := t\<rparr>) = None" if "t \<noteq> 0" for t
    using sample_binding_valid that by (simp add: validate_binding_def sample_binding_def is_zero_time_def
        split: if_splits option.splits)
  show ?thesis
    using w v [OF w(2)]
    by (simp add: save_result_def time_now_def save_binding_def atomic_write_def sample_provider_def
        Let_def zero_result_def sample_binding_def)
qed

lemma sample_run:
  "\<exists>r w'. managed_mirror sample_sha sample_managed d empty_store = (r, w') \<and> sr_state r = Mirrored
     \<and> sr_key r = sample_key \<and> faults w' = [] \<and> map_of (locks w') sample_key = None"
proof -
  let ?cfg = "mm_locks sample_managed"
  obtain ow w1 where 1: "acquire_lock sample_sha ?cfg sample_key empty_store = (Inr ow, w1)"
      "faults w1 = []" "clock w1 (reads w1) \<noteq> 0" "bindings w1 = []"
      "locks w1 = [(sample_key, LockOwner ow)]"
    by (simp add: acquire_lock_def empty_store_def time_now_def random_id_def Let_def)
  have e: "mirror_effect sample_sha sample_managed d w1 = pv_mirror sample_provider d w1"
    using 1 by (simp add: mirror_effect_def load_binding_def sample_managed_def sample_provider_def Let_def)
  obtain r where r: "pv_mirror sample_provider d w1 = (r, w1)" "sr_state r = Mirrored" "sr_key r = sample_key"
    by (simp add: sample_provider_def Let_def)
  from sample_save [OF 1(2,3), of d] r obtain w2 where
    2: "save_result ''github-wiki-git'' (r\<lparr>sr_provider := ''github-wiki-git''\<rparr>) w1 = (None, w2)"
      "faults w2 = []" "locks w2 = locks w1"
    using 1(2) by simp
  have b: "managed_body sample_managed sample_key (mirror_effect sample_sha sample_managed d) w1
      = (r\<lparr>sr_provider := ''github-wiki-git''\<rparr>, w2)"
  proof -
    have "mirror_effect sample_sha sample_managed d w1 = (r, w1)" using e r by simp
    moreover have "mm_provider sample_managed = ''github-wiki-git''" by (simp add: sample_managed_def)
    ultimately show ?thesis using 2 r by (simp add: managed_body_def Let_def)
  qed
  have rel: "snd (release_lock sample_key ow w2) = w2\<lparr>locks := []\<rparr>"
    using 1(5) 2 by (simp add: release_lock_def remove_lock_def)
  show ?thesis
    using 1(1) b rel r 2 by (simp add: managed_mirror_def managed_run_def Let_def)
qed

theorem managed_result_is_durable_witness:
  "\<exists>r w' b. managed_run sample_sha sample_managed sample_remote_diary
        (mirror_effect sample_sha sample_managed sample_remote_diary) empty_store = (r, w')
     \<and> sr_state r = Mirrored \<and> stored_binding w' sample_key = Some b"
proof -
  obtain r w' where r: "managed_run sample_sha sample_managed sample_remote_diary
        (mirror_effect sample_sha sample_managed sample_remote_diary) empty_store = (r, w')"
      "sr_state r = Mirrored" "sr_key r = sample_key"
    using sample_run [of sample_remote_diary] by (auto simp: managed_mirror_def)
  from managed_result_is_durable [OF r(1)] r show ?thesis by auto
qed

text \<open>While a lock file exists under the diary's key, whatever it holds, no managed operation runs its
  effect: the result is the same pending one for every effect, and the journal, the bindings, the
  conflict snapshots, the locks and everything remote stay as they are. When the file names its
  owner, the result says that a mirror is already in progress.\<close>

theorem locked_mirror_has_no_effect:
  assumes "map_of (locks w) (diary_key sha d) = Some f"
  shows "\<exists>r w'. (\<forall>effect. managed_run sha m d effect w = (r, w')) \<and> same_data w w'
     \<and> sr_state r = SyncPending
     \<and> (f = LockOwner ow \<and> owner_valid ow \<and> faults w = [] \<and> is_sha256 (diary_key sha d) \<longrightarrow>
          sr_already_in_progress r)"
proof -
  obtain q w1 where 1: "acquire_lock sha (mm_locks m) (diary_key sha d) w = (q, w1)"
    by (cases "acquire_lock sha (mm_locks m) (diary_key sha d) w")
  from acquire_existing [OF assms 1] obtain e where e: "q = Inl e" "same_data w w1" by blast
  have p: "errors_is e ErrMirrorInProgress"
    if "f = LockOwner ow" "owner_valid ow" "faults w = []" "is_sha256 (diary_key sha d)"
    using 1 e(1) that assms
    by (auto simp: acquire_lock_def lock_path_def time_now_def random_id_def Let_def existing_lock_def
        read_lock_owner_def in_progress_err_def)
  let ?r = "zero_result\<lparr>sr_key := diary_key sha d, sr_provider := mm_provider m, sr_state := SyncPending,
                     sr_failure_class := FailureTransient, sr_cause := Some e\<rparr>"
  show ?thesis
  proof (cases "errors_is e ErrMirrorInProgress")
    case True
    with 1 e show ?thesis
      by (intro exI [of _ "?r\<lparr>sr_failure_class := FailureAlreadyInProgress, sr_already_in_progress := True\<rparr>"]
          exI [of _ w1]) (simp add: managed_run_def Let_def)
  next
    case False
    with 1 e p show ?thesis
      by (intro exI [of _ ?r] exI [of _ w1]) (auto simp: managed_run_def Let_def)
  qed
qed

theorem locked_mirror_has_no_effect_witness:
  "\<exists>r. sr_already_in_progress r \<and> (\<exists>w'. managed_mirror sample_sha sample_managed sample_remote_diary
      (empty_store\<lparr>locks := [(sample_key, LockOwner \<lparr>lo_pid = 3, lo_started_at = 1, lo_owner_id = ''x''\<rparr>)]\<rparr>)
      = (r, w'))"
proof -
  let ?ow = "\<lparr>lo_pid = 3, lo_started_at = 1, lo_owner_id = ''x''\<rparr>"
  have "owner_valid ?ow" by (simp add: owner_valid_def is_zero_time_def)
  with locked_mirror_has_no_effect [of "empty_store\<lparr>locks := [(sample_key, LockOwner ?ow)]\<rparr>" sample_sha
      sample_remote_diary "LockOwner ?ow" sample_managed ?ow]
  show ?thesis by (auto simp: managed_mirror_def empty_store_def)
qed

text \<open>Once a managed mirror has succeeded, mirroring the same diary again never creates another remote
  document: the effect is the provider's bound mirror, on whatever else has changed in the
  meantime, as long as the binding of that key is still stored.\<close>

theorem mirrored_diary_is_bound_next_time:
  assumes "managed_mirror sha m d w = (r, w')" "sr_state r = Mirrored" "sr_key r = diary_key sha d"
    "stored_binding v (diary_key sha d) = stored_binding w' (diary_key sha d)" "faults v = []"
    "pv_mirror_bound (mm_remote m) = Some f"
  shows "mirror_effect sha m d v = f d v"
proof -
  obtain b where b: "stored_binding v (diary_key sha d) = Some b" "validate_binding b = None"
      "rb_key b = diary_key sha d"
  proof -
    from assms(1) have run: "managed_run sha m d (mirror_effect sha m d) w = (r, w')"
      by (simp add: managed_mirror_def)
    show thesis
    proof -
      obtain q w1 where 1: "acquire_lock sha (mm_locks m) (diary_key sha d) w = (q, w1)"
        by (cases "acquire_lock sha (mm_locks m) (diary_key sha d) w")
      show thesis
      proof (cases q)
        case (Inl e)
        with run 1 assms(2) show thesis by (auto simp: managed_run_def Let_def split: if_splits)
      next
        case (Inr lock)
        obtain r2 w2 where 2: "managed_body m (diary_key sha d) (mirror_effect sha m d) w1 = (r2, w2)"
          by (cases "managed_body m (diary_key sha d) (mirror_effect sha m d) w1")
        with run 1 Inr have eq: "r = r2" "w' = snd (release_lock (diary_key sha d) lock w2)"
          by (simp_all add: managed_run_def Let_def)
        from managed_body_settled [OF 2] eq assms(2-4) that show thesis
          by (auto simp: settled_def release_lock_stores)
      qed
    qed
  qed
  have "fst (load_binding (diary_key sha d) v) = Inr (Some b)"
    by (rule binding_store.load_found) (simp_all add: b assms(5))
  moreover have "snd (load_binding (diary_key sha d) v) = v"
    using load_binding_frame [of "diary_key sha d" v "fst (load_binding (diary_key sha d) v)"
        "snd (load_binding (diary_key sha d) v)"] assms(5)
    by (auto simp: load_binding_def split: option.splits json_file.splits)
  ultimately have "load_binding (diary_key sha d) v = (Inr (Some b), v)"
    by (metis prod.collapse)
  with assms(6) show ?thesis by (simp add: mirror_effect_def)
qed

theorem mirrored_diary_is_bound_next_time_witness:
  "\<exists>w' f. pv_mirror_bound sample_provider = Some f
     \<and> mirror_effect sample_sha sample_managed sample_remote_diary w' = f sample_remote_diary w'"
proof -
  obtain r w' where r: "managed_mirror sample_sha sample_managed sample_remote_diary empty_store = (r, w')"
      "sr_state r = Mirrored" "sr_key r = diary_key sample_sha sample_remote_diary" "faults w' = []"
    using sample_run [of sample_remote_diary] by auto
  obtain f where f: "pv_mirror_bound (mm_remote sample_managed) = Some f"
    by (simp add: sample_managed_def sample_provider_def Let_def)
  from mirrored_diary_is_bound_next_time [OF r(1,2,3) refl r(4) f] f show ?thesis
    by (auto simp: sample_managed_def)
qed

end
