(* ===== verification/Provider_Contract.thy ===== *)
theory Provider_Contract
  imports Managed_Mirror
begin

text \<open>
  The interface between the managed mirror and a provider: every operation answers under the key of its diary and
  leaves the bindings of all other keys alone. What the managed mirror then guarantees of its own operations is
  proved once, and holds for every provider that keeps the contract.
\<close>

text \<open>An effect on behalf of a diary that stays within the diary's key.\<close>

definition within_key :: "string \<Rightarrow> 'a store_scheme effect \<Rightarrow> bool" where
  "within_key key f = (\<forall>w r w'. f w = (r, w') \<longrightarrow>
     sr_key r = key \<and> (\<forall>k. k \<noteq> key \<longrightarrow> stored_binding w' k = stored_binding w k))"

lemma within_keyI:
  "(\<And>w r w'. f w = (r, w') \<Longrightarrow> sr_key r = key \<and> (\<forall>k. k \<noteq> key \<longrightarrow> stored_binding w' k = stored_binding w k))
     \<Longrightarrow> within_key key f"
  by (auto simp: within_key_def)

lemma within_keyD:
  "within_key key f \<Longrightarrow> f w = (r, w') \<Longrightarrow> sr_key r = key \<and> (\<forall>k. k \<noteq> key \<longrightarrow> stored_binding w' k = stored_binding w k)"
  unfolding within_key_def by blast

lemma remove_lock_stores [simp]:
  "bindings (snd (remove_lock key w)) = bindings w" "conflicts (snd (remove_lock key w)) = conflicts w"
  using remove_lock_frame [of key w "fst (remove_lock key w)" "snd (remove_lock key w)"] by auto

lemma release_lock_bindings [simp]:
  "bindings (snd (release_lock key ow w)) = bindings w"
  unfolding release_lock_def
  by (auto split: prod.splits option.splits lock_file.splits if_splits dest!: try_io_frame remove_lock_frame)

lemma write_conflict_bindings: "write_conflict rt key rv c w = (x, w') \<Longrightarrow> bindings w' = bindings w"
  unfolding write_conflict_def
  by (auto simp: Let_def split: prod.splits option.splits if_splits
      dest!: ctx_err_frame try_io_frame elim!: atomic_write_cases)

lemma write_conflict_stored: "write_conflict rt key rv c w = (x, w') \<Longrightarrow> stored_binding w' = stored_binding w"
  by (drule write_conflict_bindings) (simp add: stored_binding_def fun_eq_iff)

lemma acquire_lock_bindings:
  "acquire_lock sha cfg key w = (res, w') \<Longrightarrow> bindings w' = bindings w \<and> conflicts w' = conflicts w"
  unfolding acquire_lock_def random_id_def time_now_def
  by (auto simp: Let_def split: prod.splits option.splits sum.splits if_splits
      dest!: ctx_err_frame try_io_frame try_ios_frame existing_lock_frame remove_lock_frame)

lemma within_key_body:
  assumes "within_key key f" "managed_body m key f w = (r, w')" "k \<noteq> key"
  shows "stored_binding w' k = stored_binding w k"
proof -
  obtain r0 w1 where 1: "f w = (r0, w1)" by (cases "f w")
  note law = within_keyD [OF assms(1) 1]
  have save: "save_result pv x v = (e, v') \<Longrightarrow> sr_key x = key \<Longrightarrow> stored_binding v' k = stored_binding v k"
    for pv x v e and v' :: "'a store_scheme"
    using save_result_frame [of pv x v e v'] assms(3) by blast
  show ?thesis using assms(2,3) law 1
    by (auto simp: managed_body_def Let_def split: prod.splits sum.splits option.splits if_splits dest!: save write_conflict_stored)
qed

lemma within_key_run:
  assumes "within_key (diary_key sha d) f" "managed_run sha m d f w = (r, w')" "k \<noteq> diary_key sha d"
  shows "stored_binding w' k = stored_binding w k"
proof -
  let ?key = "diary_key sha d"
  obtain l w1 where 1: "acquire_lock sha (mm_locks m) ?key w = (l, w1)" by (cases "acquire_lock sha (mm_locks m) ?key w")
  have s1: "stored_binding w1 k = stored_binding w k"
    using acquire_lock_bindings [OF 1] by (simp add: stored_binding_def)
  show ?thesis
  proof (cases l)
    case (Inl e)
    with assms(2) 1 s1 show ?thesis by (auto simp: managed_run_def Let_def split: if_splits)
  next
    case (Inr ow)
    obtain r2 w2 where 2: "managed_body m ?key f w1 = (r2, w2)" by (cases "managed_body m ?key f w1")
    from assms(2) 1 2 Inr have "w' = snd (release_lock ?key ow w2)" by (simp add: managed_run_def Let_def)
    with within_key_body [OF assms(1) 2 assms(3)] s1 show ?thesis by (simp add: release_lock_stores)
  qed
qed

locale keyed_provider =
  fixes sha :: "string \<Rightarrow> string" and pv :: "'a store_scheme provider"
  assumes mirror_within: "within_key (diary_key sha d) (pv_mirror pv d)"
    and status_within: "within_key (diary_key sha d) (pv_status pv d)"
    and resolve_within: "within_key (diary_key sha d) (pv_resolve pv d choice observed)"
    and create_within: "pv_create pv = Some f \<Longrightarrow> within_key (diary_key sha d) (f d)"
    and bound_within: "pv_mirror_bound pv = Some f \<Longrightarrow> within_key (diary_key sha d) (f d)"
    and recover_within: "pv_recover pv = Some f \<Longrightarrow> within_key (diary_key sha d) (f d)"
begin

lemma mirror_effect_within:
  assumes "mm_remote m = pv"
  shows "within_key (diary_key sha d) (mirror_effect sha m d)"
proof (rule within_keyI)
  fix w w' :: "'a store_scheme" and r
  assume run: "mirror_effect sha m d w = (r, w')"
  obtain b w1 where 1: "load_binding (diary_key sha d) w = (b, w1)" by (cases "load_binding (diary_key sha d) w")
  have "stored_binding w1 k = stored_binding w k" for k
    using binding_store.load_same [OF 1] by simp
  moreover have "(\<exists>f. within_key (diary_key sha d) f \<and> f w1 = (r, w')) \<or> sr_key r = diary_key sha d \<and> w' = w1"
  proof (cases b)
    case (Inl e)
    with run 1 show ?thesis by (auto simp: mirror_effect_def pending_result_def)
  next
    case (Inr found)
    with run 1 have "(\<exists>f. pv_create pv = Some f \<and> f d w1 = (r, w')) \<or> (\<exists>f. pv_mirror_bound pv = Some f \<and> f d w1 = (r, w'))
        \<or> pv_mirror pv d w1 = (r, w')"
      unfolding assms [symmetric] by (auto simp: mirror_effect_def split: option.splits)
    then show ?thesis using create_within bound_within mirror_within by blast
  qed
  ultimately show "sr_key r = diary_key sha d \<and> (\<forall>k. k \<noteq> diary_key sha d \<longrightarrow> stored_binding w' k = stored_binding w k)"
    by (auto dest: within_keyD)
qed

lemma recover_effect_within:
  assumes "mm_remote m = pv"
  shows "within_key (diary_key sha d) (\<lambda>v. case pv_recover (mm_remote m) of Some f \<Rightarrow> f d v
    | None \<Rightarrow> (pending_result (diary_key sha d) (new_err ''remote provider does not support explicit recovery''), v))"
  using assms recover_within
  by (auto simp: within_key_def pending_result_def zero_result_def split: option.splits)

text \<open>The operations of the managed mirror touch the binding of their own key only.\<close>

lemma managed_keeps_others:
  assumes "mm_remote m = pv" "k \<noteq> diary_key sha d"
    "(r, w') \<in> {managed_mirror sha m d w, managed_recover sha m d w, managed_resolve sha m d choice observed w}"
  shows "stored_binding w' k = stored_binding w k"
proof -
  consider "managed_run sha m d (mirror_effect sha m d) w = (r, w')"
    | "managed_run sha m d (\<lambda>v. case pv_recover (mm_remote m) of Some f \<Rightarrow> f d v
        | None \<Rightarrow> (pending_result (diary_key sha d) (new_err ''remote provider does not support explicit recovery''), v)) w
        = (r, w')"
    | "managed_run sha m d (\<lambda>v. pv_resolve (mm_remote m) d choice observed v) w = (r, w')"
    using assms(3) unfolding managed_mirror_def managed_recover_def managed_resolve_def by fastforce
  then show ?thesis
  proof cases
    case 1
    from within_key_run [OF mirror_effect_within [OF assms(1)] this assms(2)] show ?thesis .
  next
    case 2
    from within_key_run [OF recover_effect_within [OF assms(1)] this assms(2)] show ?thesis .
  next
    case 3
    have "within_key (diary_key sha d) (pv_resolve (mm_remote m) d choice observed)"
      using resolve_within assms(1) by simp
    from within_key_run [OF this 3 assms(2)] show ?thesis .
  qed
qed

text \<open>A status changes no binding of another key, and asks for no lock.\<close>

lemma status_keeps_others:
  assumes "mm_remote m = pv" "k \<noteq> diary_key sha d" "managed_status m d w = (r, w')"
  shows "stored_binding w' k = stored_binding w k"
  using assms within_keyD [OF status_within] by (auto simp: managed_status_def split: prod.splits)

end

end
