(* ===== verification/Issue_Mirror.thy ===== *)
theory Issue_Mirror
  imports Provider_Contract
begin

text \<open>
  The Issues mirror of \<open>adapters/githubissues\<close>: the markers that tie an Issue and its correction comments
  to a diary, the revisions (\<open>rest.go\<close>), and the semantics that the REST and the MCP transport share
  (\<open>issues_semantics.go\<close>). The transport is a record of operations, an arbitrary one here.
\<close>

section \<open>Issues and comments\<close>

record issue =
  iu_number :: int
  iu_url :: string
  iu_body :: string
  iu_updated_at :: int
  iu_state :: string
  iu_state_reason :: string
  iu_pull_request :: "json option"

record issue_comment =
  co_id :: int
  co_url :: string
  co_body :: string
  co_updated_at :: int

definition zero_issue :: issue where
  "zero_issue = \<lparr>iu_number = 0, iu_url = [], iu_body = [], iu_updated_at = 0, iu_state = [], iu_state_reason = [],
     iu_pull_request = None\<rparr>"

definition zero_comment :: issue_comment where
  "zero_comment = \<lparr>co_id = 0, co_url = [], co_body = [], co_updated_at = 0\<rparr>"

definition issue_revision :: "(string \<Rightarrow> string) \<Rightarrow> issue \<Rightarrow> string" where
  "issue_revision sha i = ''issue:'' @ int_text (iu_number i) @ '':'' @ rfc3339_text (iu_updated_at i) @ '':''
     @ content_hash sha (iu_body i)"

definition comment_revision :: "(string \<Rightarrow> string) \<Rightarrow> issue_comment \<Rightarrow> string" where
  "comment_revision sha c = ''comment:'' @ int_text (co_id c) @ '':'' @ rfc3339_text (co_updated_at c) @ '':''
     @ content_hash sha (co_body c)"

definition revision_id :: "string \<Rightarrow> string \<Rightarrow> string res" where
  "revision_id revision kind =
     (let p = kind @ '':'' in
      if \<not> has_prefix p revision then Inl (new_err (''remote revision is not a '' @ kind @ '' revision''))
      else (case cut_str (trim_prefix p revision) '':'' of
              None \<Rightarrow> Inl (new_err (''invalid '' @ kind @ '' revision''))
            | Some (i, _) \<Rightarrow> if i = [] then Inl (new_err (''invalid '' @ kind @ '' revision'')) else Inr i))"

section \<open>Markers\<close>

definition marker_prefix :: string where
  "marker_prefix = ''<!-- syntroph-idempotency-key:''"

definition marker_close :: string where
  "marker_close = '' -->'' @ [newline]"

definition diary_body :: "string \<Rightarrow> string \<Rightarrow> string" where
  "diary_body content key = content @ [newline, newline] @ marker_prefix @ key @ marker_close"

definition has_diary_marker :: "string \<Rightarrow> string \<Rightarrow> bool" where
  "has_diary_marker body key = contains_str body (marker_prefix @ key @ '' -->'')"

text \<open>\<^term>\<open>None\<close> where the code returns false.\<close>

definition strip_diary_marker :: "string \<Rightarrow> string \<Rightarrow> string option" where
  "strip_diary_marker body key =
     (let m = [newline, newline] @ marker_prefix @ key @ marker_close in
      if has_suffix m body then Some (trim_suffix m body) else None)"

definition correction_prefix :: "string \<Rightarrow> string" where
  "correction_prefix key = [newline, newline] @ ''<!-- syntroph-remote-correction:key='' @ key @ '';local=''"

definition correction_body :: "(string \<Rightarrow> string) \<Rightarrow> string \<Rightarrow> string \<Rightarrow> string \<Rightarrow> string" where
  "correction_body sha content key predecessor =
     content @ correction_prefix key @ content_hash sha content @ '';predecessor='' @ predecessor @ marker_close"

record correction_marker =
  cm_content :: string
  cm_local_hash :: string
  cm_predecessor :: string

definition parse_correction :: "(string \<Rightarrow> string) \<Rightarrow> string \<Rightarrow> string \<Rightarrow> correction_marker option" where
  "parse_correction sha body key =
     (case last_index_of (correction_prefix key) body of
        None \<Rightarrow> None
      | Some i \<Rightarrow>
          if \<not> has_suffix marker_close body then None
          else
         (case cut_str (trim_suffix marker_close (drop (i + length (correction_prefix key)) body)) '';predecessor='' of
            None \<Rightarrow> None
          | Some (h, p) \<Rightarrow>
              if p = [] \<or> h \<noteq> content_hash sha (take i body) then None
              else Some \<lparr>cm_content = take i body, cm_local_hash = h, cm_predecessor = p\<rparr>))"

section \<open>The transport\<close>

record effective_remote =
  er_revision :: string
  er_content :: string
  er_exact :: bool

record 'w issue_operations =
  io_ensure_labels :: "'w \<Rightarrow> err option \<times> 'w"
  io_create_issue :: "remote_diary \<Rightarrow> 'w \<Rightarrow> issue res \<times> 'w"
  io_close_issue :: "int \<Rightarrow> 'w \<Rightarrow> issue res \<times> 'w"
  io_get_issue :: "string \<Rightarrow> 'w \<Rightarrow> issue res \<times> 'w"
  io_effective :: "remote_binding \<Rightarrow> 'w \<Rightarrow> effective_remote res \<times> 'w"
  io_find_correction :: "int \<Rightarrow> remote_diary \<Rightarrow> string \<Rightarrow> 'w \<Rightarrow> issue_comment res \<times> 'w"
  io_create_correction :: "int \<Rightarrow> remote_diary \<Rightarrow> string \<Rightarrow> 'w \<Rightarrow> issue_comment res \<times> 'w"
  io_find_marked :: "string \<Rightarrow> 'w \<Rightarrow> issue res \<times> 'w"
  io_failed :: "storage_result \<Rightarrow> err \<Rightarrow> storage_result"

record 'w issue_semantics =
  se_provider :: string
  se_ops :: "'w issue_operations"

definition issue_not_found :: err where
  "issue_not_found = GoErr [ErrRemoteNotFound] ''remote mirror not found''"

section \<open>Results\<close>

definition pending :: "storage_result \<Rightarrow> err \<Rightarrow> storage_result" where
  "pending r e = failed_with SyncPending FailureTransient e r"

definition issue_base :: "(string \<Rightarrow> string) \<Rightarrow> 'w issue_semantics \<Rightarrow> remote_diary \<Rightarrow> storage_result" where
  "issue_base sha s d = zero_result\<lparr>sr_backend := BackendIssues, sr_provider := se_provider s,
     sr_key := diary_key sha d, sr_local_hash := content_hash sha (rd_content d)\<rparr>"

lemma issue_base_sels [simp]:
  "sr_key (issue_base sha s d) = diary_key sha d"
  "sr_local_hash (issue_base sha s d) = content_hash sha (rd_content d)"
  by (simp_all add: issue_base_def)

definition observed_issue :: "(string \<Rightarrow> string) \<Rightarrow> storage_result \<Rightarrow> issue \<Rightarrow> string \<Rightarrow> storage_result" where
  "observed_issue sha r i content =
     r\<lparr>sr_remote_id := int_text (iu_number i), sr_remote_url := iu_url i, sr_remote_rev := issue_revision sha i,
       sr_effective_remote_hash := content_hash sha content\<rparr>"

definition mirrored_issue :: "(string \<Rightarrow> string) \<Rightarrow> storage_result \<Rightarrow> issue \<Rightarrow> string \<Rightarrow> storage_result" where
  "mirrored_issue sha r i content = (observed_issue sha r i content)\<lparr>sr_state := Mirrored\<rparr>"

definition issue_conflict :: "(string \<Rightarrow> string) \<Rightarrow> storage_result \<Rightarrow> issue \<Rightarrow> err \<Rightarrow> storage_result" where
  "issue_conflict sha r i e =
     (let r1 = failed_with SyncConflict FailureConflict e r in
      if iu_number i = 0 then r1
      else
     (let content = (case strip_diary_marker (iu_body i) (sr_key r) of Some c \<Rightarrow> c | None \<Rightarrow> iu_body i) in
      r1\<lparr>sr_remote_id := int_text (iu_number i), sr_remote_url := iu_url i, sr_remote_rev := issue_revision sha i,
         sr_remote_content := content, sr_effective_remote_hash := content_hash sha content\<rparr>))"

definition compare_issue :: "(string \<Rightarrow> string) \<Rightarrow> storage_result \<Rightarrow> string \<Rightarrow> issue \<Rightarrow> storage_result" where
  "compare_issue sha r local i =
     (let remote = strip_diary_marker (iu_body i) (sr_key r);
          content = (case remote of Some c \<Rightarrow> c | None \<Rightarrow> iu_body i);
          r1 = r\<lparr>sr_remote_id := int_text (iu_number i), sr_remote_url := iu_url i,
                 sr_remote_rev := issue_revision sha i, sr_remote_content := content,
                 sr_effective_remote_hash := content_hash sha content\<rparr> in
      if remote = Some local
      then r1\<lparr>sr_state := Mirrored, sr_effective_remote_hash := content_hash sha local, sr_remote_content := []\<rparr>
      else issue_conflict sha r1 i ErrConflict_err)"

section \<open>The semantics\<close>

definition compare_effective ::
  "(string \<Rightarrow> string) \<Rightarrow> 'w issue_semantics \<Rightarrow> storage_result \<Rightarrow> string \<Rightarrow> remote_binding \<Rightarrow> 'w \<Rightarrow> storage_result \<times> 'w"
where
  "compare_effective sha s r local b w =
     (case io_effective (se_ops s) b w of
        (Inl e, w1) \<Rightarrow> (io_failed (se_ops s) r e, w1)
      | (Inr ef, w1) \<Rightarrow>
          (let r1 = r\<lparr>sr_remote_id := rb_remote_id b, sr_remote_url := rb_url b, sr_remote_rev := er_revision ef,
                      sr_remote_content := er_content ef,
                      sr_effective_remote_hash := content_hash sha (er_content ef)\<rparr> in
           (if er_exact ef \<and> er_content ef = local then r1\<lparr>sr_state := Mirrored, sr_remote_content := []\<rparr>
            else failed_with SyncConflict FailureConflict ErrConflict_err r1, w1)))"

definition finish_existing ::
  "(string \<Rightarrow> string) \<Rightarrow> 'w issue_semantics \<Rightarrow> storage_result \<Rightarrow> remote_diary \<Rightarrow> issue \<Rightarrow> 'w \<Rightarrow> storage_result \<times> 'w"
where
  "finish_existing sha s r d i w =
     (let compared = compare_issue sha r (rd_content d) i in
      if sr_state compared \<noteq> Mirrored then (compared, w)
      else if iu_state i \<noteq> ''closed'' \<or> iu_state_reason i \<noteq> ''completed''
      then (case io_close_issue (se_ops s) (iu_number i) w of
              (Inl e, w1) \<Rightarrow> (observed_issue sha (io_failed (se_ops s) r e) i (rd_content d), w1)
            | (Inr closed_i, w1) \<Rightarrow> (mirrored_issue sha r closed_i (rd_content d), w1))
      else (compared, w))"

definition persist_err :: "err \<Rightarrow> err" where
  "persist_err e = wrap_with ''persist provisional remote binding'' e"

definition create_and_close ::
  "(string \<Rightarrow> string) \<Rightarrow> 'a store_scheme issue_semantics \<Rightarrow> storage_result \<Rightarrow> remote_diary \<Rightarrow> 'a store_scheme
     \<Rightarrow> storage_result \<times> 'a store_scheme"
where
  "create_and_close sha s r d w =
     (case io_ensure_labels (se_ops s) w of
        (Some e, w1) \<Rightarrow> (io_failed (se_ops s) r e, w1)
      | (None, w1) \<Rightarrow>
     (case io_create_issue (se_ops s) d w1 of
        (Inl e, w2) \<Rightarrow> (io_failed (se_ops s) r e, w2)
      | (Inr created, w2) \<Rightarrow>
     (case save_result (se_provider s) (observed_issue sha r created (rd_content d)) w2 of
        (binding_err, w3) \<Rightarrow>
     (case io_close_issue (se_ops s) (iu_number created) w3 of
        (Inl e, w4) \<Rightarrow>
          (let e' = (case binding_err of None \<Rightarrow> e | Some b \<Rightarrow> join_err e (persist_err b)) in
           (observed_issue sha (io_failed (se_ops s) r e') created (rd_content d), w4))
      | (Inr i, w4) \<Rightarrow>
          (let result = mirrored_issue sha r i (rd_content d) in
           (case binding_err of None \<Rightarrow> result | Some b \<Rightarrow> pending result (persist_err b), w4))))))"

definition issue_mirror ::
  "(string \<Rightarrow> string) \<Rightarrow> 'a store_scheme issue_semantics \<Rightarrow> bool \<Rightarrow> remote_diary \<Rightarrow> 'a store_scheme
     \<Rightarrow> storage_result \<times> 'a store_scheme"
where
  "issue_mirror sha s recovery d w =
     (let r = issue_base sha s d in
      case validate_diary d of
        Some e \<Rightarrow> (pending r e, w)
      | None \<Rightarrow>
     (case load_binding (sr_key r) w of
        (Inl e, w1) \<Rightarrow> (pending r e, w1)
      | (Inr (Some b), w1) \<Rightarrow>
          if has_prefix ''comment:'' (rb_revision b) then compare_effective sha s r (rd_content d) b w1
          else
         (case io_get_issue (se_ops s) (rb_remote_id b) w1 of
            (Inl e, w2) \<Rightarrow> (io_failed (se_ops s) r e, w2)
          | (Inr i, w2) \<Rightarrow>
              if iu_number i \<noteq> 0 then finish_existing sha s r d i w2 else create_and_close sha s r d w2)
      | (Inr None, w1) \<Rightarrow>
          if recovery then
            (case io_find_marked (se_ops s) (sr_key r) w1 of
               (Inl e, w2) \<Rightarrow>
                 if errors_is e ErrRemoteNotFound then create_and_close sha s r d w2
                 else (io_failed (se_ops s) r e, w2)
             | (Inr i, w2) \<Rightarrow>
                 if iu_number i \<noteq> 0 then finish_existing sha s r d i w2 else create_and_close sha s r d w2)
          else create_and_close sha s r d w1))"

definition issue_status ::
  "(string \<Rightarrow> string) \<Rightarrow> 'a store_scheme issue_semantics \<Rightarrow> remote_diary \<Rightarrow> 'a store_scheme
     \<Rightarrow> storage_result \<times> 'a store_scheme"
where
  "issue_status sha s d w =
     (let r = issue_base sha s d in
      case load_binding (sr_key r) w of
        (Inl e, w1) \<Rightarrow> (pending r e, w1)
      | (Inr None, w1) \<Rightarrow>
          (pending r (new_err ''remote binding not found; run explicit storage recovery''), w1)
      | (Inr (Some b), w1) \<Rightarrow>
          if has_prefix ''comment:'' (rb_revision b) then compare_effective sha s r (rd_content d) b w1
          else
         (case io_get_issue (se_ops s) (rb_remote_id b) w1 of
            (Inl e, w2) \<Rightarrow> (io_failed (se_ops s) r e, w2)
          | (Inr i, w2) \<Rightarrow> (compare_issue sha r (rd_content d) i, w2)))"

text \<open>\<open>strconv.Atoi\<close>: an optional sign and digits, within 64 bits.\<close>

definition digits_value :: "string \<Rightarrow> int" where
  "digits_value ds = foldl (\<lambda>n c. n * 10 + (int (byte c) - 48)) 0 ds"

definition atoi :: "string \<Rightarrow> int option" where
  "atoi s =
     (let ds = (case s of [] \<Rightarrow> [] | c # cs \<Rightarrow> if c = CHR ''-'' \<or> c = CHR ''+'' then cs else s);
          n = (if has_prefix ''-'' s then - digits_value ds else digits_value ds) in
      if ds = [] \<or> \<not> list_all is_digit ds \<or> n < - (2 ^ 63) \<or> n \<ge> 2 ^ 63 then None else Some n)"

definition correct_issue ::
  "(string \<Rightarrow> string) \<Rightarrow> 'w issue_semantics \<Rightarrow> storage_result \<Rightarrow> remote_diary \<Rightarrow> remote_binding \<Rightarrow> string \<Rightarrow> 'w
     \<Rightarrow> storage_result \<times> 'w"
where
  "correct_issue sha s r d b revision w =
     (case atoi (rb_remote_id b) of
        None \<Rightarrow> (pending r (new_err ''remote binding contains an invalid Issue number''), w)
      | Some n \<Rightarrow>
          if n \<le> 0 then (pending r (new_err ''remote binding contains an invalid Issue number''), w)
          else
         (case (case io_find_correction (se_ops s) n d revision w of
                  (Inl e, w1) \<Rightarrow>
                    if errors_is e ErrRemoteNotFound then io_create_correction (se_ops s) n d revision w1 else (Inl e, w1)
                | (Inr c, w1) \<Rightarrow> (Inr c, w1)) of
            (Inl e, w2) \<Rightarrow> (io_failed (se_ops s) r e, w2)
          | (Inr c, w2) \<Rightarrow>
              (r\<lparr>sr_state := Mirrored, sr_remote_rev := comment_revision sha c,
                 sr_effective_remote_hash := content_hash sha (rd_content d), sr_remote_id := rb_remote_id b,
                 sr_remote_url := rb_url b\<rparr>, w2)))"

definition issue_resolve ::
  "(string \<Rightarrow> string) \<Rightarrow> 'a store_scheme issue_semantics \<Rightarrow> remote_diary \<Rightarrow> string \<Rightarrow> string \<Rightarrow> 'a store_scheme
     \<Rightarrow> storage_result \<times> 'a store_scheme"
where
  "issue_resolve sha s d choice observed w =
     (let r = issue_base sha s d in
      if choice \<noteq> KeepLocal \<and> choice \<noteq> KeepRemote
      then (issue_conflict sha r zero_issue (new_err ''resolution must be keep-local or keep-remote''), w)
      else
     (case load_binding (sr_key r) w of
        (Inl e, w1) \<Rightarrow> (pending r e, w1)
      | (Inr None, w1) \<Rightarrow> (pending r (new_err ''remote binding not found''), w1)
      | (Inr (Some b), w1) \<Rightarrow>
     (case io_effective (se_ops s) b w1 of
        (Inl e, w2) \<Rightarrow> (io_failed (se_ops s) r e, w2)
      | (Inr ef, w2) \<Rightarrow>
     (let r1 = r\<lparr>sr_remote_id := rb_remote_id b, sr_remote_url := rb_url b, sr_remote_rev := er_revision ef,
                 sr_expected_rev := observed, sr_remote_content := er_content ef,
                 sr_effective_remote_hash := content_hash sha (er_content ef)\<rparr> in
      if observed = [] \<or> observed \<noteq> er_revision ef
      then (failed_with SyncConflict FailureConflict ErrConflict_err r1, w2)
      else if choice = KeepRemote then (r1\<lparr>sr_state := Mirrored\<rparr>, w2)
      else if er_exact ef \<and> er_content ef = rd_content d
      then (r1\<lparr>sr_state := Mirrored, sr_remote_content := []\<rparr>, w2)
      else correct_issue sha s r1 d b (er_revision ef) w2))))"

text \<open>The provider that the managed mirror takes.\<close>

definition issue_provider ::
  "(string \<Rightarrow> string) \<Rightarrow> 'a store_scheme issue_semantics \<Rightarrow> 'a store_scheme provider" where
  "issue_provider sha s =
     \<lparr>pv_mirror = issue_mirror sha s False, pv_status = issue_status sha s, pv_resolve = issue_resolve sha s,
      pv_create = None, pv_mirror_bound = None, pv_recover = Some (issue_mirror sha s True)\<rparr>"

section \<open>What the semantics needs of a transport\<close>

lemma load_binding_bindings: "load_binding k w = (r, w') \<Longrightarrow> bindings w' = bindings w"
  by (drule load_binding_frame) auto

lemma compare_issue_state:
  "sr_state (compare_issue sha r local i) =
     (if strip_diary_marker (iu_body i) (sr_key r) = Some local then Mirrored else SyncConflict)"
  by (simp add: compare_issue_def issue_conflict_def Let_def)

lemma issue_keys [simp]:
  "sr_key (pending r e) = sr_key r" "sr_key (observed_issue sha r i c) = sr_key r"
  "sr_key (mirrored_issue sha r i c) = sr_key r" "sr_key (issue_conflict sha r i e) = sr_key r"
  "sr_key (compare_issue sha r c i) = sr_key r"
  by (simp_all add: pending_def observed_issue_def mirrored_issue_def issue_conflict_def compare_issue_def Let_def)

lemma save_result_other:
  "save_result pv r w = (res, w') \<Longrightarrow> k \<noteq> sr_key r \<Longrightarrow> stored_binding w' k = stored_binding w k"
  using save_result_frame by blast

lemma stored_binding_of: "bindings w' = bindings w \<Longrightarrow> stored_binding w' = stored_binding w"
  by (simp add: stored_binding_def fun_eq_iff)

text \<open>
  The laws of a transport: no operation touches the local bindings, and a failure is never reported as a
  mirrored diary.
\<close>

locale issue_transport =
  fixes sem :: "'a store_scheme issue_semantics"
  assumes labels_keep: "io_ensure_labels (se_ops sem) w = (le, w') \<Longrightarrow> bindings w' = bindings w"
    and create_keeps: "io_create_issue (se_ops sem) d w = (ie, w') \<Longrightarrow> bindings w' = bindings w"
    and close_keeps: "io_close_issue (se_ops sem) n w = (ie, w') \<Longrightarrow> bindings w' = bindings w"
    and get_keeps: "io_get_issue (se_ops sem) k w = (ie, w') \<Longrightarrow> bindings w' = bindings w"
    and effective_keeps: "io_effective (se_ops sem) b w = (fe, w') \<Longrightarrow> bindings w' = bindings w"
    and find_correction_keeps: "io_find_correction (se_ops sem) n d k w = (ce, w') \<Longrightarrow> bindings w' = bindings w"
    and create_correction_keeps: "io_create_correction (se_ops sem) n d k w = (ce, w') \<Longrightarrow> bindings w' = bindings w"
    and find_marked_keeps: "io_find_marked (se_ops sem) k w = (ie, w') \<Longrightarrow> bindings w' = bindings w"
    and failed_state: "sr_state (io_failed (se_ops sem) r e) \<noteq> Mirrored"
    and failed_key: "sr_key (io_failed (se_ops sem) r e) = sr_key r"
begin

lemmas keeps = labels_keep create_keeps close_keeps get_keeps effective_keeps find_correction_keeps
  create_correction_keeps find_marked_keeps load_binding_bindings

lemma compare_effective_keeps:
  "compare_effective sha sem r c b w = (res, w') \<Longrightarrow> bindings w' = bindings w"
  unfolding compare_effective_def by (auto simp: Let_def split: prod.splits sum.splits dest: effective_keeps)

lemma finish_existing_keeps:
  "finish_existing sha sem r d i w = (res, w') \<Longrightarrow> bindings w' = bindings w"
  unfolding finish_existing_def
  by (auto simp: Let_def split: prod.splits sum.splits if_splits dest: close_keeps)

lemma create_and_close_other:
  assumes "create_and_close sha sem r d w = (res, w')" "k \<noteq> sr_key r"
  shows "stored_binding w' k = stored_binding w k"
  using assms unfolding create_and_close_def
  by (auto simp: Let_def observed_issue_def split: prod.splits sum.splits option.splits
      dest!: keeps save_result_other [where k = k] stored_binding_of)

text \<open>Status and resolution leave the bindings alone; a mirror changes the one of its own key.\<close>

lemma status_keeps:
  "issue_status sha sem d w = (res, w') \<Longrightarrow> bindings w' = bindings w"
  unfolding issue_status_def
  by (auto simp: Let_def split: prod.splits sum.splits option.splits if_splits dest!: keeps compare_effective_keeps)

lemma correct_issue_keeps:
  "correct_issue sha sem r d b k w = (res, w') \<Longrightarrow> bindings w' = bindings w"
  unfolding correct_issue_def
  by (auto split: prod.splits sum.splits option.splits if_splits dest!: keeps)

lemma resolve_keeps:
  "issue_resolve sha sem d c k w = (res, w') \<Longrightarrow> bindings w' = bindings w"
  unfolding issue_resolve_def
  by (auto simp: Let_def split: prod.splits sum.splits option.splits if_splits dest!: keeps correct_issue_keeps)

lemma mirror_other:
  assumes "issue_mirror sha sem rc d w = (res, w')" "k \<noteq> diary_key sha d"
  shows "stored_binding w' k = stored_binding w k"
proof -
  have key: "sr_key (issue_base sha sem d) = diary_key sha d" by (simp add: issue_base_def)
  note other = create_and_close_other [of sha "issue_base sha sem d" d, unfolded key, OF _ assms(2)]
  from assms(1) show ?thesis unfolding issue_mirror_def
    by (auto simp: Let_def key split: prod.splits sum.splits option.splits if_splits
        dest!: keeps compare_effective_keeps finish_existing_keeps other stored_binding_of)
qed

text \<open>An Issue that is created and reported mirrored is bound before it is closed.\<close>

lemma created_and_bound:
  assumes "create_and_close sha sem r d w = (res, w')" "sr_state res = Mirrored"
  shows "\<exists>i w2 w3 b. io_create_issue (se_ops sem) d w2 = (Inr i, w3)
     \<and> stored_binding w' (sr_key r) = Some b \<and> rb_key b = sr_key r \<and> rb_provider b = se_provider sem
     \<and> rb_remote_id b = int_text (iu_number i) \<and> rb_revision b = issue_revision sha i
     \<and> rb_local_hash b = sr_local_hash r"
proof -
  obtain le w1 where 1: "io_ensure_labels (se_ops sem) w = (le, w1)" by (cases "io_ensure_labels (se_ops sem) w")
  with assms have le: "le = None" by (auto simp: create_and_close_def failed_state split: option.splits)
  obtain ie w2 where 2: "io_create_issue (se_ops sem) d w1 = (ie, w2)" by (cases "io_create_issue (se_ops sem) d w1")
  with assms 1 le obtain i where i: "ie = Inr i" by (cases ie) (auto simp: create_and_close_def failed_state)
  let ?r = "observed_issue sha r i (rd_content d)"
  obtain be w3 where 3: "save_result (se_provider sem) ?r w2 = (be, w3)" by (cases "save_result (se_provider sem) ?r w2")
  obtain ce w4 where 4: "io_close_issue (se_ops sem) (iu_number i) w3 = (ce, w4)"
    by (cases "io_close_issue (se_ops sem) (iu_number i) w3")
  have w': "w' = w4" using assms(1) 1 le 2 i 3 4 by (auto simp: create_and_close_def Let_def split: sum.splits)
  have "be = None"
    using assms 1 le 2 i 3 4
    by (auto simp: create_and_close_def Let_def observed_issue_def failed_state pending_def split: sum.splits option.splits)
  with 3 have "save_result (se_provider sem) ?r w2 = (None, w3)" by simp
  note saved = save_result_ok [OF this]
  have "stored_binding w' = stored_binding w3" using close_keeps [OF 4] w' by (intro stored_binding_of) simp
  with saved have "\<exists>b. stored_binding w' (sr_key r) = Some b \<and> rb_key b = sr_key r \<and> rb_provider b = se_provider sem
     \<and> rb_remote_id b = int_text (iu_number i) \<and> rb_revision b = issue_revision sha i
     \<and> rb_local_hash b = sr_local_hash r"
    by (auto simp: observed_issue_def)
  with 2 i show ?thesis by blast
qed

text \<open>Every result is under the key it was asked for.\<close>

lemma compare_effective_key: "compare_effective sha sem r c b w = (res, w') \<Longrightarrow> sr_key res = sr_key r"
  unfolding compare_effective_def by (auto simp: Let_def failed_key split: prod.splits sum.splits)

lemma finish_existing_key: "finish_existing sha sem r d i w = (res, w') \<Longrightarrow> sr_key res = sr_key r"
  unfolding finish_existing_def
  by (auto simp: Let_def failed_key issue_keys split: prod.splits sum.splits if_splits)

lemma create_and_close_key: "create_and_close sha sem r d w = (res, w') \<Longrightarrow> sr_key res = sr_key r"
  unfolding create_and_close_def
  by (auto simp: Let_def failed_key issue_keys split: prod.splits sum.splits option.splits)

lemma mirror_key: "issue_mirror sha sem rc d w = (res, w') \<Longrightarrow> sr_key res = diary_key sha d"
  unfolding issue_mirror_def
  by (auto simp: Let_def failed_key issue_keys split: prod.splits sum.splits option.splits if_splits
      dest!: compare_effective_key finish_existing_key create_and_close_key)

lemma status_key: "issue_status sha sem d w = (res, w') \<Longrightarrow> sr_key res = diary_key sha d"
  unfolding issue_status_def
  by (auto simp: Let_def failed_key issue_keys split: prod.splits sum.splits option.splits if_splits
      dest!: compare_effective_key)

lemma resolve_key: "issue_resolve sha sem d c k w = (res, w') \<Longrightarrow> sr_key res = diary_key sha d"
  unfolding issue_resolve_def correct_issue_def
  by (auto simp: Let_def failed_key issue_keys split: prod.splits sum.splits option.splits if_splits)

lemma within_key_mirror: "within_key (diary_key sha d) (issue_mirror sha sem rc d)"
  by (rule within_keyI) (blast dest: mirror_key mirror_other)

end

text \<open>A transport makes the semantics a provider that keeps the contract of the managed mirror.\<close>

sublocale issue_transport \<subseteq> keyed: keyed_provider sha "issue_provider sha sem" for sha
proof unfold_locales
  fix d choice observed f
  show "within_key (diary_key sha d) (pv_mirror (issue_provider sha sem) d)"
    by (simp add: issue_provider_def within_key_mirror)
  show "within_key (diary_key sha d) (pv_status (issue_provider sha sem) d)"
    by (rule within_keyI) (auto simp: issue_provider_def dest: status_key stored_binding_of [OF status_keeps])
  show "within_key (diary_key sha d) (pv_resolve (issue_provider sha sem) d choice observed)"
    by (rule within_keyI) (auto simp: issue_provider_def dest: resolve_key stored_binding_of [OF resolve_keeps])
  show "pv_create (issue_provider sha sem) = Some f \<Longrightarrow> within_key (diary_key sha d) (f d)"
    "pv_mirror_bound (issue_provider sha sem) = Some f \<Longrightarrow> within_key (diary_key sha d) (f d)"
    "pv_recover (issue_provider sha sem) = Some f \<Longrightarrow> within_key (diary_key sha d) (f d)"
    by (auto simp: issue_provider_def within_key_mirror)
qed

end
