(* ===== verification/Event_Bus.thy ===== *)
theory Event_Bus
  imports Journal
begin

text \<open>
  \<open>core/bus.go\<close>: the bus journals an event, then runs the subscribers of its type in the order of
  their subscription, each followed by a journaled attempt. A handler is a state transformer that
  may fail; its failure is recorded and the next handler still runs. The journal is
  the one of \<open>Journal\<close>, and the lemmas about the log come from its \<open>append_log\<close> interface.
\<close>

type_synonym 'w handler = "event \<Rightarrow> 'w \<Rightarrow> err option \<times> 'w"

record 'w subscription =
  su_id :: string
  su_type :: string
  su_handler :: "'w handler"

text \<open>The map from event types to subscriptions.\<close>

type_synonym 'w bus = "(string \<times> 'w subscription list) list"

record delivery =
  de_event_id :: string
  de_attempts :: "handler_attempt list"

definition subs_of :: "'w bus \<Rightarrow> string \<Rightarrow> 'w subscription list" where
  "subs_of b ty = (case map_of b ty of None \<Rightarrow> [] | Some ss \<Rightarrow> ss)"

text \<open>\<^term>\<open>None\<close> is the nil handler.\<close>

definition subscribe ::
  "string \<Rightarrow> string \<Rightarrow> 'w handler option \<Rightarrow> 'w bus \<Rightarrow> err option \<times> 'w bus" where
  "subscribe ty sid h b =
     (if ty = [] \<or> sid = [] \<or> h = None
      then (Some (new_err ''event type, handler id, and handler are required''), b)
      else (None, map_put ty (subs_of b ty @ [\<lparr>su_id = sid, su_type = ty, su_handler = the h\<rparr>]) b))"

definition attempt_of :: "event \<Rightarrow> string \<Rightarrow> int \<Rightarrow> err option \<Rightarrow> handler_attempt" where
  "attempt_of e sid t r =
     \<lparr>ha_event_id = ev_id e, ha_saga_id = ev_saga_id e, ha_handler_id = sid, ha_attempted_at = t,
      ha_outcome = (case r of None \<Rightarrow> ''succeeded'' | Some _ \<Rightarrow> ''failed''),
      ha_error = (case r of None \<Rightarrow> [] | Some er \<Rightarrow> err_text er)\<rparr>"

fun deliver ::
  "(string \<Rightarrow> string) \<Rightarrow> (string \<Rightarrow> string option) \<Rightarrow> event \<Rightarrow> 'a jstate_scheme subscription list
     \<Rightarrow> 'a jstate_scheme \<Rightarrow> (handler_attempt list \<times> err option) \<times> 'a jstate_scheme"
where
  "deliver sha strip e [] w = (([], None), w)"
| "deliver sha strip e (s # ss) w =
     (case time_now w of
        (t, w1) \<Rightarrow>
     (case su_handler s e w1 of
        (r, w2) \<Rightarrow>
     (let a = attempt_of e (su_id s) t r in
      case append_attempt sha strip a w2 of
        (Some er, w3) \<Rightarrow> (([], Some er), w3)
      | (None, w3) \<Rightarrow>
          (case deliver sha strip e ss w3 of
             ((as, er), w4) \<Rightarrow> ((a # as, er), w4)))))"

definition publish ::
  "(string \<Rightarrow> string) \<Rightarrow> (string \<Rightarrow> string option) \<Rightarrow> 'a jstate_scheme bus \<Rightarrow> event
     \<Rightarrow> 'a jstate_scheme \<Rightarrow> (delivery \<times> err option) \<times> 'a jstate_scheme"
where
  "publish sha strip b e w =
     (case validate_event e of
        Some er \<Rightarrow> ((\<lparr>de_event_id = [], de_attempts = []\<rparr>, Some er), w)
      | None \<Rightarrow>
     (case append_event sha e w of
        (Some er, w1) \<Rightarrow> ((\<lparr>de_event_id = [], de_attempts = []\<rparr>, Some er), w1)
      | (None, w1) \<Rightarrow>
          (case deliver sha strip e (subs_of b (ev_type e)) w1 of
             ((as, er), w2) \<Rightarrow> ((\<lparr>de_event_id = ev_id e, de_attempts = as\<rparr>, er), w2))))"

text \<open>What the journal keeps of an attempt.\<close>

definition sanitised :: "(string \<Rightarrow> string option) \<Rightarrow> handler_attempt \<Rightarrow> handler_attempt" where
  "sanitised strip a = a\<lparr>ha_error := safe_diagnostic strip (ha_error a)\<rparr>"

lemma append_attempt_ok:
  assumes "append_attempt sha strip a w = (None, w')" "journalable (attempt_record (sanitised strip a))"
    "saga_log sha (ha_saga_id a) w = Some rs"
  shows "saga_log sha (ha_saga_id a) w' = Some (rs @ [attempt_record (sanitised strip a)])"
proof -
  from assms(1) have "append_record sha (ha_saga_id a) (attempt_record (sanitised strip a)) w = (None, w')"
    by (simp add: append_attempt_def sanitised_def Let_def split: option.splits)
  then show ?thesis by (rule sj.append_success [OF _ assms(2,3)])
qed

lemma saga_log_time [simp]: "saga_log sha saga (w\<lparr>reads := n\<rparr>) = saga_log sha saga w"
  by (simp add: saga_log_def saga_segment_def)

text \<open>The handlers of a delivery leave the log of the event's saga to the bus.\<close>

definition keeps_log :: "(string \<Rightarrow> string) \<Rightarrow> string \<Rightarrow> 'a jstate_scheme handler \<Rightarrow> bool" where
  "keeps_log sha saga h = (\<forall>e w. saga_log sha saga (snd (h e w)) = saga_log sha saga w)"

lemma deliver_log:
  assumes "deliver sha strip e ss w = ((as, er), w')"
    "\<forall>s \<in> set ss. keeps_log sha (ev_saga_id e) (su_handler s)"
    "\<forall>a \<in> set as. journalable (attempt_record (sanitised strip a))"
    "saga_log sha (ev_saga_id e) w = Some rs" "er = None"
  shows "saga_log sha (ev_saga_id e) w' = Some (rs @ map (\<lambda>a. attempt_record (sanitised strip a)) as)
     \<and> map ha_handler_id as = map su_id ss"
  using assms
proof (induction ss arbitrary: w as rs)
  case Nil
  then show ?case by simp
next
  case (Cons s ss)
  obtain t w1 where tn: "time_now w = (t, w1)" by (cases "time_now w")
  obtain r w2 where h: "su_handler s e w1 = (r, w2)" by (cases "su_handler s e w1")
  define a where "a = attempt_of e (su_id s) t r"
  have saga: "ha_saga_id a = ev_saga_id e" "ha_handler_id a = su_id s"
    by (simp_all add: a_def attempt_of_def)
  from Cons.prems(1,5) tn h obtain w3 as' where ap: "append_attempt sha strip a w2 = (None, w3)"
      and rest: "deliver sha strip e ss w3 = ((as', None), w')" "as = a # as'"
    by (auto simp: a_def Let_def split: prod.splits option.splits)
  from tn have "saga_log sha (ev_saga_id e) w1 = Some rs"
    using Cons.prems(4) by (auto simp: time_now_def)
  with Cons.prems(2) h have "saga_log sha (ev_saga_id e) w2 = Some rs"
    unfolding keeps_log_def by (metis list.set_intros(1) snd_conv)
  with append_attempt_ok [OF ap] Cons.prems(3) rest(2) saga
  have "saga_log sha (ev_saga_id e) w3 = Some (rs @ [attempt_record (sanitised strip a)])" by simp
  with Cons.IH [of w3 as' "rs @ [attempt_record (sanitised strip a)]"] Cons.prems(2,3,5) rest saga
  show ?case by simp
qed

text \<open>The outcomes a delivery reports.\<close>

lemma deliver_attempts:
  "deliver sha strip e ss w = ((as, er), w') \<Longrightarrow> a \<in> set as \<Longrightarrow>
     ha_event_id a = ev_id e \<and> ha_saga_id a = ev_saga_id e
     \<and> (ha_outcome a = ''succeeded'' \<and> ha_error a = [] \<or> ha_outcome a = ''failed'')"
proof (induction ss arbitrary: w as)
  case (Cons s ss)
  then show ?case
    by (auto simp: Let_def attempt_of_def split: prod.splits option.splits)
qed simp

lemma deliver_prefix:
  "deliver sha strip e ss w = ((as, er), w') \<Longrightarrow> prefix (map ha_handler_id as) (map su_id ss)
     \<and> (er = None \<longrightarrow> length as = length ss)"
proof (induction ss arbitrary: w as)
  case (Cons s ss)
  obtain t w1 where "time_now w = (t, w1)" by (cases "time_now w")
  moreover obtain r w2 where "su_handler s e w1 = (r, w2)" by (cases "su_handler s e w1")
  moreover define a where "a = attempt_of e (su_id s) t r"
  moreover obtain q w3 where "append_attempt sha strip a w2 = (q, w3)"
    by (cases "append_attempt sha strip a w2")
  moreover have "ha_handler_id a = su_id s" by (simp add: a_def attempt_of_def)
  ultimately show ?case
    using Cons.prems Cons.IH [of w3]
    by (cases q; cases "deliver sha strip e ss w3") auto
qed simp

section \<open>Properties\<close>

text \<open>C35: when \<open>Publish\<close> succeeds, the journal of the event's saga has grown by exactly the event
  followed by one attempt for each subscriber of the event's type, in the order of subscription,
  whichever of the handlers failed: no failure hides another handler, and no attempt is
  lost or reordered.\<close>

theorem publish_journals_and_delivers:
  assumes "publish sha strip b e w = ((d, None), w')" "int64 (ev_schema_version e)"
    "saga_log sha (ev_saga_id e) w = Some rs"
    "\<forall>s \<in> set (subs_of b (ev_type e)). keeps_log sha (ev_saga_id e) (su_handler s)"
    "length (json_text (enc_record (event_record e))) < max_line"
    "\<forall>a \<in> set (de_attempts d). journalable (attempt_record (sanitised strip a))"
  shows "saga_log sha (ev_saga_id e) w' =
       Some (rs @ [event_record e] @ map (\<lambda>a. attempt_record (sanitised strip a)) (de_attempts d))
     \<and> map ha_handler_id (de_attempts d) = map su_id (subs_of b (ev_type e))"
proof -
  from assms(1) obtain w1 as where v: "validate_event e = None"
    and ap: "append_event sha e w = (None, w1)"
    and de: "deliver sha strip e (subs_of b (ev_type e)) w1 = ((as, None), w')" "de_attempts d = as"
    by (auto simp: publish_def split: option.splits prod.splits)
  have "journalable (event_record e)"
    using v assms(2,5) by (simp add: journalable_def record_ok_event)
  with ap v assms(3) have "saga_log sha (ev_saga_id e) w1 = Some (rs @ [event_record e])"
    by (auto simp: append_event_def dest: sj.append_success)
  from deliver_log [OF de(1) assms(4) _ this] assms(6) de(2) show ?thesis by simp
qed

definition failing_handler :: "jstate handler" where
  "failing_handler e w = (Some (new_err ''offline''), w)"

definition quiet_handler :: "jstate handler" where
  "quiet_handler e w = (None, w)"

definition sample_bus :: "jstate bus" where
  "sample_bus = [(''t'', [\<lparr>su_id = ''a'', su_type = ''t'', su_handler = failing_handler\<rparr>,
                         \<lparr>su_id = ''b'', su_type = ''t'', su_handler = quiet_handler\<rparr>])]"

lemma sample_attempts:
  "journalable (attempt_record (sanitised (\<lambda>u. None) (attempt_of sample_event ''a'' 1 (Some (new_err ''offline'')))))"
  "journalable (attempt_record (sanitised (\<lambda>u. None) (attempt_of sample_event ''b'' 2 None)))"
proof -
  have "safe_diagnostic (\<lambda>u. None) ''offline'' = ''offline''" "safe_diagnostic (\<lambda>u. None) [] = []"
    by code_simp+
  then have s: "sanitised (\<lambda>u. None) (attempt_of sample_event ''a'' 1 (Some (new_err ''offline''))) =
      attempt_of sample_event ''a'' 1 (Some (new_err ''offline''))"
    "sanitised (\<lambda>u. None) (attempt_of sample_event ''b'' 2 None) = attempt_of sample_event ''b'' 2 None"
    by (simp_all add: sanitised_def attempt_of_def)
  have "length (json_text (enc_record (attempt_record
      (attempt_of sample_event ''a'' 1 (Some (new_err ''offline'')))))) < 1000" by code_simp
  then show "journalable (attempt_record (sanitised (\<lambda>u. None)
      (attempt_of sample_event ''a'' 1 (Some (new_err ''offline'')))))"
    by (simp add: s journalable_def max_line_def)
  have "length (json_text (enc_record (attempt_record (attempt_of sample_event ''b'' 2 None)))) < 1000"
    by code_simp
  then show "journalable (attempt_record (sanitised (\<lambda>u. None) (attempt_of sample_event ''b'' 2 None)))"
    by (simp add: s journalable_def max_line_def)
qed

lemma sample_publish:
  "\<exists>w'. publish (\<lambda>s. s) (\<lambda>u. None) sample_bus sample_event empty_journal =
     ((\<lparr>de_event_id = ''e1'', de_attempts = [attempt_of sample_event ''a'' 1 (Some (new_err ''offline'')),
                                            attempt_of sample_event ''b'' 2 None]\<rparr>, None), w')"
proof -
  have v: "validate_attempt (attempt_of sample_event ''a'' 1 (Some (new_err ''offline''))\<lparr>ha_error := x\<rparr>) = None"
      "validate_attempt (attempt_of sample_event ''b'' 2 None\<lparr>ha_error := x\<rparr>) = None" for x
    by (simp_all add: validate_attempt_def attempt_of_def sample_event_def is_zero_time_def)
  have t: "ev_type sample_event = ''t''" "ev_id sample_event = ''e1''"
    "ha_saga_id (attempt_of e i t' r) = ev_saga_id e" for e i t' r
    by (simp_all add: sample_event_def attempt_of_def)
  have c: "clock empty_journal 0 = 1" "clock empty_journal (Suc 0) = 2" "reads empty_journal = 0"
    by (simp_all add: empty_journal_def)
  show ?thesis
    by (simp add: publish_def append_event_def append_record_calm t c v sample_bus_def subs_of_def
        time_now_def failing_handler_def quiet_handler_def append_attempt_def Let_def)
qed

theorem publish_journals_and_delivers_witness:
  "\<exists>d w'. publish (\<lambda>s. s) (\<lambda>u. None) sample_bus sample_event empty_journal = ((d, None), w')
     \<and> map ha_handler_id (de_attempts d) = [''a'', ''b'']
     \<and> saga_log (\<lambda>s. s) ''s'' w' = Some ([event_record sample_event]
          @ map (\<lambda>a. attempt_record (sanitised (\<lambda>u. None) a)) (de_attempts d))"
proof -
  obtain w' where p: "publish (\<lambda>s. s) (\<lambda>u. None) sample_bus sample_event empty_journal =
     ((\<lparr>de_event_id = ''e1'', de_attempts = [attempt_of sample_event ''a'' 1 (Some (new_err ''offline'')),
                                            attempt_of sample_event ''b'' 2 None]\<rparr>, None), w')"
    using sample_publish by blast
  have subs: "subs_of sample_bus (ev_type sample_event) =
      [\<lparr>su_id = ''a'', su_type = ''t'', su_handler = failing_handler\<rparr>,
       \<lparr>su_id = ''b'', su_type = ''t'', su_handler = quiet_handler\<rparr>]"
    by (simp add: subs_of_def sample_bus_def sample_event_def)
  have k: "keeps_log sha sg failing_handler" "keeps_log sha sg quiet_handler" for sha sg
    by (simp_all add: keeps_log_def failing_handler_def quiet_handler_def)
  from publish_journals_and_delivers [OF p _ empty_journal_facts(3)] sample_event_facts(3) sample_attempts
  show ?thesis unfolding p by (simp add: subs k journalable_def int64_def)
qed

text \<open>When the event is invalid or the journal cannot append it, no handler runs:
  \<open>Publish\<close> returns the error with an empty delivery, and the state differs from the one before at most
  in the event's segment.\<close>

theorem publish_rejected_runs_nothing:
  assumes "validate_event e = Some er \<or> fst (append_event sha e w) = Some er"
  shows "\<exists>w' er'. publish sha strip b e w = ((\<lparr>de_event_id = [], de_attempts = []\<rparr>, Some er'), w')
     \<and> only_entry (safe_segment_name sha (ev_saga_id e)) w w'"
proof (cases "validate_event e")
  case (Some er')
  then show ?thesis by (simp add: publish_def only_entry_def)
next
  case None
  with assms obtain w1 where "append_event sha e w = (Some er, w1)"
    by (cases "append_event sha e w") auto
  moreover from this None have "only_entry (safe_segment_name sha (ev_saga_id e)) w w1"
    by (auto simp: append_event_def dest: append_record_frame)
  ultimately show ?thesis using None by (simp add: publish_def)
qed

theorem publish_rejected_runs_nothing_witness:
  "\<exists>w' er'. publish (\<lambda>s. s) (\<lambda>u. None) sample_bus (sample_event\<lparr>ev_id := []\<rparr>) empty_journal
     = ((\<lparr>de_event_id = [], de_attempts = []\<rparr>, Some er'), w')"
  using publish_rejected_runs_nothing [of "sample_event\<lparr>ev_id := []\<rparr>"
      "new_err ''event is missing required fields''" "\<lambda>s. s" empty_journal "\<lambda>u. None" sample_bus]
  by (auto simp: validate_event_def)

end
