(* ===== verification/Session_Model.thy ===== *)
theory Session_Model
  imports Journal
begin

text \<open>
  The data of sessions: code references and session artifacts (\<open>core/session.go\<close>), skill
  package identities (\<open>core/skill.go\<close>), skill invocation records
  (\<open>core/skill_invocation.go\<close>) and the session diary, each with its JSON form. A
  slice is a list: nil and empty slices have the same JSON under \<open>omitempty\<close> and are only told
  apart for the arguments map, which the program compares with \<open>reflect.DeepEqual\<close>.
\<close>

section \<open>Elements of slices\<close>

definition elem :: "'a \<Rightarrow> ((string \<times> json) list \<Rightarrow> 'a \<Rightarrow> 'a option) \<Rightarrow> json \<Rightarrow> 'a option" where
  "elem z f j = (case j of JObj kvs \<Rightarrow> f kvs z | JNull \<Rightarrow> Some z | _ \<Rightarrow> None)"

definition str_elem :: "json \<Rightarrow> string option" where
  "str_elem j = dec_string [] [j]"

lemma str_elem_JStr [simp]: "str_elem (JStr s) = Some s"
  by (simp add: str_elem_def)

lemma dec_all_strings [simp]: "dec_all str_elem (map JStr xs) = Some xs"
  by (induction xs) auto

definition str_list :: "string list \<Rightarrow> json list" where
  "str_list xs = map JStr xs"

lemma dec_all_str_list [simp]: "dec_all str_elem (str_list xs) = Some xs"
  by (simp add: str_list_def)

section \<open>Code references\<close>

record code_reference =
  cr_repository_id :: string
  cr_commit_sha :: string
  cr_path :: string
  cr_symbol :: string
  cr_kind :: string
  cr_confidence :: string
  cr_graph_snapshot_id :: string

definition zero_reference :: code_reference where
  "zero_reference = \<lparr>cr_repository_id = [], cr_commit_sha = [], cr_path = [], cr_symbol = [],
     cr_kind = [], cr_confidence = [], cr_graph_snapshot_id = []\<rparr>"

definition enc_reference :: "code_reference \<Rightarrow> json" where
  "enc_reference r = JObj
     ([(''repository_id'', JStr (cr_repository_id r)), (''commit_sha'', JStr (cr_commit_sha r)),
       (''path'', JStr (cr_path r))]
      @ opt_str ''symbol'' (cr_symbol r) @ opt_str ''kind'' (cr_kind r)
      @ [(''confidence'', JStr (cr_confidence r))]
      @ opt_str ''graph_snapshot_id'' (cr_graph_snapshot_id r))"

definition dec_reference :: "(string \<times> json) list \<Rightarrow> code_reference \<Rightarrow> code_reference option" where
  "dec_reference kvs d =
     (case (dec_string (cr_repository_id d) (field_values ''repository_id'' kvs),
            dec_string (cr_commit_sha d) (field_values ''commit_sha'' kvs),
            dec_string (cr_path d) (field_values ''path'' kvs),
            dec_string (cr_symbol d) (field_values ''symbol'' kvs),
            dec_string (cr_kind d) (field_values ''kind'' kvs),
            dec_string (cr_confidence d) (field_values ''confidence'' kvs),
            dec_string (cr_graph_snapshot_id d) (field_values ''graph_snapshot_id'' kvs))
      of (Some r, Some c, Some p, Some s, Some k, Some co, Some g) \<Rightarrow>
        Some \<lparr>cr_repository_id = r, cr_commit_sha = c, cr_path = p, cr_symbol = s, cr_kind = k,
              cr_confidence = co, cr_graph_snapshot_id = g\<rparr>
      | _ \<Rightarrow> None)"

text \<open>\<open>codeReferenceKeyOf\<close>\<close>

definition reference_key :: "code_reference \<Rightarrow> string \<times> string \<times> string" where
  "reference_key r = (cr_path r, cr_symbol r, cr_kind r)"

section \<open>Skill packages and invocation records\<close>

record package_identity =
  pi_source_id :: string
  pi_name :: string
  pi_package_hash :: string

definition qualified_name :: "package_identity \<Rightarrow> string" where
  "qualified_name i = pi_source_id i @ ''/'' @ pi_name i"

record observation =
  ob_decisions :: "string list"
  ob_lessons :: "string list"

record invocation_artifact =
  ia_path :: string
  ia_sha256 :: string
  ia_media_type :: string
  ia_size_bytes :: int
  ia_availability :: string

record invocation_record =
  ir_schema_version :: int
  ir_invocation_id :: string
  ir_related_id :: string
  ir_identity :: package_identity
  ir_bundle_hash :: string
  ir_runtime :: string
  ir_arguments :: "(string \<times> goval) list option"
  ir_outcome :: string
  ir_summary :: string
  ir_observations :: observation
  ir_code_references :: "code_reference list"
  ir_artifacts :: "invocation_artifact list"
  ir_event_references :: "string list"
  ir_provenance :: string

definition zero_identity :: package_identity where
  "zero_identity = \<lparr>pi_source_id = [], pi_name = [], pi_package_hash = []\<rparr>"

definition zero_observation :: observation where
  "zero_observation = \<lparr>ob_decisions = [], ob_lessons = []\<rparr>"

definition zero_artifact :: invocation_artifact where
  "zero_artifact = \<lparr>ia_path = [], ia_sha256 = [], ia_media_type = [], ia_size_bytes = 0,
     ia_availability = []\<rparr>"

definition zero_invocation :: invocation_record where
  "zero_invocation = \<lparr>ir_schema_version = 0, ir_invocation_id = [], ir_related_id = [],
     ir_identity = zero_identity, ir_bundle_hash = [], ir_runtime = [], ir_arguments = None,
     ir_outcome = [], ir_summary = [], ir_observations = zero_observation,
     ir_code_references = [], ir_artifacts = [], ir_event_references = [], ir_provenance = []\<rparr>"

definition enc_identity :: "package_identity \<Rightarrow> json" where
  "enc_identity i = JObj [(''source_id'', JStr (pi_source_id i)), (''name'', JStr (pi_name i)),
     (''package_hash'', JStr (pi_package_hash i))]"

definition dec_identity :: "(string \<times> json) list \<Rightarrow> package_identity \<Rightarrow> package_identity option" where
  "dec_identity kvs d =
     (case (dec_string (pi_source_id d) (field_values ''source_id'' kvs),
            dec_string (pi_name d) (field_values ''name'' kvs),
            dec_string (pi_package_hash d) (field_values ''package_hash'' kvs))
      of (Some s, Some n, Some h) \<Rightarrow> Some \<lparr>pi_source_id = s, pi_name = n, pi_package_hash = h\<rparr>
      | _ \<Rightarrow> None)"

definition enc_observation :: "observation \<Rightarrow> json" where
  "enc_observation ob = JObj (opt_arr ''decisions'' (str_list (ob_decisions ob))
     @ opt_arr ''lessons'' (str_list (ob_lessons ob)))"

definition dec_observation :: "(string \<times> json) list \<Rightarrow> observation \<Rightarrow> observation option" where
  "dec_observation kvs d =
     (case (dec_slice str_elem (ob_decisions d) (field_values ''decisions'' kvs),
            dec_slice str_elem (ob_lessons d) (field_values ''lessons'' kvs))
      of (Some a, Some b) \<Rightarrow> Some \<lparr>ob_decisions = a, ob_lessons = b\<rparr>
      | _ \<Rightarrow> None)"

definition enc_artifact :: "invocation_artifact \<Rightarrow> json" where
  "enc_artifact a = JObj ([(''path'', JStr (ia_path a))] @ opt_str ''sha256'' (ia_sha256 a)
     @ opt_str ''media_type'' (ia_media_type a) @ opt_int ''size_bytes'' (ia_size_bytes a)
     @ opt_str ''availability'' (ia_availability a))"

definition dec_artifact :: "(string \<times> json) list \<Rightarrow> invocation_artifact \<Rightarrow> invocation_artifact option" where
  "dec_artifact kvs d =
     (case (dec_string (ia_path d) (field_values ''path'' kvs),
            dec_string (ia_sha256 d) (field_values ''sha256'' kvs),
            dec_string (ia_media_type d) (field_values ''media_type'' kvs),
            dec_int (ia_size_bytes d) (field_values ''size_bytes'' kvs),
            dec_string (ia_availability d) (field_values ''availability'' kvs))
      of (Some p, Some s, Some m, Some z, Some a) \<Rightarrow>
        Some \<lparr>ia_path = p, ia_sha256 = s, ia_media_type = m, ia_size_bytes = z, ia_availability = a\<rparr>
      | _ \<Rightarrow> None)"

text \<open>A struct field is written even under \<open>omitempty\<close>, as \<open>Observations\<close> is.\<close>

definition enc_invocation :: "invocation_record \<Rightarrow> json" where
  "enc_invocation r = JObj
     ([(''schema_version'', JNum (NInt (ir_schema_version r))),
       (''invocation_id'', JStr (ir_invocation_id r))]
      @ opt_str ''related_invocation_id'' (ir_related_id r)
      @ [(''package_identity'', enc_identity (ir_identity r))]
      @ opt_str ''bundle_hash'' (ir_bundle_hash r) @ opt_str ''runtime'' (ir_runtime r)
      @ opt_args ''arguments'' (ir_arguments r) @ [(''outcome'', JStr (ir_outcome r))]
      @ opt_str ''summary'' (ir_summary r)
      @ [(''observations'', enc_observation (ir_observations r))]
      @ opt_arr ''code_references'' (map enc_reference (ir_code_references r))
      @ opt_arr ''artifacts'' (map enc_artifact (ir_artifacts r))
      @ opt_arr ''event_references'' (str_list (ir_event_references r))
      @ opt_str ''provenance'' (ir_provenance r))"

text \<open>Decoding with a plain \<open>json.Unmarshal\<close>: numbers in the arguments become \<open>float64\<close>.\<close>

definition dec_invocation :: "(string \<times> json) list \<Rightarrow> invocation_record \<Rightarrow> invocation_record option" where
  "dec_invocation kvs d =
     (case (dec_int (ir_schema_version d) (field_values ''schema_version'' kvs),
            dec_string (ir_invocation_id d) (field_values ''invocation_id'' kvs),
            dec_string (ir_related_id d) (field_values ''related_invocation_id'' kvs),
            dec_struct dec_identity (ir_identity d) (field_values ''package_identity'' kvs),
            dec_string (ir_bundle_hash d) (field_values ''bundle_hash'' kvs),
            dec_string (ir_runtime d) (field_values ''runtime'' kvs),
            dec_args False (ir_arguments d) (field_values ''arguments'' kvs))
      of (Some v, Some i, Some rel, Some pid, Some bh, Some rt, Some args) \<Rightarrow>
        (case (dec_string (ir_outcome d) (field_values ''outcome'' kvs),
               dec_string (ir_summary d) (field_values ''summary'' kvs),
               dec_struct dec_observation (ir_observations d) (field_values ''observations'' kvs),
               dec_slice (elem zero_reference dec_reference) (ir_code_references d)
                 (field_values ''code_references'' kvs),
               dec_slice (elem zero_artifact dec_artifact) (ir_artifacts d)
                 (field_values ''artifacts'' kvs),
               dec_slice str_elem (ir_event_references d) (field_values ''event_references'' kvs),
               dec_string (ir_provenance d) (field_values ''provenance'' kvs))
         of (Some oc, Some su, Some ob, Some cr, Some ar, Some er, Some pv) \<Rightarrow>
           Some \<lparr>ir_schema_version = v, ir_invocation_id = i, ir_related_id = rel,
             ir_identity = pid, ir_bundle_hash = bh, ir_runtime = rt, ir_arguments = args,
             ir_outcome = oc, ir_summary = su, ir_observations = ob, ir_code_references = cr,
             ir_artifacts = ar, ir_event_references = er, ir_provenance = pv\<rparr>
         | _ \<Rightarrow> None)
      | _ \<Rightarrow> None)"

section \<open>Session artifacts and diaries\<close>

record session_artifact =
  sa_title :: string
  sa_summary :: string
  sa_decisions :: "string list"
  sa_lessons :: "string list"
  sa_code_references :: "code_reference list"
  sa_related :: "string list"
  sa_invocations :: "invocation_record list"

definition zero_session_artifact :: session_artifact where
  "zero_session_artifact = \<lparr>sa_title = [], sa_summary = [], sa_decisions = [], sa_lessons = [],
     sa_code_references = [], sa_related = [], sa_invocations = []\<rparr>"

definition enc_session_artifact :: "session_artifact \<Rightarrow> json" where
  "enc_session_artifact a = JObj
     ([(''title'', JStr (sa_title a)), (''summary'', JStr (sa_summary a))]
      @ opt_arr ''decisions'' (str_list (sa_decisions a)) @ opt_arr ''lessons'' (str_list (sa_lessons a))
      @ opt_arr ''code_references'' (map enc_reference (sa_code_references a))
      @ opt_arr ''related'' (str_list (sa_related a))
      @ opt_arr ''skill_invocations'' (map enc_invocation (sa_invocations a)))"

definition dec_session_artifact :: "json \<Rightarrow> session_artifact option" where
  "dec_session_artifact j =
     (case j of
        JNull \<Rightarrow> Some zero_session_artifact
      | JObj kvs \<Rightarrow>
          (case (str_field ''title'' kvs, str_field ''summary'' kvs,
                 dec_slice str_elem [] (field_values ''decisions'' kvs),
                 dec_slice str_elem [] (field_values ''lessons'' kvs),
                 dec_slice (elem zero_reference dec_reference) [] (field_values ''code_references'' kvs),
                 dec_slice str_elem [] (field_values ''related'' kvs),
                 dec_slice (elem zero_invocation dec_invocation) []
                   (field_values ''skill_invocations'' kvs))
           of (Some t, Some s, Some de, Some le, Some cr, Some re, Some sk) \<Rightarrow>
             Some \<lparr>sa_title = t, sa_summary = s, sa_decisions = de, sa_lessons = le,
               sa_code_references = cr, sa_related = re, sa_invocations = sk\<rparr>
           | _ \<Rightarrow> None)
      | _ \<Rightarrow> None)"

record session_diary =
  sd_session_id :: string
  sd_key :: string
  sd_repository_id :: string
  sd_commit_sha :: string
  sd_artifact_hash :: string
  sd_author :: string
  sd_runtime :: string
  sd_created_at :: int
  sd_title :: string
  sd_summary :: string
  sd_decisions :: "string list"
  sd_lessons :: "string list"
  sd_code_references :: "code_reference list"
  sd_related :: "string list"
  sd_graph_snapshot_id :: string
  sd_graph_state :: string
  sd_invocations :: "invocation_record list"

definition zero_diary :: session_diary where
  "zero_diary = \<lparr>sd_session_id = [], sd_key = [], sd_repository_id = [], sd_commit_sha = [],
     sd_artifact_hash = [], sd_author = [], sd_runtime = [], sd_created_at = 0, sd_title = [],
     sd_summary = [], sd_decisions = [], sd_lessons = [], sd_code_references = [],
     sd_related = [], sd_graph_snapshot_id = [], sd_graph_state = [], sd_invocations = []\<rparr>"

definition enc_diary :: "session_diary \<Rightarrow> json" where
  "enc_diary d = JObj
     ([(''session_id'', JStr (sd_session_id d)), (''idempotency_key'', JStr (sd_key d)),
       (''repository_id'', JStr (sd_repository_id d)), (''commit_sha'', JStr (sd_commit_sha d)),
       (''artifact_hash'', JStr (sd_artifact_hash d)), (''author'', JStr (sd_author d))]
      @ opt_str ''runtime'' (sd_runtime d)
      @ [(''created_at'', JTime (sd_created_at d)), (''title'', JStr (sd_title d)),
         (''summary'', JStr (sd_summary d))]
      @ opt_arr ''decisions'' (str_list (sd_decisions d)) @ opt_arr ''lessons'' (str_list (sd_lessons d))
      @ opt_arr ''code_references'' (map enc_reference (sd_code_references d))
      @ opt_arr ''related'' (str_list (sd_related d))
      @ opt_str ''graph_snapshot_id'' (sd_graph_snapshot_id d)
      @ opt_str ''graph_state'' (sd_graph_state d)
      @ opt_arr ''skill_invocations'' (map enc_invocation (sd_invocations d)))"

text \<open>\<open>json.Unmarshal\<close> over a diary that may already hold values.\<close>

definition dec_diary_fields :: "(string \<times> json) list \<Rightarrow> session_diary \<Rightarrow> session_diary option" where
  "dec_diary_fields kvs d =
     (case (dec_string (sd_session_id d) (field_values ''session_id'' kvs),
            dec_string (sd_key d) (field_values ''idempotency_key'' kvs),
            dec_string (sd_repository_id d) (field_values ''repository_id'' kvs),
            dec_string (sd_commit_sha d) (field_values ''commit_sha'' kvs),
            dec_string (sd_artifact_hash d) (field_values ''artifact_hash'' kvs),
            dec_string (sd_author d) (field_values ''author'' kvs),
            dec_string (sd_runtime d) (field_values ''runtime'' kvs),
            dec_time (sd_created_at d) (field_values ''created_at'' kvs))
      of (Some si, Some k, Some r, Some c, Some ah, Some au, Some rt, Some t) \<Rightarrow>
        (case (dec_string (sd_title d) (field_values ''title'' kvs),
               dec_string (sd_summary d) (field_values ''summary'' kvs),
               dec_slice str_elem (sd_decisions d) (field_values ''decisions'' kvs),
               dec_slice str_elem (sd_lessons d) (field_values ''lessons'' kvs),
               dec_slice (elem zero_reference dec_reference) (sd_code_references d)
                 (field_values ''code_references'' kvs))
         of (Some ti, Some su, Some de, Some le, Some cr) \<Rightarrow>
           (case (dec_slice str_elem (sd_related d) (field_values ''related'' kvs),
                  dec_string (sd_graph_snapshot_id d) (field_values ''graph_snapshot_id'' kvs),
                  dec_string (sd_graph_state d) (field_values ''graph_state'' kvs),
                  dec_slice (elem zero_invocation dec_invocation) (sd_invocations d)
                    (field_values ''skill_invocations'' kvs))
            of (Some re, Some gi, Some gs, Some sk) \<Rightarrow>
              Some \<lparr>sd_session_id = si, sd_key = k, sd_repository_id = r, sd_commit_sha = c,
                sd_artifact_hash = ah, sd_author = au, sd_runtime = rt, sd_created_at = t,
                sd_title = ti, sd_summary = su, sd_decisions = de, sd_lessons = le,
                sd_code_references = cr, sd_related = re, sd_graph_snapshot_id = gi,
                sd_graph_state = gs, sd_invocations = sk\<rparr>
            | _ \<Rightarrow> None)
         | _ \<Rightarrow> None)
      | _ \<Rightarrow> None)"

definition dec_diary :: "json \<Rightarrow> session_diary option" where
  "dec_diary j = elem zero_diary dec_diary_fields j"

section \<open>Round trips\<close>

lemma session_names [simp]:
  "fold_case ''commit_sha'' = ''commit_sha''" "fold_case ''path'' = ''path''"
  "fold_case ''symbol'' = ''symbol''" "fold_case ''kind'' = ''kind''"
  "fold_case ''confidence'' = ''confidence''"
  "fold_case ''graph_snapshot_id'' = ''graph_snapshot_id''"
  "fold_case ''source_id'' = ''source_id''" "fold_case ''name'' = ''name''"
  "fold_case ''package_hash'' = ''package_hash''" "fold_case ''decisions'' = ''decisions''"
  "fold_case ''lessons'' = ''lessons''" "fold_case ''sha256'' = ''sha256''"
  "fold_case ''media_type'' = ''media_type''" "fold_case ''size_bytes'' = ''size_bytes''"
  "fold_case ''availability'' = ''availability''" "fold_case ''invocation_id'' = ''invocation_id''"
  "fold_case ''related_invocation_id'' = ''related_invocation_id''"
  "fold_case ''package_identity'' = ''package_identity''"
  "fold_case ''bundle_hash'' = ''bundle_hash''" "fold_case ''runtime'' = ''runtime''"
  "fold_case ''arguments'' = ''arguments''" "fold_case ''summary'' = ''summary''"
  "fold_case ''observations'' = ''observations''"
  "fold_case ''code_references'' = ''code_references''" "fold_case ''artifacts'' = ''artifacts''"
  "fold_case ''event_references'' = ''event_references''"
  "fold_case ''provenance'' = ''provenance''" "fold_case ''title'' = ''title''"
  "fold_case ''related'' = ''related''" "fold_case ''skill_invocations'' = ''skill_invocations''"
  "fold_case ''session_id'' = ''session_id''" "fold_case ''artifact_hash'' = ''artifact_hash''"
  "fold_case ''author'' = ''author''" "fold_case ''created_at'' = ''created_at''"
  "fold_case ''graph_state'' = ''graph_state''"
  by (rule fold_case_lower, code_simp)+

text \<open>What a value of type \<open>any\<close> becomes when it is written and decoded without \<open>UseNumber\<close>.\<close>

primrec float_any :: "goval \<Rightarrow> goval" where
  "float_any GNil = GNil"
| "float_any (GBool b) = GBool b"
| "float_any (GFloat n) = GFloat n"
| "float_any (GNumber n) = GFloat n"
| "float_any (GStr s) = GStr s"
| "float_any (GList xs) = GList (map float_any xs)"
| "float_any (GMap kvs) = GMap (map (map_prod id float_any) kvs)"

lemma any_of_json_float: "normal_any g \<Longrightarrow> any_of_json False (json_of_any g) = float_any g"
proof (induction g)
  case (GMap kvs)
  have "map (map_prod (\<lambda>x. x) (\<lambda>x. any_of_json False (json_of_any x))) kvs
      = map (map_prod (\<lambda>x. x) float_any) kvs"
    using GMap by (intro map_cong) (force simp: list_all_iff)+
  with GMap.prems show ?case
    by (simp add: map_prod.compositionality comp_def id_def map_build_sorted)
qed (auto simp: list_all_iff)

definition stored_arguments :: "(string \<times> goval) list option \<Rightarrow> (string \<times> goval) list option" where
  "stored_arguments m =
     (case m of None \<Rightarrow> None
      | Some kvs \<Rightarrow> if kvs = [] then None else Some (map (map_prod id float_any) kvs))"

definition arguments_ok :: "(string \<times> goval) list option \<Rightarrow> bool" where
  "arguments_ok m = (case m of None \<Rightarrow> True | Some kvs \<Rightarrow> normal_any (GMap kvs))"

lemma dec_args_enc:
  assumes "arguments_ok m"
  shows "dec_args False None (field_values ''arguments'' (opt_args ''arguments'' m))
     = Some (stored_arguments m)"
proof (cases m)
  case None
  then show ?thesis by (simp add: opt_args_def stored_arguments_def)
next
  case (Some kvs)
  have build: "fold (\<lambda>kv. map_put (fst kv) (any_of_json False (snd kv))) js []
      = map_build (map (map_prod id (any_of_json False)) js)" for js
    unfolding map_build_def fold_map by (simp add: comp_def case_prod_beta map_prod_def)
  from assms Some have "any_of_json False (json_of_any (GMap kvs)) = float_any (GMap kvs)"
    by (intro any_of_json_float) (simp add: arguments_ok_def)
  then have "map_build (map (map_prod id (any_of_json False)) (map (map_prod id json_of_any) kvs))
      = map (map_prod id float_any) kvs" by simp
  with Some show ?thesis
    by (cases "kvs = []") (simp_all add: opt_args_def stored_arguments_def build)
qed

lemma dec_args_enc_simp [simp]:
  "arguments_ok m \<Longrightarrow> dec_args False None (field_values ''arguments'' (opt_args ''arguments'' m))
     = Some (stored_arguments m)"
  by (rule dec_args_enc)

lemma dec_enc_reference [simp]: "elem zero_reference dec_reference (enc_reference r) = Some r"
  by (simp add: elem_def dec_reference_def enc_reference_def zero_reference_def equal_fold_def)

lemma dec_enc_identity: "\<exists>kvs. enc_identity i = JObj kvs \<and> dec_identity kvs zero_identity = Some i"
  by (simp add: enc_identity_def dec_identity_def zero_identity_def equal_fold_def)

lemma dec_struct_identity [simp]: "dec_struct dec_identity zero_identity [enc_identity i] = Some i"
  using dec_enc_identity [of i] by auto

lemma dec_struct_observation [simp]:
  "dec_struct dec_observation zero_observation [enc_observation ob] = Some ob"
  by (simp add: enc_observation_def dec_observation_def zero_observation_def equal_fold_def)

definition artifact_ok :: "invocation_artifact \<Rightarrow> bool" where
  "artifact_ok a = int64 (ia_size_bytes a)"

lemma dec_enc_artifact [simp]:
  "artifact_ok a \<Longrightarrow> elem zero_artifact dec_artifact (enc_artifact a) = Some a"
  by (simp add: elem_def dec_artifact_def enc_artifact_def zero_artifact_def artifact_ok_def
      int64_def equal_fold_def)

definition invocation_ok :: "invocation_record \<Rightarrow> bool" where
  "invocation_ok r =
     (int64 (ir_schema_version r) \<and> arguments_ok (ir_arguments r)
      \<and> list_all artifact_ok (ir_artifacts r))"

definition stored_invocation :: "invocation_record \<Rightarrow> invocation_record" where
  "stored_invocation r = r\<lparr>ir_arguments := stored_arguments (ir_arguments r)\<rparr>"

lemma dec_all_references [simp]:
  "dec_all (elem zero_reference dec_reference) (map enc_reference rs) = Some rs"
  by (rule dec_all_map) simp

lemma dec_all_artifacts:
  "list_all artifact_ok as \<Longrightarrow> dec_all (elem zero_artifact dec_artifact) (map enc_artifact as) = Some as"
  by (rule dec_all_map) (simp add: list_all_iff)

lemma dec_enc_invocation:
  assumes "invocation_ok r"
  shows "elem zero_invocation dec_invocation (enc_invocation r) = Some (stored_invocation r)"
proof -
  have "int64 (ir_schema_version r)" "arguments_ok (ir_arguments r)"
    "dec_all (elem zero_artifact dec_artifact) (map enc_artifact (ir_artifacts r)) = Some (ir_artifacts r)"
    using assms dec_all_artifacts by (auto simp: invocation_ok_def)
  then show ?thesis
    by (simp add: elem_def dec_invocation_def enc_invocation_def zero_invocation_def equal_fold_def
        int64_def stored_invocation_def)
qed

lemma dec_all_invocations:
  "list_all invocation_ok rs \<Longrightarrow>
     dec_all (elem zero_invocation dec_invocation) (map enc_invocation rs)
     = Some (map stored_invocation rs)"
  by (induction rs) (simp_all add: dec_enc_invocation)

lemma dec_opt_arr_map:
  "equal_fold k name \<Longrightarrow> dec_all f js = Some xs \<Longrightarrow>
     dec_slice f [] (field_values name (opt_arr k js)) = Some xs"
  by (rule dec_opt_arr)

definition stored_diary :: "session_diary \<Rightarrow> session_diary" where
  "stored_diary d = d\<lparr>sd_invocations := map stored_invocation (sd_invocations d)\<rparr>"

definition diary_ok :: "session_diary \<Rightarrow> bool" where
  "diary_ok d = list_all invocation_ok (sd_invocations d)"

lemma dec_enc_diary:
  assumes "diary_ok d"
  shows "dec_diary (enc_diary d) = Some (stored_diary d)"
proof -
  have "dec_all (elem zero_invocation dec_invocation) (map enc_invocation (sd_invocations d))
      = Some (map stored_invocation (sd_invocations d))"
    using assms by (simp add: diary_ok_def dec_all_invocations)
  then show ?thesis
    by (simp add: dec_diary_def elem_def dec_diary_fields_def enc_diary_def zero_diary_def
        stored_diary_def equal_fold_def)
qed

end
