(* ===== verification/Skill_Arguments.thy ===== *)
theory Skill_Arguments
  imports Go_Runtime
begin

text \<open>
  \<open>core/skill_arguments.go\<close>: the approved subset of JSON Schema, its strict decoding, and the
  validation of arguments against it. The code walks Go maps in random order, the model in
  key order: only which of several errors is reported depends on it. A number literal that is
  an integer becomes a \<open>float64\<close> here by rounding to 53 bits; \<open>strconv.ParseFloat\<close> on a literal with a
  fraction or an exponent is the parameter \<open>lit\<close>, which gives the float \<open>m * 2 ^ e\<close> as \<open>(m, e)\<close>.
\<close>

section \<open>Floats\<close>

fun bit_length :: "nat \<Rightarrow> nat" where
  "bit_length n = (if n = 0 then 0 else Suc (bit_length (n div 2)))"

declare bit_length.simps [simp del]

text \<open>\<open>float64(i)\<close>: the nearest integer with 53 significant bits, ties to even.\<close>

definition float_of_int :: "int \<Rightarrow> int" where
  "float_of_int i =
     (let n = nat \<bar>i\<bar>; k = bit_length n - 53; m = n div 2 ^ k; r = n mod 2 ^ k;
          m' = (if 2 ^ k < 2 * r \<or> 2 * r = 2 ^ k \<and> odd m then m + 1 else m)
      in sgn i * int (m' * 2 ^ k))"

type_synonym float64 = "int \<times> int"

definition int_below :: "int \<Rightarrow> float64 \<Rightarrow> bool" where
  "int_below i f = (case f of (m, e) \<Rightarrow>
     if 0 \<le> e then float_of_int i < m * 2 ^ nat e else float_of_int i * 2 ^ nat (- e) < m)"

definition int_above :: "int \<Rightarrow> float64 \<Rightarrow> bool" where
  "int_above i f = (case f of (m, e) \<Rightarrow>
     if 0 \<le> e then m * 2 ^ nat e < float_of_int i else m < float_of_int i * 2 ^ nat (- e))"

definition parse_float :: "(string \<Rightarrow> float64 option) \<Rightarrow> number \<Rightarrow> float64 option" where
  "parse_float lit n =
     (case n of
        NInt i \<Rightarrow> if \<bar>i\<bar> < 2 ^ 1024 - 2 ^ 970 then Some (float_of_int i, 0) else None
      | NLit s \<Rightarrow> lit s)"

section \<open>Schemas\<close>

datatype arg_schema = Schema
  (sc_type: string)
  (sc_properties: "(string \<times> arg_schema) list option")
  (sc_required: "string list")
  (sc_items: "arg_schema option")
  (sc_enum: "goval list")
  (sc_min_length: "int option")
  (sc_max_length: "int option")
  (sc_min_items: "int option")
  (sc_max_items: "int option")
  (sc_minimum: "float64 option")
  (sc_maximum: "float64 option")

definition allowed_types :: "string list" where
  "allowed_types = [''object'', ''string'', ''boolean'', ''integer'', ''array'']"

definition schema_keywords :: "string list" where
  "schema_keywords = [''type'', ''properties'', ''required'', ''items'', ''enum'', ''minLength'',
     ''maxLength'', ''minItems'', ''maxItems'', ''minimum'', ''maximum'']"

fun dec_opt_int :: "int option \<Rightarrow> json list \<Rightarrow> int option option" where
  "dec_opt_int d [] = Some d"
| "dec_opt_int d (JNull # vs) = dec_opt_int None vs"
| "dec_opt_int d (JNum (NInt i) # vs) =
     (if - (2 ^ 63) \<le> i \<and> i < 2 ^ 63 then dec_opt_int (Some i) vs else None)"
| "dec_opt_int d (_ # vs) = None"

fun dec_opt_float ::
  "(string \<Rightarrow> float64 option) \<Rightarrow> float64 option \<Rightarrow> json list \<Rightarrow> float64 option option" where
  "dec_opt_float lit d [] = Some d"
| "dec_opt_float lit d (JNull # vs) = dec_opt_float lit None vs"
| "dec_opt_float lit d (JNum n # vs) =
     (case parse_float lit n of None \<Rightarrow> None | Some f \<Rightarrow> dec_opt_float lit (Some f) vs)"
| "dec_opt_float lit d (_ # vs) = None"

definition dec_str_item :: "json \<Rightarrow> string option" where
  "dec_str_item j = dec_string [] [j]"

definition zero_schema :: arg_schema where
  "zero_schema = Schema [] None [] None [] None None None None None None"

lemma size_field_value:
  "v \<in> set (field_values n kvs) \<Longrightarrow> size v < Suc (size_list (size_prod (\<lambda>x. 0) size) kvs)"
proof -
  assume "v \<in> set (field_values n kvs)"
  then obtain k where "(k, v) \<in> set kvs" by (auto simp: field_values_def)
  then have "size v < size_list (size_prod (\<lambda>x. 0) size) kvs"
    by (induction kvs) auto
  then show ?thesis by simp
qed

lemma size_member: "kv \<in> set kvs \<Longrightarrow> size (snd kv) < Suc (size_list (size_prod (\<lambda>x. 0) size) kvs)"
  by (induction kvs) auto

text \<open>Every element, or \<^term>\<open>None\<close> if one fails.\<close>

fun all_some :: "'a option list \<Rightarrow> 'a list option" where
  "all_some [] = Some []"
| "all_some (None # xs) = None"
| "all_some (Some x # xs) = map_option (Cons x) (all_some xs)"

text \<open>
  The strict decoder, over the value already there. Keywords match without case, so a
  keyword can have several values: a map gains the entries of each of its values, each decoded
  over the zero schema; \<open>items\<close> decodes each of its values over the former one.
\<close>

function dec_schema ::
  "(string \<Rightarrow> float64 option) \<Rightarrow> arg_schema \<Rightarrow> json \<Rightarrow> arg_schema option"
where
  "dec_schema lit d j =
     (case j of
        JNull \<Rightarrow> Some d
      | JObj kvs \<Rightarrow>
          if \<not> list_all (\<lambda>kv. list_ex (equal_fold (fst kv)) schema_keywords) kvs then None
          else
          (let props = fold (\<lambda>v acc. case acc of None \<Rightarrow> None | Some ps \<Rightarrow>
                  (case v of
                     JNull \<Rightarrow> Some None
                   | JObj fs \<Rightarrow>
                       (case all_some (map (\<lambda>kv. map_option (Pair (fst kv)) (dec_schema lit zero_schema (snd kv))) fs) of
                          None \<Rightarrow> None
                        | Some ss \<Rightarrow> Some (Some (fold (\<lambda>(k, s). map_put k s) ss
                            (case ps of None \<Rightarrow> [] | Some m \<Rightarrow> m))))
                   | _ \<Rightarrow> None)) (field_values ''properties'' kvs) (Some (sc_properties d));
               items = fold (\<lambda>v acc. case acc of None \<Rightarrow> None | Some it \<Rightarrow>
                  (if v = JNull then Some None
                   else map_option Some (dec_schema lit (case it of None \<Rightarrow> zero_schema | Some s \<Rightarrow> s) v)))
                  (field_values ''items'' kvs) (Some (sc_items d))
           in case (dec_string (sc_type d) (field_values ''type'' kvs), props,
                    dec_slice dec_str_item (sc_required d) (field_values ''required'' kvs), items,
                    dec_slice (\<lambda>v. Some (any_of_json True v)) (sc_enum d) (field_values ''enum'' kvs))
              of (Some ty, Some ps, Some rq, Some it, Some en) \<Rightarrow>
                (case (dec_opt_int (sc_min_length d) (field_values ''minLength'' kvs),
                       dec_opt_int (sc_max_length d) (field_values ''maxLength'' kvs),
                       dec_opt_int (sc_min_items d) (field_values ''minItems'' kvs),
                       dec_opt_int (sc_max_items d) (field_values ''maxItems'' kvs),
                       dec_opt_float lit (sc_minimum d) (field_values ''minimum'' kvs),
                       dec_opt_float lit (sc_maximum d) (field_values ''maximum'' kvs))
                 of (Some a, Some b, Some c, Some e, Some f, Some g) \<Rightarrow>
                      Some (Schema ty ps rq it en a b c e f g)
                  | _ \<Rightarrow> None)
               | _ \<Rightarrow> None)
      | _ \<Rightarrow> None)"
  by pat_completeness auto
termination
  by (relation "measure (\<lambda>(lit, d, j). size j)")
    (auto dest!: size_field_value size_member)

declare dec_schema.simps [simp del]

section \<open>Accepting a schema\<close>

definition schema_invalid :: "string \<Rightarrow> err" where
  "schema_invalid t = GoErr [ErrSkillArgumentsSchemaInvalid]
     (''skill package declares an arguments schema outside the approved subset: '' @ t)"

fun first_err :: "('a \<Rightarrow> err option) \<Rightarrow> 'a list \<Rightarrow> err option" where
  "first_err f [] = None"
| "first_err f (x # xs) = (case f x of Some e \<Rightarrow> Some e | None \<Rightarrow> first_err f xs)"

lemma first_err_cong [fundef_cong]:
  "xs = ys \<Longrightarrow> (\<And>x. x \<in> set ys \<Longrightarrow> f x = g x) \<Longrightarrow> first_err f xs = first_err g ys"
proof -
  have "(\<And>x. x \<in> set ys \<Longrightarrow> f x = g x) \<Longrightarrow> first_err f ys = first_err g ys"
    by (induction ys) (auto split: option.splits)
  then show "xs = ys \<Longrightarrow> (\<And>x. x \<in> set ys \<Longrightarrow> f x = g x) \<Longrightarrow> first_err f xs = first_err g ys"
    by blast
qed

lemma first_err_None [simp]: "first_err f xs = None \<longleftrightarrow> (\<forall>x \<in> set xs. f x = None)"
  by (induction xs) (auto split: option.splits)

definition schema_members :: "arg_schema \<Rightarrow> (string \<times> arg_schema) list" where
  "schema_members s = (case sc_properties s of None \<Rightarrow> [] | Some ps \<Rightarrow> ps)"

lemma size_schema_member: "kp \<in> set (schema_members s) \<Longrightarrow> size (snd kp) < size s"
proof -
  have "kp \<in> set ps \<Longrightarrow> size (snd kp) < Suc (size_list (size_prod (\<lambda>x. 0) size) ps)" for ps :: "(string \<times> arg_schema) list"
    by (induction ps) auto
  then show "kp \<in> set (schema_members s) \<Longrightarrow> size (snd kp) < size s"
    by (cases s) (fastforce simp: schema_members_def split: option.splits)
qed

function validate_schema_shape :: "string \<Rightarrow> arg_schema \<Rightarrow> err option" where
  "validate_schema_shape path s =
     (if sc_type s \<notin> set allowed_types
      then Some (schema_invalid (path @ '' declares unsupported type '' @ go_quote (sc_type s)))
      else if sc_type s = ''array'' then
        (case sc_items s of
           None \<Rightarrow> Some (schema_invalid (path @ '' is an array and requires items''))
         | Some it \<Rightarrow> validate_schema_shape (path @ ''[]'') it)
      else if sc_type s = ''object'' then
        first_err (\<lambda>kp. validate_schema_shape (path @ ''.'' @ fst kp) (snd kp)) (schema_members s)
      else if sc_items s \<noteq> None \<or> schema_members s \<noteq> []
      then Some (schema_invalid (path @ '' has type '' @ go_quote (sc_type s)
             @ '' and must not declare items or properties''))
      else None)"
  by pat_completeness auto
termination
proof (relation "measure (\<lambda>(path, s). size s)")
  fix path s it
  assume "sc_items s = Some it"
  then show "((path @ ''[]'', it), path, s) \<in> measure (\<lambda>(path, s). size s)"
    by (cases s) auto
qed (auto dest: size_schema_member)

declare validate_schema_shape.simps [simp del]

primrec set_schema_type :: "string \<Rightarrow> arg_schema \<Rightarrow> arg_schema" where
  "set_schema_type t (Schema ty ps rq it en a b c d e f) = Schema t ps rq it en a b c d e f"

definition parse_schema ::
  "(string \<Rightarrow> float64 option) \<Rightarrow> (string \<times> goval) list \<Rightarrow> arg_schema option res"
where
  "parse_schema lit raw =
     (if raw = [] then Inr None
      else
     (case dec_schema lit zero_schema (json_of_any (GMap raw)) of
        None \<Rightarrow> Inl (schema_invalid ''invalid schema'')
      | Some d \<Rightarrow>
          (let s = (if sc_type d = [] then set_schema_type ''object'' d else d) in
           if sc_type s \<noteq> ''object''
           then Inl (schema_invalid (''root schema type must be \"object\", got '' @ go_quote (sc_type s)))
           else (case validate_schema_shape ''arguments'' s of
                   Some e \<Rightarrow> Inl e
                 | None \<Rightarrow> Inr (Some s)))))"

section \<open>Validating arguments\<close>

definition args_invalid :: "string \<Rightarrow> err" where
  "args_invalid t = GoErr [ErrSkillArgumentsInvalid]
     (''skill invocation arguments do not satisfy the declared arguments schema: '' @ t)"

definition validate_enum :: "string \<Rightarrow> goval list \<Rightarrow> goval \<Rightarrow> err option" where
  "validate_enum path en v =
     (if en = [] \<or> v \<in> set en then None
      else Some (args_invalid (path @ '' is not one of the declared enum values'')))"

text \<open>\<open>number.Int64()\<close>: a literal with a fraction or an exponent is not an integer.\<close>

definition int64_of :: "number \<Rightarrow> int option" where
  "int64_of n =
     (case n of NInt i \<Rightarrow> if - (2 ^ 63) \<le> i \<and> i < 2 ^ 63 then Some i else None | NLit s \<Rightarrow> None)"

text \<open>The checks of \<open>validateSkillArgumentObject\<close>, given the validation of a field's value.\<close>

definition validate_object_with ::
  "(string \<Rightarrow> arg_schema \<Rightarrow> goval \<Rightarrow> err option) \<Rightarrow> string \<Rightarrow> arg_schema \<Rightarrow> (string \<times> goval) list \<Rightarrow> err option"
where
  "validate_object_with check path s kvs =
     (case first_err (\<lambda>r. if r \<in> fst ` set kvs then None
                          else Some (args_invalid (path @ ''.'' @ r @ '' is required''))) (sc_required s) of
        Some e \<Rightarrow> Some e
      | None \<Rightarrow>
          first_err (\<lambda>kv. case map_of (schema_members s) (fst kv) of
              None \<Rightarrow> Some (args_invalid (path @ ''.'' @ fst kv @ '' is not declared by the arguments schema''))
            | Some p \<Rightarrow> check (path @ ''.'' @ fst kv) p (snd kv)) kvs)"

lemma validate_object_cong [fundef_cong]:
  assumes "path = path'" "s = s'" "kvs = kvs'"
    "\<And>q p kv. kv \<in> set kvs' \<Longrightarrow> check q p (snd kv) = check' q p (snd kv)"
  shows "validate_object_with check path s kvs = validate_object_with check' path' s' kvs'"
proof -
  have "first_err (\<lambda>kv. case map_of (schema_members s') (fst kv) of
              None \<Rightarrow> Some (args_invalid (path' @ ''.'' @ fst kv @ '' is not declared by the arguments schema''))
            | Some p \<Rightarrow> check (path' @ ''.'' @ fst kv) p (snd kv)) kvs'
      = first_err (\<lambda>kv. case map_of (schema_members s') (fst kv) of
              None \<Rightarrow> Some (args_invalid (path' @ ''.'' @ fst kv @ '' is not declared by the arguments schema''))
            | Some p \<Rightarrow> check' (path' @ ''.'' @ fst kv) p (snd kv)) kvs'"
    by (rule first_err_cong) (auto split: option.split simp: assms(4))
  then show ?thesis unfolding validate_object_with_def assms(1,2,3) by (rule arg_cong)
qed

text \<open>A bound that is declared and broken.\<close>

definition exceeded :: "('b \<Rightarrow> bool) \<Rightarrow> 'b option \<Rightarrow> bool" where
  "exceeded f bound = (case bound of None \<Rightarrow> False | Some b \<Rightarrow> f b)"

lemma size_goval_member:
  "kv \<in> set kvs \<Longrightarrow> size (snd kv) < Suc (size_list (size_prod (\<lambda>x. 0) size) kvs)" for kvs :: "(string \<times> goval) list"
  by (induction kvs) auto

lemma size_goval_element:
  "iv \<in> set (enumerate n vs) \<Longrightarrow> size (snd iv) < Suc (size_list size vs)" for vs :: "goval list"
proof -
  have el: "v \<in> set vs \<Longrightarrow> size v < Suc (size_list size vs)" for v and vs :: "goval list"
    by (induction vs) auto
  then show "iv \<in> set (enumerate n vs) \<Longrightarrow> size (snd iv) < Suc (size_list size vs)"
    by (cases iv) (auto simp: enumerate_eq_zip intro!: el dest: set_zip_rightD)
qed

function validate_value :: "string \<Rightarrow> arg_schema \<Rightarrow> goval \<Rightarrow> err option" where
  "validate_value path s v =
     (if sc_type s = ''object'' then
        (case v of
           GMap kvs \<Rightarrow>
             (case (if sc_properties s = None then None
                    else validate_object_with validate_value path s kvs) of
                Some e \<Rightarrow> Some e
              | None \<Rightarrow> validate_enum path (sc_enum s) v)
         | _ \<Rightarrow> Some (args_invalid (path @ '' must be an object'')))
      else if sc_type s = ''string'' then
        (case v of
           GStr t \<Rightarrow>
             if exceeded (\<lambda>b. int (length t) < b) (sc_min_length s)
             then Some (args_invalid (path @ '' is shorter than the declared minimum length''))
             else if exceeded (\<lambda>b. b < int (length t)) (sc_max_length s)
             then Some (args_invalid (path @ '' exceeds the declared maximum length''))
             else validate_enum path (sc_enum s) v
         | _ \<Rightarrow> Some (args_invalid (path @ '' must be a string'')))
      else if sc_type s = ''boolean'' then
        (case v of
           GBool b \<Rightarrow> validate_enum path (sc_enum s) v
         | _ \<Rightarrow> Some (args_invalid (path @ '' must be a boolean'')))
      else if sc_type s = ''integer'' then
        (case (case v of GNumber n \<Rightarrow> int64_of n | _ \<Rightarrow> None) of
           None \<Rightarrow> Some (args_invalid (path @ '' must be an integer''))
         | Some i \<Rightarrow>
             if exceeded (int_below i) (sc_minimum s)
             then Some (args_invalid (path @ '' is less than the declared minimum''))
             else if exceeded (int_above i) (sc_maximum s)
             then Some (args_invalid (path @ '' is greater than the declared maximum''))
             else validate_enum path (sc_enum s) v)
      else if sc_type s = ''array'' then
        (case v of
           GList vs \<Rightarrow>
             if exceeded (\<lambda>b. int (length vs) < b) (sc_min_items s)
             then Some (args_invalid (path @ '' has fewer than the declared minimum items''))
             else if exceeded (\<lambda>b. b < int (length vs)) (sc_max_items s)
             then Some (args_invalid (path @ '' has more than the declared maximum items''))
             else
             (case first_err (\<lambda>iv. case sc_items s of
                      None \<Rightarrow> Some (new_err ''panic: invalid memory address or nil pointer dereference'')
                    | Some it \<Rightarrow> validate_value (path @ ''['' @ nat_text (fst iv) @ '']'') it (snd iv))
                    (enumerate 0 vs) of
                Some e \<Rightarrow> Some e
              | None \<Rightarrow> validate_enum path (sc_enum s) v)
         | _ \<Rightarrow> Some (args_invalid (path @ '' must be an array'')))
      else Some (args_invalid (path @ '' declares unsupported type '' @ go_quote (sc_type s))))"
  by pat_completeness auto
termination
  by (relation "measure (\<lambda>(path, s, v). size v)")
    (simp_all add: size_goval_member size_goval_element)

declare validate_value.simps [simp del]

text \<open>The root is checked without its own \<open>enum\<close>; \<^term>\<open>None\<close> is the package without a schema.\<close>

definition validate_arguments :: "arg_schema option \<Rightarrow> (string \<times> goval) list \<Rightarrow> err option" where
  "validate_arguments so args =
     (case so of
        None \<Rightarrow>
          if args = [] then None
          else Some (args_invalid ''this skill declares no arguments schema; only an empty object is permitted'')
      | Some s \<Rightarrow> validate_object_with validate_value ''arguments'' s args)"


section \<open>What the schema accepts\<close>

text \<open>
  The values a schema admits, read off the documentation of the subset: the type, the closed world of
  declared fields, the required ones, the bounds and the enumeration. An object schema that
  declares no properties admits every object.
\<close>

definition in_enum :: "arg_schema \<Rightarrow> goval \<Rightarrow> bool" where
  "in_enum s v = (sc_enum s = [] \<or> v \<in> set (sc_enum s))"

definition within :: "('b \<Rightarrow> bool) \<Rightarrow> 'b option \<Rightarrow> bool" where
  "within f bound = (\<forall>b. bound = Some b \<longrightarrow> f b)"

inductive accepts :: "arg_schema \<Rightarrow> goval \<Rightarrow> bool" where
  open_object: "sc_type s = ''object'' \<Longrightarrow> sc_properties s = None \<Longrightarrow> in_enum s (GMap kvs) \<Longrightarrow>
     accepts s (GMap kvs)"
| closed_object: "sc_type s = ''object'' \<Longrightarrow> sc_properties s = Some ps \<Longrightarrow>
     set (sc_required s) \<subseteq> fst ` set kvs \<Longrightarrow>
     \<forall>kv \<in> set kvs. \<exists>p. map_of ps (fst kv) = Some p \<and> accepts p (snd kv) \<Longrightarrow>
     in_enum s (GMap kvs) \<Longrightarrow> accepts s (GMap kvs)"
| string_value: "sc_type s = ''string'' \<Longrightarrow> within (\<lambda>b. b \<le> int (length t)) (sc_min_length s) \<Longrightarrow>
     within (\<lambda>b. int (length t) \<le> b) (sc_max_length s) \<Longrightarrow> in_enum s (GStr t) \<Longrightarrow> accepts s (GStr t)"
| boolean_value: "sc_type s = ''boolean'' \<Longrightarrow> in_enum s (GBool b) \<Longrightarrow> accepts s (GBool b)"
| integer_value: "sc_type s = ''integer'' \<Longrightarrow> int64_of n = Some i \<Longrightarrow>
     within (\<lambda>f. \<not> int_below i f) (sc_minimum s) \<Longrightarrow> within (\<lambda>f. \<not> int_above i f) (sc_maximum s) \<Longrightarrow>
     in_enum s (GNumber n) \<Longrightarrow> accepts s (GNumber n)"
| array_value: "sc_type s = ''array'' \<Longrightarrow> within (\<lambda>b. b \<le> int (length vs)) (sc_min_items s) \<Longrightarrow>
     within (\<lambda>b. int (length vs) \<le> b) (sc_max_items s) \<Longrightarrow>
     \<forall>v \<in> set vs. \<exists>it. sc_items s = Some it \<and> accepts it v \<Longrightarrow>
     in_enum s (GList vs) \<Longrightarrow> accepts s (GList vs)"

inductive_simps accepts_object_simps: "accepts s (GMap kvs)"
inductive_simps accepts_string_simps: "accepts s (GStr t)"
inductive_simps accepts_boolean_simps: "accepts s (GBool b)"
inductive_simps accepts_number_simps: "accepts s (GNumber n)"
inductive_simps accepts_array_simps: "accepts s (GList vs)"
inductive_simps accepts_none_simps: "accepts s GNil" "accepts s (GFloat n)"

lemmas accepts_simps = accepts_object_simps accepts_string_simps accepts_boolean_simps
  accepts_number_simps accepts_array_simps accepts_none_simps

lemma exceeded_within: "exceeded f b \<longleftrightarrow> \<not> within (\<lambda>x. \<not> f x) b"
  by (auto simp: exceeded_def within_def split: option.splits)

lemma validate_enum_None [simp]: "validate_enum path (sc_enum s) v = None \<longleftrightarrow> in_enum s v"
  by (simp add: validate_enum_def in_enum_def)

lemma validate_object_None:
  "validate_object_with check path s kvs = None \<longleftrightarrow>
     set (sc_required s) \<subseteq> fst ` set kvs
     \<and> (\<forall>kv \<in> set kvs. \<exists>p. map_of (schema_members s) (fst kv) = Some p
                        \<and> check (path @ ''.'' @ fst kv) p (snd kv) = None)"
proof -
  let ?req = "first_err (\<lambda>r. if r \<in> fst ` set kvs then None
      else Some (args_invalid (path @ ''.'' @ r @ '' is required''))) (sc_required s)"
  have req: "?req = None \<longleftrightarrow> set (sc_required s) \<subseteq> fst ` set kvs" by auto
  have field: "(case m of None \<Rightarrow> Some e | Some p \<Rightarrow> f p) = None \<longleftrightarrow> (\<exists>p. m = Some p \<and> f p = None)"
    for m :: "arg_schema option" and e and f :: "arg_schema \<Rightarrow> err option"
    by (cases m) auto
  show ?thesis
  proof (cases ?req)
    case None
    with req have "set (sc_required s) \<subseteq> fst ` set kvs" by blast
    then show ?thesis
      unfolding validate_object_with_def None option.case first_err_None field by simp
  next
    case (Some e)
    with req show ?thesis by (simp add: validate_object_with_def)
  qed
qed

text \<open>A value of another kind than the schema's type is neither valid nor accepted.\<close>

fun kind_of :: "goval \<Rightarrow> string" where
  "kind_of (GMap kvs) = ''object''"
| "kind_of (GStr t) = ''string''"
| "kind_of (GBool b) = ''boolean''"
| "kind_of (GNumber n) = ''integer''"
| "kind_of (GList vs) = ''array''"
| "kind_of v = []"

lemma accepts_kind: "accepts s v \<Longrightarrow> sc_type s = kind_of v \<and> sc_type s \<in> set allowed_types"
  by (cases rule: accepts.cases) (auto simp: allowed_types_def)

lemma validate_kind: "sc_type s \<noteq> kind_of v \<Longrightarrow> validate_value path s v \<noteq> None"
  by (cases v; subst validate_value.simps; simp)

lemma validate_value_accepts: "validate_value path s v = None \<longleftrightarrow> accepts s v"
proof (induction path s v rule: validate_value.induct)
  case (1 path s v)
  show ?case
  proof (cases "sc_type s = kind_of v")
    case False
    with accepts_kind validate_kind show ?thesis by blast
  next
    case t: True
    show ?thesis
    proof (cases v)
      case (GMap kvs)
      show ?thesis
      proof (cases "sc_properties s")
        case None
        with t GMap show ?thesis by (simp add: validate_value.simps accepts_object_simps)
      next
        case (Some ps)
        have "\<forall>kv \<in> set kvs. \<forall>q p. validate_value q p (snd kv) = None \<longleftrightarrow> accepts p (snd kv)"
          using 1(1) t GMap Some by simp
        then have "validate_object_with validate_value path s kvs = None \<longleftrightarrow>
            set (sc_required s) \<subseteq> fst ` set kvs
            \<and> (\<forall>kv \<in> set kvs. \<exists>p. map_of ps (fst kv) = Some p \<and> accepts p (snd kv))"
          by (simp add: validate_object_None schema_members_def Some)
        with t GMap Some show ?thesis
          by (auto simp: validate_value.simps accepts_object_simps split: option.split)
      qed
    next
      case (GList vs)
      show ?thesis
      proof (cases "exceeded (\<lambda>b. int (length vs) < b) (sc_min_items s) \<or> exceeded (\<lambda>b. b < int (length vs)) (sc_max_items s)")
        case True
        with t GList show ?thesis
          by (auto simp: validate_value.simps accepts_array_simps exceeded_within not_less)
      next
        case bounds: False
        let ?item = "\<lambda>iv. case sc_items s of
            None \<Rightarrow> Some (new_err ''panic: invalid memory address or nil pointer dereference'')
          | Some it \<Rightarrow> validate_value (path @ ''['' @ nat_text (fst iv) @ '']'') it (snd iv)"
        have "?item iv = None \<longleftrightarrow> (\<exists>it. sc_items s = Some it \<and> accepts it (snd iv))"
          if "iv \<in> set (enumerate 0 vs)" for iv
          using 1(2) [of vs] t GList bounds that by (auto split: option.split)
        then have "first_err ?item (enumerate 0 vs) = None
            \<longleftrightarrow> (\<forall>iv \<in> set (enumerate 0 vs). \<exists>it. sc_items s = Some it \<and> accepts it (snd iv))"
          by simp
        also have "\<dots> \<longleftrightarrow> (\<forall>v \<in> snd ` set (enumerate 0 vs). \<exists>it. sc_items s = Some it \<and> accepts it v)"
          by simp
        also have "snd ` set (enumerate 0 vs) = set vs"
          by (metis list.set_map map_snd_enumerate)
        finally have items: "first_err ?item (enumerate 0 vs) = None
            \<longleftrightarrow> (\<forall>v \<in> set vs. \<exists>it. sc_items s = Some it \<and> accepts it v)" .
        have "validate_value path s v = None \<longleftrightarrow> first_err ?item (enumerate 0 vs) = None \<and> in_enum s v"
          using t GList bounds
          by (subst validate_value.simps, cases "first_err ?item (enumerate 0 vs)")
            (simp_all del: first_err_None)
        with items t GList bounds show ?thesis
          by (simp add: accepts_array_simps exceeded_within not_less)
      qed
    next
      case (GNumber n)
      with t show ?thesis
        by (auto simp: validate_value.simps accepts_number_simps exceeded_within split: option.split)
    qed (use t in \<open>simp_all add: validate_value.simps accepts_simps exceeded_within not_less\<close>)
  qed
qed

section \<open>Accepted schemas never go wrong\<close>

definition shaped :: "arg_schema \<Rightarrow> bool" where
  "shaped s = (validate_schema_shape [] s = None)"

lemma shape_path: "validate_schema_shape p s = None \<longleftrightarrow> validate_schema_shape q s = None"
proof (induction p s arbitrary: q rule: validate_schema_shape.induct)
  case (1 p s)
  show ?case
  proof (cases "sc_type s = ''array''")
    case True
    show ?thesis
    proof (cases "sc_items s")
      case None
      with True show ?thesis by (simp add: validate_schema_shape.simps [of p s] validate_schema_shape.simps [of q s])
    next
      case (Some it)
      with True 1(1) [of it "q @ ''[]''"] show ?thesis
        by (simp add: validate_schema_shape.simps [of p s] validate_schema_shape.simps [of q s] allowed_types_def)
    qed
  next
    case False
    have "validate_schema_shape (p @ ''.'' @ fst kp) (snd kp) = None
        \<longleftrightarrow> validate_schema_shape (q @ ''.'' @ fst kp) (snd kp) = None"
      if "kp \<in> set (schema_members s)" "sc_type s = ''object''" for kp
      using 1(2) [OF _ False that(2,1), of "q @ ''.'' @ fst kp"] that(2) by (simp add: allowed_types_def)
    with False show ?thesis
      by (auto simp: validate_schema_shape.simps [of p s] validate_schema_shape.simps [of q s])
  qed
qed

lemma shaped_at: "validate_schema_shape p s = None \<longleftrightarrow> shaped s"
  unfolding shaped_def by (rule shape_path)

lemma shapedD:
  assumes "shaped s"
  shows shaped_type: "sc_type s \<in> set allowed_types"
    and shaped_items: "sc_type s = ''array'' \<Longrightarrow> \<exists>it. sc_items s = Some it \<and> shaped it"
    and shaped_member: "sc_type s = ''object'' \<Longrightarrow> map_of (schema_members s) k = Some p \<Longrightarrow> shaped p"
proof -
  have n: "validate_schema_shape [] s = None" using assms by (simp add: shaped_def)
  then show "sc_type s \<in> set allowed_types"
    by (simp add: validate_schema_shape.simps [of "[]" s] split: if_splits)
  then show "sc_type s = ''array'' \<Longrightarrow> \<exists>it. sc_items s = Some it \<and> shaped it"
    using n by (auto simp: validate_schema_shape.simps [of "[]" s] shaped_at split: option.splits)
  show "sc_type s = ''object'' \<Longrightarrow> map_of (schema_members s) k = Some p \<Longrightarrow> shaped p"
    using n \<open>sc_type s \<in> set allowed_types\<close>
    by (auto simp: validate_schema_shape.simps [of "[]" s] shaped_at) (metis map_of_SomeD snd_conv)
qed

lemma parsed_schema_shaped: "parse_schema lit raw = Inr (Some s) \<Longrightarrow> shaped s \<and> sc_type s = ''object''"
  by (auto simp: parse_schema_def shaped_at Let_def split: if_splits option.splits)

lemma args_invalid_is [simp]: "errors_is (args_invalid t) ErrSkillArgumentsInvalid"
  by (simp add: args_invalid_def)

lemma first_err_Some: "first_err f xs = Some e \<Longrightarrow> \<exists>x \<in> set xs. f x = Some e"
  by (induction xs) (auto split: option.splits)

lemma validate_enum_is: "validate_enum path en v = Some e \<Longrightarrow> errors_is e ErrSkillArgumentsInvalid"
  by (auto simp: validate_enum_def split: if_splits)

lemma validate_object_is:
  assumes "validate_object_with check path s kvs = Some e"
    "\<And>kv p q. kv \<in> set kvs \<Longrightarrow> map_of (schema_members s) (fst kv) = Some p \<Longrightarrow>
       check q p (snd kv) = Some e \<Longrightarrow> errors_is e ErrSkillArgumentsInvalid"
  shows "errors_is e ErrSkillArgumentsInvalid"
  using assms(1) unfolding validate_object_with_def
  by (auto split: option.splits if_splits dest!: first_err_Some) (metis assms(2) fst_conv snd_conv)

lemma validate_value_is:
  "shaped s \<Longrightarrow> validate_value path s v = Some e \<Longrightarrow> errors_is e ErrSkillArgumentsInvalid"
proof (induction path s v arbitrary: e rule: validate_value.induct)
  case (1 path s v)
  have ty: "sc_type s \<in> set allowed_types" using 1(3) by (rule shaped_type)
  show ?case
  proof (cases "sc_type s = ''object'' \<or> sc_type s = ''array''")
    case False
    with 1(4) show ?thesis
      by (subst (asm) validate_value.simps)
        (auto split: if_splits goval.splits option.splits dest: validate_enum_is)
  next
    case True
    then show ?thesis
    proof
      assume t: "sc_type s = ''object''"
      show ?thesis
      proof (cases "\<exists>kvs. v = GMap kvs \<and> sc_properties s \<noteq> None \<and> validate_object_with validate_value path s kvs = Some e")
        case True
        then obtain kvs where v: "v = GMap kvs" "sc_properties s \<noteq> None"
          "validate_object_with validate_value path s kvs = Some e" by blast
        show ?thesis
        proof (rule validate_object_is [OF v(3)])
          fix kv p q
          assume "kv \<in> set kvs" "map_of (schema_members s) (fst kv) = Some p" "validate_value q p (snd kv) = Some e"
          moreover from this(2) have "shaped p" by (rule shaped_member [OF 1(3) t])
          ultimately show "errors_is e ErrSkillArgumentsInvalid"
            using 1(1) [OF t v(1,2)] by blast
        qed
      next
        case False
        with t 1(4) show ?thesis
          by (subst (asm) validate_value.simps)
            (auto split: if_splits goval.splits option.splits dest: validate_enum_is)
      qed
    next
      assume t: "sc_type s = ''array''"
      then obtain it where it: "sc_items s = Some it" "shaped it" using shaped_items [OF 1(3)] by blast
      show ?thesis
      proof (cases "\<exists>vs iv. v = GList vs \<and> \<not> exceeded (\<lambda>b. int (length vs) < b) (sc_min_items s)
          \<and> \<not> exceeded (\<lambda>b. b < int (length vs)) (sc_max_items s) \<and> iv \<in> set (enumerate 0 vs)
          \<and> validate_value (path @ ''['' @ nat_text (fst iv) @ '']'') it (snd iv) = Some e")
        case True
        with 1(2) t it show ?thesis by auto
      next
        case False
        with t it 1(4) show ?thesis
          by (subst (asm) validate_value.simps)
            (auto split: if_splits goval.splits option.splits dest: validate_enum_is dest!: first_err_Some)
      qed
    qed
  qed
qed

section \<open>Properties\<close>


definition no_floats :: "string \<Rightarrow> float64 option" where
  "no_floats s = None"

definition sample_raw :: "(string \<times> goval) list" where
  "sample_raw = [(''properties'', GMap [(''n'', GMap [(''maximum'', GNumber (NInt 9)), (''type'', GStr ''integer'')])]),
     (''required'', GList [GStr ''n''])]"

definition sample_schema :: arg_schema where
  "sample_schema = Schema ''object'' (Some [(''n'', Schema ''integer'' None [] None [] None None None None None (Some (9, 0)))])
     [''n''] None [] None None None None None None"

lemma parse_sample: "parse_schema no_floats sample_raw = Inr (Some sample_schema)"
  by code_simp


text \<open>A schema that the parser accepts is well shaped at every depth, so validating any
  arguments against it ends with success or with a reported argument error, never with the nil
  dereference of a missing item schema.\<close>

theorem validation_never_panics:
  assumes "parse_schema lit raw = Inr so" "validate_arguments so args = Some e"
  shows "errors_is e ErrSkillArgumentsInvalid"
proof (cases so)
  case None
  with assms(2) show ?thesis by (auto simp: validate_arguments_def split: if_splits)
next
  case (Some s)
  with assms parsed_schema_shaped have s: "shaped s" "sc_type s = ''object''" by auto
  from Some assms(2) have "validate_object_with validate_value ''arguments'' s args = Some e"
    by (simp add: validate_arguments_def)
  then show ?thesis
    by (rule validate_object_is) (blast intro: validate_value_is shaped_member [OF s])
qed

theorem validation_never_panics_witness:
  "validate_arguments (Some sample_schema) [(''n'', GList [])] \<noteq> None
   \<and> errors_is (the (validate_arguments (Some sample_schema) [(''n'', GList [])])) ErrSkillArgumentsInvalid"
proof -
  have n: "validate_arguments (Some sample_schema) [(''n'', GList [])] \<noteq> None" by code_simp
  then obtain e where e: "validate_arguments (Some sample_schema) [(''n'', GList [])] = Some e" by blast
  from validation_never_panics [OF parse_sample e] e n show ?thesis by simp
qed

text \<open>The requirements of a nested object are enforced only if it declares properties. A
  package that declares \<open>cfg\<close> as an object with the required field \<open>mode\<close>, and no properties, passes the
  schema check, and then the empty object and any undeclared field are accepted for \<open>cfg\<close>.\<close>

theorem nested_required_ignored:
  "\<exists>s. parse_schema lit
       [(''properties'', GMap [(''cfg'', GMap [(''required'', GList [GStr ''mode'']), (''type'', GStr ''object'')])])]
         = Inr (Some s)
     \<and> validate_arguments (Some s) [(''cfg'', GMap [])] = None
     \<and> validate_arguments (Some s) [(''cfg'', GMap [(''undeclared'', GBool True)])] = None"
proof -
  have p: "parse_schema lit
       [(''properties'', GMap [(''cfg'', GMap [(''required'', GList [GStr ''mode'']), (''type'', GStr ''object'')])])]
     = Inr (Some (Schema ''object''
         (Some [(''cfg'', Schema ''object'' None [''mode''] None [] None None None None None None)])
         [] None [] None None None None None None))"
    by code_simp
  show ?thesis
    by (rule exI, rule conjI [OF p]) code_simp
qed

end
