(* ===== verification/Skill_Catalog.thy ===== *)
theory Skill_Catalog
  imports Session_Model Skill_Arguments
begin

text \<open>
  \<open>core/skill.go\<close>: skill packages, the catalog with its two indexes and its aliases, and the
  preparation of immutable bundles by the in-memory port. The maps of the port are
  association lists; the copies the code takes of slices and maps are values here. The hash
  (\<open>sha\<close>), the source of random bytes (\<open>rand\<close>) and the float parser of the schemas (\<open>lit\<close>) are
  parameters. Two aliases that differ only in surrounding white space overwrite each other in
  key order here, in any order in Go.
\<close>

section \<open>Packages, requests, bundles\<close>

definition SkillSchemaVersion :: int where "SkillSchemaVersion = 1"
definition SkillReady :: string where "SkillReady = ''Ready''"
definition UnsupportedSkillPackage :: string where "UnsupportedSkillPackage = ''UnsupportedSkillPackage''"

record skill_asset =
  as_path :: string
  as_sha256 :: string
  as_media_type :: string

record skill_package =
  pk_schema_version :: int
  pk_identity :: package_identity
  pk_description :: string
  pk_license :: string
  pk_source_url :: string
  pk_source_revision :: string
  pk_instructions_path :: string
  pk_instructions :: string
  pk_assets :: "skill_asset list"
  pk_arguments_schema :: "(string \<times> goval) list"
  pk_runtimes :: "string list"

record catalog_entry =
  ce_state :: string
  ce_package :: skill_package
  ce_diagnostic :: string

definition zero_package :: skill_package where
  "zero_package = \<lparr>pk_schema_version = 0, pk_identity = zero_identity, pk_description = [], pk_license = [],
     pk_source_url = [], pk_source_revision = [], pk_instructions_path = [], pk_instructions = [],
     pk_assets = [], pk_arguments_schema = [], pk_runtimes = []\<rparr>"

definition zero_entry :: catalog_entry where
  "zero_entry = \<lparr>ce_state = [], ce_package = zero_package, ce_diagnostic = []\<rparr>"

record prepare_request =
  pr_name :: string
  pr_invocation_id :: string
  pr_runtime :: string
  pr_arguments :: "(string \<times> goval) list option"

record skill_invocation =
  si_id :: string
  si_identity :: package_identity
  si_bundle_hash :: string

record skill_bundle =
  sb_schema_version :: int
  sb_invocation_id :: string
  sb_identity :: package_identity
  sb_description :: string
  sb_instructions :: string
  sb_assets :: "skill_asset list"
  sb_runtimes :: "string list"
  sb_runtime :: string
  sb_arguments :: "(string \<times> goval) list option"
  sb_hash :: string

definition bundle_invocation :: "skill_bundle \<Rightarrow> skill_invocation" where
  "bundle_invocation b =
     \<lparr>si_id = sb_invocation_id b, si_identity = sb_identity b, si_bundle_hash = sb_hash b\<rparr>"

definition enc_asset :: "skill_asset \<Rightarrow> json" where
  "enc_asset a = JObj ([(''path'', JStr (as_path a)), (''sha256'', JStr (as_sha256 a))]
     @ opt_str ''media_type'' (as_media_type a))"

text \<open>\<open>SkillBundle.MarshalJSON\<close>.\<close>

definition enc_bundle :: "skill_bundle \<Rightarrow> json" where
  "enc_bundle b = JObj
     ([(''schema_version'', JNum (NInt (sb_schema_version b))), (''invocation_id'', JStr (sb_invocation_id b)),
       (''package_identity'', enc_identity (sb_identity b))]
      @ opt_str ''description'' (sb_description b)
      @ [(''instructions'', JStr (sb_instructions b))]
      @ opt_arr ''assets'' (map enc_asset (sb_assets b))
      @ opt_arr ''compatible_runtimes'' (str_list (sb_runtimes b))
      @ opt_str ''runtime'' (sb_runtime b) @ opt_args ''arguments'' (sb_arguments b)
      @ [(''bundle_hash'', JStr (sb_hash b))])"

section \<open>Copies\<close>

primrec clone_argument :: "goval \<Rightarrow> goval" where
  "clone_argument GNil = GNil"
| "clone_argument (GBool b) = GBool b"
| "clone_argument (GFloat n) = GFloat n"
| "clone_argument (GNumber n) = GNumber n"
| "clone_argument (GStr s) = GStr s"
| "clone_argument (GList xs) = GList (map clone_argument xs)"
| "clone_argument (GMap kvs) = GMap (map (map_prod id clone_argument) kvs)"

definition clone_arguments :: "(string \<times> goval) list option \<Rightarrow> (string \<times> goval) list option" where
  "clone_arguments m = map_option (map (map_prod id clone_argument)) m"

definition clone_aliases :: "(string \<times> string) list \<Rightarrow> (string \<times> string) list" where
  "clone_aliases as = map_build (map (\<lambda>(a, t). (trim_space a, trim_space t)) as)"

lemma clone_argument_id [simp]: "clone_argument g = g"
proof (induction g)
  case (GMap kvs)
  then have "map (map_prod id clone_argument) kvs = kvs"
    by (intro map_idI) (force simp: map_prod_def)
  then show ?case by simp
qed (simp_all add: map_idI)

lemma clone_arguments_id [simp]: "clone_arguments m = m"
proof -
  have "map_prod id clone_argument = (id :: string \<times> goval \<Rightarrow> _)" by (auto simp: fun_eq_iff)
  then show ?thesis by (simp add: clone_arguments_def option.map_id)
qed

section \<open>The catalog\<close>

definition validate_catalog_entry :: "catalog_entry \<Rightarrow> err option" where
  "validate_catalog_entry e =
     (let pkg = ce_package e; i = pk_identity pkg;
          source = trim_space (pi_source_id i); name = trim_space (pi_name i) in
      if source = [] \<or> name = [] then Some (new_err ''skill package source and name are required'')
      else if source \<noteq> pi_source_id i \<or> name \<noteq> pi_name i
      then Some (new_err ''skill package source and name must not contain surrounding whitespace'')
      else if ce_state e = UnsupportedSkillPackage then
        (if trim_space (ce_diagnostic e) = []
         then Some (new_err ''unsupported skill package diagnostic is required'') else None)
      else if ce_state e \<noteq> SkillReady then Some (new_err ''skill catalog entry state is invalid'')
      else if pk_schema_version pkg \<noteq> SkillSchemaVersion
      then Some (new_err ''skill package schema version must be 1'')
      else if length (pi_package_hash i) \<noteq> 64
      then Some (new_err ''skill package hash must be a SHA-256 hex digest'')
      else if \<not> list_all is_hex_char (pi_package_hash i)
      then Some (new_err ''skill package hash must be a SHA-256 hex digest'')
      else if trim_space (pk_instructions pkg) = []
      then Some (new_err ''ready skill package instructions are required'')
      else None)"

record skill_port =
  sp_entries :: "(string \<times> catalog_entry) list"
  sp_by_unqualified :: "(string \<times> string list) list"
  sp_aliases :: "(string \<times> string) list"

definition unqualified_matches :: "skill_port \<Rightarrow> string \<Rightarrow> string list" where
  "unqualified_matches p n = (case map_of (sp_by_unqualified p) n of None \<Rightarrow> [] | Some qs \<Rightarrow> qs)"

definition entry_name :: "catalog_entry \<Rightarrow> string" where
  "entry_name e = pi_name (pk_identity (ce_package e))"

definition entry_qualified :: "catalog_entry \<Rightarrow> string" where
  "entry_qualified e = qualified_name (pk_identity (ce_package e))"

fun add_entries :: "catalog_entry list \<Rightarrow> skill_port \<Rightarrow> skill_port res" where
  "add_entries [] p = Inr p"
| "add_entries (e # es) p =
     (case validate_catalog_entry e of
        Some er \<Rightarrow> Inl er
      | None \<Rightarrow>
          if map_of (sp_entries p) (entry_qualified e) \<noteq> None
          then Inl (new_err (''duplicate skill package '' @ go_quote (entry_qualified e)))
          else add_entries es (p\<lparr>
            sp_entries := map_put (entry_qualified e) e (sp_entries p),
            sp_by_unqualified := map_put (entry_name e)
              (unqualified_matches p (entry_name e) @ [entry_qualified e]) (sp_by_unqualified p)\<rparr>))"

definition new_skill_port ::
  "catalog_entry list \<Rightarrow> (string \<times> string) list \<Rightarrow> skill_port res" where
  "new_skill_port es aliases =
     add_entries es \<lparr>sp_entries = [], sp_by_unqualified = [], sp_aliases = clone_aliases aliases\<rparr>"

definition skill_err :: "sentinel \<Rightarrow> string \<Rightarrow> err" where
  "skill_err s t = GoErr [s] t"

definition not_found_err :: "string \<Rightarrow> err" where
  "not_found_err n = skill_err ErrSkillNotFound (''skill package not found: '' @ n)"

definition ambiguous_err :: "string \<Rightarrow> string list \<Rightarrow> err" where
  "ambiguous_err n qs = skill_err ErrSkillNameAmbiguous
     (''skill package name is ambiguous; qualify it with source_id/name: '' @ go_quote n
      @ '' matches '' @ join_with '', '' (sort qs))"

definition resolve_package_name :: "skill_port \<Rightarrow> string \<Rightarrow> catalog_entry res" where
  "resolve_package_name p n =
     (case map_of (sp_entries p) n of
        Some e \<Rightarrow> Inr e
      | None \<Rightarrow>
          (case unqualified_matches p n of
             [] \<Rightarrow> Inl (not_found_err n)
           | [q] \<Rightarrow> (case map_of (sp_entries p) q of
                      Some e \<Rightarrow> Inr e | None \<Rightarrow> Inr zero_entry)
           | qs \<Rightarrow> Inl (ambiguous_err n qs)))"

definition resolve_skill_name :: "skill_port \<Rightarrow> string \<Rightarrow> catalog_entry res" where
  "resolve_skill_name p n =
     (case map_of (sp_entries p) n of
        Some e \<Rightarrow> Inr e
      | None \<Rightarrow>
          (case map_of (sp_aliases p) n of
             Some target \<Rightarrow>
               (case resolve_package_name p target of
                  Inl e \<Rightarrow> Inl (skill_err ErrSkillAliasInvalid
                    (''skill alias does not resolve to exactly one known skill package: alias ''
                     @ go_quote n @ '' targets '' @ go_quote target @ '': '' @ err_text e))
                | Inr e \<Rightarrow> Inr e)
           | None \<Rightarrow> resolve_package_name p n))"

section \<open>Bundles\<close>

definition validate_runtime :: "skill_package \<Rightarrow> string \<Rightarrow> err option" where
  "validate_runtime pkg rt =
     (if rt = [] \<or> pk_runtimes pkg = [] then None
      else if rt \<in> set (pk_runtimes pkg) then None
      else Some (skill_err ErrSkillRuntimeIncompatible
        (''requested runtime is not compatible with this skill package: ''
         @ qualified_name (pk_identity pkg) @ '' does not support runtime '' @ go_quote rt
         @ '' (compatible: '' @ join_with '', '' (pk_runtimes pkg) @ '')'')))"

text \<open>Encoding and decoding again with \<open>UseNumber\<close>.\<close>

definition normalize_arguments :: "(string \<times> goval) list option \<Rightarrow> (string \<times> goval) list option" where
  "normalize_arguments m =
     (case m of
        None \<Rightarrow> None
      | Some kvs \<Rightarrow>
          (case any_of_json True (json_of_any (GMap kvs)) of GMap kvs' \<Rightarrow> Some kvs' | _ \<Rightarrow> None))"

definition enc_canonical :: "skill_bundle \<Rightarrow> json" where
  "enc_canonical b = JObj
     ([(''schema_version'', JNum (NInt (sb_schema_version b))), (''identity'', enc_identity (sb_identity b)),
       (''description'', JStr (sb_description b)), (''instructions'', JStr (sb_instructions b))]
      @ opt_arr ''assets'' (map enc_asset (sb_assets b))
      @ opt_arr ''compatible_runtimes'' (str_list (sb_runtimes b))
      @ opt_str ''runtime'' (sb_runtime b) @ opt_args ''arguments'' (sb_arguments b))"

definition new_skill_bundle ::
  "(string \<Rightarrow> string) \<Rightarrow> (string \<Rightarrow> float64 option) \<Rightarrow> string \<Rightarrow> skill_package \<Rightarrow> string
     \<Rightarrow> (string \<times> goval) list option \<Rightarrow> skill_bundle res"
where
  "new_skill_bundle sha lit i pkg runtime args =
     (let rt = trim_space runtime in
      case validate_runtime pkg rt of
        Some e \<Rightarrow> Inl e
      | None \<Rightarrow>
     (let args' = normalize_arguments args in
      case parse_schema lit (pk_arguments_schema pkg) of
        Inl e \<Rightarrow> Inl e
      | Inr schema \<Rightarrow>
     (case validate_arguments schema (case args' of None \<Rightarrow> [] | Some m \<Rightarrow> m) of
        Some e \<Rightarrow> Inl e
      | None \<Rightarrow>
     (let b = \<lparr>sb_schema_version = SkillSchemaVersion, sb_invocation_id = i,
               sb_identity = pk_identity pkg, sb_description = pk_description pkg,
               sb_instructions = pk_instructions pkg, sb_assets = pk_assets pkg,
               sb_runtimes = pk_runtimes pkg, sb_runtime = rt, sb_arguments = args', sb_hash = []\<rparr>
      in Inr (b\<lparr>sb_hash := sha (json_text (enc_canonical b))\<rparr>)))))"

section \<open>Preparing\<close>

record pstate = jstate +
  by_id :: "(string \<times> skill_bundle) list"

definition hex_encode :: "string \<Rightarrow> string" where
  "hex_encode s = concat (map (\<lambda>c. [hex_char (byte c div 16), hex_char (byte c mod 16)]) s)"

definition random_invocation_id :: "('w \<Rightarrow> string res \<times> 'w) \<Rightarrow> 'w \<Rightarrow> string res \<times> 'w" where
  "random_invocation_id rand w =
     (case rand w of
        (Inl e, w1) \<Rightarrow> (Inl e, w1)
      | (Inr bytes, w1) \<Rightarrow> (Inr (''inv_'' @ hex_encode bytes), w1))"

text \<open>
  \<open>InMemorySkillPort.Prepare\<close>. The lock is taken for the look-up and the insertion, which are one
  step here. \<open>new_id\<close> is the identity factory the port was built with.
\<close>

definition register_bundle ::
  "bool \<Rightarrow> skill_bundle \<Rightarrow> 'a pstate_scheme \<Rightarrow> skill_bundle res \<times> 'a pstate_scheme" where
  "register_bundle explicit b w =
     (let i = sb_invocation_id b in
      case map_of (by_id w) i of
        Some old \<Rightarrow>
          if \<not> explicit then (Inl (skill_err ErrSkillInvocationIDCollision
              (''generated skill invocation identity already exists: '' @ i)), w)
          else if sb_hash old \<noteq> sb_hash b then (Inl (skill_err ErrSkillInvocationReplay
              (''skill invocation replay conflicts with the prepared bundle: '' @ i)), w)
          else (Inr old, w)
      | None \<Rightarrow> (Inr b, w\<lparr>by_id := map_put i b (by_id w)\<rparr>))"

definition prepare_entry ::
  "(string \<Rightarrow> string) \<Rightarrow> (string \<Rightarrow> float64 option) \<Rightarrow> bool \<Rightarrow> string \<Rightarrow> catalog_entry \<Rightarrow> prepare_request
     \<Rightarrow> 'a pstate_scheme \<Rightarrow> skill_bundle res \<times> 'a pstate_scheme"
where
  "prepare_entry sha lit explicit i e q w =
     (if i = [] then (Inl (new_err ''skill invocation identity is required''), w)
      else
     (case new_skill_bundle sha lit i (ce_package e) (pr_runtime q) (pr_arguments q) of
        Inl er \<Rightarrow> (Inl er, w)
      | Inr b \<Rightarrow> register_bundle explicit b w))"

definition prepare_skill ::
  "(string \<Rightarrow> string) \<Rightarrow> (string \<Rightarrow> float64 option)
     \<Rightarrow> ('a pstate_scheme \<Rightarrow> string res \<times> 'a pstate_scheme) \<Rightarrow> skill_port \<Rightarrow> prepare_request
     \<Rightarrow> 'a pstate_scheme \<Rightarrow> skill_bundle res \<times> 'a pstate_scheme"
where
  "prepare_skill sha lit new_id p q w =
     (case ctx_err w of
        (Some e, w1) \<Rightarrow> (Inl e, w1)
      | (None, w1) \<Rightarrow>
     (let name = trim_space (pr_name q) in
      if name = [] then (Inl (new_err ''skill package name is required''), w1)
      else
     (case resolve_skill_name p name of
        Inl e \<Rightarrow> (Inl e, w1)
      | Inr e \<Rightarrow>
          if ce_state e \<noteq> SkillReady
          then (Inl (skill_err ErrUnsupportedSkill
                 (''unsupported skill package: '' @ entry_qualified e @ '': '' @ ce_diagnostic e)), w1)
          else (let i = trim_space (pr_invocation_id q) in
            if i \<noteq> [] then prepare_entry sha lit True i e q w1
            else (case new_id w1 of
                    (Inl er, w2) \<Rightarrow> (Inl (wrap_with ''create skill invocation identity'' er), w2)
                  | (Inr j, w2) \<Rightarrow> prepare_entry sha lit False (trim_space j) e q w2)))))"

section \<open>The catalog index refines a scan of the catalog\<close>

text \<open>The specification of name resolution: a scan of the catalog, with no index.\<close>

definition scan_catalog :: "catalog_entry list \<Rightarrow> string \<Rightarrow> catalog_entry res" where
  "scan_catalog es n =
     (case filter (\<lambda>e. entry_qualified e = n) es of
        e # _ \<Rightarrow> Inr e
      | [] \<Rightarrow>
          (case filter (\<lambda>e. entry_name e = n) es of
             [] \<Rightarrow> Inl (not_found_err n)
           | [e] \<Rightarrow> Inr e
           | ms \<Rightarrow> Inl (ambiguous_err n (map entry_qualified ms))))"

text \<open>The abstraction: the port holds exactly these entries.\<close>

definition indexes :: "skill_port \<Rightarrow> catalog_entry list \<Rightarrow> bool" where
  "indexes p es =
     (distinct (map entry_qualified es)
      \<and> map_of (sp_entries p) = map_of (map (\<lambda>e. (entry_qualified e, e)) es)
      \<and> (\<forall>n. unqualified_matches p n = map entry_qualified (filter (\<lambda>e. entry_name e = n) es)))"

lemma map_of_snoc: "k \<notin> fst ` set xs \<Longrightarrow> map_of (xs @ [(k, v)]) = (map_of xs)(k \<mapsto> v)"
proof -
  assume "k \<notin> fst ` set xs"
  then have "map_of xs k = None" by (simp add: map_of_eq_None_iff)
  then show ?thesis by (auto simp: fun_eq_iff map_add_def split: option.split)
qed

lemma indexes_add:
  assumes "indexes p es" "map_of (sp_entries p) (entry_qualified e) = None"
  shows "indexes (p\<lparr>sp_entries := map_put (entry_qualified e) e (sp_entries p),
            sp_by_unqualified := map_put (entry_name e)
              (unqualified_matches p (entry_name e) @ [entry_qualified e]) (sp_by_unqualified p)\<rparr>) (es @ [e])"
proof -
  have new: "entry_qualified e \<notin> set (map entry_qualified es)"
    using assms by (simp add: indexes_def map_of_eq_None_iff image_image)
  then have "map_of (map (\<lambda>e. (entry_qualified e, e)) es @ [(entry_qualified e, e)])
      = (map_of (map (\<lambda>e. (entry_qualified e, e)) es))(entry_qualified e \<mapsto> e)"
    by (intro map_of_snoc) (simp add: image_image)
  with assms new show ?thesis
    by (simp add: indexes_def unqualified_matches_def del: map_of_append)
qed

lemma add_entries_indexes:
  "add_entries es p = Inr p' \<Longrightarrow> indexes p fs \<Longrightarrow>
     indexes p' (fs @ es) \<and> sp_aliases p' = sp_aliases p \<and> (\<forall>e \<in> set es. validate_catalog_entry e = None)"
proof (induction es arbitrary: p fs)
  case Nil
  then show ?case by simp
next
  case (Cons e es)
  from Cons.prems(1) have new: "validate_catalog_entry e = None" "map_of (sp_entries p) (entry_qualified e) = None"
    by (auto split: option.splits if_splits)
  with Cons.prems(1) Cons.IH [OF _ indexes_add [OF Cons.prems(2) new(2)]] show ?case by simp
qed

lemma new_port_indexes:
  assumes "new_skill_port es aliases = Inr p"
  shows "indexes p es" "sp_aliases p = clone_aliases aliases" "\<forall>e \<in> set es. validate_catalog_entry e = None"
proof -
  have "indexes \<lparr>sp_entries = [], sp_by_unqualified = [], sp_aliases = clone_aliases aliases\<rparr> []"
    by (simp add: indexes_def unqualified_matches_def)
  from add_entries_indexes [OF assms [unfolded new_skill_port_def] this]
  show "indexes p es" "sp_aliases p = clone_aliases aliases" "\<forall>e \<in> set es. validate_catalog_entry e = None"
    by simp_all
qed

lemma map_of_first:
  "map_of (map (\<lambda>e. (f e, e)) es) n = (case filter (\<lambda>e. f e = n) es of [] \<Rightarrow> None | e # _ \<Rightarrow> Some e)"
  by (induction es) auto

lemma resolve_package_scan:
  assumes "indexes p es"
  shows "resolve_package_name p n = scan_catalog es n"
proof -
  note i = assms [unfolded indexes_def]
  show ?thesis
  proof (cases "filter (\<lambda>e. entry_qualified e = n) es")
    case (Cons e rest)
    with i show ?thesis by (simp add: resolve_package_name_def scan_catalog_def map_of_first)
  next
    case Nil
    show ?thesis
    proof (cases "filter (\<lambda>e. entry_name e = n) es")
      case N: Nil
      with i Nil show ?thesis by (simp add: resolve_package_name_def scan_catalog_def map_of_first)
    next
      case (Cons e rest)
      then have "e \<in> set (filter (\<lambda>e. entry_name e = n) es)" by simp
      then have e: "e \<in> set es" by simp
      with i have "map_of (sp_entries p) (entry_qualified e) = Some e"
        by (simp add: map_of_is_SomeI comp_def)
      with i Nil Cons show ?thesis
        by (cases rest) (simp_all add: resolve_package_name_def scan_catalog_def map_of_first)
    qed
  qed
qed

definition scan_names :: "catalog_entry list \<Rightarrow> (string \<times> string) list \<Rightarrow> string \<Rightarrow> catalog_entry res" where
  "scan_names es aliases n =
     (case filter (\<lambda>e. entry_qualified e = n) es of
        e # _ \<Rightarrow> Inr e
      | [] \<Rightarrow>
          (case map_of (clone_aliases aliases) n of
             None \<Rightarrow> scan_catalog es n
           | Some target \<Rightarrow>
               (case scan_catalog es target of
                  Inr e \<Rightarrow> Inr e
                | Inl e \<Rightarrow> Inl (skill_err ErrSkillAliasInvalid
                    (''skill alias does not resolve to exactly one known skill package: alias ''
                     @ go_quote n @ '' targets '' @ go_quote target @ '': '' @ err_text e)))))"

section \<open>What a port promises\<close>

text \<open>
  What the client of a port relies on when it passes the identity itself: an invariant of the port's
  memory that preparation keeps, no effect on the journal, and a bundle that carries the identity.
\<close>

locale skill_service =
  fixes prepare :: "prepare_request \<Rightarrow> 'a jstate_scheme \<Rightarrow> skill_bundle res \<times> 'a jstate_scheme"
    and memory_ok :: "'a jstate_scheme \<Rightarrow> bool"
  assumes prepare_quiet: "trim_space (pr_invocation_id q) \<noteq> [] \<Longrightarrow> entries (snd (prepare q w)) = entries w"
    and prepare_ok: "trim_space (pr_invocation_id q) \<noteq> [] \<Longrightarrow> memory_ok w \<Longrightarrow> memory_ok (snd (prepare q w))"
    and prepare_identity: "trim_space (pr_invocation_id q) \<noteq> [] \<Longrightarrow> memory_ok w \<Longrightarrow> prepare q w = (Inr b, w') \<Longrightarrow>
      sb_invocation_id b = trim_space (pr_invocation_id q)"
begin

lemma prepare_same_saga:
  "trim_space (pr_invocation_id q) \<noteq> [] \<Longrightarrow> prepare q w = (r, w') \<Longrightarrow>
     saga_log sha saga w' = saga_log sha saga w"
  using prepare_quiet [of q w] by (simp add: saga_log_def saga_segment_def)

end

text \<open>The invariant of the in-memory port: a bundle is filed under its identity, with the hash of its content.\<close>

definition bundle_ok :: "(string \<Rightarrow> string) \<Rightarrow> skill_bundle \<Rightarrow> bool" where
  "bundle_ok sha b = (sb_hash b = sha (json_text (enc_canonical b)))"

definition registry_ok :: "(string \<Rightarrow> string) \<Rightarrow> 'a pstate_scheme \<Rightarrow> bool" where
  "registry_ok sha w =
     (\<forall>i b. map_of (by_id w) i = Some b \<longrightarrow> sb_invocation_id b = i \<and> bundle_ok sha b)"

lemma canonical_ignores_hash [simp]: "enc_canonical (b\<lparr>sb_hash := h\<rparr>) = enc_canonical b"
  by (simp add: enc_canonical_def)

lemma new_bundle_shape:
  assumes "new_skill_bundle sha lit i pkg rt args = Inr b"
  shows "sb_invocation_id b = i" "bundle_ok sha b" "sb_identity b = pk_identity pkg"
    "sb_instructions b = pk_instructions pkg" "validate_runtime pkg (sb_runtime b) = None"
    "\<exists>schema. parse_schema lit (pk_arguments_schema pkg) = Inr schema
       \<and> validate_arguments schema (case sb_arguments b of None \<Rightarrow> [] | Some m \<Rightarrow> m) = None"
  using assms
  by (auto simp: new_skill_bundle_def Let_def bundle_ok_def enc_canonical_def split: option.splits sum.splits)

lemma register_frame:
  "register_bundle x b w = (r, w') \<Longrightarrow>
     entries w' = entries w \<and> (\<forall>i old. map_of (by_id w) i = Some old \<longrightarrow> map_of (by_id w') i = Some old)"
  by (auto simp: register_bundle_def Let_def split: option.splits if_splits)

lemma register_ok:
  assumes "register_bundle x b w = (r, w')" "registry_ok sha w" "bundle_ok sha b"
  shows "registry_ok sha w'" "r = Inr b' \<Longrightarrow> map_of (by_id w') (sb_invocation_id b) = Some b'"
    "r = Inr b' \<Longrightarrow> sb_invocation_id b' = sb_invocation_id b" "r = Inr b' \<Longrightarrow> sb_hash b' = sb_hash b"
  using assms
  by (auto simp: register_bundle_def registry_ok_def Let_def split: option.splits if_splits)

lemma prepare_entry_frame:
  "prepare_entry sha lit x i e q w = (r, w') \<Longrightarrow>
     entries w' = entries w \<and> (\<forall>i old. map_of (by_id w) i = Some old \<longrightarrow> map_of (by_id w') i = Some old)"
  by (auto simp: prepare_entry_def split: if_splits sum.splits dest: register_frame)

lemma prepare_entry_ok:
  assumes "prepare_entry sha lit x i e q w = (r, w')" "registry_ok sha w"
  shows "registry_ok sha w'"
    "r = Inr b \<Longrightarrow> map_of (by_id w') i = Some b \<and> sb_invocation_id b = i
       \<and> (\<exists>b'. new_skill_bundle sha lit i (ce_package e) (pr_runtime q) (pr_arguments q) = Inr b' \<and> sb_hash b = sb_hash b')"
proof -
  have "(\<exists>er. r = Inl er \<and> w' = w)
      \<or> (\<exists>b'. new_skill_bundle sha lit i (ce_package e) (pr_runtime q) (pr_arguments q) = Inr b'
          \<and> register_bundle x b' w = (r, w'))"
    using assms(1)
    by (cases "new_skill_bundle sha lit i (ce_package e) (pr_runtime q) (pr_arguments q)")
      (auto simp: prepare_entry_def split: if_splits, metis)
  then consider er where "r = Inl er" "w' = w"
    | b' where "new_skill_bundle sha lit i (ce_package e) (pr_runtime q) (pr_arguments q) = Inr b'"
        "register_bundle x b' w = (r, w')"
    by blast
  then have "registry_ok sha w' \<and> (r = Inr b \<longrightarrow> map_of (by_id w') i = Some b \<and> sb_invocation_id b = i
       \<and> (\<exists>b'. new_skill_bundle sha lit i (ce_package e) (pr_runtime q) (pr_arguments q) = Inr b' \<and> sb_hash b = sb_hash b'))"
  proof cases
    case 1
    with assms(2) show ?thesis by simp
  next
    case 2
    note shape = new_bundle_shape(1,2) [OF 2(1)]
    from register_ok [OF 2(2) assms(2) shape(2)] shape(1) 2(1) show ?thesis by metis
  qed
  then show "registry_ok sha w'"
    "r = Inr b \<Longrightarrow> map_of (by_id w') i = Some b \<and> sb_invocation_id b = i
       \<and> (\<exists>b'. new_skill_bundle sha lit i (ce_package e) (pr_runtime q) (pr_arguments q) = Inr b' \<and> sb_hash b = sb_hash b')"
    by auto
qed

text \<open>What a run of the port's \<open>Prepare\<close> comes down to: a failure that changes nothing, or an entry prepared.\<close>

lemma prepare_cases:
  assumes "prepare_skill sha lit new_id p q w = (r, w')"
    "trim_space (pr_invocation_id q) \<noteq> [] \<or> (\<forall>v. by_id (snd (new_id v)) = by_id v)"
  obtains (failed) e where "r = Inl e" "by_id w' = by_id w"
      "trim_space (pr_invocation_id q) \<noteq> [] \<Longrightarrow> entries w' = entries w"
  | (entry) x i e v where "by_id v = by_id w" "prepare_entry sha lit x i e q v = (r, w')"
      "resolve_skill_name p (trim_space (pr_name q)) = Inr e" "ce_state e = SkillReady"
      "trim_space (pr_invocation_id q) \<noteq> [] \<Longrightarrow> i = trim_space (pr_invocation_id q) \<and> entries v = entries w"
proof -
  obtain c w1 where c: "ctx_err w = (c, w1)" by (cases "ctx_err w")
  from ctx_err_frame [OF this] have same: "by_id w1 = by_id w" "entries w1 = entries w" by auto
  show thesis
  proof (cases "c = None \<and> trim_space (pr_name q) \<noteq> []
      \<and> (\<exists>e. resolve_skill_name p (trim_space (pr_name q)) = Inr e \<and> ce_state e = SkillReady)")
    case False
    with assms(1) c same have "(\<exists>e. r = Inl e) \<and> by_id w' = by_id w \<and> entries w' = entries w"
      by (auto simp: prepare_skill_def Let_def split: option.splits if_splits sum.splits)
    with failed show thesis by blast
  next
    case True
    then obtain e where e: "c = None" "trim_space (pr_name q) \<noteq> []"
      "resolve_skill_name p (trim_space (pr_name q)) = Inr e" "ce_state e = SkillReady" by blast
    show thesis
    proof (cases "trim_space (pr_invocation_id q) \<noteq> []")
      case True
      with assms(1) c e have "prepare_entry sha lit True (trim_space (pr_invocation_id q)) e q w1 = (r, w')"
        by (simp add: prepare_skill_def Let_def)
      with same e show thesis by (intro entry [of w1]) auto
    next
      case False
      obtain j w2 where j: "new_id w1 = (j, w2)" by (cases "new_id w1")
      with False assms(2) same have w2: "by_id w2 = by_id w" by (metis snd_conv)
      show thesis
      proof (cases j)
        case (Inl er)
        with False assms(1) c e j w2 have "(\<exists>e. r = Inl e) \<and> by_id w' = by_id w"
          by (auto simp: prepare_skill_def Let_def)
        with False failed show thesis by blast
      next
        case (Inr i)
        with False assms(1) c e j have "prepare_entry sha lit False (trim_space i) e q w2 = (r, w')"
          by (simp add: prepare_skill_def Let_def)
        with False w2 e show thesis by (intro entry [of w2]) auto
      qed
    qed
  qed
qed

lemma registry_ok_cong: "by_id v = by_id w \<Longrightarrow> registry_ok sha v = registry_ok sha w"
  by (simp add: registry_ok_def)

interpretation memory_port: skill_service "prepare_skill sha lit new_id p" "registry_ok sha"
  for sha lit and new_id :: "'a pstate_ext jstate_scheme \<Rightarrow> string res \<times> 'a pstate_ext jstate_scheme" and p
proof unfold_locales
  fix q :: prepare_request and w :: "'a pstate_ext jstate_scheme"
  assume i: "trim_space (pr_invocation_id q) \<noteq> []"
  obtain r w' where p: "prepare_skill sha lit new_id p q w = (r, w')"
    by (cases "prepare_skill sha lit new_id p q w")
  show "entries (snd (prepare_skill sha lit new_id p q w)) = entries w"
    using prepare_cases [OF p disjI1 [OF i]] i p prepare_entry_frame by (metis snd_conv)
  assume "registry_ok sha w"
  then show "registry_ok sha (snd (prepare_skill sha lit new_id p q w))"
    using prepare_cases [OF p disjI1 [OF i]] p prepare_entry_ok(1) registry_ok_cong by (metis snd_conv)
next
  fix q :: prepare_request and b and w w' :: "'a pstate_ext jstate_scheme"
  assume i: "trim_space (pr_invocation_id q) \<noteq> []" and ok: "registry_ok sha w"
    and p: "prepare_skill sha lit new_id p q w = (Inr b, w')"
  from p disjI1 [OF i] show "sb_invocation_id b = trim_space (pr_invocation_id q)"
  proof (cases rule: prepare_cases)
    case (entry x j e v)
    with prepare_entry_ok(2) [OF entry(2)] registry_ok_cong [OF entry(1)] ok i show ?thesis by blast
  qed simp
qed

section \<open>Properties\<close>

lemma resolve_name_scan:
  assumes "new_skill_port es aliases = Inr p"
  shows "resolve_skill_name p n = scan_names es aliases n"
proof -
  have i: "indexes p es" by (rule new_port_indexes [OF assms])
  then have m: "map_of (sp_entries p) = map_of (map (\<lambda>e. (entry_qualified e, e)) es)"
    by (simp add: indexes_def)
  show ?thesis
    by (simp add: resolve_skill_name_def scan_names_def resolve_package_scan [OF i] m map_of_first
        new_port_indexes(2) [OF assms] split: list.split option.split sum.split)
qed

text \<open>C31: the port's index refines a scan of the catalog it was built from: every name
  resolves to the entry, or to the error, that searching the list of entries gives, the canonical name first,
  then an alias, then the bare name.\<close>

theorem resolution_refines_scan:
  assumes "new_skill_port es aliases = Inr p"
  shows "resolve_skill_name p n = scan_names es aliases n"
  by (rule resolve_name_scan [OF assms])

definition sample_entry :: "string \<Rightarrow> string \<Rightarrow> catalog_entry" where
  "sample_entry source name = \<lparr>ce_state = SkillReady, ce_package = zero_package\<lparr>
     pk_schema_version := 1, pk_instructions := ''Do it.'',
     pk_identity := \<lparr>pi_source_id = source, pi_name = name, pi_package_hash = replicate 64 CHR ''a''\<rparr>\<rparr>,
     ce_diagnostic = []\<rparr>"

definition sample_port :: skill_port where
  "sample_port =
     (case new_skill_port [sample_entry ''a'' ''tdd'', sample_entry ''b'' ''tdd''] [(''t'', ''b/tdd'')] of
        Inr p \<Rightarrow> p | Inl e \<Rightarrow> \<lparr>sp_entries = [], sp_by_unqualified = [], sp_aliases = []\<rparr>)"

lemma sample_port: "new_skill_port [sample_entry ''a'' ''tdd'', sample_entry ''b'' ''tdd''] [(''t'', ''b/tdd'')]
    = Inr sample_port"
  unfolding sample_port_def by code_simp

theorem resolution_refines_scan_witness:
  "resolve_skill_name sample_port ''t'' = Inr (sample_entry ''b'' ''tdd'')
   \<and> resolve_skill_name sample_port ''tdd'' = Inl (ambiguous_err ''tdd'' [''a/tdd'', ''b/tdd''])"
  unfolding resolution_refines_scan [OF sample_port] by code_simp

lemma scan_catalog_found:
  assumes "scan_catalog es n = Inr e"
  shows "e \<in> set es" "entry_qualified e = n \<or> entry_name e = n \<and> (\<forall>e' \<in> set es. entry_name e' = n \<longrightarrow> e' = e)"
proof -
  have "e \<in> set es \<and> (entry_qualified e = n \<or> entry_name e = n \<and> (\<forall>e' \<in> set es. entry_name e' = n \<longrightarrow> e' = e))"
  proof (cases "filter (\<lambda>e. entry_qualified e = n) es")
    case (Cons e' rest)
    then have "e' \<in> set (filter (\<lambda>e. entry_qualified e = n) es)" by simp
    then have "e' \<in> set es" "entry_qualified e' = n" by simp_all
    with Cons assms show ?thesis by (simp add: scan_catalog_def)
  next
    case Nil
    with assms have "filter (\<lambda>e. entry_name e = n) es = [e]"
      by (auto simp: scan_catalog_def split: list.splits)
    then have "{e' \<in> set es. entry_name e' = n} = {e}" by (metis list.set(1,2) set_filter)
    then show ?thesis by blast
  qed
  then show "e \<in> set es" "entry_qualified e = n \<or> entry_name e = n \<and> (\<forall>e' \<in> set es. entry_name e' = n \<longrightarrow> e' = e)"
    by blast+
qed

text \<open>An unqualified name that is not an alias resolves only when exactly one package of
  the catalog has it, so a local package never takes the place of an external one of the same name.\<close>

theorem bare_name_never_guessed:
  assumes "new_skill_port es aliases = Inr p" "resolve_skill_name p n = Inr e"
    "map_of (clone_aliases aliases) n = None" "entry_qualified e \<noteq> n"
  shows "e \<in> set es \<and> entry_name e = n \<and> (\<forall>e' \<in> set es. entry_name e' = n \<longrightarrow> e' = e)"
proof -
  from assms(2) have "scan_names es aliases n = Inr e" unfolding resolve_name_scan [OF assms(1)] .
  moreover have "filter (\<lambda>e. entry_qualified e = n) es \<noteq> e # rest" for rest
  proof
    assume "filter (\<lambda>e. entry_qualified e = n) es = e # rest"
    then have "e \<in> set (filter (\<lambda>e. entry_qualified e = n) es)" by simp
    with assms(4) show False by simp
  qed
  ultimately have "scan_catalog es n = Inr e"
    using assms(3) by (auto simp: scan_names_def split: list.splits)
  from scan_catalog_found [OF this] assms(4) show ?thesis by blast
qed

theorem bare_name_never_guessed_witness:
  "\<exists>p. new_skill_port [sample_entry ''a'' ''tdd'', sample_entry ''b'' ''plan''] [] = Inr p
     \<and> resolve_skill_name p ''plan'' = Inr (sample_entry ''b'' ''plan'')
     \<and> (\<forall>e' \<in> set [sample_entry ''a'' ''tdd'', sample_entry ''b'' ''plan'']. entry_name e' = ''plan'' \<longrightarrow> e' = sample_entry ''b'' ''plan'')"
proof -
  define es where "es = [sample_entry ''a'' ''tdd'', sample_entry ''b'' ''plan'']"
  have "case new_skill_port es [] of Inl e \<Rightarrow> False
      | Inr p \<Rightarrow> resolve_skill_name p ''plan'' = Inr (sample_entry ''b'' ''plan'')"
    unfolding es_def by code_simp
  then obtain p where p: "new_skill_port es [] = Inr p" "resolve_skill_name p ''plan'' = Inr (sample_entry ''b'' ''plan'')"
    by (auto split: sum.splits)
  have "map_of (clone_aliases []) ''plan'' = None" "entry_qualified (sample_entry ''b'' ''plan'') \<noteq> ''plan''" by code_simp+
  from bare_name_never_guessed [OF p this] p show ?thesis unfolding es_def by blast
qed

text \<open>C12: once a bundle is prepared under an invocation identity, no later preparation changes
  it, whatever the request, the catalog entry it names and the errors: a request with that identity is refused or
  gets the very same bundle, and it gets it only if the content it asks for has the same hash.\<close>

theorem prepared_bundles_immutable:
  assumes "prepare_skill sha lit new_id p q w = (r, w')" "registry_ok sha w"
    "\<forall>v. by_id (snd (new_id v)) = by_id v" "map_of (by_id w) i = Some b"
  shows "registry_ok sha w' \<and> map_of (by_id w') i = Some b
     \<and> (\<forall>b'. r = Inr b' \<longrightarrow> sb_invocation_id b' = i \<longrightarrow> b' = b
          \<and> (\<exists>e c. resolve_skill_name p (trim_space (pr_name q)) = Inr e
               \<and> new_skill_bundle sha lit i (ce_package e) (pr_runtime q) (pr_arguments q) = Inr c \<and> sb_hash c = sb_hash b))"
  using assms(1) disjI2 [OF assms(3)]
proof (cases rule: prepare_cases)
  case (failed e)
  with assms(2,4) registry_ok_cong [OF failed(2)] show ?thesis by simp
next
  case (entry x j e v)
  have ok: "registry_ok sha v" using assms(2) registry_ok_cong [OF entry(1)] by blast
  have kept: "map_of (by_id w') i = Some b"
    using prepare_entry_frame [OF entry(2)] entry(1) assms(4) by auto
  have "b' = b \<and> (\<exists>e c. resolve_skill_name p (trim_space (pr_name q)) = Inr e
      \<and> new_skill_bundle sha lit i (ce_package e) (pr_runtime q) (pr_arguments q) = Inr c \<and> sb_hash c = sb_hash b)"
    if "r = Inr b'" "sb_invocation_id b' = i" for b'
  proof -
    from prepare_entry_ok(2) [OF entry(2) ok that(1)] that(2) obtain c where c: "map_of (by_id w') i = Some b'"
      "new_skill_bundle sha lit i (ce_package e) (pr_runtime q) (pr_arguments q) = Inr c" "sb_hash b' = sb_hash c"
      by blast
    with kept entry(3) show ?thesis by auto
  qed
  with prepare_entry_ok(1) [OF entry(2) ok] kept show ?thesis by blast
qed

definition sample_request :: prepare_request where
  "sample_request = \<lparr>pr_name = ''a/tdd'', pr_invocation_id = ''x'', pr_runtime = [], pr_arguments = None\<rparr>"

definition fixed_id :: "'a pstate_scheme \<Rightarrow> string res \<times> 'a pstate_scheme" where
  "fixed_id w = (Inr ''g'', w)"

definition no_bundles :: pstate where
  "no_bundles = \<lparr>faults = [], clock = (\<lambda>n. 1), reads = 0, entries = [], by_id = []\<rparr>"

theorem prepared_bundles_immutable_witness:
  "\<exists>b w. prepare_skill id no_floats fixed_id sample_port sample_request no_bundles = (Inr b, w)
     \<and> (\<forall>q r v. prepare_skill id no_floats fixed_id sample_port q w = (r, v) \<longrightarrow> map_of (by_id v) ''x'' = Some b)"
proof -
  obtain r w where p: "prepare_skill id no_floats fixed_id sample_port sample_request no_bundles = (r, w)"
    by (cases "prepare_skill id no_floats fixed_id sample_port sample_request no_bundles")
  have "case fst (prepare_skill id no_floats fixed_id sample_port sample_request no_bundles) of
      Inl e \<Rightarrow> False | Inr b \<Rightarrow> map_of (by_id (snd (prepare_skill id no_floats fixed_id sample_port sample_request no_bundles))) ''x'' = Some b"
    by code_simp
  with p obtain b where b: "r = Inr b" "map_of (by_id w) ''x'' = Some b" by (auto split: sum.splits)
  have "trim_space (pr_invocation_id sample_request) \<noteq> []" by code_simp
  from memory_port.prepare_ok [OF this, of id no_bundles no_floats fixed_id sample_port] p
  have ok: "registry_ok id w" by (simp add: registry_ok_def no_bundles_def)
  have "\<forall>v :: pstate. by_id (snd (fixed_id v)) = by_id v" by (simp add: fixed_id_def)
  from prepared_bundles_immutable [OF _ ok this b(2)] p b(1) show ?thesis by blast
qed

end
