(* ===== verification/Skill_Preparer.thy ===== *)
theory Skill_Preparer
  imports Event_Bus Skill_Catalog
begin

text \<open>
  \<open>core/skill_journal.go\<close>: the events of a skill invocation's saga and \<open>SkillPreparer.Prepare\<close>, which
  journals the request, runs the port, and journals the attempt and its outcome. The port is any
  function on the state; what is assumed of it is the interface \<open>skill_service\<close>, which the
  in-memory port provides. The last theorems look at a replay and at a preparation that fails
  after the invocation was prepared.
\<close>

section \<open>Events\<close>

definition SkillEventSchemaVersion :: int where "SkillEventSchemaVersion = 1"

definition SkillEventPrepareRequested :: string where "SkillEventPrepareRequested = ''skill.prepare-requested''"
definition SkillEventPrepared :: string where "SkillEventPrepared = ''skill.prepared''"
definition SkillEventPrepareFailed :: string where "SkillEventPrepareFailed = ''skill.prepare-failed''"
definition SkillEventInvocationStarted :: string where "SkillEventInvocationStarted = ''skill.invocation-started''"
definition SkillEventInvocationCompleted :: string where "SkillEventInvocationCompleted = ''skill.invocation-completed''"
definition SkillEventInvocationFailed :: string where "SkillEventInvocationFailed = ''skill.invocation-failed''"
definition SkillEventInvocationLinked :: string where "SkillEventInvocationLinked = ''skill.invocation-linked''"

lemmas skill_event_types = SkillEventPrepareRequested_def SkillEventPrepared_def SkillEventPrepareFailed_def
  SkillEventInvocationStarted_def SkillEventInvocationCompleted_def SkillEventInvocationFailed_def
  SkillEventInvocationLinked_def

definition classify_prepare_failure :: "err option \<Rightarrow> string" where
  "classify_prepare_failure er =
     (case er of None \<Rightarrow> []
      | Some e \<Rightarrow>
          if errors_is e ErrUnsupportedSkill then ''UnsupportedSkillPackage''
          else if errors_is e ErrSkillNotFound then ''SkillNotFound''
          else if errors_is e ErrSkillNameAmbiguous then ''AmbiguousName''
          else if errors_is e ErrSkillAliasInvalid then ''InvalidAlias''
          else if errors_is e ErrSkillRuntimeIncompatible then ''RuntimeIncompatible''
          else if errors_is e ErrSkillInvocationReplay then ''ReplayConflict''
          else if errors_is e ErrSkillInvocationIDCollision then ''InvocationIDCollision''
          else if errors_is e ErrSkillArgumentsInvalid \<or> errors_is e ErrSkillArgumentsSchemaInvalid
          then ''InvalidArguments''
          else ''PrepareFailed'')"

text \<open>The payloads that are written.\<close>

definition requested_payload :: "string \<Rightarrow> prepare_request \<Rightarrow> string \<Rightarrow> json" where
  "requested_payload i q session = JObj
     ([(''invocation_id'', JStr i), (''requested_name'', JStr (trim_space (pr_name q)))]
      @ opt_str ''runtime'' (trim_space (pr_runtime q)) @ opt_args ''arguments'' (pr_arguments q)
      @ opt_str ''session_id'' (trim_space session))"

definition prepared_payload :: "string \<Rightarrow> skill_bundle \<Rightarrow> string \<Rightarrow> json" where
  "prepared_payload i b session = JObj
     ([(''invocation_id'', JStr i), (''package_identity'', enc_identity (sb_identity b)),
       (''bundle_hash'', JStr (sb_hash b))]
      @ opt_str ''runtime'' (sb_runtime b) @ opt_args ''arguments'' (clone_arguments (sb_arguments b))
      @ opt_str ''session_id'' (trim_space session))"

definition failed_payload ::
  "(string \<Rightarrow> string option) \<Rightarrow> string \<Rightarrow> prepare_request \<Rightarrow> err \<Rightarrow> string \<Rightarrow> json" where
  "failed_payload strip i q e session = JObj
     ([(''invocation_id'', JStr i), (''requested_name'', JStr (trim_space (pr_name q)))]
      @ opt_str ''runtime'' (trim_space (pr_runtime q)) @ opt_args ''arguments'' (pr_arguments q)
      @ [(''failure_class'', JStr (classify_prepare_failure (Some e)))]
      @ opt_str ''diagnostic'' (safe_diagnostic strip (err_text e))
      @ opt_str ''session_id'' (trim_space session))"

definition linked_payload :: "string \<Rightarrow> string \<Rightarrow> json" where
  "linked_payload i from_event = JObj [(''invocation_id'', JStr i), (''linked_from'', JStr from_event)]"

section \<open>The preparer\<close>

record prepare_options =
  po_repository_id :: string
  po_session_id :: string
  po_now :: int

text \<open>
  \<open>sk_port\<close> is \<^term>\<open>None\<close> for a nil port; \<open>sk_journaled\<close> says that there is a bus whose journal
  is a \<open>SagaJournal\<close>.
\<close>

type_synonym 'w prepare_fun = "prepare_request \<Rightarrow> 'w \<Rightarrow> skill_bundle res \<times> 'w"

record 'w skill_preparer =
  sk_port :: "'w prepare_fun option"
  sk_journaled :: bool

definition zero_bundle :: skill_bundle where
  "zero_bundle = \<lparr>sb_schema_version = 0, sb_invocation_id = [], sb_identity = zero_identity,
     sb_description = [], sb_instructions = [], sb_assets = [], sb_runtimes = [], sb_runtime = [],
     sb_arguments = None, sb_hash = []\<rparr>"

definition no_delivery :: delivery where
  "no_delivery = \<lparr>de_event_id = [], de_attempts = []\<rparr>"

definition split_result :: "skill_bundle res \<Rightarrow> skill_bundle \<times> err option" where
  "split_result r = (case r of Inl e \<Rightarrow> (zero_bundle, Some e) | Inr b \<Rightarrow> (b, None))"

definition skill_event ::
  "string \<Rightarrow> string \<Rightarrow> int \<Rightarrow> string \<Rightarrow> string \<Rightarrow> string \<Rightarrow> string \<Rightarrow> json \<Rightarrow> event" where
  "skill_event i ty t repo saga corr cause payload =
     \<lparr>ev_id = i, ev_type = ty, ev_occurred_at = t, ev_repository_id = repo, ev_saga_id = saga,
      ev_correlation_id = corr, ev_causation_id = cause, ev_schema_version = SkillEventSchemaVersion,
      ev_payload = Some payload\<rparr>"

definition correlation :: "string \<Rightarrow> prepare_options \<Rightarrow> string" where
  "correlation i opts = (let c = trim_space (po_session_id opts) in if c = [] then i else c)"

definition requested_id :: "string \<Rightarrow> string" where
  "requested_id i = i @ '':prepare-requested''"

definition requested_event :: "string \<Rightarrow> prepare_request \<Rightarrow> prepare_options \<Rightarrow> int \<Rightarrow> event" where
  "requested_event i q opts t = skill_event (requested_id i) SkillEventPrepareRequested t (po_repository_id opts) i
     (correlation i opts) [] (requested_payload i q (po_session_id opts))"

definition prepared_event :: "string \<Rightarrow> skill_bundle \<Rightarrow> prepare_options \<Rightarrow> int \<Rightarrow> event" where
  "prepared_event i b opts t = skill_event (i @ '':prepared'') SkillEventPrepared t (po_repository_id opts) i
     (correlation i opts) (requested_id i) (prepared_payload i b (po_session_id opts))"

definition failed_event ::
  "(string \<Rightarrow> string option) \<Rightarrow> string \<Rightarrow> prepare_request \<Rightarrow> err \<Rightarrow> prepare_options \<Rightarrow> int \<Rightarrow> event" where
  "failed_event strip i q e opts t = skill_event (i @ '':prepare-failed'') SkillEventPrepareFailed t
     (po_repository_id opts) i (correlation i opts) (requested_id i)
     (failed_payload strip i q e (po_session_id opts))"

definition prepare_attempt :: "string \<Rightarrow> int \<Rightarrow> err option \<Rightarrow> handler_attempt" where
  "prepare_attempt i t er =
     \<lparr>ha_event_id = requested_id i, ha_saga_id = i, ha_handler_id = ''skill-prepare'', ha_attempted_at = t,
      ha_outcome = (case er of None \<Rightarrow> ''succeeded'' | Some e \<Rightarrow> ''failed''),
      ha_error = (case er of None \<Rightarrow> [] | Some e \<Rightarrow> err_text e)\<rparr>"

text \<open>The event that closes the preparation.\<close>

definition outcome_event ::
  "(string \<Rightarrow> string option) \<Rightarrow> string \<Rightarrow> prepare_request \<Rightarrow> prepare_options \<Rightarrow> skill_bundle \<Rightarrow> err option \<Rightarrow> int \<Rightarrow> event" where
  "outcome_event strip i q opts b er t =
     (case er of Some e \<Rightarrow> failed_event strip i q e opts t | None \<Rightarrow> prepared_event i b opts t)"

text \<open>After the identity and the clock: journal, run, journal.\<close>

definition run_preparation ::
  "(string \<Rightarrow> string) \<Rightarrow> (string \<Rightarrow> string option) \<Rightarrow> 'a jstate_scheme prepare_fun \<Rightarrow> string
     \<Rightarrow> prepare_request \<Rightarrow> prepare_options \<Rightarrow> int \<Rightarrow> 'a jstate_scheme
     \<Rightarrow> (skill_bundle \<times> delivery \<times> err option) \<times> 'a jstate_scheme"
where
  "run_preparation sha strip port i q opts t w =
     (case append_event sha (requested_event i q opts t) w of
        (Some e, w1) \<Rightarrow> ((zero_bundle, no_delivery, Some e), w1)
      | (None, w1) \<Rightarrow>
     (case port q w1 of
        (r, w2) \<Rightarrow>
     (case split_result r of
        (b, er) \<Rightarrow>
     (case time_now w2 of
        (t2, w3) \<Rightarrow>
     (let a = prepare_attempt i t2 er; d = \<lparr>de_event_id = requested_id i, de_attempts = [a]\<rparr> in
      case append_attempt sha strip a w3 of
        (Some e, w4) \<Rightarrow> ((b, d, Some e), w4)
      | (None, w4) \<Rightarrow>
     (case time_now w4 of
        (t3, w5) \<Rightarrow>
     (case append_event sha (outcome_event strip i q opts b er t3) w5 of
        (Some e, w6) \<Rightarrow> ((b, d, Some e), w6)
      | (None, w6) \<Rightarrow> ((b, d, er), w6))))))))"

definition preparer_prepare ::
  "(string \<Rightarrow> string) \<Rightarrow> (string \<Rightarrow> string option) \<Rightarrow> ('a jstate_scheme \<Rightarrow> string res \<times> 'a jstate_scheme)
     \<Rightarrow> 'a jstate_scheme skill_preparer \<Rightarrow> prepare_request \<Rightarrow> prepare_options \<Rightarrow> 'a jstate_scheme
     \<Rightarrow> (skill_bundle \<times> delivery \<times> err option) \<times> 'a jstate_scheme"
where
  "preparer_prepare sha strip rand p q opts w =
     (case sk_port p of
        None \<Rightarrow> ((zero_bundle, no_delivery, Some (new_err ''skill port is required'')), w)
      | Some port \<Rightarrow>
     (if \<not> sk_journaled p then
        (case port q w of
           (r, w1) \<Rightarrow> (case split_result r of (b, er) \<Rightarrow> ((b, no_delivery, er), w1)))
      else
     (case ctx_err w of
        (Some e, w1) \<Rightarrow> ((zero_bundle, no_delivery, Some e), w1)
      | (None, w1) \<Rightarrow>
     (case (if trim_space (pr_invocation_id q) = [] then random_invocation_id rand w1
            else (Inr (trim_space (pr_invocation_id q)), w1)) of
        (Inl e, w2) \<Rightarrow> ((zero_bundle, no_delivery, Some (wrap_with ''create skill invocation identity'' e)), w2)
      | (Inr i, w2) \<Rightarrow>
     (case (if is_zero_time (po_now opts) then time_now w2 else (po_now opts, w2)) of
        (t, w3) \<Rightarrow> run_preparation sha strip port i (q\<lparr>pr_invocation_id := i\<rparr>) opts t w3)))))"

section \<open>The lines of a saga\<close>

definition closed :: "(string \<Rightarrow> string) \<Rightarrow> string \<Rightarrow> 'a jstate_scheme \<Rightarrow> bool" where
  "closed sha saga w = (\<not> seg_open (saga_segment sha saga w))"

definition saga_lines :: "(string \<Rightarrow> string) \<Rightarrow> string \<Rightarrow> 'a jstate_scheme \<Rightarrow> jline list" where
  "saga_lines sha saga w = seg_lines (saga_segment sha saga w)"

definition line_of :: "journal_record \<Rightarrow> jline" where
  "line_of r = Line (enc_record r)"

lemma same_saga:
  assumes "entries w' = entries w"
  shows "closed sha saga w' = closed sha saga w" "saga_lines sha saga w' = saga_lines sha saga w"
  using assms by (simp_all add: closed_def saga_lines_def saga_segment_def)

lemma same_saga_time:
  assumes "time_now w = (t, w')"
  shows "closed sha saga w' = closed sha saga w" "saga_lines sha saga w' = saga_lines sha saga w"
proof -
  have "entries w' = entries w" using assms by (auto simp: time_now_def)
  then show "closed sha saga w' = closed sha saga w" "saga_lines sha saga w' = saga_lines sha saga w"
    by (rule same_saga)+
qed

text \<open>What an append leaves of a segment that ends with a newline.\<close>

lemma append_record_lines:
  assumes "append_record sha saga r w = (res, w')" "closed sha saga w"
  shows "res = None \<Longrightarrow> closed sha saga w' \<and> saga_lines sha saga w' = saga_lines sha saga w @ [line_of r]"
    "closed sha saga w' \<Longrightarrow> saga_lines sha saga w' = saga_lines sha saga w
       \<or> saga_lines sha saga w' = saga_lines sha saga w @ [line_of r]"
proof -
  have "(res = None \<longrightarrow> closed sha saga w' \<and> saga_lines sha saga w' = saga_lines sha saga w @ [line_of r])
      \<and> (closed sha saga w' \<longrightarrow> saga_lines sha saga w' = saga_lines sha saga w
         \<or> saga_lines sha saga w' = saga_lines sha saga w @ [line_of r])"
    using assms(1)
  proof (cases rule: append_record_cases)
    case (unchanged e)
    then show ?thesis by (simp add: saga_lines_def)
  next
    case written
    with assms(2) show ?thesis by (simp add: closed_def saga_lines_def line_of_def)
  next
    case (torn l e)
    with assms(2) show ?thesis by (simp add: closed_def)
  qed
  then show "res = None \<Longrightarrow> closed sha saga w' \<and> saga_lines sha saga w' = saga_lines sha saga w @ [line_of r]"
    "closed sha saga w' \<Longrightarrow> saga_lines sha saga w' = saga_lines sha saga w
       \<or> saga_lines sha saga w' = saga_lines sha saga w @ [line_of r]"
    by blast+
qed

lemma append_event_lines:
  assumes "append_event sha e w = (res, w')" "closed sha (ev_saga_id e) w"
  shows "res = None \<Longrightarrow> closed sha (ev_saga_id e) w'
       \<and> saga_lines sha (ev_saga_id e) w' = saga_lines sha (ev_saga_id e) w @ [line_of (event_record e)]"
    "closed sha (ev_saga_id e) w' \<Longrightarrow> saga_lines sha (ev_saga_id e) w' = saga_lines sha (ev_saga_id e) w
       \<or> saga_lines sha (ev_saga_id e) w' = saga_lines sha (ev_saga_id e) w @ [line_of (event_record e)]"
  using assms append_record_lines [of sha "ev_saga_id e" "event_record e" w res w']
  by (auto simp: append_event_def split: option.splits)

lemma append_attempt_lines:
  assumes "append_attempt sha strip a w = (res, w')" "closed sha (ha_saga_id a) w"
  shows "res = None \<Longrightarrow> closed sha (ha_saga_id a) w'
       \<and> saga_lines sha (ha_saga_id a) w' = saga_lines sha (ha_saga_id a) w @ [line_of (attempt_record (sanitised strip a))]"
    "closed sha (ha_saga_id a) w' \<Longrightarrow> saga_lines sha (ha_saga_id a) w' = saga_lines sha (ha_saga_id a) w
       \<or> saga_lines sha (ha_saga_id a) w' = saga_lines sha (ha_saga_id a) w @ [line_of (attempt_record (sanitised strip a))]"
  using assms append_record_lines [of sha "ha_saga_id a" "attempt_record (sanitised strip a)" w res w']
  by (auto simp: append_attempt_def sanitised_def Let_def split: option.splits)

section \<open>The life cycle of a preparation\<close>

definition lifecycle ::
  "(string \<Rightarrow> string option) \<Rightarrow> string \<Rightarrow> prepare_request \<Rightarrow> prepare_options \<Rightarrow> int \<Rightarrow> skill_bundle \<Rightarrow> err option
     \<Rightarrow> int \<Rightarrow> int \<Rightarrow> journal_record list"
where
  "lifecycle strip i q opts t b er t2 t3 =
     [event_record (requested_event i q opts t), attempt_record (sanitised strip (prepare_attempt i t2 er)),
      event_record (outcome_event strip i q opts b er t3)]"

lemma preparation_sagas [simp]:
  "ev_saga_id (requested_event i q opts t) = i" "ha_saga_id (prepare_attempt i t er) = i"
  "ev_saga_id (outcome_event strip i q opts b er t) = i"
  by (simp_all add: requested_event_def prepare_attempt_def outcome_event_def prepared_event_def
      failed_event_def skill_event_def split: option.split)

text \<open>The preparer with a journal and an identity given by the caller.\<close>

lemma preparer_explicit:
  assumes "preparer_prepare sha strip rand \<lparr>sk_port = Some port, sk_journaled = True\<rparr> q opts w = ((b, d, er), w')"
    "trim_space (pr_invocation_id q) = i" "i \<noteq> []"
  obtains (stopped) "entries w' = entries w" "er \<noteq> None"
  | (ran) t fs n where "run_preparation sha strip port i (q\<lparr>pr_invocation_id := i\<rparr>) opts t (w\<lparr>faults := fs, reads := n\<rparr>) = ((b, d, er), w')"
proof -
  obtain c w1 where c: "ctx_err w = (c, w1)" by (cases "ctx_err w")
  from ctx_err_frame [OF this] obtain fs where e1: "w1 = w\<lparr>faults := fs\<rparr>" by auto
  show thesis
  proof (cases c)
    case (Some e)
    with assms(1) c e1 stopped show thesis by (auto simp: preparer_prepare_def)
  next
    case None
    obtain t w3 where t: "(if is_zero_time (po_now opts) then time_now w1 else (po_now opts, w1)) = (t, w3)"
      by (cases "if is_zero_time (po_now opts) then time_now w1 else (po_now opts, w1)")
    moreover have "w\<lparr>faults := fs\<rparr> = w\<lparr>faults := fs, reads := reads w\<rparr>" by simp
    ultimately obtain n where "w3 = w\<lparr>faults := fs, reads := n\<rparr>"
      using e1 by (cases "is_zero_time (po_now opts)") (auto simp: time_now_def)
    moreover have "run_preparation sha strip port i (q\<lparr>pr_invocation_id := i\<rparr>) opts t w3 = ((b, d, er), w')"
      using assms c None t by (simp add: preparer_prepare_def)
    ultimately show thesis using ran by blast
  qed
qed

context skill_service
begin

lemma run_lifecycle:
  assumes run: "run_preparation sha strip prepare i q opts t w = ((b, d, er), w')"
    and ident: "trim_space (pr_invocation_id q) \<noteq> []" and cl: "closed sha i w"
  obtains b0 er0 t2 t3 and k :: nat where "k \<le> 3"
    "closed sha i w' \<Longrightarrow> saga_lines sha i w' = saga_lines sha i w
       @ take k (map line_of (lifecycle strip i q opts t b0 er0 t2 t3))"
    "er = None \<Longrightarrow> closed sha i w' \<and> b0 = b \<and> er0 = None \<and> k = 3"
proof -
  obtain res1 w1 where 1: "append_event sha (requested_event i q opts t) w = (res1, w1)"
    by (cases "append_event sha (requested_event i q opts t) w")
  note l1 = append_event_lines [OF 1, simplified, OF cl]
  show thesis
  proof (cases res1)
    case (Some e)
    with run 1 have "w' = w1" "er = Some e" by (auto simp: run_preparation_def)
    with l1(2) that [of 0 b None 0 0] that [of 1 b None 0 0] show thesis
      by (cases "saga_lines sha i w1 = saga_lines sha i w") (auto simp: lifecycle_def)
  next
    case None
    note l1 = l1(1) [OF None]
    obtain r w2 where 2: "prepare q w1 = (r, w2)" by (cases "prepare q w1")
    obtain b0 er0 where s: "split_result r = (b0, er0)" by (cases "split_result r")
    obtain t2 w3 where 3: "time_now w2 = (t2, w3)" by (cases "time_now w2")
    obtain res4 w4 where 4: "append_attempt sha strip (prepare_attempt i t2 er0) w3 = (res4, w4)"
      by (cases "append_attempt sha strip (prepare_attempt i t2 er0) w3")
    have e2: "entries w2 = entries w1" using prepare_quiet [OF ident, of w1] 2 by simp
    have 23: "closed sha i w3" "saga_lines sha i w3 = saga_lines sha i w @ [line_of (event_record (requested_event i q opts t))]"
      using l1 same_saga [OF e2] same_saga_time [OF 3] by simp_all
    note l4 = append_attempt_lines [OF 4, simplified, OF 23(1)]
    show thesis
    proof (cases res4)
      case (Some e)
      with run 1 None 2 s 3 4 have "w' = w4" "er = Some e" by (auto simp: run_preparation_def Let_def)
      with l4(2) 23 that [of 1 b0 er0 t2 0] that [of 2 b0 er0 t2 0] show thesis
        by (cases "saga_lines sha i w4 = saga_lines sha i w3") (auto simp: lifecycle_def numeral_2_eq_2)
    next
      case n4: None
      note l4 = l4(1) [OF n4]
      obtain t3 w5 where 5: "time_now w4 = (t3, w5)" by (cases "time_now w4")
      obtain res6 w6 where 6: "append_event sha (outcome_event strip i q opts b0 er0 t3) w5 = (res6, w6)"
        by (cases "append_event sha (outcome_event strip i q opts b0 er0 t3) w5")
      have c5: "closed sha i w5" "saga_lines sha i w5 = saga_lines sha i w4"
        using l4 same_saga_time [OF 5] by simp_all
      note l6 = append_event_lines [OF 6, simplified, OF c5(1)]
      have w': "w' = w6" and er: "er = (if res6 = None then er0 else res6)" and b: "b = b0"
        using run 1 None 2 s 3 4 n4 5 6 by (auto simp: run_preparation_def Let_def split: option.splits)
      have rec: "lifecycle strip i q opts t b0 er0 t2 t3 = [event_record (requested_event i q opts t),
          attempt_record (sanitised strip (prepare_attempt i t2 er0)), event_record (outcome_event strip i q opts b0 er0 t3)]"
        by (simp add: lifecycle_def)
      show thesis
      proof (cases res6)
        case (Some e)
        with w' er l6(2) c5 l4 23 that [of 2 b0 er0 t2 t3] that [of 3 b0 er0 t2 t3] show thesis
          by (cases "saga_lines sha i w6 = saga_lines sha i w5") (auto simp: rec numeral_2_eq_2 numeral_3_eq_3)
      next
        case n6: None
        with w' er b l6(1) c5 l4 23 that [of 3 b0 er0 t2 t3] show thesis
          by (auto simp: rec numeral_3_eq_3)
      qed
    qed
  qed
qed

lemma run_lifecycle_ex:
  assumes "run_preparation sha strip prepare i q opts t w = ((b, d, er), w')"
    "trim_space (pr_invocation_id q) \<noteq> []" "closed sha i w"
  shows "\<exists>b0 er0 t2 t3 k. k \<le> 3
    \<and> (closed sha i w' \<longrightarrow> saga_lines sha i w' = saga_lines sha i w
         @ take k (map line_of (lifecycle strip i q opts t b0 er0 t2 t3)))
    \<and> (er = None \<longrightarrow> closed sha i w' \<and> b0 = b \<and> er0 = None \<and> k = 3)"
  by (rule run_lifecycle [OF assms]) blast

lemma preparer_lifecycle:
  assumes "preparer_prepare sha strip rand
      \<lparr>sk_port = Some prepare, sk_journaled = True\<rparr> q opts w = ((b, d, er), w')"
    "trim_space (pr_invocation_id q) = i" "i \<noteq> []" "closed sha i w"
  shows "closed sha i w' \<Longrightarrow> \<exists>b0 er0 t t2 t3 k. k \<le> 3 \<and> saga_lines sha i w' = saga_lines sha i w
       @ take k (map line_of (lifecycle strip i (q\<lparr>pr_invocation_id := i\<rparr>) opts t b0 er0 t2 t3))"
    "er = None \<Longrightarrow> closed sha i w' \<and> (\<exists>t t2 t3. saga_lines sha i w' = saga_lines sha i w
       @ map line_of (lifecycle strip i (q\<lparr>pr_invocation_id := i\<rparr>) opts t b None t2 t3))"
proof -
  have "(closed sha i w' \<longrightarrow> (\<exists>b0 er0 t t2 t3 k. k \<le> 3 \<and> saga_lines sha i w' = saga_lines sha i w
       @ take k (map line_of (lifecycle strip i (q\<lparr>pr_invocation_id := i\<rparr>) opts t b0 er0 t2 t3))))
    \<and> (er = None \<longrightarrow> closed sha i w' \<and> (\<exists>t t2 t3. saga_lines sha i w' = saga_lines sha i w
       @ map line_of (lifecycle strip i (q\<lparr>pr_invocation_id := i\<rparr>) opts t b None t2 t3)))"
    using assms(1-3)
  proof (cases rule: preparer_explicit)
    case stopped
    have "saga_lines sha i w' = saga_lines sha i w @ take 0 (map line_of
        (lifecycle strip i (q\<lparr>pr_invocation_id := i\<rparr>) opts 0 zero_bundle None 0 0))"
      using same_saga(2) [OF stopped(1)] by simp
    with stopped(2) show ?thesis by blast
  next
    case (ran t fs n)
    let ?v = "w\<lparr>faults := fs, reads := n\<rparr>"
    have same: "entries ?v = entries w" by simp
    have ident: "trim_space (pr_invocation_id (q\<lparr>pr_invocation_id := i\<rparr>)) \<noteq> []"
      using assms(2,3) by auto
    have cl: "closed sha i ?v" using assms(4) same_saga(1) [OF same] by simp
    from run_lifecycle_ex [OF ran ident cl] obtain b0 er0 t2 t3 and k :: nat where k: "k \<le> 3"
      "closed sha i w' \<longrightarrow> saga_lines sha i w' = saga_lines sha i ?v
         @ take k (map line_of (lifecycle strip i (q\<lparr>pr_invocation_id := i\<rparr>) opts t b0 er0 t2 t3))"
      "er = None \<longrightarrow> closed sha i w' \<and> b0 = b \<and> er0 = None \<and> k = 3" by blast
    have "take 3 (map line_of (lifecycle strip i (q\<lparr>pr_invocation_id := i\<rparr>) opts t b None t2 t3))
        = map line_of (lifecycle strip i (q\<lparr>pr_invocation_id := i\<rparr>) opts t b None t2 t3)"
      by (simp add: lifecycle_def)
    then have "er = None \<longrightarrow> closed sha i w' \<and> saga_lines sha i w' = saga_lines sha i ?v
        @ map line_of (lifecycle strip i (q\<lparr>pr_invocation_id := i\<rparr>) opts t b None t2 t3)"
      using k(2,3) by auto
    with k(1,2) show ?thesis unfolding same_saga(2) [OF same, of sha i] by blast
  qed
  then show "closed sha i w' \<Longrightarrow> \<exists>b0 er0 t t2 t3 k. k \<le> 3 \<and> saga_lines sha i w' = saga_lines sha i w
       @ take k (map line_of (lifecycle strip i (q\<lparr>pr_invocation_id := i\<rparr>) opts t b0 er0 t2 t3))"
    "er = None \<Longrightarrow> closed sha i w' \<and> (\<exists>t t2 t3. saga_lines sha i w' = saga_lines sha i w
       @ map line_of (lifecycle strip i (q\<lparr>pr_invocation_id := i\<rparr>) opts t b None t2 t3))"
    by blast+
qed

end

section \<open>Properties\<close>


definition sample_options :: prepare_options where
  "sample_options = \<lparr>po_repository_id = ''repo'', po_session_id = [], po_now = 0\<rparr>"

definition sample_preparer :: "pstate skill_preparer" where
  "sample_preparer = \<lparr>sk_port = Some (prepare_skill id no_floats fixed_id sample_port), sk_journaled = True\<rparr>"

lemma sample_preparation:
  obtains b d w where "preparer_prepare id (\<lambda>u. None) fixed_id sample_preparer sample_request sample_options no_bundles
      = ((b, d, None), w)"
proof -
  have "case fst (preparer_prepare id (\<lambda>u. None) fixed_id sample_preparer sample_request sample_options no_bundles) of
      (b, d, er) \<Rightarrow> er = None"
    by code_simp
  then show thesis using that
    by (cases "preparer_prepare id (\<lambda>u. None) fixed_id sample_preparer sample_request sample_options no_bundles") auto
qed

lemma sample_closed: "closed id ''x'' no_bundles" "trim_space (pr_invocation_id sample_request) = ''x''"
  by (simp add: closed_def saga_segment_def no_bundles_def empty_segment_def, code_simp)


text \<open>The port runs only after the request is durable: when \<open>Prepare\<close> reports
  no attempt (the context was cancelled, no identity could be made, or the request could not be
  journaled), the result and the state are the same for every port, so the port had no effect.\<close>

theorem unjournaled_request_prepares_nothing:
  assumes "preparer_prepare sha strip rand \<lparr>sk_port = Some f, sk_journaled = True\<rparr> q opts w = ((b, d, er), w')"
    "de_attempts d = []"
  shows "preparer_prepare sha strip rand \<lparr>sk_port = Some g, sk_journaled = True\<rparr> q opts w = ((b, d, er), w') \<and> er \<noteq> None"
proof -
  have run: "run_preparation sha strip g i q' opts t v = ((b, d, er), w') \<and> er \<noteq> None"
    if "run_preparation sha strip f i q' opts t v = ((b, d, er), w')" for i q' t v
    using that assms(2)
    by (cases "append_event sha (requested_event i q' opts t) v")
      (auto simp: run_preparation_def Let_def split: option.splits prod.splits)
  show ?thesis
    using assms(1) run
    by (auto simp: preparer_prepare_def split: prod.splits option.splits sum.splits)
qed

theorem unjournaled_request_prepares_nothing_witness:
  "\<exists>b d er w'. preparer_prepare id (\<lambda>u. None) fixed_id
       \<lparr>sk_port = Some (\<lambda>q w. (Inr zero_bundle, w\<lparr>by_id := [(''x'', zero_bundle)]\<rparr>)), sk_journaled = True\<rparr>
       sample_request (sample_options\<lparr>po_repository_id := []\<rparr>) no_bundles = ((b, d, er), w')
     \<and> er \<noteq> None \<and> by_id w' = []"
proof -
  let ?p = "\<lambda>port. preparer_prepare id (\<lambda>u. None) fixed_id \<lparr>sk_port = Some port, sk_journaled = True\<rparr>
      sample_request (sample_options\<lparr>po_repository_id := []\<rparr>) no_bundles"
  have "case ?p (\<lambda>q w. (Inr zero_bundle, w)) of ((b, d, er), w') \<Rightarrow> de_attempts d = [] \<and> by_id w' = []"
    by code_simp
  then obtain b d er w' where p: "?p (\<lambda>q w. (Inr zero_bundle, w)) = ((b, d, er), w')" "de_attempts d = []" "by_id w' = []"
    by (auto split: prod.splits)
  from unjournaled_request_prepares_nothing [OF p(1,2), of "\<lambda>q w. (Inr zero_bundle, w\<lparr>by_id := [(''x'', zero_bundle)]\<rparr>)"] p(3)
  show ?thesis by blast
qed

text \<open>Preparing again under the same identity appends the three records once more, with
  the event identities of the first time: the journal does not keep one event per identity, although
  the type's comment says that a technical replay appends no new events.\<close>

theorem technical_replay_duplicates_events:
  assumes "preparer_prepare sha strip rand
      \<lparr>sk_port = Some (prepare_skill sha' lit new_id port), sk_journaled = True\<rparr> q opts w = ((b, d, None), w')"
    "preparer_prepare sha strip rand
      \<lparr>sk_port = Some (prepare_skill sha' lit new_id port), sk_journaled = True\<rparr> q opts w' = ((b', d', None), w'')"
    "trim_space (pr_invocation_id q) = i" "i \<noteq> []" "closed sha i w"
  shows "\<exists>t t2 t3 u u2 u3. saga_lines sha i w'' = saga_lines sha i w
     @ map line_of (lifecycle strip i (q\<lparr>pr_invocation_id := i\<rparr>) opts t b None t2 t3)
     @ map line_of (lifecycle strip i (q\<lparr>pr_invocation_id := i\<rparr>) opts u b' None u2 u3)"
  using memory_port.preparer_lifecycle(2) [OF assms(1,3,4,5)] memory_port.preparer_lifecycle(2) [OF assms(2,3,4)] by fastforce

theorem technical_replay_duplicates_events_witness:
  "\<exists>(w :: pstate) t t2 t3 u u2 u3 b b'. saga_lines id ''x'' w =
       map line_of (lifecycle (\<lambda>u. None) ''x'' sample_request sample_options t b None t2 t3)
     @ map line_of (lifecycle (\<lambda>u. None) ''x'' sample_request sample_options u b' None u2 u3)"
proof -
  let ?run = "preparer_prepare id (\<lambda>u. None) fixed_id sample_preparer sample_request sample_options"
  obtain b d w where p: "?run no_bundles = ((b, d, None), w)" by (rule sample_preparation)
  have "case ?run (snd (?run no_bundles)) of ((b, d, er), w') \<Rightarrow> er = None" by code_simp
  with p obtain b' d' w' where p': "?run w = ((b', d', None), w')" by (auto split: prod.splits)
  have e: "saga_lines id ''x'' no_bundles = []"
    by (simp add: saga_lines_def saga_segment_def no_bundles_def empty_segment_def)
  have q: "sample_request\<lparr>pr_invocation_id := ''x''\<rparr> = sample_request" by (simp add: sample_request_def)
  have x: "''x'' \<noteq> []" by simp
  from technical_replay_duplicates_events [OF p [unfolded sample_preparer_def] p' [unfolded sample_preparer_def]
        sample_closed(2) x sample_closed(1), unfolded e q append_Nil]
  show ?thesis by blast
qed

end
