(* ===== verification/Artifact_Path.thy ===== *)
theory Artifact_Path
  imports Session_Model Local_Stores
begin

text \<open>
  \<open>core/skill_artifact.go\<close> with the functions of \<open>path/filepath\<close> it uses (on Unix): a cleaned path is
  whether it is rooted and its elements. \<open>filepath.EvalSymlinks\<close> is the parameter \<open>ev\<close>, which gives
  a cleaned path or an error; the files that are there (\<open>fs\<close>), the hash (\<open>sha\<close>) and \<open>http.DetectContentType\<close> (\<open>sniff\<close>) are
  parameters too. Each read of a file may fail through the environment.
\<close>

section \<open>Paths\<close>

record clean_path =
  cp_rooted :: bool
  cp_parts :: "string list"

definition dot :: string where "dot = ''.''"
definition dotdot :: string where "dotdot = ''..''"

text \<open>The loop of \<open>filepath.Clean\<close> over the elements; the accumulator is reversed.\<close>

fun clean_parts :: "bool \<Rightarrow> string list \<Rightarrow> string list \<Rightarrow> string list" where
  "clean_parts rooted acc [] = rev acc"
| "clean_parts rooted acc (p # ps) =
     (if p = [] \<or> p = dot then clean_parts rooted acc ps
      else if p = dotdot then
        (case acc of
           q # qs \<Rightarrow> if q = dotdot then clean_parts rooted (dotdot # acc) ps else clean_parts rooted qs ps
         | [] \<Rightarrow> if rooted then clean_parts rooted [] ps else clean_parts rooted [dotdot] ps)
      else clean_parts rooted (p # acc) ps)"

definition clean :: "string \<Rightarrow> clean_path" where
  "clean s = (let r = has_prefix ''/'' s in \<lparr>cp_rooted = r, cp_parts = clean_parts r [] (split_on (CHR ''/'') s)\<rparr>)"

definition path_text :: "clean_path \<Rightarrow> string" where
  "path_text c =
     (if cp_rooted c then ''/'' @ join_with ''/'' (cp_parts c)
      else if cp_parts c = [] then dot else join_with ''/'' (cp_parts c))"

text \<open>\<open>filepath.Join\<close> of a cleaned path and a relative one, and \<open>filepath.Join\<close> of two strings.\<close>

definition join_clean :: "clean_path \<Rightarrow> string \<Rightarrow> clean_path" where
  "join_clean c s = c\<lparr>cp_parts := clean_parts (cp_rooted c) (rev (cp_parts c)) (split_on (CHR ''/'') s)\<rparr>"

definition join_text :: "string \<Rightarrow> string \<Rightarrow> clean_path" where
  "join_text a b = clean (if a = [] then b else if b = [] then a else a @ ''/'' @ b)"

fun strip_common :: "string list \<Rightarrow> string list \<Rightarrow> string list \<times> string list" where
  "strip_common (b # bs) (t # ts) = (if b = t then strip_common bs ts else (b # bs, t # ts))"
| "strip_common bs ts = (bs, ts)"

text \<open>\<open>filepath.Rel\<close>: the elements of the relative path.\<close>

definition rel_parts :: "clean_path \<Rightarrow> clean_path \<Rightarrow> string list option" where
  "rel_parts b t =
     (if cp_rooted b \<noteq> cp_rooted t then None
      else (case strip_common (cp_parts b) (cp_parts t) of
              (bs, ts) \<Rightarrow> if bs \<noteq> [] \<and> hd bs = dotdot then None
                         else Some (replicate (length bs) dotdot @ ts)))"

text \<open>The test of the code on the result of \<open>Rel\<close>.\<close>

definition escapes :: "string list option \<Rightarrow> bool" where
  "escapes r = (case r of None \<Rightarrow> True | Some ps \<Rightarrow> ps \<noteq> [] \<and> hd ps = dotdot)"

section \<open>Safe paths\<close>

definition unsafe_err :: "string \<Rightarrow> err" where
  "unsafe_err t = GoErr [ErrSkillInvocationArtifactUnsafe] (''skill invocation artifact path is unsafe: '' @ t)"

definition normalize_artifact_path :: "string \<Rightarrow> string res" where
  "normalize_artifact_path v =
     (let raw = trim_space v in
      if raw = [] then Inl (unsafe_err ''artifact path is required'')
      else if contains_str raw [CHR 0x5C] \<or> has_prefix ''/'' raw
      then Inl (unsafe_err ''artifact path must be a portable, repository-relative path'')
      else (let parts = split_on (CHR ''/'') raw in
        if list_ex (\<lambda>p. p = [] \<or> p = dot \<or> p = dotdot) parts
        then Inl (unsafe_err ''artifact path must not contain traversal or empty segments'')
        else Inr (join_with ''/'' parts)))"

text \<open>
  The loop that walks up to the nearest existing ancestor. It is written without a termination proof,
  as the code's \<open>for\<close> is: not returning would be \<^term>\<open>None\<close>.
\<close>

partial_function (option) eval_existing ::
  "(string \<Rightarrow> clean_path res) \<Rightarrow> clean_path \<Rightarrow> string list \<Rightarrow> clean_path res option"
where
  "eval_existing ev c missing =
     (case ev (path_text c) of
        Inr r \<Rightarrow> Some (Inr (fold (\<lambda>m r. join_clean r m) missing r))
      | Inl e \<Rightarrow>
          if \<not> errors_is e ErrNotExist then Some (Inl e)
          else if cp_parts c = [] then Some (Inl e)
          else eval_existing ev (c\<lparr>cp_parts := butlast (cp_parts c)\<rparr>) (last (cp_parts c) # missing))"

declare eval_existing.simps [code]

definition resolve_artifact_path :: "(string \<Rightarrow> clean_path res) \<Rightarrow> string \<Rightarrow> string \<Rightarrow> clean_path res option" where
  "resolve_artifact_path ev root relative =
     (case normalize_artifact_path relative of
        Inl e \<Rightarrow> Some (Inl e)
      | Inr r \<Rightarrow>
     (let resolved = join_text root r in
      if escapes (rel_parts (clean root) resolved)
      then Some (Inl (unsafe_err ''artifact path escapes the repository root''))
      else
     (case ev root of
        Inl e \<Rightarrow> Some (Inl (wrap_with ''resolve repository root symlinks'' e))
      | Inr canonical_root \<Rightarrow>
     (case eval_existing ev resolved [] of
        None \<Rightarrow> None
      | Some (Inl e) \<Rightarrow> Some (Inl (wrap_with ''resolve artifact path symlinks'' e))
      | Some (Inr canonical) \<Rightarrow>
          if escapes (rel_parts canonical_root canonical)
          then Some (Inl (unsafe_err ''artifact path escapes the repository root through a symlink''))
          else Some (Inr resolved)))))"

section \<open>Observing artifacts\<close>

datatype node_kind = Directory | Regular string

definition ArtifactAvailabilityVerified :: string where "ArtifactAvailabilityVerified = ''verified''"
definition ArtifactAvailabilityMissing :: string where "ArtifactAvailabilityMissing = ''missing''"

definition missing_artifact :: "string \<Rightarrow> invocation_artifact" where
  "missing_artifact p = zero_artifact\<lparr>ia_path := p, ia_availability := ArtifactAvailabilityMissing\<rparr>"

text \<open>Opening, \<open>Stat\<close>, reading the first 512 bytes, seeking back, copying into the hash.\<close>

definition verify_artifact_file ::
  "(string \<Rightarrow> string) \<Rightarrow> (string \<Rightarrow> string) \<Rightarrow> (string \<Rightarrow> node_kind option) \<Rightarrow> string \<Rightarrow> string
     \<Rightarrow> 'a env_scheme \<Rightarrow> invocation_artifact \<times> 'a env_scheme"
where
  "verify_artifact_file sha sniff fs declared resolved w =
     (case try_io w of
        (Some e, w1) \<Rightarrow> (missing_artifact declared, w1)
      | (None, w1) \<Rightarrow>
     (case fs resolved of
        None \<Rightarrow> (missing_artifact declared, w1)
      | Some kind \<Rightarrow>
     (case try_io w1 of
        (Some e, w2) \<Rightarrow> (missing_artifact declared, w2)
      | (None, w2) \<Rightarrow>
     (case kind of
        Directory \<Rightarrow> (missing_artifact declared, w2)
      | Regular body \<Rightarrow>
     (case try_ios 3 w2 of
        (Some e, w3) \<Rightarrow> (missing_artifact declared, w3)
      | (None, w3) \<Rightarrow>
          (\<lparr>ia_path = declared, ia_sha256 = sha body, ia_media_type = sniff (take 512 body),
            ia_size_bytes = int (length body), ia_availability = ArtifactAvailabilityVerified\<rparr>, w3))))))"

text \<open>What a session close takes of the file system.\<close>

record file_view =
  fv_eval :: "string \<Rightarrow> clean_path res"
  fv_files :: "string \<Rightarrow> node_kind option"
  fv_sniff :: "string \<Rightarrow> string"

fun verify_artifacts ::
  "(string \<Rightarrow> string) \<Rightarrow> file_view \<Rightarrow> string \<Rightarrow> invocation_artifact list
     \<Rightarrow> 'a env_scheme \<Rightarrow> invocation_artifact list res option \<times> 'a env_scheme"
where
  "verify_artifacts sha fv root [] w = (Some (Inr []), w)"
| "verify_artifacts sha fv root (a # as) w =
     (case resolve_artifact_path (fv_eval fv) root (ia_path a) of
        None \<Rightarrow> (None, w)
      | Some (Inl e) \<Rightarrow> (Some (Inl e), w)
      | Some (Inr resolved) \<Rightarrow>
     (case verify_artifact_file sha (fv_sniff fv) (fv_files fv) (ia_path a) (path_text resolved) w of
        (v, w1) \<Rightarrow>
     (case verify_artifacts sha fv root as w1 of
        (Some (Inr vs), w2) \<Rightarrow> (Some (Inr (v # vs)), w2)
      | (Some (Inl e), w2) \<Rightarrow> (Some (Inl e), w2)
      | (None, w2) \<Rightarrow> (None, w2))))"

section \<open>Lemmas\<close>

definition plain :: "string \<Rightarrow> bool" where
  "plain p = (p \<noteq> [] \<and> p \<noteq> dot \<and> p \<noteq> dotdot \<and> CHR ''/'' \<notin> set p)"

lemma clean_parts_append:
  "clean_parts r acc (xs @ ys) = clean_parts r (rev (clean_parts r acc xs)) ys"
  by (induction r acc xs rule: clean_parts.induct) (auto split: list.split)

lemma clean_parts_plain: "list_all plain ps \<Longrightarrow> clean_parts r acc ps = rev acc @ ps"
  by (induction ps arbitrary: acc) (auto simp: plain_def)

lemma split_on_append: "split_on c (a @ c # b) = split_on c a @ split_on c b"
proof (induction a)
  case (Cons x xs)
  then show ?case by (cases "split_on c xs") auto
qed simp

lemma normalize_plain:
  assumes "normalize_artifact_path v = Inr r"
  shows "list_all plain (split_on (CHR ''/'') r)" "split_on (CHR ''/'') r \<noteq> []" "r \<noteq> []"
    "normalize_artifact_path r = Inr r"
proof -
  let ?raw = "trim_space v"
  from assms have r: "r = ?raw" "?raw \<noteq> []" "\<not> contains_str ?raw [CHR 0x5C]" "\<not> has_prefix ''/'' ?raw"
    "\<not> list_ex (\<lambda>p. p = [] \<or> p = dot \<or> p = dotdot) (split_on (CHR ''/'') ?raw)"
    by (auto simp: normalize_artifact_path_def Let_def split: if_splits)
  then have "\<forall>p \<in> set (split_on (CHR ''/'') r). plain p"
    using split_on_pieces by (fastforce simp: list_ex_iff plain_def)
  then show "list_all plain (split_on (CHR ''/'') r)" by (simp add: list_all_iff)
  show "split_on (CHR ''/'') r \<noteq> []" "r \<noteq> []" using r by simp_all
  have "trim_space r = r" using r(1) by simp
  with r show "normalize_artifact_path r = Inr r"
    by (simp add: normalize_artifact_path_def Let_def)
qed

lemma join_normalized:
  assumes "normalize_artifact_path v = Inr r"
  shows "cp_parts (join_text root r) = cp_parts (clean root) @ split_on (CHR ''/'') r"
    "cp_rooted (join_text root r) = cp_rooted (clean root)"
proof -
  note n = normalize_plain [OF assms]
  have "\<not> has_prefix ''/'' r"
    using n(1) by (cases r) (auto simp: plain_def split: list.splits if_splits)
  then have "cp_parts (join_text root r) = cp_parts (clean root) @ split_on (CHR ''/'') r
      \<and> cp_rooted (join_text root r) = cp_rooted (clean root)"
  proof (cases root)
    case Nil
    with \<open>\<not> has_prefix ''/'' r\<close> n show ?thesis
      by (simp add: join_text_def clean_def Let_def clean_parts_plain)
  next
    case (Cons c cs)
    have "split_on (CHR ''/'') (root @ ''/'' @ r) = split_on (CHR ''/'') root @ split_on (CHR ''/'') r"
      by (simp add: split_on_append)
    with Cons n show ?thesis
      by (simp add: join_text_def clean_def Let_def clean_parts_append clean_parts_plain)
  qed
  then show "cp_parts (join_text root r) = cp_parts (clean root) @ split_on (CHR ''/'') r"
    "cp_rooted (join_text root r) = cp_rooted (clean root)" by auto
qed

lemma strip_common_append [simp]: "strip_common xs (xs @ ys) = ([], ys)"
  by (induction xs) (cases ys; simp)+

lemma strip_common_split: "strip_common bs ts = (bs', ts') \<Longrightarrow> \<exists>c. bs = c @ bs' \<and> ts = c @ ts'"
proof (induction bs ts rule: strip_common.induct)
  case (1 b bs t ts)
  then show ?case by (auto split: if_splits)
qed auto

text \<open>The test on the result of \<open>Rel\<close> is the test for being below.\<close>

lemma not_escapes:
  assumes "\<not> escapes (rel_parts b t)"
  shows "cp_rooted b = cp_rooted t \<and> (\<exists>rest. cp_parts t = cp_parts b @ rest)"
proof -
  obtain bs ts where s: "strip_common (cp_parts b) (cp_parts t) = (bs, ts)"
    by (cases "strip_common (cp_parts b) (cp_parts t)")
  with assms have "cp_rooted b = cp_rooted t" "bs = []"
    by (cases bs; auto simp: escapes_def rel_parts_def split: if_splits)+
  with strip_common_split [OF s] show ?thesis by auto
qed

lemma lexical_check_passes:
  assumes "normalize_artifact_path v = Inr r"
  shows "\<not> escapes (rel_parts (clean root) (join_text root r))"
proof -
  note n = normalize_plain [OF assms]
  then have "hd (split_on (CHR ''/'') r) \<noteq> dotdot"
    by (cases "split_on (CHR ''/'') r") (auto simp: plain_def)
  then show ?thesis
    by (simp add: escapes_def rel_parts_def join_normalized [OF assms])
qed

lemma resolve_cases:
  assumes "normalize_artifact_path p = Inr r"
  shows "resolve_artifact_path ev root p =
    (case ev root of
        Inl e \<Rightarrow> Some (Inl (wrap_with ''resolve repository root symlinks'' e))
      | Inr canonical_root \<Rightarrow>
     (case eval_existing ev (join_text root r) [] of
        None \<Rightarrow> None
      | Some (Inl e) \<Rightarrow> Some (Inl (wrap_with ''resolve artifact path symlinks'' e))
      | Some (Inr canonical) \<Rightarrow>
          if escapes (rel_parts canonical_root canonical)
          then Some (Inl (unsafe_err ''artifact path escapes the repository root through a symlink''))
          else Some (Inr (join_text root r))))"
  using assms lexical_check_passes [OF assms] by (simp add: resolve_artifact_path_def Let_def)

lemma eval_existing_returns: "\<exists>r. eval_existing ev c missing = Some r"
proof (induction "length (cp_parts c)" arbitrary: c missing)
  case 0
  then show ?case by (subst eval_existing.simps) (auto split: sum.split)
next
  case (Suc n)
  then have "\<exists>r. eval_existing ev (c\<lparr>cp_parts := butlast (cp_parts c)\<rparr>) (last (cp_parts c) # missing) = Some r"
    by simp
  with Suc(2) show ?case by (subst eval_existing.simps) (auto split: sum.split)
qed

lemma resolve_returns: "\<exists>r. resolve_artifact_path ev root p = Some r"
proof (cases "normalize_artifact_path p")
  case (Inl e)
  then show ?thesis by (simp add: resolve_artifact_path_def)
next
  case (Inr r)
  from eval_existing_returns [of ev "join_text root r" "[]"]
  obtain x where "eval_existing ev (join_text root r) [] = Some x" by blast
  then show ?thesis unfolding resolve_cases [OF Inr] by (auto split: sum.split)
qed

section \<open>Properties\<close>

text \<open>The walk to the nearest existing ancestor returns, with a path or an error, for every
  path and every behaviour of the file system, also when nothing exists, and so does resolving an artifact's path.\<close>

theorem ancestor_walk_terminates:
  "(\<exists>r. eval_existing ev c missing = Some r) \<and> (\<exists>r. resolve_artifact_path ev root p = Some r)"
  using eval_existing_returns resolve_returns by blast

text \<open>C16: a path that is accepted is the repository root followed by ordinary segments, and the
  path it denotes once symbolic links are followed (through its nearest existing ancestor) lies below the
  real root: no file outside the repository is ever opened for an artifact.\<close>

theorem artifact_path_confined:
  assumes "resolve_artifact_path ev root p = Some (Inr resolved)"
  shows "(\<exists>segs. segs \<noteq> [] \<and> list_all plain segs \<and> cp_parts resolved = cp_parts (clean root) @ segs)
     \<and> (\<exists>r c rest. ev root = Inr r \<and> eval_existing ev resolved [] = Some (Inr c)
          \<and> cp_rooted c = cp_rooted r \<and> cp_parts c = cp_parts r @ rest)"
proof -
  from assms obtain n where n: "normalize_artifact_path p = Inr n"
    by (auto simp: resolve_artifact_path_def split: sum.splits)
  from assms [unfolded resolve_cases [OF n]] obtain r c where rc: "ev root = Inr r"
    "eval_existing ev (join_text root n) [] = Some (Inr c)" "\<not> escapes (rel_parts r c)" "resolved = join_text root n"
    by (auto split: sum.splits option.splits if_splits)
  from not_escapes [OF rc(3)] rc normalize_plain [OF n] join_normalized [OF n] show ?thesis by auto
qed

definition sample_eval :: "string \<Rightarrow> clean_path res" where
  "sample_eval s = (if s = ''/r'' \<or> s = ''/r/d'' \<or> s = ''/'' then Inr (clean s)
     else if s = ''/r/out'' then Inr (clean ''/etc'')
     else if has_prefix ''/r/file/'' s then Inl (new_err ''not a directory'')
     else Inl (GoErr [ErrNotExist] ''no such file or directory''))"

definition resolves_to :: "clean_path res option \<Rightarrow> clean_path \<Rightarrow> bool" where
  "resolves_to r c = (case r of Some (Inr x) \<Rightarrow> x = c | _ \<Rightarrow> False)"

lemma sample_evals:
  "sample_eval ''/r'' = Inr (clean ''/r'')" "sample_eval ''/r/d'' = Inr (clean ''/r/d'')"
  "sample_eval ''/r/d/x.md'' = Inl (GoErr [ErrNotExist] ''no such file or directory'')"
  "sample_eval ''/r/out/x'' = Inl (GoErr [ErrNotExist] ''no such file or directory'')"
  "sample_eval ''/r/out'' = Inr (clean ''/etc'')"
  "sample_eval ''/r/file/x'' = Inl (new_err ''not a directory'')"
  by code_simp+

lemma sample_paths:
  "normalize_artifact_path ''d/x.md'' = Inr ''d/x.md''" "normalize_artifact_path ''file/x'' = Inr ''file/x''"
  "join_text ''/r'' ''d/x.md'' = \<lparr>cp_rooted = True, cp_parts = [''r'', ''d'', ''x.md'']\<rparr>"
  "join_text ''/r'' ''file/x'' = \<lparr>cp_rooted = True, cp_parts = [''r'', ''file'', ''x'']\<rparr>"
  "clean ''/r'' = \<lparr>cp_rooted = True, cp_parts = [''r'']\<rparr>"
  "clean ''/r/d'' = \<lparr>cp_rooted = True, cp_parts = [''r'', ''d'']\<rparr>"
  by code_simp+

lemma sample_resolve:
  "resolve_artifact_path sample_eval ''/r'' ''d/x.md'' = Some (Inr \<lparr>cp_rooted = True, cp_parts = [''r'', ''d'', ''x.md'']\<rparr>)"
proof -
  have "eval_existing sample_eval \<lparr>cp_rooted = True, cp_parts = [''r'', ''d'', ''x.md'']\<rparr> []
      = Some (Inr \<lparr>cp_rooted = True, cp_parts = [''r'', ''d'', ''x.md'']\<rparr>)"
    by (subst eval_existing.simps, subst eval_existing.simps)
      (simp add: path_text_def sample_evals sample_paths join_clean_def dot_def dotdot_def)
  then show ?thesis
    by (simp add: resolve_cases [OF sample_paths(1)] sample_evals sample_paths rel_parts_def escapes_def dotdot_def)
qed

theorem artifact_path_confined_witness:
  "\<exists>segs. cp_parts \<lparr>cp_rooted = True, cp_parts = [''r'', ''d'', ''x.md'']\<rparr> = cp_parts (clean ''/r'') @ segs \<and> list_all plain segs"
  using artifact_path_confined [OF sample_resolve] by blast

text \<open>When the artifacts of a record pass, every one is kept in order with its declared
  path, and is either recorded as missing or carries the hash, size and media type of the regular
  file found there; no I/O error fails the verification.\<close>

theorem artifacts_observed_or_missing:
  assumes "verify_artifacts sha fv root as w = (Some (Inr vs), w')"
  shows "list_all2 (\<lambda>a v. v = missing_artifact (ia_path a)
       \<or> (\<exists>resolved body. resolve_artifact_path (fv_eval fv) root (ia_path a) = Some (Inr resolved)
            \<and> fv_files fv (path_text resolved) = Some (Regular body)
            \<and> v = \<lparr>ia_path = ia_path a, ia_sha256 = sha body, ia_media_type = fv_sniff fv (take 512 body),
                   ia_size_bytes = int (length body), ia_availability = ArtifactAvailabilityVerified\<rparr>)) as vs"
  using assms
proof (induction as arbitrary: w vs)
  case Nil
  then show ?case by simp
next
  case (Cons a as)
  from Cons.prems obtain resolved v w1 us where step: "resolve_artifact_path (fv_eval fv) root (ia_path a) = Some (Inr resolved)"
    "verify_artifact_file sha (fv_sniff fv) (fv_files fv) (ia_path a) (path_text resolved) w = (v, w1)"
    "verify_artifacts sha fv root as w1 = (Some (Inr us), w')" "vs = v # us"
    by (auto split: option.splits sum.splits prod.splits)
  from step(2) have "v = missing_artifact (ia_path a) \<or> (\<exists>body. fv_files fv (path_text resolved) = Some (Regular body)
      \<and> v = \<lparr>ia_path = ia_path a, ia_sha256 = sha body, ia_media_type = fv_sniff fv (take 512 body),
             ia_size_bytes = int (length body), ia_availability = ArtifactAvailabilityVerified\<rparr>)"
    by (auto simp: verify_artifact_file_def split: prod.splits option.splits node_kind.splits)
  with step Cons.IH [OF step(3)] show ?case by auto
qed

definition sample_view :: file_view where
  "sample_view = \<lparr>fv_eval = sample_eval, fv_files = (\<lambda>p. if p = ''/r/d/x.md'' then Some (Regular ''hi'') else None),
     fv_sniff = (\<lambda>s. ''text/plain'')\<rparr>"

definition calm_env :: env where
  "calm_env = \<lparr>faults = [], clock = (\<lambda>n. 1), reads = 0\<rparr>"

theorem artifacts_observed_or_missing_witness:
  "\<exists>v w'. verify_artifacts (\<lambda>s. s) sample_view ''/r'' [zero_artifact\<lparr>ia_path := ''d/x.md''\<rparr>] calm_env = (Some (Inr [v]), w')
     \<and> (v = missing_artifact ''d/x.md'' \<or> ia_sha256 v = ''hi'')"
proof -
  have "\<exists>v. verify_artifacts (\<lambda>s. s) sample_view ''/r'' [zero_artifact\<lparr>ia_path := ''d/x.md''\<rparr>] calm_env = (Some (Inr [v]), calm_env)"
    by (simp add: sample_view_def sample_resolve verify_artifact_file_def path_text_def calm_env_def try_ios_calm)
  then obtain v where v: "verify_artifacts (\<lambda>s. s) sample_view ''/r'' [zero_artifact\<lparr>ia_path := ''d/x.md''\<rparr>] calm_env = (Some (Inr [v]), calm_env)"
    by blast
  from artifacts_observed_or_missing [OF v] have "v = missing_artifact ''d/x.md'' \<or> ia_sha256 v = ''hi''"
    by (auto simp: sample_view_def split: if_splits)
  with v show ?thesis by blast
qed

text \<open>An artifact path through a regular file (or an unreadable directory) is not unsafe and
  cannot be observed, yet it is not recorded as missing: the error of following the links fails the
  verification, although the comment says that only an unsafe path may.\<close>

theorem unreadable_parent_fails_close:
  "\<exists>e. verify_artifacts sha sample_view ''/r'' [zero_artifact\<lparr>ia_path := ''file/x''\<rparr>] w = (Some (Inl e), w)
     \<and> \<not> errors_is e ErrSkillInvocationArtifactUnsafe"
proof -
  have "eval_existing sample_eval \<lparr>cp_rooted = True, cp_parts = [''r'', ''file'', ''x'']\<rparr> []
      = Some (Inl (new_err ''not a directory''))"
    by (subst eval_existing.simps) (simp add: path_text_def sample_evals)
  then show ?thesis
    by (simp add: sample_view_def resolve_cases [OF sample_paths(2)] sample_evals sample_paths)
qed

end
