(* ===== verification/Recovery.thy ===== *)
theory Recovery
  imports Session_Model "HOL-Library.Product_Lexorder"
begin

text \<open>
  \<open>core/recovery.go\<close>: the read-only projection of the journal into pending obligations. One pass
  over the records of a saga keeps the last envelope, the graph state, the last storage
  result and whether it is resolved; up to three items come out of it. \<open>sort.Slice\<close> orders
  the items by saga and state (it leaves the order of equal keys open; the model takes
  the stable one).
\<close>

record recovery_item =
  ri_saga_id :: string
  ri_event_id :: string
  ri_repository_id :: string
  ri_key :: string
  ri_state :: string
  ri_backend :: string
  ri_provider :: string
  ri_remote_id :: string
  ri_remote_url :: string
  ri_remote_revision :: string
  ri_failure_class :: string
  ri_conflict_snapshot :: string
  ri_attempts :: "handler_attempt list"
  ri_last_error :: string
  ri_next_action :: string

definition GraphReady :: string where "GraphReady = ''ready''"
definition GraphResolutionPending :: string where
  "GraphResolutionPending = ''GraphResolutionPending''"
definition GraphSyncPending :: string where "GraphSyncPending = ''GraphSyncPending''"

definition is_storage_handler :: "string \<Rightarrow> bool" where
  "is_storage_handler h =
     (h = ''storage-mirror'' \<or> h = ''storage-retry'' \<or> h = ''storage-resolve'' \<or> h = ''storage-shutdown'')"

definition failed_storage_attempt :: "handler_attempt \<Rightarrow> bool" where
  "failed_storage_attempt a =
     (is_storage_handler (ha_handler_id a) \<and> ha_outcome a = ''failed'' \<and> ha_error a \<noteq> [])"

definition latest_failed_storage_diagnostic :: "handler_attempt list \<Rightarrow> string" where
  "latest_failed_storage_diagnostic as =
     (case find failed_storage_attempt (rev as) of None \<Rightarrow> [] | Some a \<Rightarrow> ha_error a)"

definition error_string :: "err option \<Rightarrow> string" where
  "error_string e = (case e of None \<Rightarrow> [] | Some er \<Rightarrow> err_text er)"

definition next_storage_action :: "string \<Rightarrow> string \<Rightarrow> storage_result \<Rightarrow> string" where
  "next_storage_action saga key r =
     (if sr_state r = SyncConflict
      then ''syntroph sync resolve '' @ saga @ '' --keep-local|--keep-remote''
      else if sr_state r = PrerequisiteMissing then ''syntroph doctor storage''
      else if sr_already_in_progress r then ''syntroph sync recovery --clear-lock '' @ key
      else ''syntroph sync retry --storage'')"

text \<open>\<open>applyStorageRecovery\<close>\<close>

definition apply_storage_recovery ::
  "(string \<Rightarrow> string option) \<Rightarrow> recovery_item \<Rightarrow> storage_result \<Rightarrow> recovery_item" where
  "apply_storage_recovery strip item r =
     (let key = first_nonempty [sr_key r, ri_key item] in
      item\<lparr>ri_state := sr_state r, ri_key := key, ri_backend := sr_backend r,
           ri_provider := sr_provider r, ri_remote_id := sr_remote_id r,
           ri_remote_url := sr_remote_url r, ri_remote_revision := sr_remote_rev r,
           ri_failure_class := sr_failure_class r, ri_conflict_snapshot := sr_conflict_snapshot r,
           ri_last_error := safe_diagnostic strip
             (first_nonempty [sr_error r, error_string (sr_cause r)]),
           ri_next_action := next_storage_action (ri_saga_id item) key r\<rparr>)"

text \<open>The variables of the loop over the records of one saga.\<close>

record scan_state =
  sc_item :: recovery_item
  sc_graph :: string
  sc_storage :: "storage_result option"
  sc_resolved :: bool

definition new_item :: "string \<Rightarrow> recovery_item" where
  "new_item saga = \<lparr>ri_saga_id = saga, ri_event_id = [], ri_repository_id = [], ri_key = [],
     ri_state = ''Succeeded'', ri_backend = [], ri_provider = [], ri_remote_id = [],
     ri_remote_url = [], ri_remote_revision = [], ri_failure_class = [],
     ri_conflict_snapshot = [], ri_attempts = [], ri_last_error = [], ri_next_action = ''none''\<rparr>"

definition start_scan :: "string \<Rightarrow> scan_state" where
  "start_scan saga = \<lparr>sc_item = new_item saga, sc_graph = [], sc_storage = None, sc_resolved = False\<rparr>"

definition payload_result :: "event \<Rightarrow> storage_result option" where
  "payload_result e = (case ev_payload e of None \<Rightarrow> None | Some j \<Rightarrow> dec_result j)"

definition payload_diary :: "event \<Rightarrow> session_diary option" where
  "payload_diary e = (case ev_payload e of None \<Rightarrow> None | Some j \<Rightarrow> dec_diary j)"

text \<open>The event is a closed session whose payload is a diary.\<close>

definition scan_closed :: "event \<Rightarrow> scan_state \<Rightarrow> scan_state" where
  "scan_closed e s =
     (if ev_type e \<noteq> ''session.closed'' then s
      else (case payload_diary e of
              None \<Rightarrow> s
            | Some d \<Rightarrow>
                s\<lparr>sc_item := (sc_item s)\<lparr>ri_key := sd_key d\<rparr>,
                  sc_graph := (if sd_graph_state d = GraphResolutionPending then GraphResolutionPending
                               else if sd_graph_state d = GraphSyncPending then GraphSyncPending
                               else sc_graph s)\<rparr>))"

definition scan_storage :: "event \<Rightarrow> scan_state \<Rightarrow> scan_state" where
  "scan_storage e s =
     (if ev_type e = ''storage.sync.requested''
      then (case payload_result e of
              None \<Rightarrow> s
            | Some r \<Rightarrow> s\<lparr>sc_storage := Some (if sr_state r = [] then r\<lparr>sr_state := SyncPending\<rparr> else r),
                           sc_resolved := False\<rparr>)
      else if ev_type e = ''storage.sync.succeeded'' \<or> ev_type e = ''storage.sync.resolved''
      then (case payload_result e of
              Some r \<Rightarrow> if sr_key r \<noteq> [] then s\<lparr>sc_resolved := True, sc_storage := Some r\<rparr>
                        else s\<lparr>sc_resolved := True\<rparr>
            | None \<Rightarrow> s\<lparr>sc_resolved := True\<rparr>)
      else if ev_type e = ''storage.sync.pending'' \<or> ev_type e = ''storage.sync.conflict''
           \<or> ev_type e = ''storage.prerequisite.missing''
      then (case payload_result e of
              None \<Rightarrow> s
            | Some r \<Rightarrow> s\<lparr>sc_storage := Some r, sc_resolved := False\<rparr>)
      else s)"

definition scan_record :: "journal_record \<Rightarrow> scan_state \<Rightarrow> scan_state" where
  "scan_record r s =
     (case jr_attempt r of
        Some a \<Rightarrow> s\<lparr>sc_item := (sc_item s)\<lparr>ri_attempts := ri_attempts (sc_item s) @ [a]\<rparr>\<rparr>
      | None \<Rightarrow>
         (case jr_event r of
            None \<Rightarrow> s
          | Some e \<Rightarrow>
              scan_storage e (scan_closed e
                (s\<lparr>sc_item := (sc_item s)\<lparr>ri_event_id := ev_id e,
                                          ri_repository_id := ev_repository_id e\<rparr>\<rparr>))))"

definition scan_records :: "string \<Rightarrow> journal_record list \<Rightarrow> scan_state" where
  "scan_records saga rs = fold scan_record rs (start_scan saga)"

text \<open>The backward loop over the attempts: the latest attempt of each handler, newest first.\<close>

fun pending_handler :: "string list \<Rightarrow> handler_attempt list \<Rightarrow> handler_attempt option" where
  "pending_handler seen [] = None"
| "pending_handler seen (a # as) =
     (if ha_handler_id a \<in> set seen then pending_handler seen as
      else if is_storage_handler (ha_handler_id a) \<or> ha_outcome a \<noteq> ''failed''
      then pending_handler (ha_handler_id a # seen) as
      else Some a)"

definition storage_items :: "(string \<Rightarrow> string option) \<Rightarrow> scan_state \<Rightarrow> recovery_item list" where
  "storage_items strip s =
     (case sc_storage s of
        Some r \<Rightarrow>
          if sc_resolved s then []
          else (let it = apply_storage_recovery strip (sc_item s) r;
                    diagnostic = latest_failed_storage_diagnostic (ri_attempts (sc_item s))
                in [if diagnostic \<noteq> [] then it\<lparr>ri_last_error := safe_diagnostic strip diagnostic\<rparr> else it])
      | None \<Rightarrow> [])"

definition handler_items :: "scan_state \<Rightarrow> recovery_item list" where
  "handler_items s =
     (case pending_handler [] (rev (ri_attempts (sc_item s))) of
        None \<Rightarrow> []
      | Some a \<Rightarrow> [(sc_item s)\<lparr>ri_state := ''HandlerPending'', ri_last_error := ha_error a,
                              ri_next_action := ''syntroph sync retry''\<rparr>])"

definition graph_items :: "scan_state \<Rightarrow> recovery_item list" where
  "graph_items s =
     (if sc_graph s = [] then []
      else [(sc_item s)\<lparr>ri_state := sc_graph s, ri_next_action := ''syntroph sync retry --graph''\<rparr>])"

definition saga_items ::
  "(string \<Rightarrow> string option) \<Rightarrow> string \<Rightarrow> journal_record list \<Rightarrow> recovery_item list" where
  "saga_items strip saga rs =
     (let s = scan_records saga rs in storage_items strip s @ handler_items s @ graph_items s)"

fun inspect_sagas ::
  "(string \<Rightarrow> string) \<Rightarrow> (string \<Rightarrow> string option) \<Rightarrow> string list \<Rightarrow> 'a jstate_scheme
     \<Rightarrow> recovery_item list res \<times> 'a jstate_scheme" where
  "inspect_sagas sha strip [] w = (Inr [], w)"
| "inspect_sagas sha strip (saga # sagas) w =
     (case read_saga sha saga w of
        (Inl e, w1) \<Rightarrow> (Inl e, w1)
      | (Inr rs, w1) \<Rightarrow>
         (case inspect_sagas sha strip sagas w1 of
            (Inl e, w2) \<Rightarrow> (Inl e, w2)
          | (Inr items, w2) \<Rightarrow> (Inr (saga_items strip saga rs @ items), w2)))"

definition item_key :: "recovery_item \<Rightarrow> string \<times> string" where
  "item_key i = (ri_saga_id i, ri_state i)"

definition inspect_recovery ::
  "(string \<Rightarrow> string) \<Rightarrow> (string \<Rightarrow> string option) \<Rightarrow> 'a jstate_scheme
     \<Rightarrow> recovery_item list res \<times> 'a jstate_scheme" where
  "inspect_recovery sha strip w =
     (case list_sagas w of
        (Inl e, w1) \<Rightarrow> (Inl e, w1)
      | (Inr sagas, w1) \<Rightarrow>
         (case inspect_sagas sha strip sagas w1 of
            (Inl e, w2) \<Rightarrow> (Inl e, w2)
          | (Inr items, w2) \<Rightarrow> (Inr (sort_key item_key items), w2)))"

section \<open>The scan\<close>

lemma scan_records_append: "scan_records saga (rs @ later) = fold scan_record later (scan_records saga rs)"
  by (simp add: scan_records_def)

lemma scan_record_event [simp]:
  "scan_record (event_record e) s = scan_storage e (scan_closed e
      (s\<lparr>sc_item := (sc_item s)\<lparr>ri_event_id := ev_id e, ri_repository_id := ev_repository_id e\<rparr>\<rparr>))"
  by (simp add: scan_record_def event_record_def)

lemma scan_storage_graph [simp]: "sc_graph (scan_storage e s) = sc_graph s"
  by (simp add: scan_storage_def split: option.splits)

lemma scan_closed_storage [simp]:
  "sc_storage (scan_closed e s) = sc_storage s" "sc_resolved (scan_closed e s) = sc_resolved s"
  by (simp_all add: scan_closed_def split: option.splits)

text \<open>A graph state, once set, is only ever replaced by another pending one.\<close>

lemma scan_record_graph:
  "sc_graph s \<in> {GraphResolutionPending, GraphSyncPending} \<Longrightarrow>
     sc_graph (scan_record r s) \<in> {GraphResolutionPending, GraphSyncPending}"
  by (auto simp: scan_record_def scan_closed_def split: option.splits)

lemma scan_records_graph:
  "sc_graph s \<in> {GraphResolutionPending, GraphSyncPending} \<Longrightarrow>
     sc_graph (fold scan_record rs s) \<in> {GraphResolutionPending, GraphSyncPending}"
  by (induction rs arbitrary: s) (simp_all add: scan_record_graph del: insert_iff)

text \<open>The graph state of a scan is one of the two obligations, or there is none.\<close>

lemma scan_graph_state: "sc_graph (scan_records saga rs) \<in> {[], GraphResolutionPending, GraphSyncPending}"
proof -
  have "sc_graph s \<in> {[], GraphResolutionPending, GraphSyncPending} \<Longrightarrow>
      sc_graph (fold scan_record rs s) \<in> {[], GraphResolutionPending, GraphSyncPending}" for s
    by (induction rs arbitrary: s) (auto simp: scan_record_def scan_closed_def split: option.splits)
  then show ?thesis by (simp add: scan_records_def start_scan_def)
qed

definition storage_event :: "event \<Rightarrow> bool" where
  "storage_event e =
     (ev_type e \<in> {''storage.sync.requested'', ''storage.sync.succeeded'', ''storage.sync.resolved'',
                  ''storage.sync.pending'', ''storage.sync.conflict'', ''storage.prerequisite.missing''})"

definition no_storage_event :: "journal_record \<Rightarrow> bool" where
  "no_storage_event r = (\<forall>e. jr_event r = Some e \<longrightarrow> \<not> storage_event e)"

lemma scan_record_storage:
  "no_storage_event r \<Longrightarrow> sc_storage (scan_record r s) = sc_storage s
     \<and> sc_resolved (scan_record r s) = sc_resolved s"
  by (auto simp: scan_record_def no_storage_event_def storage_event_def scan_storage_def
      split: option.splits)

lemma scan_records_storage:
  "list_all no_storage_event rs \<Longrightarrow> sc_storage (fold scan_record rs s) = sc_storage s
     \<and> sc_resolved (fold scan_record rs s) = sc_resolved s"
  by (induction rs arbitrary: s) (simp_all add: scan_record_storage)

lemma scan_saga_id: "ri_saga_id (sc_item (scan_records saga rs)) = saga"
proof -
  have "ri_saga_id (sc_item (scan_record r s)) = ri_saga_id (sc_item s)" for r s
    by (simp add: scan_record_def scan_storage_def scan_closed_def split: option.splits)
  then have "ri_saga_id (sc_item (fold scan_record rs s)) = ri_saga_id (sc_item s)" for s
    by (induction rs arbitrary: s) simp_all
  then show ?thesis by (simp add: scan_records_def start_scan_def new_item_def)
qed

lemma storage_item_obtain:
  assumes "sc_storage s = Some r" "\<not> sc_resolved s"
  obtains it where "storage_items strip s = [it]" "ri_saga_id it = ri_saga_id (sc_item s)"
    "ri_state it = sr_state r" "sr_key r \<noteq> [] \<longrightarrow> ri_key it = sr_key r"
    "ri_remote_revision it = sr_remote_rev r"
proof -
  define it where "it = apply_storage_recovery strip (sc_item s) r"
  have "ri_saga_id it = ri_saga_id (sc_item s)" "ri_state it = sr_state r"
    "sr_key r \<noteq> [] \<longrightarrow> ri_key it = sr_key r" "ri_remote_revision it = sr_remote_rev r"
    by (simp_all add: it_def apply_storage_recovery_def Let_def)
  then show thesis
    using that [of "hd (storage_items strip s)"] assms
    by (simp add: storage_items_def Let_def it_def)
qed

lemma saga_items_states:
  assumes "it \<in> set (saga_items strip saga rs)" "storage_items strip (scan_records saga rs) = []"
  shows "ri_state it \<in> {''HandlerPending'', sc_graph (scan_records saga rs)}"
  using assms
  by (auto simp: saga_items_def Let_def handler_items_def graph_items_def split: option.splits if_splits)

section \<open>Handlers\<close>

definition latest_attempt :: "string \<Rightarrow> handler_attempt list \<Rightarrow> handler_attempt option" where
  "latest_attempt h as = find (\<lambda>a. ha_handler_id a = h) (rev as)"

definition handler_failed :: "string \<Rightarrow> handler_attempt list \<Rightarrow> bool" where
  "handler_failed h as =
     (\<not> is_storage_handler h \<and> (\<exists>a. latest_attempt h as = Some a \<and> ha_outcome a = ''failed''))"

lemma pending_handler_iff:
  "pending_handler seen as \<noteq> None \<longleftrightarrow>
     (\<exists>h a. h \<notin> set seen \<and> \<not> is_storage_handler h \<and> find (\<lambda>a. ha_handler_id a = h) as = Some a
            \<and> ha_outcome a = ''failed'')"
proof (induction as arbitrary: seen)
  case Nil
  then show ?case by simp
next
  case (Cons x xs)
  show ?case
  proof (cases "ha_handler_id x \<in> set seen")
    case True
    then have "(h \<notin> set seen \<and> \<not> is_storage_handler h \<and> find (\<lambda>a. ha_handler_id a = h) (x # xs) = Some a
          \<and> ha_outcome a = ''failed'')
        = (h \<notin> set seen \<and> \<not> is_storage_handler h \<and> find (\<lambda>a. ha_handler_id a = h) xs = Some a
          \<and> ha_outcome a = ''failed'')" for h a
      by auto
    with True Cons [of seen] show ?thesis by simp
  next
    case new: False
    show ?thesis
    proof (cases "is_storage_handler (ha_handler_id x) \<or> ha_outcome x \<noteq> ''failed''")
      case True
      then have "(h \<notin> set seen \<and> \<not> is_storage_handler h \<and> find (\<lambda>a. ha_handler_id a = h) (x # xs) = Some a
            \<and> ha_outcome a = ''failed'')
          = (h \<notin> set (ha_handler_id x # seen) \<and> \<not> is_storage_handler h
             \<and> find (\<lambda>a. ha_handler_id a = h) xs = Some a \<and> ha_outcome a = ''failed'')" for h a
        by auto
      with True new Cons [of "ha_handler_id x # seen"] show ?thesis by simp
    next
      case False
      with new show ?thesis by auto
    qed
  qed
qed

section \<open>Reading only\<close>

lemma scan_entries_calm: "faults w = [] \<Longrightarrow> snd (scan_entries es w) = w"
  by (induction es w rule: scan_entries.induct) (auto split: option.splits sum.splits prod.splits)

lemma list_sagas_calm: "faults w = [] \<Longrightarrow> list_sagas w = (r, w') \<Longrightarrow> w' = w"
  using scan_entries_calm [of w "entries w"]
  by (auto simp: list_sagas_def split: sum.splits prod.splits)

lemma inspect_sagas_frame: "inspect_sagas sha strip sagas w = (r, w') \<Longrightarrow> \<exists>fs. w' = w\<lparr>faults := fs\<rparr>"
proof (induction sagas arbitrary: w r w')
  case Nil
  then show ?case by auto
next
  case (Cons saga sagas)
  obtain q w1 where rd: "read_saga sha saga w = (q, w1)" by (cases "read_saga sha saga w")
  obtain q2 w2 where rest: "inspect_sagas sha strip sagas w1 = (q2, w2)"
    by (cases "inspect_sagas sha strip sagas w1")
  from read_saga_frame [OF rd] Cons.IH [OF rest] Cons.prems rd rest show ?case
    by (auto split: sum.splits)
qed

lemma inspect_sagas_items:
  "inspect_sagas sha strip sagas w = (Inr items, w') \<Longrightarrow> faults w = [] \<Longrightarrow>
     it \<in> set items \<longleftrightarrow> (\<exists>saga \<in> set sagas. \<exists>rs. fst (read_saga sha saga w) = Inr rs
                        \<and> it \<in> set (saga_items strip saga rs))"
proof (induction sagas arbitrary: w items)
  case Nil
  then show ?case by simp
next
  case (Cons saga sagas)
  obtain q w1 where rd: "read_saga sha saga w = (q, w1)" by (cases "read_saga sha saga w")
  from read_saga_frame [OF rd] obtain fs where fs: "w1 = w\<lparr>faults := fs\<rparr>" by blast
  have "faults w1 = []"
    using rd Cons.prems(2)
    by (auto simp: read_saga_def split: option.splits dir_entry.splits)
  with fs Cons.prems(2) have "w1 = w" by simp
  with rd Cons.prems obtain rs items' where
    "read_saga sha saga w = (Inr rs, w)" "inspect_sagas sha strip sagas w = (Inr items', w')"
    "items = saga_items strip saga rs @ items'"
    by (auto split: sum.splits prod.splits)
  with Cons.IH [of w items'] Cons.prems(2) show ?case by auto
qed

section \<open>Properties\<close>

text \<open>Inspecting recovery never writes: whatever it returns, the journal and every other
  part of the state are as before.\<close>

theorem inspect_recovery_read_only:
  "\<exists>fs. snd (inspect_recovery sha strip w) = w\<lparr>faults := fs\<rparr>"
proof -
  obtain q w1 where ls: "list_sagas w = (q, w1)" by (cases "list_sagas w")
  show ?thesis
  proof (cases q)
    case (Inl e)
    with ls list_sagas_frame [OF ls] show ?thesis by (simp add: inspect_recovery_def)
  next
    case (Inr sagas)
    obtain r w2 where ins: "inspect_sagas sha strip sagas w1 = (r, w2)"
      by (cases "inspect_sagas sha strip sagas w1")
    from list_sagas_frame [OF ls] inspect_sagas_frame [OF ins] ls ins Inr show ?thesis
      by (auto simp: inspect_recovery_def split: sum.split)
  qed
qed

text \<open>Without I/O errors the result is sorted by saga and state and consists of exactly the
  obligations of the sagas that \<open>ListSagas\<close> finds, each computed from that saga's records
  alone.\<close>

theorem inspect_recovery_items:
  assumes "inspect_recovery sha strip w = (Inr items, w')" "faults w = []"
  shows "sorted (map item_key items)
     \<and> (\<exists>sagas. fst (list_sagas w) = Inr sagas
          \<and> (\<forall>it. it \<in> set items \<longleftrightarrow> (\<exists>saga \<in> set sagas. \<exists>rs. fst (read_saga sha saga w) = Inr rs
                                     \<and> it \<in> set (saga_items strip saga rs))))"
proof -
  obtain sagas w1 where ls: "list_sagas w = (Inr sagas, w1)"
    using assms(1) by (auto simp: inspect_recovery_def split: prod.splits sum.splits)
  obtain raw where raw: "inspect_sagas sha strip sagas w1 = (Inr raw, w')" "items = sort_key item_key raw"
    using assms(1) ls by (auto simp: inspect_recovery_def split: prod.splits sum.splits)
  have "w1 = w" using list_sagas_calm [OF assms(2) ls] .
  with raw ls inspect_sagas_items [of sha strip sagas w raw w'] assms(2) show ?thesis by auto
qed

definition pending_event :: event where
  "pending_event = sample_event\<lparr>ev_type := ''storage.sync.pending'',
     ev_payload := Some (JObj [(''state'', JStr ''StorageSyncPending'')])\<rparr>"

definition pending_journal :: jstate where
  "pending_journal = empty_journal\<lparr>entries := [(''s.jsonl'',
     File \<lparr>seg_lines = [Line (enc_record (event_record pending_event))], seg_open = False\<rparr>)]\<rparr>"

lemma pending_event_facts:
  "journalable (event_record pending_event)" "ev_saga_id pending_event = ''s''"
  "payload_result pending_event = Some (zero_result\<lparr>sr_state := SyncPending\<rparr>)"
  "ev_type pending_event = ''storage.sync.pending''" "ev_schema_version pending_event = 1"
proof -
  have "length (json_text (enc_record (event_record pending_event))) < 1000" by code_simp
  then show "journalable (event_record pending_event)"
    by (simp add: journalable_def max_line_def record_ok_def event_record_def pending_event_def
        sample_event_def int64_def)
  show "payload_result pending_event = Some (zero_result\<lparr>sr_state := SyncPending\<rparr>)"
    by (simp add: payload_result_def pending_event_def dec_result_def str_field_def equal_fold_def
        SyncPending_def zero_result_def)
qed (simp_all add: pending_event_def sample_event_def)

lemma pending_journal_reads:
  "read_saga (\<lambda>s. s) ''s'' pending_journal = (Inr [event_record pending_event], pending_journal)"
  "list_sagas pending_journal = (Inr [''s''], pending_journal)"
proof -
  have p: "parse_line (Line (enc_record (event_record pending_event))) = Some (event_record pending_event)"
    using pending_event_facts(1) by (simp add: journalable_def dec_enc_record)
  have rl: "read_lines [Line (enc_record (event_record pending_event))] = Inr [event_record pending_event]"
    by (rule read_lines_record [OF pending_event_facts(1)])
  have seg: "saga_segment (\<lambda>s. s) ''s'' pending_journal =
      \<lparr>seg_lines = [Line (enc_record (event_record pending_event))], seg_open = False\<rparr>"
    by (simp add: saga_segment_def pending_journal_def safe_segment_name_def)
  show "read_saga (\<lambda>s. s) ''s'' pending_journal = (Inr [event_record pending_event], pending_journal)"
  proof (rule read_saga_calm)
    show "saga_log (\<lambda>s. s) ''s'' pending_journal = Some [event_record pending_event]"
      unfolding saga_log_Some seg using rl by (simp del: read_lines.simps)
  qed (simp_all add: pending_journal_def safe_segment_name_def)
  show "list_sagas pending_journal = (Inr [''s''], pending_journal)"
    using p pending_event_facts(2)
    by (simp add: list_sagas_def pending_journal_def has_suffix_def map_build_def)
      (simp add: event_record_def map_build_def)
qed

theorem inspect_recovery_items_witness:
  "\<exists>items. fst (inspect_recovery (\<lambda>s. s) (\<lambda>u. None) pending_journal) = Inr items
     \<and> sorted (map item_key items) \<and> (\<exists>it \<in> set items. ri_state it = ''StorageSyncPending'')"
proof -
  obtain items where run: "inspect_recovery (\<lambda>s. s) (\<lambda>u. None) pending_journal = (Inr items, pending_journal)"
    by (simp add: inspect_recovery_def pending_journal_reads)
  have it: "\<exists>it \<in> set (saga_items (\<lambda>u. None) ''s'' [event_record pending_event]).
      ri_state it = ''StorageSyncPending''"
    by (simp add: saga_items_def scan_records_def start_scan_def scan_storage_def scan_closed_def
        pending_event_facts storage_items_def apply_storage_recovery_def Let_def SyncPending_def)
  have "faults pending_journal = []" by (simp add: pending_journal_def)
  from inspect_recovery_items [OF run this] it run show ?thesis
    by (auto simp: pending_journal_reads)
qed

lemma storage_surfaced:
  assumes "ev_type e \<in> {''storage.sync.requested'', ''storage.sync.pending'', ''storage.sync.conflict'',
      ''storage.prerequisite.missing''}"
    "payload_result e = Some r" "list_all no_storage_event later"
  shows "\<exists>it \<in> set (saga_items strip saga (rs @ [event_record e] @ later)).
     ri_saga_id it = saga
     \<and> ri_state it = (if sr_state r = [] \<and> ev_type e = ''storage.sync.requested'' then SyncPending
                    else sr_state r)
     \<and> (sr_key r \<noteq> [] \<longrightarrow> ri_key it = sr_key r) \<and> ri_remote_revision it = sr_remote_rev r"
proof -
  define s where "s = scan_records saga (rs @ [event_record e] @ later)"
  define r' where "r' = (if sr_state r = [] \<and> ev_type e = ''storage.sync.requested''
    then r\<lparr>sr_state := SyncPending\<rparr> else r)"
  have "s = fold scan_record later (scan_record (event_record e) (scan_records saga rs))"
    by (simp add: s_def scan_records_append)
  with scan_records_storage [OF assms(3)] assms(1,2) have "sc_storage s = Some r'" "\<not> sc_resolved s"
    by (auto simp: scan_storage_def r'_def)
  then obtain it where it: "storage_items strip s = [it]" "ri_saga_id it = ri_saga_id (sc_item s)"
    "ri_state it = sr_state r'" "sr_key r' \<noteq> [] \<longrightarrow> ri_key it = sr_key r'"
    "ri_remote_revision it = sr_remote_rev r'"
    by (rule storage_item_obtain)
  have r': "sr_state r' = (if sr_state r = [] \<and> ev_type e = ''storage.sync.requested''
      then SyncPending else sr_state r)" "sr_key r' = sr_key r" "sr_remote_rev r' = sr_remote_rev r"
    by (simp_all add: r'_def)
  have "it \<in> set (saga_items strip saga (rs @ [event_record e] @ later))"
    unfolding saga_items_def s_def [symmetric] Let_def using it(1) by simp
  moreover have "ri_saga_id it = saga" using it(2) by (simp add: s_def scan_saga_id)
  ultimately show ?thesis using it(3-5) r' by (intro bexI [of _ it]) simp_all
qed

text \<open>An unresolved storage obligation is always surfaced: when the last storage event of a saga is an
  intent, a pending, a conflict or a prerequisite event with a readable result, inspecting the
  saga yields an item with that result's state (an intent without a state is pending), key
  and revision, whatever attempts and other events surround it. In particular a process that
  stops right after the durable intent leaves a visible obligation.\<close>

theorem unresolved_storage_is_surfaced:
  assumes "ev_type e \<in> {''storage.sync.requested'', ''storage.sync.pending'', ''storage.sync.conflict'',
      ''storage.prerequisite.missing''}"
    "payload_result e = Some r" "list_all no_storage_event later"
  shows "\<exists>it \<in> set (saga_items strip saga (rs @ [event_record e] @ later)).
     ri_saga_id it = saga
     \<and> ri_state it = (if sr_state r = [] \<and> ev_type e = ''storage.sync.requested'' then SyncPending
                    else sr_state r)
     \<and> (sr_key r \<noteq> [] \<longrightarrow> ri_key it = sr_key r) \<and> ri_remote_revision it = sr_remote_rev r"
  using assms by (rule storage_surfaced)

theorem unresolved_storage_is_surfaced_witness:
  "\<exists>it \<in> set (saga_items (\<lambda>u. None) ''s'' [event_record pending_event]). ri_state it = ''StorageSyncPending''"
  using unresolved_storage_is_surfaced [OF _ pending_event_facts(3), of "[]" "\<lambda>u. None" "''s''" "[]"]
  by (simp add: pending_event_facts(4)) (auto simp: SyncPending_def)

text \<open>After a \<open>storage.sync.succeeded\<close> or \<open>storage.sync.resolved\<close> event with no later storage event,
  no storage obligation is left for the saga: every item that remains is a pending handler or
  the graph state.\<close>

theorem resolved_storage_is_silent:
  assumes "ev_type e \<in> {''storage.sync.succeeded'', ''storage.sync.resolved''}"
    "list_all no_storage_event later" "it \<in> set (saga_items strip saga (rs @ [event_record e] @ later))"
  shows "ri_state it \<in> {''HandlerPending'', sc_graph (scan_records saga (rs @ [event_record e] @ later))}"
proof (rule saga_items_states [OF assms(3)])
  define s where "s = scan_records saga (rs @ [event_record e] @ later)"
  have "s = fold scan_record later (scan_record (event_record e) (scan_records saga rs))"
    by (simp add: s_def scan_records_append)
  moreover have "sc_resolved (scan_storage e s0)" for s0
    using assms(1) by (auto simp: scan_storage_def split: option.splits)
  then have "sc_resolved (scan_record (event_record e) s0)" for s0 by simp
  ultimately have "sc_resolved s" using scan_records_storage [OF assms(2)] by metis
  then show "storage_items strip (scan_records saga (rs @ [event_record e] @ later)) = []"
    by (simp add: storage_items_def s_def split: option.splits)
qed

definition failed_attempt :: handler_attempt where
  "failed_attempt = \<lparr>ha_event_id = ''e1'', ha_saga_id = ''s'', ha_handler_id = ''indexer'',
     ha_attempted_at = 2, ha_outcome = ''failed'', ha_error = ''offline''\<rparr>"

theorem resolved_storage_is_silent_witness:
  "\<exists>it \<in> set (saga_items (\<lambda>u. None) ''s'' ([event_record pending_event]
        @ [event_record (sample_event\<lparr>ev_type := ''storage.sync.succeeded''\<rparr>)] @ [attempt_record failed_attempt])).
     ri_state it \<in> {''HandlerPending'', []}"
proof -
  let ?rs = "[event_record pending_event]
        @ [event_record (sample_event\<lparr>ev_type := ''storage.sync.succeeded''\<rparr>)] @ [attempt_record failed_attempt]"
  have pr: "payload_result (sample_event\<lparr>ev_type := ''storage.sync.succeeded''\<rparr>) = None"
    by (simp add: payload_result_def sample_event_def dec_result_def)
  have att: "ri_attempts (sc_item (scan_records ''s'' ?rs)) = [failed_attempt]"
    "sc_graph (scan_records ''s'' ?rs) = []"
    by (simp_all add: scan_records_def start_scan_def scan_storage_def scan_closed_def pr new_item_def
        pending_event_facts scan_record_def attempt_record_def event_record_def)
  then have "handler_items (scan_records ''s'' ?rs) \<noteq> []"
    by (simp add: handler_items_def failed_attempt_def is_storage_handler_def)
  then obtain it where it: "it \<in> set (saga_items (\<lambda>u. None) ''s'' ?rs)"
    unfolding saga_items_def Let_def by (cases "handler_items (scan_records ''s'' ?rs)") auto
  have "list_all no_storage_event [attempt_record failed_attempt]"
    by (simp add: no_storage_event_def attempt_record_def)
  from resolved_storage_is_silent [OF _ this it] att it show ?thesis by auto
qed

text \<open>A graph obligation is never discharged: once a saga holds a closed session whose diary is Graph
  Resolution Pending or Graph Sync Pending, inspecting that saga yields a graph item for ever,
  whatever is appended later, a successful \<open>sync retry --graph\<close> included.\<close>

theorem graph_obligation_never_clears:
  assumes "ev_type e = ''session.closed''" "payload_diary e = Some d"
    "sd_graph_state d \<in> {GraphResolutionPending, GraphSyncPending}"
  shows "\<exists>it \<in> set (saga_items strip saga (rs @ [event_record e] @ later)).
     ri_state it \<in> {GraphResolutionPending, GraphSyncPending}
     \<and> ri_next_action it = ''syntroph sync retry --graph''"
proof -
  define s where "s = scan_records saga (rs @ [event_record e] @ later)"
  have "s = fold scan_record later (scan_record (event_record e) (scan_records saga rs))"
    by (simp add: s_def scan_records_append)
  moreover have "sc_graph (scan_record (event_record e) (scan_records saga rs))
      \<in> {GraphResolutionPending, GraphSyncPending}"
    using assms by (auto simp: scan_closed_def)
  ultimately have "sc_graph s \<in> {GraphResolutionPending, GraphSyncPending}"
    using scan_records_graph by blast
  then have "graph_items s \<noteq> []" "\<forall>it \<in> set (graph_items s).
      ri_state it \<in> {GraphResolutionPending, GraphSyncPending}
      \<and> ri_next_action it = ''syntroph sync retry --graph''"
    by (auto simp: graph_items_def GraphResolutionPending_def GraphSyncPending_def)
  then show ?thesis
    unfolding saga_items_def s_def [symmetric] Let_def by (cases "graph_items s") auto
qed

definition pending_diary :: session_diary where
  "pending_diary = zero_diary\<lparr>sd_session_id := ''s'', sd_graph_state := GraphResolutionPending\<rparr>"

definition closed_event :: event where
  "closed_event = sample_event\<lparr>ev_type := ''session.closed'', ev_payload := Some (enc_diary pending_diary)\<rparr>"

theorem graph_obligation_never_clears_witness:
  "\<exists>it \<in> set (saga_items (\<lambda>u. None) ''s'' ([event_record closed_event]
        @ [attempt_record (failed_attempt\<lparr>ha_handler_id := ''graph-retry'', ha_outcome := ''succeeded''\<rparr>)])).
     ri_state it \<in> {GraphResolutionPending, GraphSyncPending}"
proof -
  have "diary_ok pending_diary" by (simp add: diary_ok_def pending_diary_def zero_diary_def)
  from dec_enc_diary [OF this] have "payload_diary closed_event = Some (stored_diary pending_diary)"
    by (simp add: payload_diary_def closed_event_def)
  with graph_obligation_never_clears [of closed_event _ "\<lambda>u. None" "''s''" "[]"
      "[attempt_record (failed_attempt\<lparr>ha_handler_id := ''graph-retry'', ha_outcome := ''succeeded''\<rparr>)]"]
  show ?thesis by (auto simp: closed_event_def stored_diary_def pending_diary_def)
qed

text \<open>A saga has a \<open>HandlerPending\<close> obligation from its handlers exactly when, for some handler that is
  not one of the storage handlers, the latest of its attempts failed; earlier failures that were
  followed by a success of the same handler do not count.\<close>

theorem handler_pending_iff_latest_failed:
  "handler_items (scan_records saga rs) \<noteq> [] \<longleftrightarrow>
     (\<exists>h. handler_failed h (List.map_filter jr_attempt rs))"
proof -
  have "ri_attempts (sc_item (fold scan_record rs s)) =
      ri_attempts (sc_item s) @ List.map_filter jr_attempt rs" for s
    by (induction rs arbitrary: s)
      (auto simp: scan_record_def scan_storage_def scan_closed_def List.map_filter_simps split: option.splits)
  from this [of "start_scan saga"] have at: "ri_attempts (sc_item (scan_records saga rs)) =
      List.map_filter jr_attempt rs"
    by (simp add: scan_records_def start_scan_def new_item_def)
  have "handler_items (scan_records saga rs) \<noteq> [] \<longleftrightarrow>
      pending_handler [] (rev (List.map_filter jr_attempt rs)) \<noteq> None"
    by (simp add: handler_items_def at split: option.splits)
  also have "\<dots> \<longleftrightarrow> (\<exists>h. handler_failed h (List.map_filter jr_attempt rs))"
    unfolding pending_handler_iff by (auto simp: handler_failed_def latest_attempt_def)
  finally show ?thesis .
qed

end
