(* ===== verification/Code_Graph.thy ===== *)
theory Code_Graph
  imports Recovery Local_Stores
begin

text \<open>
  \<open>core/graph.go\<close>, \<open>adapters/graphify/graphify.go\<close> and the reference resolution of
  \<open>core/session.go\<close>: the local graph with its immutable content-addressed snapshots and the pointer
  to the active one, the adapter of an external graph command, and the client of either. A
  slice of references is written as a JSON array (the callers never pass a nil slice).
\<close>

section \<open>Requests, resolutions, snapshots\<close>

record graph_request =
  gq_repository_id :: string
  gq_commit_sha :: string
  gq_references :: "code_reference list"

record graph_resolution =
  gr_references :: "code_reference list"
  gr_snapshot_id :: string

record graph_snapshot =
  gs_id :: string
  gs_repository_id :: string
  gs_commit_sha :: string
  gs_created_at :: int
  gs_references :: "code_reference list"

definition ConfidenceAuthoritative :: string where "ConfidenceAuthoritative = ''authoritative''"
definition ConfidenceUnresolved :: string where "ConfidenceUnresolved = ''unresolved''"

definition enc_snapshot :: "graph_snapshot \<Rightarrow> json" where
  "enc_snapshot s = JObj
     [(''graph_snapshot_id'', JStr (gs_id s)), (''repository_id'', JStr (gs_repository_id s)),
      (''commit_sha'', JStr (gs_commit_sha s)), (''created_at'', JTime (gs_created_at s)),
      (''references'', JArr (map enc_reference (gs_references s)))]"

definition dec_snapshot :: "json \<Rightarrow> graph_snapshot option" where
  "dec_snapshot j =
     (case j of
        JNull \<Rightarrow> Some \<lparr>gs_id = [], gs_repository_id = [], gs_commit_sha = [], gs_created_at = 0,
                     gs_references = []\<rparr>
      | JObj kvs \<Rightarrow>
          (case (str_field ''graph_snapshot_id'' kvs, str_field ''repository_id'' kvs,
                 str_field ''commit_sha'' kvs, dec_time 0 (field_values ''created_at'' kvs),
                 dec_slice (elem zero_reference dec_reference) [] (field_values ''references'' kvs))
           of (Some i, Some r, Some c, Some t, Some refs) \<Rightarrow>
             Some \<lparr>gs_id = i, gs_repository_id = r, gs_commit_sha = c, gs_created_at = t,
                   gs_references = refs\<rparr>
           | _ \<Rightarrow> None)
      | _ \<Rightarrow> None)"

lemma dec_enc_snapshot [simp]: "dec_snapshot (enc_snapshot s) = Some s"
proof -
  have "fold_case ''references'' = ''references''" by (rule fold_case_lower) code_simp
  then show ?thesis
    by (simp add: dec_snapshot_def enc_snapshot_def str_field_def equal_fold_def)
qed

text \<open>The identity of a snapshot: the hash of its JSON without identity and time.\<close>

definition content_id :: "(string \<Rightarrow> string) \<Rightarrow> graph_snapshot \<Rightarrow> string" where
  "content_id sha s = sha (json_text (enc_snapshot (s\<lparr>gs_id := [], gs_created_at := 0\<rparr>)))"

section \<open>The local graph\<close>

record gstate = store +
  snapshots :: "(string \<times> json_file) list"
  active_pointer :: "string option"

definition new_local_graph :: "string \<Rightarrow> 'a gstate_scheme \<Rightarrow> err option \<times> 'a gstate_scheme" where
  "new_local_graph root w =
     (if trim_space root = [] then (Some (new_err ''graph root is required''), w) else try_io w)"

text \<open>A temporary file, written, synced, closed and renamed.\<close>

definition replace_file ::
  "('a env_scheme \<Rightarrow> 'a env_scheme) \<Rightarrow> 'a env_scheme \<Rightarrow> err option \<times> 'a env_scheme" where
  "replace_file put w =
     (case try_ios 5 w of (Some e, w1) \<Rightarrow> (Some e, w1) | (None, w1) \<Rightarrow> (None, put w1))"

definition write_snapshot ::
  "string \<Rightarrow> graph_snapshot \<Rightarrow> 'a gstate_scheme \<Rightarrow> err option \<times> 'a gstate_scheme" where
  "write_snapshot i s w =
     replace_file (\<lambda>v. v\<lparr>snapshots := map_put i (JsonFile (enc_snapshot s)) (snapshots v)\<rparr>) w"

text \<open>
  \<open>os.Stat\<close> of the snapshot and its creation when it does not exist. (A \<open>Stat\<close> that says so of a file
  that exists is not considered.)
\<close>

definition ensure_snapshot ::
  "string \<Rightarrow> graph_snapshot \<Rightarrow> 'a gstate_scheme \<Rightarrow> err option \<times> 'a gstate_scheme" where
  "ensure_snapshot i s w =
     (case try_io w of
        (Some e, w1) \<Rightarrow>
          if errors_is e ErrNotExist
          then (case map_of (snapshots w1) i of None \<Rightarrow> write_snapshot i s w1 | Some f \<Rightarrow> (Some e, w1))
          else (Some e, w1)
      | (None, w1) \<Rightarrow>
          (case map_of (snapshots w1) i of None \<Rightarrow> write_snapshot i s w1 | Some f \<Rightarrow> (None, w1)))"

definition publish_snapshot ::
  "(string \<Rightarrow> string) \<Rightarrow> graph_snapshot \<Rightarrow> 'a gstate_scheme \<Rightarrow> graph_snapshot res \<times> 'a gstate_scheme" where
  "publish_snapshot sha s w =
     (case ctx_err w of
        (Some e, w1) \<Rightarrow> (Inl e, w1)
      | (None, w1) \<Rightarrow>
     (if gs_repository_id s = [] \<or> gs_commit_sha s = []
      then (Inl (new_err ''graph snapshot repository and commit are required''), w1)
      else
     (case (if is_zero_time (gs_created_at s)
            then (case time_now w1 of (t, v) \<Rightarrow> (s\<lparr>gs_created_at := t\<rparr>, v)) else (s, w1)) of
        (s1, w2) \<Rightarrow>
     (let i = content_id sha s1; s2 = s1\<lparr>gs_id := i\<rparr> in
      case ensure_snapshot i s2 w2 of
        (Some e, w3) \<Rightarrow> (Inl e, w3)
      | (None, w3) \<Rightarrow>
         (case replace_file (\<lambda>v. v\<lparr>active_pointer := Some (i @ [newline])\<rparr>) w3 of
            (Some e, w4) \<Rightarrow> (Inl e, w4)
          | (None, w4) \<Rightarrow> (Inr s2, w4))))))"

definition graph_unavailable :: "string \<Rightarrow> err" where
  "graph_unavailable t = GoErr [ErrGraphUnavailable] (''graph port unavailable: '' @ t)"

definition active_snapshot :: "'a gstate_scheme \<Rightarrow> graph_snapshot res \<times> 'a gstate_scheme" where
  "active_snapshot w =
     (case try_io w of
        (Some e, w1) \<Rightarrow>
          (Inl (if errors_is e ErrNotExist then graph_unavailable ''no active snapshot'' else e), w1)
      | (None, w1) \<Rightarrow>
     (case active_pointer w1 of
        None \<Rightarrow> (Inl (graph_unavailable ''no active snapshot''), w1)
      | Some t \<Rightarrow>
     (let i = trim_space t in
      if i = [] then (Inl (graph_unavailable ''active pointer is empty''), w1)
      else
     (case try_io w1 of
        (Some e, w2) \<Rightarrow> (Inl (graph_unavailable (''snapshot '' @ i @ '': '' @ err_text e)), w2)
      | (None, w2) \<Rightarrow>
         (case map_of (snapshots w2) i of
            None \<Rightarrow> (Inl (graph_unavailable (''snapshot '' @ i @ '': file does not exist'')), w2)
          | Some BadFile \<Rightarrow> (Inl (new_err ''invalid JSON''), w2)
          | Some (JsonFile j) \<Rightarrow>
              (case dec_snapshot j of
                 None \<Rightarrow> (Inl (new_err ''invalid JSON''), w2)
               | Some s \<Rightarrow> (Inr s, w2)))))))"

text \<open>The inner loop: does some reference of the snapshot match the request's?\<close>

definition candidate_matches :: "code_reference \<Rightarrow> code_reference \<Rightarrow> bool" where
  "candidate_matches r c =
     (cr_path c = cr_path r \<and> (cr_symbol r = [] \<or> cr_symbol c = cr_symbol r)
      \<and> (cr_kind r = [] \<or> cr_kind c = cr_kind r))"

definition resolve_reference ::
  "graph_snapshot \<Rightarrow> graph_request \<Rightarrow> code_reference \<Rightarrow> code_reference" where
  "resolve_reference s q r =
     (let r1 = (if cr_confidence r = [] then r\<lparr>cr_confidence := ConfidenceAuthoritative\<rparr> else r);
          r2 = (if list_ex (candidate_matches r1) (gs_references s) then r1
                else r1\<lparr>cr_confidence := ConfidenceUnresolved\<rparr>)
      in r2\<lparr>cr_repository_id := gq_repository_id q, cr_commit_sha := gq_commit_sha q,
            cr_graph_snapshot_id := gs_id s\<rparr>)"

definition graph_stale :: "graph_snapshot \<Rightarrow> err" where
  "graph_stale s = GoErr [ErrGraphStale] (''graph snapshot is stale: snapshot '' @ gs_id s @ '' is for ''
     @ gs_repository_id s @ ''@'' @ gs_commit_sha s)"

definition local_resolve :: "graph_request \<Rightarrow> 'a gstate_scheme \<Rightarrow> graph_resolution res \<times> 'a gstate_scheme" where
  "local_resolve q w =
     (case ctx_err w of
        (Some e, w1) \<Rightarrow> (Inl e, w1)
      | (None, w1) \<Rightarrow>
     (case active_snapshot w1 of
        (Inl e, w2) \<Rightarrow> (Inl e, w2)
      | (Inr s, w2) \<Rightarrow>
          if gs_repository_id s \<noteq> gq_repository_id q \<or> gs_commit_sha s \<noteq> gq_commit_sha q
          then (Inl (graph_stale s), w2)
          else (Inr \<lparr>gr_references = map (resolve_reference s q) (gq_references q),
                     gr_snapshot_id = gs_id s\<rparr>, w2)))"

section \<open>The external graph command\<close>

record node =
  nd_path :: string
  nd_file :: string
  nd_symbol :: string
  nd_name :: string
  nd_kind :: string

definition zero_node :: node where
  "zero_node = \<lparr>nd_path = [], nd_file = [], nd_symbol = [], nd_name = [], nd_kind = []\<rparr>"

definition dec_node :: "(string \<times> json) list \<Rightarrow> node \<Rightarrow> node option" where
  "dec_node kvs d =
     (case (dec_string (nd_path d) (field_values ''path'' kvs),
            dec_string (nd_file d) (field_values ''file'' kvs),
            dec_string (nd_symbol d) (field_values ''symbol'' kvs),
            dec_string (nd_name d) (field_values ''name'' kvs),
            dec_string (nd_kind d) (field_values ''kind'' kvs))
      of (Some p, Some f, Some s, Some n, Some k) \<Rightarrow>
        Some \<lparr>nd_path = p, nd_file = f, nd_symbol = s, nd_name = n, nd_kind = k\<rparr>
      | _ \<Rightarrow> None)"

record response =
  rs_snapshot_id :: string
  rs_repository_id :: string
  rs_commit_sha :: string
  rs_references :: "code_reference list"
  rs_nodes :: "node list"

definition dec_response :: "json \<Rightarrow> response option" where
  "dec_response j =
     (case j of
        JNull \<Rightarrow> Some \<lparr>rs_snapshot_id = [], rs_repository_id = [], rs_commit_sha = [],
                     rs_references = [], rs_nodes = []\<rparr>
      | JObj kvs \<Rightarrow>
          (case (str_field ''graph_snapshot_id'' kvs, str_field ''repository_id'' kvs,
                 str_field ''commit_sha'' kvs,
                 dec_slice (elem zero_reference dec_reference) [] (field_values ''references'' kvs),
                 dec_slice (elem zero_node dec_node) [] (field_values ''nodes'' kvs))
           of (Some i, Some r, Some c, Some refs, Some ns) \<Rightarrow>
             Some \<lparr>rs_snapshot_id = i, rs_repository_id = r, rs_commit_sha = c,
                   rs_references = refs, rs_nodes = ns\<rparr>
           | _ \<Rightarrow> None)
      | _ \<Rightarrow> None)"

definition node_reference :: "node \<Rightarrow> code_reference" where
  "node_reference n = zero_reference\<lparr>
     cr_path := (if nd_path n = [] then nd_file n else nd_path n),
     cr_symbol := (if nd_symbol n = [] then nd_name n else nd_symbol n), cr_kind := nd_kind n\<rparr>"

definition graphify_reference ::
  "code_reference list \<Rightarrow> graph_request \<Rightarrow> code_reference \<Rightarrow> code_reference" where
  "graphify_reference available q r =
     r\<lparr>cr_repository_id := gq_repository_id q, cr_commit_sha := gq_commit_sha q,
       cr_confidence := (if list_ex (candidate_matches r) available
                         then ConfidenceAuthoritative else ConfidenceUnresolved)\<rparr>"

text \<open>
  \<open>run\<close> is the command runner: \<^term>\<open>Inr\<close> of the JSON value its output parses to, or of
  \<^term>\<open>None\<close> when it is not JSON.
\<close>

type_synonym 'w runner = "string \<Rightarrow> string list \<Rightarrow> 'w \<Rightarrow> json option res \<times> 'w"

definition graphify_error :: "sentinel \<Rightarrow> string \<Rightarrow> err" where
  "graphify_error s t = GoErr [s] t"

definition graphify_resolve ::
  "string \<Rightarrow> 'a env_scheme runner option \<Rightarrow> graph_request \<Rightarrow> 'a env_scheme \<Rightarrow> graph_resolution res \<times> 'a env_scheme"
where
  "graphify_resolve executable runner q w =
     (case runner of
        None \<Rightarrow> (Inl (graphify_error ErrUnavailable ''graphify executable unavailable: adapter is not configured''), w)
      | Some run \<Rightarrow>
     (if trim_space (gq_repository_id q) = [] \<or> trim_space (gq_commit_sha q) = []
      then (Inl (graphify_error ErrIncompatible ''graphify output incompatible: repository and commit are required''), w)
      else
     (case run executable [''graph'', ''export'', ''--format'', ''json'', ''--repository'',
                           gq_repository_id q, ''--commit'', gq_commit_sha q] w of
        (Inl e, w1) \<Rightarrow>
          (case ctx_err w1 of
             (Some ce, w2) \<Rightarrow> (Inl ce, w2)
           | (None, w2) \<Rightarrow>
               (Inl (graphify_error ErrUnavailable (''graphify executable unavailable: '' @ err_text e)), w2))
      | (Inr parsed, w1) \<Rightarrow>
     (case (case parsed of None \<Rightarrow> None | Some j \<Rightarrow> dec_response j) of
        None \<Rightarrow> (Inl (graphify_error ErrIncompatible ''graphify output incompatible: invalid JSON''), w1)
      | Some out \<Rightarrow>
          if rs_repository_id out \<noteq> [] \<and> rs_repository_id out \<noteq> gq_repository_id q
             \<or> rs_commit_sha out \<noteq> [] \<and> rs_commit_sha out \<noteq> gq_commit_sha q
          then (Inl (graphify_error ErrIncompatible
                  ''graphify output incompatible: snapshot identity does not match request''), w1)
          else if rs_references out = [] \<and> rs_nodes out = []
          then (Inl (graphify_error ErrIncompatible
                  ''graphify output incompatible: response has no references or nodes''), w1)
          else (let available = rs_references out @ map node_reference (rs_nodes out) in
                (Inr \<lparr>gr_references = map (graphify_reference available q) (gq_references q),
                      gr_snapshot_id = rs_snapshot_id out\<rparr>, w1))))))"

section \<open>The client: resolving the references of a session\<close>

record 'w graph_port =
  gp_resolve :: "graph_request \<Rightarrow> 'w \<Rightarrow> graph_resolution res \<times> 'w"
  gp_publish :: "(graph_snapshot \<Rightarrow> 'w \<Rightarrow> graph_snapshot res \<times> 'w) option"

fun unseen :: "(string \<times> string \<times> string) list \<Rightarrow> code_reference list \<Rightarrow> code_reference list" where
  "unseen seen [] = []"
| "unseen seen (r # rs) =
     (if reference_key r \<in> set seen then unseen seen rs
      else r # unseen (reference_key r # seen) rs)"

definition reference_batch :: "code_reference list \<Rightarrow> invocation_record list \<Rightarrow> code_reference list" where
  "reference_batch declared invs = unseen [] (declared @ concat (map ir_code_references invs))"

definition apply_resolved :: "code_reference list \<Rightarrow> code_reference list \<Rightarrow> code_reference list" where
  "apply_resolved resolved refs =
     map (\<lambda>r. case map_of (rev (map (\<lambda>c. (reference_key c, c)) resolved)) (reference_key r) of
                Some c \<Rightarrow> c | None \<Rightarrow> r) refs"

definition unresolved_references :: "string \<Rightarrow> string \<Rightarrow> code_reference list \<Rightarrow> code_reference list" where
  "unresolved_references repo commit refs =
     map (\<lambda>r. r\<lparr>cr_repository_id := repo, cr_commit_sha := commit,
                cr_confidence := ConfidenceUnresolved, cr_graph_snapshot_id := []\<rparr>) refs"

definition map_references ::
  "(code_reference list \<Rightarrow> code_reference list) \<Rightarrow> invocation_record list \<Rightarrow> invocation_record list" where
  "map_references f invs = map (\<lambda>i. i\<lparr>ir_code_references := f (ir_code_references i)\<rparr>) invs"

definition resolve_code_references ::
  "'w graph_port option \<Rightarrow> string \<Rightarrow> string \<Rightarrow> code_reference list \<Rightarrow> invocation_record list \<Rightarrow> 'w
     \<Rightarrow> (code_reference list \<times> invocation_record list \<times> string \<times> string) \<times> 'w"
where
  "resolve_code_references graph repo commit declared invs w =
     (case graph of
        None \<Rightarrow> ((declared, invs, GraphResolutionPending, []), w)
      | Some g \<Rightarrow>
     (case gp_resolve g \<lparr>gq_repository_id = repo, gq_commit_sha = commit,
                         gq_references = reference_batch declared invs\<rparr> w of
        (Inl e, w1) \<Rightarrow>
          ((unresolved_references repo commit declared,
            map_references (unresolved_references repo commit) invs, GraphResolutionPending, []), w1)
      | (Inr res, w1) \<Rightarrow>
          (let declared' = apply_resolved (gr_references res) declared;
               invs' = map_references (apply_resolved (gr_references res)) invs in
           case gp_publish g of
             None \<Rightarrow> ((declared', invs', GraphReady, gr_snapshot_id res), w1)
           | Some publish \<Rightarrow>
               (case publish \<lparr>gs_id = [], gs_repository_id = repo, gs_commit_sha = commit,
                              gs_created_at = 0, gs_references = gr_references res\<rparr> w1 of
                  (p, w2) \<Rightarrow>
                    ((declared', invs', (case p of Inl e \<Rightarrow> GraphSyncPending | Inr s \<Rightarrow> GraphReady),
                      gr_snapshot_id res), w2)))))"

definition local_graph_port :: "(string \<Rightarrow> string) \<Rightarrow> 'a gstate_scheme graph_port" where
  "local_graph_port sha = \<lparr>gp_resolve = local_resolve, gp_publish = Some (publish_snapshot sha)\<rparr>"

definition graphify_port :: "string \<Rightarrow> 'a env_scheme runner option \<Rightarrow> 'a env_scheme graph_port" where
  "graphify_port executable runner =
     \<lparr>gp_resolve = graphify_resolve executable runner, gp_publish = None\<rparr>"

section \<open>Lemmas\<close>

text \<open>What the client gets from any graph port.\<close>

locale graph_service =
  fixes answer :: "graph_request \<Rightarrow> 'w \<Rightarrow> graph_resolution res \<times> 'w"
  assumes answers_keys: "answer q w = (Inr res, w') \<Longrightarrow>
      map reference_key (gr_references res) = map reference_key (gq_references q)"
    and answers_stamped: "answer q w = (Inr res, w') \<Longrightarrow> r \<in> set (gr_references res) \<Longrightarrow>
      cr_repository_id r = gq_repository_id q \<and> cr_commit_sha r = gq_commit_sha q"
begin

lemma answered:
  assumes "answer q w = (Inr res, w')" "r \<in> set (gq_references q)"
  shows "\<exists>c. map_of (rev (map (\<lambda>c. (reference_key c, c)) (gr_references res))) (reference_key r) = Some c
     \<and> reference_key c = reference_key r
     \<and> cr_repository_id c = gq_repository_id q \<and> cr_commit_sha c = gq_commit_sha q"
proof -
  have "reference_key r \<in> set (map reference_key (gr_references res))"
    using answers_keys [OF assms(1)] assms(2) by simp
  then have "reference_key r \<in> fst ` set (rev (map (\<lambda>c. (reference_key c, c)) (gr_references res)))"
    by (simp add: image_image)
  then have "map_of (rev (map (\<lambda>c. (reference_key c, c)) (gr_references res))) (reference_key r) \<noteq> None"
    by (simp only: map_of_eq_None_iff not_not)
  then obtain c where c: "map_of (rev (map (\<lambda>c. (reference_key c, c)) (gr_references res))) (reference_key r) = Some c"
    by blast
  from map_of_SomeD [OF this] have "c \<in> set (gr_references res)" "reference_key c = reference_key r" by auto
  with answers_stamped [OF assms(1)] c show ?thesis by blast
qed

lemma applied_stamped:
  assumes "answer q w = (Inr res, w')" "set (map reference_key refs) \<subseteq> set (map reference_key (gq_references q))"
    "c \<in> set (apply_resolved (gr_references res) refs)"
  shows "cr_repository_id c = gq_repository_id q \<and> cr_commit_sha c = gq_commit_sha q"
proof -
  from assms(3) obtain r where r: "r \<in> set refs" "c = (case map_of (rev (map (\<lambda>c. (reference_key c, c))
      (gr_references res))) (reference_key r) of Some c \<Rightarrow> c | None \<Rightarrow> r)"
    by (auto simp: apply_resolved_def)
  from r(1) have "reference_key r \<in> set (map reference_key refs)" by simp
  with assms(2) have "reference_key r \<in> set (map reference_key (gq_references q))" by blast
  then obtain r' where r': "r' \<in> set (gq_references q)" "reference_key r = reference_key r'" by auto
  from answered [OF assms(1) r'(1)] obtain c' where
    "map_of (rev (map (\<lambda>c. (reference_key c, c)) (gr_references res))) (reference_key r') = Some c'"
    "cr_repository_id c' = gq_repository_id q \<and> cr_commit_sha c' = gq_commit_sha q"
    by blast
  with r(2) r'(2) show ?thesis by simp
qed

end

lemma resolve_reference_key [simp]: "reference_key (resolve_reference s q r) = reference_key r"
  by (simp add: resolve_reference_def reference_key_def Let_def)

lemma resolve_reference_stamp [simp]:
  "cr_repository_id (resolve_reference s q r) = gq_repository_id q"
  "cr_commit_sha (resolve_reference s q r) = gq_commit_sha q"
  by (simp_all add: resolve_reference_def Let_def)

interpretation local_service: graph_service local_resolve
proof unfold_locales
  fix q res and w w' :: "'a gstate_scheme"
  assume "local_resolve q w = (Inr res, w')"
  then show "map reference_key (gr_references res) = map reference_key (gq_references q)"
    by (auto simp: local_resolve_def split: prod.splits option.splits sum.splits if_splits)
next
  fix q res r and w w' :: "'a gstate_scheme"
  assume "local_resolve q w = (Inr res, w')" "r \<in> set (gr_references res)"
  then show "cr_repository_id r = gq_repository_id q \<and> cr_commit_sha r = gq_commit_sha q"
    by (auto simp: local_resolve_def split: prod.splits option.splits sum.splits if_splits)
qed

interpretation graphify_service: graph_service "graphify_resolve executable runner" for executable runner
proof unfold_locales
  fix q res and w w' :: "'a env_scheme"
  assume "graphify_resolve executable runner q w = (Inr res, w')"
  then show "map reference_key (gr_references res) = map reference_key (gq_references q)"
    by (auto simp: graphify_resolve_def graphify_reference_def reference_key_def Let_def
        split: prod.splits option.splits sum.splits if_splits)
next
  fix q res r and w w' :: "'a env_scheme"
  assume "graphify_resolve executable runner q w = (Inr res, w')" "r \<in> set (gr_references res)"
  then show "cr_repository_id r = gq_repository_id q \<and> cr_commit_sha r = gq_commit_sha q"
    by (auto simp: graphify_resolve_def graphify_reference_def Let_def
        split: prod.splits option.splits sum.splits if_splits)
qed

lemma unseen_keys: "set (map reference_key (unseen seen rs)) = set (map reference_key rs) - set seen"
  by (induction seen rs rule: unseen.induct) auto

lemma unseen_distinct: "distinct (map reference_key (unseen seen rs))"
proof (induction seen rs rule: unseen.induct)
  case (2 seen r rs)
  then show ?case
    using unseen_keys [of "reference_key r # seen" rs] by auto
qed simp

lemma reference_batch_keys:
  "set (map reference_key (reference_batch declared invs)) =
     set (map reference_key (declared @ concat (map ir_code_references invs)))"
  unfolding reference_batch_def unseen_keys by simp

lemma apply_resolved_keys [simp]: "map reference_key (apply_resolved resolved refs) = map reference_key refs"
proof -
  have "reference_key (case map_of (rev (map (\<lambda>c. (reference_key c, c)) resolved)) (reference_key r) of
          Some c \<Rightarrow> c | None \<Rightarrow> r) = reference_key r" for r
    by (auto split: option.splits dest!: map_of_SomeD)
  then show ?thesis by (simp add: apply_resolved_def)
qed

lemma unresolved_keys [simp]:
  "map reference_key (unresolved_references repo commit refs) = map reference_key refs"
  by (simp add: unresolved_references_def reference_key_def)

lemma map_references_only:
  "map (\<lambda>i. i\<lparr>ir_code_references := []\<rparr>) (map_references f invs) = map (\<lambda>i. i\<lparr>ir_code_references := []\<rparr>) invs"
  "map ir_code_references (map_references f invs) = map f (map ir_code_references invs)"
  by (simp_all add: map_references_def)

lemma replace_file_frame:
  "replace_file put w = (res, w') \<Longrightarrow>
     (\<exists>fs. w' = w\<lparr>faults := fs\<rparr> \<and> res \<noteq> None) \<or> (\<exists>fs. w' = put (w\<lparr>faults := fs\<rparr>) \<and> res = None)"
  unfolding replace_file_def by (auto split: prod.splits option.splits dest!: try_ios_frame)

lemma trim_space_line:
  assumes "is_sha256 i"
  shows "trim_space (i @ [newline]) = i" "i \<noteq> []"
proof -
  have len: "length i = 64" and hex: "list_all is_hex_char i"
    using assms by (simp_all add: is_sha256_def is_hex_def)
  then show ne: "i \<noteq> []" by auto
  have ok: "byte c < 128 \<and> \<not> ascii_ws c" if "c \<in> set i" for c
    using hex that by (auto simp: list_all_iff is_hex_char_def is_digit_def ascii_ws_def)
  from ne obtain c cs where i: "i = c # cs" by (cases i) auto
  have "byte c < 128 \<and> \<not> ascii_ws c" using ok i by simp
  then have "ws_head wide_ws (i @ [newline]) = 0" by (simp add: i)
  then have front: "trim_front wide_ws (i @ [newline]) = i @ [newline]" by (rule trim_front_id)
  obtain d ds where d: "rev i = d # ds" using ne by (cases "rev i") auto
  then have "d \<in> set i" by (metis list.set_intros(1) set_rev)
  then have "ws_head (map rev wide_ws) (rev i) = 0" using ok [of d] by (simp add: d)
  then have "trim_front (map rev wide_ws) (rev i) = rev i" by (rule trim_front_id)
  moreover have "ascii_ws newline" by code_simp
  ultimately have "trim_front (map rev wide_ws) (newline # rev i) = rev i"
    by (subst trim_front.simps) simp
  with front show "trim_space (i @ [newline]) = i" by (simp add: trim_space_def)
qed

text \<open>Publishing a new snapshot when no step fails.\<close>

lemma publish_calm:
  assumes "faults w = []" "gs_repository_id s \<noteq> []" "gs_commit_sha s \<noteq> []" "gs_created_at s \<noteq> 0"
    "map_of (snapshots w) (content_id sha s) = None"
  shows "publish_snapshot sha s w = (Inr (s\<lparr>gs_id := content_id sha s\<rparr>),
     w\<lparr>snapshots := map_put (content_id sha s)
          (JsonFile (enc_snapshot (s\<lparr>gs_id := content_id sha s\<rparr>))) (snapshots w),
       active_pointer := Some (content_id sha s @ [newline])\<rparr>)"
  using assms
  by (simp add: publish_snapshot_def is_zero_time_def Let_def ensure_snapshot_def write_snapshot_def
      replace_file_def)

lemma publish_stamped:
  assumes "faults w = []" "gs_repository_id s \<noteq> []" "gs_commit_sha s \<noteq> []" "gs_created_at s = 0"
    "clock w (reads w) \<noteq> 0"
  shows "publish_snapshot sha s w =
     publish_snapshot sha (s\<lparr>gs_created_at := clock w (reads w)\<rparr>) (w\<lparr>reads := Suc (reads w)\<rparr>)"
  using assms by (simp add: publish_snapshot_def is_zero_time_def time_now_def)

lemma content_id_time [simp]: "content_id sha (s\<lparr>gs_created_at := t\<rparr>) = content_id sha s"
  by (simp add: content_id_def)

lemma local_resolve_active:
  assumes "faults w = []" "active_pointer w = Some (i @ [newline])" "is_sha256 i"
    "map_of (snapshots w) i = Some (JsonFile (enc_snapshot s))"
    "gs_repository_id s = gq_repository_id q" "gs_commit_sha s = gq_commit_sha q"
  shows "local_resolve q w = (Inr \<lparr>gr_references = map (resolve_reference s q) (gq_references q),
                                  gr_snapshot_id = gs_id s\<rparr>, w)"
  using assms trim_space_line [OF assms(3)]
  by (simp add: local_resolve_def active_snapshot_def Let_def)

lemma local_resolve_calm:
  "faults w = [] \<Longrightarrow> local_resolve q w = (r, w') \<Longrightarrow> w' = w"
  by (auto simp: local_resolve_def active_snapshot_def Let_def
      split: option.splits sum.splits json_file.splits if_splits)

section \<open>Properties\<close>

text \<open>Closing a session never drops, reorders or renames a code reference: whatever the graph port does,
  fail or answer anything at all, every declared reference, at the top level and inside each
  invocation, keeps its place, path, symbol and kind, and nothing else of an invocation changes.\<close>

theorem references_never_lost:
  "case fst (resolve_code_references graph repo commit declared invs w) of (declared', invs', state, sid) \<Rightarrow>
     map reference_key declared' = map reference_key declared
     \<and> map (map reference_key \<circ> ir_code_references) invs' = map (map reference_key \<circ> ir_code_references) invs
     \<and> map (\<lambda>i. i\<lparr>ir_code_references := []\<rparr>) invs' = map (\<lambda>i. i\<lparr>ir_code_references := []\<rparr>) invs
     \<and> state \<in> {GraphReady, GraphResolutionPending, GraphSyncPending}"
proof -
  have refs: "map (map reference_key \<circ> ir_code_references) (map_references f invs)
      = map (map reference_key \<circ> ir_code_references) invs"
    if "\<And>rs. map reference_key (f rs) = map reference_key rs" for f
    using that by (simp add: map_references_def)
  show ?thesis
    by (auto simp: resolve_code_references_def refs map_references_only(1) Let_def
        split: option.split prod.split sum.split)
qed

text \<open>With the local graph and with the external graph command, every reference of the closed session,
  resolved or not, carries the repository and the commit of the session that was closed.\<close>

theorem resolved_references_stamped:
  assumes "g = local_graph_port sha \<or> g = graphify_port executable runner"
    "fst (resolve_code_references (Some g) repo commit declared invs w) = (declared', invs', state, sid)"
    "r \<in> set declared' \<or> (\<exists>i \<in> set invs'. r \<in> set (ir_code_references i))"
  shows "cr_repository_id r = repo \<and> cr_commit_sha r = commit"
proof -
  let ?q = "\<lparr>gq_repository_id = repo, gq_commit_sha = commit, gq_references = reference_batch declared invs\<rparr>"
  obtain a w1 where a: "gp_resolve g ?q w = (a, w1)" by (cases "gp_resolve g ?q w")
  show ?thesis
  proof (cases a)
    case (Inl e)
    with a assms(2,3) show ?thesis
      by (auto simp: resolve_code_references_def unresolved_references_def map_references_def)
  next
    case (Inr res)
    have d: "declared' = apply_resolved (gr_references res) declared"
      "invs' = map_references (apply_resolved (gr_references res)) invs"
      using a Inr assms(2)
      by (auto simp: resolve_code_references_def Let_def split: option.splits prod.splits)
    have ans: "local_resolve ?q w = (Inr res, w1) \<or> graphify_resolve executable runner ?q w = (Inr res, w1)"
      using assms(1) a Inr by (auto simp: local_graph_port_def graphify_port_def)
    have stamped: "cr_repository_id c = repo \<and> cr_commit_sha c = commit"
      if "set (map reference_key refs) \<subseteq> set (map reference_key (reference_batch declared invs))"
        "c \<in> set (apply_resolved (gr_references res) refs)" for refs c
      using ans local_service.applied_stamped [of ?q w res w1 refs c]
        graphify_service.applied_stamped [of executable runner ?q w res w1 refs c] that
      by (elim disjE) (simp_all del: set_map)
    from assms(3) show ?thesis
    proof
      assume "r \<in> set declared'"
      then show ?thesis
        using stamped [of declared r] d by (simp add: reference_batch_keys del: set_map)
    next
      assume "\<exists>i \<in> set invs'. r \<in> set (ir_code_references i)"
      then obtain i where "i \<in> set invs" "r \<in> set (apply_resolved (gr_references res) (ir_code_references i))"
        unfolding d map_references_def by auto
      then show ?thesis
        using stamped [of "ir_code_references i" r]
        by (simp only: reference_batch_keys) (force simp: image_iff)
    qed
  qed
qed

definition empty_graph :: gstate where
  "empty_graph = \<lparr>faults = [], clock = (\<lambda>n. 1 + int n), reads = 0, entries = [],
     bindings = [], conflicts = [], locks = [], lock_sequence = 0,
     snapshots = [], active_pointer = None\<rparr>"

definition sample_reference :: code_reference where
  "sample_reference = zero_reference\<lparr>cr_path := ''core/bus.go'', cr_confidence := ''authoritative''\<rparr>"

theorem resolved_references_stamped_witness:
  "\<exists>d' i' st sid. fst (resolve_code_references (Some (local_graph_port sample_sha)) ''r'' ''c''
        [sample_reference] [] empty_graph) = (d', i', st, sid)
     \<and> (\<forall>r \<in> set d'. cr_repository_id r = ''r'' \<and> cr_commit_sha r = ''c'')"
proof -
  obtain d' i' st sid where f: "fst (resolve_code_references (Some (local_graph_port sample_sha)) ''r'' ''c''
        [sample_reference] [] empty_graph) = (d', i', st, sid)"
    by (cases "fst (resolve_code_references (Some (local_graph_port sample_sha)) ''r'' ''c''
        [sample_reference] [] empty_graph)")
  from resolved_references_stamped [OF disjI1 [OF refl] f] f show ?thesis by blast
qed

text \<open>A published snapshot is immutable: publishing anything, with any I/O errors, never changes or
  removes a snapshot file that exists, and when it succeeds the active pointer names the
  content hash of what was published.\<close>

theorem snapshots_immutable:
  assumes "publish_snapshot sha s w = (res, w')" "map_of (snapshots w) i = Some f"
  shows "map_of (snapshots w') i = Some f
     \<and> (\<forall>s'. res = Inr s' \<longrightarrow> gs_id s' = content_id sha s
            \<and> active_pointer w' = Some (content_id sha s @ [newline]))"
proof -
  obtain r1 w1 where 1: "ctx_err w = (r1, w1)" by (cases "ctx_err w")
  have s1: "snapshots w1 = snapshots w" using ctx_err_frame [OF 1] by auto
  show ?thesis
  proof (cases "r1 = None \<and> gs_repository_id s \<noteq> [] \<and> gs_commit_sha s \<noteq> []")
    case False
    with assms 1 s1 show ?thesis
      by (cases r1) (auto simp: publish_snapshot_def)
  next
    case True
    obtain s2 w2 where 2: "(if is_zero_time (gs_created_at s)
        then (case time_now w1 of (t, v) \<Rightarrow> (s\<lparr>gs_created_at := t\<rparr>, v)) else (s, w1)) = (s2, w2)"
      by fastforce
    then have id2: "content_id sha s2 = content_id sha s" "snapshots w2 = snapshots w1"
      by (auto simp: time_now_def split: if_splits)
    let ?i = "content_id sha s" and ?s = "s2\<lparr>gs_id := content_id sha s\<rparr>"
    obtain r3 w3 where 3: "ensure_snapshot ?i ?s w2 = (r3, w3)" by (cases "ensure_snapshot ?i ?s w2")
    obtain r0 w0 where 0: "try_io w2 = (r0, w0)" by (cases "try_io w2")
    have s0: "snapshots w0 = snapshots w2" using try_io_frame [OF 0] by auto
    have w3: "snapshots w3 = snapshots w2
        \<or> map_of (snapshots w2) ?i = None \<and> snapshots w3 = map_put ?i (JsonFile (enc_snapshot ?s)) (snapshots w2)"
    proof -
      have wr: "snapshots v' = snapshots v \<or> snapshots v' = map_put ?i (JsonFile (enc_snapshot ?s)) (snapshots v)"
        if "write_snapshot ?i ?s v = (q, v')" for q v v'
        using replace_file_frame [OF that [unfolded write_snapshot_def]] by auto
      from 3 0 have "w3 = w0 \<or> map_of (snapshots w0) ?i = None \<and> write_snapshot ?i ?s w0 = (r3, w3)"
        by (auto simp: ensure_snapshot_def split: option.splits if_splits)
      with wr [of w0 r3 w3] s0 show ?thesis by auto
    qed
    have kept: "map_of (snapshots w3) i = Some f"
      using w3 assms(2) s1 id2(2) by (auto split: if_splits)
    show ?thesis
    proof (cases r3)
      case (Some e)
      with assms(1) 1 2 3 True id2 have "res = Inl e" "w' = w3"
        by (simp_all add: publish_snapshot_def Let_def)
      with kept show ?thesis by simp
    next
      case None
      obtain r4 w4 where 4: "replace_file (\<lambda>v. v\<lparr>active_pointer := Some (?i @ [newline])\<rparr>) w3 = (r4, w4)"
        by (cases "replace_file (\<lambda>v. v\<lparr>active_pointer := Some (?i @ [newline])\<rparr>) w3")
      with assms(1) 1 2 3 True None id2 have
        "res = (case r4 of Some e \<Rightarrow> Inl e | None \<Rightarrow> Inr ?s)" "w' = w4"
        by (auto simp: publish_snapshot_def Let_def split: option.splits)
      with replace_file_frame [OF 4] kept show ?thesis by auto
    qed
  qed
qed

theorem snapshots_immutable_witness:
  "map_of (snapshots (snd (publish_snapshot sample_sha
      \<lparr>gs_id = [], gs_repository_id = ''r'', gs_commit_sha = ''c'', gs_created_at = 0, gs_references = []\<rparr>
      (empty_graph\<lparr>snapshots := [(sample_key, BadFile)]\<rparr>)))) sample_key = Some BadFile"
proof -
  let ?s = "\<lparr>gs_id = [], gs_repository_id = ''r'', gs_commit_sha = ''c'', gs_created_at = 0, gs_references = []\<rparr>"
  let ?w = "empty_graph\<lparr>snapshots := [(sample_key, BadFile)]\<rparr>"
  obtain res w' where p: "publish_snapshot sample_sha ?s ?w = (res, w')"
    by (cases "publish_snapshot sample_sha ?s ?w")
  from snapshots_immutable [OF p, of sample_key BadFile] p show ?thesis by simp
qed

text \<open>The references of a close vouch for themselves: after a close without errors has published its
  own batch as the new active snapshot, unresolved references included, closing a session of
  the same commit with the same references resolves every one of them, also those the
  graph had just reported as unresolved.\<close>

theorem second_close_confirms_itself:
  assumes "faults w = []" "repo \<noteq> []" "commit \<noteq> []" "\<forall>n. clock w n \<noteq> 0" "\<forall>x. is_sha256 (sha x)"
    "resolve_code_references (Some (local_graph_port sha)) repo commit declared [] w
       = ((declared1, [], GraphReady, sid), w1)"
    "\<forall>s. gs_references s = declared1 \<longrightarrow> map_of (snapshots w) (content_id sha s) = None"
    "distinct (map reference_key declared)"
    "\<forall>r \<in> set declared. cr_confidence r = ConfidenceAuthoritative"
  shows "\<forall>r \<in> set (fst (fst (resolve_code_references (Some (local_graph_port sha)) repo commit declared [] w1))).
     cr_confidence r = ConfidenceAuthoritative"
proof -
  let ?q = "\<lparr>gq_repository_id = repo, gq_commit_sha = commit, gq_references = reference_batch declared []\<rparr>"
  have dist: "unseen seen rs = rs" if "distinct (map reference_key rs)" "set seen \<inter> set (map reference_key rs) = {}"
    for seen rs
    using that by (induction seen rs rule: unseen.induct) auto
  have batch: "reference_batch declared [] = declared"
    using dist [of declared "[]"] assms(8) by (simp add: reference_batch_def)
  have apply_map: "apply_resolved (map g declared) declared = map g declared"
    if "\<And>r. reference_key (g r) = reference_key r" for g
  proof -
    have "map_of (rev (map (\<lambda>c. (reference_key c, c)) (map g rs))) (reference_key r) = Some (g r)"
      if "distinct (map reference_key rs)" "r \<in> set rs" for rs r
    proof -
      have "distinct (map fst (rev (map (\<lambda>c. (reference_key c, c)) (map g rs))))"
        using that(1) \<open>\<And>r. reference_key (g r) = reference_key r\<close> by (simp add: comp_def rev_map [symmetric])
      moreover have "(reference_key r, g r) \<in> set (rev (map (\<lambda>c. (reference_key c, c)) (map g rs)))"
        using that(2) \<open>\<And>r. reference_key (g r) = reference_key r\<close> by (force simp: image_iff)
      ultimately show ?thesis by (simp only: map_of_eq_Some_iff)
    qed
    with assms(8) show ?thesis by (simp add: apply_resolved_def)
  qed
  obtain a v where a: "local_resolve ?q w = (a, v)" by (cases "local_resolve ?q w")
  have v: "v = w" using local_resolve_calm [OF assms(1) a] .
  obtain res where res: "a = Inr res"
    using assms(6) a
    by (cases a) (auto simp: resolve_code_references_def local_graph_port_def GraphReady_def
        GraphResolutionPending_def)
  have "\<exists>s0. gr_references res = map (resolve_reference s0 ?q) (gq_references ?q)"
    using a res
    by (auto simp: local_resolve_def simp del: map_eq_conv
        split: prod.splits option.splits sum.splits if_splits)
  then obtain s0 where s0: "gr_references res = map (resolve_reference s0 ?q) declared"
    by (auto simp: batch simp del: map_eq_conv)
  define snap where "snap = \<lparr>gs_id = [], gs_repository_id = repo, gs_commit_sha = commit,
      gs_created_at = clock w (reads w), gs_references = gr_references res\<rparr>"
  let ?s0 = "\<lparr>gs_id = [], gs_repository_id = repo, gs_commit_sha = commit,
      gs_created_at = 0, gs_references = gr_references res\<rparr>"
  obtain p w2 where p: "publish_snapshot sha ?s0 w = (p, w2)" by (cases "publish_snapshot sha ?s0 w")
  have d1: "declared1 = apply_resolved (gr_references res) declared" "w1 = w2"
    using assms(6) a res v p
    by (auto simp: resolve_code_references_def local_graph_port_def Let_def)
  then have refs1: "declared1 = gr_references res"
    by (simp add: s0 apply_map)
  have new: "map_of (snapshots w) (content_id sha snap) = None"
    using assms(7) refs1 by (simp add: snap_def)
  have "publish_snapshot sha ?s0 w = publish_snapshot sha snap (w\<lparr>reads := Suc (reads w)\<rparr>)"
    using publish_stamped [of w ?s0 sha] assms(1-4) by (simp add: snap_def)
  moreover have "publish_snapshot sha snap (w\<lparr>reads := Suc (reads w)\<rparr>)
      = (Inr (snap\<lparr>gs_id := content_id sha snap\<rparr>),
         w\<lparr>reads := Suc (reads w), snapshots := map_put (content_id sha snap)
            (JsonFile (enc_snapshot (snap\<lparr>gs_id := content_id sha snap\<rparr>))) (snapshots w),
          active_pointer := Some (content_id sha snap @ [newline])\<rparr>)"
    using publish_calm [of "w\<lparr>reads := Suc (reads w)\<rparr>" snap sha] assms(1-4) new by (simp add: snap_def)
  ultimately have w1: "faults w1 = []" "active_pointer w1 = Some (content_id sha snap @ [newline])"
      "map_of (snapshots w1) (content_id sha snap) = Some (JsonFile (enc_snapshot (snap\<lparr>gs_id := content_id sha snap\<rparr>)))"
    using p d1(2) assms(1) by auto
  have "is_sha256 (content_id sha snap)" using assms(5) by (simp add: content_id_def)
  with local_resolve_active [of w1 "content_id sha snap" "snap\<lparr>gs_id := content_id sha snap\<rparr>" ?q] w1
  have again: "local_resolve ?q w1 = (Inr \<lparr>gr_references = map (resolve_reference (snap\<lparr>gs_id := content_id sha snap\<rparr>) ?q) declared,
      gr_snapshot_id = content_id sha snap\<rparr>, w1)"
    by (simp add: snap_def batch)
  have conf: "cr_confidence (resolve_reference (snap\<lparr>gs_id := content_id sha snap\<rparr>) ?q r) = ConfidenceAuthoritative"
    if "r \<in> set declared" for r
  proof -
    have "resolve_reference s0 ?q r \<in> set (gr_references res)" using that s0 by simp
    moreover have "candidate_matches r (resolve_reference s0 ?q r)"
      using resolve_reference_key [of s0 ?q r] by (simp add: candidate_matches_def reference_key_def)
    ultimately have "list_ex (candidate_matches r) (gr_references res)"
      by (auto simp: list_ex_iff)
    with assms(9) that show ?thesis
      by (simp add: resolve_reference_def Let_def snap_def ConfidenceAuthoritative_def)
  qed
  have "fst (fst (resolve_code_references (Some (local_graph_port sha)) repo commit declared [] w1))
      = map (resolve_reference (snap\<lparr>gs_id := content_id sha snap\<rparr>) ?q) declared"
    using again
    by (simp add: resolve_code_references_def local_graph_port_def Let_def apply_map split: prod.split)
  with conf show ?thesis by simp
qed

definition other_key :: string where
  "other_key = replicate 64 (CHR ''b'')"

lemma other_key_facts: "is_sha256 other_key" "other_key \<noteq> sample_key" "is_sha256 sample_key"
  by code_simp+

definition empty_snapshot :: graph_snapshot where
  "empty_snapshot = \<lparr>gs_id = other_key, gs_repository_id = ''r'', gs_commit_sha = ''c'',
     gs_created_at = 1, gs_references = []\<rparr>"

definition ready_graph :: gstate where
  "ready_graph = empty_graph\<lparr>snapshots := [(other_key, JsonFile (enc_snapshot empty_snapshot))],
     active_pointer := Some (other_key @ [newline])\<rparr>"

theorem second_close_confirms_itself_witness:
  "\<exists>d1 w1. fst (resolve_code_references (Some (local_graph_port sample_sha)) ''r'' ''c''
        [sample_reference] [] ready_graph) = (d1, [], GraphReady, other_key)
     \<and> map cr_confidence d1 = [ConfidenceUnresolved]
     \<and> w1 = snd (resolve_code_references (Some (local_graph_port sample_sha)) ''r'' ''c''
        [sample_reference] [] ready_graph)
     \<and> (\<forall>r \<in> set (fst (fst (resolve_code_references (Some (local_graph_port sample_sha)) ''r'' ''c''
          [sample_reference] [] w1))). cr_confidence r = ConfidenceAuthoritative)"
proof -
  let ?q = "\<lparr>gq_repository_id = ''r'', gq_commit_sha = ''c'', gq_references = [sample_reference]\<rparr>"
  have g: "faults ready_graph = []" "active_pointer ready_graph = Some (other_key @ [newline])"
    "map_of (snapshots ready_graph) other_key = Some (JsonFile (enc_snapshot empty_snapshot))"
    "map_of (snapshots ready_graph) sample_key = None" "clock ready_graph n \<noteq> 0" for n
    using other_key_facts(2) by (auto simp: ready_graph_def empty_graph_def)
  have lr: "local_resolve ?q ready_graph = (Inr \<lparr>gr_references = [resolve_reference empty_snapshot ?q sample_reference],
      gr_snapshot_id = other_key\<rparr>, ready_graph)"
    using local_resolve_active [OF g(1,2) other_key_facts(1) g(3), of ?q] by (simp add: empty_snapshot_def)
  have idk: "content_id sample_sha s = sample_key" for s by (simp add: content_id_def sample_sha_def)
  let ?s0 = "\<lparr>gs_id = [], gs_repository_id = ''r'', gs_commit_sha = ''c'', gs_created_at = 0,
      gs_references = [resolve_reference empty_snapshot ?q sample_reference]\<rparr>"
  have "\<exists>s w'. publish_snapshot sample_sha ?s0 ready_graph = (Inr s, w')"
    using publish_stamped [OF g(1), of ?s0 sample_sha] g
      publish_calm [of "ready_graph\<lparr>reads := Suc (reads ready_graph)\<rparr>" "?s0\<lparr>gs_created_at := clock ready_graph (reads ready_graph)\<rparr>" sample_sha]
    by (simp add: idk)
  then obtain s w' where pub: "publish_snapshot sample_sha ?s0 ready_graph = (Inr s, w')" by blast
  have batch: "reference_batch [sample_reference] [] = [sample_reference]" by (simp add: reference_batch_def)
  have key: "reference_key (resolve_reference empty_snapshot ?q sample_reference) = reference_key sample_reference" by simp
  have first: "resolve_code_references (Some (local_graph_port sample_sha)) ''r'' ''c'' [sample_reference] [] ready_graph
      = (([resolve_reference empty_snapshot ?q sample_reference], [], GraphReady, other_key), w')"
    using lr pub key
    by (simp add: resolve_code_references_def local_graph_port_def batch Let_def apply_resolved_def map_references_def)
  have unres: "cr_confidence (resolve_reference empty_snapshot ?q sample_reference) = ConfidenceUnresolved"
    by (simp add: resolve_reference_def empty_snapshot_def Let_def)
  have "\<forall>r \<in> set (fst (fst (resolve_code_references (Some (local_graph_port sample_sha)) ''r'' ''c''
          [sample_reference] [] w'))). cr_confidence r = ConfidenceAuthoritative"
    by (rule second_close_confirms_itself [OF g(1) _ _ _ _ first])
      (simp_all add: g idk sample_sha_def sample_reference_def ConfidenceAuthoritative_def)
  with first unres show ?thesis by simp
qed

text \<open>A snapshot that was published is what the next resolution answers from: for a request of the
  same repository and commit, a reference is reported unresolved exactly when the published
  references hold none with its path and, where it names them, its symbol and kind, or when it was
  declared unresolved already.\<close>

theorem publish_then_resolve:
  assumes "faults w = []" "gs_repository_id s \<noteq> []" "gs_commit_sha s \<noteq> []" "gs_created_at s \<noteq> 0"
    "is_sha256 (content_id sha s)" "map_of (snapshots w) (content_id sha s) = None"
    "gq_repository_id q = gs_repository_id s" "gq_commit_sha q = gs_commit_sha s"
  shows "\<exists>w' res. publish_snapshot sha s w = (Inr (s\<lparr>gs_id := content_id sha s\<rparr>), w')
     \<and> local_resolve q w' = (Inr res, w') \<and> gr_snapshot_id res = content_id sha s
     \<and> map (\<lambda>r. cr_confidence r = ConfidenceUnresolved) (gr_references res) =
         map (\<lambda>r. cr_confidence r = ConfidenceUnresolved \<or> \<not> list_ex (candidate_matches r) (gs_references s))
             (gq_references q)"
proof -
  let ?s = "s\<lparr>gs_id := content_id sha s\<rparr>"
  let ?w = "w\<lparr>snapshots := map_put (content_id sha s) (JsonFile (enc_snapshot ?s)) (snapshots w),
       active_pointer := Some (content_id sha s @ [newline])\<rparr>"
  have lr: "local_resolve q ?w = (Inr \<lparr>gr_references = map (resolve_reference ?s q) (gq_references q),
      gr_snapshot_id = content_id sha s\<rparr>, ?w)"
    using local_resolve_active [of ?w "content_id sha s" ?s q] assms by simp
  have "candidate_matches (r\<lparr>cr_confidence := c\<rparr>) = candidate_matches r" for r c
    by (simp add: candidate_matches_def fun_eq_iff)
  then have "(cr_confidence (resolve_reference ?s q r) = ConfidenceUnresolved)
      = (cr_confidence r = ConfidenceUnresolved \<or> \<not> list_ex (candidate_matches r) (gs_references s))" for r
    by (simp add: resolve_reference_def Let_def ConfidenceAuthoritative_def ConfidenceUnresolved_def)
  with publish_calm [OF assms(1-4,6)] lr show ?thesis by (auto simp: comp_def)
qed

theorem publish_then_resolve_witness:
  "\<exists>w' res. publish_snapshot sample_sha (empty_snapshot\<lparr>gs_references := [sample_reference]\<rparr>) empty_graph
        = (Inr (empty_snapshot\<lparr>gs_references := [sample_reference], gs_id := sample_key\<rparr>), w')
     \<and> local_resolve \<lparr>gq_repository_id = ''r'', gq_commit_sha = ''c'', gq_references = [sample_reference]\<rparr> w' = (Inr res, w')
     \<and> map (\<lambda>r. cr_confidence r = ConfidenceUnresolved) (gr_references res) = [False]"
proof -
  let ?q = "\<lparr>gq_repository_id = ''r'', gq_commit_sha = ''c'', gq_references = [sample_reference]\<rparr>"
  define s where "s = empty_snapshot\<lparr>gs_references := [sample_reference]\<rparr>"
  have i: "content_id sample_sha s = sample_key" by (simp add: content_id_def sample_sha_def)
  have 1: "faults empty_graph = []" by (simp add: empty_graph_def)
  have 2: "gs_repository_id s \<noteq> []" "gs_commit_sha s \<noteq> []" "gs_created_at s \<noteq> 0"
    by (simp_all add: s_def empty_snapshot_def)
  have 3: "is_sha256 (content_id sample_sha s)" "map_of (snapshots empty_graph) (content_id sample_sha s) = None"
    unfolding i by (simp_all add: empty_graph_def)
  have 4: "gq_repository_id ?q = gs_repository_id s" "gq_commit_sha ?q = gs_commit_sha s"
    by (simp_all add: s_def empty_snapshot_def)
  obtain w' res where pub: "publish_snapshot sample_sha s empty_graph = (Inr (s\<lparr>gs_id := content_id sample_sha s\<rparr>), w')"
      and loc: "local_resolve ?q w' = (Inr res, w')"
      and conf: "map (\<lambda>r. cr_confidence r = ConfidenceUnresolved) (gr_references res) =
         map (\<lambda>r. cr_confidence r = ConfidenceUnresolved \<or> \<not> list_ex (candidate_matches r) (gs_references s))
             (gq_references ?q)"
    using publish_then_resolve [OF 1 2 3 4] by blast
  have "candidate_matches sample_reference sample_reference"
    "cr_confidence sample_reference \<noteq> ConfidenceUnresolved"
    by (simp_all add: candidate_matches_def sample_reference_def ConfidenceUnresolved_def)
  then have "map (\<lambda>r. cr_confidence r = ConfidenceUnresolved) (gr_references res) = [False]"
    unfolding conf by (simp add: s_def)
  with pub [unfolded i] loc show ?thesis unfolding s_def by (intro exI conjI) simp_all
qed

end
