(* ===== verification/Skill_Invocation.thy ===== *)
theory Skill_Invocation
  imports Skill_Preparer Artifact_Path Code_Graph
begin

text \<open>
  \<open>core/skill_invocation.go\<close>: the structural validation of invocation records, the evidence the
  journal holds of an invocation, the reconciliation of the two, and the Skill Invocations section of
  a Markdown artifact. Reading JSON text is the parameter \<open>rv\<close>: the first value of a text and
  what follows it, \<^term>\<open>None\<close> where \<open>encoding/json\<close> reports an error.
\<close>

type_synonym json_reader = "string \<Rightarrow> (json \<times> string) option"

section \<open>Validation\<close>

definition SkillInvocationRecordSchemaVersion :: int where "SkillInvocationRecordSchemaVersion = 1"
definition OutcomeSucceeded :: string where "OutcomeSucceeded = ''succeeded''"
definition OutcomeFailed :: string where "OutcomeFailed = ''failed''"
definition JournalVerified :: string where "JournalVerified = ''journal-verified''"
definition RuntimeDeclared :: string where "RuntimeDeclared = ''runtime-declared''"

definition record_invalid :: "string \<Rightarrow> err" where
  "record_invalid t = GoErr [ErrSkillInvocationRecordInvalid] (''skill invocation record is invalid: '' @ t)"

fun trim_references :: "err \<Rightarrow> code_reference list \<Rightarrow> code_reference list res" where
  "trim_references missing [] = Inr []"
| "trim_references missing (r # rs) =
     (let r' = r\<lparr>cr_path := trim_space (cr_path r),
                 cr_confidence := (if cr_confidence r = [] then ConfidenceAuthoritative else cr_confidence r)\<rparr> in
      if cr_path r' = [] then Inl missing
      else (case trim_references missing rs of Inl e \<Rightarrow> Inl e | Inr rs' \<Rightarrow> Inr (r' # rs')))"

fun clear_artifacts :: "invocation_artifact list \<Rightarrow> invocation_artifact list res" where
  "clear_artifacts [] = Inr []"
| "clear_artifacts (a # as) =
     (case normalize_artifact_path (ia_path a) of
        Inl e \<Rightarrow> Inl (GoErr (ErrSkillInvocationRecordInvalid # err_chain e)
                       (''skill invocation record is invalid: '' @ err_text e))
      | Inr p \<Rightarrow> (case clear_artifacts as of
                   Inl e \<Rightarrow> Inl e | Inr as' \<Rightarrow> Inr (zero_artifact\<lparr>ia_path := p\<rparr> # as')))"

definition trim_identity :: "package_identity \<Rightarrow> package_identity" where
  "trim_identity i = i\<lparr>pi_source_id := trim_space (pi_source_id i), pi_name := trim_space (pi_name i)\<rparr>"

definition validate_record :: "invocation_record \<Rightarrow> invocation_record res" where
  "validate_record r =
     (let v = (if ir_schema_version r = 0 then SkillInvocationRecordSchemaVersion else ir_schema_version r);
          i = trim_space (ir_invocation_id r); pid = trim_identity (ir_identity r);
          oc = to_lower (trim_space (ir_outcome r)) in
      if v \<noteq> SkillInvocationRecordSchemaVersion then Inl (record_invalid ''schema version must be 1'')
      else if i = [] then Inl (record_invalid ''invocation id is required'')
      else if pi_source_id pid = [] \<or> pi_name pid = []
      then Inl (record_invalid ''package identity source and name are required'')
      else if length (pi_package_hash pid) \<noteq> 64 \<or> \<not> list_all is_hex_char (pi_package_hash pid)
      then Inl (record_invalid ''package hash must be a SHA-256 hex digest'')
      else if oc \<noteq> OutcomeSucceeded \<and> oc \<noteq> OutcomeFailed
      then Inl (record_invalid ''outcome must be \"succeeded\" or \"failed\"'')
      else
     (case trim_references (record_invalid ''nested code reference path is required'') (ir_code_references r) of
        Inl e \<Rightarrow> Inl e
      | Inr refs \<Rightarrow>
     (case clear_artifacts (ir_artifacts r) of
        Inl e \<Rightarrow> Inl e
      | Inr as \<Rightarrow>
          Inr (r\<lparr>ir_schema_version := v, ir_invocation_id := i, ir_related_id := trim_space (ir_related_id r),
            ir_identity := pid, ir_bundle_hash := trim_space (ir_bundle_hash r),
            ir_runtime := trim_space (ir_runtime r), ir_outcome := oc, ir_summary := trim_space (ir_summary r),
            ir_code_references := refs, ir_artifacts := as, ir_arguments := normalize_arguments (ir_arguments r),
            ir_provenance := [], ir_event_references := []\<rparr>))))"

section \<open>Evidence\<close>

record evidence =
  je_found :: bool
  je_identity :: package_identity
  je_bundle_hash :: string
  je_runtime :: string
  je_arguments :: "(string \<times> goval) list option"
  je_identity_from :: string
  je_has_outcome :: bool
  je_outcome :: string
  je_outcome_from :: string

definition no_evidence :: evidence where
  "no_evidence = \<lparr>je_found = False, je_identity = zero_identity, je_bundle_hash = [], je_runtime = [],
     je_arguments = None, je_identity_from = [], je_has_outcome = False, je_outcome = [], je_outcome_from = []\<rparr>"

record payload_fields =
  pf_identity :: package_identity
  pf_bundle_hash :: string
  pf_runtime :: string
  pf_arguments :: "(string \<times> goval) list option"

text \<open>
  \<open>json.Unmarshal\<close> of the payloads of the prepared, started, completed and failed events: the fields they share, the
  arguments of the first, and a last text field (\<open>summary\<close>, \<open>diagnostic\<close>) that must be a string.
\<close>

definition dec_payload :: "bool \<Rightarrow> string list \<Rightarrow> json option \<Rightarrow> payload_fields option" where
  "dec_payload with_args texts p =
     (case p of
        Some JNull \<Rightarrow> Some \<lparr>pf_identity = zero_identity, pf_bundle_hash = [], pf_runtime = [], pf_arguments = None\<rparr>
      | Some (JObj kvs) \<Rightarrow>
          (case (dec_struct dec_identity zero_identity (field_values ''package_identity'' kvs),
                 str_field ''bundle_hash'' kvs, str_field ''runtime'' kvs,
                 (if with_args then dec_args False None (field_values ''arguments'' kvs) else Some None))
           of (Some i, Some h, Some rt, Some as) \<Rightarrow>
             if list_all (\<lambda>n. str_field n kvs \<noteq> None) ([''invocation_id'', ''session_id''] @ texts)
             then Some \<lparr>pf_identity = i, pf_bundle_hash = h, pf_runtime = rt, pf_arguments = as\<rparr>
             else None
           | _ \<Rightarrow> None)
      | _ \<Rightarrow> None)"

definition with_identity :: "payload_fields \<Rightarrow> string \<Rightarrow> evidence \<Rightarrow> evidence" where
  "with_identity p i ev =
     (if je_identity_from ev = [] then ev\<lparr>je_identity := pf_identity p, je_bundle_hash := pf_bundle_hash p,
        je_runtime := pf_runtime p, je_identity_from := i\<rparr> else ev)"

definition with_outcome :: "string \<Rightarrow> string \<Rightarrow> evidence \<Rightarrow> evidence" where
  "with_outcome oc i ev = ev\<lparr>je_found := True, je_has_outcome := True, je_outcome := oc, je_outcome_from := i\<rparr>"

definition event_evidence :: "event \<Rightarrow> evidence \<Rightarrow> evidence" where
  "event_evidence e ev =
     (if ev_type e = SkillEventPrepared then
        (case dec_payload True [] (ev_payload e) of
           None \<Rightarrow> ev
         | Some p \<Rightarrow> ev\<lparr>je_found := True, je_identity := pf_identity p, je_bundle_hash := pf_bundle_hash p,
             je_runtime := pf_runtime p, je_arguments := pf_arguments p, je_identity_from := ev_id e\<rparr>)
      else if ev_type e = SkillEventInvocationStarted then
        (case dec_payload False [] (ev_payload e) of
           None \<Rightarrow> ev | Some p \<Rightarrow> with_identity p (ev_id e) (ev\<lparr>je_found := True\<rparr>))
      else if ev_type e = SkillEventInvocationCompleted then
        (case dec_payload False [''summary''] (ev_payload e) of
           None \<Rightarrow> ev | Some p \<Rightarrow> with_identity p (ev_id e) (with_outcome OutcomeSucceeded (ev_id e) ev))
      else if ev_type e = SkillEventInvocationFailed then
        (case dec_payload False [''diagnostic''] (ev_payload e) of
           None \<Rightarrow> ev | Some p \<Rightarrow> with_identity p (ev_id e) (with_outcome OutcomeFailed (ev_id e) ev))
      else if ev_type e = SkillEventPrepareFailed then with_outcome OutcomeFailed (ev_id e) ev
      else ev)"

fun gather_records :: "journal_record list \<Rightarrow> evidence \<Rightarrow> evidence" where
  "gather_records [] ev = ev"
| "gather_records (r # rs) ev =
     gather_records rs
       (case jr_event r of
          None \<Rightarrow> ev
        | Some e \<Rightarrow> if jr_kind r \<noteq> ''event'' then ev else event_evidence e ev)"

text \<open>\<open>journaled\<close> is whether there is a journal at all.\<close>

definition gather_evidence ::
  "(string \<Rightarrow> string) \<Rightarrow> bool \<Rightarrow> string \<Rightarrow> 'a jstate_scheme \<Rightarrow> evidence res \<times> 'a jstate_scheme"
where
  "gather_evidence sha journaled i w =
     (if \<not> journaled then (Inr no_evidence, w)
      else (case read_saga sha i w of
              (Inl e, w1) \<Rightarrow> (Inl e, w1)
            | (Inr rs, w1) \<Rightarrow> (Inr (gather_records rs no_evidence), w1)))"

section \<open>Reconciliation\<close>

definition contradictions :: "evidence \<Rightarrow> invocation_record \<Rightarrow> string list" where
  "contradictions ev r =
     (if je_identity_from ev = [] then []
      else (if qualified_name (je_identity ev) \<noteq> qualified_name (ir_identity r)
            then [''name (record '' @ go_quote (qualified_name (ir_identity r)) @ '', journal ''
                  @ go_quote (qualified_name (je_identity ev)) @ '')''] else [])
         @ (if pi_package_hash (je_identity ev) \<noteq> pi_package_hash (ir_identity r) then [''package hash''] else [])
         @ (if je_runtime ev \<noteq> ir_runtime r
            then [''runtime (record '' @ go_quote (ir_runtime r) @ '', journal '' @ go_quote (je_runtime ev) @ '')'']
            else [])
         @ (if je_bundle_hash ev \<noteq> [] \<and> ir_bundle_hash r \<noteq> [] \<and> je_bundle_hash ev \<noteq> ir_bundle_hash r
            then [''bundle hash''] else [])
         @ (if je_arguments ev \<noteq> ir_arguments r then [''arguments''] else []))
     @ (if je_has_outcome ev \<and> je_outcome ev \<noteq> ir_outcome r
        then [''result (record '' @ go_quote (ir_outcome r) @ '', journal '' @ go_quote (je_outcome ev) @ '')'']
        else [])"

definition evidence_refs :: "evidence \<Rightarrow> string list" where
  "evidence_refs ev =
     (if je_identity_from ev \<noteq> [] then [je_identity_from ev] else [])
     @ (if je_outcome_from ev \<noteq> [] \<and> je_outcome_from ev \<noteq> je_identity_from ev
        then [je_outcome_from ev] else [])"

definition judge_record :: "evidence \<Rightarrow> invocation_record \<Rightarrow> invocation_record res" where
  "judge_record ev r =
     (if \<not> je_found ev
      then Inr (r\<lparr>ir_provenance := RuntimeDeclared, ir_event_references := []\<rparr>)
      else if contradictions ev r \<noteq> []
      then Inl (GoErr [ErrSkillInvocationContradiction]
             (''skill invocation record contradicts local journal evidence: invocation '' @ ir_invocation_id r
              @ '': '' @ join_with ''; '' (contradictions ev r)))
      else Inr (r\<lparr>ir_provenance := JournalVerified, ir_event_references := evidence_refs ev\<rparr>))"

definition reconcile_record ::
  "(string \<Rightarrow> string) \<Rightarrow> bool \<Rightarrow> invocation_record \<Rightarrow> 'a jstate_scheme \<Rightarrow> invocation_record res \<times> 'a jstate_scheme"
where
  "reconcile_record sha journaled r w =
     (case gather_evidence sha journaled (ir_invocation_id r) w of
        (Inl e, w1) \<Rightarrow> (Inl e, w1)
      | (Inr ev, w1) \<Rightarrow> (judge_record ev r, w1))"

section \<open>The Skill Invocations section\<close>

definition section_invalid :: "string \<Rightarrow> err" where
  "section_invalid t = GoErr [ErrSkillInvocationsSectionInvalid] (''skill invocations section is invalid: '' @ t)"

definition is_skill_heading :: "string \<Rightarrow> bool" where
  "is_skill_heading line =
     (let t = trim_space line in
      has_prefix ''## '' t \<and> equal_fold (trim_space (trim_prefix ''## '' t)) ''skill invocations'')"

record section_scan =
  ss_in_fence :: bool
  ss_blocks :: nat
  ss_block :: string
  ss_rest :: "string list"

text \<open>The inner loop: the body up to the next heading outside a fence.\<close>

fun scan_section :: "bool \<Rightarrow> nat \<Rightarrow> string list \<Rightarrow> string \<Rightarrow> string list \<Rightarrow> section_scan res" where
  "scan_section fence n fl block [] = Inr \<lparr>ss_in_fence = fence, ss_blocks = n, ss_block = block, ss_rest = []\<rparr>"
| "scan_section fence n fl block (l # ls) =
     (let t = trim_space l in
      if \<not> fence \<and> has_prefix ''## '' t
      then Inr \<lparr>ss_in_fence = fence, ss_blocks = n, ss_block = block, ss_rest = l # ls\<rparr>
      else if has_prefix ''```'' t then
        (if \<not> fence then scan_section True n [] block ls
         else if n + 1 > 1
         then Inl (section_invalid ''more than one JSON block under \"Skill Invocations\"'')
         else scan_section False (n + 1) fl (join_with [newline] fl) ls)
      else if fence then scan_section fence n (fl @ [l]) block ls
      else scan_section fence n fl block ls)"

text \<open>\<open>Decoder.More\<close>: the next byte is there and does not close an array or an object.\<close>

definition json_space :: "char \<Rightarrow> bool" where
  "json_space c = (byte c = 32 \<or> byte c = 9 \<or> byte c = 10 \<or> byte c = 13)"

definition decoder_more :: "string \<Rightarrow> bool" where
  "decoder_more rest = (case dropWhile json_space rest of [] \<Rightarrow> False | c # _ \<Rightarrow> c \<noteq> CHR '']'' \<and> c \<noteq> CHR ''}'')"

definition decode_block :: "json_reader \<Rightarrow> string \<Rightarrow> invocation_record list res" where
  "decode_block rv block =
     (case rv block of
        None \<Rightarrow> Inl (section_invalid ''malformed JSON array under \"Skill Invocations\"'')
      | Some (j, rest) \<Rightarrow>
          (case dec_slice (elem zero_invocation dec_invocation) [] [j] of
             None \<Rightarrow> Inl (section_invalid ''malformed JSON array under \"Skill Invocations\"'')
           | Some rs \<Rightarrow>
               if decoder_more rest
               then Inl (section_invalid ''trailing content after JSON array under \"Skill Invocations\"'')
               else Inr rs))"

lemma scan_section_rest: "scan_section fence n fl block ls = Inr sc \<Longrightarrow> length (ss_rest sc) \<le> length ls"
  by (induction fence n fl block ls rule: scan_section.induct) (fastforce simp: Let_def split: if_splits)+

function extract_lines ::
  "json_reader \<Rightarrow> string list \<Rightarrow> bool \<Rightarrow> invocation_record list \<Rightarrow> string list
     \<Rightarrow> (invocation_record list \<times> string list) res"
where
  "extract_lines rv [] found rs rem = Inr (rs, rem)"
| "extract_lines rv (l # ls) found rs rem =
     (if is_skill_heading l then
        (if found then Inl (section_invalid ''duplicate \"Skill Invocations\" section'')
         else
        (case scan_section False 0 [] [] ls of
           Inl e \<Rightarrow> Inl e
         | Inr sc \<Rightarrow>
             if ss_in_fence sc
             then Inl (section_invalid ''unterminated JSON code block under \"Skill Invocations\"'')
             else if ss_blocks sc = 0
             then Inl (section_invalid ''exactly one strict JSON array block is required under \"Skill Invocations\"'')
             else
            (case decode_block rv (ss_block sc) of
               Inl e \<Rightarrow> Inl e
             | Inr rs' \<Rightarrow> extract_lines rv (ss_rest sc) True rs' rem)))
      else extract_lines rv ls found rs (rem @ [l]))"
  by pat_completeness auto
termination
  by (relation "measure (\<lambda>(rv, ls, x). length ls)") (auto dest!: scan_section_rest)

definition extract_skill_invocations :: "json_reader \<Rightarrow> string \<Rightarrow> (invocation_record list \<times> string) res" where
  "extract_skill_invocations rv markdown =
     (case extract_lines rv (split_on newline markdown) False [] [] of
        Inl e \<Rightarrow> Inl e
      | Inr (rs, rem) \<Rightarrow> Inr (rs, join_with [newline] rem))"

section \<open>Lemmas on validation\<close>

lemma trim_references_ok:
  assumes "trim_references m rs = Inr rs'"
  shows "\<forall>r \<in> set rs'. cr_path r \<noteq> [] \<and> trim_space (cr_path r) = cr_path r \<and> cr_confidence r \<noteq> []"
    "trim_references m' rs' = Inr rs'" "length rs' = length rs"
proof -
  have "(\<forall>r \<in> set rs'. cr_path r \<noteq> [] \<and> trim_space (cr_path r) = cr_path r \<and> cr_confidence r \<noteq> [])
      \<and> trim_references m' rs' = Inr rs' \<and> length rs' = length rs"
    using assms
  proof (induction rs arbitrary: rs')
    case (Cons r rs)
    from Cons.prems obtain us where u: "trim_references m rs = Inr us" "trim_space (cr_path r) \<noteq> []"
      "rs' = r\<lparr>cr_path := trim_space (cr_path r), cr_confidence :=
         (if cr_confidence r = [] then ConfidenceAuthoritative else cr_confidence r)\<rparr> # us"
      by (auto simp: Let_def split: if_splits sum.splits)
    with Cons.IH [OF u(1)] show ?case by (auto simp: Let_def ConfidenceAuthoritative_def)
  qed simp
  then show "\<forall>r \<in> set rs'. cr_path r \<noteq> [] \<and> trim_space (cr_path r) = cr_path r \<and> cr_confidence r \<noteq> []"
    "trim_references m' rs' = Inr rs'" "length rs' = length rs" by blast+
qed

lemma clear_artifacts_ok:
  "clear_artifacts as = Inr as' \<Longrightarrow> clear_artifacts as' = Inr as'
     \<and> (\<forall>a \<in> set as'. a = zero_artifact\<lparr>ia_path := ia_path a\<rparr>)"
proof (induction as arbitrary: as')
  case (Cons a as)
  from Cons.prems obtain p us where "normalize_artifact_path (ia_path a) = Inr p" "clear_artifacts as = Inr us"
    "as' = zero_artifact\<lparr>ia_path := p\<rparr> # us"
    by (auto split: sum.splits)
  with Cons.IH normalize_plain(4) show ?case by (auto simp: zero_artifact_def)
qed simp

lemma normalize_arguments_idem [simp]: "normalize_arguments (normalize_arguments m) = normalize_arguments m"
proof (cases m)
  case (Some kvs)
  obtain kvs' where k: "any_of_json True (json_of_any (GMap kvs)) = GMap kvs'" by simp
  then have "normal_any (GMap kvs')" by (metis normal_any_of_json)
  with any_of_json_of_any Some k show ?thesis by (simp add: normalize_arguments_def del: any_of_json.simps json_of_any.simps)
qed (simp add: normalize_arguments_def)

text \<open>What every validated record satisfies.\<close>

definition record_valid :: "invocation_record \<Rightarrow> bool" where
  "record_valid r =
     (ir_schema_version r = 1 \<and> ir_invocation_id r \<noteq> []
      \<and> (ir_outcome r = OutcomeSucceeded \<or> ir_outcome r = OutcomeFailed)
      \<and> pi_source_id (ir_identity r) \<noteq> [] \<and> pi_name (ir_identity r) \<noteq> [] \<and> length (pi_package_hash (ir_identity r)) = 64
      \<and> (\<forall>c \<in> set (ir_code_references r). cr_path c \<noteq> [] \<and> cr_confidence c \<noteq> [])
      \<and> (\<forall>a \<in> set (ir_artifacts r). a = zero_artifact\<lparr>ia_path := ia_path a\<rparr>)
      \<and> ir_provenance r = [] \<and> ir_event_references r = [])"

lemma outcome_fixed:
  "to_lower (trim_space OutcomeSucceeded) = OutcomeSucceeded" "to_lower (trim_space OutcomeFailed) = OutcomeFailed"
  by code_simp+

lemma validate_record_facts:
  assumes "validate_record r = Inr r'"
  shows "record_valid r'" "validate_record r' = Inr r'"
proof -
  define oc where "oc = to_lower (trim_space (ir_outcome r))"
  from assms obtain refs as where c: "trim_space (ir_invocation_id r) \<noteq> []"
    "pi_source_id (trim_identity (ir_identity r)) \<noteq> []" "pi_name (trim_identity (ir_identity r)) \<noteq> []"
    "length (pi_package_hash (trim_identity (ir_identity r))) = 64"
    "list_all is_hex_char (pi_package_hash (trim_identity (ir_identity r)))"
    "oc = OutcomeSucceeded \<or> oc = OutcomeFailed"
    "trim_references (record_invalid ''nested code reference path is required'') (ir_code_references r) = Inr refs"
    "clear_artifacts (ir_artifacts r) = Inr as"
    "r' = r\<lparr>ir_schema_version := 1, ir_invocation_id := trim_space (ir_invocation_id r),
            ir_related_id := trim_space (ir_related_id r),
            ir_identity := trim_identity (ir_identity r), ir_bundle_hash := trim_space (ir_bundle_hash r),
            ir_runtime := trim_space (ir_runtime r), ir_outcome := oc, ir_summary := trim_space (ir_summary r),
            ir_code_references := refs, ir_artifacts := as, ir_arguments := normalize_arguments (ir_arguments r),
            ir_provenance := [], ir_event_references := []\<rparr>"
    by (auto simp: validate_record_def Let_def SkillInvocationRecordSchemaVersion_def oc_def
        split: if_splits sum.splits)
  note refs = trim_references_ok [OF c(7)] and as = clear_artifacts_ok [OF c(8)]
  have oc: "to_lower (trim_space oc) = oc" using c(6) outcome_fixed by auto
  have tid: "trim_identity (trim_identity (ir_identity r)) = trim_identity (ir_identity r)"
    by (simp add: trim_identity_def)
  show "record_valid r'"
    using c refs(1) as by (simp add: record_valid_def)
  show "validate_record r' = Inr r'"
    using c refs(2) as oc tid
    by (simp add: validate_record_def Let_def SkillInvocationRecordSchemaVersion_def)
qed

section \<open>Lemmas on the evidence\<close>

lemma gather_records_append: "gather_records (rs @ rs') ev = gather_records rs' (gather_records rs ev)"
  by (induction rs arbitrary: ev) auto

lemmas gather_step = gather_records.simps(2)

declare gather_records.simps(2) [simp del]

lemma gather_attempt [simp]: "gather_records (attempt_record a # rs) ev = gather_records rs ev"
  by (simp add: gather_step attempt_record_def)

lemma gather_event [simp]: "gather_records (event_record e # rs) ev = gather_records rs (event_evidence e ev)"
  by (simp add: gather_step event_record_def)

lemma requested_evidence [simp]: "event_evidence (requested_event i q opts t) ev = ev"
  by (simp add: event_evidence_def requested_event_def skill_event_def skill_event_types)

lemma failed_evidence [simp]:
  "event_evidence (failed_event strip i q e opts t) ev = with_outcome OutcomeFailed (i @ '':prepare-failed'') ev"
  by (simp add: event_evidence_def failed_event_def skill_event_def skill_event_types)

lemma dec_struct_enc_identity [simp]: "dec_struct dec_identity zero_identity [enc_identity i] = Some i"
  by (rule dec_struct_identity)

lemma dec_prepared_payload:
  assumes "arguments_ok (sb_arguments b)"
  shows "dec_payload True [] (Some (prepared_payload i b session)) =
     Some \<lparr>pf_identity = sb_identity b, pf_bundle_hash = sb_hash b, pf_runtime = sb_runtime b,
           pf_arguments = stored_arguments (sb_arguments b)\<rparr>"
  using assms
  by (simp add: dec_payload_def prepared_payload_def str_field_def equal_fold_def zero_identity_def [symmetric])

lemma prepared_evidence:
  assumes "arguments_ok (sb_arguments b)"
  shows "event_evidence (prepared_event i b opts t) ev = ev\<lparr>je_found := True, je_identity := sb_identity b,
     je_bundle_hash := sb_hash b, je_runtime := sb_runtime b,
     je_arguments := stored_arguments (sb_arguments b), je_identity_from := i @ '':prepared''\<rparr>"
  by (simp add: event_evidence_def prepared_event_def skill_event_def skill_event_types
      dec_prepared_payload [OF assms])

lemma lifecycle_evidence:
  assumes "arguments_ok (sb_arguments b)"
  shows "gather_records (lifecycle strip i q opts t b None t2 t3) no_evidence = no_evidence\<lparr>je_found := True,
     je_identity := sb_identity b, je_bundle_hash := sb_hash b, je_runtime := sb_runtime b,
     je_arguments := stored_arguments (sb_arguments b), je_identity_from := i @ '':prepared''\<rparr>"
  by (simp add: lifecycle_def outcome_event_def prepared_evidence [OF assms])

text \<open>Once a prepared event was seen, the other events leave the identity evidence alone.\<close>

definition same_identity_evidence :: "evidence \<Rightarrow> evidence \<Rightarrow> bool" where
  "same_identity_evidence ev ev' =
     (je_identity ev' = je_identity ev \<and> je_bundle_hash ev' = je_bundle_hash ev \<and> je_runtime ev' = je_runtime ev
      \<and> je_arguments ev' = je_arguments ev \<and> je_identity_from ev' = je_identity_from ev
      \<and> (je_found ev \<longrightarrow> je_found ev'))"

lemma event_keeps_identity:
  "je_identity_from ev \<noteq> [] \<Longrightarrow> ev_type e \<noteq> SkillEventPrepared \<Longrightarrow> same_identity_evidence ev (event_evidence e ev)"
  by (auto simp: event_evidence_def same_identity_evidence_def with_identity_def with_outcome_def split: option.split)

lemma gather_keeps_identity:
  assumes "je_identity_from ev \<noteq> []"
    "\<forall>r \<in> set rs. \<forall>e. jr_event r = Some e \<longrightarrow> ev_type e \<noteq> SkillEventPrepared"
  shows "same_identity_evidence ev (gather_records rs ev)"
  using assms
proof (induction rs arbitrary: ev)
  case Nil
  then show ?case by (simp add: same_identity_evidence_def)
next
  case (Cons r rs)
  define ev1 where "ev1 = (case jr_event r of None \<Rightarrow> ev
    | Some e \<Rightarrow> if jr_kind r \<noteq> ''event'' then ev else event_evidence e ev)"
  have "same_identity_evidence ev ev1"
    using Cons.prems event_keeps_identity by (auto simp: ev1_def same_identity_evidence_def split: option.split)
  moreover from this Cons have "same_identity_evidence ev1 (gather_records rs ev1)"
    by (intro Cons.IH) (auto simp: same_identity_evidence_def)
  ultimately show ?case
    by (auto simp: gather_step ev1_def [symmetric] same_identity_evidence_def)
qed

lemma reconcile_read:
  "read_saga sha (ir_invocation_id r) w = (Inr rs, w1) \<Longrightarrow>
     reconcile_record sha True r w = (judge_record (gather_records rs no_evidence) r, w1)"
  by (simp add: reconcile_record_def gather_evidence_def)

lemma judge_accepts:
  assumes "judge_record ev r = Inr r'" "je_found ev" "je_identity_from ev \<noteq> []"
  shows "qualified_name (ir_identity r') = qualified_name (je_identity ev)"
    "pi_package_hash (ir_identity r') = pi_package_hash (je_identity ev)" "ir_runtime r' = je_runtime ev"
    "ir_arguments r' = je_arguments ev" "ir_provenance r' = JournalVerified"
    "je_has_outcome ev \<longrightarrow> ir_outcome r' = je_outcome ev"
  using assms by (auto simp: judge_record_def contradictions_def split: if_splits)

lemma judge_rejects:
  "je_found ev \<Longrightarrow> contradictions ev r \<noteq> [] \<Longrightarrow> \<exists>e. judge_record ev r = Inl e \<and> errors_is e ErrSkillInvocationContradiction"
  by (simp add: judge_record_def)

section \<open>Properties\<close>

text \<open>C15: when the saga of an invocation holds a prepared event (the last one, for
  bundle \<open>b\<close>), whatever else it holds, a record of that invocation is accepted only as journal-verified, and only
  if its package, its package hash, its runtime and its arguments are those of the journal.\<close>

theorem accepted_record_agrees_with_preparation:
  assumes "read_saga sha (ir_invocation_id r) w = (Inr (xs @ event_record (prepared_event i b opts t) # ys), w1)"
    "\<forall>x \<in> set ys. \<forall>e. jr_event x = Some e \<longrightarrow> ev_type e \<noteq> SkillEventPrepared"
    "arguments_ok (sb_arguments b)" "reconcile_record sha True r w = (Inr r', w')"
  shows "ir_provenance r' = JournalVerified \<and> qualified_name (ir_identity r') = qualified_name (sb_identity b)
     \<and> pi_package_hash (ir_identity r') = pi_package_hash (sb_identity b) \<and> ir_runtime r' = sb_runtime b
     \<and> ir_arguments r' = stored_arguments (sb_arguments b)"
proof -
  define ev where "ev = gather_records (xs @ event_record (prepared_event i b opts t) # ys) no_evidence"
  define ev1 where "ev1 = event_evidence (prepared_event i b opts t) (gather_records xs no_evidence)"
  have e: "ev = gather_records ys ev1" by (simp add: ev_def ev1_def gather_records_append)
  have id1: "je_found ev1" "je_identity ev1 = sb_identity b" "je_runtime ev1 = sb_runtime b"
    "je_arguments ev1 = stored_arguments (sb_arguments b)" "je_identity_from ev1 \<noteq> []"
    by (simp_all add: ev1_def prepared_evidence [OF assms(3)])
  from gather_keeps_identity [OF id1(5) assms(2)] e have "same_identity_evidence ev1 ev" by simp
  with id1 have "je_found ev" "je_identity ev = sb_identity b" "je_runtime ev = sb_runtime b"
    "je_arguments ev = stored_arguments (sb_arguments b)" "je_identity_from ev \<noteq> []"
    by (auto simp: same_identity_evidence_def)
  moreover from assms(1,4) have "judge_record ev r = Inr r'" by (simp add: reconcile_read ev_def)
  ultimately show ?thesis using judge_accepts by metis
qed

definition sample_bundle :: skill_bundle where
  "sample_bundle = zero_bundle\<lparr>sb_invocation_id := ''x'', sb_hash := ''h'', sb_runtime := ''rt'', sb_identity :=
     \<lparr>pi_source_id = ''a'', pi_name = ''tdd'', pi_package_hash = replicate 64 CHR ''a''\<rparr>\<rparr>"

definition sample_record :: invocation_record where
  "sample_record = zero_invocation\<lparr>ir_schema_version := 1, ir_invocation_id := ''x'', ir_runtime := ''rt'',
     ir_outcome := OutcomeSucceeded, ir_identity := sb_identity sample_bundle\<rparr>"

definition journal_with :: "journal_record list \<Rightarrow> jstate" where
  "journal_with rs = \<lparr>faults = [], clock = (\<lambda>n. 1), reads = 0,
     entries = [(safe_segment_name id ''x'', File \<lparr>seg_lines = map line_of rs, seg_open = False\<rparr>)]\<rparr>"

lemma read_journal_with:
  assumes "list_all journalable rs"
  shows "read_saga id ''x'' (journal_with rs) = (Inr rs, journal_with rs)"
proof -
  have "read_lines (map line_of rs) = Inr rs"
    using assms
  proof (induction rs rule: rev_induct)
    case (snoc r rs)
    then have "journalable r" by simp
    have "map line_of (rs @ [r]) = map line_of rs @ [Line (enc_record r)]" by (simp add: line_of_def)
    with read_lines_snoc_record [OF \<open>journalable r\<close>, of "map line_of rs"] snoc show ?case
      by simp
  qed simp
  then show ?thesis
    by (intro read_saga_calm) (simp_all add: journal_with_def saga_log_Some saga_segment_def)
qed

lemma sample_prepared:
  "list_all journalable [event_record (prepared_event ''x'' sample_bundle sample_options 1)]"
  "arguments_ok (sb_arguments sample_bundle)"
proof -
  let ?r = "event_record (prepared_event ''x'' sample_bundle sample_options 1)"
  have "length (json_text (enc_record ?r)) < 3000" by code_simp
  moreover have "record_ok ?r"
    by (simp add: record_ok_def event_record_def prepared_event_def skill_event_def SkillEventSchemaVersion_def int64_def)
  ultimately show "list_all journalable [?r]" by (simp add: journalable_def max_line_def)
  show "arguments_ok (sb_arguments sample_bundle)"
    by (simp add: arguments_ok_def sample_bundle_def zero_bundle_def)
qed

theorem accepted_record_agrees_with_preparation_witness:
  "\<exists>r' w'. reconcile_record id True sample_record
       (journal_with [event_record (prepared_event ''x'' sample_bundle sample_options 1)]) = (Inr r', w')
     \<and> ir_provenance r' = JournalVerified \<and> ir_arguments r' = stored_arguments (sb_arguments sample_bundle)"
proof -
  let ?rs = "[event_record (prepared_event ''x'' sample_bundle sample_options 1)]"
  have i: "ir_invocation_id sample_record = ''x''" by (simp add: sample_record_def)
  note rd = read_journal_with [OF sample_prepared(1)]
  have g: "gather_records ?rs no_evidence = no_evidence\<lparr>je_found := True, je_identity := sb_identity sample_bundle,
     je_bundle_hash := sb_hash sample_bundle, je_runtime := sb_runtime sample_bundle,
     je_arguments := stored_arguments (sb_arguments sample_bundle), je_identity_from := ''x:prepared''\<rparr>"
    by (simp add: prepared_evidence [OF sample_prepared(2)])
  have "contradictions (gather_records ?rs no_evidence) sample_record = []" "je_found (gather_records ?rs no_evidence)"
    unfolding g by (simp_all add: contradictions_def sample_record_def no_evidence_def
        sample_bundle_def zero_bundle_def zero_invocation_def stored_arguments_def)
  then obtain r' where r: "judge_record (gather_records ?rs no_evidence) sample_record = Inr r'"
    by (simp add: judge_record_def)
  have rs: "read_saga id (ir_invocation_id sample_record) (journal_with ?rs) = (Inr ([] @ hd ?rs # []), journal_with ?rs)"
    unfolding i rd by simp
  have rec: "reconcile_record id True sample_record (journal_with ?rs) = (Inr r', journal_with ?rs)"
    unfolding reconcile_read [OF rs] using r by simp
  from accepted_record_agrees_with_preparation [OF rs [unfolded list.sel] _ sample_prepared(2) rec] rec
  show ?thesis by auto
qed

text \<open>An invocation prepared with a number among its arguments can never be verified: the
  evidence is read back with the number as a \<open>float64\<close>, the record carries it as a \<open>json.Number\<close>, and
  \<open>reflect.DeepEqual\<close> tells them apart, so a record that repeats the prepared arguments exactly is
  rejected as contradicting the journal.\<close>

theorem numeric_arguments_never_verify:
  assumes "read_saga sha i w = (Inr (lifecycle strip i q opts t b None t2 t3), w1)" "ir_invocation_id r = i"
    "sb_arguments b = Some kvs" "normal_any (GMap kvs)" "(k, GNumber n) \<in> set kvs"
    "ir_arguments r = sb_arguments b"
  shows "\<exists>e. reconcile_record sha True r w = (Inl e, w1) \<and> errors_is e ErrSkillInvocationContradiction"
proof -
  have ok: "arguments_ok (sb_arguments b)" using assms(3,4) by (simp add: arguments_ok_def)
  define ev where "ev = gather_records (lifecycle strip i q opts t b None t2 t3) no_evidence"
  note ev = ev_def [unfolded lifecycle_evidence [OF ok]]
  have "map (map_prod id float_any) kvs \<noteq> kvs"
  proof
    assume "map (map_prod id float_any) kvs = kvs"
    then have "map_prod id float_any (k, GNumber n) = (k, GNumber n)"
      using assms(5) by (metis in_set_conv_nth length_map nth_map)
    then show False by simp
  qed
  then have "stored_arguments (sb_arguments b) \<noteq> ir_arguments r"
    using assms(3,5,6) by (auto simp: stored_arguments_def)
  then have "contradictions ev r \<noteq> []" by (simp add: contradictions_def ev)
  moreover have "je_found ev" by (simp add: ev)
  ultimately obtain e where "judge_record ev r = Inl e" "errors_is e ErrSkillInvocationContradiction"
    using judge_rejects by blast
  with reconcile_read [of sha r w] assms(1,2) show ?thesis by (simp add: ev_def)
qed

definition numeric_bundle :: skill_bundle where
  "numeric_bundle = sample_bundle\<lparr>sb_arguments := Some [(''n'', GNumber (NInt 3))]\<rparr>"

lemma lifecycle_journalable:
  assumes "bundle \<in> {sample_bundle, numeric_bundle}"
  shows "list_all journalable (lifecycle (\<lambda>u. None) ''x'' sample_request sample_options 1 bundle None 1 1)"
proof -
  have a: "sanitised (\<lambda>u. None) (prepare_attempt ''x'' 1 None) = prepare_attempt ''x'' 1 None"
    by (simp add: sanitised_def prepare_attempt_def) code_simp
  have "\<forall>bundle \<in> {sample_bundle, numeric_bundle}. list_all (\<lambda>r. length (json_text (enc_record r)) < 3000)
      [event_record (requested_event ''x'' sample_request sample_options 1), attempt_record (prepare_attempt ''x'' 1 None),
       event_record (prepared_event ''x'' bundle sample_options 1)]"
    by code_simp
  with assms have "list_all (\<lambda>r. length (json_text (enc_record r)) < max_line)
      [event_record (requested_event ''x'' sample_request sample_options 1), attempt_record (prepare_attempt ''x'' 1 None),
       event_record (prepared_event ''x'' bundle sample_options 1)]"
    by (fastforce simp: max_line_def)
  then show ?thesis
    unfolding lifecycle_def a
    by (simp add: journalable_def record_ok_def event_record_def attempt_record_def requested_event_def
        outcome_event_def prepared_event_def skill_event_def SkillEventSchemaVersion_def int64_def)
qed

theorem numeric_arguments_never_verify_witness:
  "\<exists>e w. reconcile_record id True (sample_record\<lparr>ir_arguments := Some [(''n'', GNumber (NInt 3))]\<rparr>)
     (journal_with (lifecycle (\<lambda>u. None) ''x'' sample_request sample_options 1 numeric_bundle None 1 1)) = (Inl e, w)
     \<and> errors_is e ErrSkillInvocationContradiction"
  using numeric_arguments_never_verify [OF read_journal_with [OF lifecycle_journalable],
      of numeric_bundle "sample_record\<lparr>ir_arguments := Some [(''n'', GNumber (NInt 3))]\<rparr>" "[(''n'', GNumber (NInt 3))]" "''n''" "NInt 3"]
  by (auto simp: sample_record_def numeric_bundle_def)

text \<open>A preparation that fails later under the same identity (a conflicting replay, a
  runtime that is not compatible) is taken as the outcome of the invocation: the record of the invocation
  that did succeed is rejected from then on.\<close>

theorem late_preparation_failure_contradicts:
  assumes "read_saga sha i w = (Inr (lifecycle strip i q opts t b None t2 t3
       @ lifecycle strip i q' opts' t' b' (Some er) t2' t3'), w1)"
    "ir_invocation_id r = i" "ir_outcome r = OutcomeSucceeded"
  shows "\<exists>e. reconcile_record sha True r w = (Inl e, w1) \<and> errors_is e ErrSkillInvocationContradiction"
proof -
  define ev where "ev = gather_records (lifecycle strip i q opts t b None t2 t3
       @ lifecycle strip i q' opts' t' b' (Some er) t2' t3') no_evidence"
  have "ev = with_outcome OutcomeFailed (i @ '':prepare-failed'')
      (gather_records (lifecycle strip i q opts t b None t2 t3) no_evidence)"
    unfolding ev_def gather_records_append by (simp add: lifecycle_def [of _ _ q'] outcome_event_def)
  then have "je_found ev" "je_has_outcome ev" "je_outcome ev = OutcomeFailed" by (simp_all add: with_outcome_def)
  moreover from this assms(3) have "contradictions ev r \<noteq> []"
    by (simp add: contradictions_def OutcomeFailed_def OutcomeSucceeded_def)
  ultimately obtain e where "judge_record ev r = Inl e" "errors_is e ErrSkillInvocationContradiction"
    using judge_rejects by blast
  with reconcile_read [of sha r w] assms(1,2) show ?thesis by (simp add: ev_def)
qed

text \<open>The failed preparation of the sample: its records are short enough to be read back.\<close>

definition sample_failure :: err where "sample_failure = GoErr [] ''no''"

lemma failed_lifecycle_journalable:
  "list_all journalable (lifecycle (\<lambda>u. None) ''x'' sample_request sample_options 1 sample_bundle (Some sample_failure) 1 1)"
proof -
  let ?rs = "[event_record (requested_event ''x'' sample_request sample_options 1),
     attempt_record (sanitised (\<lambda>u. None) (prepare_attempt ''x'' 1 (Some sample_failure))),
     event_record (failed_event (\<lambda>u. None) ''x'' sample_request sample_failure sample_options 1)]"
  have "list_all (\<lambda>r. length (json_text (enc_record r)) < 3000 \<and> record_ok r) ?rs"
    by code_simp
  then have "list_all journalable ?rs" by (auto simp: journalable_def max_line_def)
  then show ?thesis by (simp add: lifecycle_def outcome_event_def)
qed

theorem late_preparation_failure_contradicts_witness:
  "\<exists>e w. reconcile_record id True sample_record
     (journal_with (lifecycle (\<lambda>u. None) ''x'' sample_request sample_options 1 sample_bundle None 1 1
        @ lifecycle (\<lambda>u. None) ''x'' sample_request sample_options 1 sample_bundle (Some sample_failure) 1 1)) = (Inl e, w)
     \<and> errors_is e ErrSkillInvocationContradiction"
proof -
  have "list_all journalable (lifecycle (\<lambda>u. None) ''x'' sample_request sample_options 1 sample_bundle None 1 1
        @ lifecycle (\<lambda>u. None) ''x'' sample_request sample_options 1 sample_bundle (Some sample_failure) 1 1)"
    using lifecycle_journalable failed_lifecycle_journalable by simp
  from late_preparation_failure_contradicts [OF read_journal_with [OF this], of sample_record]
  show ?thesis by (auto simp: sample_record_def)
qed

text \<open>C40: a record that passes validation has every field the tracker relies on, carries no
  provenance and no event references of its own (they are the journal's to give), and validating it again
  changes nothing.\<close>

theorem validated_record_is_canonical:
  assumes "validate_record r = Inr r'"
  shows "record_valid r' \<and> validate_record r' = Inr r'"
  using validate_record_facts [OF assms] by simp

theorem validated_record_is_canonical_witness:
  "record_valid sample_record \<and> validate_record sample_record = Inr sample_record"
proof -
  have "validate_record (sample_record\<lparr>ir_outcome := '' SUCCEEDED''\<rparr>) = Inr sample_record" by code_simp
  from validated_record_is_canonical [OF this] show ?thesis .
qed

text \<open>Text after the array is refused, unless it starts with a closing bracket or
  brace: \<open>Decoder.More\<close> reports no further value there, so a block such as \<open>[]] and more\<close> is taken.\<close>

theorem closing_bracket_after_the_array_accepted:
  assumes "rv block = Some (JArr js, rest)" "dropWhile json_space rest = c # cs"
    "dec_slice (elem zero_invocation dec_invocation) [] [JArr js] = Some rs"
  shows "decode_block rv block = Inr rs \<longleftrightarrow> c = CHR '']'' \<or> c = CHR ''}''"
  using assms by (auto simp: decode_block_def decoder_more_def)

theorem closing_bracket_after_the_array_accepted_witness:
  "decode_block (\<lambda>t. if t = ''[]] and more'' then Some (JArr [], ''] and more'') else None) ''[]] and more'' = Inr []"
proof -
  have "dropWhile json_space ''] and more'' = CHR '']'' # '' and more''" by code_simp
  moreover have "dec_slice (elem zero_invocation dec_invocation) [] [JArr []] = Some []" by code_simp
  ultimately show ?thesis
    using closing_bracket_after_the_array_accepted
      [of "\<lambda>t. if t = ''[]] and more'' then Some (JArr [], ''] and more'') else None" "''[]] and more''" "[]" "''] and more''"]
    by simp
qed

end
