(* ===== verification/Issue_Rest.thy ===== *)
theory Issue_Rest
  imports Issue_Mirror Skill_Invocation
begin

text \<open>
  \<open>adapters/githubissues/rest.go\<close>: the REST transport of the Issues mirror. The HTTP client, the sleeper, the
  jitter, \<open>url.Parse\<close> on a request URL and the two time parsers of the library are parameters, and so
  is the JSON reader \<open>rv\<close>. A request body is the JSON value that is sent. The paged scans follow the
  links of the server, so they may run forever: that is \<^term>\<open>None\<close>.
\<close>

section \<open>HTTP\<close>

record http_request =
  hq_method :: string
  hq_url :: string
  hq_headers :: "(string \<times> string) list"
  hq_body :: "json option"

record http_response =
  hs_status :: int
  hs_headers :: "(string \<times> string) list"
  hs_body :: string
  hs_read_error :: "err option"

text \<open>\<open>Header.Get\<close>: the first value, empty if there is none.\<close>

definition header_get :: "(string \<times> string) list \<Rightarrow> string \<Rightarrow> string" where
  "header_get h k = (case find (\<lambda>kv. equal_fold (fst kv) k) h of None \<Rightarrow> [] | Some kv \<Rightarrow> snd kv)"

text \<open>The HTTP client, the sleeper and the jitter act on a state of their own, the network.\<close>

record 'n rest =
  re_repository :: string
  re_token :: string
  re_base_url :: string
  re_user_agent :: string
  re_send :: "http_request \<Rightarrow> 'n \<Rightarrow> http_response res \<times> 'n"
  re_sleep :: "int \<Rightarrow> 'n \<Rightarrow> err option \<times> 'n"
  re_jitter :: "int \<Rightarrow> 'n \<Rightarrow> int \<times> 'n"
  re_check_url :: "string \<Rightarrow> err option"
  re_http_time :: "string \<Rightarrow> int option"
  re_parse_time :: "string \<Rightarrow> int option"

text \<open>The provider keeps the link to the next page of the last answer.\<close>

record 'n rstate = store +
  last_next :: string
  net :: 'n

definition with_net :: "('n \<Rightarrow> 'x \<times> 'n) \<Rightarrow> ('n, 'a) rstate_scheme \<Rightarrow> 'x \<times> ('n, 'a) rstate_scheme" where
  "with_net f w = (case f (net w) of (x, n) \<Rightarrow> (x, w\<lparr>net := n\<rparr>))"

definition trim_right_slash :: "string \<Rightarrow> string" where
  "trim_right_slash s = rev (dropWhile (\<lambda>c. c = CHR ''/'') (rev s))"

text \<open>\<open>New\<close>, with the options that are functions given; creating the binding directory may fail.\<close>

definition new_rest :: "string \<Rightarrow> string \<Rightarrow> 'n rest \<Rightarrow> 'a store_scheme
    \<Rightarrow> 'n rest res \<times> 'a store_scheme" where
  "new_rest repository token opts w =
     (let parts = split_on (CHR ''/'') repository; b = trim_right_slash (re_base_url opts) in
      if length parts \<noteq> 2 \<or> parts ! 0 = [] \<or> parts ! 1 = []
      then (Inl (new_err ''GitHub Issues repository must be owner/name''), w)
      else if trim_space token = []
      then (Inl (GoErr [ErrPrerequisiteMissing] ''storage prerequisite missing: SYNTROPH_GITHUB_TOKEN is empty''), w)
      else
     (case try_io w of
        (Some e, w1) \<Rightarrow> (Inl e, w1)
      | (None, w1) \<Rightarrow>
          (Inr (opts\<lparr>re_repository := repository, re_token := token,
                 re_base_url := (if b = [] then ''https://api.github.com'' else b),
                 re_user_agent := (if re_user_agent opts = [] then ''syntroph/dev'' else re_user_agent opts)\<rparr>), w1)))"

section \<open>Errors of the provider\<close>

definition provider_error :: "string \<Rightarrow> int \<Rightarrow> string \<Rightarrow> err" where
  "provider_error class status message =
     GoErr [InProviderError, if class = FailurePrerequisite then ErrPrerequisiteMissing
                             else if class = FailureConflict then ErrConflict else ErrUnavailable]
       (if status \<noteq> 0 then ''GitHub REST status '' @ int_text status @ '': '' @ message else message)"

text \<open>\<open>errors.As\<close> finds the first \<open>providerError\<close> of the chain; the sentinel after it is the one it unwraps to.\<close>

definition provider_class :: "err \<Rightarrow> sentinel option" where
  "provider_class e =
     (case dropWhile (\<lambda>x. x \<noteq> InProviderError) (err_chain e) of _ # x # _ \<Rightarrow> Some x | _ \<Rightarrow> None)"

definition rest_failed :: "storage_result \<Rightarrow> err \<Rightarrow> storage_result" where
  "rest_failed r e =
     (case provider_class e of
        Some c \<Rightarrow>
          if c = ErrPrerequisiteMissing then failed_with PrerequisiteMissing FailurePrerequisite e r
          else if c = ErrConflict then failed_with SyncConflict FailureConflict e r
          else failed_with SyncPending FailureTransient e r
      | None \<Rightarrow>
          if errors_is e ErrPrerequisiteMissing then failed_with PrerequisiteMissing FailurePrerequisite e r
          else failed_with SyncPending FailureTransient e r)"

section \<open>Requests\<close>

text \<open>\<open>classify\<close>: the failure class, and whether the request is sent again.\<close>

definition classify :: "int \<Rightarrow> (string \<times> string) list \<Rightarrow> string \<Rightarrow> string \<times> bool" where
  "classify status h body =
     (let m = to_lower body; secondary = contains_str m ''secondary rate limit'' \<or> contains_str m ''secondary rate'' in
      if status \<in> {429, 502, 503, 504}
         \<or> status = 403 \<and> (secondary \<or> header_get h ''Retry-After'' \<noteq> [] \<and> header_get h ''X-RateLimit-Remaining'' \<noteq> ''0'')
      then (FailureTransient, True)
      else if status = 403 \<and> header_get h ''X-RateLimit-Remaining'' = ''0'' then (FailureTransient, False)
      else if status = 409 then (FailureConflict, False)
      else if status \<in> {401, 403, 404, 410, 422} then (FailurePrerequisite, False)
      else (FailureTransient, False))"

text \<open>Durations are in nanoseconds, in 64 bits: a product wraps, \<open>Sub\<close> saturates.\<close>

definition wrap64 :: "int \<Rightarrow> int" where
  "wrap64 i = (i + 2 ^ 63) mod 2 ^ 64 - 2 ^ 63"

definition until_time :: "int \<Rightarrow> int \<Rightarrow> int" where
  "until_time t now = min (2 ^ 63 - 1) (max 0 (t - now))"

definition retry_delay ::
  "'n rest \<Rightarrow> (string \<times> string) list \<Rightarrow> nat \<Rightarrow> ('n, 'a) rstate_scheme \<Rightarrow> int \<times> ('n, 'a) rstate_scheme" where
  "retry_delay p h attempt w =
     (let value = header_get h ''Retry-After''; base = 100000000 * 2 ^ attempt;
          backoff = (case with_net (re_jitter p (base div 2)) w of (j, w1) \<Rightarrow> (base + j, w1)) in
      if value = [] then backoff
      else
     (case atoi value of
        Some s \<Rightarrow> if 0 \<le> s then (wrap64 (s * 1000000000), w)
                  else (case re_http_time p value of
                          None \<Rightarrow> backoff
                        | Some t \<Rightarrow> (case time_now w of (now, w1) \<Rightarrow> (until_time t now, w1)))
      | None \<Rightarrow> (case re_http_time p value of
                   None \<Rightarrow> backoff
                 | Some t \<Rightarrow> (case time_now w of (now, w1) \<Rightarrow> (until_time t now, w1)))))"

definition safe_message :: "json_reader \<Rightarrow> (string \<times> string) list \<Rightarrow> string \<Rightarrow> string" where
  "safe_message rv h body =
     (let m = (case rv body of
                 Some (JObj kvs, rest) \<Rightarrow>
                   if list_all json_space rest
                   then fold (\<lambda>v s. case v of JStr t \<Rightarrow> t | JTime t \<Rightarrow> rfc3339_text t | _ \<Rightarrow> s) (field_values ''message'' kvs) []
                   else []
               | _ \<Rightarrow> []);
          m' = (if m = [] then ''GitHub REST request failed'' else m);
          ds = concat (map (\<lambda>k. if header_get h k = [] then [] else [to_lower k @ ''='' @ header_get h k])
                 [''X-GitHub-Request-Id'', ''X-Accepted-GitHub-Permissions'', ''X-RateLimit-Remaining'']) in
      if ds = [] then m' else m' @ '' ('' @ join_with '', '' ds @ '')'')"

fun next_of :: "string \<Rightarrow> string list \<Rightarrow> string" where
  "next_of base [] = []"
| "next_of base (part # ps) =
     (if contains_str part (''rel='' @ [CHR 0x22] @ ''next'' @ [CHR 0x22]) then
        (case (index_of ''<'' part, index_of ''>'' part) of
           (Some i, Some j) \<Rightarrow> if i < j then trim_prefix base (drop (i + 1) (take j part)) else next_of base ps
         | _ \<Rightarrow> next_of base ps)
      else next_of base ps)"

definition parse_next :: "string \<Rightarrow> string \<Rightarrow> string" where
  "parse_next link base = next_of base (split_on (CHR '','') link)"

definition rest_headers :: "'n rest \<Rightarrow> json option \<Rightarrow> (string \<times> string) list" where
  "rest_headers p payload =
     [(''Accept'', ''application/vnd.github+json''), (''Authorization'', ''Bearer '' @ re_token p),
      (''X-GitHub-Api-Version'', ''2026-03-10''), (''User-Agent'', re_user_agent p)]
     @ (if payload \<noteq> None then [(''Content-Type'', ''application/json'')] else [])"

definition max_response :: int where "max_response = 16777216"

text \<open>What a request gives: the status, the body, the decoded value, and the error.\<close>

record 'x answer =
  an_status :: int
  an_body :: string
  an_value :: 'x
  an_error :: "err option"

definition method_get :: string where "method_get = ''GET''"

text \<open>
  The loop of \<open>request\<close>; \<open>left\<close> counts the attempts that may still follow this one. \<open>dec\<close> decodes over the value
  the caller passed.
\<close>

fun rest_attempts ::
  "json_reader \<Rightarrow> 'n rest \<Rightarrow> (json \<Rightarrow> 'x \<Rightarrow> 'x option) \<Rightarrow> http_request \<Rightarrow> 'x \<Rightarrow> nat
     \<Rightarrow> ('n, 'a) rstate_scheme \<Rightarrow> 'x answer \<times> ('n, 'a) rstate_scheme"
where
  "rest_attempts rv p dec q out left w =
     (case re_check_url p (hq_url q) of
        Some e \<Rightarrow> (\<lparr>an_status = 0, an_body = [], an_value = out, an_error = Some e\<rparr>, w)
      | None \<Rightarrow>
     (case with_net (re_send p q) w of
        (Inl e, w1) \<Rightarrow>
          (\<lparr>an_status = 0, an_body = [], an_value = out,
             an_error = Some (provider_error FailureTransient 0 (''GitHub REST request failed: '' @ err_text e))\<rparr>, w1)
      | (Inr s, w1) \<Rightarrow>
     (let fail = (\<lambda>class m. \<lparr>an_status = hs_status s, an_body = hs_body s, an_value = out,
                              an_error = Some (provider_error class (hs_status s) m)\<rparr>) in
      case hs_read_error s of
        Some e \<Rightarrow> (fail FailureTransient (err_text e), w1)
      | None \<Rightarrow>
          if int (length (hs_body s)) > max_response
          then ((fail FailureTransient ''GitHub REST response exceeds limit'')\<lparr>an_body := []\<rparr>, w1)
          else if 200 \<le> hs_status s \<and> hs_status s < 300
          then (let done_w = w1\<lparr>last_next := parse_next (header_get (hs_headers s) ''Link'') (re_base_url p)\<rparr>;
                    ok = (\<lambda>v. (\<lparr>an_status = hs_status s, an_body = hs_body s, an_value = v, an_error = None\<rparr>, done_w)) in
                if hs_body s = [] then ok out
                else (case (case rv (hs_body s) of
                              Some (j, rest) \<Rightarrow> if list_all json_space rest then dec j out else None
                            | None \<Rightarrow> None) of
                        Some v \<Rightarrow> ok v
                      | None \<Rightarrow> (fail FailureTransient ''decode GitHub REST response: invalid JSON'', w1)))
          else if hs_status s = 404 \<and> hq_method q = method_get
          then (\<lparr>an_status = 404, an_body = hs_body s, an_value = out, an_error = None\<rparr>, w1)
          else
         (case classify (hs_status s) (hs_headers s) (hs_body s) of (class, retry) \<Rightarrow>
            (case left of
               0 \<Rightarrow> (fail class (safe_message rv (hs_headers s) (hs_body s)), w1)
             | Suc more_left \<Rightarrow>
                 if \<not> retry then (fail class (safe_message rv (hs_headers s) (hs_body s)), w1)
                 else
                (case retry_delay p (hs_headers s) (2 - left) w1 of (dl, w2) \<Rightarrow>
                (case with_net (re_sleep p dl) w2 of
                   (Some e, w3) \<Rightarrow> (\<lparr>an_status = hs_status s, an_body = hs_body s, an_value = out, an_error = Some e\<rparr>, w3)
                 | (None, w3) \<Rightarrow> rest_attempts rv p dec q out more_left w3)))))))"

declare rest_attempts.simps [simp del]

definition rest_request ::
  "json_reader \<Rightarrow> 'n rest \<Rightarrow> (json \<Rightarrow> 'x \<Rightarrow> 'x option) \<Rightarrow> string \<Rightarrow> string \<Rightarrow> json option \<Rightarrow> 'x
     \<Rightarrow> ('n, 'a) rstate_scheme \<Rightarrow> 'x answer \<times> ('n, 'a) rstate_scheme"
where
  "rest_request rv p dec method path payload out w =
     rest_attempts rv p dec
       \<lparr>hq_method = method,
        hq_url = (if has_prefix ''http://'' path \<or> has_prefix ''https://'' path then path else re_base_url p @ path),
        hq_headers = rest_headers p payload, hq_body = payload\<rparr> out 2 w"

section \<open>Decoding\<close>

record label =
  la_name :: string
  la_color :: string
  la_description :: string

definition dec_label :: "(string \<times> json) list \<Rightarrow> label \<Rightarrow> label option" where
  "dec_label kvs d =
     (case (dec_string (la_name d) (field_values ''name'' kvs), dec_string (la_color d) (field_values ''color'' kvs),
            dec_string (la_description d) (field_values ''description'' kvs))
      of (Some n, Some c, Some t) \<Rightarrow> Some \<lparr>la_name = n, la_color = c, la_description = t\<rparr> | _ \<Rightarrow> None)"

definition enc_label :: "label \<Rightarrow> json" where
  "enc_label l = JObj [(''name'', JStr (la_name l)), (''color'', JStr (la_color l)),
     (''description'', JStr (la_description l))]"

definition dec_issue :: "(string \<times> json) list \<Rightarrow> issue \<Rightarrow> issue option" where
  "dec_issue kvs d =
     (case (dec_int (iu_number d) (field_values ''number'' kvs), dec_string (iu_url d) (field_values ''html_url'' kvs),
            dec_string (iu_body d) (field_values ''body'' kvs), dec_time (iu_updated_at d) (field_values ''updated_at'' kvs),
            dec_string (iu_state d) (field_values ''state'' kvs),
            dec_string (iu_state_reason d) (field_values ''state_reason'' kvs))
      of (Some n, Some u, Some b, Some t, Some s, Some sr) \<Rightarrow>
           Some \<lparr>iu_number = n, iu_url = u, iu_body = b, iu_updated_at = t, iu_state = s, iu_state_reason = sr,
             iu_pull_request = (case field_values ''pull_request'' kvs of [] \<Rightarrow> iu_pull_request d | vs \<Rightarrow> Some (last vs))\<rparr>
       | _ \<Rightarrow> None)"

definition dec_comment :: "(string \<times> json) list \<Rightarrow> issue_comment \<Rightarrow> issue_comment option" where
  "dec_comment kvs d =
     (case (dec_int (co_id d) (field_values ''id'' kvs), dec_string (co_url d) (field_values ''html_url'' kvs),
            dec_string (co_body d) (field_values ''body'' kvs), dec_time (co_updated_at d) (field_values ''updated_at'' kvs))
      of (Some i, Some u, Some b, Some t) \<Rightarrow> Some \<lparr>co_id = i, co_url = u, co_body = b, co_updated_at = t\<rparr>
       | _ \<Rightarrow> None)"

definition into :: "((string \<times> json) list \<Rightarrow> 'x \<Rightarrow> 'x option) \<Rightarrow> json \<Rightarrow> 'x \<Rightarrow> 'x option" where
  "into f j d = dec_struct f d [j]"

definition into_list :: "'x \<Rightarrow> ((string \<times> json) list \<Rightarrow> 'x \<Rightarrow> 'x option) \<Rightarrow> json \<Rightarrow> 'x list \<Rightarrow> 'x list option" where
  "into_list z f j d = dec_slice (elem z f) d [j]"

section \<open>Operations\<close>

text \<open>\<open>url.PathEscape\<close>.\<close>

definition upper_hex :: "nat \<Rightarrow> char" where
  "upper_hex n = (if n < 10 then char_of (48 + n) else char_of (55 + n))"

definition escape_segment :: "char \<Rightarrow> string" where
  "escape_segment c =
     (if is_letter c \<or> is_digit c \<or> c \<in> set ''-_.~$&+:=@'' then [c]
      else [CHR ''%'', upper_hex (byte c div 16), upper_hex (byte c mod 16)])"

definition path_escape :: "string \<Rightarrow> string" where
  "path_escape s = concat (map escape_segment s)"

definition repo_path :: "'n rest \<Rightarrow> string \<Rightarrow> string" where
  "repo_path p sfx = ''/repos/'' @ re_repository p @ ''/'' @ sfx"

definition method_post :: string where "method_post = ''POST''"
definition method_patch :: string where "method_patch = ''PATCH''"

definition reserved_labels :: "label list" where
  "reserved_labels =
     [\<lparr>la_name = ''syntroph-memory'', la_color = ''00e5ff'', la_description = ''Immutable Syntroph session memory.''\<rparr>,
      \<lparr>la_name = ''syntroph-session'', la_color = ''a855f7'', la_description = ''Syntroph session diary mirror.''\<rparr>]"

definition zero_label :: label where
  "zero_label = \<lparr>la_name = [], la_color = [], la_description = []\<rparr>"

text \<open>One round of \<open>ensureLabels\<close>: every answer is decoded over the value of the one before.\<close>

definition fetch_label ::
  "json_reader \<Rightarrow> 'n rest \<Rightarrow> label \<Rightarrow> string \<Rightarrow> ('n, 'a) rstate_scheme \<Rightarrow> label res \<times> ('n, 'a) rstate_scheme"
where
  "fetch_label rv p want path w =
     (case rest_request rv p (into dec_label) method_get path None zero_label w of (a, w1) \<Rightarrow>
      case an_error a of
        Some e \<Rightarrow> (Inl e, w1)
      | None \<Rightarrow>
          if an_status a \<noteq> 404 then (Inr (an_value a), w1)
          else
         (case rest_request rv p (into dec_label) method_post (repo_path p ''labels'') (Some (enc_label want))
                 (an_value a) w1 of (c, w2) \<Rightarrow>
          case an_error c of
            None \<Rightarrow> (Inr (an_value c), w2)
          | Some e \<Rightarrow>
              if an_status c = 422 \<and> contains_str (to_lower (an_body c)) ''already_exists''
              then (case rest_request rv p (into dec_label) method_get path None (an_value c) w2 of (g, w3) \<Rightarrow>
                      (case an_error g of None \<Rightarrow> (Inr (an_value g), w3) | Some e' \<Rightarrow> (Inl e', w3)))
              else (Inl e, w2)))"

definition ensure_label ::
  "json_reader \<Rightarrow> 'n rest \<Rightarrow> label \<Rightarrow> ('n, 'a) rstate_scheme \<Rightarrow> err option \<times> ('n, 'a) rstate_scheme"
where
  "ensure_label rv p want w =
     (let path = repo_path p (''labels/'' @ path_escape (la_name want)) in
      case fetch_label rv p want path w of
        (Inl e, w1) \<Rightarrow> (Some e, w1)
      | (Inr got, w1) \<Rightarrow>
          if \<not> equal_fold (la_color got) (la_color want) \<or> la_description got \<noteq> la_description want
          then (case rest_request rv p (into dec_label) method_patch path
                       (Some (JObj [(''color'', JStr (la_color want)), (''description'', JStr (la_description want))]))
                       got w1 of (a, w2) \<Rightarrow> (an_error a, w2))
          else (None, w1))"

fun ensure_labels_from ::
  "json_reader \<Rightarrow> 'n rest \<Rightarrow> label list \<Rightarrow> ('n, 'a) rstate_scheme \<Rightarrow> err option \<times> ('n, 'a) rstate_scheme"
where
  "ensure_labels_from rv p [] w = (None, w)"
| "ensure_labels_from rv p (l # ls) w =
     (case ensure_label rv p l w of
        (Some e, w1) \<Rightarrow> (Some e, w1)
      | (None, w1) \<Rightarrow> ensure_labels_from rv p ls w1)"

definition ensure_labels ::
  "json_reader \<Rightarrow> 'n rest \<Rightarrow> ('n, 'a) rstate_scheme \<Rightarrow> err option \<times> ('n, 'a) rstate_scheme" where
  "ensure_labels rv p w = ensure_labels_from rv p reserved_labels w"

text \<open>The result of a request whose decoded value is the caller's result.\<close>

definition answered :: "'x answer \<times> 'w \<Rightarrow> 'x res \<times> 'w" where
  "answered aw = ((case an_error (fst aw) of None \<Rightarrow> Inr (an_value (fst aw)) | Some e \<Rightarrow> Inl e), snd aw)"

fun date_of_lines :: "(string \<Rightarrow> int option) \<Rightarrow> string list \<Rightarrow> string" where
  "date_of_lines parse [] = []"
| "date_of_lines parse (l # ls) =
     (if has_prefix ''created_at: '' l then
        (case parse (trim_space (trim_prefix ''created_at: '' l)) of
           Some t \<Rightarrow> date_text t
         | None \<Rightarrow> date_of_lines parse ls)
      else date_of_lines parse ls)"

definition diary_date :: "(string \<Rightarrow> int option) \<Rightarrow> string \<Rightarrow> string" where
  "diary_date parse content = date_of_lines parse (split_on newline content)"

text \<open>The dash of the title is U+2014.\<close>

definition em_dash :: string where
  "em_dash = [CHR 0xE2, CHR 0x80, CHR 0x94]"

definition rest_create_issue ::
  "json_reader \<Rightarrow> (string \<Rightarrow> string) \<Rightarrow> 'n rest \<Rightarrow> remote_diary \<Rightarrow> ('n, 'a) rstate_scheme
     \<Rightarrow> issue res \<times> ('n, 'a) rstate_scheme"
where
  "rest_create_issue rv sha p d w =
     (case (if diary_date (re_parse_time p) (rd_content d) \<noteq> [] then (diary_date (re_parse_time p) (rd_content d), w)
            else (case time_now w of (t, w0) \<Rightarrow> (date_text t, w0))) of
        (date, w1) \<Rightarrow>
          answered (rest_request rv p (into dec_issue) method_post (repo_path p ''issues'')
            (Some (JObj
               [(''body'', JStr (diary_body (rd_content d) (diary_key sha d))),
                (''labels'', JArr [JStr ''syntroph-memory'', JStr ''syntroph-session'']),
                (''title'', JStr (''[Syntroph] '' @ date @ '' '' @ em_dash @ '' '' @ rd_session_id d))])) zero_issue w1))"

definition rest_close_issue ::
  "json_reader \<Rightarrow> 'n rest \<Rightarrow> int \<Rightarrow> ('n, 'a) rstate_scheme \<Rightarrow> issue res \<times> ('n, 'a) rstate_scheme"
where
  "rest_close_issue rv p n w =
     answered (rest_request rv p (into dec_issue) method_patch (repo_path p (''issues/'' @ int_text n))
       (Some (JObj [(''state'', JStr ''closed''), (''state_reason'', JStr ''completed'')])) zero_issue w)"

definition rest_create_correction ::
  "json_reader \<Rightarrow> (string \<Rightarrow> string) \<Rightarrow> 'n rest \<Rightarrow> int \<Rightarrow> remote_diary \<Rightarrow> string \<Rightarrow> ('n, 'a) rstate_scheme
     \<Rightarrow> issue_comment res \<times> ('n, 'a) rstate_scheme"
where
  "rest_create_correction rv sha p n d predecessor w =
     answered (rest_request rv p (into dec_comment) method_post (repo_path p (''issues/'' @ int_text n @ ''/comments''))
       (Some (JObj [(''body'', JStr (correction_body sha (rd_content d) (diary_key sha d) predecessor))]))
       zero_comment w)"

definition or_missing :: "string \<Rightarrow> 'x answer \<times> 'w \<Rightarrow> 'x res \<times> 'w" where
  "or_missing m aw =
     (if an_error (fst aw) = None \<and> an_status (fst aw) = 404
      then (Inl (provider_error FailurePrerequisite 404 m), snd aw) else answered aw)"

definition rest_get_issue ::
  "json_reader \<Rightarrow> 'n rest \<Rightarrow> string \<Rightarrow> ('n, 'a) rstate_scheme \<Rightarrow> issue res \<times> ('n, 'a) rstate_scheme"
where
  "rest_get_issue rv p n w =
     or_missing ''Issue mirror is unavailable or not visible with the configured token''
       (rest_request rv p (into dec_issue) method_get (repo_path p (''issues/'' @ path_escape n)) None zero_issue w)"

definition rest_get_comment ::
  "json_reader \<Rightarrow> 'n rest \<Rightarrow> string \<Rightarrow> ('n, 'a) rstate_scheme \<Rightarrow> issue_comment res \<times> ('n, 'a) rstate_scheme"
where
  "rest_get_comment rv p n w =
     or_missing ''Issue correction is unavailable or not visible with the configured token''
       (rest_request rv p (into dec_comment) method_get (repo_path p (''issues/comments/'' @ path_escape n)) None
          zero_comment w)"

section \<open>Scans\<close>

text \<open>A scan asks for page after page until an element passes or no page follows.\<close>

partial_function (option) scan_pages ::
  "json_reader \<Rightarrow> 'n rest \<Rightarrow> (json \<Rightarrow> 'x list \<Rightarrow> 'x list option) \<Rightarrow> ('x \<Rightarrow> bool) \<Rightarrow> string
     \<Rightarrow> ('n, 'a) rstate_scheme \<Rightarrow> ('x res \<times> ('n, 'a) rstate_scheme) option"
where
  "scan_pages rv p dec good page w =
     (if page = [] then Some (Inl issue_not_found, w)
      else
        (let aw = rest_request rv p dec method_get page None [] (w\<lparr>last_next := []\<rparr>) in
         case an_error (fst aw) of
           Some e \<Rightarrow> Some (Inl e, snd aw)
         | None \<Rightarrow>
             (case find good (an_value (fst aw)) of
                Some x \<Rightarrow> Some (Inr x, snd aw)
              | None \<Rightarrow> scan_pages rv p dec good (last_next (snd aw)) (snd aw))))"

declare scan_pages.simps [code]

definition correction_matches ::
  "(string \<Rightarrow> string) \<Rightarrow> remote_diary \<Rightarrow> string \<Rightarrow> issue_comment \<Rightarrow> bool" where
  "correction_matches sha d predecessor c =
     (case parse_correction sha (co_body c) (diary_key sha d) of
        Some m \<Rightarrow> cm_predecessor m = predecessor \<and> cm_content m = rd_content d
      | None \<Rightarrow> False)"

definition find_correction ::
  "json_reader \<Rightarrow> (string \<Rightarrow> string) \<Rightarrow> 'n rest \<Rightarrow> int \<Rightarrow> remote_diary \<Rightarrow> string
     \<Rightarrow> ('n, 'a) rstate_scheme \<Rightarrow> (issue_comment res \<times> ('n, 'a) rstate_scheme) option"
where
  "find_correction rv sha p n d predecessor w =
     scan_pages rv p (into_list zero_comment dec_comment) (correction_matches sha d predecessor)
       (repo_path p (''issues/'' @ int_text n @ ''/comments'') @ ''?per_page=100'') w"

definition marked_issue :: "string \<Rightarrow> issue \<Rightarrow> bool" where
  "marked_issue key i =
     (iu_state i = ''closed'' \<and> (iu_pull_request i = None \<or> iu_pull_request i = Some JNull)
      \<and> has_diary_marker (iu_body i) key)"

definition find_marked ::
  "json_reader \<Rightarrow> 'n rest \<Rightarrow> string \<Rightarrow> ('n, 'a) rstate_scheme \<Rightarrow> (issue res \<times> ('n, 'a) rstate_scheme) option"
where
  "find_marked rv p key w =
     scan_pages rv p (into_list zero_issue dec_issue) (marked_issue key)
       (repo_path p ''issues'' @ ''?state=closed&labels=syntroph-memory%2Csyntroph-session&per_page=100'') w"

section \<open>The effective remote\<close>

definition effective_issue :: "(string \<Rightarrow> string) \<Rightarrow> string \<Rightarrow> issue \<Rightarrow> effective_remote" where
  "effective_issue sha key i =
     (case strip_diary_marker (iu_body i) key of
        Some c \<Rightarrow> \<lparr>er_revision = issue_revision sha i, er_content = c, er_exact = True\<rparr>
      | None \<Rightarrow> \<lparr>er_revision = issue_revision sha i, er_content = iu_body i, er_exact = False\<rparr>)"

definition effective_comment :: "(string \<Rightarrow> string) \<Rightarrow> string \<Rightarrow> issue_comment \<Rightarrow> effective_remote" where
  "effective_comment sha key c =
     (case parse_correction sha (co_body c) key of
        Some m \<Rightarrow> \<lparr>er_revision = comment_revision sha c, er_content = cm_content m, er_exact = True\<rparr>
      | None \<Rightarrow> \<lparr>er_revision = comment_revision sha c, er_content = co_body c, er_exact = False\<rparr>)"

text \<open>With the flag that the revision is still the one the correction named.\<close>

definition rest_predecessor ::
  "json_reader \<Rightarrow> (string \<Rightarrow> string) \<Rightarrow> 'n rest \<Rightarrow> remote_binding \<Rightarrow> string \<Rightarrow> ('n, 'a) rstate_scheme
     \<Rightarrow> (effective_remote \<times> bool) res \<times> ('n, 'a) rstate_scheme"
where
  "rest_predecessor rv sha p b revision w =
     (if has_prefix ''issue:'' revision then
        (case rest_get_issue rv p (rb_remote_id b) w of
           (Inl e, w1) \<Rightarrow> (Inl e, w1)
         | (Inr i, w1) \<Rightarrow> (Inr (effective_issue sha (rb_key b) i, issue_revision sha i = revision), w1))
      else if has_prefix ''comment:'' revision then
        (case revision_id revision ''comment'' of
           Inl e \<Rightarrow> (Inl e, w)
         | Inr n \<Rightarrow>
        (case rest_get_comment rv p n w of
           (Inl e, w1) \<Rightarrow> (Inl e, w1)
         | (Inr c, w1) \<Rightarrow> (Inr (effective_comment sha (rb_key b) c, comment_revision sha c = revision), w1)))
      else (Inl (new_err ''correction predecessor has an unsupported remote revision''), w))"

definition rest_effective ::
  "json_reader \<Rightarrow> (string \<Rightarrow> string) \<Rightarrow> 'n rest \<Rightarrow> remote_binding \<Rightarrow> ('n, 'a) rstate_scheme
     \<Rightarrow> effective_remote res \<times> ('n, 'a) rstate_scheme"
where
  "rest_effective rv sha p b w =
     (if has_prefix ''comment:'' (rb_revision b) then
        (case revision_id (rb_revision b) ''comment'' of
           Inl e \<Rightarrow> (Inl e, w)
         | Inr n \<Rightarrow>
        (case rest_get_comment rv p n w of
           (Inl e, w1) \<Rightarrow> (Inl e, w1)
         | (Inr c, w1) \<Rightarrow>
        (case parse_correction sha (co_body c) (rb_key b) of
           None \<Rightarrow> (Inr (effective_comment sha (rb_key b) c), w1)
         | Some m \<Rightarrow>
        (case rest_predecessor rv sha p b (cm_predecessor m) w1 of
           (Inl e, w2) \<Rightarrow> (Inl e, w2)
         | (Inr (before, matches), w2) \<Rightarrow>
             (Inr (if matches then effective_comment sha (rb_key b) c else before), w2)))))
      else
        (case rest_get_issue rv p (rb_remote_id b) w of
           (Inl e, w1) \<Rightarrow> (Inl e, w1)
         | (Inr i, w1) \<Rightarrow> (Inr (effective_issue sha (rb_key b) i), w1)))"

text \<open>
  The provider as the operations of the shared semantics. A scan that never ends has no result in the code;
  here it is the error \<open>endless_scan\<close>, and the theorems on scans are stated of \<^term>\<open>scan_pages\<close> itself.
\<close>

definition endless_scan :: err where
  "endless_scan = new_err ''the scan does not end''"

definition scanned :: "'w \<Rightarrow> ('x res \<times> 'w) option \<Rightarrow> 'x res \<times> 'w" where
  "scanned w r = (case r of Some x \<Rightarrow> x | None \<Rightarrow> (Inl endless_scan, w))"

definition rest_operations ::
  "json_reader \<Rightarrow> (string \<Rightarrow> string) \<Rightarrow> 'n rest \<Rightarrow> ('n, 'a) rstate_scheme issue_operations" where
  "rest_operations rv sha p =
     \<lparr>io_ensure_labels = ensure_labels rv p, io_create_issue = rest_create_issue rv sha p,
      io_close_issue = rest_close_issue rv p, io_get_issue = rest_get_issue rv p,
      io_effective = rest_effective rv sha p,
      io_find_correction = (\<lambda>n d pre w. scanned w (find_correction rv sha p n d pre w)),
      io_create_correction = rest_create_correction rv sha p,
      io_find_marked = (\<lambda>key w. scanned w (find_marked rv p key w)),
      io_failed = rest_failed\<rparr>"

definition rest_semantics ::
  "json_reader \<Rightarrow> (string \<Rightarrow> string) \<Rightarrow> 'n rest \<Rightarrow> ('n, 'a) rstate_scheme issue_semantics" where
  "rest_semantics rv sha p = \<lparr>se_provider = ''github-rest'', se_ops = rest_operations rv sha p\<rparr>"

lemma rest_semantics_sels [simp]:
  "se_provider (rest_semantics rv sha p) = ''github-rest''"
  "io_ensure_labels (se_ops (rest_semantics rv sha p)) = ensure_labels rv p"
  "io_create_issue (se_ops (rest_semantics rv sha p)) = rest_create_issue rv sha p"
  "io_close_issue (se_ops (rest_semantics rv sha p)) = rest_close_issue rv p"
  "io_get_issue (se_ops (rest_semantics rv sha p)) = rest_get_issue rv p"
  "io_effective (se_ops (rest_semantics rv sha p)) = rest_effective rv sha p"
  "io_failed (se_ops (rest_semantics rv sha p)) = rest_failed"
  by (simp_all add: rest_semantics_def rest_operations_def)

section \<open>The transport touches no local store\<close>

lemma with_net_bindings [simp]: "bindings (snd (with_net f w)) = bindings w"
  by (simp add: with_net_def split: prod.split)

lemma with_net_keeps: "with_net f w = (x, w') \<Longrightarrow> bindings w' = bindings w"
  using with_net_bindings [of f w] by simp

lemma time_now_keeps: "time_now w = (t, w') \<Longrightarrow> bindings (w' :: 'a store_scheme) = bindings w"
  by (auto simp: time_now_def)

lemma retry_delay_keeps: "retry_delay p h k w = (x, w') \<Longrightarrow> bindings w' = bindings w"
  unfolding retry_delay_def
  by (auto simp: Let_def split: prod.splits option.splits if_splits dest!: with_net_keeps time_now_keeps)

lemma rest_attempts_keeps: "rest_attempts rv p dec q out n w = (a, w') \<Longrightarrow> bindings w' = bindings w"
proof (induction n arbitrary: w a w')
  case 0
  then show ?case
    by (subst (asm) rest_attempts.simps)
      (auto simp: Let_def split: prod.splits option.splits sum.splits if_splits dest!: with_net_keeps)
next
  case (Suc n)
  from Suc.prems show ?case
    by (subst (asm) rest_attempts.simps)
      (auto simp: Let_def split: prod.splits option.splits sum.splits if_splits
        dest!: with_net_keeps retry_delay_keeps Suc.IH)
qed

lemma rest_request_keeps: "rest_request rv p dec m path pay out w = (a, w') \<Longrightarrow> bindings w' = bindings w"
  unfolding rest_request_def by (rule rest_attempts_keeps)

lemma rest_request_bindings [simp]: "bindings (snd (rest_request rv p dec m path pay out w)) = bindings w"
  by (rule rest_request_keeps) (rule prod.collapse [symmetric])

lemma answered_bindings [simp]: "bindings (snd (answered aw)) = bindings (snd aw)"
  by (simp add: answered_def)

lemma or_missing_bindings [simp]: "bindings (snd (or_missing m aw)) = bindings (snd aw)"
  by (simp add: or_missing_def)

lemma ensure_label_keeps: "ensure_label rv p l w = (e, w') \<Longrightarrow> bindings w' = bindings w"
  unfolding ensure_label_def fetch_label_def
  by (auto simp: Let_def split: prod.splits option.splits sum.splits if_splits dest!: rest_request_keeps)

lemma ensure_labels_keeps: "ensure_labels_from rv p ls w = (e, w') \<Longrightarrow> bindings w' = bindings w"
  by (induction ls arbitrary: w) (auto split: prod.splits option.splits dest!: ensure_label_keeps)

lemma create_issue_keeps: "bindings (snd (rest_create_issue rv sha p d w)) = bindings w"
  by (simp add: rest_create_issue_def time_now_def)

lemma get_issue_bindings [simp]: "bindings (snd (rest_get_issue rv p n w)) = bindings w"
  by (simp add: rest_get_issue_def)

lemma get_comment_bindings [simp]: "bindings (snd (rest_get_comment rv p n w)) = bindings w"
  by (simp add: rest_get_comment_def)

lemma get_issue_keeps: "rest_get_issue rv p n w = (r, w') \<Longrightarrow> bindings w' = bindings w"
  using get_issue_bindings [of rv p n w] by simp

lemma get_comment_keeps: "rest_get_comment rv p n w = (r, w') \<Longrightarrow> bindings w' = bindings w"
  using get_comment_bindings [of rv p n w] by simp

lemma effective_remote_keeps: "rest_effective rv sha p b w = (r, w') \<Longrightarrow> bindings w' = bindings w"
  unfolding rest_effective_def rest_predecessor_def
  by (auto split: prod.splits sum.splits option.splits if_splits dest!: get_issue_keeps get_comment_keeps)

text \<open>What a scan that ends has done: the element it gives passes the test.\<close>

lemma scan_pages_result:
  assumes "scan_pages rv p dec good page w = Some y"
  shows "bindings (snd y) = bindings w \<and> (\<forall>x. fst y = Inr x \<longrightarrow> good x)"
proof (rule scan_pages.raw_induct [OF _ assms, where P = "\<lambda>rv p dec good page w y.
    bindings (snd y) = bindings w \<and> (\<forall>x. fst y = Inr x \<longrightarrow> good x)"])
  fix scan rv p dec good page w y
  assume IH: "\<And>rv p dec good page w y. scan rv p dec good page w = Some y \<Longrightarrow>
      bindings (snd y) = bindings w \<and> (\<forall>x. fst y = Inr x \<longrightarrow> good x)"
    and step: "(if page = [] then Some (Inl issue_not_found, w)
      else let aw = rest_request rv p dec method_get page None [] (w\<lparr>last_next := []\<rparr>)
           in case an_error (fst aw) of
                Some e \<Rightarrow> Some (Inl e, snd aw)
              | None \<Rightarrow> (case find good (an_value (fst aw)) of
                  Some x \<Rightarrow> Some (Inr x, snd aw)
                | None \<Rightarrow> scan rv p dec good (last_next (snd aw)) (snd aw))) = Some y"
  let ?aw = "rest_request rv p dec method_get page None [] (w\<lparr>last_next := []\<rparr>)"
  have b: "bindings (snd ?aw) = bindings w" by simp
  from step show "bindings (snd y) = bindings w \<and> (\<forall>x. fst y = Inr x \<longrightarrow> good x)"
    by (auto simp: Let_def b find_Some_iff split: if_splits option.splits dest!: IH)
qed

lemma scanned_bindings [simp]:
  "bindings (snd (scanned w (scan_pages rv p dec good page w))) = bindings w"
  by (auto simp: scanned_def split: option.split dest: scan_pages_result)

interpretation rest_transport: issue_transport "rest_semantics rv sha p" for rv sha p
proof unfold_locales
  fix le r e d n k b and w w' :: "('a, 'b) rstate_scheme" and ie :: "issue res" and fe :: "effective_remote res"
    and ce :: "issue_comment res"
  let ?ops = "se_ops (rest_semantics rv sha p)"
  show "io_ensure_labels ?ops w = (le, w') \<Longrightarrow> bindings w' = bindings w"
    by (auto simp: rest_semantics_def rest_operations_def ensure_labels_def dest: ensure_labels_keeps)
  show "io_create_issue ?ops d w = (ie, w') \<Longrightarrow> bindings w' = bindings w"
    using create_issue_keeps [of rv sha p d w] by (simp add: rest_semantics_def rest_operations_def)
  show "io_close_issue ?ops n w = (ie, w') \<Longrightarrow> bindings w' = bindings w"
    by (drule arg_cong [of _ _ "\<lambda>x. bindings (snd x)"]) (simp add: rest_semantics_def rest_operations_def rest_close_issue_def)
  show "io_get_issue ?ops k w = (ie, w') \<Longrightarrow> bindings w' = bindings w"
    by (simp add: rest_semantics_def rest_operations_def get_issue_keeps)
  show "io_effective ?ops b w = (fe, w') \<Longrightarrow> bindings w' = bindings w"
    by (simp add: rest_semantics_def rest_operations_def effective_remote_keeps)
  show "io_find_correction ?ops n d k w = (ce, w') \<Longrightarrow> bindings w' = bindings w"
    by (drule arg_cong [of _ _ "\<lambda>x. bindings (snd x)"]) (simp add: rest_semantics_def rest_operations_def find_correction_def)
  show "io_create_correction ?ops n d k w = (ce, w') \<Longrightarrow> bindings w' = bindings w"
    by (drule arg_cong [of _ _ "\<lambda>x. bindings (snd x)"]) (simp add: rest_semantics_def rest_operations_def rest_create_correction_def)
  show "io_find_marked ?ops k w = (ie, w') \<Longrightarrow> bindings w' = bindings w"
    by (drule arg_cong [of _ _ "\<lambda>x. bindings (snd x)"]) (simp add: rest_semantics_def rest_operations_def find_marked_def)
  show "sr_state (io_failed ?ops r e) \<noteq> Mirrored" "sr_key (io_failed ?ops r e) = sr_key r"
    by (simp_all add: rest_semantics_def rest_operations_def rest_failed_def split: option.split)
qed

section \<open>Attempts\<close>

text \<open>How far one request can move a quantity of the network that a send raises by at most one.\<close>

lemma with_net_count: "with_net f w = (x, w') \<Longrightarrow> (\<And>n. count (snd (f n)) \<le> count n + k) \<Longrightarrow>
    (count (net w') :: nat) \<le> count (net w) + k"
  by (auto simp: with_net_def split: prod.splits) (metis snd_conv)

lemma retry_delay_count:
  assumes "retry_delay p h k w = (x, w')" "\<And>m n. count (snd (re_jitter p m n)) \<le> (count n :: nat)"
  shows "count (net w') \<le> count (net w)"
  using assms(1) with_net_count [of "re_jitter p (100000000 * 2 ^ k div 2)" w _ _ count 0] assms(2)
  unfolding retry_delay_def
  by (auto simp: Let_def time_now_def split: prod.splits option.splits if_splits)

lemma rest_attempts_count:
  assumes "rest_attempts rv p dec q out k w = (a, w')"
    and "\<And>q n. count (snd (re_send p q n)) \<le> Suc (count n)"
    and "\<And>m n. count (snd (re_sleep p m n)) \<le> (count n :: nat)"
    and "\<And>m n. count (snd (re_jitter p m n)) \<le> count n"
  shows "count (net w') \<le> count (net w) + Suc k"
  using assms(1)
proof (induction k arbitrary: w a w')
  case 0
  have "with_net (re_send p q) w = (x, w1) \<Longrightarrow> count (net w1) \<le> count (net w) + 1" for x w1
    by (rule with_net_count [where f = "re_send p q"]) (use assms(2) in auto)
  with 0 show ?case
    by (subst (asm) rest_attempts.simps)
      (auto simp: Let_def split: prod.splits option.splits sum.splits if_splits)
next
  case (Suc k)
  obtain x w1 where 1: "with_net (re_send p q) w = (x, w1)" by (cases "with_net (re_send p q) w")
  have s1: "count (net w1) \<le> count (net w) + 1" by (rule with_net_count [OF 1]) (use assms(2) in auto)
  have later: "count (net w') \<le> count (net w1) + Suc k"
    if "retry_delay p h j w1 = (dl, w2)" "with_net (re_sleep p dl) w2 = (y, w3)"
      "w' = w3 \<or> rest_attempts rv p dec q out k w3 = (a, w')" for h j dl w2 y w3
  proof -
    have "count (net w2) \<le> count (net w1)" using retry_delay_count [OF that(1)] assms by simp
    moreover have "count (net w3) \<le> count (net w2) + 0" by (rule with_net_count [OF that(2)]) (simp add: assms)
    ultimately show ?thesis using that(3) Suc.IH [of w3 a w'] by fastforce
  qed
  from Suc.prems have "w' = w \<or> w' = w1 \<or> count (net w') \<le> count (net w1) + Suc k
      \<or> (\<exists>s. w' = w1\<lparr>last_next := s\<rparr>)"
    by (subst (asm) rest_attempts.simps)
      (auto simp: 1 Let_def split: prod.splits option.splits sum.splits if_splits dest: later)
  with s1 show ?case by auto
qed

end
