(* ===== verification/Issue_Facts.thy ===== *)
theory Issue_Facts
  imports Issue_Rest
begin

text \<open>
  Properties of the Issues mirror: the correction marker is read back, an Issue is bound before it is closed, no
  body is ever overwritten, a resolution answers the revision the caller saw, a request is sent three times at
  most, and the scan for a marked Issue ends.
\<close>

section \<open>Markers\<close>

lemma last_index_of_append: "last_index_of p s = Some i \<Longrightarrow> last_index_of p (u @ s) = Some (length u + i)"
  by (induction u) simp_all

lemma last_index_of_None: "p \<noteq> [] \<Longrightarrow> (\<And>u v. s \<noteq> u @ p @ v) \<Longrightarrow> last_index_of p s = None"
proof (induction s)
  case (Cons c cs)
  have "cs \<noteq> u @ p @ v" for u v using Cons.prems(2) [of "c # u" v] by auto
  moreover have "\<not> has_prefix p (c # cs)" using Cons.prems(2) [of "[]"] has_prefix_take by fastforce
  ultimately show ?case using Cons.IH Cons.prems(1) by simp
qed simp

lemma index_of_leading: "c \<notin> set u \<Longrightarrow> index_of (c # p) (u @ c # p @ v) = Some (length u)"
proof (induction u)
  case Nil
  have "has_prefix (c # p) ((c # p) @ v)" by (rule has_prefix_append)
  then show ?case by simp
qed auto

lemma no_second_block:
  assumes "newline \<notin> set x" "x \<noteq> []"
  shows "newline # x @ [newline] \<noteq> u @ (newline # newline # q) @ v"
proof
  assume eq: "newline # x @ [newline] = u @ (newline # newline # q) @ v"
  show False
  proof (cases u)
    case Nil
    with eq assms show False by (cases x) auto
  next
    case (Cons c u')
    have "count_list (newline # x @ [newline]) newline = 2"
      using assms(1) by (simp add: count_list_0_iff)
    moreover have "count_list (u @ (newline # newline # q) @ v) newline \<ge> 3"
      using eq Cons by simp
    ultimately show False using eq by simp
  qed
qed

lemma sha256_plain: "is_sha256 h \<Longrightarrow> newline \<notin> set h \<and> CHR '';'' \<notin> set h"
  by (auto simp: is_sha256_def is_hex_def is_hex_char_def is_digit_def newline_def byte_def list_all_iff)

lemma strip_diary_iff: "strip_diary_marker body key = Some c \<longleftrightarrow> body = diary_body c key"
  by (auto simp: strip_diary_marker_def diary_body_def Let_def dest!: has_suffixD)

text \<open>C36: a correction comment is read back as it was written: for a key and a content
  hash that are SHA-256 digests and a predecessor without a newline, the marker of \<open>correctionBody\<close> gives
  back the content, its hash and the predecessor, whatever the content holds, even other markers.\<close>

theorem correction_marker_round_trip:
  assumes "is_sha256 key" "is_sha256 (content_hash sha content)" "predecessor \<noteq> []" "newline \<notin> set predecessor"
  shows "parse_correction sha (correction_body sha content key predecessor) key
     = Some \<lparr>cm_content = content, cm_local_hash = content_hash sha content, cm_predecessor = predecessor\<rparr>"
proof -
  let ?h = "content_hash sha content" and ?p = "correction_prefix key"
  let ?q = "''<!-- syntroph-remote-correction:key='' @ key @ '';local=''"
  let ?meta = "?h @ '';predecessor='' @ predecessor"
  have p: "?p = newline # newline # ?q" by (simp add: correction_prefix_def)
  have "newline # (?q @ ?meta @ '' -->'') @ [newline] \<noteq> u @ ?p @ v" for u v
    unfolding p by (rule no_second_block)
      (use assms sha256_plain [OF assms(1)] sha256_plain [OF assms(2)] in \<open>simp_all add: newline_def\<close>)
  then have "last_index_of ?p (newline # (?q @ ?meta @ '' -->'') @ [newline]) = None"
    by (intro last_index_of_None) (simp_all add: p)
  then have "last_index_of ?p (?p @ ?meta @ marker_close) = Some 0"
    using has_prefix_append [of ?p "?meta @ marker_close"] by (simp add: p marker_close_def)
  from last_index_of_append [OF this, of content]
  have i: "last_index_of ?p (correction_body sha content key predecessor) = Some (length content)"
    by (simp add: correction_body_def)
  have s: "has_suffix marker_close (correction_body sha content key predecessor)"
    using has_suffix_append [of marker_close "content @ ?p @ ?meta"] by (simp add: correction_body_def)
  have t: "trim_suffix marker_close (drop (length content + length ?p) (correction_body sha content key predecessor)) = ?meta"
    using trim_suffix_append [of marker_close ?meta] by (simp add: correction_body_def)
  have "index_of '';predecessor='' ?meta = Some (length ?h)"
    using index_of_leading [of "CHR '';''" ?h "''predecessor=''" predecessor] sha256_plain [OF assms(2)] by simp
  then have c: "cut_str ?meta '';predecessor='' = Some (?h, predecessor)"
    by (simp add: cut_str_def)
  have k: "take (length content) (correction_body sha content key predecessor) = content"
    by (simp add: correction_body_def)
  show ?thesis unfolding parse_correction_def
    by (simp only: i s t c k option.case prod.case not_True_eq_False if_False) (simp add: assms(3))
qed

theorem correction_marker_round_trip_witness:
  "parse_correction sample_sha (correction_body sample_sha ''text'' sample_key ''issue:7:t:h'') sample_key
     = Some \<lparr>cm_content = ''text'', cm_local_hash = sample_key, cm_predecessor = ''issue:7:t:h''\<rparr>"
  using correction_marker_round_trip [of sample_key sample_sha "''text''" "''issue:7:t:h''"]
  by (simp add: content_hash_def sample_sha_def newline_def)

section \<open>Requests\<close>

text \<open>C38: one call of \<open>request\<close> sends at most three requests, whatever the server
  answers: no quantity of the network that a send raises by at most one, and that sleeping and the jitter
  do not raise, grows by more than three.\<close>

theorem request_attempts_bounded:
  assumes "\<And>q n. count (snd (re_send p q n)) \<le> Suc (count n)"
    and "\<And>t n. count (snd (re_sleep p t n)) \<le> count n"
    and "\<And>t n. count (snd (re_jitter p t n)) \<le> count n"
  shows "count (net (snd (rest_request rv p dec method path payload out w))) \<le> count (net w) + 3"
proof -
  obtain a w' where r: "rest_request rv p dec method path payload out w = (a, w')"
    by (cases "rest_request rv p dec method path payload out w")
  have "count (net w') \<le> count (net w) + Suc 2"
    by (rule rest_attempts_count [OF r [unfolded rest_request_def]]) (rule assms)+
  with r show ?thesis by simp
qed

text \<open>A server that takes every request, counts it and answers with the gateway error 502.\<close>

definition bad_gateway :: "nat rest" where
  "bad_gateway = \<lparr>re_repository = ''o/n'', re_token = ''t'', re_base_url = ''https://api'', re_user_agent = ''a'',
     re_send = (\<lambda>q n. (Inr \<lparr>hs_status = 502, hs_headers = [], hs_body = [], hs_read_error = None\<rparr>, Suc n)),
     re_sleep = (\<lambda>t n. (None, n)), re_jitter = (\<lambda>t n. (0, n)), re_check_url = (\<lambda>u. None),
     re_http_time = (\<lambda>s. None), re_parse_time = (\<lambda>s. None)\<rparr>"

definition empty_rstate :: "'n \<Rightarrow> 'n rstate" where
  "empty_rstate n = \<lparr>faults = [], clock = (\<lambda>n. 1 + int n), reads = 0, entries = [], bindings = [], conflicts = [],
     locks = [], lock_sequence = 0, last_next = [], net = n\<rparr>"

theorem request_attempts_bounded_witness:
  "net (snd (rest_request (\<lambda>s. None) bad_gateway (\<lambda>j d. Some d) method_post ''/x'' None () (empty_rstate (0 :: nat)))) \<le> 3"
  using request_attempts_bounded [of "\<lambda>n. n" bad_gateway "\<lambda>s. None" "\<lambda>j d. Some d" method_post "''/x''" None "()"
      "empty_rstate 0"]
  by (simp add: bad_gateway_def empty_rstate_def)

lemma retry_delay_plain:
  assumes "\<And>t n. snd (re_jitter p t n) = n"
  shows "\<exists>t. retry_delay p [] k w = (t, w)"
proof -
  let ?m = "100000000 * 2 ^ k div 2 :: int"
  have "with_net (re_jitter p ?m) w = (fst (re_jitter p ?m (net w)), w)"
    using assms [of ?m "net w"] by (cases "re_jitter p ?m (net w)") (auto simp: with_net_def)
  then show ?thesis by (simp add: retry_delay_def header_get_def)
qed

lemma classify_502 [simp]: "classify 502 [] [] = (FailureTransient, True)"
  by (simp add: classify_def Let_def)

text \<open>Creating an Issue is sent again after a gateway error: against a server that
  carries each request out and whose gateway then answers 502, one \<open>createIssue\<close> carries out the same POST
  three times, and reports a transient failure, to be tried again.\<close>

theorem gateway_error_repeats_creation:
  assumes "\<And>u. re_check_url p u = None" "\<And>t n. re_sleep p t n = (None, n)" "\<And>t n. snd (re_jitter p t n) = n"
    and "\<And>q n. re_send p q n
      = (Inr \<lparr>hs_status = 502, hs_headers = [], hs_body = [], hs_read_error = None\<rparr>, effect q n)"
  shows "\<exists>q e w'. rest_create_issue rv sha p d w = (Inl e, w') \<and> errors_is e ErrUnavailable
     \<and> hq_method q = ''POST'' \<and> hq_url q = re_base_url p @ ''/repos/'' @ re_repository p @ ''/issues''
     \<and> net w' = effect q (effect q (effect q (net w)))"
proof -
  have again: "\<exists>w2. rest_attempts rv p dec q out (Suc k) w = rest_attempts rv p dec q out k w2
      \<and> net w2 = effect q (net w)" if "hq_method q = ''POST''"
    for dec :: "json \<Rightarrow> 'x \<Rightarrow> 'x option" and q out k and w :: "('a, 'b) rstate_scheme"
  proof -
    obtain t where t: "retry_delay p [] (2 - Suc k) (w\<lparr>net := effect q (net w)\<rparr>) = (t, w\<lparr>net := effect q (net w)\<rparr>)"
      using retry_delay_plain [OF assms(3)] by blast
    show ?thesis
      by (rule exI [of _ "w\<lparr>net := effect q (net w)\<rparr>"], subst rest_attempts.simps)
        (use t in \<open>simp add: assms(1,2,4) with_net_def Let_def max_response_def\<close>)
  qed
  have stop: "\<exists>e a. rest_attempts rv p dec q out 0 w = (a, w\<lparr>net := effect q (net w)\<rparr>) \<and> an_error a = Some e
      \<and> errors_is e ErrUnavailable" if "hq_method q = ''POST''"
    for dec :: "json \<Rightarrow> 'x \<Rightarrow> 'x option" and q out and w :: "('a, 'b) rstate_scheme"
    by (subst rest_attempts.simps)
      (simp add: assms(1,4) with_net_def Let_def max_response_def provider_error_def FailureTransient_def
        FailurePrerequisite_def FailureConflict_def)
  have all: "\<exists>e a w'. rest_attempts rv p dec q out 2 w = (a, w') \<and> an_error a = Some e
      \<and> errors_is e ErrUnavailable \<and> net w' = effect q (effect q (effect q (net w)))" if m: "hq_method q = ''POST''"
    for dec :: "json \<Rightarrow> 'x \<Rightarrow> 'x option" and q out and w :: "('a, 'b) rstate_scheme"
  proof -
    obtain w1 where 1: "rest_attempts rv p dec q out 2 w = rest_attempts rv p dec q out 1 w1" "net w1 = effect q (net w)"
      using again [OF m, of dec out 1 w] by (auto simp: numeral_2_eq_2)
    obtain w2 where 2: "rest_attempts rv p dec q out 1 w1 = rest_attempts rv p dec q out 0 w2" "net w2 = effect q (net w1)"
      using again [OF m, of dec out 0 w1] by auto
    from stop [OF m, of dec out w2] 1 2 show ?thesis by auto
  qed
  obtain date w0 where c: "(if diary_date (re_parse_time p) (rd_content d) \<noteq> [] then (diary_date (re_parse_time p) (rd_content d), w)
            else (case time_now w of (t, w0) \<Rightarrow> (date_text t, w0))) = (date, w0)" and n: "net w0 = net w"
  proof (cases "diary_date (re_parse_time p) (rd_content d) = []")
    case True
    then show thesis using that [of "date_text (clock w (reads w))" "w\<lparr>reads := Suc (reads w)\<rparr>"]
      by (simp add: time_now_def)
  next
    case False
    then show thesis using that [of "diary_date (re_parse_time p) (rd_content d)" w] by simp
  qed
  define q where "q b = \<lparr>hq_method = method_post, hq_url = re_base_url p @ repo_path p ''issues'',
      hq_headers = rest_headers p b, hq_body = b\<rparr>" for b
  have q: "hq_method (q b) = ''POST''" "hq_url (q b) = re_base_url p @ ''/repos/'' @ re_repository p @ ''/issues''" for b
    by (simp_all add: q_def method_post_def repo_path_def)
  have "\<not> has_prefix ''http://'' (repo_path p ''issues'')" "\<not> has_prefix ''https://'' (repo_path p ''issues'')"
    by (simp_all add: repo_path_def)
  then have "\<exists>b. rest_create_issue rv sha p d w
      = answered (rest_attempts rv p (into dec_issue) (q b) zero_issue 2 w0)"
    unfolding rest_create_issue_def c by (auto simp: rest_request_def q_def)
  then obtain b where b: "rest_create_issue rv sha p d w
      = answered (rest_attempts rv p (into dec_issue) (q b) zero_issue 2 w0)" by blast
  from all [OF q(1), of "into dec_issue" b zero_issue w0] q b n show ?thesis
    by (fastforce simp: answered_def)
qed

theorem gateway_error_repeats_creation_witness:
  "\<exists>e w'. rest_create_issue (\<lambda>s. None) sample_sha bad_gateway sample_remote_diary (empty_rstate (0 :: nat)) = (Inl e, w')
     \<and> errors_is e ErrUnavailable \<and> net w' = 3"
  using gateway_error_repeats_creation [of bad_gateway "\<lambda>q. Suc" "\<lambda>s. None" sample_sha sample_remote_diary "empty_rstate 0"]
  by (auto simp: bad_gateway_def empty_rstate_def)

section \<open>Scans\<close>

lemma scan_pages_ends:
  fixes w :: "('n, 'a) rstate_scheme"
  assumes rank: "\<And>page (w :: ('n, 'a) rstate_scheme) a w'. rest_request rv p dec method_get page None [] w = (a, w') \<Longrightarrow> last_next w = [] \<Longrightarrow>
      an_error a = None \<Longrightarrow> last_next w' \<noteq> [] \<Longrightarrow> rank (last_next w') < (rank page :: nat)"
  shows "\<exists>y. scan_pages rv p dec good page w = Some y"
proof (induction "rank page" arbitrary: page w rule: less_induct)
  case less
  obtain a w' where r: "rest_request rv p dec method_get page None [] (w\<lparr>last_next := []\<rparr>) = (a, w')"
    by (cases "rest_request rv p dec method_get page None [] (w\<lparr>last_next := []\<rparr>)")
  show ?case
  proof (cases "page = [] \<or> an_error a \<noteq> None \<or> find good (an_value a) \<noteq> None")
    case True
    then show ?thesis by (subst scan_pages.simps) (auto simp: r Let_def split: option.split)
  next
    case go: False
    have "\<exists>y. scan_pages rv p dec good (last_next w') w' = Some y"
    proof (cases "last_next w' = []")
      case True
      then show ?thesis by (subst scan_pages.simps) simp
    next
      case False
      with rank [OF r] go show ?thesis by (intro less) simp
    qed
    with go r show ?thesis by (subst scan_pages.simps) (simp add: Let_def)
  qed
qed

text \<open>C37: if the link of every page leads to a page of a lower rank, the recovery scan ends, on the
  result, an error or \<open>errNotFound\<close>; and an Issue that it gives is closed, no pull request, and carries
  the marker of the key. Nothing else bounds the scan: the number of pages is the server's.\<close>

theorem marked_scan_ends:
  fixes w :: "('n, 'a) rstate_scheme"
  assumes ends: "\<And>page (w :: ('n, 'a) rstate_scheme) a w'. rest_request rv p (into_list zero_issue dec_issue) method_get page None [] w = (a, w') \<Longrightarrow>
      last_next w = [] \<Longrightarrow> an_error a = None \<Longrightarrow> last_next w' \<noteq> [] \<Longrightarrow> rank (last_next w') < (rank page :: nat)"
  shows "\<exists>r w'. find_marked rv p key w = Some (r, w') \<and> bindings w' = bindings w
     \<and> (\<forall>i. r = Inr i \<longrightarrow> iu_state i = ''closed'' \<and> has_diary_marker (iu_body i) key
          \<and> (iu_pull_request i = None \<or> iu_pull_request i = Some JNull))"
proof -
  have "\<exists>y. find_marked rv p key w = Some y"
    unfolding find_marked_def by (rule scan_pages_ends [where rank = rank]) (rule ends)
  then obtain y where y: "find_marked rv p key w = Some y" ..
  with scan_pages_result [OF y [unfolded find_marked_def]] show ?thesis
    by (cases y) (auto simp: marked_issue_def)
qed

text \<open>A server with two pages, the second one with a marked Issue.\<close>

definition second_page :: string where "second_page = ''/p2''"

definition two_pages :: "unit rest" where
  "two_pages = \<lparr>re_repository = ''o/n'', re_token = ''t'', re_base_url = ''b'', re_user_agent = ''a'',
     re_send = (\<lambda>q n. (Inr (if hq_url q = ''b/p2'' then \<lparr>hs_status = 200, hs_headers = [], hs_body = ''x'', hs_read_error = None\<rparr>
        else \<lparr>hs_status = 200, hs_headers = [(''Link'', ''<b/p2>; rel='' @ [CHR 0x22] @ ''next'' @ [CHR 0x22])],
              hs_body = [], hs_read_error = None\<rparr>), n)),
     re_sleep = (\<lambda>t n. (None, n)), re_jitter = (\<lambda>t n. (0, n)), re_check_url = (\<lambda>u. None),
     re_http_time = (\<lambda>s. None), re_parse_time = (\<lambda>s. None)\<rparr>"

definition one_marked :: json_reader where
  "one_marked s = Some (JArr [JObj [(''number'', JNum (NInt 7)), (''state'', JStr ''closed''),
     (''body'', JStr (diary_body ''text'' ''k''))]], [])"

lemma two_pages_links:
  "parse_next (header_get [(''Link'', ''<b/p2>; rel='' @ [CHR 0x22] @ ''next'' @ [CHR 0x22])] ''Link'') ''b'' = second_page"
  "parse_next (header_get [] ''Link'') ''b'' = []"
  by code_simp+

lemma two_pages_answer:
  assumes "rest_request one_marked two_pages dec method_get page None [] w = (a, w')" "an_error a = None"
    "last_next w' \<noteq> []"
  shows "last_next w' = second_page \<and> page \<noteq> second_page"
  using assms unfolding rest_request_def
  by (subst (asm) rest_attempts.simps)
    (auto simp: two_pages_def with_net_def Let_def max_response_def two_pages_links [simplified] second_page_def
      split: if_splits option.splits)

theorem marked_scan_ends_witness:
  "\<exists>r w'. find_marked one_marked two_pages ''k'' (empty_rstate ()) = Some (r, w') \<and> bindings w' = []
     \<and> (\<forall>i. r = Inr i \<longrightarrow> iu_state i = ''closed'')"
proof -
  have "\<exists>r w'. find_marked one_marked two_pages ''k'' (empty_rstate ()) = Some (r, w')
      \<and> bindings w' = bindings (empty_rstate ()) \<and> (\<forall>i. r = Inr i \<longrightarrow> iu_state i = ''closed''
          \<and> has_diary_marker (iu_body i) ''k'' \<and> (iu_pull_request i = None \<or> iu_pull_request i = Some JNull))"
    by (rule marked_scan_ends [where rank = "\<lambda>page. if page = second_page then 0 else 1"])
      (auto dest!: two_pages_answer)
  then show ?thesis by (auto simp: empty_rstate_def)
qed

section \<open>Mirroring\<close>


text \<open>C23: a bound Issue is never written over. If its body is not exactly the diary with its
  marker, \<open>Mirror\<close> is a conflict that carries the revision and the content seen, and sends nothing more; if it
  is, the only request left is the one that closes an Issue that is still open, and its outcome decides.\<close>

theorem issue_body_never_overwritten:
  fixes w :: "('n, 'a) rstate_scheme"
  assumes "validate_diary d = None" "load_binding (diary_key sha d) w = (Inr (Some b), w1)"
    "\<not> has_prefix ''comment:'' (rb_revision b)"
    "rest_get_issue rv p (rb_remote_id b) w1 = (Inr i, w2)" "iu_number i \<noteq> 0"
    "issue_mirror sha (rest_semantics rv sha p) recovery d w = (r, w')"
  shows "if iu_body i = diary_body (rd_content d) (diary_key sha d)
     then (if iu_state i = ''closed'' \<and> iu_state_reason i = ''completed'' then sr_state r = Mirrored \<and> w' = w2
           else w' = snd (rest_close_issue rv p (iu_number i) w2)
             \<and> (sr_state r = Mirrored \<longleftrightarrow> (\<exists>c. fst (rest_close_issue rv p (iu_number i) w2) = Inr c)))
     else sr_state r = SyncConflict \<and> w' = w2 \<and> sr_remote_rev r = issue_revision sha i
       \<and> sr_remote_id r = int_text (iu_number i)
       \<and> sr_remote_content r = er_content (effective_issue sha (diary_key sha d) i)"
proof -
  let ?s = "rest_semantics rv sha p :: ('n, 'a) rstate_scheme issue_semantics"
  let ?r = "issue_base sha ?s d"
  have fin: "finish_existing sha ?s ?r d i w2 = (r, w')"
    using assms by (simp add: issue_mirror_def Let_def)
  have same: "sr_state (compare_issue sha ?r (rd_content d) i) = Mirrored
      \<longleftrightarrow> iu_body i = diary_body (rd_content d) (diary_key sha d)"
    by (simp add: compare_issue_state strip_diary_iff)
  have failed: "sr_state (io_failed (se_ops ?s) r e) \<noteq> Mirrored" for r e by (rule rest_transport.failed_state)
  show ?thesis
  proof (cases "iu_body i = diary_body (rd_content d) (diary_key sha d)")
    case True
    with fin same show ?thesis
      by (auto simp: finish_existing_def Let_def observed_issue_def mirrored_issue_def failed [simplified]
          split: prod.splits sum.splits)
  next
    case False
    with same have "compare_issue sha ?r (rd_content d) i = r \<and> w' = w2"
      using fin by (simp add: finish_existing_def Let_def)
    moreover from False have "strip_diary_marker (iu_body i) (diary_key sha d) \<noteq> Some (rd_content d)"
      by (simp add: strip_diary_iff)
    ultimately show ?thesis using assms(5) False
      by (cases "strip_diary_marker (iu_body i) (diary_key sha d)")
        (auto simp: compare_issue_def issue_conflict_def effective_issue_def Let_def)
  qed
qed

text \<open>\<open>Resolve\<close> never changes a local binding, and after it has read the remote it sends
  nothing unless the choice is to keep the local diary, the revision the caller observed is not empty and still
  the current one, and the remote differs from the diary; an outdated revision is a conflict that carries the
  current one.\<close>

theorem issue_resolution_is_guarded:
  assumes "choice = KeepLocal \<or> choice = KeepRemote"
    "load_binding (diary_key sha d) w = (Inr (Some b), w1)" "rest_effective rv sha p b w1 = (Inr ef, w2)"
    "issue_resolve sha (rest_semantics rv sha p) d choice observed w = (r, w')"
  shows "bindings w' = bindings w
     \<and> (observed = [] \<or> observed \<noteq> er_revision ef \<longrightarrow>
          w' = w2 \<and> sr_state r = SyncConflict \<and> sr_remote_rev r = er_revision ef)
     \<and> (choice = KeepRemote \<or> er_exact ef \<and> er_content ef = rd_content d \<longrightarrow>
          w' = w2 \<and> (sr_state r = Mirrored \<longleftrightarrow> observed \<noteq> [] \<and> observed = er_revision ef))"
  using rest_transport.resolve_keeps [OF assms(4)] assms
  by (auto simp: issue_resolve_def issue_base_def Let_def
      KeepLocal_def KeepRemote_def failed_with_def split: if_splits)

section \<open>Witnesses\<close>

text \<open>A server that answers every request with the same closed Issue, whose body is not the diary's.\<close>

definition calm_json :: json where
  "calm_json = JObj [(''number'', JNum (NInt 7)), (''html_url'', JStr ''u''), (''body'', JStr ''b''),
     (''updated_at'', JTime 0), (''state'', JStr ''closed''), (''state_reason'', JStr ''completed'')]"

definition calm_reader :: json_reader where
  "calm_reader s = Some (calm_json, [])"

definition calm_server :: "nat rest" where
  "calm_server = bad_gateway\<lparr>re_send := (\<lambda>q n.
     (Inr \<lparr>hs_status = 200, hs_headers = [], hs_body = ''x'', hs_read_error = None\<rparr>, Suc n))\<rparr>"

definition calm_issue :: issue where
  "calm_issue = \<lparr>iu_number = 7, iu_url = ''u'', iu_body = ''b'', iu_updated_at = 0, iu_state = ''closed'',
     iu_state_reason = ''completed'', iu_pull_request = None\<rparr>"

definition bound_issue :: remote_binding where
  "bound_issue = \<lparr>rb_key = sample_key, rb_backend = BackendIssues, rb_provider = ''github-rest'', rb_remote_id = ''7'',
      rb_url = ''u'', rb_revision = issue_revision sample_sha calm_issue, rb_local_hash = sample_key,
      rb_effective_remote_hash = sample_key, rb_updated_at = 2\<rparr>"

definition bound_rstate :: "nat rstate" where
  "bound_rstate = (empty_rstate 0)\<lparr>bindings := [(sample_key, JsonFile (enc_binding bound_issue))]\<rparr>"

lemma calm_decodes:
  "into dec_issue calm_json zero_issue = Some calm_issue" "into dec_label calm_json zero_label = Some zero_label"
  by code_simp+

lemma calm_facts:
  "parse_next (header_get [] ''Link'') ''https://api'' = []"
  "\<not> equal_fold [] ''00e5ff''" "\<not> equal_fold [] ''a855f7''"
  "validate_binding bound_issue = None" "\<not> has_prefix ''comment:'' (rb_revision bound_issue)"
  "validate_diary sample_remote_diary = None" "diary_date (re_parse_time calm_server) (rd_content sample_remote_diary) = []"
  "int_text 7 = ''7''"
  by code_simp+

lemma calm_request:
  assumes "dec calm_json out = Some v"
  shows "rest_request calm_reader calm_server dec m path payload out w
    = (\<lparr>an_status = 200, an_body = ''x'', an_value = v, an_error = None\<rparr>, w\<lparr>net := Suc (net w), last_next := []\<rparr>)"
  unfolding rest_request_def
  by (subst rest_attempts.simps)
    (simp add: calm_server_def bad_gateway_def with_net_def Let_def max_response_def calm_reader_def assms calm_facts)

lemmas calm_requests = calm_request [of "into dec_issue" zero_issue, OF calm_decodes(1)]
  calm_request [of "into dec_label" zero_label, OF calm_decodes(2)]

lemma zero_label_sels [simp]: "la_color zero_label = []" "la_description zero_label = []"
  by (simp_all add: zero_label_def)

lemma calm_labels:
  "ensure_labels calm_reader calm_server w = (None, w\<lparr>net := net w + 4, last_next := []\<rparr>)"
proof -
  have l: "ensure_label calm_reader calm_server l w = (None, w\<lparr>net := net w + 2, last_next := []\<rparr>)"
    if "l \<in> set reserved_labels" for l and w :: "(nat, 'a) rstate_scheme"
    using that calm_facts(2,3)
    by (auto simp: ensure_label_def fetch_label_def calm_requests Let_def reserved_labels_def)
  show ?thesis
    using l unfolding ensure_labels_def by (simp add: reserved_labels_def)
qed

lemma calm_issue_requests:
  "rest_create_issue calm_reader sample_sha calm_server sample_remote_diary w
     = (Inr calm_issue, w\<lparr>reads := Suc (reads w), net := Suc (net w), last_next := []\<rparr>)"
  "rest_close_issue calm_reader calm_server n w = (Inr calm_issue, w\<lparr>net := Suc (net w), last_next := []\<rparr>)"
  "rest_get_issue calm_reader calm_server k w = (Inr calm_issue, w\<lparr>net := Suc (net w), last_next := []\<rparr>)"
  by (simp_all add: rest_create_issue_def rest_close_issue_def rest_get_issue_def or_missing_def answered_def
      calm_requests calm_facts time_now_def)

text \<open>The run that creates an Issue, and the reads that find it bound.\<close>

lemma empty_rstate_sels [simp]:
  "faults (empty_rstate n) = []" "clock (empty_rstate n) k = 1 + int k" "reads (empty_rstate n) = 0"
  "bindings (empty_rstate n) = []" "net (empty_rstate n) = n"
  by (simp_all add: empty_rstate_def)

lemma calm_load:
  "load_binding sample_key (empty_rstate n) = (Inr None, empty_rstate n)"
  "load_binding sample_key bound_rstate = (Inr (Some bound_issue), bound_rstate)"
  using calm_facts(4) by (simp_all add: load_binding_def bound_rstate_def bound_issue_def)

lemma calm_save:
  assumes "faults w = []" "clock w (reads w) = 2"
  shows "fst (save_result ''github-rest'' (observed_issue sample_sha (issue_base sample_sha
      (rest_semantics calm_reader sample_sha calm_server) sample_remote_diary) calm_issue t) w) = None"
  using assms calm_facts(4)
  by (simp add: save_result_def time_now_def save_binding_def atomic_write_def observed_issue_def
      issue_base_def bound_issue_def calm_facts content_hash_def sample_sha_def calm_issue_def)

lemma created_run:
  "sr_state (fst (issue_mirror sample_sha (rest_semantics calm_reader sample_sha calm_server) False
     sample_remote_diary (empty_rstate (0 :: nat)))) = Mirrored"
proof -
  let ?save = "save_result ''github-rest'' (observed_issue sample_sha (issue_base sample_sha
      (rest_semantics calm_reader sample_sha calm_server :: nat rstate issue_semantics) sample_remote_diary) calm_issue
      (rd_content sample_remote_diary)) ((empty_rstate (0 :: nat))\<lparr>reads := 1, net := 5, last_next := []\<rparr>)"
  have "fst ?save = None" by (rule calm_save) simp_all
  then obtain w' where "?save = (None, w')" by (cases ?save) simp
  then show ?thesis
    by (simp add: issue_mirror_def Let_def calm_facts calm_load create_and_close_def calm_labels calm_issue_requests
        mirrored_issue_def)
qed


lemma calm_effective:
  "rest_effective calm_reader sample_sha calm_server bound_issue w
     = (Inr (effective_issue sample_sha sample_key calm_issue), w\<lparr>net := Suc (net w), last_next := []\<rparr>)"
  using calm_facts(5) by (simp add: rest_effective_def calm_issue_requests) (simp add: bound_issue_def)

lemma calm_load_bound:
  "load_binding (diary_key sample_sha sample_remote_diary) bound_rstate = (Inr (Some bound_issue), bound_rstate)"
  by (simp add: calm_load)

theorem issue_body_never_overwritten_witness:
  "sr_state (fst (issue_mirror sample_sha (rest_semantics calm_reader sample_sha calm_server) False
     sample_remote_diary bound_rstate)) = SyncConflict"
proof -
  have n: "iu_number calm_issue \<noteq> 0" by (simp add: calm_issue_def)
  have "length (diary_body c k) \<noteq> length (iu_body calm_issue)" for c k
    by (simp add: diary_body_def calm_issue_def marker_prefix_def)
  then have "iu_body calm_issue \<noteq> diary_body c k" for c k by metis
  with issue_body_never_overwritten [OF calm_facts(6) calm_load_bound calm_facts(5) calm_issue_requests(3) n
      prod.collapse [symmetric], of False]
  show ?thesis by simp
qed

theorem issue_resolution_is_guarded_witness:
  "sr_state (fst (issue_resolve sample_sha (rest_semantics calm_reader sample_sha calm_server)
     sample_remote_diary KeepLocal ''stale'' bound_rstate)) = SyncConflict"
proof -
  have "er_revision (effective_issue sample_sha sample_key calm_issue) \<noteq> ''stale''"
    by (simp add: effective_issue_def issue_revision_def split: option.split)
  with issue_resolution_is_guarded [OF disjI1 [OF refl] calm_load_bound calm_effective prod.collapse [symmetric],
      of "''stale''"]
  show ?thesis by simp
qed

end
