(* ===== verification/Wiki_Provider.thy ===== *)
theory Wiki_Provider
  imports Provider_Contract Artifact_Path
begin

text \<open>
  \<open>adapters/githubwiki/wiki.go\<close>: the mirror in the Git repository of a wiki. The git executable, the temporary
  clone and its files are parameters that act on a state of their own, \<open>wnet\<close>; so are \<open>url.Parse\<close>
  (\<open>strip\<close>, \<open>userinfo\<close>), the hash and \<open>time.Parse\<close>. The steps of \<open>apply\<close> are one definition each: the clone,
  the decision on the page that was found, and the commit with its push.
\<close>

section \<open>Surroundings\<close>

record 'n git_world =
  gw_git :: "string \<Rightarrow> string list \<Rightarrow> 'n \<Rightarrow> ((string \<times> err) + string) \<times> 'n"
  gw_temp :: "'n \<Rightarrow> string res \<times> 'n"
  gw_remove :: "string \<Rightarrow> 'n \<Rightarrow> 'n"
  gw_read :: "string \<Rightarrow> 'n \<Rightarrow> string res \<times> 'n"
  gw_mkdir :: "string \<Rightarrow> 'n \<Rightarrow> err option \<times> 'n"
  gw_write :: "string \<Rightarrow> string \<Rightarrow> 'n \<Rightarrow> err option \<times> 'n"
  gw_parse_time :: "string \<Rightarrow> int option"

record 'n wiki =
  wk_repository :: string
  wk_repository_root :: string
  wk_remote_url :: string
  wk_web_url :: string
  wk_executable :: string
  wk_author_name :: string
  wk_author_email :: string
  wk_world :: "'n git_world"

record 'n wstate = store +
  wnet :: 'n
  wiki_ready :: "err option option"

definition with_wnet :: "('n \<Rightarrow> 'x \<times> 'n) \<Rightarrow> ('n, 'a) wstate_scheme \<Rightarrow> 'x \<times> ('n, 'a) wstate_scheme" where
  "with_wnet f w = (case f (wnet w) of (x, n) \<Rightarrow> (x, w\<lparr>wnet := n\<rparr>))"

definition wiki_provider_id :: string where "wiki_provider_id = ''github-wiki-git''"

text \<open>\<open>New\<close>; \<open>userinfo u\<close> is the scheme, the user and whether a password is given, when \<open>u\<close> has a userinfo.\<close>

definition trim_slashes :: "string \<Rightarrow> string" where
  "trim_slashes s = rev (dropWhile (\<lambda>c. c = CHR ''/'') (rev s))"

definition new_wiki :: "(string \<Rightarrow> (string \<times> string \<times> bool) option) \<Rightarrow> 'n wiki \<Rightarrow> 'n wiki res" where
  "new_wiki userinfo o1 =
     (let repository = trim_space (wk_repository o1); remote = trim_space (wk_remote_url o1);
          web = trim_slashes (trim_space (wk_web_url o1)); exe = trim_space (wk_executable o1) in
      if repository = [] \<or> remote = []
      then Inl (new_err ''GitHub Wiki provider requires repository and remote URL'')
      else if (case userinfo remote of None \<Rightarrow> False
               | Some (scheme, user, password) \<Rightarrow> password \<or> \<not> equal_fold scheme ''ssh'' \<or> user \<noteq> ''git'')
      then Inl (new_err ''GitHub Wiki remote URL must not contain userinfo or embedded credentials'')
      else if (trim_space (wk_author_name o1) = []) \<noteq> (trim_space (wk_author_email o1) = [])
      then Inl (new_err ''Wiki commit author requires both name and email'')
      else Inr (o1\<lparr>wk_repository := repository, wk_remote_url := remote,
                  wk_web_url := (if web = [] then ''https://github.com/'' @ repository @ ''/wiki'' else web),
                  wk_executable := (if exe = [] then ''git'' else exe)\<rparr>))"

section \<open>Git and its failures\<close>

definition git_error :: "(string \<Rightarrow> string option) \<Rightarrow> string list \<Rightarrow> string \<Rightarrow> err \<Rightarrow> err" where
  "git_error strip args output cause =
     (let shown = map (\<lambda>a. if contains_str a ''://'' then (case strip a of Some s \<Rightarrow> s | None \<Rightarrow> a) else a) args in
      GoErr (err_chain cause)
        (safe_diagnostic strip (''git '' @ join_with '' '' shown @ '': '' @ err_text cause @ '': '' @ trim_space output)))"

definition run_git ::
  "(string \<Rightarrow> string option) \<Rightarrow> 'n wiki \<Rightarrow> string list \<Rightarrow> ('n, 'a) wstate_scheme \<Rightarrow> string res \<times> ('n, 'a) wstate_scheme"
where
  "run_git strip p args w =
     (case with_wnet (gw_git (wk_world p) (wk_executable p) args) w of
        (Inl (output, cause), w1) \<Rightarrow> (Inl (git_error strip args output cause), w1)
      | (Inr output, w1) \<Rightarrow> (Inr output, w1))"

definition is_non_fast_forward :: "err \<Rightarrow> bool" where
  "is_non_fast_forward e =
     (let m = to_lower (err_text e) in
      contains_str m ''non-fast-forward'' \<or> contains_str m ''fetch first'' \<or> contains_str m ''[rejected]'')"

definition wiki_changed :: err where
  "wiki_changed = GoErr [ErrConflict] ''storage mirror conflict: remote Wiki changed after observed HEAD''"

definition git_failure :: "storage_result \<Rightarrow> err \<Rightarrow> bool \<Rightarrow> storage_result" where
  "git_failure base e cloning =
     (let m = to_lower (err_text e) in
      if is_non_fast_forward e then failed_with SyncConflict FailureConflict wiki_changed base
      else if cloning \<or> contains_str m ''authentication failed'' \<or> contains_str m ''permission denied''
        \<or> contains_str m ''repository not found'' \<or> contains_str m ''could not read username''
        \<or> contains_str m ''does not appear to be a git repository''
      then failed_with PrerequisiteMissing FailurePrerequisite (GoErr [ErrPrerequisiteMissing]
        (''storage prerequisite missing: enable the GitHub Wiki, create its first page, and verify Git credential-helper or SSH access: ''
           @ err_text e)) base
      else failed_with SyncPending FailureTransient e base)"

definition wiki_base :: "(string \<Rightarrow> string) \<Rightarrow> remote_diary \<Rightarrow> storage_result" where
  "wiki_base sha d = zero_result\<lparr>sr_backend := BackendWiki, sr_provider := wiki_provider_id,
     sr_key := diary_key sha d, sr_local_hash := content_hash sha (rd_content d)\<rparr>"

section \<open>The page of a diary\<close>

text \<open>
  The pattern \<open>(?m)^created_at:\s*([^\r\n]+)\s*$\<close>. After the field name the blanks are taken greedily, then the rest of
  the line; a match ends where blanks lead to an end of line. When that fails, the pattern can only capture blanks
  between the name and a later line, which is the empty text once trimmed.
\<close>

definition carriage :: char where "carriage = CHR 0x0D"

definition created_blank :: "char \<Rightarrow> bool" where
  "created_blank c = (c \<in> {CHR 0x09, newline, CHR 0x0C, carriage, CHR 0x20})"

definition in_line :: "char \<Rightarrow> bool" where
  "in_line c = (c \<noteq> newline \<and> c \<noteq> carriage)"

definition created_match :: "string \<Rightarrow> string option" where
  "created_match s =
     (let ws = takeWhile created_blank s; body = dropWhile created_blank s;
          after = dropWhile in_line body; blank = dropWhile (\<lambda>c. \<not> in_line c) ws in
      if body \<noteq> [] \<and> (dropWhile created_blank after = [] \<or> newline \<in> set (takeWhile created_blank after))
      then Some (takeWhile in_line body)
      else if blank \<noteq> [] \<and> (body = [] \<or> newline \<in> set blank) then Some []
      else None)"

fun find_created :: "bool \<Rightarrow> string \<Rightarrow> string option" where
  "find_created line_start [] = None"
| "find_created line_start (c # cs) =
     (case (if line_start \<and> has_prefix ''created_at:'' (c # cs)
            then created_match (trim_prefix ''created_at:'' (c # cs)) else None) of
        Some t \<Rightarrow> Some t
      | None \<Rightarrow> find_created (c = newline) cs)"

definition wiki_marker :: "string \<Rightarrow> string" where
  "wiki_marker key = ''syntroph_remote_binding: '' @ key"

definition wiki_path :: "remote_diary \<Rightarrow> int \<Rightarrow> string" where
  "wiki_path d t = path_text (clean (''Sessions/'' @ year_text t @ ''/'' @ month_text t @ ''/''
     @ rd_session_id d @ ''-'' @ take 12 (rd_artifact_hash d) @ ''.md''))"

definition wiki_page :: "(string \<Rightarrow> string) \<Rightarrow> (string \<Rightarrow> int option) \<Rightarrow> remote_diary \<Rightarrow> (string \<times> string) res" where
  "wiki_page sha parse_time d =
     (case find_created True (rd_content d) of
        None \<Rightarrow> Inl (new_err ''Session Diary frontmatter requires created_at'')
      | Some text_at \<Rightarrow>
     (case parse_time (trim_space text_at) of
        None \<Rightarrow> Inl (new_err ''parse Session Diary created_at: invalid time'')
      | Some t \<Rightarrow>
      if length (rd_artifact_hash d) < 12
      then Inl (new_err ''Session Diary artifact hash requires at least 12 characters'')
      else
     (let key = diary_key sha d; content = rd_content d in
      if \<not> contains_str content (''idempotency_key: '' @ key)
      then Inl (new_err ''Session Diary frontmatter idempotency key does not match diary'')
      else if contains_str content (wiki_marker key) then Inr (wiki_path d t, content)
      else (case index_of [newline] content of
              None \<Rightarrow> Inl (new_err ''Session Diary requires YAML frontmatter'')
            | Some i \<Rightarrow>
                if trim_space (take i content) \<noteq> ''---''
                then Inl (new_err ''Session Diary requires YAML frontmatter'')
                else Inr (wiki_path d t, take (i + 1) content @ wiki_marker key @ [newline] @ drop (i + 1) content)))))"

definition front_start :: string where "front_start = ''---'' @ [newline]"
definition front_end :: string where "front_end = [newline] @ ''---''"

definition has_exact_marker :: "string \<Rightarrow> string \<Rightarrow> bool" where
  "has_exact_marker content key =
     (let c = replace_all [carriage, newline] [newline] content in
      has_prefix front_start c \<and>
      (case index_of front_end (trim_prefix front_start c) of
         None \<Rightarrow> False
       | Some i \<Rightarrow>
           (let lines = map trim_space (split_on newline (take i (trim_prefix front_start c))) in
            ''idempotency_key: '' @ key \<in> set lines \<and> wiki_marker key \<in> set lines)))"

section \<open>Applying a mode to the page\<close>

definition mode_create :: string where "mode_create = ''create''"
definition mode_status :: string where "mode_status = ''status''"
definition mode_recover :: string where "mode_recover = ''recover''"

definition wiki_uninitialized :: "storage_result \<Rightarrow> storage_result" where
  "wiki_uninitialized base = failed_with PrerequisiteMissing FailurePrerequisite (GoErr [ErrPrerequisiteMissing]
     ''storage prerequisite missing: GitHub Wiki must be enabled and initialized with its first page'') base"

text \<open>From the clone to the head that was observed: the result that ends the run, or the branch and the head.\<close>

definition wiki_observe ::
  "(string \<Rightarrow> string option) \<Rightarrow> 'n wiki \<Rightarrow> storage_result \<Rightarrow> string \<Rightarrow> ('n, 'a) wstate_scheme
     \<Rightarrow> (storage_result + string \<times> string) \<times> ('n, 'a) wstate_scheme"
where
  "wiki_observe strip p base dir w =
     (case run_git strip p [''clone'', ''--quiet'', ''--no-tags'', wk_remote_url p, dir] w of
        (Inl e, w1) \<Rightarrow> (Inl (git_failure base e True), w1)
      | (Inr _, w1) \<Rightarrow>
     (case run_git strip p [''-C'', dir, ''symbolic-ref'', ''--short'', ''HEAD''] w1 of
        (Inl e, w2) \<Rightarrow> (Inl (wiki_uninitialized base), w2)
      | (Inr b, w2) \<Rightarrow>
      if trim_space b = [] then (Inl (wiki_uninitialized base), w2)
      else
     (case run_git strip p [''-C'', dir, ''fetch'', ''--quiet'', ''--no-tags'', ''origin''] w2 of
        (Inl e, w3) \<Rightarrow> (Inl (git_failure base e True), w3)
      | (Inr _, w3) \<Rightarrow>
     (case run_git strip p [''-C'', dir, ''rev-parse'', ''refs/remotes/origin/'' @ trim_space b] w3 of
        (Inl e, w4) \<Rightarrow> (Inl (wiki_uninitialized base), w4)
      | (Inr remote_head, w4) \<Rightarrow>
      if trim_space remote_head = [] then (Inl (wiki_uninitialized base), w4)
      else
     (case run_git strip p [''-C'', dir, ''reset'', ''--hard'', ''--quiet'', ''refs/remotes/origin/'' @ trim_space b] w4 of
        (Inl e, w5) \<Rightarrow> (Inl (git_failure base e False), w5)
      | (Inr _, w5) \<Rightarrow>
     (case run_git strip p [''-C'', dir, ''rev-parse'', ''HEAD''] w5 of
        (Inl e, w6) \<Rightarrow> (Inl (wiki_uninitialized base), w6)
      | (Inr head, w6) \<Rightarrow>
      if trim_space head = [] then (Inl (wiki_uninitialized base), w6)
      else if trim_space head \<noteq> trim_space remote_head
      then (Inl (failed_with SyncPending FailureTransient
              (new_err ''local Wiki checkout does not match observed remote HEAD'') base), w6)
      else (Inr (trim_space b, trim_space head), w6)))))))"

text \<open>What \<open>apply\<close> concludes from the page (\<^term>\<open>None\<close>: there is none): the final result, or the base of a write.\<close>

definition wiki_decide ::
  "(string \<Rightarrow> string) \<Rightarrow> string \<Rightarrow> string \<Rightarrow> string \<Rightarrow> string \<Rightarrow> storage_result \<Rightarrow> string option
     \<Rightarrow> storage_result + storage_result"
where
  "wiki_decide sha key mode observed expected base page =
     (let b = (case page of None \<Rightarrow> base
               | Some c \<Rightarrow> base\<lparr>sr_remote_content := c, sr_effective_remote_hash := content_hash sha c\<rparr>);
          conflict = failed_with SyncConflict FailureConflict ErrConflict_err b in
      if (case page of None \<Rightarrow> False | Some c \<Rightarrow> \<not> has_exact_marker c key)
         \<and> (mode = [] \<or> mode = mode_status \<or> mode = mode_recover)
      then Inl (failed_with SyncConflict FailureConflict (GoErr [ErrConflict]
             ''storage mirror conflict: deterministic Wiki path does not carry the expected Syntroph marker'')
             (b\<lparr>sr_unverified_identity := True\<rparr>))
      else if page \<noteq> None \<and> mode = mode_create
      then Inl (failed_with SyncPending FailureTransient
             (new_err ''Wiki page already exists without a local binding; run explicit storage recovery'')
             (b\<lparr>sr_unverified_identity := True\<rparr>))
      else if observed \<noteq> [] \<and> observed \<noteq> sr_remote_rev b then Inl conflict
      else if mode = KeepRemote
      then (if page = None then Inl conflict else Inl (b\<lparr>sr_state := Mirrored\<rparr>))
      else if page = Some expected then Inl (b\<lparr>sr_state := Mirrored\<rparr>)
      else if page \<noteq> None \<and> mode \<noteq> KeepLocal then Inl conflict
      else if mode = mode_status \<or> mode = KeepLocal \<and> page = None
      then Inl (failed_with SyncPending FailureTransient (new_err ''Wiki page not found'') b)
      else Inr b)"

definition author_err :: err where
  "author_err = GoErr [ErrPrerequisiteMissing]
     ''storage prerequisite missing: configure storage.wiki.commit_author or Git user.name and user.email''"

definition wiki_author ::
  "(string \<Rightarrow> string option) \<Rightarrow> 'n wiki \<Rightarrow> ('n, 'a) wstate_scheme \<Rightarrow> (string \<times> string) res \<times> ('n, 'a) wstate_scheme"
where
  "wiki_author strip p w =
     (let n = trim_space (wk_author_name p); m = trim_space (wk_author_email p) in
      if n \<noteq> [] \<and> m \<noteq> [] then (Inr (n, m), w)
      else if trim_space (wk_repository_root p) = [] then (Inl author_err, w)
      else
     (case run_git strip p [''-C'', wk_repository_root p, ''config'', ''--get'', ''user.name''] w of
        (nr, w1) \<Rightarrow>
     (case run_git strip p [''-C'', wk_repository_root p, ''config'', ''--get'', ''user.email''] w1 of
        (mr, w2) \<Rightarrow>
     (case (nr, mr) of
        (Inr n', Inr m') \<Rightarrow>
          if trim_space n' = [] \<or> trim_space m' = [] then (Inl author_err, w2)
          else (Inr (trim_space n', trim_space m'), w2)
      | _ \<Rightarrow> (Inl author_err, w2)))))"

text \<open>\<open>refreshConflict\<close>: what can still be read of the remote becomes the evidence.\<close>

definition refresh_conflict ::
  "(string \<Rightarrow> string option) \<Rightarrow> (string \<Rightarrow> string) \<Rightarrow> 'n wiki \<Rightarrow> storage_result \<Rightarrow> string \<Rightarrow> string \<Rightarrow> string
     \<Rightarrow> ('n, 'a) wstate_scheme \<Rightarrow> storage_result \<times> ('n, 'a) wstate_scheme"
where
  "refresh_conflict strip sha p base dir branch path w =
     (case run_git strip p [''-C'', dir, ''fetch'', ''--quiet'', ''--no-tags'', ''origin'', branch] w of
        (Inl e, w1) \<Rightarrow> (failed_with SyncConflict FailureConflict wiki_changed base, w1)
      | (Inr _, w1) \<Rightarrow>
     (case run_git strip p [''-C'', dir, ''rev-parse'', ''FETCH_HEAD''] w1 of
        (hr, w2) \<Rightarrow>
     (let b1 = (case hr of Inl e \<Rightarrow> base | Inr h \<Rightarrow> base\<lparr>sr_remote_rev := ''git:'' @ trim_space h\<rparr>) in
      case run_git strip p [''-C'', dir, ''show'', ''FETCH_HEAD:'' @ path] w2 of
        (cr, w3) \<Rightarrow>
     (let b2 = (case cr of Inl e \<Rightarrow> b1
                | Inr c \<Rightarrow> b1\<lparr>sr_remote_content := c, sr_effective_remote_hash := content_hash sha c,
                            sr_unverified_identity := \<not> has_exact_marker c (sr_key b1)\<rparr>) in
      (failed_with SyncConflict FailureConflict wiki_changed b2, w3)))))"

text \<open>The commit of the page and its push; \<open>target\<close> is the file in the clone.\<close>

definition wiki_publish ::
  "(string \<Rightarrow> string option) \<Rightarrow> (string \<Rightarrow> string) \<Rightarrow> 'n wiki \<Rightarrow> storage_result \<Rightarrow> string \<Rightarrow> string \<Rightarrow> string
     \<Rightarrow> clean_path \<Rightarrow> string \<Rightarrow> string \<Rightarrow> ('n, 'a) wstate_scheme \<Rightarrow> storage_result \<times> ('n, 'a) wstate_scheme"
where
  "wiki_publish strip sha p base dir branch path target expected session w =
     (let transient = (\<lambda>e. failed_with SyncPending FailureTransient e base) in
      case wiki_author strip p w of
        (Inl e, w1) \<Rightarrow> (failed_with PrerequisiteMissing FailurePrerequisite e base, w1)
      | (Inr (name, email), w1) \<Rightarrow>
     (case with_wnet (gw_mkdir (wk_world p) (path_text (target\<lparr>cp_parts := butlast (cp_parts target)\<rparr>))) w1 of
        (Some e, w2) \<Rightarrow> (transient e, w2)
      | (None, w2) \<Rightarrow>
     (case with_wnet (gw_write (wk_world p) (path_text target) expected) w2 of
        (Some e, w3) \<Rightarrow> (transient e, w3)
      | (None, w3) \<Rightarrow>
     (case run_git strip p [''-C'', dir, ''add'', ''--'', path] w3 of
        (Inl e, w4) \<Rightarrow> (git_failure base e False, w4)
      | (Inr _, w4) \<Rightarrow>
     (case run_git strip p [''-C'', dir, ''-c'', ''user.name='' @ name, ''-c'', ''user.email='' @ email, ''commit'',
              ''--quiet'', ''--no-gpg-sign'', ''-m'', ''syntroph: mirror session '' @ session] w4 of
        (Inl e, w5) \<Rightarrow> (git_failure base e False, w5)
      | (Inr _, w5) \<Rightarrow>
     (case run_git strip p [''-C'', dir, ''push'', ''--porcelain'', ''origin'', ''HEAD:refs/heads/'' @ branch] w5 of
        (Inl e, w6) \<Rightarrow>
          if is_non_fast_forward e then refresh_conflict strip sha p base dir branch path w6
          else (git_failure base e False, w6)
      | (Inr _, w6) \<Rightarrow>
     (case run_git strip p [''-C'', dir, ''rev-parse'', ''HEAD''] w6 of
        (Inl e, w7) \<Rightarrow> (git_failure base e False, w7)
      | (Inr h, w7) \<Rightarrow>
          (base\<lparr>sr_state := Mirrored, sr_remote_rev := ''git:'' @ trim_space h,
             sr_effective_remote_hash := content_hash sha expected, sr_remote_content := []\<rparr>, w7))))))))"

text \<open>The part of \<open>apply\<close> between the creation of the temporary directory and its deferred removal.\<close>

definition wiki_in_clone ::
  "(string \<Rightarrow> string option) \<Rightarrow> (string \<Rightarrow> string) \<Rightarrow> 'n wiki \<Rightarrow> storage_result \<Rightarrow> string \<Rightarrow> string \<Rightarrow> string
     \<Rightarrow> string \<Rightarrow> string \<Rightarrow> string \<Rightarrow> ('n, 'a) wstate_scheme \<Rightarrow> storage_result \<times> ('n, 'a) wstate_scheme"
where
  "wiki_in_clone strip sha p base0 mode observed path expected session dir w =
     (case wiki_observe strip p base0 dir w of
        (Inl r, w1) \<Rightarrow> (r, w1)
      | (Inr (branch, head), w1) \<Rightarrow>
     (let base = base0\<lparr>sr_remote_rev := ''git:'' @ head, sr_expected_rev := observed, sr_remote_id := path,
                       sr_remote_url := wk_web_url p @ ''/'' @ trim_suffix ''.md'' path\<rparr>;
          target = join_text dir path in
      case with_wnet (gw_read (wk_world p) (path_text target)) w1 of
        (page, w2) \<Rightarrow>
     (case (case page of Inr c \<Rightarrow> Inr (Some c) | Inl e \<Rightarrow> if errors_is e ErrNotExist then Inr None else Inl e) of
        Inl e \<Rightarrow> (failed_with SyncPending FailureTransient e base, w2)
      | Inr found \<Rightarrow>
     (case wiki_decide sha (sr_key base) mode observed expected base found of
        Inl r \<Rightarrow> (r, w2)
      | Inr b \<Rightarrow> wiki_publish strip sha p b dir branch path target expected session w2))))"

definition wiki_apply ::
  "(string \<Rightarrow> string option) \<Rightarrow> (string \<Rightarrow> string) \<Rightarrow> 'n wiki \<Rightarrow> remote_diary \<Rightarrow> string \<Rightarrow> string
     \<Rightarrow> ('n, 'a) wstate_scheme \<Rightarrow> storage_result \<times> ('n, 'a) wstate_scheme"
where
  "wiki_apply strip sha p d mode observed w =
     (let base = wiki_base sha d; transient = (\<lambda>e. failed_with SyncPending FailureTransient e base) in
      case validate_diary d of
        Some e \<Rightarrow> (transient e, w)
      | None \<Rightarrow>
     (case wiki_page sha (gw_parse_time (wk_world p)) d of
        Inl e \<Rightarrow> (transient e, w)
      | Inr (path, expected) \<Rightarrow>
     (case with_wnet (gw_temp (wk_world p)) w of
        (Inl e, w1) \<Rightarrow> (transient e, w1)
      | (Inr dir, w1) \<Rightarrow>
     (case wiki_in_clone strip sha p base mode observed path expected (rd_session_id d) dir w1 of
        (r, w2) \<Rightarrow> (r, w2\<lparr>wnet := gw_remove (wk_world p) dir (wnet w2)\<rparr>)))))"

section \<open>The provider\<close>

definition wiki_resolve ::
  "(string \<Rightarrow> string option) \<Rightarrow> (string \<Rightarrow> string) \<Rightarrow> 'n wiki \<Rightarrow> remote_diary \<Rightarrow> string \<Rightarrow> string
     \<Rightarrow> ('n, 'a) wstate_scheme \<Rightarrow> storage_result \<times> ('n, 'a) wstate_scheme"
where
  "wiki_resolve strip sha p d choice observed w =
     (if choice \<noteq> KeepLocal \<and> choice \<noteq> KeepRemote
      then (failed_with SyncConflict FailureConflict (new_err ''resolution must be keep-local or keep-remote'')
              (wiki_base sha d), w)
      else if observed = [] \<or> \<not> has_prefix ''git:'' observed
      then (failed_with SyncConflict FailureConflict ErrConflict_err (wiki_base sha d), w)
      else wiki_apply strip sha p d choice observed w)"

definition wiki_provider ::
  "(string \<Rightarrow> string option) \<Rightarrow> (string \<Rightarrow> string) \<Rightarrow> 'n wiki \<Rightarrow> ('n, 'a) wstate_scheme provider" where
  "wiki_provider strip sha p =
     \<lparr>pv_mirror = (\<lambda>d. wiki_apply strip sha p d mode_create []),
      pv_status = (\<lambda>d. wiki_apply strip sha p d mode_status []),
      pv_resolve = wiki_resolve strip sha p,
      pv_create = Some (\<lambda>d. wiki_apply strip sha p d mode_create []),
      pv_mirror_bound = Some (\<lambda>d. wiki_apply strip sha p d [] []),
      pv_recover = Some (\<lambda>d. wiki_apply strip sha p d mode_recover [])\<rparr>"

text \<open>\<open>ManagedProvider\<close>: the managed mirror is built at the first operation, once, and its error kept.\<close>

record 'n wiki_managed =
  wm_root :: string
  wm_remote :: "'n wiki"
  wm_locks :: lock_config

definition new_wiki_managed ::
  "(string \<Rightarrow> (string \<times> string \<times> bool) option) \<Rightarrow> string \<Rightarrow> lock_config \<Rightarrow> 'n wiki \<Rightarrow> 'n wiki_managed res" where
  "new_wiki_managed userinfo root cfg opts =
     (if trim_space root = [] then Inl (new_err ''Syntroph storage root is required'')
      else (case new_wiki userinfo opts of
              Inl e \<Rightarrow> Inl e
            | Inr p \<Rightarrow> Inr \<lparr>wm_root = root, wm_remote = p, wm_locks = cfg\<rparr>))"

definition wiki_initialize ::
  "(string \<Rightarrow> string option) \<Rightarrow> (string \<Rightarrow> string) \<Rightarrow> 'n wiki_managed \<Rightarrow> ('n, 'a) wstate_scheme \<Rightarrow> ('n, 'a) wstate_scheme"
where
  "wiki_initialize strip sha m w =
     (case wiki_ready w of
        Some r \<Rightarrow> w
      | None \<Rightarrow>
          (case new_managed_mirror (wm_root m) wiki_provider_id (wm_locks m)
                  (Some (wiki_provider strip sha (wm_remote m) :: ('n, 'a) wstate_scheme provider)) w of
             (Inl e, w1) \<Rightarrow> w1\<lparr>wiki_ready := Some (Some e)\<rparr>
           | (Inr _, w1) \<Rightarrow> w1\<lparr>wiki_ready := Some None\<rparr>))"

definition wiki_mirror_of ::
  "(string \<Rightarrow> string option) \<Rightarrow> (string \<Rightarrow> string) \<Rightarrow> 'n wiki_managed \<Rightarrow> ('n, 'a) wstate_scheme managed" where
  "wiki_mirror_of strip sha m = \<lparr>mm_remote = wiki_provider strip sha (wm_remote m), mm_provider = wiki_provider_id,
     mm_root = wm_root m, mm_locks = wm_locks m\<rparr>"

definition wiki_run ::
  "(string \<Rightarrow> string option) \<Rightarrow> (string \<Rightarrow> string) \<Rightarrow> 'n wiki_managed \<Rightarrow> remote_diary
     \<Rightarrow> (('n, 'a) wstate_scheme managed \<Rightarrow> ('n, 'a) wstate_scheme \<Rightarrow> storage_result \<times> ('n, 'a) wstate_scheme)
     \<Rightarrow> ('n, 'a) wstate_scheme \<Rightarrow> storage_result \<times> ('n, 'a) wstate_scheme"
where
  "wiki_run strip sha m d operation w =
     (let w1 = wiki_initialize strip sha m w in
      case wiki_ready w1 of
        Some (Some e) \<Rightarrow> (failed_with SyncPending FailureTransient e (wiki_base sha d), w1)
      | _ \<Rightarrow> operation (wiki_mirror_of strip sha m) w1)"

definition wiki_managed_provider ::
  "(string \<Rightarrow> string option) \<Rightarrow> (string \<Rightarrow> string) \<Rightarrow> 'n wiki_managed \<Rightarrow> ('n, 'a) wstate_scheme provider" where
  "wiki_managed_provider strip sha m =
     \<lparr>pv_mirror = (\<lambda>d. wiki_run strip sha m d (\<lambda>mm. managed_mirror sha mm d)),
      pv_status = (\<lambda>d. wiki_run strip sha m d (\<lambda>mm. managed_status mm d)),
      pv_resolve = (\<lambda>d c observed. wiki_run strip sha m d (\<lambda>mm. managed_resolve sha mm d c observed)),
      pv_create = None, pv_mirror_bound = None,
      pv_recover = Some (\<lambda>d. wiki_run strip sha m d (\<lambda>mm. managed_recover sha mm d))\<rparr>"

section \<open>The provider touches nothing but the network\<close>

lemma with_wnet_frame: "with_wnet f w = (x, w') \<Longrightarrow> \<exists>n. w' = w\<lparr>wnet := n\<rparr>"
  by (auto simp: with_wnet_def split: prod.splits)

lemma run_git_frame: "run_git strip p args w = (x, w') \<Longrightarrow> \<exists>n. w' = w\<lparr>wnet := n\<rparr>"
  unfolding run_git_def by (auto split: prod.splits sum.splits dest!: with_wnet_frame)

lemma wiki_observe_frame: "wiki_observe strip p base dir w = (x, w') \<Longrightarrow> \<exists>n. w' = w\<lparr>wnet := n\<rparr>"
  unfolding wiki_observe_def by (auto split: prod.splits sum.splits if_splits dest!: run_git_frame)

lemma same_wnet: "\<exists>n. w = w\<lparr>wnet := n\<rparr>"
  by (rule exI [of _ "wnet w"]) simp

lemma wiki_author_frame: "wiki_author strip p w = (x, w') \<Longrightarrow> \<exists>n. w' = w\<lparr>wnet := n\<rparr>"
  unfolding wiki_author_def
  by (auto simp: Let_def same_wnet split: prod.splits sum.splits if_splits dest!: run_git_frame)

text \<open>The base of a result is kept apart from the fields that report the outcome.\<close>

lemma git_failure_key [simp]: "sr_key (git_failure b e c) = sr_key b"
  by (simp add: git_failure_def Let_def)

lemma wiki_observe_key: "wiki_observe strip p base dir w = (Inl r, w') \<Longrightarrow> sr_key r = sr_key base"
  unfolding wiki_observe_def
  by (auto simp: wiki_uninitialized_def split: prod.splits sum.splits if_splits)

lemma refresh_conflict_frame:
  "refresh_conflict strip sha p base dir branch path w = (r, w') \<Longrightarrow> sr_key r = sr_key base \<and> (\<exists>n. w' = w\<lparr>wnet := n\<rparr>)"
  unfolding refresh_conflict_def
  by (auto simp: Let_def split: prod.splits sum.splits dest!: run_git_frame)

lemma wiki_publish_frame:
  "wiki_publish strip sha p base dir branch path target expected session w = (r, w')
     \<Longrightarrow> sr_key r = sr_key base \<and> (\<exists>n. w' = w\<lparr>wnet := n\<rparr>)"
  unfolding wiki_publish_def
  by (auto simp: Let_def split: prod.splits sum.splits option.splits if_splits
      dest!: run_git_frame wiki_author_frame with_wnet_frame refresh_conflict_frame)

lemma wiki_decide_key:
  "wiki_decide sha key mode observed expected base page = Inl r \<Longrightarrow> sr_key r = sr_key base"
  "wiki_decide sha key mode observed expected base page = Inr r \<Longrightarrow> sr_key r = sr_key base"
  by (auto simp: wiki_decide_def Let_def split: if_splits option.splits)

lemma wiki_in_clone_frame:
  assumes "wiki_in_clone strip sha p base mode observed path expected session dir w = (r, w')"
  shows "sr_key r = sr_key base \<and> (\<exists>n. w' = w\<lparr>wnet := n\<rparr>)"
proof -
  obtain o1 w1 where 1: "wiki_observe strip p base dir w = (o1, w1)" by (cases "wiki_observe strip p base dir w")
  obtain n1 where n1: "w1 = w\<lparr>wnet := n1\<rparr>" using wiki_observe_frame [OF 1] by blast
  show ?thesis
  proof (cases o1)
    case (Inl r0)
    with assms 1 n1 wiki_observe_key [of strip p base dir w r0 w1] show ?thesis by (auto simp: wiki_in_clone_def)
  next
    case (Inr bh)
    obtain branch head where bh: "bh = (branch, head)" by (cases bh)
    let ?t = "join_text dir path"
    obtain pg w2 where 2: "with_wnet (gw_read (wk_world p) (path_text ?t)) w1 = (pg, w2)"
      by (cases "with_wnet (gw_read (wk_world p) (path_text ?t)) w1")
    obtain n2 where n2: "w2 = w\<lparr>wnet := n2\<rparr>" using with_wnet_frame [OF 2] n1 by auto
    from assms 1 2 Inr bh n2 show ?thesis
      by (auto simp: wiki_in_clone_def Let_def split: sum.splits if_splits
          dest!: wiki_decide_key wiki_publish_frame)
  qed
qed

lemma wiki_apply_frame:
  "wiki_apply strip sha p d mode observed w = (r, w') \<Longrightarrow> sr_key r = diary_key sha d \<and> (\<exists>n. w' = w\<lparr>wnet := n\<rparr>)"
  unfolding wiki_apply_def
  by (auto simp: Let_def wiki_base_def same_wnet split: option.splits sum.splits prod.splits
      dest!: with_wnet_frame wiki_in_clone_frame)

lemma wiki_resolve_frame:
  "wiki_resolve strip sha p d choice observed w = (r, w') \<Longrightarrow> sr_key r = diary_key sha d \<and> (\<exists>n. w' = w\<lparr>wnet := n\<rparr>)"
  unfolding wiki_resolve_def
  by (auto simp: wiki_base_def same_wnet split: if_splits dest!: wiki_apply_frame)

lemma within_key_wiki: "within_key (diary_key sha d) (wiki_apply strip sha p d mode observed)"
proof (rule within_keyI)
  fix w w' :: "('a, 'b) wstate_scheme" and r
  assume "wiki_apply strip sha p d mode observed w = (r, w')"
  from wiki_apply_frame [OF this]
  show "sr_key r = diary_key sha d \<and> (\<forall>k. k \<noteq> diary_key sha d \<longrightarrow> stored_binding w' k = stored_binding w k)"
    by (auto simp: stored_binding_def)
qed

interpretation wiki_keyed: keyed_provider sha "wiki_provider strip sha p" for sha strip p
proof unfold_locales
  fix d choice observed and f :: "remote_diary \<Rightarrow> ('a, 'b) wstate_scheme effect"
  let ?pv = "wiki_provider strip sha p :: ('a, 'b) wstate_scheme provider"
  show "within_key (diary_key sha d) (pv_mirror ?pv d)" "within_key (diary_key sha d) (pv_status ?pv d)"
    by (simp_all add: wiki_provider_def within_key_wiki)
  show "within_key (diary_key sha d) (pv_resolve ?pv d choice observed)"
    by (rule within_keyI) (auto simp: wiki_provider_def stored_binding_def dest!: wiki_resolve_frame)
  show "pv_create ?pv = Some f \<Longrightarrow> within_key (diary_key sha d) (f d)"
    "pv_mirror_bound ?pv = Some f \<Longrightarrow> within_key (diary_key sha d) (f d)"
    "pv_recover ?pv = Some f \<Longrightarrow> within_key (diary_key sha d) (f d)"
    by (auto simp: wiki_provider_def within_key_wiki)
qed

end
