(* ===== verification/Wiki_Facts.thy ===== *)
theory Wiki_Facts
  imports Wiki_Provider
begin

text \<open>
  Properties of the wiki mirror: the page of a diary carries the marker that recovery looks for, an existing page is
  only written by a resolution at the head that was observed, a page without a binding is never adopted by a normal
  mirror, and an edit that was accepted is a conflict again.
\<close>

section \<open>Pages\<close>

lemma replace_absent: "c \<notin> set s \<Longrightarrow> replace_all (c # p) new s = s"
proof (induction s)
  case (Cons d s)
  then have "\<not> has_prefix (c # p) (d # s)" by simp
  with Cons show ?case by simp
qed simp

lemma index_of_skip: "c \<notin> set u \<Longrightarrow> index_of (c # p) (u @ s) = map_option ((+) (length u)) (index_of (c # p) s)"
proof (induction u)
  case (Cons d u)
  then show ?case by (cases "index_of (c # p) s") auto
qed (cases "index_of (c # p) s", simp_all)

lemma hex_plain: "is_sha256 k \<Longrightarrow> newline \<notin> set k \<and> carriage \<notin> set k"
  by (auto simp: is_sha256_def is_hex_def is_hex_char_def is_digit_def newline_def carriage_def byte_def list_all_iff)

lemma index_of_newline_first: "newline \<notin> set u \<Longrightarrow> index_of [newline] (u @ newline # v) = Some (length u)"
  using index_of_skip [of newline u "[]" "newline # v"] by simp

lemma split_on_first: "c \<notin> set u \<Longrightarrow> split_on c (u @ c # v) = u # split_on c v"
  by (induction u) auto

text \<open>The page that \<open>wikiPage\<close> makes of a diary is the one that the mirror recognises: when
  the front matter of the diary ends at its first line that starts with three dashes and holds the line of the
  diary's key, the page holds the same text, and its front matter carries both the key and the binding marker.\<close>

theorem wiki_page_carries_marker:
  assumes "wiki_page sha parse_time d = Inr (path, content)" "is_sha256 (diary_key sha d)"
    "rd_content d = front_start @ front @ front_end @ rest" "carriage \<notin> set (rd_content d)"
    "index_of front_end (newline # front @ front_end @ rest) = Some (Suc (length front))"
    "''idempotency_key: '' @ diary_key sha d \<in> set (map trim_space (split_on newline front))"
    "\<not> contains_str (rd_content d) (wiki_marker (diary_key sha d))"
    "trim_space (wiki_marker (diary_key sha d)) = wiki_marker (diary_key sha d)"
  shows "content = front_start @ wiki_marker (diary_key sha d) @ [newline] @ front @ front_end @ rest
     \<and> has_exact_marker content (diary_key sha d)"
proof -
  let ?k = "diary_key sha d" and ?m = "wiki_marker (diary_key sha d)"
  have m: "newline \<notin> set ?m" "carriage \<notin> set ?m"
    using hex_plain [OF assms(2)] by (auto simp: wiki_marker_def newline_def carriage_def)
  have i: "index_of [newline] (rd_content d) = Some 3"
    using index_of_newline_first [of "''---''" "front @ front_end @ rest"]
    by (simp add: assms(3) front_start_def newline_def)
  have t: "take 3 (rd_content d) = ''---''" "take 4 (rd_content d) = front_start"
    "drop 4 (rd_content d) = front @ front_end @ rest"
    by (simp_all add: assms(3) front_start_def)
  have content: "content = front_start @ ?m @ [newline] @ front @ front_end @ rest"
    using assms(1,7) i t by (auto simp: wiki_page_def Let_def split: option.splits if_splits)
  have plain: "carriage \<notin> set content"
    using assms(4) m unfolding content by (auto simp: assms(3) newline_def carriage_def)
  have body: "trim_prefix front_start content = (?m @ [newline]) @ front @ front_end @ rest"
    by (simp add: content)
  have idx: "index_of front_end (trim_prefix front_start content) = Some (length ?m + Suc (length front))"
    using index_of_skip [OF m(1), of "''---''" "newline # front @ front_end @ rest"] assms(5)
    by (simp add: body front_end_def)
  have "take (length ?m + Suc (length front)) (trim_prefix front_start content) = ?m @ newline # front"
    by (simp add: body)
  then have lines: "split_on newline (take (length ?m + Suc (length front)) (trim_prefix front_start content))
      = ?m # split_on newline front"
    by (simp add: split_on_first [OF m(1)])
  have "has_prefix front_start content" by (simp add: content)
  with content idx lines assms(6,8) show ?thesis
    unfolding has_exact_marker_def replace_absent [OF plain] by (simp add: Let_def)
qed

section \<open>Writes\<close>

lemma wiki_base_key [simp]: "sr_key (wiki_base sha d) = diary_key sha d"
  by (simp add: wiki_base_def)

lemma wiki_decide_found:
  assumes "mode \<noteq> KeepLocal \<or> observed \<noteq> [] \<and> observed \<noteq> sr_remote_rev base \<or> c = expected" "sr_state base \<noteq> Mirrored"
  shows "\<exists>r. wiki_decide sha key mode observed expected base (Some c) = Inl r
     \<and> sr_remote_content r = c \<and> sr_remote_rev r = sr_remote_rev base
     \<and> (sr_state r = Mirrored \<longrightarrow> c = expected \<or> mode = KeepRemote \<and> (observed = [] \<or> observed = sr_remote_rev base))"
proof -
  have "mode = KeepLocal \<Longrightarrow> mode \<noteq> KeepRemote" by (simp add: KeepLocal_def KeepRemote_def)
  with assms show ?thesis by (auto simp: wiki_decide_def Let_def failed_with_def)
qed

text \<open>C24: a page that exists is only written when a resolution keeps the local diary, the head
  it names is the one just observed (or it names none), and the page is not the diary's already. In every other
  case the run ends after it has read the page: it is mirrored when the page is exactly the diary's or was
  accepted at the head it was observed at, and the result carries the page and the head as evidence.\<close>

theorem wiki_page_never_overwritten:
  assumes "wiki_observe strip p base dir w = (Inr (branch, head), w1)"
    "with_wnet (gw_read (wk_world p) (path_text (join_text dir path))) w1 = (Inr c, w2)"
    "mode \<noteq> KeepLocal \<or> observed \<noteq> [] \<and> observed \<noteq> ''git:'' @ head \<or> c = expected"
    "wiki_in_clone strip sha p base mode observed path expected session dir w = (r, w')" "sr_state base \<noteq> Mirrored"
  shows "w' = w2 \<and> sr_remote_content r = c \<and> sr_remote_rev r = ''git:'' @ head
     \<and> (sr_state r = Mirrored \<longrightarrow> c = expected \<or> mode = KeepRemote \<and> (observed = [] \<or> observed = ''git:'' @ head))"
proof -
  let ?b = "base\<lparr>sr_remote_rev := ''git:'' @ head, sr_expected_rev := observed, sr_remote_id := path,
      sr_remote_url := wk_web_url p @ ''/'' @ trim_suffix ''.md'' path\<rparr>"
  from assms(3,5) obtain r0 where r0: "wiki_decide sha (sr_key ?b) mode observed expected ?b (Some c) = Inl r0"
    "sr_remote_content r0 = c" "sr_remote_rev r0 = ''git:'' @ head"
    "sr_state r0 = Mirrored \<longrightarrow> c = expected \<or> mode = KeepRemote \<and> (observed = [] \<or> observed = ''git:'' @ head)"
    using wiki_decide_found [of mode observed ?b c expected sha "sr_key ?b"] by auto
  with assms(4) have "r = r0 \<and> w' = w2"
    by (simp add: wiki_in_clone_def assms(1,2) Let_def)
  with r0 show ?thesis by simp
qed

text \<open>An accepted edit does not stay accepted: the resolution that keeps a page with other
  content than the diary's reports it mirrored, and every status, mirror or recovery that then finds the
  same page at any head is a conflict.\<close>

theorem accepted_edit_conflicts_again:
  assumes "has_exact_marker c key" "c \<noteq> expected" "observed = sr_remote_rev base"
    "mode = [] \<or> mode = mode_status \<or> mode = mode_recover"
  shows "(\<exists>r. wiki_decide sha key KeepRemote observed expected base (Some c) = Inl r \<and> sr_state r = Mirrored)
     \<and> (\<exists>r. wiki_decide sha key mode [] expected later (Some c) = Inl r \<and> sr_state r = SyncConflict)"
  using assms
  by (auto simp: wiki_decide_def Let_def KeepLocal_def KeepRemote_def mode_status_def mode_recover_def mode_create_def)

section \<open>Bindings\<close>

lemma load_unbound:
  assumes "load_binding key w = (b, w1)" "stored_binding w key = None"
  shows "(\<exists>e. b = Inl e) \<or> b = Inr None"
proof (cases b)
  case (Inr f)
  with assms binding_store.load_valid [of key w _ w1] show ?thesis by (cases f) auto
qed simp

text \<open>A page that exists, seen from \<open>apply\<close> in mode \<open>create\<close>.\<close>

lemma create_finds_page:
  fixes w :: "('n, 'a) wstate_scheme"
  assumes observed: "\<And>dir base (v :: ('n, 'a) wstate_scheme). \<exists>bh v'. wiki_observe strip p base dir v = (Inr bh, v')"
    and page: "\<And>f n. \<exists>c n'. gw_read (wk_world p) f n = (Inr c, n')"
    and run: "wiki_apply strip sha p d mode_create [] w = (r, w')"
  shows "sr_state r = SyncPending"
proof -
  have clone: "sr_state (fst (wiki_in_clone strip sha p base mode_create [] path expected session dir v)) = SyncPending"
    for base path expected session dir and v :: "('n, 'a) wstate_scheme"
  proof -
    obtain branch head v1 where 1: "wiki_observe strip p base dir v = (Inr (branch, head), v1)"
      using observed [of base dir v] by auto
    obtain c n' where "gw_read (wk_world p) (path_text (join_text dir path)) (wnet v1) = (Inr c, n')" using page by blast
    then have 2: "with_wnet (gw_read (wk_world p) (path_text (join_text dir path))) v1 = (Inr c, v1\<lparr>wnet := n'\<rparr>)"
      by (simp add: with_wnet_def)
    show ?thesis
      by (simp add: wiki_in_clone_def 1 2 Let_def wiki_decide_def mode_create_def mode_status_def mode_recover_def)
  qed
  show ?thesis
    using run clone unfolding wiki_apply_def
    by (auto simp: Let_def split: option.splits sum.splits prod.splits) (metis fst_conv)
qed


section \<open>Witnesses\<close>

text \<open>A wiki with one page: every git command answers \<open>abcdef1\<close>, and every file that is read is the page.\<close>

definition one_page :: "string \<Rightarrow> nat wiki" where
  "one_page c = \<lparr>wk_repository = ''o/n'', wk_repository_root = [], wk_remote_url = ''u'', wk_web_url = ''web'',
     wk_executable = ''git'', wk_author_name = ''a'', wk_author_email = ''b'',
     wk_world = \<lparr>gw_git = (\<lambda>exe args n. (Inr ''abcdef1'', Suc n)), gw_temp = (\<lambda>n. (Inr ''/tmp/x'', n)),
       gw_remove = (\<lambda>dir n. n), gw_read = (\<lambda>f n. (Inr c, n)), gw_mkdir = (\<lambda>f n. (None, n)),
       gw_write = (\<lambda>f c n. (None, n)), gw_parse_time = (\<lambda>s. Some 0)\<rparr>\<rparr>"

definition empty_wstate :: "nat wstate" where
  "empty_wstate = \<lparr>faults = [], clock = (\<lambda>n. 1 + int n), reads = 0, entries = [], bindings = [], conflicts = [],
     locks = [], lock_sequence = 0, wnet = 0, wiki_ready = Some None\<rparr>"

lemma trim_head: "trim_space ''abcdef1'' = ''abcdef1''" by code_simp

lemma one_page_git: "run_git strip (one_page c) args w = (Inr ''abcdef1'', w\<lparr>wnet := Suc (wnet w)\<rparr>)"
  by (simp add: run_git_def one_page_def with_wnet_def)

lemma one_page_observed:
  "wiki_observe strip (one_page c) base dir w = (Inr (''abcdef1'', ''abcdef1''), w\<lparr>wnet := 6 + wnet w\<rparr>)"
  by (simp add: wiki_observe_def one_page_git trim_head)

lemma one_page_read: "with_wnet (gw_read (wk_world (one_page c)) f) w = (Inr c, w)"
  by (simp add: one_page_def with_wnet_def)

definition page_front :: string where
  "page_front = ''created_at: x'' @ [newline] @ ''idempotency_key: '' @ sample_key"

definition page_diary :: remote_diary where
  "page_diary = \<lparr>rd_session_id = ''s'', rd_repository_id = ''r'', rd_commit_sha = ''c'',
     rd_artifact_hash = ''0123456789ab'',
     rd_content = front_start @ page_front @ front_end @ ''text''\<rparr>"

lemma page_diary_facts:
  "case wiki_page sample_sha (\<lambda>s. Some 0) page_diary of Inl e \<Rightarrow> False | Inr x \<Rightarrow> True"
  "carriage \<notin> set (rd_content page_diary)"
  "index_of front_end (newline # page_front @ front_end @ ''text'')
     = Some (Suc (length page_front))"
  "''idempotency_key: '' @ sample_key \<in> set (map trim_space (split_on newline
     page_front))"
  "\<not> contains_str (rd_content page_diary) (wiki_marker sample_key)"
  "trim_space (wiki_marker sample_key) = wiki_marker sample_key"
  by code_simp+

theorem wiki_page_carries_marker_witness:
  "\<exists>path content. wiki_page sample_sha (\<lambda>s. Some 0) page_diary = Inr (path, content) \<and> has_exact_marker content sample_key"
proof -
  obtain path content where p: "wiki_page sample_sha (\<lambda>s. Some 0) page_diary = Inr (path, content)"
    using page_diary_facts(1) by (cases "wiki_page sample_sha (\<lambda>s. Some 0) page_diary") auto
  have c: "rd_content page_diary = front_start @ page_front @ front_end @ ''text''"
    by (simp add: page_diary_def)
  have "has_exact_marker content sample_key"
    using wiki_page_carries_marker [OF p _ c, unfolded sample_diary_key, OF sample_key_sha page_diary_facts(2-6)] ..
  with p show ?thesis by blast
qed

theorem wiki_page_never_overwritten_witness:
  "sr_remote_content (fst (wiki_in_clone (\<lambda>u. None) sample_sha (one_page ''page'') (wiki_base sample_sha page_diary)
     KeepLocal ''git:0000000'' ''p.md'' ''mine'' ''s'' ''/tmp/x'' empty_wstate)) = ''page''"
  using wiki_page_never_overwritten [OF one_page_observed one_page_read, of KeepLocal "''git:0000000''" "''page''"
      "''mine''" "\<lambda>u. None" sample_sha "wiki_base sample_sha page_diary" "''p.md''" "''s''" "''/tmp/x''" empty_wstate,
      OF _ prod.collapse [symmetric]]
  by (simp add: wiki_base_def zero_result_def Mirrored_def)

theorem accepted_edit_conflicts_again_witness:
  "\<exists>c r. has_exact_marker c sample_key \<and> wiki_decide sample_sha sample_key mode_status [] ''mine'' zero_result (Some c) = Inl r
     \<and> sr_state r = SyncConflict"
proof -
  let ?c = "front_start @ wiki_marker sample_key @ [newline] @ ''idempotency_key: '' @ sample_key @ front_end"
  have m: "has_exact_marker ?c sample_key" by code_simp
  have "?c \<noteq> ''mine''" by (simp add: front_start_def)
  from accepted_edit_conflicts_again [OF m this refl, where mode = mode_status and sha = sample_sha
      and later = zero_result and base = zero_result] m
  show ?thesis by blast
qed


end
