(* ===== verification/Session.thy ===== *)
theory Session
  imports Skill_Invocation
begin

text \<open>
  The first and the last part of \<open>core/session.go\<close>: the parsing and validation of session
  artifacts in JSON and Markdown, the rendering of a diary, and the store of diary files
  (\<open>LocalMemoryStore\<close>). The store holds the text of every regular file under its root, by relative path;
  a file is read with the JSON reader \<open>rv\<close>. Slicing a hash that is too short panics in the code:
  that is the result \<^term>\<open>None\<close> of saving.
\<close>

section \<open>Session artifacts\<close>

definition ArtifactJSON :: string where "ArtifactJSON = ''json''"
definition ArtifactMarkdown :: string where "ArtifactMarkdown = ''markdown''"

text \<open>\<open>json.Unmarshal\<close>: one value with nothing but white space after it.\<close>

definition unmarshal :: "json_reader \<Rightarrow> string \<Rightarrow> json option" where
  "unmarshal rv t = (case rv t of None \<Rightarrow> None | Some (j, rest) \<Rightarrow> if list_all json_space rest then Some j else None)"

fun validate_records :: "invocation_record list \<Rightarrow> invocation_record list res" where
  "validate_records [] = Inr []"
| "validate_records (r # rs) =
     (case validate_record r of
        Inl e \<Rightarrow> Inl e
      | Inr r' \<Rightarrow> (case validate_records rs of Inl e \<Rightarrow> Inl e | Inr rs' \<Rightarrow> Inr (r' # rs')))"

definition validate_artifact :: "session_artifact \<Rightarrow> session_artifact res" where
  "validate_artifact a =
     (let title = trim_space (sa_title a); summary = trim_space (sa_summary a) in
      if summary = [] then Inl (new_err ''session artifact summary is required'')
      else
     (case trim_references (new_err ''code reference path is required'') (sa_code_references a) of
        Inl e \<Rightarrow> Inl e
      | Inr refs \<Rightarrow>
     (case validate_records (sa_invocations a) of
        Inl e \<Rightarrow> Inl e
      | Inr invs \<Rightarrow>
          Inr (a\<lparr>sa_title := (if title = [] then ''Session diary'' else title), sa_summary := summary,
                sa_code_references := refs, sa_invocations := invs\<rparr>))))"

definition manual_session_artifact :: "string \<Rightarrow> session_artifact res" where
  "manual_session_artifact summary =
     validate_artifact (zero_session_artifact\<lparr>sa_title := ''Session diary'', sa_summary := trim_space summary\<rparr>)"

section \<open>Markdown artifacts\<close>

text \<open>
  A bullet of the references: a JSON reference, or path, symbol and kind between bars. When
  \<open>json.Unmarshal\<close> reports a value of the wrong type, the fields it could set stay set.
\<close>

definition salvage :: "string \<Rightarrow> (string \<times> json) list \<Rightarrow> string" where
  "salvage name kvs =
     fold (\<lambda>v s. case v of JStr t \<Rightarrow> t | JTime t \<Rightarrow> rfc3339_text t | _ \<Rightarrow> s) (field_values name kvs) []"

definition salvage_reference :: "json option \<Rightarrow> code_reference" where
  "salvage_reference j =
     (case j of
        Some (JObj kvs) \<Rightarrow>
          \<lparr>cr_repository_id = salvage ''repository_id'' kvs, cr_commit_sha = salvage ''commit_sha'' kvs,
           cr_path = salvage ''path'' kvs, cr_symbol = salvage ''symbol'' kvs, cr_kind = salvage ''kind'' kvs,
           cr_confidence = salvage ''confidence'' kvs,
           cr_graph_snapshot_id = salvage ''graph_snapshot_id'' kvs\<rparr>
      | _ \<Rightarrow> zero_reference)"

definition bullet_reference :: "json_reader \<Rightarrow> string \<Rightarrow> code_reference" where
  "bullet_reference rv value =
     (let j = unmarshal rv value in
      case (case j of None \<Rightarrow> None | Some v \<Rightarrow> elem zero_reference dec_reference v) of
        Some r \<Rightarrow> r
      | None \<Rightarrow>
          (let r = salvage_reference j; parts = split_on CHR ''|'' value;
               r1 = r\<lparr>cr_path := trim_space (hd parts)\<rparr>;
               r2 = (if length parts > 1 then r1\<lparr>cr_symbol := trim_space (parts ! 1)\<rparr> else r1) in
           if length parts > 2 then r2\<lparr>cr_kind := trim_space (parts ! 2)\<rparr> else r2))"

record markdown_scan =
  ms_artifact :: session_artifact
  ms_section :: string
  ms_body :: "string list"

definition scan_bullet :: "json_reader \<Rightarrow> string \<Rightarrow> markdown_scan \<Rightarrow> markdown_scan" where
  "scan_bullet rv value s =
     (let a = ms_artifact s in
      if ms_section s \<in> {''decisions'', ''decision''}
      then s\<lparr>ms_artifact := a\<lparr>sa_decisions := sa_decisions a @ [value]\<rparr>\<rparr>
      else if ms_section s \<in> {''lessons'', ''lesson''}
      then s\<lparr>ms_artifact := a\<lparr>sa_lessons := sa_lessons a @ [value]\<rparr>\<rparr>
      else if ms_section s \<in> {''related'', ''related links''}
      then s\<lparr>ms_artifact := a\<lparr>sa_related := sa_related a @ [value]\<rparr>\<rparr>
      else if ms_section s \<in> {''code references'', ''code reference'', ''references''}
      then s\<lparr>ms_artifact := a\<lparr>sa_code_references := sa_code_references a @ [bullet_reference rv value]\<rparr>\<rparr>
      else s\<lparr>ms_body := ms_body s @ [value]\<rparr>)"

definition scan_markdown_line :: "json_reader \<Rightarrow> string \<Rightarrow> markdown_scan \<Rightarrow> markdown_scan" where
  "scan_markdown_line rv line s =
     (let t = trim_space line in
      if t = ''---'' then s
      else if has_prefix ''# '' t
      then s\<lparr>ms_artifact := (ms_artifact s)\<lparr>sa_title := trim_space (trim_prefix ''# '' t)\<rparr>\<rparr>
      else if has_prefix ''## '' t
      then s\<lparr>ms_section := to_lower (trim_space (trim_prefix ''## '' t))\<rparr>
      else if has_prefix ''- '' t \<or> has_prefix ''* '' t then scan_bullet rv (trim_space (drop 2 t)) s
      else if t \<noteq> [] then s\<lparr>ms_body := ms_body s @ [t]\<rparr>
      else s)"

definition parse_markdown :: "json_reader \<Rightarrow> string \<Rightarrow> session_artifact res" where
  "parse_markdown rv markdown =
     (case extract_skill_invocations rv (replace_all [CHR 0x0D, newline] [newline] markdown) of
        Inl e \<Rightarrow> Inl e
      | Inr (invs, remainder) \<Rightarrow>
          (let s = fold (scan_markdown_line rv) (split_on newline remainder)
                 \<lparr>ms_artifact = zero_session_artifact\<lparr>sa_invocations := invs\<rparr>, ms_section = ''summary'', ms_body = []\<rparr> in
           validate_artifact ((ms_artifact s)\<lparr>sa_summary := trim_space (join_with [newline] (ms_body s))\<rparr>)))"

definition parse_session_artifact :: "json_reader \<Rightarrow> string \<Rightarrow> string \<Rightarrow> session_artifact res" where
  "parse_session_artifact rv data format =
     (if trim_space data = [] then Inl (new_err ''session artifact is empty'')
      else if format = ArtifactJSON \<or> format = [] \<and> has_prefix ''{'' (trim_space data)
      then (case (case unmarshal rv data of None \<Rightarrow> None | Some j \<Rightarrow> dec_session_artifact j) of
              None \<Rightarrow> Inl (new_err ''parse session artifact JSON: invalid JSON'')
            | Some a \<Rightarrow> validate_artifact a)
      else parse_markdown rv data)"

text \<open>
  Whether the code references of the artifact are a nil slice: a list does not tell nil from
  empty, but \<open>json.Marshal\<close> writes the one as \<open>null\<close> and the other as \<open>[]\<close>.
\<close>

definition references_allocated :: "json_reader \<Rightarrow> string \<Rightarrow> string \<Rightarrow> bool" where
  "references_allocated rv data format =
     (if format = ArtifactJSON \<or> format = [] \<and> has_prefix ''{'' (trim_space data)
      then (case unmarshal rv data of
              Some (JObj kvs) \<Rightarrow>
                fold (\<lambda>v b. case v of JArr js \<Rightarrow> True | JNull \<Rightarrow> False | _ \<Rightarrow> b) (field_values ''code_references'' kvs) False
            | _ \<Rightarrow> False)
      else False)"

section \<open>Rendering\<close>

definition wikilink :: "string \<Rightarrow> string" where
  "wikilink value =
     (let v = trim_space value in
      if has_prefix ''[['' v \<and> has_suffix '']]'' v then v else ''[['' @ trim_set ''[]'' v @ '']]'')"

definition bullets :: "string \<Rightarrow> string list \<Rightarrow> string" where
  "bullets mark vs = concat (map (\<lambda>v. mark @ v @ [newline]) vs)"

definition heading :: "string \<Rightarrow> string" where
  "heading t = [newline] @ ''## '' @ t @ [newline]"

definition render_invocation :: "invocation_record \<Rightarrow> string" where
  "render_invocation r =
     ''- '' @ ir_invocation_id r @ '' | '' @ qualified_name (ir_identity r) @ '' | '' @ ir_outcome r @ '' | ''
     @ ir_provenance r @ [newline]
     @ (if ir_summary r \<noteq> [] then ''  - Summary: '' @ ir_summary r @ [newline] else [])
     @ bullets ''  - Decision: '' (ob_decisions (ir_observations r))
     @ bullets ''  - Lesson: '' (ob_lessons (ir_observations r))"

definition render_sections :: "session_diary \<Rightarrow> string" where
  "render_sections d =
     sd_summary d @ [newline]
     @ (if sd_decisions d \<noteq> [] then heading ''Decisions'' @ bullets ''- '' (sd_decisions d) else [])
     @ (if sd_lessons d \<noteq> [] then heading ''Lessons'' @ bullets ''- '' (sd_lessons d) else [])
     @ (if sd_code_references d \<noteq> []
        then heading ''Code References''
             @ bullets ''- '' (map (\<lambda>r. cr_path r @ '' | '' @ cr_symbol r @ '' | '' @ cr_kind r) (sd_code_references d))
        else [])
     @ (if sd_invocations d \<noteq> []
        then heading ''Skill Invocations'' @ concat (map render_invocation (sd_invocations d)) else [])"

definition render_references :: "bool \<Rightarrow> code_reference list \<Rightarrow> string" where
  "render_references allocated rs =
     json_text (if rs = [] \<and> \<not> allocated then JNull else JArr (map enc_reference rs))"

definition front_matter :: "bool \<Rightarrow> session_diary \<Rightarrow> string" where
  "front_matter allocated d =
     ''---'' @ [newline] @ bullets []
       [''session_id: '' @ sd_session_id d, ''idempotency_key: '' @ sd_key d, ''repository_id: '' @ sd_repository_id d,
        ''commit_sha: '' @ sd_commit_sha d, ''artifact_hash: '' @ sd_artifact_hash d, ''author: '' @ sd_author d,
        ''runtime: '' @ sd_runtime d, ''created_at: '' @ rfc3339_text (sd_created_at d), ''title: '' @ sd_title d,
        ''code_references: '' @ render_references allocated (sd_code_references d),
        ''related: '' @ join_with '','' (map wikilink (sort (sd_related d))), ''---''] @ [newline]"

definition metadata_marker :: string where
  "metadata_marker = ''<!-- syntroph-metadata'' @ [newline]"

definition metadata_end :: string where
  "metadata_end = [newline] @ ''-->''"

definition render_diary :: "bool \<Rightarrow> session_diary \<Rightarrow> string" where
  "render_diary allocated d =
     front_matter allocated d @ metadata_marker @ json_text (enc_diary d) @ metadata_end
     @ [newline, newline] @ ''# '' @ sd_title d @ [newline, newline] @ render_sections d"

definition extract_metadata :: "string \<Rightarrow> string" where
  "extract_metadata content =
     (case index_of metadata_marker content of
        None \<Rightarrow> []
      | Some i \<Rightarrow>
          (let body = drop (i + length metadata_marker) content in
           case index_of metadata_end body of None \<Rightarrow> [] | Some j \<Rightarrow> take j body))"

section \<open>The store of diary files\<close>

record mstate = gstate +
  diaries :: "(string \<times> string) list"

definition diary_path :: "session_diary \<Rightarrow> string" where
  "diary_path d = path_text (join_text (year_text (sd_created_at d))
     (month_text (sd_created_at d) @ ''/'' @ sd_session_id d @ ''-'' @ take 12 (sd_artifact_hash d) @ ''.md''))"

text \<open>\<open>filepath.Walk\<close>: the files in the lexical order of their path components.\<close>

definition walk_order :: "(string \<times> string) list \<Rightarrow> (string \<times> string) list" where
  "walk_order m = sort_key (\<lambda>pc. split_on CHR ''/'' (fst pc)) m"

definition read_diary :: "json_reader \<Rightarrow> string \<Rightarrow> session_diary option" where
  "read_diary rv content =
     (case unmarshal rv (extract_metadata content) of None \<Rightarrow> None | Some j \<Rightarrow> dec_diary j)"

text \<open>
  The steps of the walk before a file (reading directories, \<open>Lstat\<close>) may fail: the walk goes on if
  something does not exist any more. Reading the file may fail too.
\<close>

fun walk_diaries ::
  "json_reader \<Rightarrow> string \<Rightarrow> (string \<times> string) list \<Rightarrow> session_diary \<Rightarrow> 'a env_scheme
     \<Rightarrow> (session_diary \<times> err option) \<times> 'a env_scheme"
where
  "walk_diaries rv key [] found w = ((found, None), w)"
| "walk_diaries rv key ((p, content) # rest) found w =
     (case try_io w of
        (Some e, w1) \<Rightarrow>
          if errors_is e ErrNotExist then walk_diaries rv key rest found w1 else ((found, Some e), w1)
      | (None, w1) \<Rightarrow>
          if \<not> has_suffix ''.md'' p then walk_diaries rv key rest found w1
          else
         (case try_io w1 of
            (Some e, w2) \<Rightarrow> ((found, Some e), w2)
          | (None, w2) \<Rightarrow>
              walk_diaries rv key rest
                (case read_diary rv content of
                   None \<Rightarrow> found | Some d \<Rightarrow> if sd_key d = key then d else found) w2))"

definition find_diary ::
  "json_reader \<Rightarrow> string \<Rightarrow> 'a mstate_scheme \<Rightarrow> (session_diary \<times> bool \<times> err option) \<times> 'a mstate_scheme"
where
  "find_diary rv key w =
     (case try_io w of
        (Some e, w1) \<Rightarrow>
          ((zero_diary, False, if errors_is e ErrNotExist then None else Some e), w1)
      | (None, w1) \<Rightarrow>
         (case walk_diaries rv key (walk_order (diaries w1)) zero_diary w1 of
            ((d, e), w2) \<Rightarrow> ((d, sd_key d \<noteq> [], e), w2)))"

definition write_diary :: "string \<Rightarrow> string \<Rightarrow> 'a mstate_scheme \<Rightarrow> err option \<times> 'a mstate_scheme" where
  "write_diary p content w =
     (case try_ios 6 w of
        (Some e, w1) \<Rightarrow> (Some e, w1)
      | (None, w1) \<Rightarrow> (None, w1\<lparr>diaries := map_put p content (diaries w1)\<rparr>))"

definition diary_exists_err :: err where
  "diary_exists_err = new_err ''immutable diary path already exists''"

definition save_diary ::
  "bool \<Rightarrow> session_diary \<Rightarrow> 'a mstate_scheme \<Rightarrow> err option option \<times> 'a mstate_scheme"
where
  "save_diary allocated d w =
     (case ctx_err w of
        (Some e, w1) \<Rightarrow> (Some (Some e), w1)
      | (None, w1) \<Rightarrow>
          if length (sd_artifact_hash d) < 12 then (None, w1)
          else
         (case try_io w1 of
            (Some e, w2) \<Rightarrow>
              if errors_is e ErrNotExist then map_prod Some id (write_diary (diary_path d) (render_diary allocated d) w2)
              else (Some (Some e), w2)
          | (None, w2) \<Rightarrow>
             (case map_of (diaries w2) (diary_path d) of
                Some content \<Rightarrow>
                  (Some (if contains_str content (''idempotency_key: '' @ sd_key d) then None else Some diary_exists_err), w2)
              | None \<Rightarrow> map_prod Some id (write_diary (diary_path d) (render_diary allocated d) w2))))"

section \<open>What a rendered diary holds\<close>

text \<open>The bytes that no JSON text of the program holds outside number literals.\<close>

definition inert :: "char \<Rightarrow> bool" where
  "inert c = (c \<noteq> newline \<and> c \<noteq> CHR ''<'')"

lemma inert_literal [simp]:
  "inert (Char a b c d e f g h) \<longleftrightarrow> Char a b c d e f g h \<noteq> CHR 0x0A \<and> Char a b c d e f g h \<noteq> CHR ''<''"
  by (simp add: inert_def newline_def)

primrec numbers_ok :: "json \<Rightarrow> bool" where
  "numbers_ok JNull = True"
| "numbers_ok (JBool b) = True"
| "numbers_ok (JNum n) = list_all inert (number_text n)"
| "numbers_ok (JStr s) = True"
| "numbers_ok (JTime t) = True"
| "numbers_ok (JArr xs) = list_all id (map numbers_ok xs)"
| "numbers_ok (JObj kvs) = list_all snd (map (map_prod id numbers_ok) kvs)"

lemma list_all_join: "list_all P sep \<Longrightarrow> list_all (list_all P) xs \<Longrightarrow> list_all P (join_with sep xs)"
  by (induction sep xs rule: join_with.induct) auto

lemma digits_inert: "is_digit c \<Longrightarrow> inert c"
  by (auto simp: is_digit_def inert_def newline_def byte_def)

lemma pad_nat_inert [simp]: "list_all inert (pad_nat n k)"
  by (auto simp: pad_nat_def Let_def list_all_iff
      dest: nat_text_digits [THEN digits_inert])

lemma int_text_inert [simp]: "list_all inert (int_text i)"
  by (auto simp: int_text_def list_all_iff dest!: nat_text_digits [THEN digits_inert])

lemma rfc3339_inert [simp]: "list_all inert (rfc3339_text t)"
proof -
  have "list_all inert (fraction_text n)" for n
  proof -
    have "set (rev (dropWhile (\<lambda>c. c = CHR ''0'') (rev (pad_nat 9 n)))) \<subseteq> set (pad_nat 9 n)"
      by (auto dest: set_dropWhileD)
    with pad_nat_inert [of 9 n] show ?thesis
      by (auto simp: fraction_text_def list_all_iff)
  qed
  then show ?thesis
    by (simp add: rfc3339_text_def date_text_def Let_def split: prod.split)
qed

lemma hex_digit_inert: "n < 16 \<Longrightarrow> inert (hex_digit n)"
proof -
  have "list_all (\<lambda>n. inert (hex_digit n)) [0..<16]" by code_simp
  then show "n < 16 \<Longrightarrow> inert (hex_digit n)" by (simp add: list_all_iff)
qed

lemma escape_char_inert [simp]: "list_all inert (escape_char c)"
proof -
  have "byte c < 256" by (simp add: byte_def)
  then have "inert (hex_digit (byte c div 16))" "inert (hex_digit (byte c mod 16))"
    by (auto intro: hex_digit_inert)
  then show ?thesis
    by (auto simp: escape_char_def Let_def byte_def inert_def newline_def)
qed

lemma escape_text_inert [simp]: "list_all inert (escape_text s)"
  by (induction s rule: escape_text.induct) simp_all

lemma quoted_inert [simp]: "list_all inert (quoted_text s)"
  by (simp add: quoted_text_def)

lemma json_text_inert: "numbers_ok j \<Longrightarrow> list_all inert (json_text j)"
proof (induction j)
  case (JArr xs)
  then have "list_all (list_all inert) (map json_text xs)" by (simp add: list_all_iff)
  then show ?case by (simp add: list_all_join)
next
  case (JObj kvs)
  have "list_all inert (json_text v)" if "(k, v) \<in> set kvs" for k v
    using JObj.IH [OF that, of v] JObj.prems that by (force simp: list_all_iff)
  then have "list_all (list_all inert) (map (\<lambda>kt. quoted_text (fst kt) @ '':'' @ snd kt) (map (map_prod id json_text) kvs))"
    using quoted_inert by (force simp: list.pred_map list.pred_set)
  then show ?case by (simp add: list_all_join)
qed simp_all

lemma index_of_first: "c \<notin> set u \<Longrightarrow> index_of (c # p) (u @ (c # p) @ v) = Some (length u)"
proof (induction u)
  case Nil
  have "has_prefix (c # p) ((c # p) @ v)" by (rule has_prefix_append)
  then show ?case by simp
qed auto

text \<open>The first metadata block of a text.\<close>

lemma extract_metadata_first:
  assumes "CHR ''<'' \<notin> set u" "newline \<notin> set body"
  shows "extract_metadata (u @ metadata_marker @ body @ metadata_end @ rest) = body"
proof -
  have "index_of metadata_marker (u @ metadata_marker @ (body @ metadata_end @ rest)) = Some (length u)"
    unfolding metadata_marker_def using assms(1) index_of_first [of "CHR ''<''" u "tl (''<!-- syntroph-metadata'' @ [newline])"] by simp
  moreover have "index_of metadata_end (body @ metadata_end @ rest) = Some (length body)"
    unfolding metadata_end_def using assms(2) index_of_first [of newline body "''-->''" rest] by simp
  ultimately show ?thesis by (simp add: extract_metadata_def)
qed

text \<open>The fields of the front matter that are copied as they are.\<close>

definition front_fields :: "session_diary \<Rightarrow> string list" where
  "front_fields d =
     [sd_session_id d, sd_key d, sd_repository_id d, sd_commit_sha d, sd_artifact_hash d, sd_author d, sd_runtime d]"

definition no_angle :: "string \<Rightarrow> bool" where
  "no_angle s = list_all (\<lambda>c. c \<noteq> CHR ''<'') s"

lemma no_angle_simps [simp]:
  "no_angle []" "no_angle (c # s) \<longleftrightarrow> c \<noteq> CHR ''<'' \<and> no_angle s" "no_angle (s @ t) \<longleftrightarrow> no_angle s \<and> no_angle t"
  by (simp_all add: no_angle_def)

lemma no_angle_inert: "list_all inert s \<Longrightarrow> no_angle s"
  by (auto simp: no_angle_def list_all_iff inert_def)

lemma no_angle_subset: "no_angle s \<Longrightarrow> set t \<subseteq> set s \<Longrightarrow> no_angle t"
  by (auto simp: no_angle_def list_all_iff)

lemma set_trim_space: "set (trim_space s) \<subseteq> set s"
proof -
  have "set (trim_front tbl u) \<subseteq> set u" for tbl u
    by (rule set_mono_suffix [OF trim_front_suffix])
  then show ?thesis
    unfolding trim_space_def by (metis (no_types, lifting) set_rev subset_trans)
qed

lemma no_angle_wikilink: "no_angle v \<Longrightarrow> no_angle (wikilink v)"
proof -
  assume v: "no_angle v"
  have "set (trim_set cs s) \<subseteq> set s" for cs s
    by (auto simp: trim_set_def dest!: set_dropWhileD)
  with v have "no_angle (trim_space v)" "no_angle (trim_set cs (trim_space v))" for cs
    using no_angle_subset set_trim_space by blast+
  then show ?thesis by (simp add: wikilink_def Let_def)
qed

lemma no_angle_join: "no_angle sep \<Longrightarrow> list_all no_angle xs \<Longrightarrow> no_angle (join_with sep xs)"
  by (induction sep xs rule: join_with.induct) auto

lemma no_angle_references [simp]: "no_angle (render_references allocated rs)"
proof -
  have "numbers_ok (enc_reference r)" for r
    by (simp add: enc_reference_def opt_str_def)
  then have "numbers_ok (JArr (map enc_reference rs))" by (simp add: list_all_iff)
  then show ?thesis
    unfolding render_references_def by (intro no_angle_inert json_text_inert) auto
qed

lemma no_angle_front:
  assumes "list_all no_angle (front_fields d)" "no_angle (sd_title d)" "list_all no_angle (sd_related d)"
  shows "no_angle (front_matter allocated d)"
proof -
  have "no_angle (join_with '','' (map wikilink (sort (sd_related d))))"
    using assms(3) by (intro no_angle_join) (auto simp: list_all_iff no_angle_wikilink)
  with assms show ?thesis
    by (simp add: front_matter_def bullets_def front_fields_def no_angle_inert newline_def)
qed

lemma extract_rendered:
  assumes "no_angle (front_matter allocated d)" "numbers_ok (enc_diary d)"
  shows "extract_metadata (render_diary allocated d) = json_text (enc_diary d)"
proof -
  have "newline \<notin> set (json_text (enc_diary d))"
    using json_text_inert [OF assms(2)] by (auto simp: list_all_iff inert_def)
  with assms(1) show ?thesis
    unfolding render_diary_def by (intro extract_metadata_first) (auto simp: no_angle_def list_all_iff)
qed

section \<open>Walking the store\<close>

definition see_file :: "json_reader \<Rightarrow> string \<Rightarrow> string \<times> string \<Rightarrow> session_diary \<Rightarrow> session_diary" where
  "see_file rv key pc found =
     (if has_suffix ''.md'' (fst pc)
      then (case read_diary rv (snd pc) of None \<Rightarrow> found | Some d \<Rightarrow> if sd_key d = key then d else found)
      else found)"

lemma walk_calm:
  "faults w = [] \<Longrightarrow> walk_diaries rv key m found w = ((fold (see_file rv key) m found, None), w)"
  by (induction m arbitrary: found) (auto simp: see_file_def)

lemma find_calm:
  assumes "faults w = []"
  shows "find_diary rv key w =
     (let d = fold (see_file rv key) (walk_order (diaries w)) zero_diary in ((d, sd_key d \<noteq> [], None), w))"
  using assms by (simp add: find_diary_def walk_calm Let_def)

lemma see_keeps:
  "\<forall>d'. read_diary rv (snd pc) = Some d' \<longrightarrow> sd_key d' = key \<longrightarrow> d' = d \<Longrightarrow> see_file rv key pc d = d"
  by (simp add: see_file_def split: option.split)

lemma see_unique:
  assumes "\<forall>pc \<in> set m. \<forall>d'. read_diary rv (snd pc) = Some d' \<longrightarrow> sd_key d' = key \<longrightarrow> d' = d"
    "pc \<in> set m" "has_suffix ''.md'' (fst pc)" "read_diary rv (snd pc) = Some d" "sd_key d = key"
  shows "fold (see_file rv key) m found = d"
  using assms
proof (induction m rule: rev_induct)
  case (snoc x m)
  show ?case
  proof (cases "pc \<in> set m")
    case True
    have "fold (see_file rv key) m found = d"
      by (rule snoc.IH [OF _ True snoc.prems(3-5)]) (use snoc.prems(1) in simp)
    moreover have "see_file rv key x d = d"
      by (rule see_keeps) (use snoc.prems(1) in simp)
    ultimately show ?thesis by simp
  next
    case False
    with snoc.prems(2) have "x = pc" by simp
    with snoc.prems(3-5) show ?thesis by (simp add: see_file_def)
  qed
qed simp

lemma see_none:
  assumes "\<forall>pc \<in> set m. \<forall>d'. read_diary rv (snd pc) = Some d' \<longrightarrow> sd_key d' \<noteq> key"
  shows "fold (see_file rv key) m found = found"
  using assms by (induction m rule: rev_induct) (auto simp: see_file_def split: option.split)

lemma set_walk_order [simp]: "set (walk_order m) = set m"
  by (simp add: walk_order_def)

lemma set_map_put: "map_of m k = None \<Longrightarrow> set (map_put k v m) = insert (k, v) (set m)"
  by (induction m) (auto split: if_splits)

lemma diary_path_md:
  assumes "CHR ''/'' \<notin> set (sd_session_id d)" "CHR ''/'' \<notin> set (sd_artifact_hash d)"
  shows "has_suffix ''.md'' (diary_path d)"
proof -
  define name where "name = sd_session_id d @ ''-'' @ take 12 (sd_artifact_hash d) @ ''.md''"
  have digits: "c \<in> set (pad_nat n k) \<Longrightarrow> is_digit c" for c n k
    by (auto simp: pad_nat_def Let_def is_digit_def byte_def dest: nat_text_digits)
  have pad: "plain (pad_nat n k)" for n k
  proof -
    have "pad_nat n k \<noteq> []" by (simp add: pad_nat_def Let_def)
    moreover have "CHR ''.'' \<notin> set (pad_nat n k)" "CHR ''/'' \<notin> set (pad_nat n k)"
      by (auto dest!: digits simp: is_digit_def byte_def)
    ultimately show ?thesis by (auto simp: plain_def dot_def dotdot_def)
  qed
  have y: "plain (year_text t)" "plain (month_text t)" for t
    using pad by (simp_all add: year_text_def month_text_def split: prod.split)
  have "CHR ''-'' \<in> set name" "CHR ''/'' \<notin> set name"
    using assms by (auto simp: name_def dest: in_set_takeD)
  then have "plain name" by (auto simp: plain_def dot_def dotdot_def)
  have sp: "split_on (CHR ''/'') p = [p]" if "plain p" for p
    using that by (intro split_on_absent) (simp add: plain_def)
  let ?y = "year_text (sd_created_at d)" and ?m = "month_text (sd_created_at d)"
  have "split_on (CHR ''/'') (?y @ ''/'' @ ?m @ ''/'' @ name) = [?y, ?m, name]"
    by (simp only: append.simps split_on_append sp [OF y(1)] sp [OF y(2)] sp [OF \<open>plain name\<close>])
  moreover obtain c cs where c: "?y = c # cs" "c \<noteq> CHR ''/''"
    using y(1) [of "sd_created_at d"] by (cases ?y) (auto simp: plain_def)
  then have "?y \<noteq> []" "\<not> has_prefix ''/'' (?y @ ''/'' @ ?m @ ''/'' @ name)" by simp_all
  ultimately have "join_text ?y (?m @ ''/'' @ name) = \<lparr>cp_rooted = False, cp_parts = [?y, ?m, name]\<rparr>"
    using clean_parts_plain [of "[?y, ?m, name]" False "[]"] y \<open>plain name\<close>
    by (simp add: join_text_def clean_def Let_def del: clean_parts.simps)
  then have "diary_path d = (?y @ ''/'' @ ?m @ ''/'' @ sd_session_id d @ ''-'' @ take 12 (sd_artifact_hash d)) @ ''.md''"
    by (simp add: diary_path_def name_def path_text_def)
  then show ?thesis using has_suffix_append by metis
qed

section \<open>Saving\<close>

text \<open>No operation reports that a file does not exist when it is there.\<close>

definition honest :: "'a env_scheme \<Rightarrow> bool" where
  "honest w = (\<forall>f \<in> set (faults w). case f of NoFault \<Rightarrow> True | FailClean e \<Rightarrow> \<not> errors_is e ErrNotExist
     | FailTorn b e \<Rightarrow> \<not> errors_is e ErrNotExist)"

lemma honest_try: "try_io w = (r, w') \<Longrightarrow> honest w \<Longrightarrow> honest w' \<and> (\<forall>e. r = Some e \<longrightarrow> \<not> errors_is e ErrNotExist)"
  by (auto simp: try_io_def next_fault_def honest_def split: list.splits fault.splits)

lemma honest_tries: "try_ios n w = (r, w') \<Longrightarrow> honest w \<Longrightarrow> honest w'"
proof (induction n arbitrary: w)
  case (Suc n)
  obtain q w1 where 1: "try_io w = (q, w1)" by (cases "try_io w")
  with Suc.prems honest_try have "honest w1" by blast
  with Suc 1 show ?case by (auto split: option.splits)
qed auto

lemma honest_diaries [simp]: "honest (w\<lparr>diaries := m\<rparr>) = honest w"
  by (simp add: honest_def)

lemma write_diary_cases:
  assumes "write_diary p c w = (r, w')"
  shows "(honest w \<longrightarrow> honest w') \<and> (diaries w' = diaries w \<and> r \<noteq> None \<or> diaries w' = map_put p c (diaries w) \<and> r = None)"
proof -
  obtain q w1 where 1: "try_ios 6 w = (q, w1)" by (cases "try_ios 6 w")
  then have "diaries w1 = diaries w" using try_ios_frame [OF 1] by auto
  with assms 1 honest_tries [OF 1] show ?thesis by (auto simp: write_diary_def split: option.splits)
qed

lemma save_diary_cases:
  assumes "save_diary al d w = (r, w')" "honest w"
  shows "honest w' \<and> (diaries w' = diaries w
     \<or> map_of (diaries w) (diary_path d) = None \<and> r = Some None
       \<and> diaries w' = map_put (diary_path d) (render_diary al d) (diaries w))"
proof -
  obtain e w1 where 1: "ctx_err w = (e, w1)" by (cases "ctx_err w")
  have h1: "honest w1" "diaries w1 = diaries w"
    using honest_try [of w e w1] 1 assms(2) ctx_err_frame [OF 1] by (auto simp: ctx_err_def)
  obtain e2 w2 where 2: "try_io w1 = (e2, w2)" by (cases "try_io w1")
  have h2: "honest w2" "diaries w2 = diaries w" "\<forall>x. e2 = Some x \<longrightarrow> \<not> errors_is x ErrNotExist"
    using honest_try [OF 2 h1(1)] h1(2) try_io_frame [OF 2] by auto
  obtain q w3 where 3: "write_diary (diary_path d) (render_diary al d) w2 = (q, w3)"
    by (cases "write_diary (diary_path d) (render_diary al d) w2")
  show ?thesis
    using assms 1 2 3 h1 h2 write_diary_cases [OF 3]
    by (auto simp: save_diary_def split: option.splits if_splits)
qed

text \<open>What the program relies on of a store of immutable documents.\<close>

locale document_store =
  fixes put :: "'d \<Rightarrow> 'w \<Rightarrow> 'r \<times> 'w"
    and document :: "'w \<Rightarrow> string \<Rightarrow> string option"
    and sound :: "'w \<Rightarrow> bool"
  assumes put_keeps: "sound w \<Longrightarrow> put d w = (r, w') \<Longrightarrow> document w p = Some c \<Longrightarrow> document w' p = Some c"
    and put_sound: "sound w \<Longrightarrow> put d w = (r, w') \<Longrightarrow> sound w'"
begin

lemma puts_keep:
  "sound w \<Longrightarrow> document w p = Some c \<Longrightarrow> document (fold (\<lambda>d w. snd (put d w)) ds w) p = Some c"
proof (induction ds arbitrary: w)
  case (Cons d ds)
  obtain r w' where 1: "put d w = (r, w')" by (cases "put d w")
  from Cons.IH [OF put_sound [OF Cons.prems(1) 1] put_keeps [OF Cons.prems(1) 1 Cons.prems(2)]] 1
  show ?case by simp
qed simp

end

interpretation diary_store: document_store "\<lambda>(al, d). save_diary al d" "\<lambda>w. map_of (diaries w)" honest
proof unfold_locales
  fix w w' :: "'a mstate_scheme" and ad :: "bool \<times> session_diary" and r p c
  assume h: "honest w" and s: "(case ad of (al, d) \<Rightarrow> save_diary al d) w = (r, w')"
  obtain al d where ad: "ad = (al, d)" by (cases ad)
  with s have "save_diary al d w = (r, w')" by simp
  note cases = save_diary_cases [OF this h]
  from cases show "honest w'" by simp
  assume "map_of (diaries w) p = Some c"
  with cases show "map_of (diaries w') p = Some c" by (cases "p = diary_path d") auto
qed

section \<open>Properties\<close>

text \<open>C11: whatever diaries are saved, in whatever order and whichever operations fail, a diary file that is
  there keeps its text.\<close>

theorem diaries_immutable:
  assumes "honest w" "map_of (diaries w) p = Some c"
  shows "map_of (diaries (fold (\<lambda>(al, d) w. snd (save_diary al d w)) ds w)) p = Some c"
  using diary_store.puts_keep [OF assms, of ds] by (simp add: case_prod_unfold)

definition empty_memory :: mstate where
  "empty_memory = \<lparr>faults = [], clock = (\<lambda>n. 1), reads = 0, entries = [], bindings = [], conflicts = [], locks = [],
     lock_sequence = 0, snapshots = [], active_pointer = None, diaries = []\<rparr>"

definition sample_session :: session_diary where
  "sample_session = zero_diary\<lparr>sd_session_id := ''s'', sd_key := ''k'', sd_repository_id := ''r'', sd_commit_sha := ''c'',
     sd_artifact_hash := ''0123456789abcdef'', sd_author := ''a'', sd_created_at := 1, sd_title := ''T'', sd_summary := ''S''\<rparr>"

theorem diaries_immutable_witness:
  "map_of (diaries (fold (\<lambda>(al, d) w. snd (save_diary al d w)) [(False, sample_session)]
     (empty_memory\<lparr>faults := [NoFault, FailClean (new_err ''disk'')], diaries := [(''p.md'', ''x'')]\<rparr>))) ''p.md'' = Some ''x''"
  by (rule diaries_immutable) (simp_all add: honest_def)

text \<open>The conditions under which the metadata of a rendered diary are found: no copied field holds an angle bracket.\<close>

definition findable :: "session_diary \<Rightarrow> bool" where
  "findable d =
     (list_all no_angle (front_fields d) \<and> no_angle (sd_title d) \<and> list_all no_angle (sd_related d)
      \<and> numbers_ok (enc_diary d) \<and> diary_ok d \<and> sd_key d \<noteq> []
      \<and> CHR ''/'' \<notin> set (sd_session_id d) \<and> CHR ''/'' \<notin> set (sd_artifact_hash d) \<and> 12 \<le> length (sd_artifact_hash d))"

lemma read_rendered:
  assumes "findable d" "rv (json_text (enc_diary d)) = Some (enc_diary d, [])"
  shows "read_diary rv (render_diary al d) = Some (stored_diary d)"
proof -
  have "extract_metadata (render_diary al d) = json_text (enc_diary d)"
    using assms(1) by (intro extract_rendered no_angle_front) (simp_all add: findable_def)
  then show ?thesis
    using assms by (simp add: read_diary_def unmarshal_def dec_enc_diary findable_def)
qed

lemma save_fresh:
  assumes "faults w = []" "12 \<le> length (sd_artifact_hash d)" "map_of (diaries w) (diary_path d) = None"
  shows "save_diary al d w = (Some None, w\<lparr>diaries := map_put (diary_path d) (render_diary al d) (diaries w)\<rparr>)"
  using assms by (simp add: save_diary_def write_diary_def)

lemma find_stored:
  assumes "findable d" "rv (json_text (enc_diary d)) = Some (enc_diary d, [])" "map_of m (diary_path d) = None"
    "\<forall>pc \<in> set m. \<forall>d'. read_diary rv (snd pc) = Some d' \<longrightarrow> sd_key d' \<noteq> sd_key d"
    "diaries w = map_put (diary_path d) (render_diary al d) m" "faults w = []"
  shows "find_diary rv (sd_key d) w = ((stored_diary d, True, None), w)"
proof -
  let ?pc = "(diary_path d, render_diary al d)"
  have files: "set (diaries w) = insert ?pc (set m)"
    using set_map_put [OF assms(3)] assms(5) by simp
  have key: "sd_key (stored_diary d) = sd_key d" by (simp add: stored_diary_def)
  have own: "read_diary rv (render_diary al d) = Some (stored_diary d)"
    using read_rendered [of d rv] assms(1,2) by simp
  have "fold (see_file rv (sd_key d)) (walk_order (diaries w)) zero_diary = stored_diary d"
  proof (rule see_unique [of _ _ _ _ ?pc])
    show "\<forall>pc\<in>set (walk_order (diaries w)).
        \<forall>d'. read_diary rv (snd pc) = Some d' \<longrightarrow> sd_key d' = sd_key d \<longrightarrow> d' = stored_diary d"
      using assms(4) own by (auto simp: files)
    show "has_suffix ''.md'' (fst ?pc)" using assms(1) by (simp add: findable_def diary_path_md)
  qed (use own key in \<open>simp_all add: files\<close>)
  then show ?thesis using key assms(1,6) by (simp add: find_calm Let_def findable_def)
qed

text \<open>A diary saved at a path that was free is found by its idempotency key, as it was written, as
  long as no other file of the store carries the key.\<close>

theorem saved_diary_is_found:
  assumes "faults w = []" "findable d" "rv (json_text (enc_diary d)) = Some (enc_diary d, [])"
    "map_of (diaries w) (diary_path d) = None"
    "\<forall>pc \<in> set (diaries w). \<forall>d'. read_diary rv (snd pc) = Some d' \<longrightarrow> sd_key d' \<noteq> sd_key d"
    "save_diary al d w = (r, w')"
  shows "r = Some None \<and> find_diary rv (sd_key d) w' = ((stored_diary d, True, None), w')"
proof -
  have s: "r = Some None" "w' = w\<lparr>diaries := map_put (diary_path d) (render_diary al d) (diaries w)\<rparr>"
    using save_fresh [of w d al] assms by (auto simp: findable_def)
  then show ?thesis using find_stored [OF assms(2-5), of w' al] assms(1) by simp
qed

definition sample_reader :: json_reader where
  "sample_reader t = (if t = json_text (enc_diary sample_session) then Some (enc_diary sample_session, []) else None)"

theorem saved_diary_is_found_witness:
  "\<exists>w'. save_diary False sample_session empty_memory = (Some None, w')
     \<and> find_diary sample_reader ''k'' w' = ((stored_diary sample_session, True, None), w')"
proof -
  have "findable sample_session" by code_simp
  moreover have "faults empty_memory = []" "diaries empty_memory = []" by (simp_all add: empty_memory_def)
  moreover have "sample_reader (json_text (enc_diary sample_session)) = Some (enc_diary sample_session, [])"
    by (simp add: sample_reader_def)
  moreover obtain r w' where "save_diary False sample_session empty_memory = (r, w')"
    by (cases "save_diary False sample_session empty_memory")
  moreover have "sd_key sample_session = ''k''" by (simp add: sample_session_def)
  ultimately show ?thesis
    using saved_diary_is_found [of empty_memory sample_session sample_reader False r w'] by auto
qed

text \<open>The title is copied into the text before the metadata: a title that holds the metadata
  marker makes the store read the text after it instead, so the saved diary is not found by its key any
  more, and the same session is closed again.\<close>

theorem title_marker_hides_diary:
  assumes "faults w = []" "12 \<le> length (sd_artifact_hash d)" "map_of (diaries w) (diary_path d) = None"
    "list_all no_angle (front_fields d)" "sd_title d = u @ metadata_marker @ forged @ metadata_end @ v"
    "no_angle u" "newline \<notin> set forged"
    "\<forall>j d'. unmarshal rv forged = Some j \<longrightarrow> dec_diary j = Some d' \<longrightarrow> sd_key d' \<noteq> sd_key d"
    "\<forall>pc \<in> set (diaries w). \<forall>d'. read_diary rv (snd pc) = Some d' \<longrightarrow> sd_key d' \<noteq> sd_key d"
    "save_diary al d w = (r, w')"
  shows "r = Some None \<and> find_diary rv (sd_key d) w' = ((zero_diary, False, None), w')"
proof -
  have s: "r = Some None" "w' = w\<lparr>diaries := map_put (diary_path d) (render_diary al d) (diaries w)\<rparr>"
    using save_fresh [of w d al] assms by auto
  define pre where "pre = ''---'' @ [newline] @ bullets [] [''session_id: '' @ sd_session_id d, ''idempotency_key: '' @ sd_key d,
      ''repository_id: '' @ sd_repository_id d, ''commit_sha: '' @ sd_commit_sha d, ''artifact_hash: '' @ sd_artifact_hash d,
      ''author: '' @ sd_author d, ''runtime: '' @ sd_runtime d, ''created_at: '' @ rfc3339_text (sd_created_at d)] @ ''title: '' @ u"
  obtain rest where "render_diary al d = pre @ metadata_marker @ forged @ metadata_end @ rest"
    by (simp add: render_diary_def front_matter_def bullets_def assms(5) pre_def)
  moreover have "no_angle pre"
    using assms(4,6) by (simp add: pre_def bullets_def front_fields_def no_angle_inert newline_def)
  then have "CHR ''<'' \<notin> set pre" by (auto simp: no_angle_def list_all_iff)
  ultimately have "extract_metadata (render_diary al d) = forged"
    using extract_metadata_first assms(7) by metis
  then have own: "read_diary rv (render_diary al d) = Some d' \<Longrightarrow> sd_key d' \<noteq> sd_key d" for d'
    using assms(8) by (auto simp: read_diary_def split: option.splits)
  have "set (diaries w') = insert (diary_path d, render_diary al d) (set (diaries w))"
    using set_map_put [OF assms(3)] s(2) by simp
  with own assms(9) have "fold (see_file rv (sd_key d)) (walk_order (diaries w')) zero_diary = zero_diary"
    by (intro see_none) auto
  moreover have "faults w' = []" using assms(1) s(2) by simp
  ultimately show ?thesis using s(1) by (simp add: find_calm Let_def zero_diary_def)
qed

definition forging_session :: session_diary where
  "forging_session = sample_session\<lparr>sd_title := ''T'' @ metadata_marker @ ''{}'' @ metadata_end\<rparr>"

theorem title_marker_hides_diary_witness:
  "\<exists>w'. save_diary False forging_session empty_memory = (Some None, w')
     \<and> find_diary (\<lambda>t. None) ''k'' w' = ((zero_diary, False, None), w')"
proof -
  have "faults empty_memory = []" "diaries empty_memory = []" by (simp_all add: empty_memory_def)
  moreover have "12 \<le> length (sd_artifact_hash forging_session)" "list_all no_angle (front_fields forging_session)"
    "sd_key forging_session = ''k''" "no_angle ''T''" "newline \<notin> set ''{}''"
    by (simp_all add: forging_session_def sample_session_def front_fields_def newline_def zero_diary_def)
  moreover have "sd_title forging_session = ''T'' @ metadata_marker @ ''{}'' @ metadata_end @ []"
    by (simp add: forging_session_def)
  moreover obtain r w' where "save_diary False forging_session empty_memory = (r, w')"
    by (cases "save_diary False forging_session empty_memory")
  ultimately show ?thesis
    using title_marker_hides_diary [of empty_memory forging_session "''T''" "''{}''" "[]" "\<lambda>t. None" False r w']
    by (simp add: unmarshal_def)
qed

end
