(* ===== verification/Mcp_Client.thy ===== *)
theory Mcp_Client
  imports Issue_Rest Session
begin

text \<open>
  \<open>adapters/githubissues/mcp_client.go\<close>: the JSON-RPC client that speaks to a child process over its standard
  streams. The operating system, the child and the clock are the parameter \<^emph>\<open>mcp_world\<close>, which acts
  on a state of its own; so is the JSON reader \<open>rv\<close>. A call waits for its answer until its deadline, which passes
  after as many messages as \<open>mw_patience\<close> says: the loop over the incoming messages counts down from there. The goroutine that
  reads the child's output is read in step with the calls.
\<close>

section \<open>Messages\<close>

definition modernMCPVersion :: string where "modernMCPVersion = ''2026-07-28''"
definition legacyMCPVersion :: string where "legacyMCPVersion = ''2025-11-25''"

record mcp_options =
  mo_timeout :: int
  mo_shutdown :: int
  mo_max_message :: int
  mo_max_stderr :: int

record rpc_error =
  rx_code :: int
  rx_message :: string
  rx_data :: "json option"

record rpc_response =
  rp_id :: "json option"
  rp_result :: "json option"
  rp_error :: "rpc_error option"
  rp_method :: string

record mcp_tool =
  mt_name :: string
  mt_schema :: "(string \<times> goval) list"

record tool_content =
  tc_type :: string
  tc_text :: string

record tool_result =
  tr_content :: "tool_content list"
  tr_structured :: "json option"
  tr_is_error :: bool

text \<open>A \<open>json.RawMessage\<close> field keeps its last value as it is.\<close>

definition raw_field :: "string \<Rightarrow> (string \<times> json) list \<Rightarrow> json option \<Rightarrow> json option" where
  "raw_field name kvs d = (case field_values name kvs of [] \<Rightarrow> d | vs \<Rightarrow> Some (last vs))"

definition zero_rpc_error :: rpc_error where
  "zero_rpc_error = \<lparr>rx_code = 0, rx_message = [], rx_data = None\<rparr>"

definition dec_rpc_error :: "(string \<times> json) list \<Rightarrow> rpc_error \<Rightarrow> rpc_error option" where
  "dec_rpc_error kvs d =
     (case (dec_int (rx_code d) (field_values ''code'' kvs), dec_string (rx_message d) (field_values ''message'' kvs))
      of (Some c, Some m) \<Rightarrow> Some \<lparr>rx_code = c, rx_message = m, rx_data = raw_field ''data'' kvs (rx_data d)\<rparr>
       | _ \<Rightarrow> None)"

definition zero_response :: rpc_response where
  "zero_response = \<lparr>rp_id = None, rp_result = None, rp_error = None, rp_method = []\<rparr>"

definition dec_rpc_response :: "(string \<times> json) list \<Rightarrow> rpc_response \<Rightarrow> rpc_response option" where
  "dec_rpc_response kvs d =
     (case (dec_string [] (field_values ''jsonrpc'' kvs), dec_string (rp_method d) (field_values ''method'' kvs),
            dec_ptr dec_rpc_error zero_rpc_error (rp_error d) (field_values ''error'' kvs))
      of (Some v, Some m, Some e) \<Rightarrow>
           Some \<lparr>rp_id = raw_field ''id'' kvs (rp_id d), rp_result = raw_field ''result'' kvs (rp_result d),
             rp_error = e, rp_method = m\<rparr>
       | _ \<Rightarrow> None)"

definition zero_tool :: mcp_tool where
  "zero_tool = \<lparr>mt_name = [], mt_schema = []\<rparr>"

definition dec_tool :: "(string \<times> json) list \<Rightarrow> mcp_tool \<Rightarrow> mcp_tool option" where
  "dec_tool kvs d =
     (case (dec_string (mt_name d) (field_values ''name'' kvs), dec_string [] (field_values ''description'' kvs),
            dec_args False None (field_values ''inputSchema'' kvs))
      of (Some n, Some t, Some s) \<Rightarrow> Some \<lparr>mt_name = n, mt_schema = (case s of None \<Rightarrow> [] | Some m \<Rightarrow> m)\<rparr>
       | _ \<Rightarrow> None)"

definition zero_content :: tool_content where
  "zero_content = \<lparr>tc_type = [], tc_text = []\<rparr>"

definition dec_content :: "(string \<times> json) list \<Rightarrow> tool_content \<Rightarrow> tool_content option" where
  "dec_content kvs d =
     (case (dec_string (tc_type d) (field_values ''type'' kvs), dec_string (tc_text d) (field_values ''text'' kvs))
      of (Some t, Some x) \<Rightarrow> Some \<lparr>tc_type = t, tc_text = x\<rparr> | _ \<Rightarrow> None)"

definition zero_tool_result :: tool_result where
  "zero_tool_result = \<lparr>tr_content = [], tr_structured = None, tr_is_error = False\<rparr>"

definition dec_tool_result :: "(string \<times> json) list \<Rightarrow> tool_result \<Rightarrow> tool_result option" where
  "dec_tool_result kvs d =
     (case (dec_slice (elem zero_content dec_content) (tr_content d) (field_values ''content'' kvs),
            dec_bool (tr_is_error d) (field_values ''isError'' kvs))
      of (Some cs, Some e) \<Rightarrow> Some \<lparr>tr_content = cs, tr_structured = raw_field ''structuredContent'' kvs (tr_structured d),
             tr_is_error = e\<rparr>
       | _ \<Rightarrow> None)"

text \<open>The results of \<open>server/discover\<close>, \<open>initialize\<close> and \<open>tools/list\<close>.\<close>

definition dec_versions :: "(string \<times> json) list \<Rightarrow> string list \<Rightarrow> string list option" where
  "dec_versions kvs d = dec_slice str_elem d (field_values ''supportedVersions'' kvs)"

definition dec_initialized :: "(string \<times> json) list \<Rightarrow> string \<Rightarrow> string option" where
  "dec_initialized kvs d = dec_string d (field_values ''protocolVersion'' kvs)"

definition dec_tools_page :: "(string \<times> json) list \<Rightarrow> mcp_tool list \<times> string \<Rightarrow> (mcp_tool list \<times> string) option" where
  "dec_tools_page kvs d =
     (case (dec_slice (elem zero_tool dec_tool) (fst d) (field_values ''tools'' kvs),
            dec_string (snd d) (field_values ''nextCursor'' kvs))
      of (Some ts, Some c) \<Rightarrow> Some (ts, c) | _ \<Rightarrow> None)"

text \<open>The versions that the data of an error lists; \<open>Unmarshal\<close> fills in what it can.\<close>

definition string_or_zero :: "json \<Rightarrow> string" where
  "string_or_zero j = (case str_elem j of Some s \<Rightarrow> s | None \<Rightarrow> [])"

definition supported_versions :: "json option \<Rightarrow> string list" where
  "supported_versions data =
     (case data of
        Some (JObj kvs) \<Rightarrow>
          fold (\<lambda>v d. case v of JArr js \<Rightarrow> map string_or_zero js | JNull \<Rightarrow> [] | _ \<Rightarrow> d) (field_values ''supported'' kvs) []
      | _ \<Rightarrow> [])"

section \<open>The child process\<close>

datatype wire = WireLine string | WireFailed err | WireClosed

datatype waited = Exited "err option" | Hung

text \<open>
  \<open>mw_pipe\<close> opens one of the three streams, \<open>mw_spawn\<close> starts the child, \<open>mw_read\<close> is the next token of the scanner,
  \<open>mw_done\<close> the error of the context once the deadline has passed, \<open>mw_stderr\<close> what the child has written to its error stream
  so far, and \<open>mw_wait\<close> closes the input and waits.
\<close>

record 'n mcp_world =
  mw_pipe :: "string \<Rightarrow> 'n \<Rightarrow> err option \<times> 'n"
  mw_spawn :: "string list \<Rightarrow> 'n \<Rightarrow> err option \<times> 'n"
  mw_write :: "json \<Rightarrow> 'n \<Rightarrow> err option \<times> 'n"
  mw_patience :: "'n \<Rightarrow> nat"
  mw_read :: "'n \<Rightarrow> wire \<times> 'n"
  mw_done :: "'n \<Rightarrow> err \<times> 'n"
  mw_stderr :: "'n \<Rightarrow> string list"
  mw_wait :: "'n \<Rightarrow> waited \<times> 'n"

record mcp_client =
  mc_command :: "string list"
  mc_opts :: mcp_options
  mc_cmd :: bool
  mc_stdin :: bool
  mc_stderr :: bool
  mc_reading :: bool
  mc_next_id :: int
  mc_modern :: bool
  mc_version :: string
  mc_closed :: bool

definition or_default :: "int \<Rightarrow> int \<Rightarrow> int" where
  "or_default v d = (if v \<le> 0 then d else v)"

definition new_mcp_client :: "string list \<Rightarrow> mcp_options \<Rightarrow> mcp_client res" where
  "new_mcp_client command opts =
     (if command = [] \<or> trim_space (hd command) = []
      then Inl (new_err ''MCP command requires an executable'')
      else Inr \<lparr>mc_command = command,
        mc_opts = \<lparr>mo_timeout = or_default (mo_timeout opts) 15000000000, mo_shutdown = or_default (mo_shutdown opts) 2000000000,
          mo_max_message = or_default (mo_max_message opts) 33554432, mo_max_stderr = or_default (mo_max_stderr opts) 65536\<rparr>,
        mc_cmd = False, mc_stdin = False, mc_stderr = False, mc_reading = False, mc_next_id = 0, mc_modern = False,
        mc_version = [], mc_closed = False\<rparr>)"

text \<open>\<open>boundedBuffer\<close>: what is kept, and whether anything was dropped.\<close>

definition bounded_write :: "int \<Rightarrow> string \<Rightarrow> string \<times> bool \<Rightarrow> string \<times> bool" where
  "bounded_write limit p b =
     (if limit \<le> 0 then b
      else (let remaining = limit - int (length (fst b)) in
        (fst b @ take (nat remaining) p, snd b \<or> remaining < int (length p))))"

definition bounded_text :: "string \<times> bool \<Rightarrow> string" where
  "bounded_text b = trim_space (fst b) @ (if snd b then '' [truncated]'' else [])"

definition process_error :: "(string \<Rightarrow> string option) \<Rightarrow> 'n mcp_world \<Rightarrow> mcp_client \<Rightarrow> err \<Rightarrow> 'n \<Rightarrow> err" where
  "process_error strip wd c e n =
     (let detail = (if mc_stderr c then bounded_text (fold (bounded_write (mo_max_stderr (mc_opts c))) (mw_stderr wd n) ([], False))
                    else []) in
      if detail \<noteq> []
      then GoErr (err_chain e) (''MCP process: '' @ err_text e @ '' (stderr: '' @ safe_diagnostic strip detail @ '')'')
      else wrap_with ''MCP process'' e)"

definition mcp_start :: "'n mcp_world \<Rightarrow> mcp_client \<Rightarrow> 'n \<Rightarrow> err option \<times> mcp_client \<times> 'n" where
  "mcp_start wd c n =
     (if mc_cmd c then (None, c, n)
      else
     (let c1 = c\<lparr>mc_cmd := True\<rparr> in
      case mw_pipe wd ''stdin'' n of
        (Some e, n1) \<Rightarrow> (Some (wrap_with ''open MCP stdin'' e), c1, n1)
      | (None, n1) \<Rightarrow>
     (case mw_pipe wd ''stdout'' n1 of
        (Some e, n2) \<Rightarrow> (Some (wrap_with ''open MCP stdout'' e), c1, n2)
      | (None, n2) \<Rightarrow>
     (case mw_pipe wd ''stderr'' n2 of
        (Some e, n3) \<Rightarrow> (Some (wrap_with ''open MCP stderr'' e), c1, n3)
      | (None, n3) \<Rightarrow>
     (case mw_spawn wd (mc_command c) n3 of
        (Some e, n4) \<Rightarrow> (Some (wrap_with ''start MCP process'' e), c1\<lparr>mc_stderr := True\<rparr>, n4)
      | (None, n4) \<Rightarrow> (None, c1\<lparr>mc_stderr := True, mc_stdin := True, mc_reading := True\<rparr>, n4))))))"

definition mcp_close ::
  "(string \<Rightarrow> string option) \<Rightarrow> 'n mcp_world \<Rightarrow> mcp_client \<Rightarrow> 'n \<Rightarrow> err option \<times> mcp_client \<times> 'n" where
  "mcp_close strip wd c n =
     (if \<not> mc_cmd c \<or> mc_closed c then (None, c, n)
      else (let c1 = c\<lparr>mc_closed := True\<rparr> in
        case mw_wait wd n of
          (Exited None, n1) \<Rightarrow> (None, c1, n1)
        | (Exited (Some e), n1) \<Rightarrow> (Some (process_error strip wd c e n1), c1, n1)
        | (Hung, n1) \<Rightarrow> (Some (new_err ''MCP process did not exit after stdin closed and was killed''), c1, n1)))"

definition mcp_reset :: "mcp_client \<Rightarrow> mcp_client" where
  "mcp_reset c = c\<lparr>mc_cmd := False, mc_stdin := False, mc_stderr := False, mc_reading := False, mc_closed := False\<rparr>"

section \<open>Calls\<close>

text \<open>A request; the number of a notification is 0 and is left out.\<close>

definition rpc_request :: "int \<Rightarrow> string \<Rightarrow> json \<Rightarrow> json" where
  "rpc_request i method params = JObj ([(''jsonrpc'', JStr ''2.0'')] @ opt_int ''id'' i
     @ [(''method'', JStr method), (''params'', params)])"

definition mcp_write ::
  "(string \<Rightarrow> string option) \<Rightarrow> 'n mcp_world \<Rightarrow> json \<Rightarrow> mcp_client \<Rightarrow> 'n \<Rightarrow> err option \<times> 'n" where
  "mcp_write strip wd m c n =
     (if \<not> mc_stdin c then (Some (new_err ''MCP process is not started''), n)
      else (case mw_write wd m n of
              (Some e, n1) \<Rightarrow> (Some (process_error strip wd c e n1), n1)
            | (None, n1) \<Rightarrow> (None, n1)))"

definition mcp_notify ::
  "(string \<Rightarrow> string option) \<Rightarrow> 'n mcp_world \<Rightarrow> string \<Rightarrow> json \<Rightarrow> mcp_client \<Rightarrow> 'n \<Rightarrow> err option \<times> 'n" where
  "mcp_notify strip wd method params = mcp_write strip wd (rpc_request 0 method params)"

text \<open>One line of the child: nothing, a line that cannot be decoded, or a response.\<close>

definition parse_response :: "json_reader \<Rightarrow> string \<Rightarrow> rpc_response res option" where
  "parse_response rv s =
     (if trim_space s = [] then None
      else Some (case unmarshal rv (trim_space s) of
             None \<Rightarrow> Inl (new_err ''decode MCP stdout: invalid JSON'')
           | Some j \<Rightarrow>
              (case into dec_rpc_response j zero_response of
                 None \<Rightarrow> Inl (new_err ''decode MCP stdout: invalid JSON'')
               | Some r \<Rightarrow> Inr r)))"

datatype call_error = RpcFailed rpc_error | CallFailed err

fun call_err :: "call_error \<Rightarrow> err" where
  "call_err (RpcFailed x) = GoErr [InMcpRpcError] (''MCP JSON-RPC error '' @ int_text (rx_code x) @ '': '' @ rx_message x)"
| "call_err (CallFailed e) = e"

definition answers :: "int \<Rightarrow> rpc_response \<Rightarrow> bool" where
  "answers i r = (rp_method r = [] \<and> (case rp_id r of None \<Rightarrow> False | Some j \<Rightarrow> dec_int 0 [j] = Some i))"

text \<open>What a response that answers the call gives.\<close>

definition take_response ::
  "string \<Rightarrow> (json \<Rightarrow> 'x \<Rightarrow> 'x option) \<Rightarrow> 'x \<Rightarrow> rpc_response \<Rightarrow> call_error + 'x" where
  "take_response method dec out r =
     (case rp_error r of
        Some x \<Rightarrow> Inl (RpcFailed x)
      | None \<Rightarrow>
         (case rp_result r of
            None \<Rightarrow> Inr out
          | Some j \<Rightarrow>
             (case dec j out of
                None \<Rightarrow> Inl (CallFailed (new_err (''decode MCP '' @ method @ '' result: invalid JSON'')))
              | Some v \<Rightarrow> Inr v)))"

text \<open>The \<open>select\<close> loop; the number is how many messages come before the deadline.\<close>

fun mcp_await ::
  "json_reader \<Rightarrow> (string \<Rightarrow> string option) \<Rightarrow> 'n mcp_world \<Rightarrow> bool \<Rightarrow> string \<Rightarrow> int \<Rightarrow> (json \<Rightarrow> 'x \<Rightarrow> 'x option) \<Rightarrow> 'x
     \<Rightarrow> nat \<Rightarrow> mcp_client \<Rightarrow> 'n \<Rightarrow> (call_error + 'x) \<times> mcp_client \<times> 'n"
where
  "mcp_await rv strip wd cancellable method i dec out 0 c n =
     (case mw_done wd n of
        (e, n1) \<Rightarrow>
          (Inl (CallFailed e), c,
           if cancellable then snd (mcp_notify strip wd ''notifications/cancelled''
             (JObj [(''reason'', JStr (err_text e)), (''requestId'', JNum (NInt i))]) c n1) else n1))"
| "mcp_await rv strip wd cancellable method i dec out (Suc left) c n =
     (if \<not> mc_reading c then mcp_await rv strip wd cancellable method i dec out left c n
      else
     (case mw_read wd n of
        (WireClosed, n1) \<Rightarrow>
          (Inl (CallFailed (process_error strip wd c (new_err ''EOF'') n1)), c\<lparr>mc_reading := False\<rparr>, n1)
      | (WireFailed e, n1) \<Rightarrow>
          (Inl (CallFailed (process_error strip wd c (wrap_with ''read MCP stdout'' e) n1)), c\<lparr>mc_reading := False\<rparr>, n1)
      | (WireLine s, n1) \<Rightarrow>
         (case parse_response rv s of
            None \<Rightarrow> mcp_await rv strip wd cancellable method i dec out left c n1
          | Some (Inl e) \<Rightarrow> (Inl (CallFailed (process_error strip wd c e n1)), c\<lparr>mc_reading := False\<rparr>, n1)
          | Some (Inr r) \<Rightarrow>
              if answers i r then (take_response method dec out r, c, n1)
              else mcp_await rv strip wd cancellable method i dec out left c n1)))"

definition mcp_call ::
  "json_reader \<Rightarrow> (string \<Rightarrow> string option) \<Rightarrow> 'n mcp_world \<Rightarrow> string \<Rightarrow> json \<Rightarrow> (json \<Rightarrow> 'x \<Rightarrow> 'x option) \<Rightarrow> 'x \<Rightarrow> bool
     \<Rightarrow> mcp_client \<Rightarrow> 'n \<Rightarrow> (call_error + 'x) \<times> mcp_client \<times> 'n"
where
  "mcp_call rv strip wd method params dec out cancellable c n =
     (if mc_closed c then (Inl (CallFailed (new_err ''MCP client is closed'')), c, n)
      else
     (let i = mc_next_id c + 1; c1 = c\<lparr>mc_next_id := i\<rparr> in
      case mcp_write strip wd (rpc_request i method params) c1 n of
        (Some e, n1) \<Rightarrow> (Inl (CallFailed e), c1, n1)
      | (None, n1) \<Rightarrow> mcp_await rv strip wd cancellable method i dec out (mw_patience wd n1) c1 n1))"

section \<open>Negotiation\<close>

definition client_info :: json where
  "client_info = JObj [(''name'', JStr ''syntroph''), (''version'', JStr ''dev'')]"

definition modern_metadata :: json where
  "modern_metadata = JObj [(''io.modelcontextprotocol/clientCapabilities'', JObj []),
     (''io.modelcontextprotocol/clientInfo'', client_info),
     (''io.modelcontextprotocol/protocolVersion'', JStr modernMCPVersion)]"

definition list_text :: "string list \<Rightarrow> string" where
  "list_text vs = ''['' @ join_with '' '' vs @ '']''"

definition protocol_err :: "string \<Rightarrow> err" where
  "protocol_err m = GoErr [InMcpProtocolError] m"

definition legacy_params :: json where
  "legacy_params = JObj [(''capabilities'', JObj []), (''clientInfo'', client_info),
     (''protocolVersion'', JStr legacyMCPVersion)]"

text \<open>The handshake of the older protocol, after the discovery failed with \<open>modern\<close>.\<close>

definition mcp_legacy ::
  "json_reader \<Rightarrow> (string \<Rightarrow> string option) \<Rightarrow> 'n mcp_world \<Rightarrow> err \<Rightarrow> mcp_client \<Rightarrow> 'n \<Rightarrow> err option \<times> mcp_client \<times> 'n" where
  "mcp_legacy rv strip wd modern c n =
     (case mcp_call rv strip wd ''initialize'' legacy_params (into dec_initialized) [] False c n of
        (Inl (RpcFailed x), c1, n1) \<Rightarrow>
          (Some (protocol_err (''legacy MCP initialize failed after modern discovery error '' @ err_text modern @ '': ''
             @ err_text (call_err (RpcFailed x)))), c1, n1)
      | (Inl (CallFailed e), c1, n1) \<Rightarrow>
          (Some (wrap_with (''negotiate MCP (modern discovery failed: '' @ err_text modern @ '')'') e), c1, n1)
      | (Inr v, c1, n1) \<Rightarrow>
          if v = [] then (Some (protocol_err ''legacy MCP initialize response omitted protocolVersion''), c1, n1)
          else
         (case mcp_notify strip wd ''notifications/initialized'' (JObj []) c1 n1 of
            (Some e, n2) \<Rightarrow> (Some e, c1, n2)
          | (None, n2) \<Rightarrow> (None, c1\<lparr>mc_modern := False, mc_version := v\<rparr>, n2)))"

definition now_modern :: "mcp_client \<Rightarrow> mcp_client" where
  "now_modern c = c\<lparr>mc_modern := True, mc_version := modernMCPVersion\<rparr>"

definition mcp_negotiate ::
  "json_reader \<Rightarrow> (string \<Rightarrow> string option) \<Rightarrow> 'n mcp_world \<Rightarrow> mcp_client \<Rightarrow> 'n \<Rightarrow> err option \<times> mcp_client \<times> 'n" where
  "mcp_negotiate rv strip wd c n =
     (case mcp_start wd c n of
        (Some e, c1, n1) \<Rightarrow> (Some e, c1, n1)
      | (None, c1, n1) \<Rightarrow>
     (case mcp_call rv strip wd ''server/discover'' (JObj [(''_meta'', modern_metadata)]) (into dec_versions) [] False c1 n1 of
        (Inr vs, c2, n2) \<Rightarrow>
          if modernMCPVersion \<notin> set vs
          then (Some (protocol_err (''modern MCP server does not support '' @ modernMCPVersion @ '' (advertised '' @ list_text vs @ '')'')), c2, n2)
          else (None, now_modern c2, n2)
      | (Inl (RpcFailed x), c2, n2) \<Rightarrow>
          if rx_code x = - 32022 then
            (if modernMCPVersion \<in> set (supported_versions (rx_data x)) then (None, now_modern c2, n2)
             else (Some (protocol_err (''modern MCP server rejected '' @ modernMCPVersion @ '' and advertised ''
                    @ list_text (supported_versions (rx_data x)))), c2, n2))
          else mcp_legacy rv strip wd (call_err (RpcFailed x)) c2 n2
      | (Inl (CallFailed e), c2, n2) \<Rightarrow>
          if errors_is e DeadlineExceeded then
            (case mcp_close strip wd c2 n2 of
               (u, c3, n3) \<Rightarrow>
            (case mcp_start wd (mcp_reset c3) n3 of
               (Some e', c4, n4) \<Rightarrow> (Some e', c4, n4)
             | (None, c4, n4) \<Rightarrow> mcp_legacy rv strip wd e c4 n4))
          else mcp_legacy rv strip wd e c2 n2))"

section \<open>Tools\<close>

text \<open>The entries of \<open>_meta\<close> and of the parameters, in the order in which a map is written.\<close>

definition mcp_params :: "mcp_client \<Rightarrow> (string \<times> json) list \<Rightarrow> json" where
  "mcp_params c kvs = JObj (map_build (kvs @ (if mc_modern c then [(''_meta'', modern_metadata)] else [])))"

text \<open>The listing follows the cursors of the server, so it may run forever: that is \<^term>\<open>None\<close>.\<close>

partial_function (option) mcp_list_tools ::
  "json_reader \<Rightarrow> (string \<Rightarrow> string option) \<Rightarrow> 'n mcp_world \<Rightarrow> string \<Rightarrow> mcp_tool list \<Rightarrow> mcp_client \<Rightarrow> 'n
     \<Rightarrow> (mcp_tool list res \<times> mcp_client \<times> 'n) option"
where
  "mcp_list_tools rv strip wd cursor ts c n =
     (let aw = mcp_call rv strip wd ''tools/list'' (mcp_params c (opt_str ''cursor'' cursor)) (into dec_tools_page) ([], []) True c n in
      case fst aw of
        Inl e \<Rightarrow> Some (Inl (call_err e), snd aw)
      | Inr page \<Rightarrow>
          if snd page = [] then Some (Inr (ts @ fst page), snd aw)
          else mcp_list_tools rv strip wd (snd page) (ts @ fst page) (fst (snd aw)) (snd (snd aw)))"

declare mcp_list_tools.simps [code]

definition tool_result_text :: "tool_result \<Rightarrow> string" where
  "tool_result_text r = join_with ''; ''
     (map (\<lambda>t. trim_space (tc_text t)) (filter (\<lambda>t. tc_type t = ''text'' \<and> trim_space (tc_text t) \<noteq> []) (tr_content r)))"

definition decode_payload :: "json_reader \<Rightarrow> (json \<Rightarrow> 'x \<Rightarrow> 'x option) \<Rightarrow> 'x \<Rightarrow> tool_result \<Rightarrow> 'x res" where
  "decode_payload rv dec out r =
     (if tr_structured r \<noteq> None \<and> tr_structured r \<noteq> Some JNull
      then (case dec (the (tr_structured r)) out of
              None \<Rightarrow> Inl (new_err ''decode MCP structured tool result: invalid JSON'')
            | Some v \<Rightarrow> Inr v)
      else
     (case List.map_filter (\<lambda>t. if tc_type t = ''text'' then unmarshal rv (trim_space (tc_text t)) else None) (tr_content r) of
        [j] \<Rightarrow> (case dec j out of
                  None \<Rightarrow> Inl (new_err ''decode MCP text tool result: invalid JSON'')
                | Some v \<Rightarrow> Inr v)
      | js \<Rightarrow> Inl (new_err (''MCP tool result requires exactly one JSON text payload, got '' @ nat_text (length js)))))"

text \<open>\<open>CallTool\<close>; the decoder is absent where the caller passes \<open>nil\<close>.\<close>

definition mcp_call_tool ::
  "json_reader \<Rightarrow> (string \<Rightarrow> string option) \<Rightarrow> 'n mcp_world \<Rightarrow> string \<Rightarrow> json \<Rightarrow> (json \<Rightarrow> 'x \<Rightarrow> 'x option) option \<Rightarrow> 'x
     \<Rightarrow> mcp_client \<Rightarrow> 'n \<Rightarrow> 'x res \<times> mcp_client \<times> 'n"
where
  "mcp_call_tool rv strip wd name args dec out c n =
     (case mcp_call rv strip wd ''tools/call'' (mcp_params c [(''arguments'', args), (''name'', JStr name)])
             (into dec_tool_result) zero_tool_result True c n of
        (Inl e, c1, n1) \<Rightarrow> (Inl (call_err e), c1, n1)
      | (Inr r, c1, n1) \<Rightarrow>
          ((if tr_is_error r
            then Inl (new_err (if tool_result_text r = [] then ''MCP tool returned isError'' else tool_result_text r))
            else (case dec of None \<Rightarrow> Inr out | Some d \<Rightarrow> decode_payload rv d out r)), c1, n1))"

end
