(* ===== verification/Mcp_Provider.thy ===== *)
theory Mcp_Provider
  imports Mcp_Client
begin

text \<open>
  \<open>adapters/githubissues/mcp.go\<close>: the Issues mirror over the tools of an MCP server. The provider keeps at most one
  client; outside a command a client lives for one operation. The loops over comments, Issues and tools follow the server, so they may run
  forever: that is \<^term>\<open>None\<close>, which the operations report as the error \<^term>\<open>endless_scan\<close>. A Go map is walked in the order of
  its keys here; the code walks it in no fixed order.
\<close>

section \<open>The provider\<close>

definition MCPProviderID :: string where "MCPProviderID = ''github-mcp''"

record 'n mcp =
  mq_repository :: string
  mq_owner :: string
  mq_repo :: string
  mq_command :: "string list"
  mq_opts :: mcp_options
  mq_world :: "'n mcp_world"
  mq_parse_time :: "string \<Rightarrow> int option"

record 'n mcpstate = store +
  mp_client :: "mcp_client option"
  mp_prepared :: bool
  mp_prepare_err :: "err option"
  mp_command_run :: bool
  mp_net :: 'n

definition new_mcp ::
  "string \<Rightarrow> string list \<Rightarrow> mcp_options \<Rightarrow> 'n mcp_world \<Rightarrow> (string \<Rightarrow> int option) \<Rightarrow> 'a store_scheme
     \<Rightarrow> 'n mcp res \<times> 'a store_scheme"
where
  "new_mcp repository command opts wd parse w =
     (let parts = split_on (CHR ''/'') repository in
      if length parts \<noteq> 2 \<or> trim_space (parts ! 0) = [] \<or> trim_space (parts ! 1) = []
      then (Inl (new_err ''GitHub Issues MCP repository must be owner/name''), w)
      else if command = [] \<or> trim_space (hd command) = []
      then (Inl (GoErr [ErrPrerequisiteMissing] ''storage prerequisite missing: storage.mcp.command is required''), w)
      else
     (case try_io w of
        (Some e, w1) \<Rightarrow> (Inl e, w1)
      | (None, w1) \<Rightarrow> (Inr \<lparr>mq_repository = repository, mq_owner = parts ! 0, mq_repo = parts ! 1, mq_command = command,
          mq_opts = opts, mq_world = wd, mq_parse_time = parse\<rparr>, w1)))"

section \<open>Failures\<close>

definition mcp_provider_err :: "string \<Rightarrow> string \<Rightarrow> err" where
  "mcp_provider_err class m =
     GoErr [InMcpProviderError, if class = FailurePrerequisite then ErrPrerequisiteMissing
                                else if class = FailureConflict then ErrConflict else ErrUnavailable] m"

text \<open>The class of the \<open>mcpProviderError\<close> that \<open>errors.As\<close> finds, read off the sentinel it unwraps to.\<close>

definition mcp_provider_class :: "err \<Rightarrow> sentinel option" where
  "mcp_provider_class e =
     (case dropWhile (\<lambda>x. x \<noteq> InMcpProviderError) (err_chain e) of _ # x # _ \<Rightarrow> Some x | _ \<Rightarrow> None)"

definition refusal_fragments :: "string list" where
  "refusal_fragments = [''unauthorized'', ''forbidden'', ''permission'', ''read-only'', ''readonly'', ''authentication'',
     ''not authenticated'', ''validation failed'', ''not found'']"

definition classify_mcp_error :: "err \<Rightarrow> string" where
  "classify_mcp_error e =
     (case mcp_provider_class e of
        Some x \<Rightarrow> if x = ErrPrerequisiteMissing then FailurePrerequisite
                  else if x = ErrConflict then FailureConflict else FailureTransient
      | None \<Rightarrow>
          if errors_is e ErrPrerequisiteMissing \<or> errors_is e InMcpProtocolError then FailurePrerequisite
          else if list_ex (contains_str (to_lower (err_text e))) refusal_fragments then FailurePrerequisite
          else if contains_str (to_lower (err_text e)) ''conflict'' then FailureConflict
          else FailureTransient)"

definition mcp_failed :: "storage_result \<Rightarrow> err \<Rightarrow> storage_result" where
  "mcp_failed r e =
     (let class = classify_mcp_error e in
      failed_with (if class = FailurePrerequisite then PrerequisiteMissing
                   else if class = FailureConflict then SyncConflict else SyncPending) class e r)"

definition mcp_not_found :: "err \<Rightarrow> bool" where
  "mcp_not_found e = contains_str (to_lower (err_text e)) ''not found''"

section \<open>The tools a server must have\<close>

record tool_requirement =
  tq_name :: string
  tq_properties :: "string list"
  tq_methods :: "string list"

definition required_tools :: "tool_requirement list" where
  "required_tools =
     [\<lparr>tq_name = ''add_issue_comment'', tq_properties = [''owner'', ''repo'', ''issue_number'', ''body''], tq_methods = []\<rparr>,
      \<lparr>tq_name = ''get_label'', tq_properties = [''owner'', ''repo'', ''name''], tq_methods = []\<rparr>,
      \<lparr>tq_name = ''issue_read'', tq_properties = [''owner'', ''repo'', ''method'', ''issue_number''],
        tq_methods = [''get'', ''get_comments'']\<rparr>,
      \<lparr>tq_name = ''issue_write'',
        tq_properties = [''owner'', ''repo'', ''method'', ''title'', ''body'', ''labels'', ''issue_number'', ''state'', ''state_reason''],
        tq_methods = [''create'', ''update'']\<rparr>,
      \<lparr>tq_name = ''label_write'', tq_properties = [''owner'', ''repo'', ''method'', ''name'', ''color'', ''description''],
        tq_methods = [''create'', ''update'']\<rparr>,
      \<lparr>tq_name = ''list_issues'', tq_properties = [''owner'', ''repo'', ''state'', ''labels'', ''after''], tq_methods = []\<rparr>]"

text \<open>\<open>schemaProperties\<close>: the entries of every \<open>properties\<close> object at any depth; a later one replaces an earlier one.\<close>

primrec walk_properties :: "goval \<Rightarrow> (string \<times> goval) list" where
  "walk_properties GNil = []"
| "walk_properties (GBool b) = []"
| "walk_properties (GFloat n) = []"
| "walk_properties (GNumber n) = []"
| "walk_properties (GStr s) = []"
| "walk_properties (GList xs) = concat (map walk_properties xs)"
| "walk_properties (GMap kvs) =
     (case map_of kvs ''properties'' of Some (GMap ps) \<Rightarrow> ps | _ \<Rightarrow> [])
       @ concat (map snd (map (map_prod id walk_properties) kvs))"

definition schema_properties :: "(string \<times> goval) list \<Rightarrow> (string \<times> goval) list" where
  "schema_properties s = rev (walk_properties (GMap s))"

primrec walk_methods :: "goval \<Rightarrow> string list" where
  "walk_methods GNil = []"
| "walk_methods (GBool b) = []"
| "walk_methods (GFloat n) = []"
| "walk_methods (GNumber n) = []"
| "walk_methods (GStr s) = []"
| "walk_methods (GList xs) = concat (map walk_methods xs)"
| "walk_methods (GMap kvs) =
     (case map_of kvs ''enum'' of
        Some (GList vs) \<Rightarrow> List.map_filter (\<lambda>v. case v of GStr m \<Rightarrow> Some m | _ \<Rightarrow> None) vs
      | _ \<Rightarrow> [])
       @ (case map_of kvs ''const'' of Some (GStr m) \<Rightarrow> [m] | _ \<Rightarrow> [])
       @ concat (map snd (map (map_prod id walk_methods) kvs))"

definition schema_method_enums :: "(string \<times> goval) list \<Rightarrow> string list" where
  "schema_method_enums s = (case map_of (schema_properties s) ''method'' of None \<Rightarrow> [] | Some v \<Rightarrow> walk_methods v)"

definition tool_problems :: "mcp_tool list \<Rightarrow> tool_requirement \<Rightarrow> string list" where
  "tool_problems tools q =
     (case map_of (rev (map (\<lambda>t. (mt_name t, t)) tools)) (tq_name q) of
        None \<Rightarrow> [''missing '' @ tq_name q]
      | Some t \<Rightarrow>
          map (\<lambda>p. tq_name q @ '' schema lacks '' @ p)
            (filter (\<lambda>p. p \<notin> fst ` set (schema_properties (mt_schema t))) (tq_properties q))
          @ map (\<lambda>m. tq_name q @ '' schema lacks method='' @ m)
              (filter (\<lambda>m. m \<notin> set (schema_method_enums (mt_schema t))) (tq_methods q)))"

definition validate_tools :: "mcp_tool list \<Rightarrow> string option" where
  "validate_tools tools =
     (let problems = concat (map (tool_problems tools) required_tools) in
      if problems = [] then None
      else Some (''MCP server lacks required GitHub issue capabilities ('' @ join_with ''; '' problems
        @ ''); configure the official server with toolsets issues,labels and non-interactive provider-owned authentication''))"

section \<open>The life of a client\<close>

definition reset_client :: "('n, 'a) mcpstate_scheme \<Rightarrow> ('n, 'a) mcpstate_scheme" where
  "reset_client w = w\<lparr>mp_client := None, mp_prepare_err := None, mp_prepared := False\<rparr>"

definition close_client ::
  "(string \<Rightarrow> string option) \<Rightarrow> 'n mcp \<Rightarrow> ('n, 'a) mcpstate_scheme \<Rightarrow> err option \<times> ('n, 'a) mcpstate_scheme" where
  "close_client strip p w =
     (case mp_client w of
        None \<Rightarrow> (None, reset_client w)
      | Some c \<Rightarrow> (case mcp_close strip (mq_world p) c (mp_net w) of
                   (e, c1, n1) \<Rightarrow> (e, reset_client (w\<lparr>mp_net := n1\<rparr>))))"

text \<open>A client that is started, has agreed on a protocol and has the tools.\<close>

definition connect ::
  "json_reader \<Rightarrow> (string \<Rightarrow> string option) \<Rightarrow> 'n mcp \<Rightarrow> mcp_client \<Rightarrow> 'n \<Rightarrow> err option \<times> mcp_client \<times> 'n" where
  "connect rv strip p c n =
     (case mcp_negotiate rv strip (mq_world p) c n of
        (Some e, c1, n1) \<Rightarrow> (Some e, c1, n1)
      | (None, c1, n1) \<Rightarrow>
         (case mcp_list_tools rv strip (mq_world p) [] [] c1 n1 of
            None \<Rightarrow> (Some endless_scan, c1, n1)
          | Some (Inl e, c2, n2) \<Rightarrow> (Some e, c2, n2)
          | Some (Inr tools, c2, n2) \<Rightarrow> (map_option (mcp_provider_err FailurePrerequisite) (validate_tools tools), c2, n2)))"

definition mcp_prepare ::
  "json_reader \<Rightarrow> (string \<Rightarrow> string option) \<Rightarrow> 'n mcp \<Rightarrow> ('n, 'a) mcpstate_scheme \<Rightarrow> err option \<times> ('n, 'a) mcpstate_scheme" where
  "mcp_prepare rv strip p w =
     (if mp_prepared w then (mp_prepare_err w, w)
      else
     (case new_mcp_client (mq_command p) (mq_opts p) of
        Inl e \<Rightarrow> (Some e, w\<lparr>mp_prepared := True, mp_prepare_err := Some e\<rparr>)
      | Inr c \<Rightarrow>
         (case connect rv strip p c (mp_net w) of
            (Some e, c1, n1) \<Rightarrow>
              (Some e, w\<lparr>mp_prepared := True, mp_prepare_err := Some e,
                 mp_net := snd (snd (mcp_close strip (mq_world p) c1 n1))\<rparr>)
          | (None, c1, n1) \<Rightarrow> (None, w\<lparr>mp_prepared := True, mp_client := Some c1, mp_net := n1\<rparr>))))"

definition mcp_base :: "(string \<Rightarrow> string) \<Rightarrow> remote_diary \<Rightarrow> storage_result" where
  "mcp_base sha d = zero_result\<lparr>sr_backend := BackendIssues, sr_provider := MCPProviderID,
     sr_key := diary_key sha d, sr_local_hash := content_hash sha (rd_content d)\<rparr>"

definition mcp_run ::
  "json_reader \<Rightarrow> (string \<Rightarrow> string option) \<Rightarrow> 'n mcp \<Rightarrow> storage_result
     \<Rightarrow> (('n, 'a) mcpstate_scheme \<Rightarrow> storage_result \<times> ('n, 'a) mcpstate_scheme)
     \<Rightarrow> ('n, 'a) mcpstate_scheme \<Rightarrow> storage_result \<times> ('n, 'a) mcpstate_scheme"
where
  "mcp_run rv strip p base op w =
     (case mcp_prepare rv strip p w of
        (Some e, w1) \<Rightarrow> (mcp_failed base e, if mp_command_run w1 then w1 else reset_client w1)
      | (None, w1) \<Rightarrow>
         (case op w1 of
            (r, w2) \<Rightarrow>
              if mp_command_run w2 then (r, w2)
              else (case close_client strip p w2 of
                      (Some e, w3) \<Rightarrow> (if sr_cause r = None then failed_with SyncPending FailureTransient e r else r, w3)
                    | (None, w3) \<Rightarrow> (r, w3))))"

definition begin_command :: "('n, 'a) mcpstate_scheme \<Rightarrow> ('n, 'a) mcpstate_scheme" where
  "begin_command w = w\<lparr>mp_command_run := True\<rparr>"

definition end_command ::
  "(string \<Rightarrow> string option) \<Rightarrow> 'n mcp \<Rightarrow> ('n, 'a) mcpstate_scheme \<Rightarrow> err option \<times> ('n, 'a) mcpstate_scheme" where
  "end_command strip p w = close_client strip p (w\<lparr>mp_command_run := False\<rparr>)"

section \<open>Operations\<close>

text \<open>An operation of the client; without one the code dereferences a nil pointer.\<close>

definition nil_client :: err where
  "nil_client = new_err ''invalid memory address or nil pointer dereference''"

definition on_client ::
  "(mcp_client \<Rightarrow> 'n \<Rightarrow> 'x res \<times> mcp_client \<times> 'n) \<Rightarrow> ('n, 'a) mcpstate_scheme \<Rightarrow> 'x res \<times> ('n, 'a) mcpstate_scheme" where
  "on_client f w =
     (case mp_client w of
        None \<Rightarrow> (Inl nil_client, w)
      | Some c \<Rightarrow> (case f c (mp_net w) of (x, c1, n1) \<Rightarrow> (x, w\<lparr>mp_client := Some c1, mp_net := n1\<rparr>)))"

definition mcp_args :: "'n mcp \<Rightarrow> (string \<times> json) list \<Rightarrow> json" where
  "mcp_args p kvs = JObj (map_build (kvs @ [(''owner'', JStr (mq_owner p)), (''repo'', JStr (mq_repo p))]))"

definition tool ::
  "json_reader \<Rightarrow> (string \<Rightarrow> string option) \<Rightarrow> 'n mcp \<Rightarrow> string \<Rightarrow> (string \<times> json) list \<Rightarrow> (json \<Rightarrow> 'x \<Rightarrow> 'x option) option \<Rightarrow> 'x
     \<Rightarrow> ('n, 'a) mcpstate_scheme \<Rightarrow> 'x res \<times> ('n, 'a) mcpstate_scheme"
where
  "tool rv strip p name kvs dec out = on_client (mcp_call_tool rv strip (mq_world p) name (mcp_args p kvs) dec out)"

fun mcp_ensure_labels ::
  "json_reader \<Rightarrow> (string \<Rightarrow> string option) \<Rightarrow> 'n mcp \<Rightarrow> label list \<Rightarrow> ('n, 'a) mcpstate_scheme
     \<Rightarrow> err option \<times> ('n, 'a) mcpstate_scheme"
where
  "mcp_ensure_labels rv strip p [] w = (None, w)"
| "mcp_ensure_labels rv strip p (l # ls) w =
     (case tool rv strip p ''get_label'' [(''name'', JStr (la_name l))] (Some (into dec_label)) zero_label w of
        (got, w1) \<Rightarrow>
          (case (case got of
                   Inl e \<Rightarrow> if mcp_not_found e then Inr ''create'' else Inl e
                 | Inr g \<Rightarrow> Inr (if \<not> equal_fold (la_color g) (la_color l) \<or> la_description g \<noteq> la_description l
                              then ''update'' else [])) of
             Inl e \<Rightarrow> (Some e, w1)
           | Inr method \<Rightarrow>
               if method = [] then mcp_ensure_labels rv strip p ls w1
               else
              (case tool rv strip p ''label_write'' [(''method'', JStr method), (''name'', JStr (la_name l)),
                      (''color'', JStr (la_color l)), (''description'', JStr (la_description l))] None () w1 of
                 (Inl e, w2) \<Rightarrow> (Some e, w2)
               | (Inr u, w2) \<Rightarrow> mcp_ensure_labels rv strip p ls w2)))"

definition mcp_create_issue ::
  "json_reader \<Rightarrow> (string \<Rightarrow> string option) \<Rightarrow> (string \<Rightarrow> string) \<Rightarrow> 'n mcp \<Rightarrow> remote_diary \<Rightarrow> ('n, 'a) mcpstate_scheme
     \<Rightarrow> issue res \<times> ('n, 'a) mcpstate_scheme"
where
  "mcp_create_issue rv strip sha p d w =
     (case (if diary_date (mq_parse_time p) (rd_content d) \<noteq> [] then (diary_date (mq_parse_time p) (rd_content d), w)
            else (case time_now w of (t, w0) \<Rightarrow> (date_text t, w0))) of
        (date, w1) \<Rightarrow>
          tool rv strip p ''issue_write''
            [(''method'', JStr ''create''), (''title'', JStr (''[Syntroph] '' @ date @ '' '' @ em_dash @ '' '' @ rd_session_id d)),
             (''body'', JStr (diary_body (rd_content d) (diary_key sha d))),
             (''labels'', JArr [JStr ''syntroph-memory'', JStr ''syntroph-session''])] (Some (into dec_issue)) zero_issue w1)"

definition mcp_close_issue ::
  "json_reader \<Rightarrow> (string \<Rightarrow> string option) \<Rightarrow> 'n mcp \<Rightarrow> int \<Rightarrow> ('n, 'a) mcpstate_scheme \<Rightarrow> issue res \<times> ('n, 'a) mcpstate_scheme" where
  "mcp_close_issue rv strip p n =
     tool rv strip p ''issue_write'' [(''method'', JStr ''update''), (''issue_number'', JNum (NInt n)), (''state'', JStr ''closed''),
       (''state_reason'', JStr ''completed'')] (Some (into dec_issue)) zero_issue"

definition invalid_number :: err where
  "invalid_number = new_err ''remote binding contains an invalid Issue number''"

definition mcp_get_issue ::
  "json_reader \<Rightarrow> (string \<Rightarrow> string option) \<Rightarrow> 'n mcp \<Rightarrow> string \<Rightarrow> ('n, 'a) mcpstate_scheme \<Rightarrow> issue res \<times> ('n, 'a) mcpstate_scheme" where
  "mcp_get_issue rv strip p i w =
     (case atoi i of
        None \<Rightarrow> (Inl invalid_number, w)
      | Some n \<Rightarrow> tool rv strip p ''issue_read'' [(''method'', JStr ''get''), (''issue_number'', JNum (NInt n))]
          (Some (into dec_issue)) zero_issue w)"

definition mcp_create_correction ::
  "json_reader \<Rightarrow> (string \<Rightarrow> string option) \<Rightarrow> (string \<Rightarrow> string) \<Rightarrow> 'n mcp \<Rightarrow> int \<Rightarrow> remote_diary \<Rightarrow> string \<Rightarrow> ('n, 'a) mcpstate_scheme
     \<Rightarrow> issue_comment res \<times> ('n, 'a) mcpstate_scheme"
where
  "mcp_create_correction rv strip sha p n d predecessor =
     tool rv strip p ''add_issue_comment'' [(''issue_number'', JNum (NInt n)),
       (''body'', JStr (correction_body sha (rd_content d) (diary_key sha d) predecessor))] (Some (into dec_comment)) zero_comment"

definition dec_comments :: "(string \<times> json) list \<Rightarrow> issue_comment list \<Rightarrow> issue_comment list option" where
  "dec_comments kvs d = dec_slice (elem zero_comment dec_comment) d (field_values ''comments'' kvs)"

text \<open>\<open>listComments\<close>: page after page until one is not full.\<close>

partial_function (option) mcp_list_comments ::
  "json_reader \<Rightarrow> (string \<Rightarrow> string option) \<Rightarrow> 'n mcp \<Rightarrow> int \<Rightarrow> int \<Rightarrow> issue_comment list \<Rightarrow> ('n, 'a) mcpstate_scheme
     \<Rightarrow> (issue_comment list res \<times> ('n, 'a) mcpstate_scheme) option"
where
  "mcp_list_comments rv strip p n page cs w =
     (let aw = tool rv strip p ''issue_read'' [(''method'', JStr ''get_comments''), (''issue_number'', JNum (NInt n)),
                 (''page'', JNum (NInt page)), (''perPage'', JNum (NInt 100))] (Some (into dec_comments)) [] w in
      case fst aw of
        Inl e \<Rightarrow> Some (Inl e, snd aw)
      | Inr ds \<Rightarrow>
          if length ds < 100 then Some (Inr (cs @ ds), snd aw)
          else mcp_list_comments rv strip p n (page + 1) (cs @ ds) (snd aw))"

declare mcp_list_comments.simps [code]

definition list_comments ::
  "json_reader \<Rightarrow> (string \<Rightarrow> string option) \<Rightarrow> 'n mcp \<Rightarrow> int \<Rightarrow> ('n, 'a) mcpstate_scheme
     \<Rightarrow> issue_comment list res \<times> ('n, 'a) mcpstate_scheme" where
  "list_comments rv strip p n w = scanned w (mcp_list_comments rv strip p n 1 [] w)"

definition mcp_find_correction ::
  "json_reader \<Rightarrow> (string \<Rightarrow> string option) \<Rightarrow> (string \<Rightarrow> string) \<Rightarrow> 'n mcp \<Rightarrow> int \<Rightarrow> remote_diary \<Rightarrow> string \<Rightarrow> ('n, 'a) mcpstate_scheme
     \<Rightarrow> issue_comment res \<times> ('n, 'a) mcpstate_scheme"
where
  "mcp_find_correction rv strip sha p n d predecessor w =
     (case list_comments rv strip p n w of
        (Inl e, w1) \<Rightarrow> (Inl e, w1)
      | (Inr cs, w1) \<Rightarrow>
          ((case find (correction_matches sha d predecessor) cs of Some c \<Rightarrow> Inr c | None \<Rightarrow> Inl issue_not_found), w1))"

record issue_page =
  ip_issues :: "issue list"
  ip_next :: string
  ip_has_next :: bool
  ip_page_next :: string
  ip_end :: string

definition zero_page :: issue_page where
  "zero_page = \<lparr>ip_issues = [], ip_next = [], ip_has_next = False, ip_page_next = [], ip_end = []\<rparr>"

definition dec_page_info :: "(string \<times> json) list \<Rightarrow> issue_page \<Rightarrow> issue_page option" where
  "dec_page_info kvs d =
     (case (dec_bool (ip_has_next d) (field_values ''hasNextPage'' kvs), dec_string (ip_page_next d) (field_values ''nextCursor'' kvs),
            dec_string (ip_end d) (field_values ''endCursor'' kvs))
      of (Some h, Some c, Some e) \<Rightarrow> Some (d\<lparr>ip_has_next := h, ip_page_next := c, ip_end := e\<rparr>) | _ \<Rightarrow> None)"

definition dec_issue_page :: "(string \<times> json) list \<Rightarrow> issue_page \<Rightarrow> issue_page option" where
  "dec_issue_page kvs d =
     (case (dec_slice (elem zero_issue dec_issue) (ip_issues d) (field_values ''issues'' kvs),
            dec_string (ip_next d) (field_values ''nextCursor'' kvs),
            dec_struct dec_page_info d (field_values ''pageInfo'' kvs))
      of (Some is', Some c, Some q) \<Rightarrow> Some (q\<lparr>ip_issues := is', ip_next := c\<rparr>) | _ \<Rightarrow> None)"

definition page_cursor :: "issue_page \<Rightarrow> string" where
  "page_cursor q =
     (if ip_next q \<noteq> [] then ip_next q
      else if ip_has_next q then (if ip_page_next q \<noteq> [] then ip_page_next q else ip_end q) else [])"

partial_function (option) mcp_scan_issues ::
  "json_reader \<Rightarrow> (string \<Rightarrow> string option) \<Rightarrow> 'n mcp \<Rightarrow> string \<Rightarrow> string \<Rightarrow> ('n, 'a) mcpstate_scheme
     \<Rightarrow> (issue res \<times> ('n, 'a) mcpstate_scheme) option"
where
  "mcp_scan_issues rv strip p key after w =
     (let aw = tool rv strip p ''list_issues'' ([(''state'', JStr ''closed''),
                 (''labels'', JArr [JStr ''syntroph-memory'', JStr ''syntroph-session''])] @ opt_str ''after'' after)
                 (Some (into dec_issue_page)) zero_page w in
      case fst aw of
        Inl e \<Rightarrow> Some (Inl e, snd aw)
      | Inr q \<Rightarrow>
         (case find (marked_issue key) (ip_issues q) of
            Some i \<Rightarrow> Some (Inr i, snd aw)
          | None \<Rightarrow>
              if page_cursor q = [] then Some (Inl issue_not_found, snd aw)
              else mcp_scan_issues rv strip p key (page_cursor q) (snd aw)))"

declare mcp_scan_issues.simps [code]

definition mcp_find_marked ::
  "json_reader \<Rightarrow> (string \<Rightarrow> string option) \<Rightarrow> 'n mcp \<Rightarrow> string \<Rightarrow> ('n, 'a) mcpstate_scheme \<Rightarrow> issue res \<times> ('n, 'a) mcpstate_scheme" where
  "mcp_find_marked rv strip p key w = scanned w (mcp_scan_issues rv strip p key [] w)"

section \<open>The effective remote\<close>

definition comment_with_id :: "string \<Rightarrow> issue_comment list \<Rightarrow> issue_comment option" where
  "comment_with_id i cs = find (\<lambda>c. int_text (co_id c) = i) cs"

definition mcp_predecessor ::
  "json_reader \<Rightarrow> (string \<Rightarrow> string option) \<Rightarrow> (string \<Rightarrow> string) \<Rightarrow> 'n mcp \<Rightarrow> remote_binding \<Rightarrow> issue_comment list \<Rightarrow> string
     \<Rightarrow> ('n, 'a) mcpstate_scheme \<Rightarrow> (effective_remote \<times> bool) res \<times> ('n, 'a) mcpstate_scheme"
where
  "mcp_predecessor rv strip sha p b cs revision w =
     (if has_prefix ''issue:'' revision then
        (case mcp_get_issue rv strip p (rb_remote_id b) w of
           (Inl e, w1) \<Rightarrow> (Inl e, w1)
         | (Inr i, w1) \<Rightarrow> (Inr (effective_issue sha (rb_key b) i, issue_revision sha i = revision), w1))
      else if has_prefix ''comment:'' revision then
        ((case revision_id revision ''comment'' of
            Inl e \<Rightarrow> Inl e
          | Inr n \<Rightarrow>
             (case comment_with_id n cs of
                None \<Rightarrow> Inl issue_not_found
              | Some c \<Rightarrow> Inr (effective_comment sha (rb_key b) c, comment_revision sha c = revision))), w)
      else (Inl (new_err ''correction predecessor has an unsupported remote revision''), w))"

definition mcp_effective ::
  "json_reader \<Rightarrow> (string \<Rightarrow> string option) \<Rightarrow> (string \<Rightarrow> string) \<Rightarrow> 'n mcp \<Rightarrow> remote_binding \<Rightarrow> ('n, 'a) mcpstate_scheme
     \<Rightarrow> effective_remote res \<times> ('n, 'a) mcpstate_scheme"
where
  "mcp_effective rv strip sha p b w =
     (if has_prefix ''comment:'' (rb_revision b) then
        (case revision_id (rb_revision b) ''comment'' of
           Inl e \<Rightarrow> (Inl e, w)
         | Inr i \<Rightarrow>
        (case atoi (rb_remote_id b) of
           None \<Rightarrow> (Inl invalid_number, w)
         | Some n \<Rightarrow>
        (case list_comments rv strip p n w of
           (Inl e, w1) \<Rightarrow> (Inl e, w1)
         | (Inr cs, w1) \<Rightarrow>
        (case comment_with_id i cs of
           None \<Rightarrow> (Inl issue_not_found, w1)
         | Some c \<Rightarrow>
        (case parse_correction sha (co_body c) (rb_key b) of
           None \<Rightarrow> (Inr (effective_comment sha (rb_key b) c), w1)
         | Some m \<Rightarrow>
        (case mcp_predecessor rv strip sha p b cs (cm_predecessor m) w1 of
           (Inl e, w2) \<Rightarrow> (Inl e, w2)
         | (Inr (before, matches), w2) \<Rightarrow>
             (Inr (if matches then effective_comment sha (rb_key b) c else before), w2)))))))
      else
        (case mcp_get_issue rv strip p (rb_remote_id b) w of
           (Inl e, w1) \<Rightarrow> (Inl e, w1)
         | (Inr i, w1) \<Rightarrow> (Inr (effective_issue sha (rb_key b) i), w1)))"

section \<open>The provider as the shared semantics takes it\<close>

definition mcp_operations ::
  "json_reader \<Rightarrow> (string \<Rightarrow> string option) \<Rightarrow> (string \<Rightarrow> string) \<Rightarrow> 'n mcp \<Rightarrow> ('n, 'a) mcpstate_scheme issue_operations" where
  "mcp_operations rv strip sha p =
     \<lparr>io_ensure_labels = mcp_ensure_labels rv strip p reserved_labels, io_create_issue = mcp_create_issue rv strip sha p,
      io_close_issue = mcp_close_issue rv strip p, io_get_issue = mcp_get_issue rv strip p,
      io_effective = mcp_effective rv strip sha p, io_find_correction = mcp_find_correction rv strip sha p,
      io_create_correction = mcp_create_correction rv strip sha p, io_find_marked = mcp_find_marked rv strip p,
      io_failed = mcp_failed\<rparr>"

definition mcp_semantics ::
  "json_reader \<Rightarrow> (string \<Rightarrow> string option) \<Rightarrow> (string \<Rightarrow> string) \<Rightarrow> 'n mcp \<Rightarrow> ('n, 'a) mcpstate_scheme issue_semantics" where
  "mcp_semantics rv strip sha p = \<lparr>se_provider = MCPProviderID, se_ops = mcp_operations rv strip sha p\<rparr>"

definition mcp_mirror ::
  "json_reader \<Rightarrow> (string \<Rightarrow> string option) \<Rightarrow> (string \<Rightarrow> string) \<Rightarrow> 'n mcp \<Rightarrow> bool \<Rightarrow> remote_diary \<Rightarrow> ('n, 'a) mcpstate_scheme
     \<Rightarrow> storage_result \<times> ('n, 'a) mcpstate_scheme"
where
  "mcp_mirror rv strip sha p recovery d w =
     (case validate_diary d of
        Some e \<Rightarrow> (pending (mcp_base sha d) e, w)
      | None \<Rightarrow> mcp_run rv strip p (mcp_base sha d) (issue_mirror sha (mcp_semantics rv strip sha p) recovery d) w)"

definition mcp_status ::
  "json_reader \<Rightarrow> (string \<Rightarrow> string option) \<Rightarrow> (string \<Rightarrow> string) \<Rightarrow> 'n mcp \<Rightarrow> remote_diary \<Rightarrow> ('n, 'a) mcpstate_scheme
     \<Rightarrow> storage_result \<times> ('n, 'a) mcpstate_scheme"
where
  "mcp_status rv strip sha p d = mcp_run rv strip p (mcp_base sha d) (issue_status sha (mcp_semantics rv strip sha p) d)"

definition mcp_resolve ::
  "json_reader \<Rightarrow> (string \<Rightarrow> string option) \<Rightarrow> (string \<Rightarrow> string) \<Rightarrow> 'n mcp \<Rightarrow> remote_diary \<Rightarrow> string \<Rightarrow> string \<Rightarrow> ('n, 'a) mcpstate_scheme
     \<Rightarrow> storage_result \<times> ('n, 'a) mcpstate_scheme"
where
  "mcp_resolve rv strip sha p d choice observed =
     mcp_run rv strip p (mcp_base sha d) (issue_resolve sha (mcp_semantics rv strip sha p) d choice observed)"

definition mcp_provider ::
  "json_reader \<Rightarrow> (string \<Rightarrow> string option) \<Rightarrow> (string \<Rightarrow> string) \<Rightarrow> 'n mcp \<Rightarrow> ('n, 'a) mcpstate_scheme provider" where
  "mcp_provider rv strip sha p =
     \<lparr>pv_mirror = mcp_mirror rv strip sha p False, pv_status = mcp_status rv strip sha p, pv_resolve = mcp_resolve rv strip sha p,
      pv_create = None, pv_mirror_bound = None, pv_recover = Some (mcp_mirror rv strip sha p True)\<rparr>"

end
