(* ===== verification/Mcp_Facts.thy ===== *)
theory Mcp_Facts
  imports Mcp_Provider
begin

text \<open>
  Properties of the Issues mirror over MCP: it is a transport of the shared semantics and a provider of the managed mirror, a
  call only takes the answer to its own request, a child lives as long as its command or its operation, and a created Issue is
  bound.
\<close>

section \<open>The transport touches no local store\<close>

text \<open>What a call of a tool does to the state does not depend on what its payload is decoded to.\<close>

lemma tool_cases:
  assumes "tool rv strip p name kvs dec out w = (r, w')"
  shows "w' = w \<or> (\<exists>c q c1 n1. mp_client w = Some c
     \<and> snd (mcp_call rv strip (mq_world p) ''tools/call'' q (into dec_tool_result) zero_tool_result True c (mp_net w)) = (c1, n1)
     \<and> w' = w\<lparr>mp_client := Some c1, mp_net := n1\<rparr>)"
proof (cases "mp_client w")
  case None
  with assms show ?thesis by (auto simp: tool_def on_client_def)
next
  case (Some c)
  let ?q = "mcp_params c [(''arguments'', mcp_args p kvs), (''name'', JStr name)]"
  obtain x c1 n1 where 1: "mcp_call rv strip (mq_world p) ''tools/call'' ?q (into dec_tool_result) zero_tool_result True c (mp_net w)
      = (x, c1, n1)"
    by (metis prod_cases3)
  then have "w' = w\<lparr>mp_client := Some c1, mp_net := n1\<rparr>"
    using assms Some by (cases x) (auto simp: tool_def on_client_def mcp_call_tool_def)
  moreover from 1 have "snd (mcp_call rv strip (mq_world p) ''tools/call'' ?q (into dec_tool_result) zero_tool_result True c
      (mp_net w)) = (c1, n1)" by simp
  ultimately show ?thesis using Some by blast
qed

text \<open>
  A relation of the states before and after that holds of every call of a tool and is kept by a sequence holds of
  every operation of the transport.
\<close>

locale tool_relation =
  fixes rv :: json_reader and strip :: "string \<Rightarrow> string option" and p :: "'n mcp"
    and R :: "('n, 'a) mcpstate_scheme \<Rightarrow> ('n, 'a) mcpstate_scheme \<Rightarrow> bool"
  assumes related_refl: "R w w"
    and related_trans: "R u v \<Longrightarrow> R v w \<Longrightarrow> R u w"
    and clock_related: "time_now w = (t, w') \<Longrightarrow> R w w'"
    and call_related: "mp_client w = Some c \<Longrightarrow>
      snd (mcp_call rv strip (mq_world p) ''tools/call'' q (into dec_tool_result) zero_tool_result True c (mp_net w)) = (c1, n1) \<Longrightarrow>
      R w (w\<lparr>mp_client := Some c1, mp_net := n1\<rparr>)"
begin

lemma client_related: "tool rv strip p name kvs dec out w = (x, w') \<Longrightarrow> R w w'"
  by (drule tool_cases) (auto intro: related_refl call_related)

lemma tool_related: "R w (snd (tool rv strip p name kvs dec out w))"
  by (metis client_related prod.collapse)

lemma labels_related: "mcp_ensure_labels rv strip p ls w = (e, w') \<Longrightarrow> R w w'"
proof (induction ls arbitrary: w)
  case Nil
  then show ?case by (simp add: related_refl)
next
  case (Cons l ls)
  from Cons.prems show ?case
    by (auto split: prod.splits sum.splits if_splits dest!: client_related Cons.IH intro: related_trans)
qed

lemma create_related: "mcp_create_issue rv strip sha p d w = (x, w') \<Longrightarrow> R w w'"
  unfolding mcp_create_issue_def
  by (auto split: prod.splits if_splits dest!: client_related clock_related intro: related_trans related_refl)

lemma get_related: "mcp_get_issue rv strip p i w = (x, w') \<Longrightarrow> R w w'"
  unfolding mcp_get_issue_def by (auto split: option.splits dest: client_related intro: related_refl)

lemma pages_related: "mcp_list_comments rv strip p n page cs w = Some y \<Longrightarrow> R w (snd y)"
proof -
  assume run: "mcp_list_comments rv strip p n page cs w = Some y"
  have "rv0 = rv \<and> strip0 = strip \<and> p0 = p \<longrightarrow> R w0 (snd y0)"
    if "mcp_list_comments rv0 strip0 p0 n0 page0 cs0 w0 = Some y0" for rv0 strip0 p0 n0 page0 cs0 w0 y0
  proof (rule mcp_list_comments.raw_induct [OF _ that, where
      P = "\<lambda>rv0 strip0 p0 n0 page0 cs0 w0 y0. rv0 = rv \<and> strip0 = strip \<and> p0 = p \<longrightarrow> R w0 (snd y0)"], goal_cases)
    case (1 self rv0 strip0 p0 n0 page0 cs0 w0 y0)
    from 1(2) show ?case
      by (auto simp: Let_def tool_related split: sum.splits if_splits dest!: 1(1) intro: related_trans [OF tool_related])
  qed
  with run show ?thesis by blast
qed

lemma scan_related: "mcp_scan_issues rv strip p key after w = Some y \<Longrightarrow> R w (snd y)"
proof -
  assume run: "mcp_scan_issues rv strip p key after w = Some y"
  have "rv0 = rv \<and> strip0 = strip \<and> p0 = p \<longrightarrow> R w0 (snd y0)"
    if "mcp_scan_issues rv0 strip0 p0 key0 after0 w0 = Some y0" for rv0 strip0 p0 key0 after0 w0 y0
  proof (rule mcp_scan_issues.raw_induct [OF _ that, where
      P = "\<lambda>rv0 strip0 p0 key0 after0 w0 y0. rv0 = rv \<and> strip0 = strip \<and> p0 = p \<longrightarrow> R w0 (snd y0)"], goal_cases)
    case (1 self rv0 strip0 p0 key0 after0 w0 y0)
    from 1(2) show ?case
      by (auto simp: Let_def tool_related split: sum.splits option.splits if_splits dest!: 1(1)
          intro: related_trans [OF tool_related])
  qed
  with run show ?thesis by blast
qed

lemma comments_related: "list_comments rv strip p n w = (x, w') \<Longrightarrow> R w w'"
  unfolding list_comments_def scanned_def by (auto split: option.splits dest: pages_related intro: related_refl)

lemma marked_related: "mcp_find_marked rv strip p key w = (x, w') \<Longrightarrow> R w w'"
  unfolding mcp_find_marked_def scanned_def by (auto split: option.splits dest: scan_related intro: related_refl)

lemma correction_related: "mcp_find_correction rv strip sha p n d k w = (x, w') \<Longrightarrow> R w w'"
  unfolding mcp_find_correction_def by (auto split: prod.splits sum.splits dest: comments_related)

lemma predecessor_related: "mcp_predecessor rv strip sha p b cs k w = (x, w') \<Longrightarrow> R w w'"
  unfolding mcp_predecessor_def
  by (auto split: prod.splits sum.splits if_splits dest: get_related intro: related_refl)

lemma effective_related: "mcp_effective rv strip sha p b w = (x, w') \<Longrightarrow> R w w'"
  unfolding mcp_effective_def
  by (auto split: prod.splits sum.splits option.splits if_splits
      dest!: get_related comments_related predecessor_related intro: related_trans related_refl)

lemmas operations_related = labels_related create_related get_related effective_related correction_related marked_related
  client_related

end

interpretation mcp_quiet: tool_relation rv strip p "\<lambda>w w'. bindings w' = bindings w" for rv strip p
  by unfold_locales (auto simp: time_now_def)

lemma mcp_semantics_sels [simp]:
  "se_provider (mcp_semantics rv strip sha p) = MCPProviderID"
  "io_ensure_labels (se_ops (mcp_semantics rv strip sha p)) = mcp_ensure_labels rv strip p reserved_labels"
  "io_create_issue (se_ops (mcp_semantics rv strip sha p)) = mcp_create_issue rv strip sha p"
  "io_close_issue (se_ops (mcp_semantics rv strip sha p)) = mcp_close_issue rv strip p"
  "io_get_issue (se_ops (mcp_semantics rv strip sha p)) = mcp_get_issue rv strip p"
  "io_effective (se_ops (mcp_semantics rv strip sha p)) = mcp_effective rv strip sha p"
  "io_find_correction (se_ops (mcp_semantics rv strip sha p)) = mcp_find_correction rv strip sha p"
  "io_create_correction (se_ops (mcp_semantics rv strip sha p)) = mcp_create_correction rv strip sha p"
  "io_find_marked (se_ops (mcp_semantics rv strip sha p)) = mcp_find_marked rv strip p"
  "io_failed (se_ops (mcp_semantics rv strip sha p)) = mcp_failed"
  by (simp_all add: mcp_semantics_def mcp_operations_def)

lemma mcp_failed_sels [simp]: "sr_state (mcp_failed r e) \<noteq> Mirrored" "sr_key (mcp_failed r e) = sr_key r"
  by (simp_all add: mcp_failed_def Let_def)

interpretation mcp_transport: issue_transport "mcp_semantics rv strip sha p" for rv strip sha p
  by unfold_locales
    (auto simp: mcp_close_issue_def mcp_create_correction_def dest: mcp_quiet.operations_related)

text \<open>A run only adds the life of the client to the operation it takes.\<close>

lemma mcp_prepare_keeps: "mcp_prepare rv strip p w = (e, w') \<Longrightarrow> bindings w' = bindings w \<and> mp_command_run w' = mp_command_run w"
  unfolding mcp_prepare_def by (auto split: if_splits sum.splits prod.splits option.splits)

lemma close_client_keeps: "close_client strip p w = (e, w') \<Longrightarrow> bindings w' = bindings w \<and> mp_command_run w' = mp_command_run w"
  unfolding close_client_def reset_client_def by (auto split: prod.splits option.splits)

lemma within_key_mcp_run:
  assumes "within_key key op" "sr_key base = key"
  shows "within_key key (mcp_run rv strip p base op)"
proof (rule within_keyI)
  fix w w' r
  assume run: "mcp_run rv strip p base op w = (r, w')"
  obtain e w1 where 1: "mcp_prepare rv strip p w = (e, w1)" by (cases "mcp_prepare rv strip p w")
  obtain r2 w2 where 2: "op w1 = (r2, w2)" by (cases "op w1")
  have s1: "stored_binding w1 = stored_binding w" using mcp_prepare_keeps [OF 1] stored_binding_of by blast
  note law = within_keyD [OF assms(1) 2]
  show "sr_key r = key \<and> (\<forall>k. k \<noteq> key \<longrightarrow> stored_binding w' k = stored_binding w k)"
  proof (cases e)
    case None
    with run 1 2 law have "sr_key r = key" "bindings w' = bindings w2"
      by (auto simp: mcp_run_def split: option.splits prod.splits if_splits dest!: close_client_keeps)
    with law s1 stored_binding_of [of w' w2] show ?thesis by simp
  next
    case (Some x)
    with run 1 assms(2) have "sr_key r = key" "bindings w' = bindings w1"
      by (auto simp: mcp_run_def reset_client_def split: if_splits)
    with s1 stored_binding_of [of w' w1] show ?thesis by simp
  qed
qed

lemma mcp_base_key [simp]: "sr_key (mcp_base sha d) = diary_key sha d"
  by (simp add: mcp_base_def)

lemma mcp_mirror_within: "within_key (diary_key sha d) (mcp_mirror rv strip sha p recovery d)"
proof -
  have "within_key (diary_key sha d) (mcp_run rv strip p (mcp_base sha d) (issue_mirror sha (mcp_semantics rv strip sha p) recovery d))"
    by (rule within_key_mcp_run [OF mcp_transport.within_key_mirror]) simp
  then show ?thesis
    by (auto simp: within_key_def mcp_mirror_def split: option.splits)
qed

interpretation mcp_keyed: keyed_provider sha "mcp_provider rv strip sha p" for sha rv strip p
proof unfold_locales
  fix d choice observed f
  let ?s = "mcp_semantics rv strip sha p"
  have status: "within_key (diary_key sha d) (issue_status sha ?s d)"
    and resolve: "within_key (diary_key sha d) (issue_resolve sha ?s d choice observed)"
    by (rule within_keyI, auto dest: mcp_transport.status_key mcp_transport.resolve_key
        stored_binding_of [OF mcp_transport.status_keeps] stored_binding_of [OF mcp_transport.resolve_keeps])+
  show "within_key (diary_key sha d) (pv_mirror (mcp_provider rv strip sha p) d)"
    by (simp add: mcp_provider_def mcp_mirror_within)
  show "within_key (diary_key sha d) (pv_status (mcp_provider rv strip sha p) d)"
    unfolding mcp_provider_def provider.simps mcp_status_def by (rule within_key_mcp_run [OF status]) simp
  show "within_key (diary_key sha d) (pv_resolve (mcp_provider rv strip sha p) d choice observed)"
    unfolding mcp_provider_def provider.simps mcp_resolve_def by (rule within_key_mcp_run [OF resolve]) simp
  show "pv_create (mcp_provider rv strip sha p) = Some f \<Longrightarrow> within_key (diary_key sha d) (f d)"
    "pv_mirror_bound (mcp_provider rv strip sha p) = Some f \<Longrightarrow> within_key (diary_key sha d) (f d)"
    "pv_recover (mcp_provider rv strip sha p) = Some f \<Longrightarrow> within_key (diary_key sha d) (f d)"
    by (auto simp: mcp_provider_def mcp_mirror_within)
qed

section \<open>Calls\<close>

text \<open>What a call that returns a value has seen.\<close>

lemma mcp_await_answer:
  "mcp_await rv strip wd b verb i dec out left c n = (Inr v, c', n') \<Longrightarrow>
     \<exists>s x n1. mw_read wd n1 = (WireLine s, n') \<and> parse_response rv s = Some (Inr x) \<and> answers i x
       \<and> take_response verb dec out x = Inr v \<and> c' = c"
  by (induction left arbitrary: c n)
    (auto split: prod.splits wire.splits option.splits sum.splits if_splits)

lemma take_response_no_error: "take_response verb dec out x = Inr v \<Longrightarrow> rp_error x = None"
  by (auto simp: take_response_def split: option.splits)

text \<open>A call that gives a value wrote a request under a number that the client had not
  used, and the value is read off a line of the child that answers this very number, is no request of the server and is no
  error: an answer to an earlier call, one that came after its deadline included, is never taken for it. A client
  that is closed gives none.\<close>

theorem mcp_answer_matches:
  assumes "mcp_call rv strip wd verb params dec out cancellable c n = (Inr v, c', n')"
  shows "mc_next_id c' = mc_next_id c + 1 \<and> \<not> mc_closed c
    \<and> fst (mw_write wd (rpc_request (mc_next_id c') verb params) n) = None
    \<and> (\<exists>s x n1. mw_read wd n1 = (WireLine s, n') \<and> parse_response rv s = Some (Inr x) \<and> rp_method x = []
         \<and> (\<exists>j. rp_id x = Some j \<and> dec_int 0 [j] = Some (mc_next_id c'))
         \<and> rp_error x = None \<and> take_response verb dec out x = Inr v)"
proof -
  let ?c = "c\<lparr>mc_next_id := mc_next_id c + 1\<rparr>"
  from assms obtain n1 where w: "mcp_write strip wd (rpc_request (mc_next_id c + 1) verb params) ?c n = (None, n1)"
    and a: "mcp_await rv strip wd cancellable verb (mc_next_id c + 1) dec out (mw_patience wd n1) ?c n1 = (Inr v, c', n')"
    and alive: "\<not> mc_closed c"
    by (auto simp: mcp_call_def Let_def split: if_splits prod.splits option.splits)
  have "fst (mw_write wd (rpc_request (mc_next_id c + 1) verb params) n) = None"
    using w by (auto simp: mcp_write_def split: if_splits prod.splits option.splits)
  with mcp_await_answer [OF a] alive show ?thesis
    by (fastforce simp: answers_def take_response_no_error split: option.splits)
qed

text \<open>A child that answers the call before, and then this one.\<close>

definition late_world :: "nat mcp_world" where
  "late_world = \<lparr>mw_pipe = (\<lambda>s n. (None, n)), mw_spawn = (\<lambda>v n. (None, Suc n)), mw_write = (\<lambda>m n. (None, n)),
     mw_patience = (\<lambda>n. 2), mw_read = (\<lambda>n. (WireLine (if n = 0 then ''0'' else ''1''), Suc n)),
     mw_done = (\<lambda>n. (GoErr [DeadlineExceeded] ''context deadline exceeded'', n)), mw_stderr = (\<lambda>n. []),
     mw_wait = (\<lambda>n. (Exited None, n))\<rparr>"

definition late_reader :: json_reader where
  "late_reader s = Some (JObj [(''id'', JNum (NInt (if s = ''0'' then 41 else 42))), (''result'', JStr s)], [])"

definition waiting_client :: mcp_client where
  "waiting_client = \<lparr>mc_command = [''gh''], mc_opts = \<lparr>mo_timeout = 1, mo_shutdown = 1, mo_max_message = 1, mo_max_stderr = 1\<rparr>,
     mc_cmd = True, mc_stdin = True, mc_stderr = True, mc_reading = True, mc_next_id = 41, mc_modern = False,
     mc_version = [], mc_closed = False\<rparr>"

theorem mcp_answer_matches_witness:
  "\<exists>c' n'. mcp_call late_reader (\<lambda>s. None) late_world ''m'' JNull (\<lambda>j d. Some j) JNull True waiting_client 0 = (Inr (JStr ''1''), c', n')
     \<and> mc_next_id c' = 42
     \<and> (\<exists>s n1. mw_read late_world n1 = (WireLine s, n'))"
proof -
  let ?r = "mcp_call late_reader (\<lambda>s. None) late_world ''m'' JNull (\<lambda>j d. Some j) JNull True waiting_client 0"
  have run: "?r = (Inr (JStr ''1''), waiting_client\<lparr>mc_next_id := 42\<rparr>, 2)"
    by code_simp
  from run mcp_answer_matches [OF run] show ?thesis by (auto simp: waiting_client_def)
qed

section \<open>The life of a child\<close>

text \<open>
  \<open>live n\<close> counts the children that run: only a start raises it, and \<open>Wait\<close> returns when the child has exited, by
  itself or killed.
\<close>

definition counts_children :: "'n mcp_world \<Rightarrow> ('n \<Rightarrow> nat) \<Rightarrow> bool" where
  "counts_children wd live \<longleftrightarrow>
     (\<forall>s n. live (snd (mw_pipe wd s n)) = live n)
   \<and> (\<forall>v n. live (snd (mw_spawn wd v n)) = (if fst (mw_spawn wd v n) = None then Suc (live n) else live n))
   \<and> (\<forall>m n. live (snd (mw_write wd m n)) = live n)
   \<and> (\<forall>n. live (snd (mw_read wd n)) = live n)
   \<and> (\<forall>n. live (snd (mw_done wd n)) = live n)
   \<and> (\<forall>n. live (snd (mw_wait wd n)) = live n - 1)"

lemma counted:
  assumes "counts_children wd live"
  shows "mw_pipe wd s n = (e, n') \<Longrightarrow> live n' = live n"
    "mw_spawn wd v n = (e, n') \<Longrightarrow> live n' = (if e = None then Suc (live n) else live n)"
    "mw_write wd m n = (e, n') \<Longrightarrow> live n' = live n"
    "mw_read wd n = (t, n') \<Longrightarrow> live n' = live n"
    "mw_done wd n = (x, n') \<Longrightarrow> live n' = live n"
    "mw_wait wd n = (u, n') \<Longrightarrow> live n' = live n - 1"
  using assms unfolding counts_children_def by (metis fst_conv snd_conv)+

text \<open>A client and the number of children, before and after: neither is touched.\<close>

definition same_child :: "('n \<Rightarrow> nat) \<Rightarrow> mcp_client \<Rightarrow> 'n \<Rightarrow> mcp_client \<Rightarrow> 'n \<Rightarrow> bool" where
  "same_child live c n c' n' \<longleftrightarrow> mc_cmd c' = mc_cmd c \<and> mc_closed c' = mc_closed c \<and> live n' = live n"

lemma same_child_refl [simp]: "same_child live c n c n"
  by (simp add: same_child_def)

lemma same_child_trans: "same_child live c n c1 n1 \<Longrightarrow> same_child live c1 n1 c2 n2 \<Longrightarrow> same_child live c n c2 n2"
  by (simp add: same_child_def)

lemma mcp_write_live: "counts_children wd live \<Longrightarrow> mcp_write strip wd m c n = (e, n') \<Longrightarrow> live n' = live n"
  unfolding mcp_write_def by (auto split: if_splits prod.splits option.splits dest: counted)

lemma mcp_await_same:
  "counts_children wd live \<Longrightarrow> mcp_await rv strip wd b verb i dec out left c n = (x, c', n') \<Longrightarrow> same_child live c n c' n'"
proof (induction left arbitrary: c n)
  case 0
  have "mcp_notify strip wd k q c m = (e, m') \<Longrightarrow> live m' = live m" for k q m e m'
    unfolding mcp_notify_def by (rule mcp_write_live [OF 0(1)])
  then have "live (snd (mcp_notify strip wd k q c m)) = live m" for k q m by (metis prod.collapse)
  with 0 show ?case by (auto simp: same_child_def split: prod.splits if_splits dest: counted)
next
  case (Suc left)
  have read: "mw_read wd n = (t, n1) \<Longrightarrow> live n1 = live n" for t n1 by (rule counted(4) [OF Suc.prems(1)])
  note later = Suc.IH [OF Suc.prems(1), unfolded same_child_def]
  from Suc.prems(2) show ?case
    unfolding same_child_def
    by (auto split: prod.splits wire.splits option.splits sum.splits if_splits dest: read dest!: later)
qed

lemma mcp_call_same:
  assumes "counts_children wd live" "mcp_call rv strip wd verb params dec out b c n = (x, c', n')"
  shows "same_child live c n c' n'"
proof -
  have "same_child live c n c' n'" if "mcp_write strip wd m (c\<lparr>mc_next_id := i\<rparr>) n = (None, n1)"
      "mcp_await rv strip wd b verb i dec out left (c\<lparr>mc_next_id := i\<rparr>) n1 = (x, c', n')" for i m n1 left
    using mcp_write_live [OF assms(1) that(1)] mcp_await_same [OF assms(1) that(2)] by (simp add: same_child_def)
  moreover have "same_child live c n (c\<lparr>mc_next_id := i\<rparr>) n1" if "mcp_write strip wd m (c\<lparr>mc_next_id := i\<rparr>) n = (e, n1)" for i m e n1
    using mcp_write_live [OF assms(1) that] by (simp add: same_child_def)
  ultimately show ?thesis using assms(2)
    by (auto simp: mcp_call_def Let_def split: if_splits prod.splits option.splits)
qed

lemma mcp_call_same_snd:
  assumes "counts_children wd live"
  shows "same_child live c n (fst (snd (mcp_call rv strip wd verb params dec out b c n)))
      (snd (snd (mcp_call rv strip wd verb params dec out b c n)))"
  by (rule mcp_call_same [OF assms, of rv strip verb params dec out b c n
        "fst (mcp_call rv strip wd verb params dec out b c n)"]) simp

lemma mcp_list_tools_same:
  assumes "counts_children wd live" "mcp_list_tools rv strip wd cursor ts c n = Some y"
  shows "same_child live c n (fst (snd y)) (snd (snd y))"
proof -
  have "wd0 = wd \<longrightarrow> same_child live c0 n0 (fst (snd y0)) (snd (snd y0))"
    if "mcp_list_tools rv0 strip0 wd0 cursor0 ts0 c0 n0 = Some y0" for rv0 strip0 wd0 cursor0 ts0 c0 n0 y0
  proof (rule mcp_list_tools.raw_induct [OF _ that, where
      P = "\<lambda>rv0 strip0 wd0 cursor0 ts0 c0 n0 y0. wd0 = wd \<longrightarrow> same_child live c0 n0 (fst (snd y0)) (snd (snd y0))"], goal_cases)
    case (1 self rv0 strip0 wd0 cursor0 ts0 c0 n0 y0)
    from 1(2) show ?case
      by (auto simp: Let_def mcp_call_same_snd [OF assms(1)] split: sum.splits if_splits dest!: 1(1)
          intro: same_child_trans [OF mcp_call_same_snd [OF assms(1)]])
  qed
  with assms(2) show ?thesis by blast
qed

lemma mcp_start_live:
  assumes "counts_children wd live" "mcp_start wd c n = (e, c', n')" "\<not> mc_cmd c"
  shows "mc_cmd c' \<and> mc_closed c' = mc_closed c \<and> live n' = (if e = None then Suc (live n) else live n)"
  using assms(2,3) unfolding mcp_start_def
  by (auto simp: Let_def split: prod.splits option.splits dest!: counted [OF assms(1)])

lemma mcp_close_live:
  assumes "counts_children wd live" "mcp_close strip wd c n = (e, c', n')" "mc_cmd c" "\<not> mc_closed c"
  shows "live n' = live n - 1"
  using assms(2-4) unfolding mcp_close_def
  by (auto simp: Let_def split: prod.splits waited.splits option.splits dest!: counted [OF assms(1)])

text \<open>A client that has been started, and the children that may run for it.\<close>

definition started :: "('n \<Rightarrow> nat) \<Rightarrow> err option \<Rightarrow> mcp_client \<Rightarrow> 'n \<Rightarrow> bool" where
  "started live e c n \<longleftrightarrow> mc_cmd c \<and> \<not> mc_closed c \<and> live n \<le> 1 \<and> (e = None \<longrightarrow> live n = 1)"

lemma started_same: "started live None c n \<Longrightarrow> same_child live c n c' n' \<Longrightarrow> started live e c' n'"
  by (auto simp: started_def same_child_def)

lemma started_any: "started live None c n \<Longrightarrow> started live e c n"
  by (simp add: started_def)

lemma mcp_start_started:
  assumes "counts_children wd live" "mcp_start wd c n = (e, c', n')" "\<not> mc_cmd c" "\<not> mc_closed c" "live n = 0"
  shows "started live e c' n'"
  using mcp_start_live [OF assms(1-3)] assms(4,5) by (simp add: started_def split: if_splits)

lemma mcp_legacy_started:
  assumes "counts_children wd live" "mcp_legacy rv strip wd modern c n = (e, c', n')" "started live None c n"
  shows "started live e c' n'"
proof -
  obtain x c1 n1 where 1: "mcp_call rv strip wd ''initialize'' legacy_params (into dec_initialized) [] False c n = (x, c1, n1)"
    by (metis prod_cases3)
  have s1: "started live None c1 n1" by (rule started_same [OF assms(3) mcp_call_same [OF assms(1) 1]])
  have "mcp_notify strip wd k q c1 n1 = (u, m) \<Longrightarrow> live m = live n1" for k q u m
    unfolding mcp_notify_def by (rule mcp_write_live [OF assms(1)])
  with assms(2) s1 1 show ?thesis
    by (auto simp: mcp_legacy_def started_def split: sum.splits call_error.splits if_splits prod.splits option.splits)
qed

lemma mcp_negotiate_started:
  assumes "counts_children wd live" "mcp_negotiate rv strip wd c n = (e, c', n')"
    "\<not> mc_cmd c" "\<not> mc_closed c" "live n = 0"
  shows "started live e c' n'"
proof -
  let ?call = "mcp_call rv strip wd ''server/discover'' (JObj [(''_meta'', modern_metadata)]) (into dec_versions) [] False"
  obtain e1 c1 n1 where 1: "mcp_start wd c n = (e1, c1, n1)" by (metis prod_cases3)
  note s1 = mcp_start_started [OF assms(1) 1 assms(3-5)]
  show ?thesis
  proof (cases e1)
    case (Some x)
    with assms(2) 1 s1 show ?thesis by (auto simp: mcp_negotiate_def)
  next
    case None
    with s1 have s1: "started live None c1 n1" by simp
    obtain x c2 n2 where 2: "?call c1 n1 = (x, c2, n2)" by (metis prod_cases3)
    have s2: "started live None c2 n2" by (rule started_same [OF s1 mcp_call_same [OF assms(1) 2]])
    have now: "started live e (now_modern c2) n2" for e using s2 by (simp add: started_def now_modern_def)
    have legacy: "mcp_legacy rv strip wd m c2 n2 = (e, c', n') \<Longrightarrow> ?thesis" for m
      by (rule mcp_legacy_started [OF assms(1) _ s2])
    show ?thesis
    proof (cases x)
      case (Inr vs)
      with assms(2) 1 2 None now started_any [OF s2] show ?thesis by (auto simp: mcp_negotiate_def split: if_splits)
    next
      case (Inl f)
      show ?thesis
      proof (cases f)
        case (RpcFailed y)
        with assms(2) 1 2 None Inl now started_any [OF s2] legacy show ?thesis
          by (auto simp: mcp_negotiate_def split: if_splits)
      next
        case (CallFailed y)
        show ?thesis
        proof (cases "errors_is y DeadlineExceeded")
          case False
          with assms(2) 1 2 None Inl CallFailed legacy show ?thesis by (auto simp: mcp_negotiate_def)
        next
          case True
          obtain u c3 n3 where 3: "mcp_close strip wd c2 n2 = (u, c3, n3)" by (metis prod_cases3)
          obtain e4 c4 n4 where 4: "mcp_start wd (mcp_reset c3) n3 = (e4, c4, n4)" by (metis prod_cases3)
          from s2 have "mc_cmd c2" "\<not> mc_closed c2" "live n2 = 1" by (simp_all add: started_def)
          with mcp_close_live [OF assms(1) 3] have "live n3 = 0" by simp
          with mcp_start_started [OF assms(1) 4] have s4: "started live e4 c4 n4" by (simp add: mcp_reset_def)
          then have "mcp_legacy rv strip wd m c4 n4 = (e, c', n') \<Longrightarrow> e4 = None \<Longrightarrow> ?thesis" for m
            using mcp_legacy_started [OF assms(1)] by blast
          with assms(2) 1 2 3 4 None Inl CallFailed True s4 show ?thesis
            by (auto simp: mcp_negotiate_def split: option.splits)
        qed
      qed
    qed
  qed
qed

lemma connect_started:
  assumes "counts_children (mq_world p) live" "connect rv strip p c n = (e, c', n')" "\<not> mc_cmd c" "\<not> mc_closed c" "live n = 0"
  shows "started live e c' n'"
proof -
  obtain e1 c1 n1 where 1: "mcp_negotiate rv strip (mq_world p) c n = (e1, c1, n1)" by (metis prod_cases3)
  note s1 = mcp_negotiate_started [OF assms(1) 1 assms(3-5)]
  have "started live e2 (fst (snd y)) (snd (snd y))" if "mcp_list_tools rv strip (mq_world p) [] [] c1 n1 = Some y" "e1 = None" for y e2
    by (rule started_same [OF _ mcp_list_tools_same [OF assms(1) that(1)]]) (use s1 that(2) in simp)
  with assms(2) 1 s1 started_any show ?thesis
    by (fastforce simp: connect_def split: option.splits prod.splits sum.splits)
qed

text \<open>
  A relation of the states before and after that every operation of a transport and of the binding store keeps, kept by the
  operations of the shared semantics.
\<close>

locale issue_relation =
  fixes sem :: "'a store_scheme issue_semantics" and R :: "'a store_scheme \<Rightarrow> 'a store_scheme \<Rightarrow> bool"
  assumes step_refl: "R w w"
    and step_trans: "R u v \<Longrightarrow> R v w \<Longrightarrow> R u w"
    and load_step: "load_binding k w = (lb, w') \<Longrightarrow> R w w'"
    and save_step: "save_result (se_provider sem) r w = (le, w') \<Longrightarrow> R w w'"
    and labels_step: "io_ensure_labels (se_ops sem) w = (le, w') \<Longrightarrow> R w w'"
    and create_step: "io_create_issue (se_ops sem) d w = (ie, w') \<Longrightarrow> R w w'"
    and close_step: "io_close_issue (se_ops sem) n w = (ie, w') \<Longrightarrow> R w w'"
    and get_step: "io_get_issue (se_ops sem) k w = (ie, w') \<Longrightarrow> R w w'"
    and effective_step: "io_effective (se_ops sem) b w = (fe, w') \<Longrightarrow> R w w'"
    and find_correction_step: "io_find_correction (se_ops sem) n d k w = (ce, w') \<Longrightarrow> R w w'"
    and create_correction_step: "io_create_correction (se_ops sem) n d k w = (ce, w') \<Longrightarrow> R w w'"
    and find_marked_step: "io_find_marked (se_ops sem) k w = (ie, w') \<Longrightarrow> R w w'"
begin

lemmas steps = load_step save_step labels_step create_step close_step get_step effective_step find_correction_step
  create_correction_step find_marked_step

lemma compare_effective_step: "compare_effective sha sem r c b w = (res, w') \<Longrightarrow> R w w'"
  unfolding compare_effective_def by (auto simp: Let_def split: prod.splits sum.splits dest: effective_step)

lemma finish_existing_step: "finish_existing sha sem r d i w = (res, w') \<Longrightarrow> R w w'"
  unfolding finish_existing_def
  by (auto simp: Let_def split: prod.splits sum.splits if_splits dest: close_step intro: step_refl)

lemma create_and_close_step: "create_and_close sha sem r d w = (res, w') \<Longrightarrow> R w w'"
  unfolding create_and_close_def
  by (auto simp: Let_def split: prod.splits sum.splits option.splits dest!: steps intro: step_trans)

lemma mirror_step: "issue_mirror sha sem recovery d w = (res, w') \<Longrightarrow> R w w'"
  unfolding issue_mirror_def
  by (auto simp: Let_def split: prod.splits sum.splits option.splits if_splits
      dest!: steps compare_effective_step finish_existing_step create_and_close_step intro: step_trans step_refl)

lemma status_step: "issue_status sha sem d w = (res, w') \<Longrightarrow> R w w'"
  unfolding issue_status_def
  by (auto simp: Let_def split: prod.splits sum.splits option.splits if_splits
      dest!: steps compare_effective_step intro: step_trans step_refl)

lemma correct_issue_step: "correct_issue sha sem r d b k w = (res, w') \<Longrightarrow> R w w'"
  unfolding correct_issue_def
  by (auto split: prod.splits sum.splits option.splits if_splits dest!: steps intro: step_trans step_refl)

lemma resolve_step: "issue_resolve sha sem d choice observed w = (res, w') \<Longrightarrow> R w w'"
  unfolding issue_resolve_def
  by (auto simp: Let_def split: prod.splits sum.splits option.splits if_splits
      dest!: steps correct_issue_step intro: step_trans step_refl)

end

text \<open>The client that the operations share, and the children, before and after.\<close>

definition client_held :: "'n mcp \<Rightarrow> ('n \<Rightarrow> nat) \<Rightarrow> ('n, 'a) mcpstate_scheme \<Rightarrow> ('n, 'a) mcpstate_scheme \<Rightarrow> bool" where
  "client_held p live w w' \<longleftrightarrow> (counts_children (mq_world p) live \<longrightarrow>
     mp_command_run w' = mp_command_run w \<and> mp_prepared w' = mp_prepared w \<and> mp_prepare_err w' = mp_prepare_err w
   \<and> (case mp_client w of
        None \<Rightarrow> mp_client w' = None \<and> live (mp_net w') = live (mp_net w)
      | Some c \<Rightarrow> (\<exists>c'. mp_client w' = Some c' \<and> same_child live c (mp_net w) c' (mp_net w'))))"

lemma client_held_refl: "client_held p live w w"
  by (auto simp: client_held_def split: option.split)

lemma client_held_trans: "client_held p live u v \<Longrightarrow> client_held p live v w \<Longrightarrow> client_held p live u w"
  by (auto simp: client_held_def split: option.splits intro: same_child_trans)

interpretation mcp_held: tool_relation rv strip p "client_held p live" for rv strip p live
proof unfold_locales
  fix w w' :: "('a, 'b) mcpstate_scheme" and t c q c1 n1
  show "time_now w = (t, w') \<Longrightarrow> client_held p live w w'"
    by (auto simp: time_now_def client_held_def split: option.split)
  assume c: "mp_client w = Some c"
    "snd (mcp_call rv strip (mq_world p) ''tools/call'' q (into dec_tool_result) zero_tool_result True c (mp_net w)) = (c1, n1)"
  have "same_child live c (mp_net w) c1 n1" if "counts_children (mq_world p) live"
    using mcp_call_same_snd [OF that, of c "mp_net w" rv strip] c(2) by (metis fst_conv snd_conv)
  with c(1) show "client_held p live w (w\<lparr>mp_client := Some c1, mp_net := n1\<rparr>)"
    by (simp add: client_held_def)
qed (rule client_held_refl, erule (1) client_held_trans)

lemma client_held_store:
  "mp_client w' = mp_client w \<Longrightarrow> mp_net w' = mp_net w \<Longrightarrow> mp_command_run w' = mp_command_run w \<Longrightarrow>
   mp_prepared w' = mp_prepared w \<Longrightarrow> mp_prepare_err w' = mp_prepare_err w \<Longrightarrow> client_held p live w w'"
  by (auto simp: client_held_def split: option.split)

lemma save_result_held: "save_result pv r w = (e, w') \<Longrightarrow> client_held p live w w'"
  unfolding save_result_def save_binding_def time_now_def
  by (rule client_held_store)
    (auto split: option.splits prod.splits dest!: ctx_err_frame elim!: atomic_write_cases)

lemma load_binding_held: "load_binding k w = (r, w') \<Longrightarrow> client_held p live w w'"
  by (drule load_binding_frame) (auto intro: client_held_store)

interpretation mcp_steps: issue_relation "mcp_semantics rv strip sha p" "client_held p live" for rv strip sha p live
  by unfold_locales
    (auto simp: mcp_close_issue_def mcp_create_correction_def
      dest: mcp_held.operations_related save_result_held load_binding_held intro: client_held_refl client_held_trans)

text \<open>
  Between operations: a client is there exactly as long as its child runs, it is one that has been prepared, and outside a
  command there is none.
\<close>

definition child_inv :: "('n \<Rightarrow> nat) \<Rightarrow> ('n, 'a) mcpstate_scheme \<Rightarrow> bool" where
  "child_inv live w \<longleftrightarrow>
     (case mp_client w of
        None \<Rightarrow> live (mp_net w) = 0
      | Some c \<Rightarrow> mc_cmd c \<and> \<not> mc_closed c \<and> live (mp_net w) = 1 \<and> mp_prepared w \<and> mp_prepare_err w = None)
   \<and> (mp_prepared w \<longrightarrow> mp_prepare_err w = None \<longrightarrow> mp_client w \<noteq> None)
   \<and> (\<not> mp_command_run w \<longrightarrow> mp_client w = None \<and> \<not> mp_prepared w)
   \<and> (\<not> mp_prepared w \<longrightarrow> mp_prepare_err w = None)"

text \<open>During an operation: the part of it that the operation itself keeps.\<close>

definition child_held :: "('n \<Rightarrow> nat) \<Rightarrow> ('n, 'a) mcpstate_scheme \<Rightarrow> bool" where
  "child_held live w \<longleftrightarrow> mp_prepared w \<and> mp_prepare_err w = None
     \<and> (\<exists>c. mp_client w = Some c \<and> mc_cmd c \<and> \<not> mc_closed c \<and> live (mp_net w) = 1)"

lemma child_held_inv: "child_held live w \<Longrightarrow> mp_command_run w \<Longrightarrow> child_inv live w"
  by (auto simp: child_held_def child_inv_def)

lemma client_held_child:
  "counts_children (mq_world p) live \<Longrightarrow> client_held p live w w' \<Longrightarrow> child_held live w \<Longrightarrow>
     child_held live w' \<and> mp_command_run w' = mp_command_run w"
  by (auto simp: client_held_def child_held_def same_child_def split: option.splits)

lemma mcp_prepare_child:
  assumes "counts_children (mq_world p) live" "child_inv live w" "mcp_prepare rv strip p w = (e, w')"
  shows "mp_command_run w' = mp_command_run w \<and>
    (if e = None then child_held live w'
     else mp_client w' = None \<and> live (mp_net w') = 0 \<and> (mp_prepared w' \<longrightarrow> mp_prepare_err w' = e) \<and> mp_prepared w')"
proof (cases "mp_prepared w")
  case True
  with assms show ?thesis
    by (cases "mp_client w") (auto simp: mcp_prepare_def child_inv_def child_held_def)
next
  case False
  with assms(2) have idle: "mp_client w = None" "live (mp_net w) = 0" "mp_prepare_err w = None"
    by (auto simp: child_inv_def split: option.splits)
  show ?thesis
  proof (cases "new_mcp_client (mq_command p) (mq_opts p)")
    case (Inl x)
    with assms(3) False idle show ?thesis by (auto simp: mcp_prepare_def)
  next
    case (Inr c)
    then have c: "\<not> mc_cmd c" "\<not> mc_closed c" by (auto simp: new_mcp_client_def split: if_splits)
    obtain e1 c1 n1 where 1: "connect rv strip p c (mp_net w) = (e1, c1, n1)" by (metis prod_cases3)
    from connect_started [OF assms(1) 1 c idle(2)] have s1: "started live e1 c1 n1" .
    obtain u c2 n2 where 2: "mcp_close strip (mq_world p) c1 n1 = (u, c2, n2)" by (metis prod_cases3)
    from mcp_close_live [OF assms(1) 2] s1 have "live n2 = 0" by (auto simp: started_def)
    with assms(3) False Inr 1 2 s1 idle show ?thesis
      by (auto simp: mcp_prepare_def child_held_def started_def split: option.splits)
  qed
qed

lemma close_client_child:
  assumes "counts_children (mq_world p) live" "close_client strip p w = (e, w')"
    "case mp_client w of None \<Rightarrow> live (mp_net w) = 0 | Some c \<Rightarrow> mc_cmd c \<and> \<not> mc_closed c \<and> live (mp_net w) = 1"
  shows "child_inv live w' \<and> live (mp_net w') = 0 \<and> mp_client w' = None \<and> mp_command_run w' = mp_command_run w"
  using assms(2,3) mcp_close_live [OF assms(1)]
  by (fastforce simp: close_client_def reset_client_def child_inv_def split: option.splits prod.splits)

lemma mcp_run_child:
  assumes "counts_children (mq_world p) live" "child_inv live w" "mcp_run rv strip p base op w = (r, w')"
    and op: "\<And>v x v'. op v = (x, v') \<Longrightarrow> client_held p live v v'"
  shows "child_inv live w' \<and> mp_command_run w' = mp_command_run w"
proof -
  obtain e w1 where 1: "mcp_prepare rv strip p w = (e, w1)" by (cases "mcp_prepare rv strip p w")
  note prepared = mcp_prepare_child [OF assms(1,2) 1]
  show ?thesis
  proof (cases e)
    case (Some x)
    with prepared assms(3) 1 show ?thesis
      by (auto simp: mcp_run_def reset_client_def child_inv_def split: if_splits)
  next
    case None
    obtain x w2 where 2: "op w1 = (x, w2)" by (cases "op w1")
    from client_held_child [OF assms(1) op [OF 2]] prepared None
    have held: "child_held live w2" "mp_command_run w2 = mp_command_run w" by auto
    obtain u w3 where 3: "close_client strip p w2 = (u, w3)" by (cases "close_client strip p w2")
    have "case mp_client w2 of None \<Rightarrow> live (mp_net w2) = 0 | Some c \<Rightarrow> mc_cmd c \<and> \<not> mc_closed c \<and> live (mp_net w2) = 1"
      using held(1) by (auto simp: child_held_def)
    note closed = close_client_child [OF assms(1) 3 this]
    from assms(3) 1 2 3 None have "w' = (if mp_command_run w2 then w2 else w3)"
      by (auto simp: mcp_run_def split: option.splits if_splits)
    with closed held child_held_inv show ?thesis by (cases "mp_command_run w2") auto
  qed
qed

text \<open>C26: no operation leaves a child of the MCP server behind. At most one child
  runs between operations, and only within a command; the operations outside a command and the end of a command
  leave none, whether the child came up, answered late, was started twice, refused the tools or had to be killed; and a
  provider that counts as prepared without an error has a client.\<close>

theorem no_child_outlives_its_command:
  fixes w :: "('n, 'a) mcpstate_scheme"
  assumes "counts_children (mq_world p) live" "child_inv live w"
    "(r, w') \<in> {mcp_mirror rv strip sha p recovery d w, mcp_status rv strip sha p d w, mcp_resolve rv strip sha p d choice observed w}"
  shows "child_inv live w' \<and> mp_command_run w' = mp_command_run w \<and> live (mp_net w') \<le> 1
    \<and> (\<not> mp_command_run w \<longrightarrow> live (mp_net w') = 0)
    \<and> child_inv live (begin_command w')
    \<and> child_inv live (snd (end_command strip p w')) \<and> live (mp_net (snd (end_command strip p w'))) = 0"
proof -
  let ?s = "mcp_semantics rv strip sha p" and ?run = "mcp_run rv strip p (mcp_base sha d)"
  from assms(3) consider "w' = w" | "?run (issue_mirror sha ?s recovery d) w = (r, w')"
    | "?run (issue_status sha ?s d) w = (r, w')" | "?run (issue_resolve sha ?s d choice observed) w = (r, w')"
    unfolding mcp_mirror_def mcp_status_def mcp_resolve_def by (auto split: option.splits)
  then have kept: "child_inv live w' \<and> mp_command_run w' = mp_command_run w"
  proof cases
    case 1
    with assms(2) show ?thesis by simp
  next
    case 2
    from mcp_run_child [OF assms(1,2) this mcp_steps.mirror_step] show ?thesis .
  next
    case 3
    from mcp_run_child [OF assms(1,2) this mcp_steps.status_step] show ?thesis .
  next
    case 4
    from mcp_run_child [OF assms(1,2) this mcp_steps.resolve_step] show ?thesis .
  qed
  let ?v = "w'\<lparr>mp_command_run := False\<rparr>"
  have "case mp_client ?v of None \<Rightarrow> live (mp_net ?v) = 0 | Some c \<Rightarrow> mc_cmd c \<and> \<not> mc_closed c \<and> live (mp_net ?v) = 1"
    using kept by (auto simp: child_inv_def split: option.splits)
  from close_client_child [OF assms(1) prod.collapse [symmetric] this, of strip]
  have "child_inv live (snd (end_command strip p w')) \<and> live (mp_net (snd (end_command strip p w'))) = 0"
    by (simp add: end_command_def)
  with kept show ?thesis by (auto simp: child_inv_def begin_command_def split: option.splits)
qed

text \<open>A child that starts and says nothing.\<close>

definition silent_world :: "nat mcp_world" where
  "silent_world = \<lparr>mw_pipe = (\<lambda>s n. (None, n)), mw_spawn = (\<lambda>v n. (None, Suc n)), mw_write = (\<lambda>m n. (None, n)),
     mw_patience = (\<lambda>n. 1), mw_read = (\<lambda>n. (WireClosed, n)),
     mw_done = (\<lambda>n. (GoErr [DeadlineExceeded] ''context deadline exceeded'', n)), mw_stderr = (\<lambda>n. []),
     mw_wait = (\<lambda>n. (Hung, n - 1))\<rparr>"

definition silent_mcp :: "nat mcp" where
  "silent_mcp = \<lparr>mq_repository = ''o/n'', mq_owner = ''o'', mq_repo = ''n'', mq_command = [''gh''],
     mq_opts = \<lparr>mo_timeout = 0, mo_shutdown = 0, mo_max_message = 0, mo_max_stderr = 0\<rparr>, mq_world = silent_world,
     mq_parse_time = (\<lambda>s. None)\<rparr>"

definition idle_mcpstate :: "'n \<Rightarrow> 'n mcpstate" where
  "idle_mcpstate n = \<lparr>faults = [], clock = (\<lambda>n. 1 + int n), reads = 0, entries = [], bindings = [], conflicts = [],
     locks = [], lock_sequence = 0, mp_client = None, mp_prepared = False, mp_prepare_err = None, mp_command_run = False,
     mp_net = n\<rparr>"

theorem no_child_outlives_its_command_witness:
  "mp_net (snd (mcp_status (\<lambda>s. None) (\<lambda>s. None) Local_Stores.sample_sha silent_mcp sample_remote_diary (idle_mcpstate 0))) = 0"
proof -
  let ?w = "idle_mcpstate 0 :: nat mcpstate"
  have "counts_children (mq_world silent_mcp) (\<lambda>n. n)"
    by (simp add: counts_children_def silent_mcp_def silent_world_def)
  moreover have "child_inv (\<lambda>n. n) ?w" "\<not> mp_command_run ?w" by (simp_all add: child_inv_def idle_mcpstate_def)
  ultimately show ?thesis
    using no_child_outlives_its_command [of silent_mcp "\<lambda>n. n" ?w
        "fst (mcp_status (\<lambda>s. None) (\<lambda>s. None) Local_Stores.sample_sha silent_mcp sample_remote_diary ?w)"
        "snd (mcp_status (\<lambda>s. None) (\<lambda>s. None) Local_Stores.sample_sha silent_mcp sample_remote_diary ?w)"
        "\<lambda>s. None" "\<lambda>s. None" Local_Stores.sample_sha True sample_remote_diary KeepLocal "[]"]
    by simp
qed

end
