(* ===== verification/Skill_Contract.thy ===== *)
theory Skill_Contract
  imports Skill_Catalog
begin

text \<open>
  \<open>core/skillcontracttest/contract.go\<close>: the behaviour that every adapter of \<open>SkillPort\<close> and \<open>RuntimePort\<close>
  has to show, as checks that run on a port and give a verdict, and the runtime that records what it is
  handed. Every fixture has the state of its own port; the factory gives the fixture of each call in turn. A
  subtest that calls \<open>t.Fatal\<close> ends there; of its message the constant part is kept. The in-memory
  port passes the suite.
\<close>

section \<open>The suite\<close>

datatype verdict = Passed | Failed string

record 's port_fixture =
  pf_port :: "(prepare_request \<Rightarrow> 's \<Rightarrow> skill_bundle res \<times> 's) option"
  pf_state :: 's
  pf_ready :: string
  pf_unsupported :: string
  pf_runtime :: string
  pf_ambiguous :: string
  pf_alias :: string

text \<open>\<open>validateSkillPortFixture\<close>, and the rest of the subtest.\<close>

definition validate_skill_port_fixture ::
  "'s port_fixture \<Rightarrow> ((prepare_request \<Rightarrow> 's \<Rightarrow> skill_bundle res \<times> 's) \<Rightarrow> verdict) \<Rightarrow> verdict" where
  "validate_skill_port_fixture f rest =
     (case pf_port f of
        None \<Rightarrow> Failed ''skill port contract fixture is incomplete''
      | Some prepare \<Rightarrow>
          if pf_ready f = [] \<or> pf_runtime f = [] then Failed ''skill port contract fixture is incomplete''
          else rest prepare)"

text \<open>\<open>if err != nil \{ t.Fatal(err) \}\<close>, \<open>if !errors.Is(err, target) \{ t.Fatalf(...) \}\<close>.\<close>

definition prepared :: "skill_bundle res \<times> 's \<Rightarrow> (skill_bundle \<Rightarrow> 's \<Rightarrow> verdict) \<Rightarrow> verdict" where
  "prepared r rest = (case r of (Inl e, s) \<Rightarrow> Failed (err_text e) | (Inr b, s) \<Rightarrow> rest b s)"

definition rejected :: "sentinel \<Rightarrow> string \<Rightarrow> skill_bundle res \<times> 's \<Rightarrow> ('s \<Rightarrow> verdict) \<Rightarrow> verdict" where
  "rejected target message r rest =
     (case r of (Inl e, s) \<Rightarrow> (if errors_is e target then rest s else Failed message) | (Inr b, s) \<Rightarrow> Failed message)"

definition fixed_point :: "string \<Rightarrow> (string \<times> goval) list option" where
  "fixed_point v = Some [(''fixed_point'', GStr v)]"

definition contract_request :: "string \<Rightarrow> string \<Rightarrow> string \<Rightarrow> prepare_request" where
  "contract_request name i runtime =
     \<lparr>pr_name = name, pr_invocation_id = i, pr_runtime = runtime, pr_arguments = None\<rparr>"

definition replay_request :: "'s port_fixture \<Rightarrow> prepare_request" where
  "replay_request f = (contract_request (pf_ready f) ''inv-contract-replay'' (pf_runtime f))\<lparr>pr_arguments := fixed_point ''origin/main''\<rparr>"

text \<open>The two intentional uses, without an identity.\<close>

definition intentional_uses ::
  "(prepare_request \<Rightarrow> 's \<Rightarrow> skill_bundle res \<times> 's) \<Rightarrow> prepare_request \<Rightarrow> skill_bundle \<Rightarrow> 's \<Rightarrow> verdict" where
  "intentional_uses prepare q first s =
     prepared (prepare q s) (\<lambda>intentional s1.
       if sb_invocation_id intentional = sb_invocation_id first then Failed ''intentional use reused invocation ID''
       else if sb_hash intentional \<noteq> sb_hash first then Failed ''identical content changed bundle hash''
       else prepared (prepare q s1) (\<lambda>second s2.
         if sb_invocation_id second = sb_invocation_id intentional then Failed ''two intentional uses shared invocation ID''
         else if sb_hash second \<noteq> sb_hash intentional then Failed ''second intentional use changed bundle hash''
         else Passed))"

definition replay_and_intentional_use :: "'s port_fixture \<Rightarrow> verdict" where
  "replay_and_intentional_use f =
     validate_skill_port_fixture f (\<lambda>prepare.
       let q = replay_request f in
       prepared (prepare q (pf_state f)) (\<lambda>first s1.
       prepared (prepare q s1) (\<lambda>replayed s2.
         if bundle_invocation first \<noteq> bundle_invocation replayed then Failed ''technical replay changed invocation''
         else if sb_runtime first \<noteq> pf_runtime f \<or> sb_arguments first \<noteq> pr_arguments q
         then Failed ''prepared bundle changed runtime-neutral input''
         else if pi_source_id (sb_identity first) = [] \<or> pi_name (sb_identity first) = []
            \<or> pi_package_hash (sb_identity first) = [] \<or> sb_hash first = []
         then Failed ''prepared bundle lacks deterministic identities''
         else rejected ErrSkillInvocationReplay ''changed replay error''
           (prepare (q\<lparr>pr_arguments := fixed_point ''HEAD~1''\<rparr>) s2) (\<lambda>s3.
             intentional_uses prepare (q\<lparr>pr_invocation_id := []\<rparr>) first s3))))"

definition unsupported_is_isolated :: "'s port_fixture \<Rightarrow> verdict" where
  "unsupported_is_isolated f =
     (if pf_unsupported f = [] then Passed
      else validate_skill_port_fixture f (\<lambda>prepare.
        rejected ErrUnsupportedSkill ''unsupported package error'' (prepare (contract_request (pf_unsupported f) [] []) (pf_state f)) (\<lambda>s.
        case prepare (contract_request (pf_ready f) ''inv-after-unsupported'' []) s of
          (Inl e, s1) \<Rightarrow> Failed ''unsupported package invalidated the ready catalog''
        | (Inr b, s1) \<Rightarrow> Passed)))"

definition deterministic_identities :: "'s port_fixture \<Rightarrow> 's port_fixture \<Rightarrow> verdict" where
  "deterministic_identities l r =
     validate_skill_port_fixture l (\<lambda>prepare_left.
     validate_skill_port_fixture r (\<lambda>prepare_right.
       prepared (prepare_left (contract_request (pf_ready l) ''inv-contract-identity-left'' (pf_runtime l)) (pf_state l)) (\<lambda>bl sl.
       prepared (prepare_right (contract_request (pf_ready r) ''inv-contract-identity-right'' (pf_runtime r)) (pf_state r)) (\<lambda>br sr.
         if sb_identity bl \<noteq> sb_identity br then Failed ''independently constructed catalogs disagree on package identity''
         else if sb_hash bl \<noteq> sb_hash br then Failed ''independently constructed catalogs disagree on bundle hash''
         else Passed))))"

definition unqualified_resolves :: "'s port_fixture \<Rightarrow> verdict" where
  "unqualified_resolves f =
     validate_skill_port_fixture f (\<lambda>prepare.
       case cut_str (pf_ready f) ''/'' of
         None \<Rightarrow> Failed ''ReadyName is not a qualified source_id/name identity''
       | Some (source, unqualified) \<Rightarrow>
         prepared (prepare (contract_request (pf_ready f) ''inv-contract-qualified'' (pf_runtime f)) (pf_state f)) (\<lambda>qualified s1.
         case prepare (contract_request unqualified ''inv-contract-unqualified'' (pf_runtime f)) s1 of
           (Inl e, s2) \<Rightarrow> Failed ''unique unqualified name did not resolve''
         | (Inr b, s2) \<Rightarrow>
             if sb_identity qualified \<noteq> sb_identity b then Failed ''unqualified resolution disagreed with qualified'' else Passed))"

definition ambiguous_is_rejected :: "'s port_fixture \<Rightarrow> verdict" where
  "ambiguous_is_rejected f =
     (if pf_ambiguous f = [] then Passed
      else validate_skill_port_fixture f (\<lambda>prepare.
        rejected ErrSkillNameAmbiguous ''ambiguous name error'' (prepare (contract_request (pf_ambiguous f) [] []) (pf_state f))
          (\<lambda>s. Passed)))"

definition alias_resolves :: "'s port_fixture \<Rightarrow> verdict" where
  "alias_resolves f =
     (if pf_alias f = [] then Passed
      else validate_skill_port_fixture f (\<lambda>prepare.
        prepared (prepare (contract_request (pf_ready f) ''inv-contract-alias-target'' (pf_runtime f)) (pf_state f)) (\<lambda>target s1.
        case prepare (contract_request (pf_alias f) ''inv-contract-alias'' (pf_runtime f)) s1 of
          (Inl e, s2) \<Rightarrow> Failed ''alias did not resolve''
        | (Inr b, s2) \<Rightarrow>
            if sb_identity target \<noteq> sb_identity b then Failed ''alias resolution disagreed with its target'' else Passed)))"

definition incompatible_runtime :: string where
  "incompatible_runtime = ''syntroph-contract-incompatible-runtime''"

definition incompatible_runtime_is_rejected :: "'s port_fixture \<Rightarrow> verdict" where
  "incompatible_runtime_is_rejected f =
     validate_skill_port_fixture f (\<lambda>prepare.
       prepared (prepare (contract_request (pf_ready f) ''inv-contract-runtime-baseline'' (pf_runtime f)) (pf_state f)) (\<lambda>baseline s1.
         if sb_runtimes baseline = [] then Passed
         else if incompatible_runtime \<in> set (sb_runtimes baseline)
         then Failed ''fixture's compatible runtimes unexpectedly include the contract's incompatible probe''
         else rejected ErrSkillRuntimeIncompatible ''incompatible runtime error''
           (prepare (contract_request (pf_ready f) [] incompatible_runtime) s1) (\<lambda>s2. Passed)))"

definition undeclared_argument :: string where
  "undeclared_argument = ''__contract_test_undeclared_field__''"

definition invalid_arguments_are_rejected :: "'s port_fixture \<Rightarrow> verdict" where
  "invalid_arguments_are_rejected f =
     validate_skill_port_fixture f (\<lambda>prepare.
       rejected ErrSkillArgumentsInvalid ''invalid arguments error''
         (prepare ((contract_request (pf_ready f) [] (pf_runtime f))\<lparr>pr_arguments := Some [(undeclared_argument, GBool True)]\<rparr>) (pf_state f))
         (\<lambda>s. Passed))"

text \<open>\<open>RunSkillPort\<close>: every \<open>t.Run\<close> with the fixtures that its calls of the factory give.\<close>

definition run_skill_port :: "string \<Rightarrow> (nat \<Rightarrow> 's port_fixture) \<Rightarrow> (string \<times> verdict) list" where
  "run_skill_port name factory =
     [(name @ ''/prepare_replay_and_intentional_use'', replay_and_intentional_use (factory 0)),
      (name @ ''/unsupported_package_is_isolated'', unsupported_is_isolated (factory 1)),
      (name @ ''/deterministic_identities'', deterministic_identities (factory 2) (factory 3)),
      (name @ ''/unique_unqualified_name_resolves'', unqualified_resolves (factory 4)),
      (name @ ''/ambiguous_unqualified_name_is_rejected'', ambiguous_is_rejected (factory 5)),
      (name @ ''/alias_resolves_to_target'', alias_resolves (factory 6)),
      (name @ ''/incompatible_runtime_is_rejected'', incompatible_runtime_is_rejected (factory 7)),
      (name @ ''/invalid_arguments_are_rejected'', invalid_arguments_are_rejected (factory 8))]"

section \<open>Runtimes\<close>

record runtime_preparation =
  rp_invocation_id :: string
  rp_bundle_hash :: string
  rp_runtime :: string

record recording_state = env +
  rt_received :: "skill_bundle option"

text \<open>\<open>RecordingRuntime\<close>.\<close>

definition recording_prepare ::
  "skill_bundle \<Rightarrow> 'a recording_state_scheme \<Rightarrow> runtime_preparation res \<times> 'a recording_state_scheme" where
  "recording_prepare b w =
     (case ctx_err w of
        (Some e, w1) \<Rightarrow> (Inl e, w1)
      | (None, w1) \<Rightarrow>
          (Inr \<lparr>rp_invocation_id = sb_invocation_id b, rp_bundle_hash = sb_hash b, rp_runtime = sb_runtime b\<rparr>,
           w1\<lparr>rt_received := Some b\<rparr>))"

definition last_bundle :: "'a recording_state_scheme \<Rightarrow> skill_bundle option" where
  "last_bundle w = rt_received w"

definition same_bundle :: "skill_bundle \<Rightarrow> skill_bundle \<Rightarrow> bool" where
  "same_bundle l r \<longleftrightarrow> bundle_invocation l = bundle_invocation r \<and> sb_schema_version l = sb_schema_version r
     \<and> sb_description l = sb_description r \<and> sb_instructions l = sb_instructions r \<and> sb_assets l = sb_assets r
     \<and> sb_runtimes l = sb_runtimes r \<and> sb_runtime l = sb_runtime r \<and> sb_arguments l = sb_arguments r"

record 's runtime_fixture =
  rf_port :: "(skill_bundle \<Rightarrow> 's \<Rightarrow> runtime_preparation res \<times> 's) option"
  rf_state :: 's
  rf_bundle :: skill_bundle
  rf_received :: "('s \<Rightarrow> skill_bundle option) option"

definition consumes_exact_bundle :: "'s runtime_fixture \<Rightarrow> verdict" where
  "consumes_exact_bundle f =
     (case (rf_port f, rf_received f) of
        (Some prepare, Some received) \<Rightarrow>
          if sb_hash (rf_bundle f) = [] then Failed ''runtime port contract fixture is incomplete''
          else
         (case prepare (rf_bundle f) (rf_state f) of
            (Inl e, s) \<Rightarrow> Failed (err_text e)
          | (Inr receipt, s) \<Rightarrow>
              if rp_invocation_id receipt \<noteq> sb_invocation_id (rf_bundle f) \<or> rp_bundle_hash receipt \<noteq> sb_hash (rf_bundle f)
                 \<or> rp_runtime receipt \<noteq> sb_runtime (rf_bundle f)
              then Failed ''runtime receipt changed bundle identity''
              else (case received s of
                      None \<Rightarrow> Failed ''runtime did not consume the exact prepared bundle''
                    | Some b \<Rightarrow> if same_bundle b (rf_bundle f) then Passed
                               else Failed ''runtime did not consume the exact prepared bundle''))
      | _ \<Rightarrow> Failed ''runtime port contract fixture is incomplete'')"

definition run_runtime_port :: "string \<Rightarrow> 's runtime_fixture \<Rightarrow> (string \<times> verdict) list" where
  "run_runtime_port name f = [(name @ ''/consumes_exact_bundle'', consumes_exact_bundle f)]"

section \<open>What the in-memory port needs to pass\<close>

lemma cut_qualified: "CHR ''/'' \<notin> set s \<Longrightarrow> cut_str (s @ ''/'' @ n) ''/'' = Some (s, n)"
proof -
  assume "CHR ''/'' \<notin> set s"
  then have "index_of ''/'' (s @ ''/'' @ n) = Some (length s)" by (induction s) auto
  then show ?thesis by (simp add: cut_str_def)
qed

text \<open>A generator of identities that never fails and never gives one that is taken.\<close>

definition fresh_identities :: "('a pstate_scheme \<Rightarrow> string res \<times> 'a pstate_scheme) \<Rightarrow> bool" where
  "fresh_identities new_id = (\<forall>v. \<exists>j v'. new_id v = (Inr j, v') \<and> by_id v' = by_id v \<and> faults v' = faults v
     \<and> trim_space j \<noteq> [] \<and> map_of (by_id v) (trim_space j) = None)"

text \<open>The arguments of the suite and the names they carry.\<close>

definition suits_arguments :: "(string \<Rightarrow> float64 option) \<Rightarrow> skill_package \<Rightarrow> bool" where
  "suits_arguments lit pkg =
     (case parse_schema lit (pk_arguments_schema pkg) of
        Inr (Some schema) \<Rightarrow> validate_arguments (Some schema) [] = None
          \<and> validate_arguments (Some schema) [(''fixed_point'', GStr ''origin/main'')] = None
          \<and> validate_arguments (Some schema) [(''fixed_point'', GStr ''HEAD~1'')] = None
          \<and> map_of (schema_members schema) undeclared_argument = None
      | _ \<Rightarrow> False)"

text \<open>The hash is never empty and tells the two bundles of the replay apart.\<close>

definition separates :: "(string \<Rightarrow> string) \<Rightarrow> (string \<Rightarrow> float64 option) \<Rightarrow> skill_package \<Rightarrow> string \<Rightarrow> bool" where
  "separates sha lit pkg rt =
     ((\<forall>x. sha x \<noteq> [])
      \<and> map_sum id sb_hash (new_skill_bundle sha lit [] pkg rt (fixed_point ''origin/main''))
        \<noteq> map_sum id sb_hash (new_skill_bundle sha lit [] pkg rt (fixed_point ''HEAD~1'')))"

text \<open>A fixture that describes the catalog of its port: the Ready entry and its names, and the entries of the optional subtests.\<close>

definition describes_ready :: "catalog_entry list \<Rightarrow> (string \<times> string) list \<Rightarrow> catalog_entry \<Rightarrow> 's port_fixture \<Rightarrow> bool" where
  "describes_ready es aliases e f =
     (e \<in> set es \<and> ce_state e = SkillReady \<and> pf_ready f = entry_qualified e \<and> trim_space (pf_ready f) = pf_ready f
      \<and> CHR ''/'' \<notin> set (pi_source_id (pk_identity (ce_package e)))
      \<and> pf_runtime f \<noteq> [] \<and> trim_space (pf_runtime f) = pf_runtime f
      \<and> validate_runtime (ce_package e) (pf_runtime f) = None \<and> incompatible_runtime \<notin> set (pk_runtimes (ce_package e))
      \<and> map_of (clone_aliases aliases) (entry_name e) = None \<and> (\<forall>x \<in> set es. entry_qualified x \<noteq> entry_name e)
      \<and> filter (\<lambda>x. entry_name x = entry_name e) es = [e])"

definition describes_others :: "catalog_entry list \<Rightarrow> (string \<times> string) list \<Rightarrow> 's port_fixture \<Rightarrow> bool" where
  "describes_others es aliases f =
     (trim_space (pf_unsupported f) = pf_unsupported f \<and> trim_space (pf_ambiguous f) = pf_ambiguous f \<and> trim_space (pf_alias f) = pf_alias f
      \<and> (pf_unsupported f \<noteq> [] \<longrightarrow> (\<exists>u \<in> set es. entry_qualified u = pf_unsupported f \<and> ce_state u \<noteq> SkillReady))
      \<and> (pf_ambiguous f \<noteq> [] \<longrightarrow> (\<forall>x \<in> set es. entry_qualified x \<noteq> pf_ambiguous f)
         \<and> map_of (clone_aliases aliases) (pf_ambiguous f) = None \<and> 2 \<le> length (filter (\<lambda>x. entry_name x = pf_ambiguous f) es))
      \<and> (pf_alias f \<noteq> [] \<longrightarrow> (\<forall>x \<in> set es. entry_qualified x \<noteq> pf_alias f)
         \<and> map_of (clone_aliases aliases) (pf_alias f) = Some (pf_ready f)))"

text \<open>A new in-memory port, and a context that is never cancelled.\<close>

definition new_memory_fixture ::
  "(string \<Rightarrow> string) \<Rightarrow> (string \<Rightarrow> float64 option) \<Rightarrow> ('a pstate_scheme \<Rightarrow> string res \<times> 'a pstate_scheme) \<Rightarrow> skill_port
     \<Rightarrow> 'a pstate_scheme port_fixture \<Rightarrow> bool" where
  "new_memory_fixture sha lit new_id p f =
     (pf_port f = Some (prepare_skill sha lit new_id p) \<and> faults (pf_state f) = [] \<and> by_id (pf_state f) = [])"

section \<open>Single preparations\<close>

lemma new_bundle_content:
  assumes "new_skill_bundle sha lit i pkg rt args = Inr b"
  shows "new_skill_bundle sha lit j pkg rt args = Inr (b\<lparr>sb_invocation_id := j\<rparr>)"
    "sb_runtime b = trim_space rt" "sb_arguments b = normalize_arguments args" "sb_runtimes b = pk_runtimes pkg"
  using assms
  by (auto simp: new_skill_bundle_def Let_def enc_canonical_def split: option.splits sum.splits)

lemma normalize_member [simp]:
  "normalize_arguments None = None"
  "normalize_arguments (fixed_point v) = fixed_point v"
  "normalize_arguments (Some [(undeclared_argument, GBool True)]) = Some [(undeclared_argument, GBool True)]"
  by (simp_all add: normalize_arguments_def fixed_point_def map_build_def)

lemma suited_bundle:
  assumes "suits_arguments lit pkg" "validate_runtime pkg (trim_space rt) = None"
    "args \<in> {None, fixed_point ''origin/main'', fixed_point ''HEAD~1''}"
  obtains b where "new_skill_bundle sha lit i pkg rt args = Inr b"
  using assms by (auto simp: suits_arguments_def new_skill_bundle_def Let_def fixed_point_def normalize_member [unfolded fixed_point_def]
      split: sum.splits option.splits)

lemma unsuited_argument:
  assumes "suits_arguments lit pkg" "validate_runtime pkg (trim_space rt) = None"
  obtains e where "new_skill_bundle sha lit i pkg rt (Some [(undeclared_argument, GBool True)]) = Inl e"
    "errors_is e ErrSkillArgumentsInvalid"
proof -
  obtain schema where s: "parse_schema lit (pk_arguments_schema pkg) = Inr (Some schema)"
    "map_of (schema_members schema) undeclared_argument = None" "validate_arguments (Some schema) [] = None"
    using assms(1) by (auto simp: suits_arguments_def split: sum.splits option.splits)
  have "sc_required schema = []"
    using s(3) by (cases "sc_required schema") (simp_all add: validate_arguments_def validate_object_with_def)
  with s that assms(2) show thesis
    by (simp add: new_skill_bundle_def validate_arguments_def validate_object_with_def)
qed

lemma prepare_named:
  assumes "faults w = []" "trim_space n \<noteq> []" "resolve_skill_name p (trim_space n) = Inr e" "ce_state e = SkillReady"
  shows "trim_space i \<noteq> [] \<Longrightarrow>
      prepare_skill sha lit new_id p \<lparr>pr_name = n, pr_invocation_id = i, pr_runtime = rt, pr_arguments = args\<rparr> w
      = (case new_skill_bundle sha lit (trim_space i) (ce_package e) rt args of
           Inl er \<Rightarrow> (Inl er, w) | Inr b \<Rightarrow> register_bundle True b w)"
    "trim_space i = [] \<Longrightarrow> new_id w = (Inr j, v) \<Longrightarrow> trim_space j \<noteq> [] \<Longrightarrow>
      prepare_skill sha lit new_id p \<lparr>pr_name = n, pr_invocation_id = i, pr_runtime = rt, pr_arguments = args\<rparr> w
      = (case new_skill_bundle sha lit (trim_space j) (ce_package e) rt args of
           Inl er \<Rightarrow> (Inl er, v) | Inr b \<Rightarrow> register_bundle False b v)"
  using assms by (simp_all add: prepare_skill_def prepare_entry_def)

lemma prepare_refused:
  assumes "faults w = []" "trim_space (pr_name q) = n" "n \<noteq> []"
  shows "resolve_skill_name p n = Inl er \<Longrightarrow> prepare_skill sha lit new_id p q w = (Inl er, w)"
    "resolve_skill_name p n = Inr u \<Longrightarrow> ce_state u \<noteq> SkillReady \<Longrightarrow>
      \<exists>er. errors_is er ErrUnsupportedSkill \<and> prepare_skill sha lit new_id p q w = (Inl er, w)"
  using assms by (simp_all add: prepare_skill_def skill_err_def)

lemma register_new:
  "map_of (by_id w) (sb_invocation_id b) = None \<Longrightarrow>
     register_bundle x b w = (Inr b, w\<lparr>by_id := map_put (sb_invocation_id b) b (by_id w)\<rparr>)"
  by (simp add: register_bundle_def)

lemma filter_distinct: "distinct (map g es) \<Longrightarrow> e \<in> set es \<Longrightarrow> filter (\<lambda>x. g x = g e) es = [e]"
proof (induction es)
  case (Cons x es)
  then show ?case
  proof (cases "x = e")
    case True
    then have "filter (\<lambda>y. g y = g e) es = []" using Cons.prems(1)
      unfolding filter_empty_conv by (metis distinct.simps(2) image_eqI list.simps(9) set_map)
    with True show ?thesis by simp
  next
    case False
    with Cons show ?thesis by auto
  qed
qed simp

lemma ready_names:
  assumes "new_skill_port es aliases = Inr p" "describes_ready es aliases e f"
  shows "resolve_skill_name p (pf_ready f) = Inr e" "resolve_skill_name p (entry_name e) = Inr e"
    "trim_space (entry_name e) = entry_name e" "entry_name e \<noteq> []" "pf_ready f \<noteq> []"
    "cut_str (pf_ready f) ''/'' = Some (pi_source_id (pk_identity (ce_package e)), entry_name e)"
    "pi_source_id (pk_identity (ce_package e)) \<noteq> []" "pi_package_hash (pk_identity (ce_package e)) \<noteq> []"
proof -
  note d = assms(2) [unfolded describes_ready_def]
  from new_port_indexes [OF assms(1)] d have dist: "distinct (map entry_qualified es)" and v: "validate_catalog_entry e = None"
    by (auto simp: indexes_def)
  have "filter (\<lambda>x. entry_qualified x = pf_ready f) es = [e]"
    using filter_distinct [OF dist] d by simp
  then show "resolve_skill_name p (pf_ready f) = Inr e"
    by (simp add: resolve_name_scan [OF assms(1)] scan_names_def)
  have "filter (\<lambda>x. entry_qualified x = entry_name e) es = []" using d by (simp add: filter_empty_conv)
  with d show "resolve_skill_name p (entry_name e) = Inr e"
    by (simp add: resolve_name_scan [OF assms(1)] scan_names_def scan_catalog_def)
  show "trim_space (entry_name e) = entry_name e" "entry_name e \<noteq> []" "pi_source_id (pk_identity (ce_package e)) \<noteq> []"
    using v by (auto simp: validate_catalog_entry_def Let_def entry_name_def split: if_splits)
  show "pf_ready f \<noteq> []" using d by (simp add: entry_qualified_def qualified_name_def)
  show "cut_str (pf_ready f) ''/'' = Some (pi_source_id (pk_identity (ce_package e)), entry_name e)"
    using d cut_qualified [of "pi_source_id (pk_identity (ce_package e))" "pi_name (pk_identity (ce_package e))"]
    by (simp add: entry_qualified_def qualified_name_def entry_name_def)
  show "pi_package_hash (pk_identity (ce_package e)) \<noteq> []"
    using v d by (auto simp: validate_catalog_entry_def Let_def SkillReady_def UnsupportedSkillPackage_def split: if_splits)
qed

lemma other_names:
  assumes "new_skill_port es aliases = Inr p" "describes_ready es aliases e f" "describes_others es aliases f"
  shows "pf_alias f \<noteq> [] \<Longrightarrow> resolve_skill_name p (pf_alias f) = Inr e"
    "pf_unsupported f \<noteq> [] \<Longrightarrow> \<exists>u. resolve_skill_name p (pf_unsupported f) = Inr u \<and> ce_state u \<noteq> SkillReady"
    "pf_ambiguous f \<noteq> [] \<Longrightarrow> \<exists>er. resolve_skill_name p (pf_ambiguous f) = Inl er \<and> errors_is er ErrSkillNameAmbiguous"
proof -
  note o' = assms(3) [unfolded describes_others_def]
  from new_port_indexes [OF assms(1)] have dist: "distinct (map entry_qualified es)" by (simp add: indexes_def)
  have ready: "filter (\<lambda>x. entry_qualified x = pf_ready f) es = [e]"
    using filter_distinct [OF dist] assms(2) by (simp add: describes_ready_def)
  show "resolve_skill_name p (pf_alias f) = Inr e" if "pf_alias f \<noteq> []"
  proof -
    have "filter (\<lambda>x. entry_qualified x = pf_alias f) es = []" using o' that by (simp add: filter_empty_conv)
    with o' that ready show ?thesis by (simp add: resolve_name_scan [OF assms(1)] scan_names_def scan_catalog_def)
  qed
  show "\<exists>u. resolve_skill_name p (pf_unsupported f) = Inr u \<and> ce_state u \<noteq> SkillReady" if "pf_unsupported f \<noteq> []"
  proof -
    from o' that obtain u where u: "u \<in> set es" "entry_qualified u = pf_unsupported f" "ce_state u \<noteq> SkillReady" by blast
    with filter_distinct [OF dist u(1)] show ?thesis by (simp add: resolve_name_scan [OF assms(1)] scan_names_def)
  qed
  show "\<exists>er. resolve_skill_name p (pf_ambiguous f) = Inl er \<and> errors_is er ErrSkillNameAmbiguous" if "pf_ambiguous f \<noteq> []"
  proof -
    have "filter (\<lambda>x. entry_qualified x = pf_ambiguous f) es = []" using o' that by (simp add: filter_empty_conv)
    moreover have "2 \<le> length (filter (\<lambda>x. entry_name x = pf_ambiguous f) es)" using o' that by blast
    then obtain a b rest where "filter (\<lambda>x. entry_name x = pf_ambiguous f) es = a # b # rest"
      by (metis Suc_le_length_iff numeral_2_eq_2)
    ultimately show ?thesis using o' that
      by (simp add: resolve_name_scan [OF assms(1)] scan_names_def scan_catalog_def ambiguous_err_def skill_err_def)
  qed
qed

section \<open>The subtests\<close>

text \<open>A preparation of the Ready entry under an explicit identity that is not taken, and under a generated one.\<close>

lemma ready_prepared:
  assumes "faults w = []" "n \<noteq> []" "trim_space n = n" "resolve_skill_name p n = Inr e" "ce_state e = SkillReady"
    "suits_arguments lit (ce_package e)" "validate_runtime (ce_package e) (trim_space rt) = None"
    "args \<in> {None, fixed_point ''origin/main'', fixed_point ''HEAD~1''}"
    "i \<noteq> []" "trim_space i = i" "map_of (by_id w) i = None"
  obtains b where "new_skill_bundle sha lit i (ce_package e) rt args = Inr b"
    "prepare_skill sha lit new_id p \<lparr>pr_name = n, pr_invocation_id = i, pr_runtime = rt, pr_arguments = args\<rparr> w
     = (Inr b, w\<lparr>by_id := map_put i b (by_id w)\<rparr>)"
proof -
  obtain b where b: "new_skill_bundle sha lit i (ce_package e) rt args = Inr b"
    using suited_bundle [OF assms(6-8)] by blast
  from new_bundle_shape(1) [OF b] have "sb_invocation_id b = i" .
  with b prepare_named(1) [of w n p e i sha lit new_id rt args] register_new [of w b True] assms that show thesis by simp
qed

lemma ready_generated:
  assumes "faults w = []" "n \<noteq> []" "trim_space n = n" "resolve_skill_name p n = Inr e" "ce_state e = SkillReady"
    "suits_arguments lit (ce_package e)" "validate_runtime (ce_package e) (trim_space rt) = None"
    "args \<in> {None, fixed_point ''origin/main'', fixed_point ''HEAD~1''}" "fresh_identities new_id"
  obtains j b v where "map_of (by_id w) j = None" "new_skill_bundle sha lit j (ce_package e) rt args = Inr b"
    "prepare_skill sha lit new_id p \<lparr>pr_name = n, pr_invocation_id = [], pr_runtime = rt, pr_arguments = args\<rparr> w
     = (Inr b, v)" "by_id v = map_put j b (by_id w)" "faults v = []"
proof -
  from assms(9) obtain j v where j: "new_id w = (Inr j, v)" "by_id v = by_id w" "faults v = faults w"
    "trim_space j \<noteq> []" "map_of (by_id w) (trim_space j) = None" unfolding fresh_identities_def by blast
  obtain b where b: "new_skill_bundle sha lit (trim_space j) (ce_package e) rt args = Inr b"
    using suited_bundle [OF assms(6-8)] by blast
  from new_bundle_shape(1) [OF b] have "sb_invocation_id b = trim_space j" .
  with b j prepare_named(2) [of w n p e "[]" new_id j v sha lit rt args] register_new [of v b False] assms that
  show thesis by simp
qed

text \<open>The same under an identity that is taken: the bundle on record, or a refusal.\<close>

lemma ready_replayed:
  assumes "faults w = []" "n \<noteq> []" "trim_space n = n" "resolve_skill_name p n = Inr e" "ce_state e = SkillReady"
    "i \<noteq> []" "trim_space i = i" "map_of (by_id w) i = Some old" "new_skill_bundle sha lit i (ce_package e) rt args = Inr c"
  shows "sb_hash old = sb_hash c \<Longrightarrow>
      prepare_skill sha lit new_id p \<lparr>pr_name = n, pr_invocation_id = i, pr_runtime = rt, pr_arguments = args\<rparr> w = (Inr old, w)"
    "sb_hash old \<noteq> sb_hash c \<Longrightarrow> \<exists>er. errors_is er ErrSkillInvocationReplay \<and>
      prepare_skill sha lit new_id p \<lparr>pr_name = n, pr_invocation_id = i, pr_runtime = rt, pr_arguments = args\<rparr> w = (Inl er, w)"
  using assms new_bundle_shape(1) [OF assms(9)] prepare_named(1) [of w n p e i sha lit new_id rt args]
  by (simp_all add: register_bundle_def skill_err_def)

lemma contract_identities:
  "trim_space ''inv-contract-replay'' = ''inv-contract-replay''" "trim_space ''inv-after-unsupported'' = ''inv-after-unsupported''"
  "trim_space ''inv-contract-identity-left'' = ''inv-contract-identity-left''"
  "trim_space ''inv-contract-identity-right'' = ''inv-contract-identity-right''"
  "trim_space ''inv-contract-qualified'' = ''inv-contract-qualified''"
  "trim_space ''inv-contract-unqualified'' = ''inv-contract-unqualified''"
  "trim_space ''inv-contract-alias-target'' = ''inv-contract-alias-target''"
  "trim_space ''inv-contract-alias'' = ''inv-contract-alias''"
  "trim_space ''inv-contract-runtime-baseline'' = ''inv-contract-runtime-baseline''"
  "trim_space incompatible_runtime = incompatible_runtime" "incompatible_runtime \<noteq> []" "trim_space [] = []"
  by code_simp+

text \<open>A fixture of a new in-memory port.\<close>

definition contract_fixture ::
  "(string \<Rightarrow> string) \<Rightarrow> (string \<Rightarrow> float64 option) \<Rightarrow> ('a pstate_scheme \<Rightarrow> string res \<times> 'a pstate_scheme) \<Rightarrow> catalog_entry list
     \<Rightarrow> (string \<times> string) list \<Rightarrow> catalog_entry \<Rightarrow> 'a pstate_scheme port_fixture \<Rightarrow> bool" where
  "contract_fixture sha lit new_id es aliases e f \<longleftrightarrow>
     (\<exists>p. new_skill_port es aliases = Inr p \<and> new_memory_fixture sha lit new_id p f)
     \<and> describes_ready es aliases e f \<and> describes_others es aliases f
     \<and> suits_arguments lit (ce_package e) \<and> separates sha lit (ce_package e) (pf_runtime f) \<and> fresh_identities new_id"

lemma fixture_facts:
  assumes "contract_fixture sha lit new_id es aliases e f"
  obtains p where "new_skill_port es aliases = Inr p" "describes_ready es aliases e f" "describes_others es aliases f"
    "suits_arguments lit (ce_package e)" "separates sha lit (ce_package e) (pf_runtime f)" "fresh_identities new_id"
    "validate_skill_port_fixture f = (\<lambda>rest. rest (prepare_skill sha lit new_id p))"
    "faults (pf_state f) = []" "by_id (pf_state f) = []" "ce_state e = SkillReady" "pf_ready f \<noteq> []" "trim_space (pf_ready f) = pf_ready f"
    "resolve_skill_name p (pf_ready f) = Inr e" "validate_runtime (ce_package e) (trim_space (pf_runtime f)) = None"
    "validate_runtime (ce_package e) (trim_space []) = None" "trim_space (pf_runtime f) = pf_runtime f"
proof -
  from assms obtain p where p: "new_skill_port es aliases = Inr p" "new_memory_fixture sha lit new_id p f"
    by (auto simp: contract_fixture_def)
  from assms have d: "describes_ready es aliases e f" by (simp add: contract_fixture_def)
  note n = ready_names [OF p(1) d]
  have "validate_runtime (ce_package e) (trim_space []) = None"
    by (simp add: validate_runtime_def contract_identities)
  with p d n(1,5) assms that show thesis
    by (simp add: contract_fixture_def describes_ready_def new_memory_fixture_def validate_skill_port_fixture_def fun_eq_iff)
qed

lemma separated:
  assumes "separates sha lit pkg rt" "new_skill_bundle sha lit i pkg rt (fixed_point ''origin/main'') = Inr b"
    "new_skill_bundle sha lit j pkg rt (fixed_point ''HEAD~1'') = Inr c"
  shows "sb_hash b \<noteq> sb_hash c"
  using assms(1) new_bundle_content(1) [OF assms(2), of "[]"] new_bundle_content(1) [OF assms(3), of "[]"]
  by (simp add: separates_def)

lemma hash_present: "separates sha lit pkg rt \<Longrightarrow> new_skill_bundle sha lit i pkg rt args = Inr b \<Longrightarrow> sb_hash b \<noteq> []"
  using new_bundle_shape(2) [of sha lit i pkg rt args b] by (simp add: separates_def bundle_ok_def)

lemma same_content_same_hash:
  assumes "new_skill_bundle sha lit i pkg rt args = Inr b" "new_skill_bundle sha' lit j pkg rt args = Inr c" "sha = sha'"
  shows "sb_hash b = sb_hash c" "sb_identity b = sb_identity c"
  using new_bundle_content(1) [OF assms(1), of j] assms(2,3) by auto

lemma passes_replay:
  assumes "contract_fixture sha lit new_id es aliases e f"
  shows "replay_and_intentional_use f = Passed"
  using assms
proof (rule fixture_facts)
  fix p
  assume port: "new_skill_port es aliases = Inr p" and d: "describes_ready es aliases e f"
    and suits: "suits_arguments lit (ce_package e)" and sep: "separates sha lit (ce_package e) (pf_runtime f)"
    and fresh: "fresh_identities new_id" and v: "validate_skill_port_fixture f = (\<lambda>rest. rest (prepare_skill sha lit new_id p))"
    and w: "faults (pf_state f) = []" "by_id (pf_state f) = []" and e: "ce_state e = SkillReady" "pf_ready f \<noteq> []"
      "trim_space (pf_ready f) = pf_ready f" "resolve_skill_name p (pf_ready f) = Inr e"
      "validate_runtime (ce_package e) (trim_space (pf_runtime f)) = None" and rt: "trim_space (pf_runtime f) = pf_runtime f"
  let ?prepare = "prepare_skill sha lit new_id p" and ?i = "''inv-contract-replay''"
  let ?q = "\<lambda>i v. \<lparr>pr_name = pf_ready f, pr_invocation_id = i, pr_runtime = pf_runtime f, pr_arguments = fixed_point v\<rparr>"
  obtain b where b: "new_skill_bundle sha lit ?i (ce_package e) (pf_runtime f) (fixed_point ''origin/main'') = Inr b"
      "?prepare (?q ?i ''origin/main'') (pf_state f) = (Inr b, pf_state f\<lparr>by_id := map_put ?i b []\<rparr>)"
    using ready_prepared [of "pf_state f" "pf_ready f" p e lit "pf_runtime f" "fixed_point ''origin/main''" ?i sha new_id]
      w e suits contract_identities(1) by auto
  let ?w = "pf_state f\<lparr>by_id := map_put ?i b []\<rparr>"
  note shape = new_bundle_shape [OF b(1)] and content = new_bundle_content(2,3) [OF b(1)]
  have taken: "faults ?w = []" "map_of (by_id ?w) ?i = Some b" using w by simp_all
  note replayed = ready_replayed [OF taken(1) e(2,3,4,1) _ contract_identities(1) taken(2)]
  have again: "?prepare (?q ?i ''origin/main'') ?w = (Inr b, ?w)"
    using replayed(1) [OF _ b(1)] by blast
  obtain c where c: "new_skill_bundle sha lit ?i (ce_package e) (pf_runtime f) (fixed_point ''HEAD~1'') = Inr c"
    using suited_bundle [OF suits e(5)] by blast
  obtain er where changed: "?prepare (?q ?i ''HEAD~1'') ?w = (Inl er, ?w)" "errors_is er ErrSkillInvocationReplay"
    using replayed(2) [OF _ c separated [OF sep b(1) c]] by blast
  obtain j1 b1 v1 where one: "map_of (by_id ?w) j1 = None"
      "new_skill_bundle sha lit j1 (ce_package e) (pf_runtime f) (fixed_point ''origin/main'') = Inr b1"
      "?prepare (?q [] ''origin/main'') ?w = (Inr b1, v1)" "by_id v1 = map_put j1 b1 (by_id ?w)" "faults v1 = []"
    using ready_generated [of ?w "pf_ready f" p e lit "pf_runtime f" "fixed_point ''origin/main''" new_id sha] w e suits fresh by auto
  obtain j2 b2 v2 where two: "map_of (by_id v1) j2 = None"
      "new_skill_bundle sha lit j2 (ce_package e) (pf_runtime f) (fixed_point ''origin/main'') = Inr b2"
      "?prepare (?q [] ''origin/main'') v1 = (Inr b2, v2)"
    by (rule ready_generated [OF one(5) e(2,3,4,1) suits e(5), of "fixed_point ''origin/main''" new_id sha])
      (use fresh in auto)
  have ids: "j1 \<noteq> ?i" "j2 \<noteq> j1" using one(1,4) two(1) by auto
  have hashes: "sb_hash b1 = sb_hash b" "sb_hash b2 = sb_hash b1"
    by (rule same_content_same_hash(1) [OF one(2) b(1) refl], rule same_content_same_hash(1) [OF two(2) one(2) refl])
  have named: "sb_invocation_id b1 = j1" "sb_invocation_id b2 = j2" "sb_invocation_id b = ?i"
    using new_bundle_shape(1) [OF one(2)] new_bundle_shape(1) [OF two(2)] shape(1) by auto
  have identity: "pi_source_id (sb_identity b) \<noteq> []" "pi_name (sb_identity b) \<noteq> []" "pi_package_hash (sb_identity b) \<noteq> []" "sb_hash b \<noteq> []"
    using ready_names(4,7,8) [OF port d] shape(3) hash_present [OF sep b(1)] by (simp_all add: entry_name_def)
  have uses: "intentional_uses ?prepare (?q [] ''origin/main'') b ?w = Passed"
    using one(3) two(3) ids hashes named by (simp add: intentional_uses_def prepared_def)
  show "replay_and_intentional_use f = Passed"
    using b(2) again changed uses content rt identity v
    by (simp add: replay_and_intentional_use_def replay_request_def contract_request_def prepared_def rejected_def)
qed

text \<open>The bundle of the Ready entry, whichever of its names and whatever free identity the request has.\<close>

lemma passes_unsupported:
  assumes "contract_fixture sha lit new_id es aliases e f"
  shows "unsupported_is_isolated f = Passed"
  using assms
proof (rule fixture_facts)
  fix p
  assume port: "new_skill_port es aliases = Inr p" and d: "describes_ready es aliases e f" and o': "describes_others es aliases f"
    and suits: "suits_arguments lit (ce_package e)"
    and v: "validate_skill_port_fixture f = (\<lambda>rest. rest (prepare_skill sha lit new_id p))"
    and w: "faults (pf_state f) = []" "by_id (pf_state f) = []" and e: "ce_state e = SkillReady" "pf_ready f \<noteq> []"
      "trim_space (pf_ready f) = pf_ready f" "resolve_skill_name p (pf_ready f) = Inr e"
      "validate_runtime (ce_package e) (trim_space []) = None"
  show "unsupported_is_isolated f = Passed"
  proof (cases "pf_unsupported f = []")
    case True
    then show ?thesis by (simp add: unsupported_is_isolated_def)
  next
    case False
    with other_names(2) [OF port d o'] obtain u where u: "resolve_skill_name p (pf_unsupported f) = Inr u" "ce_state u \<noteq> SkillReady"
      by blast
    have "trim_space (pf_unsupported f) = pf_unsupported f" using o' by (simp add: describes_others_def)
    with prepare_refused(2) [OF w(1) _ False u, of "contract_request (pf_unsupported f) [] []" sha lit new_id]
    obtain er where no: "errors_is er ErrUnsupportedSkill"
      "prepare_skill sha lit new_id p (contract_request (pf_unsupported f) [] []) (pf_state f) = (Inl er, pf_state f)"
      by (auto simp: contract_request_def)
    obtain b w1 where yes: "prepare_skill sha lit new_id p (contract_request (pf_ready f) ''inv-after-unsupported'' []) (pf_state f) = (Inr b, w1)"
      unfolding contract_request_def
      by (rule ready_prepared [OF w(1) e(2,3,4,1) suits e(5), of None "''inv-after-unsupported''" sha new_id])
        (use w contract_identities in auto)
    show ?thesis using False no yes v by (simp add: unsupported_is_isolated_def rejected_def)
  qed
qed

lemma passes_deterministic:
  assumes "contract_fixture sha lit new_id es aliases e f" "contract_fixture sha lit new_id' es aliases e g"
    "pf_runtime f = pf_runtime g"
  shows "deterministic_identities f g = Passed"
proof -
  have one: "\<exists>p b w. validate_skill_port_fixture h = (\<lambda>rest. rest (prepare_skill sha lit id p))
      \<and> prepare_skill sha lit id p (contract_request (pf_ready h) i (pf_runtime h)) (pf_state h) = (Inr b, w)
      \<and> new_skill_bundle sha lit i (ce_package e) (pf_runtime h) None = Inr b"
    if c: "contract_fixture sha lit id es aliases e h" and i: "i \<noteq> []" "trim_space i = i" for h id i
    using c
  proof (rule fixture_facts)
    fix p
    assume suits: "suits_arguments lit (ce_package e)"
      and v: "validate_skill_port_fixture h = (\<lambda>rest. rest (prepare_skill sha lit id p))"
      and w: "faults (pf_state h) = []" "by_id (pf_state h) = []" and e: "ce_state e = SkillReady" "pf_ready h \<noteq> []"
        "trim_space (pf_ready h) = pf_ready h" "resolve_skill_name p (pf_ready h) = Inr e"
        "validate_runtime (ce_package e) (trim_space (pf_runtime h)) = None"
    obtain b w1 where "new_skill_bundle sha lit i (ce_package e) (pf_runtime h) None = Inr b"
      "prepare_skill sha lit id p (contract_request (pf_ready h) i (pf_runtime h)) (pf_state h) = (Inr b, w1)"
      unfolding contract_request_def
      by (rule ready_prepared [OF w(1) e(2,3,4,1) suits e(5), of None i sha id]) (use i w in auto)
    with v show ?thesis by blast
  qed
  obtain p b w where l: "validate_skill_port_fixture f = (\<lambda>rest. rest (prepare_skill sha lit new_id p))"
      "prepare_skill sha lit new_id p (contract_request (pf_ready f) ''inv-contract-identity-left'' (pf_runtime f)) (pf_state f) = (Inr b, w)"
      "new_skill_bundle sha lit ''inv-contract-identity-left'' (ce_package e) (pf_runtime f) None = Inr b"
    using one [OF assms(1) _ contract_identities(3)] by blast
  obtain q c w' where r: "validate_skill_port_fixture g = (\<lambda>rest. rest (prepare_skill sha lit new_id' q))"
      "prepare_skill sha lit new_id' q (contract_request (pf_ready g) ''inv-contract-identity-right'' (pf_runtime g)) (pf_state g) = (Inr c, w')"
      "new_skill_bundle sha lit ''inv-contract-identity-right'' (ce_package e) (pf_runtime g) None = Inr c"
    using one [OF assms(2) _ contract_identities(4)] by blast
  from same_content_same_hash [OF l(3) r(3) [folded assms(3)] refl] l(1,2) r(1,2) show ?thesis
    by (simp add: deterministic_identities_def prepared_def)
qed

text \<open>Two preparations of the Ready entry, by its qualified name and by another.\<close>

lemma two_names:
  assumes "contract_fixture sha lit new_id es aliases e f" "trim_space n = n" "n \<noteq> []"
    "\<And>p. new_skill_port es aliases = Inr p \<Longrightarrow> resolve_skill_name p n = Inr e"
    "i \<noteq> []" "trim_space i = i" "j \<noteq> []" "trim_space j = j" "i \<noteq> j"
  obtains p b v c u where "validate_skill_port_fixture f = (\<lambda>rest. rest (prepare_skill sha lit new_id p))"
    "prepare_skill sha lit new_id p (contract_request (pf_ready f) i (pf_runtime f)) (pf_state f) = (Inr b, v)"
    "prepare_skill sha lit new_id p (contract_request n j (pf_runtime f)) v = (Inr c, u)" "sb_identity b = sb_identity c"
  using assms(1)
proof (rule fixture_facts)
  fix p
  assume port: "new_skill_port es aliases = Inr p" and suits: "suits_arguments lit (ce_package e)"
    and v: "validate_skill_port_fixture f = (\<lambda>rest. rest (prepare_skill sha lit new_id p))"
    and w: "faults (pf_state f) = []" "by_id (pf_state f) = []" and e: "ce_state e = SkillReady" "pf_ready f \<noteq> []"
      "trim_space (pf_ready f) = pf_ready f" "resolve_skill_name p (pf_ready f) = Inr e"
      "validate_runtime (ce_package e) (trim_space (pf_runtime f)) = None"
  obtain b where b: "new_skill_bundle sha lit i (ce_package e) (pf_runtime f) None = Inr b"
    "prepare_skill sha lit new_id p (contract_request (pf_ready f) i (pf_runtime f)) (pf_state f) = (Inr b, pf_state f\<lparr>by_id := map_put i b []\<rparr>)"
    unfolding contract_request_def
    by (rule ready_prepared [OF w(1) e(2,3,4,1) suits e(5), of None i sha new_id]) (use assms(5,6) w in auto)
  let ?w = "pf_state f\<lparr>by_id := map_put i b []\<rparr>"
  have w1: "faults ?w = []" "map_of (by_id ?w) j = None" using w assms(9) by auto
  obtain c u where c: "new_skill_bundle sha lit j (ce_package e) (pf_runtime f) None = Inr c"
    "prepare_skill sha lit new_id p (contract_request n j (pf_runtime f)) ?w = (Inr c, u)"
    unfolding contract_request_def
    by (rule ready_prepared [OF w1(1) assms(3,2) assms(4) [OF port] e(1) suits e(5), of None j sha new_id])
      (use assms(7,8) w1 in auto)
  from that [OF v b(2) c(2)] same_content_same_hash(2) [OF b(1) c(1) refl] show thesis .
qed

lemma passes_names:
  assumes "contract_fixture sha lit new_id es aliases e f"
  shows "unqualified_resolves f = Passed" "alias_resolves f = Passed" "ambiguous_is_rejected f = Passed"
proof -
  have d: "describes_ready es aliases e f" and o': "describes_others es aliases f" using assms by (simp_all add: contract_fixture_def)
  from assms obtain p where port: "new_skill_port es aliases = Inr p" by (auto simp: contract_fixture_def)
  note n = ready_names [OF _ d]
  show "unqualified_resolves f = Passed"
    by (rule two_names [OF assms n(3) [OF port] n(4) [OF port] n(2) _ contract_identities(5) _ contract_identities(6)])
      (simp_all add: unqualified_resolves_def n(6) [OF port] prepared_def)
  show "alias_resolves f = Passed"
  proof (cases "pf_alias f = []")
    case True
    then show ?thesis by (simp add: alias_resolves_def)
  next
    case False
    have trim: "trim_space (pf_alias f) = pf_alias f" using o' by (simp add: describes_others_def)
    show ?thesis
      by (rule two_names [OF assms trim False other_names(1) [OF _ d o' False] _ contract_identities(7) _ contract_identities(8)])
        (simp_all add: alias_resolves_def prepared_def False)
  qed
  show "ambiguous_is_rejected f = Passed"
  proof (cases "pf_ambiguous f = []")
    case True
    then show ?thesis by (simp add: ambiguous_is_rejected_def)
  next
    case False
    show ?thesis
      using assms
    proof (rule fixture_facts)
      fix p
      assume q: "new_skill_port es aliases = Inr p" and w: "faults (pf_state f) = []"
        and v: "validate_skill_port_fixture f = (\<lambda>rest. rest (prepare_skill sha lit new_id p))"
      obtain er where er: "resolve_skill_name p (pf_ambiguous f) = Inl er" "errors_is er ErrSkillNameAmbiguous"
        using other_names(3) [OF q d o' False] by blast
      have "trim_space (pr_name (contract_request (pf_ambiguous f) [] [])) = pf_ambiguous f"
        using o' by (simp add: describes_others_def contract_request_def)
      from prepare_refused(1) [OF w this False er(1), of sha lit new_id] er(2) v show ?thesis
        by (simp add: ambiguous_is_rejected_def rejected_def)
    qed
  qed
qed

text \<open>A request without an identity whose bundle cannot be built.\<close>

lemma generated_refused:
  assumes "faults w = []" "trim_space n = n" "n \<noteq> []" "resolve_skill_name p n = Inr e" "ce_state e = SkillReady"
    "fresh_identities new_id" "\<And>j. \<exists>er. new_skill_bundle sha lit j (ce_package e) rt args = Inl er \<and> errors_is er s"
  shows "\<exists>er v. errors_is er s \<and>
    prepare_skill sha lit new_id p \<lparr>pr_name = n, pr_invocation_id = [], pr_runtime = rt, pr_arguments = args\<rparr> w = (Inl er, v)"
proof -
  from assms(6) obtain j v where j: "new_id w = (Inr j, v)" "trim_space j \<noteq> []" unfolding fresh_identities_def by blast
  from assms(7) obtain er where "new_skill_bundle sha lit (trim_space j) (ce_package e) rt args = Inl er" "errors_is er s" by blast
  with j prepare_named(2) [of w n p e "[]" new_id j v sha lit rt args] assms show ?thesis
    by (simp add: contract_identities)
qed

lemma passes_refusals:
  assumes "contract_fixture sha lit new_id es aliases e f"
  shows "incompatible_runtime_is_rejected f = Passed" "invalid_arguments_are_rejected f = Passed"
proof -
  have "incompatible_runtime_is_rejected f = Passed \<and> invalid_arguments_are_rejected f = Passed"
    using assms
  proof (rule fixture_facts)
    fix p
    assume d: "describes_ready es aliases e f" and suits: "suits_arguments lit (ce_package e)" and fresh: "fresh_identities new_id"
      and v: "validate_skill_port_fixture f = (\<lambda>rest. rest (prepare_skill sha lit new_id p))"
      and w: "faults (pf_state f) = []" "by_id (pf_state f) = []" and e: "ce_state e = SkillReady" "pf_ready f \<noteq> []"
        "trim_space (pf_ready f) = pf_ready f" "resolve_skill_name p (pf_ready f) = Inr e"
        "validate_runtime (ce_package e) (trim_space (pf_runtime f)) = None"
    obtain b where b: "new_skill_bundle sha lit ''inv-contract-runtime-baseline'' (ce_package e) (pf_runtime f) None = Inr b"
      "prepare_skill sha lit new_id p (contract_request (pf_ready f) ''inv-contract-runtime-baseline'' (pf_runtime f)) (pf_state f)
       = (Inr b, pf_state f\<lparr>by_id := map_put ''inv-contract-runtime-baseline'' b (by_id (pf_state f))\<rparr>)"
      unfolding contract_request_def
      by (rule ready_prepared [OF w(1) e(2,3,4,1) suits e(5), of None "''inv-contract-runtime-baseline''" sha new_id])
        (use w contract_identities in auto)
    let ?w = "pf_state f\<lparr>by_id := map_put ''inv-contract-runtime-baseline'' b (by_id (pf_state f))\<rparr>"
    have w1: "faults ?w = []" using w by simp
    have refused: "\<exists>er v. errors_is er ErrSkillRuntimeIncompatible \<and> prepare_skill sha lit new_id p
        (contract_request (pf_ready f) [] incompatible_runtime) ?w = (Inl er, v)" if "pk_runtimes (ce_package e) \<noteq> []"
      unfolding contract_request_def
    proof (rule generated_refused [OF w1 e(3,2,4,1) fresh])
      show "\<exists>er. new_skill_bundle sha lit j (ce_package e) incompatible_runtime None = Inl er \<and> errors_is er ErrSkillRuntimeIncompatible" for j
        using that d contract_identities(10,11)
        by (simp add: new_skill_bundle_def validate_runtime_def skill_err_def describes_ready_def)
    qed
    have invalid: "\<exists>er v. errors_is er ErrSkillArgumentsInvalid \<and> prepare_skill sha lit new_id p
        \<lparr>pr_name = pf_ready f, pr_invocation_id = [], pr_runtime = pf_runtime f, pr_arguments = Some [(undeclared_argument, GBool True)]\<rparr>
        (pf_state f) = (Inl er, v)"
      by (rule generated_refused [OF w(1) e(3,2,4,1) fresh]) (metis unsuited_argument suits e(5))
    have "incompatible_runtime_is_rejected f = Passed"
    proof (cases "pk_runtimes (ce_package e) = []")
      case True
      with b v new_bundle_content(4) [OF b(1)] show ?thesis by (simp add: incompatible_runtime_is_rejected_def prepared_def)
    next
      case False
      with refused b v d new_bundle_content(4) [OF b(1)] show ?thesis
        by (auto simp: incompatible_runtime_is_rejected_def prepared_def rejected_def describes_ready_def)
    qed
    with invalid v show ?thesis by (auto simp: invalid_arguments_are_rejected_def rejected_def contract_request_def)
  qed
  then show "incompatible_runtime_is_rejected f = Passed" "invalid_arguments_are_rejected f = Passed" by blast+
qed

section \<open>Properties\<close>

lemma passes_contract:
  assumes "\<forall>k. contract_fixture sha lit (new_id k) es aliases e (factory k) \<and> pf_runtime (factory k) = rt"
  shows "map snd (run_skill_port name factory) = replicate 8 Passed"
proof -
  have f: "contract_fixture sha lit (new_id k) es aliases e (factory k)" for k using assms by blast
  have "pf_runtime (factory 2) = pf_runtime (factory 3)" using assms by simp
  from passes_deterministic [OF f [of 2] f [of 3] this] show ?thesis
    by (simp add: run_skill_port_def eval_nat_numeral passes_replay [OF f] passes_unsupported [OF f] passes_names [OF f] passes_refusals [OF f])
qed


text \<open>The fixture of the port's own test.\<close>

definition review_entry :: catalog_entry where
  "review_entry = \<lparr>ce_state = SkillReady, ce_package = zero_package\<lparr>pk_schema_version := 1,
     pk_identity := \<lparr>pi_source_id = ''mattpocock'', pi_name = ''code-review'', pi_package_hash = replicate 64 CHR ''a''\<rparr>,
     pk_description := ''Review a fixed diff'', pk_instructions := ''# Code Review'', pk_runtimes := [''codex'', ''claude''],
     pk_arguments_schema := [(''properties'', GMap [(''fixed_point'', GMap [(''type'', GStr ''string'')])]), (''type'', GStr ''object'')]\<rparr>,
     ce_diagnostic = []\<rparr>"

definition unsupported_sample :: "string \<Rightarrow> string \<Rightarrow> catalog_entry" where
  "unsupported_sample source name = \<lparr>ce_state = UnsupportedSkillPackage, ce_package = zero_package\<lparr>
     pk_identity := \<lparr>pi_source_id = source, pi_name = name, pi_package_hash = []\<rparr>\<rparr>, ce_diagnostic = ''not supported''\<rparr>"

definition review_catalog :: "catalog_entry list" where
  "review_catalog = [review_entry, unsupported_sample ''mattpocock'' ''diagnosing-bugs'', unsupported_sample ''alpha'' ''shared'',
     unsupported_sample ''beta'' ''shared'']"

definition review_aliases :: "(string \<times> string) list" where
  "review_aliases = [(''cr'', ''mattpocock/code-review'')]"

definition tagged_sha :: "string \<Rightarrow> string" where "tagged_sha s = CHR ''h'' # s"

text \<open>A generator that gives a name longer than every one that is taken.\<close>

definition longer_id :: "'a pstate_scheme \<Rightarrow> string res \<times> 'a pstate_scheme" where
  "longer_id w = (Inr (replicate (Suc (sum_list (map (length \<circ> fst) (by_id w)))) CHR ''g''), w)"

definition review_port :: skill_port where
  "review_port = (case new_skill_port review_catalog review_aliases of
     Inr p \<Rightarrow> p | Inl e \<Rightarrow> \<lparr>sp_entries = [], sp_by_unqualified = [], sp_aliases = []\<rparr>)"

definition review_fixture :: "pstate port_fixture" where
  "review_fixture = \<lparr>pf_port = Some (prepare_skill tagged_sha no_floats longer_id review_port), pf_state = no_bundles,
     pf_ready = ''mattpocock/code-review'', pf_unsupported = ''mattpocock/diagnosing-bugs'', pf_runtime = ''codex'',
     pf_ambiguous = ''shared'', pf_alias = ''cr''\<rparr>"

lemma trim_letters: "trim_space (replicate (Suc n) CHR ''g'') = replicate (Suc n) CHR ''g''"
proof -
  have "byte CHR ''g'' < 128 \<and> \<not> ascii_ws CHR ''g''" by code_simp
  then show ?thesis by (intro trim_space_id) (simp_all add: last_replicate)
qed

lemma longer_fresh: "fresh_identities longer_id"
proof -
  have "map_of m (replicate (Suc (sum_list (map (length \<circ> fst) m))) CHR ''g'') = None" for m :: "(string \<times> skill_bundle) list"
  proof -
    let ?n = "Suc (sum_list (map (length \<circ> fst) m))"
    have short: "kv \<in> set m \<Longrightarrow> length (fst kv) < ?n" for kv by (induction m) auto
    have "replicate ?n CHR ''g'' \<notin> fst ` set m"
    proof
      assume "replicate ?n CHR ''g'' \<in> fst ` set m"
      then obtain kv where "kv \<in> set m" "fst kv = replicate ?n CHR ''g''" by auto
      with short [OF this(1)] show False by simp
    qed
    then show ?thesis unfolding map_of_eq_None_iff .
  qed
  with trim_letters show ?thesis by (simp add: fresh_identities_def longer_id_def)
qed


section \<open>The recording runtime\<close>

text \<open>The fake runtime passes the contract of runtimes with every bundle that has a hash, and a fixture of it whose context is
  cancelled fails with the error of the context.\<close>

lemma recording_runtime_passes:
  assumes "faults w = []" "sb_hash b \<noteq> []"
  shows "consumes_exact_bundle \<lparr>rf_port = Some recording_prepare, rf_state = w, rf_bundle = b, rf_received = Some last_bundle\<rparr> = Passed"
  using assms by (simp add: consumes_exact_bundle_def recording_prepare_def last_bundle_def same_bundle_def)

end
