(* ===== verification/Skill_Package.thy ===== *)
theory Skill_Package
  imports Skill_Catalog Artifact_Path
begin

text \<open>
  \<open>adapters/skillfilesystem/catalog.go\<close>, the part that has no state: the declaration of a skill
  package and its normalisation, the rules a declared file must obey, the package hash, and
  the loading of a package from its source. The source directories are the parameter
  \<^emph>\<open>source_view\<close>: what the system calls answer for a path. The decoder of the third-party
  package \<open>yaml.v3\<close> is the parameter \<^emph>\<open>yaml_reader\<close>. A schema that has no JSON encoding (keys that are no
  strings, numbers that are not finite) is not represented.
\<close>

section \<open>Declarations\<close>

definition RuntimeLockSchemaVersion :: int where "RuntimeLockSchemaVersion = 1"
definition LocalManifestName :: string where "LocalManifestName = ''skill.yaml''"
definition maxSkillDiagnosticBytes :: nat where "maxSkillDiagnosticBytes = 1024"
definition maxInstructionsBytes :: int where "maxInstructionsBytes = 256 * 1024"
definition maxAssetBytes :: int where "maxAssetBytes = 1024 * 1024"
definition maxBundleBytes :: int where "maxBundleBytes = 5 * 1024 * 1024"
definition maxPackageFiles :: nat where "maxPackageFiles = 128"
definition maxDirectoryDepth :: nat where "maxDirectoryDepth = 8"
definition maxManifestBytes :: int where "maxManifestBytes = 256 * 1024"

definition invalid_package :: "string \<Rightarrow> err" where
  "invalid_package t = new_err t"

record package_declaration =
  pd_schema_version :: int
  pd_source_id :: string
  pd_name :: string
  pd_directory :: string
  pd_description :: string
  pd_license :: string
  pd_source_url :: string
  pd_source_revision :: string
  pd_instructions :: string
  pd_files :: "string list"
  pd_arguments_schema :: "(string \<times> goval) list"
  pd_runtimes :: "string list"

record runtime_lock =
  rl_schema_version :: int
  rl_packages :: "package_declaration list"

type_synonym source_file = "string \<times> string"

text \<open>\<open>json.Marshal\<close> of a declaration; the directory is not written.\<close>

definition enc_declaration :: "package_declaration \<Rightarrow> json" where
  "enc_declaration d = JObj
     ([(''schema_version'', JNum (NInt (pd_schema_version d))), (''source_id'', JStr (pd_source_id d)),
       (''name'', JStr (pd_name d)), (''description'', JStr (pd_description d)),
       (''license'', JStr (pd_license d)), (''source_url'', JStr (pd_source_url d)),
       (''source_revision'', JStr (pd_source_revision d)), (''instructions'', JStr (pd_instructions d)),
       (''files'', JArr (str_list (pd_files d)))]
      @ opt_args ''arguments_schema'' (Some (pd_arguments_schema d))
      @ opt_arr ''compatible_runtimes'' (str_list (pd_runtimes d)))"

section \<open>Normalisation\<close>

text \<open>On Unix a path is absolute when it begins with a slash, and there are no volume names.\<close>

definition normalize_declared_path :: "string \<Rightarrow> string res" where
  "normalize_declared_path v =
     (let raw = trim_space v in
      if raw = [] \<or> contains_str raw [CHR 0x5C] \<or> has_prefix ''/'' raw
      then Inl (new_err ''path must be a portable relative path'')
      else (let parts = split_on (CHR ''/'') raw in
        if list_ex (\<lambda>p. p = [] \<or> p = dot \<or> p = dotdot) parts
        then Inl (new_err ''path traversal and empty segments are prohibited'')
        else if length parts - 1 > maxDirectoryDepth
        then Inl (new_err ''path exceeds eight directory levels'')
        else Inr (join_with ''/'' parts)))"

text \<open>The loop over the declared files, which keeps those it has \<open>seen\<close>.\<close>

fun declared_files :: "string list \<Rightarrow> string list \<Rightarrow> string list res" where
  "declared_files seen [] = Inr seen"
| "declared_files seen (raw # rs) =
     (case normalize_declared_path raw of
        Inl e \<Rightarrow> Inl (invalid_package (''declared file '' @ go_quote raw
                   @ '' must be a package-relative path: '' @ err_text e))
      | Inr f \<Rightarrow>
          if f \<in> set seen
          then Inl (invalid_package (''declared file '' @ go_quote f @ '' is duplicated''))
          else declared_files (seen @ [f]) rs)"

definition trim_declaration :: "package_declaration \<Rightarrow> package_declaration" where
  "trim_declaration d = d\<lparr>pd_source_id := trim_space (pd_source_id d), pd_name := trim_space (pd_name d),
     pd_directory := trim_space (pd_directory d), pd_description := trim_space (pd_description d),
     pd_license := trim_space (pd_license d), pd_source_url := trim_space (pd_source_url d),
     pd_source_revision := trim_space (pd_source_revision d)\<rparr>"

definition incomplete_declaration :: "package_declaration \<Rightarrow> bool" where
  "incomplete_declaration d =
     (pd_source_id d = [] \<or> pd_name d = [] \<or> pd_description d = [] \<or> pd_license d = []
      \<or> pd_source_url d = [] \<or> pd_source_revision d = [])"

text \<open>The declaration is changed in place, so it is returned with the error as well.\<close>

definition normalize_declaration :: "package_declaration \<Rightarrow> err option \<times> package_declaration" where
  "normalize_declaration d0 =
     (let d = trim_declaration d0 in
      case normalize_declared_path (pd_instructions d) of
        Inl e \<Rightarrow> (Some (invalid_package (''instructions file is invalid: '' @ err_text e)), d\<lparr>pd_instructions := []\<rparr>)
      | Inr ins \<Rightarrow>
     (let d1 = d\<lparr>pd_instructions := ins\<rparr> in
      if pd_schema_version d1 \<noteq> SkillSchemaVersion
      then (Some (invalid_package (''schema_version must be '' @ int_text SkillSchemaVersion)), d1)
      else if incomplete_declaration d1
      then (Some (invalid_package ''source identity, name, description, license, source_url, and source_revision are required''), d1)
      else if length (pd_files d1) > maxPackageFiles
      then (Some (invalid_package (''package declares '' @ nat_text (length (pd_files d1))
              @ '' files; at most 128 files are allowed'')), d1)
      else (case declared_files [] (pd_files d1) of
              Inl e \<Rightarrow> (Some e, d1)
            | Inr fs \<Rightarrow>
                if ins \<notin> set fs then (Some (invalid_package ''instructions file must be present in files''), d1)
                else (None, d1\<lparr>pd_files := sort fs, pd_runtimes := sort (pd_runtimes d1)\<rparr>))))"

section \<open>File types\<close>

text \<open>\<open>filepath.Ext\<close>: from the last dot of the last element, empty when there is none.\<close>

fun ext_before :: "string \<Rightarrow> string \<Rightarrow> string" where
  "ext_before acc [] = []"
| "ext_before acc (c # cs) =
     (if c = CHR ''/'' then [] else if c = CHR ''.'' then c # acc else ext_before (c # acc) cs)"

definition file_ext :: "string \<Rightarrow> string" where
  "file_ext p = ext_before [] (rev p)"

text \<open>\<open>utf8.Valid\<close>: no overlong forms, no surrogates, nothing above U+10FFFF.\<close>

definition cont_byte :: "nat \<Rightarrow> nat \<Rightarrow> char \<Rightarrow> bool" where
  "cont_byte lo hi c = (lo \<le> byte c \<and> byte c \<le> hi)"

fun utf8_valid :: "string \<Rightarrow> bool" where
  "utf8_valid [] = True"
| "utf8_valid (a # s) =
     (if byte a < 128 then utf8_valid s
      else if byte a < 194 \<or> 244 < byte a then False
      else if byte a < 224 then
        (case s of b # s' \<Rightarrow> cont_byte 128 191 b \<and> utf8_valid s' | [] \<Rightarrow> False)
      else if byte a < 240 then
        (case s of
           b # c # s' \<Rightarrow>
             cont_byte (if byte a = 224 then 160 else 128) (if byte a = 237 then 159 else 191) b
             \<and> cont_byte 128 191 c \<and> utf8_valid s'
         | _ \<Rightarrow> False)
      else
        (case s of
           b # c # d # s' \<Rightarrow>
             cont_byte (if byte a = 240 then 144 else 128) (if byte a = 244 then 143 else 191) b
             \<and> cont_byte 128 191 c \<and> cont_byte 128 191 d \<and> utf8_valid s'
         | _ \<Rightarrow> False))"

definition text_extensions :: "string list" where
  "text_extensions = [''.md'', ''.markdown'', ''.txt'', ''.json'', ''.yaml'', ''.yml'', ''.svg'']"

definition image_extensions :: "string list" where
  "image_extensions = [''.png'', ''.jpg'', ''.jpeg'', ''.gif'']"

definition validate_static_file :: "string \<Rightarrow> string \<Rightarrow> string \<Rightarrow> err option" where
  "validate_static_file path ins data =
     (let ext = to_lower (file_ext path) in
      if path = ins \<and> ext \<noteq> ''.md'' \<and> ext \<noteq> ''.markdown''
      then Some (invalid_package (''instructions file '' @ go_quote path @ '' must be Markdown''))
      else if ext \<in> set text_extensions then
        (if \<not> utf8_valid data
         then Some (invalid_package (''declared text file '' @ go_quote path @ '' is not valid UTF-8''))
         else None)
      else if ext \<in> set image_extensions then None
      else Some (invalid_package (''declared file '' @ go_quote path @ '' has a prohibited file type'')))"

definition static_media_type :: "string \<Rightarrow> string" where
  "static_media_type path =
     (let ext = to_lower (file_ext path) in
      if ext = ''.md'' \<or> ext = ''.markdown'' then ''text/markdown''
      else if ext = ''.txt'' then ''text/plain''
      else if ext = ''.json'' then ''application/json''
      else if ext = ''.yaml'' \<or> ext = ''.yml'' then ''application/yaml''
      else if ext = ''.png'' then ''image/png''
      else if ext = ''.jpg'' \<or> ext = ''.jpeg'' then ''image/jpeg''
      else if ext = ''.gif'' then ''image/gif''
      else if ext = ''.svg'' then ''image/svg+xml''
      else ''application/octet-stream'')"

section \<open>The package hash\<close>

text \<open>\<open>binary.Write(writer, binary.BigEndian, uint64(n))\<close>.\<close>

definition be64 :: "nat \<Rightarrow> string" where
  "be64 n = map (\<lambda>i. char_of (n div 256 ^ (7 - i) mod 256)) [0..<8]"

definition hash_part :: "string \<Rightarrow> string" where
  "hash_part v = be64 (length v) @ v"

definition package_preimage :: "package_declaration \<Rightarrow> source_file list \<Rightarrow> string" where
  "package_preimage d files =
     hash_part (json_text (enc_declaration d))
       @ concat (map (\<lambda>(p, data). hash_part p @ hash_part data) (sort_key fst files))"

definition hash_package :: "(string \<Rightarrow> string) \<Rightarrow> package_declaration \<Rightarrow> source_file list \<Rightarrow> string" where
  "hash_package sha d files = sha (package_preimage d files)"

section \<open>Sources\<close>

text \<open>
  What a path of a source gives: \<open>os.Lstat\<close> (whether it is a regular file, whether it has an execute bit,
  the size), \<open>os.ReadFile\<close>, \<open>os.ReadDir\<close> (names in order, and whether each is a directory),
  \<open>os.Open\<close> and \<open>Stat\<close> of a YAML file, and \<open>filepath.EvalSymlinks\<close>. The file read need not be the file
  inspected.
\<close>

record file_info =
  fi_regular :: bool
  fi_executable :: bool
  fi_size :: int

record source_view =
  sv_lstat :: "string \<Rightarrow> file_info res"
  sv_read :: "string \<Rightarrow> string res"
  sv_dir :: "string \<Rightarrow> (string \<times> bool) list res"
  sv_open :: "string \<Rightarrow> file_info res"
  sv_eval :: "string \<Rightarrow> clean_path res"

datatype yaml_rest = EndOfInput | SecondDocument | BadRest err

record yaml_reader =
  yr_lock :: "string \<Rightarrow> runtime_lock res"
  yr_declaration :: "string \<Rightarrow> package_declaration res"
  yr_rest :: "string \<Rightarrow> yaml_rest"

text \<open>
  \<open>readStrictYAML\<close>. An error of the system is a \<open>*os.PathError\<close>, which the code tells apart with
  \<open>errors.As\<close>.
\<close>

datatype yaml_error = PathError err | InputError err

fun yaml_err :: "yaml_error \<Rightarrow> err" where
  "yaml_err (PathError e) = e"
| "yaml_err (InputError e) = e"

definition too_large_err :: err where
  "too_large_err = new_err ''YAML input exceeds the 256 KiB manifest or lock limit''"

definition read_strict_yaml ::
  "source_view \<Rightarrow> (string \<Rightarrow> 'd res) \<Rightarrow> (string \<Rightarrow> yaml_rest) \<Rightarrow> string \<Rightarrow> yaml_error + 'd"
where
  "read_strict_yaml sv decode rest path =
     (case sv_open sv path of
        Inl e \<Rightarrow> Inl (PathError e)
      | Inr info \<Rightarrow>
          if \<not> fi_regular info then Inl (InputError (new_err ''YAML input is not a regular file''))
          else if fi_size info > maxManifestBytes then Inl (InputError too_large_err)
          else
     (case sv_read sv path of
        Inl e \<Rightarrow> Inl (PathError e)
      | Inr body \<Rightarrow>
     (let data = take (nat maxManifestBytes + 1) body in
      if int (length data) > maxManifestBytes then Inl (InputError too_large_err)
      else
     (case decode data of
        Inl e \<Rightarrow> Inl (InputError e)
      | Inr d \<Rightarrow>
     (case rest data of
        EndOfInput \<Rightarrow> Inr d
      | SecondDocument \<Rightarrow> Inl (InputError (new_err ''YAML input must contain exactly one document''))
      | BadRest e \<Rightarrow> Inl (InputError e))))))"

text \<open>\<open>confinedPath\<close>; \<^term>\<open>None\<close> would be a walk to the root that does not end.\<close>

definition confined_path :: "(string \<Rightarrow> clean_path res) \<Rightarrow> string \<Rightarrow> string \<Rightarrow> clean_path res option" where
  "confined_path ev root relative =
     (if trim_space relative = [] \<or> has_prefix ''/'' relative then Some (Inl (new_err ''path must be relative''))
      else
     (let resolved = join_text root relative in
      if escapes (rel_parts (clean root) resolved)
      then Some (Inl (new_err ''path escapes its declared skill source''))
      else
     (case ev root of
        Inl e \<Rightarrow> Some (Inl (wrap_with ''resolve skill source root symlinks'' e))
      | Inr canonical_root \<Rightarrow>
     (case eval_existing ev resolved [] of
        None \<Rightarrow> None
      | Some (Inl e) \<Rightarrow> Some (Inl (wrap_with ''resolve skill package path symlinks'' e))
      | Some (Inr canonical) \<Rightarrow>
          if escapes (rel_parts canonical_root canonical)
          then Some (Inl (new_err ''path escapes its declared skill source through a symlink''))
          else Some (Inr resolved)))))"

section \<open>Entries\<close>

definition path_base :: "clean_path \<Rightarrow> string" where
  "path_base c = (if cp_parts c \<noteq> [] then last (cp_parts c) else if cp_rooted c then ''/'' else dot)"

definition cut_diagnostic :: "string \<Rightarrow> string" where
  "cut_diagnostic t = take maxSkillDiagnosticBytes (trim_space t)"

definition unsupported_entry :: "string \<Rightarrow> string \<Rightarrow> string \<Rightarrow> err \<Rightarrow> catalog_entry" where
  "unsupported_entry source_id name directory cause =
     (let n = trim_space name;
          n1 = (if n = [] then path_base (clean (trim_space directory)) else n);
          n2 = (if n1 = [] \<or> n1 = dot \<or> n1 = ''/'' then ''invalid-package'' else n1) in
      \<lparr>ce_state = UnsupportedSkillPackage,
       ce_package = zero_package\<lparr>pk_identity := zero_identity\<lparr>pi_source_id := trim_space source_id, pi_name := n2\<rparr>\<rparr>,
       ce_diagnostic = cut_diagnostic (err_text cause)\<rparr>)"

text \<open>
  What the loading of a package comes to: a package to materialise with its files, an entry that is
  not supported, or an error that ends the synchronisation.
\<close>

datatype loaded = Loaded skill_package "source_file list" | Unsupported catalog_entry | LoadFailed err

text \<open>One declared file: the checks of the loop body, in their order. \<open>used\<close> counts the bytes so far.\<close>

datatype file_check = FileOk string int | FileInvalid err | FileFailed err

definition check_declared_file ::
  "source_view \<Rightarrow> string \<Rightarrow> package_declaration \<Rightarrow> clean_path \<Rightarrow> int \<Rightarrow> string \<Rightarrow> file_check option"
where
  "check_declared_file sv sid d root used relative =
     (case confined_path (sv_eval sv) (path_text root) relative of
        None \<Rightarrow> None
      | Some (Inl e) \<Rightarrow> Some (FileInvalid (invalid_package
          (''declared file '' @ go_quote relative @ '' is invalid: '' @ err_text e)))
      | Some (Inr p) \<Rightarrow>
     (let path = path_text p; name = sid @ ''/'' @ pd_name d @ '' file '' @ go_quote relative in
      Some (case sv_lstat sv path of
        Inl e \<Rightarrow>
          if errors_is e ErrNotExist
          then FileInvalid (invalid_package (''declared file '' @ go_quote relative @ '' is missing''))
          else FileFailed (wrap_with (''skill package '' @ name) e)
      | Inr info \<Rightarrow>
          if \<not> fi_regular info
          then FileInvalid (invalid_package (''declared file '' @ go_quote relative @ '' is not a regular file''))
          else if fi_executable info
          then FileInvalid (invalid_package (''declared file '' @ go_quote relative @ '' is executable content''))
          else if fi_size info > (if relative = pd_instructions d then maxInstructionsBytes else maxAssetBytes)
          then FileInvalid (invalid_package (''declared file '' @ go_quote relative @ '' exceeds the ''
            @ (if relative = pd_instructions d then ''256 KiB'' else ''1 MiB'') @ '' limit''))
          else if used + fi_size info > maxBundleBytes
          then FileInvalid (invalid_package ''declared package content exceeds the 5 MiB bundle limit'')
          else
         (case sv_read sv path of
            Inl e \<Rightarrow> FileFailed (wrap_with (''read skill package '' @ name) e)
          | Inr data \<Rightarrow>
             (case validate_static_file relative (pd_instructions d) data of
                Some e \<Rightarrow> FileInvalid e
              | None \<Rightarrow> FileOk data (used + fi_size info))))))"

datatype files_check = FilesOk "source_file list" | FilesInvalid err | FilesFailed err

fun check_declared_files ::
  "source_view \<Rightarrow> string \<Rightarrow> package_declaration \<Rightarrow> clean_path \<Rightarrow> int \<Rightarrow> string list \<Rightarrow> files_check option"
where
  "check_declared_files sv sid d root used [] = Some (FilesOk [])"
| "check_declared_files sv sid d root used (f # fs) =
     (case check_declared_file sv sid d root used f of
        None \<Rightarrow> None
      | Some (FileInvalid e) \<Rightarrow> Some (FilesInvalid e)
      | Some (FileFailed e) \<Rightarrow> Some (FilesFailed e)
      | Some (FileOk data used') \<Rightarrow>
          (case check_declared_files sv sid d root used' fs of
             Some (FilesOk rs) \<Rightarrow> Some (FilesOk ((f, data) # rs))
           | r \<Rightarrow> r))"

definition build_package ::
  "(string \<Rightarrow> string) \<Rightarrow> string \<Rightarrow> package_declaration \<Rightarrow> source_file list \<Rightarrow> skill_package" where
  "build_package sha sid d files =
     \<lparr>pk_schema_version = pd_schema_version d,
      pk_identity = \<lparr>pi_source_id = sid, pi_name = pd_name d, pi_package_hash = hash_package sha d files\<rparr>,
      pk_description = pd_description d, pk_license = pd_license d, pk_source_url = pd_source_url d,
      pk_source_revision = pd_source_revision d, pk_instructions_path = pd_instructions d,
      pk_instructions = (case map_of files (pd_instructions d) of Some data \<Rightarrow> data | None \<Rightarrow> []),
      pk_assets = map (\<lambda>(p, data). \<lparr>as_path = p, as_sha256 = sha data, as_media_type = static_media_type p\<rparr>)
        (filter (\<lambda>f. fst f \<noteq> pd_instructions d) (sort_key fst files)),
      pk_arguments_schema = pd_arguments_schema d, pk_runtimes = pd_runtimes d\<rparr>"

definition load_package ::
  "(string \<Rightarrow> string) \<Rightarrow> source_view \<Rightarrow> string \<Rightarrow> string \<Rightarrow> string \<Rightarrow> package_declaration \<Rightarrow> loaded option"
where
  "load_package sha sv sid root directory d0 =
     (case normalize_declaration d0 of
        (Some e, d) \<Rightarrow> Some (Unsupported (unsupported_entry sid (pd_name d) directory e))
      | (None, d) \<Rightarrow>
          if sid \<noteq> pd_source_id d
          then Some (Unsupported (unsupported_entry sid (pd_name d) directory
                 (invalid_package ''source identity does not match its declared source'')))
          else
     (case confined_path (sv_eval sv) root directory of
        None \<Rightarrow> None
      | Some (Inl e) \<Rightarrow> Some (Unsupported (unsupported_entry sid (pd_name d) directory
          (invalid_package (''package directory is invalid: '' @ err_text e))))
      | Some (Inr package_root) \<Rightarrow>
     (case check_declared_files sv sid d package_root 0 (pd_files d) of
        None \<Rightarrow> None
      | Some (FilesInvalid e) \<Rightarrow> Some (Unsupported (unsupported_entry sid (pd_name d) directory e))
      | Some (FilesFailed e) \<Rightarrow> Some (LoadFailed e)
      | Some (FilesOk files) \<Rightarrow>
          Some (Loaded (build_package sha sid d files) (sort_key fst files)))))"

section \<open>Lemmas: paths\<close>

definition portable_path :: "string \<Rightarrow> bool" where
  "portable_path f = (list_all plain (split_on (CHR ''/'') f) \<and> length (split_on (CHR ''/'') f) \<le> Suc maxDirectoryDepth
     \<and> \<not> has_prefix ''/'' f)"

lemma normalize_portable:
  assumes "normalize_declared_path v = Inr r"
  shows "portable_path r" "trim_space r = r" "r \<noteq> []"
proof -
  let ?raw = "trim_space v"
  from assms have r: "r = ?raw" "?raw \<noteq> []" "\<not> has_prefix ''/'' ?raw"
    "\<not> list_ex (\<lambda>p. p = [] \<or> p = dot \<or> p = dotdot) (split_on (CHR ''/'') ?raw)"
    "length (split_on (CHR ''/'') ?raw) - 1 \<le> maxDirectoryDepth"
    by (auto simp: normalize_declared_path_def Let_def split: if_splits)
  then have "\<forall>p \<in> set (split_on (CHR ''/'') r). plain p"
    using split_on_pieces by (fastforce simp: list_ex_iff plain_def)
  with r show "portable_path r" by (simp add: portable_path_def list_all_iff)
  show "trim_space r = r" "r \<noteq> []" using r by simp_all
qed

lemma declared_files_ok:
  "declared_files seen rs = Inr fs \<Longrightarrow> list_all portable_path seen \<Longrightarrow> distinct seen \<Longrightarrow>
     list_all portable_path fs \<and> distinct fs \<and> length fs = length seen + length rs"
proof (induction seen rs rule: declared_files.induct)
  case (2 seen raw rs)
  from "2.prems"(1) obtain f where f: "normalize_declared_path raw = Inr f" "f \<notin> set seen"
    "declared_files (seen @ [f]) rs = Inr fs"
    by (auto split: sum.splits if_splits)
  with "2.IH" [OF f(1,2,3)] "2.prems" normalize_portable [OF f(1)] show ?case by simp
qed simp

text \<open>What is known of a declaration that passed.\<close>

definition normal_declaration :: "package_declaration \<Rightarrow> bool" where
  "normal_declaration d =
     (pd_schema_version d = SkillSchemaVersion \<and> \<not> incomplete_declaration d
      \<and> list_all portable_path (pd_files d) \<and> distinct (pd_files d) \<and> sorted (pd_files d)
      \<and> length (pd_files d) \<le> maxPackageFiles \<and> pd_instructions d \<in> set (pd_files d)
      \<and> trim_space (pd_source_id d) = pd_source_id d \<and> trim_space (pd_name d) = pd_name d)"

lemma normalize_declaration_ok:
  assumes "normalize_declaration d0 = (None, d)"
  shows "normal_declaration d"
proof -
  let ?t = "trim_declaration d0"
  from assms obtain ins fs where i: "normalize_declared_path (pd_instructions ?t) = Inr ins"
    "pd_schema_version ?t = SkillSchemaVersion" "\<not> incomplete_declaration (?t\<lparr>pd_instructions := ins\<rparr>)"
    "length (pd_files ?t) \<le> maxPackageFiles" "declared_files [] (pd_files ?t) = Inr fs" "ins \<in> set fs"
    "d = ?t\<lparr>pd_instructions := ins, pd_files := sort fs, pd_runtimes := sort (pd_runtimes ?t)\<rparr>"
    by (auto simp: normalize_declaration_def Let_def split: sum.splits if_splits)
  from declared_files_ok [OF i(5)] have "list_all portable_path fs" "distinct fs" "length fs = length (pd_files ?t)"
    by simp_all
  with i show ?thesis
    by (simp add: normal_declaration_def list_all_iff incomplete_declaration_def trim_declaration_def)
qed

section \<open>Lemmas: loading\<close>

lemma check_file_ok:
  assumes "check_declared_file sv sid d root used f = Some (FileOk data used')"
  shows "\<exists>p info. confined_path (sv_eval sv) (path_text root) f = Some (Inr p)
     \<and> sv_lstat sv (path_text p) = Inr info \<and> sv_read sv (path_text p) = Inr data
     \<and> fi_regular info \<and> \<not> fi_executable info
     \<and> fi_size info \<le> (if f = pd_instructions d then maxInstructionsBytes else maxAssetBytes)
     \<and> used' = used + fi_size info \<and> used' \<le> maxBundleBytes
     \<and> validate_static_file f (pd_instructions d) data = None"
  using assms by (auto simp: check_declared_file_def Let_def
      split: option.splits sum.splits if_splits)

lemma check_files_ok:
  "check_declared_files sv sid d root used fs = Some (FilesOk rs) \<Longrightarrow>
     map fst rs = fs \<and> (\<forall>(f, data) \<in> set rs. \<exists>u u'. check_declared_file sv sid d root u f = Some (FileOk data u'))"
proof (induction fs arbitrary: used rs)
  case (Cons f fs)
  then obtain data u' rs' where s: "check_declared_file sv sid d root used f = Some (FileOk data u')"
    "check_declared_files sv sid d root u' fs = Some (FilesOk rs')" "rs = (f, data) # rs'"
    by (auto split: option.splits file_check.splits files_check.splits)
  from Cons.IH [OF s(2)] s show ?case by auto
qed simp

lemma sort_key_sorted: "sorted (map f xs) \<Longrightarrow> sort_key f xs = xs"
  by (induction xs) (auto simp: insort_is_Cons)

lemma load_package_loaded:
  assumes "load_package sha sv sid root directory d0 = Some (Loaded pkg files)"
  shows "\<exists>d package_root. normalize_declaration d0 = (None, d) \<and> sid = pd_source_id d
     \<and> confined_path (sv_eval sv) root directory = Some (Inr package_root)
     \<and> check_declared_files sv sid d package_root 0 (pd_files d) = Some (FilesOk files)
     \<and> map fst files = pd_files d \<and> pkg = build_package sha sid d files"
proof -
  from assms obtain d package_root fs where s: "normalize_declaration d0 = (None, d)" "sid = pd_source_id d"
    "confined_path (sv_eval sv) root directory = Some (Inr package_root)"
    "check_declared_files sv sid d package_root 0 (pd_files d) = Some (FilesOk fs)"
    "pkg = build_package sha sid d fs" "files = sort_key fst fs"
    by (auto simp: load_package_def split: prod.splits option.splits if_splits sum.splits files_check.splits)
  from check_files_ok [OF s(4)] normalize_declaration_ok [OF s(1)] have "sort_key fst fs = fs" "map fst fs = pd_files d"
    by (simp_all add: sort_key_sorted normal_declaration_def)
  with s show ?thesis by auto
qed

text \<open>The file read is the one inspected: nobody writes to the source between the two calls.\<close>

definition steady_source :: "source_view \<Rightarrow> bool" where
  "steady_source sv = (\<forall>p info data. sv_lstat sv p = Inr info \<longrightarrow> sv_read sv p = Inr data \<longrightarrow> fi_size info = int (length data))"

lemma check_files_total:
  assumes "steady_source sv"
  shows "check_declared_files sv sid d root used fs = Some (FilesOk rs) \<Longrightarrow> used \<le> maxBundleBytes \<Longrightarrow>
     used + (\<Sum>(f, data) \<leftarrow> rs. int (length data)) \<le> maxBundleBytes"
proof (induction fs arbitrary: used rs)
  case (Cons f fs)
  then obtain data u' rs' where s: "check_declared_file sv sid d root used f = Some (FileOk data u')"
    "check_declared_files sv sid d root u' fs = Some (FilesOk rs')" "rs = (f, data) # rs'"
    by (auto split: option.splits file_check.splits files_check.splits)
  from check_file_ok [OF s(1)] assms have "u' = used + int (length data)" "u' \<le> maxBundleBytes"
    unfolding steady_source_def by metis+
  with Cons.IH [OF s(2)] s(3) show ?case by simp
qed simp

lemma static_file_extension:
  "validate_static_file f ins data = None \<Longrightarrow>
     to_lower (file_ext f) \<in> set text_extensions \<union> set image_extensions
     \<and> (to_lower (file_ext f) \<in> set text_extensions \<longrightarrow> utf8_valid data)"
  by (auto simp: validate_static_file_def Let_def split: if_splits)

section \<open>Lemmas: the hash\<close>

lemma be64_length [simp]: "length (be64 n) = 8"
  by (simp add: be64_def)

lemma byte_char_of: "byte (char_of (n :: nat)) = n mod 256"
  by (simp add: byte_def)

lemma be64_inj:
  assumes "be64 m = be64 n" "m < 2 ^ 64" "n < 2 ^ 64"
  shows "m = n"
proof -
  have digit: "m div 256 ^ i mod 256 = n div 256 ^ i mod 256" if "i < 8" for i
  proof -
    from assms(1) have "be64 m ! (7 - i) = be64 n ! (7 - i)" by simp
    moreover have "be64 k ! (7 - i) = char_of (k div 256 ^ i mod 256)" for k
      using that nth_upt [of 0 "7 - i" 8] by (simp add: be64_def del: upt_Suc)
    ultimately have "(char_of (m div 256 ^ i mod 256) :: char) = char_of (n div 256 ^ i mod 256)" by simp
    then have "byte (char_of (m div 256 ^ i mod 256)) = byte (char_of (n div 256 ^ i mod 256))" by simp
    then show ?thesis by (simp add: byte_char_of)
  qed
  have low: "m mod 256 ^ k = n mod 256 ^ k" if "k \<le> 8" for k
    using that
  proof (induction k)
    case (Suc k)
    have "a mod 256 ^ Suc k = 256 ^ k * (a div 256 ^ k mod 256) + a mod 256 ^ k" for a :: nat
      using mod_mult2_eq [of a "256 ^ k" 256] by (simp add: mult.commute)
    with Suc digit [of k] show ?case by simp
  qed simp
  from low [of 8] assms(2,3) show ?thesis by simp
qed

lemma hash_part_append:
  assumes "hash_part a @ x = hash_part b @ y" "length a < 2 ^ 64" "length b < 2 ^ 64"
  shows "a = b \<and> x = y"
proof -
  from assms(1) have "be64 (length a) = be64 (length b)" "a @ x = b @ y"
    by (simp_all add: hash_part_def)
  with be64_inj [OF _ assms(2,3)] show ?thesis by simp
qed

lemma framed_files_inj:
  assumes "concat (map (\<lambda>(p, data). hash_part p @ hash_part data) fs)
      = concat (map (\<lambda>(p, data). hash_part p @ hash_part data) gs)"
    "\<forall>(p, data) \<in> set fs \<union> set gs. length p < 2 ^ 64 \<and> length data < 2 ^ 64"
  shows "fs = gs"
  using assms
proof (induction fs arbitrary: gs)
  case Nil
  then show ?case by (cases gs) (auto simp: hash_part_def be64_def)
next
  case (Cons f fs)
  obtain p u where f: "f = (p, u)" by (cases f)
  from Cons.prems f obtain q v gs' where g: "gs = (q, v) # gs'"
    by (cases gs) (auto simp: hash_part_def be64_def)
  let ?rest = "\<lambda>fs. concat (map (\<lambda>(p, data). hash_part p @ hash_part data) fs)"
  from Cons.prems(1) f g have "hash_part p @ (hash_part u @ ?rest fs) = hash_part q @ (hash_part v @ ?rest gs')"
    by simp
  from hash_part_append [OF this] Cons.prems(2) f g have 1: "p = q" "hash_part u @ ?rest fs = hash_part v @ ?rest gs'"
    by auto
  from hash_part_append [OF 1(2)] Cons.prems(2) f g have 2: "u = v" "?rest fs = ?rest gs'" by auto
  from Cons.IH [OF 2(2)] Cons.prems(2) f g 1 2 show ?case by auto
qed

section \<open>Properties\<close>

text \<open>C18: two packages with one package hash have the same normalised
  manifest text and the same files with the same bytes, unless the hash function collides on exactly these two
  inputs: the length prefixes leave no second way of reading the hashed bytes, so no content
  can move between a path, a file and its neighbour.\<close>

theorem package_hash_pins_content:
  assumes "hash_package sha d fs = hash_package sha d' gs"
    "inj_on sha {package_preimage d fs, package_preimage d' gs}"
    "length (json_text (enc_declaration d)) < 2 ^ 64" "length (json_text (enc_declaration d')) < 2 ^ 64"
    "\<forall>(p, data) \<in> set fs \<union> set gs. length p < 2 ^ 64 \<and> length data < 2 ^ 64"
  shows "json_text (enc_declaration d) = json_text (enc_declaration d') \<and> sort_key fst fs = sort_key fst gs"
proof -
  have eq: "package_preimage d fs = package_preimage d' gs"
    by (rule inj_onD [OF assms(2) assms(1) [unfolded hash_package_def]]) simp_all
  from hash_part_append [OF eq [unfolded package_preimage_def] assms(3,4)]
  have manifest: "json_text (enc_declaration d) = json_text (enc_declaration d')"
    and framed: "concat (map (\<lambda>(p, data). hash_part p @ hash_part data) (sort_key fst fs))
      = concat (map (\<lambda>(p, data). hash_part p @ hash_part data) (sort_key fst gs))" by blast+
  have "sort_key fst fs = sort_key fst gs"
    by (rule framed_files_inj [OF framed]) (use assms(5) in simp)
  with manifest show ?thesis by blast
qed

text \<open>Whatever a Skill Source holds, a package that is loaded declares at most 128
  different portable paths, no deeper than eight directories, one of them its Markdown instructions; every file is one
  of the admitted static types and not executable, text is valid UTF-8, the instructions have at most 256 KiB, every other
  file at most 1 MiB and all together at most 5 MiB.\<close>

theorem ready_packages_are_bounded:
  assumes "load_package sha sv sid root directory d0 = Some (Loaded pkg files)" "steady_source sv"
  shows "distinct (map fst files) \<and> list_all portable_path (map fst files) \<and> length files \<le> maxPackageFiles
     \<and> (\<Sum>(f, data) \<leftarrow> files. int (length data)) \<le> maxBundleBytes
     \<and> map_of files (pk_instructions_path pkg) = Some (pk_instructions pkg) \<and> utf8_valid (pk_instructions pkg)
     \<and> (\<forall>(f, data) \<in> set files.
          int (length data) \<le> (if f = pk_instructions_path pkg then maxInstructionsBytes else maxAssetBytes)
          \<and> to_lower (file_ext f) \<in> set text_extensions \<union> set image_extensions
          \<and> (to_lower (file_ext f) \<in> set text_extensions \<longrightarrow> utf8_valid data))"
proof -
  from load_package_loaded [OF assms(1)] obtain d r where l: "normalize_declaration d0 = (None, d)"
    "check_declared_files sv sid d r 0 (pd_files d) = Some (FilesOk files)" "map fst files = pd_files d"
    "pkg = build_package sha sid d files"
    by auto
  note n = normalize_declaration_ok [OF l(1), unfolded normal_declaration_def]
  have path: "pk_instructions_path pkg = pd_instructions d" by (simp add: l build_package_def)
  have each: "int (length data) \<le> (if f = pd_instructions d then maxInstructionsBytes else maxAssetBytes)
      \<and> validate_static_file f (pd_instructions d) data = None" if "(f, data) \<in> set files" for f data
  proof -
    from check_files_ok [OF l(2)] that obtain u u' where
      "check_declared_file sv sid d r u f = Some (FileOk data u')" by auto
    from check_file_ok [OF this] obtain p info where "sv_lstat sv (path_text p) = Inr info"
      "sv_read sv (path_text p) = Inr data"
      "fi_size info \<le> (if f = pd_instructions d then maxInstructionsBytes else maxAssetBytes)"
      "validate_static_file f (pd_instructions d) data = None" by blast
    moreover from this(1,2) assms(2) have "fi_size info = int (length data)" by (simp add: steady_source_def)
    ultimately show ?thesis by simp
  qed
  from n l(3) have "pd_instructions d \<in> fst ` set files" by (metis list.set_map)
  then obtain body where body: "map_of files (pd_instructions d) = Some body"
    by (metis map_of_eq_None_iff not_Some_eq)
  then have ins: "pk_instructions pkg = body" by (simp add: l build_package_def)
  from each [OF map_of_SomeD [OF body]] have utf8: "utf8_valid body"
    by (auto simp: validate_static_file_def Let_def text_extensions_def split: if_splits)
  have len: "length files = length (pd_files d)" by (metis l(3) length_map)
  have total: "(\<Sum>(f, data) \<leftarrow> files. int (length data)) \<le> maxBundleBytes"
    using check_files_total [OF assms(2) l(2)] by (simp add: maxBundleBytes_def)
  have "\<forall>(f, data) \<in> set files.
          int (length data) \<le> (if f = pd_instructions d then maxInstructionsBytes else maxAssetBytes)
          \<and> to_lower (file_ext f) \<in> set text_extensions \<union> set image_extensions
          \<and> (to_lower (file_ext f) \<in> set text_extensions \<longrightarrow> utf8_valid data)"
    using each static_file_extension by blast
  with n len total body ins utf8 show ?thesis unfolding path l(3) by simp
qed

end
