(* ===== verification/Skill_Store.thy ===== *)
theory Skill_Store
  imports Skill_Package
begin

text \<open>
  \<open>adapters/skillfilesystem\<close>: the catalog under \<open>.syntroph/catalog\<close> as state (the immutable objects of
  \<open>store\<close>, the active \<open>index.json\<close>, \<open>staging\<close>, \<open>sync.lock\<close> and the lock candidates) and its operations:
  \<open>Sync\<close>, \<open>List\<close>, \<open>Show\<close>, \<open>Verify\<close>, \<open>Prepare\<close>, and the inspection and recovery of an interrupted
  synchronisation. Every change of the disk is an \<^emph>\<open>effect\<close>, and the process may be killed
  between any two of them. The system calls are the Unix ones; a temporary file that is renamed or
  linked is not a part of the state. Objects hold regular files only, and a package hash in the index names an
  object, not a path.
\<close>

section \<open>State\<close>

record store_object =
  ob_package :: "json_file option"
  ob_files :: "(string \<times> string) list option"

record entry_summary =
  es_state :: string
  es_identity :: package_identity
  es_diagnostic :: string

record catalog_index =
  ci_schema_version :: int
  ci_aliases :: "(string \<times> string) list"
  ci_entries :: "entry_summary list"

text \<open>The index is kept with its bytes, which \<open>Prepare\<close> hashes.\<close>

record index_file =
  if_bytes :: string
  if_content :: json_file

record sync_owner =
  so_schema_version :: int
  so_pid :: int
  so_started_at :: int
  so_owner_id :: string

record staging_dir =
  sd_owner :: "json_file option"
  sd_objects :: "(string \<times> store_object) list"
  sd_index :: "index_file option"

record cstate = pstate +
  cs_objects :: "(string \<times> store_object) list"
  cs_index :: "index_file option"
  cs_staging :: "(string \<times> staging_dir) list"
  cs_lock :: "json_file option"
  cs_candidates :: "(string \<times> json_file) list"
  cs_preparer :: "(string \<times> skill_port) option"
  cs_life :: "nat option"

text \<open>
  A change of the disk. \<open>cs_life\<close> is the number of effects after which the process is killed: from then on
  nothing it does, deferred calls included, has an effect.
\<close>

definition effect :: "('a cstate_scheme \<Rightarrow> 'a cstate_scheme) \<Rightarrow> 'a cstate_scheme \<Rightarrow> 'a cstate_scheme" where
  "effect f w =
     (case cs_life w of
        None \<Rightarrow> f w
      | Some 0 \<Rightarrow> w
      | Some (Suc n) \<Rightarrow> (f w)\<lparr>cs_life := Some n\<rparr>)"

datatype process_state = ProcessUnknown | ProcessAlive | ProcessDead

record skill_source =
  sk_id :: string
  sk_root :: string

record resolved_skills =
  rs_enabled :: bool
  rs_runtime_lock :: string
  rs_sources :: "skill_source list"
  rs_aliases :: "(string \<times> string) list"

text \<open>
  A \<open>Catalog\<close>: what does not change. \<open>cc_outside\<close> is what the disk holds at a path that leaves an
  object's directory of files.
\<close>

record catalog =
  cc_root :: string
  cc_settings :: resolved_skills
  cc_checkpoint :: "(string \<Rightarrow> err option) option"
  cc_process_state :: "int \<Rightarrow> process_state"
  cc_pid :: int
  cc_outside :: "string \<Rightarrow> string list \<Rightarrow> string option"

definition new_catalog ::
  "(string \<Rightarrow> string res) \<Rightarrow> (int \<Rightarrow> process_state) \<Rightarrow> int \<Rightarrow> (string \<Rightarrow> string list \<Rightarrow> string option)
     \<Rightarrow> string \<Rightarrow> resolved_skills \<Rightarrow> catalog res"
where
  "new_catalog absolute state pid outside root settings =
     (if \<not> rs_enabled settings then Inl (new_err ''skills are not enabled in .syntroph/config.yaml'')
      else
     (case absolute root of
        Inl e \<Rightarrow> Inl (wrap_with ''resolve repository root'' e)
      | Inr r \<Rightarrow>
          if rs_runtime_lock settings = [] \<or> rs_sources settings = []
          then Inl (new_err ''resolved skill configuration is incomplete'')
          else Inr \<lparr>cc_root = path_text (join_text r ''.syntroph/catalog''), cc_settings = settings,
                    cc_checkpoint = None, cc_process_state = state, cc_pid = pid, cc_outside = outside\<rparr>))"

definition reach_checkpoint :: "catalog \<Rightarrow> string \<Rightarrow> err option" where
  "reach_checkpoint c p = (case cc_checkpoint c of None \<Rightarrow> None | Some f \<Rightarrow> f p)"

text \<open>\<open>defaultProcessState\<close> from the answer of \<open>kill(pid, 0)\<close>.\<close>

datatype kill_answer = Delivered | NotPermitted | NoSuchProcess | KillFailed

fun default_process_state :: "kill_answer \<Rightarrow> process_state" where
  "default_process_state Delivered = ProcessAlive"
| "default_process_state NotPermitted = ProcessAlive"
| "default_process_state NoSuchProcess = ProcessDead"
| "default_process_state KillFailed = ProcessUnknown"

section \<open>Encodings\<close>

text \<open>\<open>json.MarshalIndent(v, "", "  ")\<close>; the argument is the current indentation.\<close>

definition indent_step :: string where "indent_step = ''  ''"

primrec json_indent :: "json \<Rightarrow> string \<Rightarrow> string" where
  "json_indent JNull = (\<lambda>pre. ''null'')"
| "json_indent (JBool b) = (\<lambda>pre. json_text (JBool b))"
| "json_indent (JNum n) = (\<lambda>pre. json_text (JNum n))"
| "json_indent (JStr s) = (\<lambda>pre. quoted_text s)"
| "json_indent (JTime t) = (\<lambda>pre. json_text (JTime t))"
| "json_indent (JArr xs) = (\<lambda>pre.
     if map json_indent xs = [] then ''[]''
     else ''['' @ [newline] @ pre @ indent_step
       @ join_with ('','' @ [newline] @ pre @ indent_step) (map (\<lambda>f. f (pre @ indent_step)) (map json_indent xs))
       @ [newline] @ pre @ '']'')"
| "json_indent (JObj kvs) = (\<lambda>pre.
     if map (map_prod id json_indent) kvs = [] then ''{}''
     else ''{'' @ [newline] @ pre @ indent_step
       @ join_with ('','' @ [newline] @ pre @ indent_step)
           (map (\<lambda>kf. quoted_text (fst kf) @ '': '' @ snd kf (pre @ indent_step)) (map (map_prod id json_indent) kvs))
       @ [newline] @ pre @ ''}'')"

definition enc_summary :: "entry_summary \<Rightarrow> json" where
  "enc_summary s = JObj ([(''state'', JStr (es_state s)), (''identity'', enc_identity (es_identity s))]
     @ opt_str ''diagnostic'' (es_diagnostic s))"

definition enc_index :: "catalog_index \<Rightarrow> json" where
  "enc_index ix = JObj ([(''schema_version'', JNum (NInt (ci_schema_version ix)))]
     @ (if ci_aliases ix = [] then [] else [(''aliases'', JObj (map (map_prod id JStr) (ci_aliases ix)))])
     @ [(''entries'', JArr (map enc_summary (ci_entries ix)))])"

definition zero_summary :: entry_summary where
  "zero_summary = \<lparr>es_state = [], es_identity = zero_identity, es_diagnostic = []\<rparr>"

definition dec_summary :: "(string \<times> json) list \<Rightarrow> entry_summary \<Rightarrow> entry_summary option" where
  "dec_summary kvs d =
     (case (dec_string (es_state d) (field_values ''state'' kvs),
            dec_struct dec_identity (es_identity d) (field_values ''identity'' kvs),
            dec_string (es_diagnostic d) (field_values ''diagnostic'' kvs))
      of (Some s, Some i, Some t) \<Rightarrow> Some \<lparr>es_state = s, es_identity = i, es_diagnostic = t\<rparr>
      | _ \<Rightarrow> None)"

text \<open>A \<open>map[string]string\<close> field.\<close>

fun dec_str_entries :: "(string \<times> string) list \<Rightarrow> (string \<times> json) list \<Rightarrow> (string \<times> string) list option" where
  "dec_str_entries m [] = Some m"
| "dec_str_entries m ((k, j) # kvs) =
     (case str_elem j of None \<Rightarrow> None | Some s \<Rightarrow> dec_str_entries (map_put k s m) kvs)"

fun dec_str_map :: "(string \<times> string) list \<Rightarrow> json list \<Rightarrow> (string \<times> string) list option" where
  "dec_str_map d [] = Some d"
| "dec_str_map d (JObj kvs # vs) = (case dec_str_entries d kvs of None \<Rightarrow> None | Some m \<Rightarrow> dec_str_map m vs)"
| "dec_str_map d (JNull # vs) = dec_str_map [] vs"
| "dec_str_map d (_ # vs) = None"

definition dec_index :: "json \<Rightarrow> catalog_index option" where
  "dec_index j = (case j of
     JObj kvs \<Rightarrow>
       (case (dec_int 0 (field_values ''schema_version'' kvs), dec_str_map [] (field_values ''aliases'' kvs),
              dec_slice (elem zero_summary dec_summary) [] (field_values ''entries'' kvs))
        of (Some v, Some as, Some es) \<Rightarrow> Some \<lparr>ci_schema_version = v, ci_aliases = as, ci_entries = es\<rparr>
        | _ \<Rightarrow> None)
   | JNull \<Rightarrow> Some \<lparr>ci_schema_version = 0, ci_aliases = [], ci_entries = []\<rparr>
   | _ \<Rightarrow> None)"

definition enc_package :: "skill_package \<Rightarrow> json" where
  "enc_package p = JObj
     ([(''schema_version'', JNum (NInt (pk_schema_version p))), (''identity'', enc_identity (pk_identity p)),
       (''description'', JStr (pk_description p)), (''license'', JStr (pk_license p)),
       (''source_url'', JStr (pk_source_url p)), (''source_revision'', JStr (pk_source_revision p)),
       (''instructions_path'', JStr (pk_instructions_path p)), (''instructions'', JStr (pk_instructions p))]
      @ opt_arr ''assets'' (map enc_asset (pk_assets p))
      @ opt_args ''arguments_schema'' (Some (pk_arguments_schema p))
      @ opt_arr ''compatible_runtimes'' (str_list (pk_runtimes p)))"

definition zero_asset :: skill_asset where
  "zero_asset = \<lparr>as_path = [], as_sha256 = [], as_media_type = []\<rparr>"

definition dec_asset :: "(string \<times> json) list \<Rightarrow> skill_asset \<Rightarrow> skill_asset option" where
  "dec_asset kvs d =
     (case (dec_string (as_path d) (field_values ''path'' kvs), dec_string (as_sha256 d) (field_values ''sha256'' kvs),
            dec_string (as_media_type d) (field_values ''media_type'' kvs))
      of (Some p, Some h, Some m) \<Rightarrow> Some \<lparr>as_path = p, as_sha256 = h, as_media_type = m\<rparr>
      | _ \<Rightarrow> None)"

definition dec_package :: "json \<Rightarrow> skill_package option" where
  "dec_package j = (case j of
     JObj kvs \<Rightarrow>
       (case (dec_int 0 (field_values ''schema_version'' kvs),
              dec_struct dec_identity zero_identity (field_values ''identity'' kvs),
              dec_string [] (field_values ''description'' kvs), dec_string [] (field_values ''license'' kvs),
              dec_string [] (field_values ''source_url'' kvs), dec_string [] (field_values ''source_revision'' kvs))
        of (Some v, Some i, Some de, Some li, Some su, Some sr) \<Rightarrow>
       (case (dec_string [] (field_values ''instructions_path'' kvs), dec_string [] (field_values ''instructions'' kvs),
              dec_slice (elem zero_asset dec_asset) [] (field_values ''assets'' kvs),
              dec_args False None (field_values ''arguments_schema'' kvs),
              dec_slice str_elem [] (field_values ''compatible_runtimes'' kvs))
        of (Some ip, Some ins, Some as, Some sc, Some rt) \<Rightarrow>
          Some \<lparr>pk_schema_version = v, pk_identity = i, pk_description = de, pk_license = li, pk_source_url = su,
            pk_source_revision = sr, pk_instructions_path = ip, pk_instructions = ins, pk_assets = as,
            pk_arguments_schema = (case sc of None \<Rightarrow> [] | Some m \<Rightarrow> m), pk_runtimes = rt\<rparr>
        | _ \<Rightarrow> None)
        | _ \<Rightarrow> None)
   | JNull \<Rightarrow> Some zero_package
   | _ \<Rightarrow> None)"

definition SyncLockSchemaVersion :: int where "SyncLockSchemaVersion = 1"

definition enc_owner :: "sync_owner \<Rightarrow> json" where
  "enc_owner ow = JObj [(''schema_version'', JNum (NInt (so_schema_version ow))), (''pid'', JNum (NInt (so_pid ow))),
     (''started_at'', JTime (so_started_at ow)), (''owner_id'', JStr (so_owner_id ow))]"

definition dec_owner :: "json \<Rightarrow> sync_owner option" where
  "dec_owner j = (case j of
     JObj kvs \<Rightarrow>
       (case (dec_int 0 (field_values ''schema_version'' kvs), dec_int 0 (field_values ''pid'' kvs),
              dec_time 0 (field_values ''started_at'' kvs), dec_string [] (field_values ''owner_id'' kvs))
        of (Some v, Some p, Some t, Some i) \<Rightarrow>
             Some \<lparr>so_schema_version = v, so_pid = p, so_started_at = t, so_owner_id = i\<rparr>
        | _ \<Rightarrow> None)
   | JNull \<Rightarrow> Some \<lparr>so_schema_version = 0, so_pid = 0, so_started_at = 0, so_owner_id = []\<rparr>
   | _ \<Rightarrow> None)"

section \<open>Writing\<close>

text \<open>
  \<open>writeAtomicMode\<close>: create a temporary file, set its mode, write, sync, close and rename it, then open and
  sync the directory.
\<close>

definition write_atomic_mode ::
  "('a cstate_scheme \<Rightarrow> 'a cstate_scheme) \<Rightarrow> 'a cstate_scheme \<Rightarrow> err option \<times> 'a cstate_scheme" where
  "write_atomic_mode put w =
     (case try_ios 6 w of
        (Some e, w1) \<Rightarrow> (Some e, w1)
      | (None, w1) \<Rightarrow> try_ios 2 (effect put w1))"

text \<open>\<open>os.RemoveAll\<close>, \<open>os.Remove\<close> and \<open>os.MkdirAll\<close>: one fallible call with its effect.\<close>

definition attempt ::
  "('a cstate_scheme \<Rightarrow> 'a cstate_scheme) \<Rightarrow> 'a cstate_scheme \<Rightarrow> err option \<times> 'a cstate_scheme" where
  "attempt f w = (case try_io w of (Some e, w1) \<Rightarrow> (Some e, w1) | (None, w1) \<Rightarrow> (None, effect f w1))"

text \<open>\<open>syncDirectory\<close>: open and sync.\<close>

definition sync_directory :: "'a cstate_scheme \<Rightarrow> err option \<times> 'a cstate_scheme" where
  "sync_directory w = try_ios 2 w"

section \<open>The synchronisation lock\<close>

definition valid_sync_owner_id :: "string \<Rightarrow> bool" where
  "valid_sync_owner_id v =
     (v \<noteq> [] \<and> list_all (\<lambda>c. is_letter c \<or> is_digit c \<or> c = CHR ''-'') v)"

definition random_sync_owner_id ::
  "('a cstate_scheme \<Rightarrow> string res \<times> 'a cstate_scheme) \<Rightarrow> int \<Rightarrow> 'a cstate_scheme \<Rightarrow> string \<times> 'a cstate_scheme" where
  "random_sync_owner_id rand pid w =
     (case rand w of
        (Inr bytes, w1) \<Rightarrow> (hex_encode bytes, w1)
      | (Inl e, w1) \<Rightarrow>
          (case time_now w1 of (t, w2) \<Rightarrow> (int_text pid @ ''-'' @ int_text (unix_nano t), w2)))"

text \<open>\<open>readSyncLockOwner\<close> on the file found at its path, if there is one.\<close>

definition decode_sync_owner :: "json_file option \<Rightarrow> sync_owner res" where
  "decode_sync_owner f =
     (case f of
        None \<Rightarrow> Inl ErrNotExist_err
      | Some BadFile \<Rightarrow> Inl (new_err ''invalid JSON'')
      | Some (JsonFile j) \<Rightarrow>
          (case dec_owner j of
             None \<Rightarrow> Inl (new_err ''invalid JSON'')
           | Some ow \<Rightarrow>
               if so_schema_version ow \<noteq> SyncLockSchemaVersion \<or> so_pid ow \<le> 0 \<or> is_zero_time (so_started_at ow)
                  \<or> \<not> valid_sync_owner_id (so_owner_id ow)
               then Inl (new_err ''invalid skill catalog sync lock owner'')
               else Inr ow))"

definition read_sync_owner ::
  "('a cstate_scheme \<Rightarrow> json_file option) \<Rightarrow> 'a cstate_scheme \<Rightarrow> sync_owner res \<times> 'a cstate_scheme" where
  "read_sync_owner f w =
     (case try_io w of (Some e, w1) \<Rightarrow> (Inl e, w1) | (None, w1) \<Rightarrow> (decode_sync_owner (f w1), w1))"

definition release_sync_lock :: "sync_owner \<Rightarrow> 'a cstate_scheme \<Rightarrow> err option \<times> 'a cstate_scheme" where
  "release_sync_lock me w =
     (case read_sync_owner cs_lock w of
        (Inl e, w1) \<Rightarrow> (if errors_is e ErrNotExist then None else Some e, w1)
      | (Inr ow, w1) \<Rightarrow>
          if so_owner_id ow \<noteq> so_owner_id me
          then (Some (new_err ''skill catalog sync lock ownership changed before release''), w1)
          else
         (case attempt (\<lambda>v. v\<lparr>cs_lock := None\<rparr>) w1 of
            (Some e, w2) \<Rightarrow> (Some e, w2)
          | (None, w2) \<Rightarrow> sync_directory w2))"

definition candidate_name :: "string \<Rightarrow> string" where
  "candidate_name i = ''.sync-lock-'' @ i @ ''.candidate''"

definition drop_candidate :: "string \<Rightarrow> 'a cstate_scheme \<Rightarrow> 'a cstate_scheme" where
  "drop_candidate n w = snd (attempt (\<lambda>v. v\<lparr>cs_candidates := map_del n (cs_candidates v)\<rparr>) w)"

text \<open>
  \<open>publishLockCandidate\<close>: a hard link, which fails when the target exists, and the removal of the source.
  The result is whether the target was made, and the error.
\<close>

definition publish_lock_candidate ::
  "('a cstate_scheme \<Rightarrow> bool) \<Rightarrow> ('a cstate_scheme \<Rightarrow> 'a cstate_scheme) \<Rightarrow> ('a cstate_scheme \<Rightarrow> 'a cstate_scheme)
     \<Rightarrow> 'a cstate_scheme \<Rightarrow> (bool \<times> err option) \<times> 'a cstate_scheme"
where
  "publish_lock_candidate taken link unlink w =
     (case try_io w of
        (Some e, w1) \<Rightarrow> ((False, Some e), w1)
      | (None, w1) \<Rightarrow>
          if taken w1 then ((False, Some (GoErr [ErrExist] ''file exists'')), w1)
          else
         (case attempt unlink (effect link w1) of
            (Some e, w2) \<Rightarrow> ((True, Some e), w2)
          | (None, w2) \<Rightarrow> ((True, None), w2)))"

datatype acquired = Acquired sync_owner | OwnedElsewhere sync_owner

text \<open>\<open>acquireSyncLock\<close>, from the link of the candidate on; a candidate that is still there is removed.\<close>

definition publish_sync_lock ::
  "catalog \<Rightarrow> sync_owner \<Rightarrow> 'a cstate_scheme \<Rightarrow> acquired res \<times> 'a cstate_scheme" where
  "publish_sync_lock c me w =
     (let n = candidate_name (so_owner_id me); data = JsonFile (enc_owner me) in
      case publish_lock_candidate (\<lambda>v. cs_lock v \<noteq> None) (\<lambda>v. v\<lparr>cs_lock := Some data\<rparr>)
             (\<lambda>v. v\<lparr>cs_candidates := map_del n (cs_candidates v)\<rparr>) w of
        ((published, Some e), w1) \<Rightarrow>
          if errors_is e ErrExist then
            (case read_sync_owner cs_lock w1 of
               (Inl e', w2) \<Rightarrow> (Inl (wrap_with ''read existing skill catalog sync lock'' e'), drop_candidate n w2)
             | (Inr ow, w2) \<Rightarrow> (Inr (OwnedElsewhere ow), drop_candidate n w2))
          else if published then
            (case release_sync_lock me w1 of
               (r, w2) \<Rightarrow> (Inl (wrap_with ''publish skill catalog sync lock'' (the (join_errs (Some e) r))), drop_candidate n w2))
          else (Inl (wrap_with ''publish skill catalog sync lock'' e), drop_candidate n w1)
      | ((_, None), w1) \<Rightarrow>
         (case sync_directory w1 of
            (Some e, w2) \<Rightarrow>
              (case release_sync_lock me w2 of
                 (r, w3) \<Rightarrow> (Inl (the (join_errs (Some (wrap_with ''persist skill catalog sync lock directory'' e)) r)), w3))
          | (None, w2) \<Rightarrow>
              (case reach_checkpoint c ''lock_published'' of
                 Some e \<Rightarrow> (case release_sync_lock me w2 of (r, w3) \<Rightarrow> (Inl (the (join_errs (Some e) r)), w3))
               | None \<Rightarrow> (Inr (Acquired me), w2))))"

text \<open>From the publication of the candidate on.\<close>

definition lock_through_candidate :: "catalog \<Rightarrow> sync_owner \<Rightarrow> 'a cstate_scheme \<Rightarrow> acquired res \<times> 'a cstate_scheme" where
  "lock_through_candidate c me w =
     (let n = candidate_name (so_owner_id me) in
      case publish_lock_candidate (\<lambda>v. map_of (cs_candidates v) n \<noteq> None)
             (\<lambda>v. v\<lparr>cs_candidates := map_put n (JsonFile (enc_owner me)) (cs_candidates v)\<rparr>) (\<lambda>v. v) w of
        ((published, Some e), w1) \<Rightarrow>
          (Inl (wrap_with ''publish skill catalog sync lock candidate'' e), if published then drop_candidate n w1 else w1)
      | ((_, None), w1) \<Rightarrow>
     (case sync_directory w1 of
        (Some e, w2) \<Rightarrow> (Inl (wrap_with ''persist skill catalog sync lock candidate directory'' e), drop_candidate n w2)
      | (None, w2) \<Rightarrow>
     (case reach_checkpoint c ''lock_candidate_ready'' of
        Some e \<Rightarrow> (Inl e, drop_candidate n w2)
      | None \<Rightarrow> publish_sync_lock c me w2)))"

definition acquire_sync_lock ::
  "('a cstate_scheme \<Rightarrow> string res \<times> 'a cstate_scheme) \<Rightarrow> catalog \<Rightarrow> 'a cstate_scheme \<Rightarrow> acquired res \<times> 'a cstate_scheme"
where
  "acquire_sync_lock rand c w =
     (case ctx_err w of
        (Some e, w1) \<Rightarrow> (Inl e, w1)
      | (None, w1) \<Rightarrow>
     (case try_io w1 of
        (Some e, w2) \<Rightarrow> (Inl (wrap_with ''create skill catalog root'' e), w2)
      | (None, w2) \<Rightarrow>
     (case time_now w2 of
        (t, w3) \<Rightarrow>
     (case random_sync_owner_id rand (cc_pid c) w3 of
        (i, w4) \<Rightarrow>
     (case try_io w4 of
        (Some e, w5) \<Rightarrow> (Inl (wrap_with ''create skill catalog sync owner temporary file'' e), w5)
      | (None, w5) \<Rightarrow>
     (case try_ios 4 w5 of
        (Some e, w6) \<Rightarrow> (Inl (wrap_with ''persist skill catalog sync owner temporary file'' e), w6)
      | (None, w6) \<Rightarrow>
          lock_through_candidate c \<lparr>so_schema_version = SyncLockSchemaVersion, so_pid = cc_pid c,
            so_started_at = t, so_owner_id = i\<rparr> w6))))))"

section \<open>The store\<close>

definition read_stored_package :: "string \<Rightarrow> 'a cstate_scheme \<Rightarrow> skill_package res \<times> 'a cstate_scheme" where
  "read_stored_package h w =
     (case try_io w of
        (Some e, w1) \<Rightarrow> (Inl (wrap_with (''read stored skill package '' @ h) e), w1)
      | (None, w1) \<Rightarrow>
         (case Option.bind (map_of (cs_objects w1) h) ob_package of
            None \<Rightarrow> (Inl (wrap_with (''read stored skill package '' @ h) ErrNotExist_err), w1)
          | Some BadFile \<Rightarrow> (Inl (new_err (''parse stored skill package '' @ h @ '': invalid JSON'')), w1)
          | Some (JsonFile j) \<Rightarrow>
              (case dec_package j of
                 None \<Rightarrow> (Inl (new_err (''parse stored skill package '' @ h @ '': invalid JSON'')), w1)
               | Some p \<Rightarrow> (Inr p, w1))))"

text \<open>What is at \<open>filepath.Join(filesRoot, path)\<close>, the elements of the path below the files of the object.\<close>

definition stored_file :: "catalog \<Rightarrow> string \<Rightarrow> (string \<times> string) list option \<Rightarrow> string \<Rightarrow> string option" where
  "stored_file c h files path =
     (let ps = clean_parts False [] (split_on (CHR ''/'') path) in
      if ps \<noteq> [] \<and> hd ps = dotdot then cc_outside c h ps
      else (case files of None \<Rightarrow> None | Some m \<Rightarrow> map_of m (join_with ''/'' ps)))"

definition read_stored_file ::
  "catalog \<Rightarrow> string \<Rightarrow> (string \<times> string) list option \<Rightarrow> string \<Rightarrow> 'a cstate_scheme \<Rightarrow> string option \<times> 'a cstate_scheme"
where
  "read_stored_file c h files path w =
     (case try_io w of (Some e, w1) \<Rightarrow> (None, w1) | (None, w1) \<Rightarrow> (stored_file c h files path, w1))"

fun check_assets ::
  "(string \<Rightarrow> string) \<Rightarrow> catalog \<Rightarrow> string \<Rightarrow> (string \<times> string) list option \<Rightarrow> skill_asset list
     \<Rightarrow> 'a cstate_scheme \<Rightarrow> err option \<times> 'a cstate_scheme"
where
  "check_assets sha c h files [] w = (None, w)"
| "check_assets sha c h files (a # as) w =
     (case read_stored_file c h files (as_path a) w of
        (None, w1) \<Rightarrow> (Some (new_err (''stored asset '' @ go_quote (as_path a) @ '' is missing or unreadable'')), w1)
      | (Some data, w1) \<Rightarrow>
          if sha data \<noteq> as_sha256 a
          then (Some (new_err (''stored asset '' @ go_quote (as_path a) @ '' has drifted from its recorded hash'')), w1)
          else check_assets sha c h files as w1)"

text \<open>The files \<open>WalkDir\<close> comes to, in its order.\<close>

definition walk_files :: "(string \<times> string) list \<Rightarrow> string list" where
  "walk_files m = sort_key (split_on (CHR ''/'')) (map fst m)"

definition wanted_files :: "skill_package \<Rightarrow> string list" where
  "wanted_files p =
     (if pk_instructions_path p = [] then [] else [pk_instructions_path p]) @ map as_path (pk_assets p)"

text \<open>The three checks of \<open>verifyStoredPackageIntegrity\<close>.\<close>

definition check_instructions ::
  "catalog \<Rightarrow> string \<Rightarrow> (string \<times> string) list option \<Rightarrow> skill_package \<Rightarrow> 'a cstate_scheme \<Rightarrow> err option \<times> 'a cstate_scheme" where
  "check_instructions c h files p w =
     (let ip = pk_instructions_path p in
      if ip = [] then (None, w)
      else (case read_stored_file c h files ip w of
              (None, w1) \<Rightarrow> (Some (new_err (''stored instructions file '' @ go_quote ip @ '' is missing or unreadable'')), w1)
            | (Some data, w1) \<Rightarrow>
                (if data \<noteq> pk_instructions p
                 then Some (new_err (''stored instructions file '' @ go_quote ip @ '' has drifted from the recorded package''))
                 else None, w1)))"

definition check_undeclared ::
  "(string \<times> string) list option \<Rightarrow> skill_package \<Rightarrow> 'a cstate_scheme \<Rightarrow> err option \<times> 'a cstate_scheme" where
  "check_undeclared files p w =
     (case try_io w of
        (Some e, w1) \<Rightarrow> (Some (new_err ''stored skill package files are unreadable''), w1)
      | (None, w1) \<Rightarrow>
          (case files of
             None \<Rightarrow> Some (new_err ''stored skill package files are unreadable'')
           | Some m \<Rightarrow>
               (case filter (\<lambda>f. f \<notin> set (wanted_files p)) (walk_files m) of
                  [] \<Rightarrow> None
                | f # _ \<Rightarrow> Some (new_err (''stored package contains undeclared file '' @ go_quote f))), w1))"

definition verify_stored_integrity ::
  "(string \<Rightarrow> string) \<Rightarrow> catalog \<Rightarrow> string \<Rightarrow> 'a cstate_scheme \<Rightarrow> err option \<times> 'a cstate_scheme" where
  "verify_stored_integrity sha c h w =
     (case read_stored_package h w of
        (Inl e, w1) \<Rightarrow> (Some (new_err ''stored skill package is missing or unreadable''), w1)
      | (Inr pkg, w1) \<Rightarrow>
     (let files = Option.bind (map_of (cs_objects w1) h) ob_files in
      case check_instructions c h files pkg w1 of
        (Some e, w2) \<Rightarrow> (Some e, w2)
      | (None, w2) \<Rightarrow>
     (case check_assets sha c h files (pk_assets pkg) w2 of
        (Some e, w3) \<Rightarrow> (Some e, w3)
      | (None, w3) \<Rightarrow> check_undeclared files pkg w3)))"

section \<open>Materialising a package\<close>

definition upd_staging :: "string \<Rightarrow> (staging_dir \<Rightarrow> staging_dir) \<Rightarrow> 'a cstate_scheme \<Rightarrow> 'a cstate_scheme" where
  "upd_staging i f v =
     (case map_of (cs_staging v) i of
        None \<Rightarrow> v
      | Some d \<Rightarrow> v\<lparr>cs_staging := map_put i (f d) (cs_staging v)\<rparr>)"

definition upd_object :: "string \<Rightarrow> (store_object \<Rightarrow> store_object) \<Rightarrow> staging_dir \<Rightarrow> staging_dir" where
  "upd_object h f d =
     (case map_of (sd_objects d) h of
        None \<Rightarrow> d
      | Some ob \<Rightarrow> d\<lparr>sd_objects := map_put h (f ob) (sd_objects d)\<rparr>)"

definition empty_object :: store_object where
  "empty_object = \<lparr>ob_package = None, ob_files = None\<rparr>"

definition staged_object :: "string \<Rightarrow> string \<Rightarrow> 'a cstate_scheme \<Rightarrow> store_object option" where
  "staged_object i h v = Option.bind (map_of (cs_staging v) i) (\<lambda>d. map_of (sd_objects d) h)"

text \<open>\<open>writeFileDurable\<close> creates the file, then writes, syncs and closes it: a failure leaves an empty or partial file.\<close>

definition write_durable ::
  "('a cstate_scheme \<Rightarrow> 'a cstate_scheme) \<Rightarrow> ('a cstate_scheme \<Rightarrow> 'a cstate_scheme) \<Rightarrow> 'a cstate_scheme
     \<Rightarrow> err option \<times> 'a cstate_scheme" where
  "write_durable create fill w =
     (case try_io w of
        (Some e, w1) \<Rightarrow> (Some e, w1)
      | (None, w1) \<Rightarrow>
     (case try_io (effect create w1) of
        (Some e, w2) \<Rightarrow> (Some e, w2)
      | (None, w2) \<Rightarrow> try_ios 2 (effect fill w2)))"

definition put_file :: "string \<Rightarrow> string \<Rightarrow> store_object \<Rightarrow> store_object" where
  "put_file p data ob = ob\<lparr>ob_files := Some (map_put p data (case ob_files ob of None \<Rightarrow> [] | Some m \<Rightarrow> m))\<rparr>"

fun write_package_files ::
  "string \<Rightarrow> string \<Rightarrow> source_file list \<Rightarrow> 'a cstate_scheme \<Rightarrow> err option \<times> 'a cstate_scheme" where
  "write_package_files i h [] w = (None, w)"
| "write_package_files i h ((p, data) # fs) w =
     (case attempt (upd_staging i (upd_object h (\<lambda>ob. ob\<lparr>ob_files := Some (case ob_files ob of None \<Rightarrow> [] | Some m \<Rightarrow> m)\<rparr>))) w of
        (Some e, w1) \<Rightarrow> (Some (wrap_with ''create stored skill package path'' e), w1)
      | (None, w1) \<Rightarrow>
     (case write_durable (upd_staging i (upd_object h (put_file p [])))
             (upd_staging i (upd_object h (put_file p data))) w1 of
        (Some e, w2) \<Rightarrow> (Some (wrap_with (''write stored skill package file '' @ go_quote p) e), w2)
      | (None, w2) \<Rightarrow> write_package_files i h fs w2))"

text \<open>\<open>publishImmutableDirectory\<close>: the rename of the staged object, which fails on an object that is there.\<close>

definition move_object :: "string \<Rightarrow> string \<Rightarrow> 'a cstate_scheme \<Rightarrow> 'a cstate_scheme" where
  "move_object i h v =
     (case staged_object i h v of
        None \<Rightarrow> v
      | Some ob \<Rightarrow> (upd_staging i (\<lambda>d. d\<lparr>sd_objects := map_del h (sd_objects d)\<rparr>) v)
          \<lparr>cs_objects := map_put h ob (cs_objects v)\<rparr>)"

definition publish_object :: "string \<Rightarrow> string \<Rightarrow> 'a cstate_scheme \<Rightarrow> err option \<times> 'a cstate_scheme" where
  "publish_object i h w =
     (case try_io w of
        (Some e, w1) \<Rightarrow> (Some e, w1)
      | (None, w1) \<Rightarrow>
          if map_of (cs_objects w1) h \<noteq> None then (Some (GoErr [ErrExist] ''directory not empty''), w1)
          else (None, effect (move_object i h) w1))"

text \<open>The part after the temporary directory is made; it is removed afterwards in any case.\<close>

definition fill_object ::
  "catalog \<Rightarrow> string \<Rightarrow> skill_package \<Rightarrow> source_file list \<Rightarrow> 'a cstate_scheme \<Rightarrow> err option \<times> 'a cstate_scheme" where
  "fill_object c i pkg files w =
     (let h = pi_package_hash (pk_identity pkg) in
      case write_durable (upd_staging i (upd_object h (\<lambda>ob. ob\<lparr>ob_package := Some BadFile\<rparr>)))
             (upd_staging i (upd_object h (\<lambda>ob. ob\<lparr>ob_package := Some (JsonFile (enc_package pkg))\<rparr>))) w of
        (Some e, w1) \<Rightarrow> (Some (wrap_with ''write stored skill package'' e), w1)
      | (None, w1) \<Rightarrow>
     (case write_package_files i h files w1 of
        (Some e, w2) \<Rightarrow> (Some e, w2)
      | (None, w2) \<Rightarrow>
     (case try_io w2 of
        (Some e, w3) \<Rightarrow> (Some (wrap_with ''persist owned skill store staging directory'' e), w3)
      | (None, w3) \<Rightarrow>
     (case reach_checkpoint c ''store_object_staged'' of
        Some e \<Rightarrow> (Some e, w3)
      | None \<Rightarrow>
     (case publish_object i h w3 of
        (Some e, w4) \<Rightarrow> (Some (wrap_with ''publish immutable skill store object'' e), w4)
      | (None, w4) \<Rightarrow>
         (case sync_directory w4 of
            (Some e, w5) \<Rightarrow> (Some (wrap_with ''persist immutable skill store object'' e), w5)
          | (None, w5) \<Rightarrow> (None, w5)))))))"

definition materialize ::
  "catalog \<Rightarrow> string \<Rightarrow> skill_package \<Rightarrow> source_file list \<Rightarrow> 'a cstate_scheme \<Rightarrow> err option \<times> 'a cstate_scheme" where
  "materialize c i pkg files w =
     (let h = pi_package_hash (pk_identity pkg) in
      case try_io w of
        (Some e, w1) \<Rightarrow> (Some (wrap_with ''create skill catalog store'' e), w1)
      | (None, w1) \<Rightarrow>
     (case try_io w1 of
        (se, w2) \<Rightarrow>
          if se = None \<and> map_of (cs_objects w2) h \<noteq> None then (None, w2)
          else if se \<noteq> None \<and> \<not> errors_is (the se) ErrNotExist
          then (Some (wrap_with ''inspect skill store object'' (the se)), w2)
          else
     (case try_io w2 of
        (Some e, w3) \<Rightarrow> (Some (wrap_with ''create owned skill store staging root'' e), w3)
      | (None, w3) \<Rightarrow>
     (case try_io w3 of
        (Some e, w4) \<Rightarrow> (Some (wrap_with ''create owned skill store staging directory'' e), w4)
      | (None, w4) \<Rightarrow>
          if staged_object i h w4 \<noteq> None
          then (Some (wrap_with ''create owned skill store staging directory'' (GoErr [ErrExist] ''file exists'')), w4)
          else
         (case fill_object c i pkg files
                 (effect (upd_staging i (\<lambda>d. d\<lparr>sd_objects := map_put h empty_object (sd_objects d)\<rparr>)) w4) of
            (r, w5) \<Rightarrow>
              (r, snd (attempt (upd_staging i (\<lambda>d. d\<lparr>sd_objects := map_del h (sd_objects d)\<rparr>)) w5)))))))"

text \<open>\<open>loadPackage\<close> with its effect: a package that passes is in the store before it is Ready.\<close>

definition load_into_store ::
  "(string \<Rightarrow> string) \<Rightarrow> source_view \<Rightarrow> catalog \<Rightarrow> string \<Rightarrow> skill_source \<Rightarrow> string \<Rightarrow> package_declaration
     \<Rightarrow> 'a cstate_scheme \<Rightarrow> catalog_entry res option \<times> 'a cstate_scheme"
where
  "load_into_store sha sv c i src directory d w =
     (case load_package sha sv (sk_id src) (sk_root src) directory d of
        None \<Rightarrow> (None, w)
      | Some (Unsupported e) \<Rightarrow> (Some (Inr e), w)
      | Some (LoadFailed e) \<Rightarrow> (Some (Inl e), w)
      | Some (Loaded pkg files) \<Rightarrow>
          (case materialize c i pkg files w of
             (Some e, w1) \<Rightarrow> (Some (Inl e), w1)
           | (None, w1) \<Rightarrow> (Some (Inr \<lparr>ce_state = SkillReady, ce_package = pkg, ce_diagnostic = []\<rparr>), w1)))"

section \<open>Collecting the entries\<close>

text \<open>\<open>addUniqueEntry\<close>; the names seen are those of the entries.\<close>

definition add_unique_entry :: "catalog_entry list \<Rightarrow> catalog_entry \<Rightarrow> catalog_entry list res" where
  "add_unique_entry es e =
     (if entry_qualified e \<in> set (map entry_qualified es)
      then Inl (new_err (''duplicate skill package '' @ go_quote (entry_qualified e)))
      else Inr (es @ [e]))"

definition find_source :: "skill_source list \<Rightarrow> string \<Rightarrow> skill_source option" where
  "find_source srcs i = map_of (rev (map (\<lambda>s. (sk_id s, s)) srcs)) i"

fun load_runtime_packages ::
  "(string \<Rightarrow> string) \<Rightarrow> source_view \<Rightarrow> catalog \<Rightarrow> string \<Rightarrow> int \<Rightarrow> package_declaration list \<Rightarrow> catalog_entry list
     \<Rightarrow> 'a cstate_scheme \<Rightarrow> catalog_entry list res option \<times> 'a cstate_scheme"
where
  "load_runtime_packages sha sv c i v [] es w = (Some (Inr es), w)"
| "load_runtime_packages sha sv c i v (d0 # ds) es w =
     (case ctx_err w of
        (Some e, w1) \<Rightarrow> (Some (Inl e), w1)
      | (None, w1) \<Rightarrow>
          if pd_source_id d0 = ''local''
          then (Some (Inl (new_err ''local Skill Packages must use skill.yaml manifests, not runtime lock declarations'')), w1)
          else
         (let d = (if pd_schema_version d0 = 0 then d0\<lparr>pd_schema_version := v\<rparr> else d0) in
          case find_source (rs_sources (cc_settings c)) (pd_source_id d) of
            None \<Rightarrow> (Some (Inl (new_err (''runtime lock package '' @ go_quote (pd_name d)
                      @ '' references undeclared source '' @ go_quote (pd_source_id d)))), w1)
          | Some src \<Rightarrow>
              if pd_source_id d = []
              then (Some (Inl (new_err (''runtime lock package '' @ go_quote (pd_name d)
                      @ '' references undeclared source '' @ go_quote (pd_source_id d)))), w1)
              else
             (case load_into_store sha sv c i src (pd_directory d) d w1 of
                (None, w2) \<Rightarrow> (None, w2)
              | (Some (Inl e), w2) \<Rightarrow> (Some (Inl e), w2)
              | (Some (Inr e), w2) \<Rightarrow>
                 (case add_unique_entry es e of
                    Inl er \<Rightarrow> (Some (Inl er), w2)
                  | Inr es' \<Rightarrow> load_runtime_packages sha sv c i v ds es' w2))))"

definition safe_manifest_diagnostic :: "err \<Rightarrow> string" where
  "safe_manifest_diagnostic e =
     (if errors_is e ErrNotExist then LocalManifestName @ '' is missing'' else trim_space (err_text e))"

definition local_invalid :: "string \<Rightarrow> string \<Rightarrow> string \<Rightarrow> catalog_entry" where
  "local_invalid name directory t = unsupported_entry ''local'' name directory (invalid_package t)"

text \<open>The loop over the directories of the local source.\<close>

fun load_local_directories ::
  "(string \<Rightarrow> string) \<Rightarrow> source_view \<Rightarrow> yaml_reader \<Rightarrow> catalog \<Rightarrow> string \<Rightarrow> skill_source \<Rightarrow> (string \<times> bool) list
     \<Rightarrow> 'a cstate_scheme \<Rightarrow> catalog_entry list res option \<times> 'a cstate_scheme"
where
  "load_local_directories sha sv yr c i src [] w = (Some (Inr []), w)"
| "load_local_directories sha sv yr c i src ((name, isdir) # ds) w =
     (case ctx_err w of
        (Some e, w1) \<Rightarrow> (Some (Inl e), w1)
      | (None, w1) \<Rightarrow>
          if \<not> isdir then load_local_directories sha sv yr c i src ds w1
          else
         (case (case read_strict_yaml sv (yr_declaration yr) (yr_rest yr)
                       (path_text (join_text (sk_root src) (name @ ''/'' @ LocalManifestName))) of
                  Inl (PathError e) \<Rightarrow>
                    if \<not> errors_is e ErrNotExist
                    then (Some (Inl (wrap_with ''read local skill manifest'' e)), w1)
                    else (Some (Inr (local_invalid name name (''manifest is invalid: '' @ safe_manifest_diagnostic e))), w1)
                | Inl (InputError e) \<Rightarrow>
                    (Some (Inr (local_invalid name name (''manifest is invalid: '' @ safe_manifest_diagnostic e))), w1)
                | Inr d \<Rightarrow>
                    if pd_source_id d \<noteq> [] \<or> pd_directory d \<noteq> []
                    then (Some (Inr (local_invalid (pd_name d) name ''manifest must not declare source_id or directory'')), w1)
                    else load_into_store sha sv c i src name (d\<lparr>pd_source_id := ''local''\<rparr>) w1) of
            (None, w2) \<Rightarrow> (None, w2)
          | (Some (Inl e), w2) \<Rightarrow> (Some (Inl e), w2)
          | (Some (Inr e), w2) \<Rightarrow>
             (case load_local_directories sha sv yr c i src ds w2 of
                (Some (Inr es), w3) \<Rightarrow> (Some (Inr (e # es)), w3)
              | (Some (Inl er), w3) \<Rightarrow> (Some (Inl er), w3)
              | (None, w3) \<Rightarrow> (None, w3))))"

definition load_local_packages ::
  "(string \<Rightarrow> string) \<Rightarrow> source_view \<Rightarrow> yaml_reader \<Rightarrow> catalog \<Rightarrow> string \<Rightarrow> skill_source
     \<Rightarrow> 'a cstate_scheme \<Rightarrow> catalog_entry list res option \<times> 'a cstate_scheme"
where
  "load_local_packages sha sv yr c i src w =
     (case sv_dir sv (sk_root src) of
        Inl e \<Rightarrow> (Some (if errors_is e ErrNotExist then Inr [] else Inl (wrap_with ''read local skill source'' e)), w)
      | Inr ds \<Rightarrow> load_local_directories sha sv yr c i src ds w)"

fun add_unique_entries :: "catalog_entry list \<Rightarrow> catalog_entry list \<Rightarrow> catalog_entry list res" where
  "add_unique_entries es [] = Inr es"
| "add_unique_entries es (e # ls) =
     (case add_unique_entry es e of Inl er \<Rightarrow> Inl er | Inr es' \<Rightarrow> add_unique_entries es' ls)"

section \<open>The index\<close>

definition summarize_entries :: "catalog_entry list \<Rightarrow> entry_summary list" where
  "summarize_entries es = map (\<lambda>e. \<lparr>es_state = ce_state e, es_identity = pk_identity (ce_package e),
     es_diagnostic = ce_diagnostic e\<rparr>) es"

definition index_text :: "catalog_index \<Rightarrow> index_file" where
  "index_text ix = \<lparr>if_bytes = json_indent (enc_index ix) [] @ [newline], if_content = JsonFile (enc_index ix)\<rparr>"

definition stage_index :: "catalog \<Rightarrow> string \<Rightarrow> entry_summary list \<Rightarrow> 'a cstate_scheme \<Rightarrow> err option \<times> 'a cstate_scheme" where
  "stage_index c i es w =
     (let ix = \<lparr>ci_schema_version = 1, ci_aliases = clone_aliases (rs_aliases (cc_settings c)), ci_entries = es\<rparr> in
      case write_atomic_mode (upd_staging i (\<lambda>d. d\<lparr>sd_index := Some (index_text ix)\<rparr>)) w of
        (Some e, w1) \<Rightarrow> (Some (wrap_with ''write staged skill catalog index'' e), w1)
      | (None, w1) \<Rightarrow> (None, w1))"

fun verify_summaries :: "entry_summary list \<Rightarrow> 'a cstate_scheme \<Rightarrow> err option \<times> 'a cstate_scheme" where
  "verify_summaries [] w = (None, w)"
| "verify_summaries (s # ss) w =
     (if es_state s \<noteq> SkillReady then verify_summaries ss w
      else
     (case read_stored_package (pi_package_hash (es_identity s)) w of
        (Inl e, w1) \<Rightarrow> (Some (wrap_with ''verify staged skill catalog index'' e), w1)
      | (Inr pkg, w1) \<Rightarrow>
          if pk_identity pkg \<noteq> es_identity s
          then (Some (new_err (''verify staged skill catalog index: store identity mismatch for ''
                 @ qualified_name (es_identity s))), w1)
          else verify_summaries ss w1))"

definition staged_index :: "string \<Rightarrow> 'a cstate_scheme \<Rightarrow> index_file option" where
  "staged_index i v = Option.bind (map_of (cs_staging v) i) sd_index"

definition verify_staged_index :: "string \<Rightarrow> 'a cstate_scheme \<Rightarrow> err option \<times> 'a cstate_scheme" where
  "verify_staged_index i w =
     (case try_io w of
        (Some e, w1) \<Rightarrow> (Some (wrap_with ''read staged skill catalog index'' e), w1)
      | (None, w1) \<Rightarrow>
         (case staged_index i w1 of
            None \<Rightarrow> (Some (wrap_with ''read staged skill catalog index'' ErrNotExist_err), w1)
          | Some f \<Rightarrow>
             (case if_content f of
                BadFile \<Rightarrow> (Some (new_err ''parse staged skill catalog index: invalid JSON''), w1)
              | JsonFile j \<Rightarrow>
                 (case dec_index j of
                    None \<Rightarrow> (Some (new_err ''parse staged skill catalog index: invalid JSON''), w1)
                  | Some ix \<Rightarrow>
                      if ci_schema_version ix \<noteq> 1
                      then (Some (new_err ''staged skill catalog index has an unsupported schema version''), w1)
                      else verify_summaries (ci_entries ix) w1))))"

definition publish_staged_index :: "string \<Rightarrow> 'a cstate_scheme \<Rightarrow> err option \<times> 'a cstate_scheme" where
  "publish_staged_index i w =
     (case try_io w of
        (Some e, w1) \<Rightarrow> (Some (wrap_with ''read staged skill catalog index for publication'' e), w1)
      | (None, w1) \<Rightarrow>
         (case staged_index i w1 of
            None \<Rightarrow> (Some (wrap_with ''read staged skill catalog index for publication'' ErrNotExist_err), w1)
          | Some f \<Rightarrow>
             (case write_atomic_mode (\<lambda>v. v\<lparr>cs_index := Some f\<rparr>) w1 of
                (Some e, w2) \<Rightarrow> (Some (wrap_with ''publish active skill catalog index'' e), w2)
              | (None, w2) \<Rightarrow> (None, w2))))"

section \<open>Sync\<close>

definition SyncSucceeded :: string where "SyncSucceeded = ''succeeded''"
definition SyncInProgress :: string where "SyncInProgress = ''in_progress''"
definition SyncRecoveryRequired :: string where "SyncRecoveryRequired = ''recovery_required''"

record sync_result =
  sy_state :: string
  sy_owner :: "sync_owner option"
  sy_entries :: "entry_summary list"

definition zero_sync :: sync_result where
  "zero_sync = \<lparr>sy_state = [], sy_owner = None, sy_entries = []\<rparr>"

definition ErrSyncStillRunning_err :: err where
  "ErrSyncStillRunning_err = GoErr [ErrSyncStillRunning] ''skill catalog synchronization is still running''"
definition ErrSyncRecoveryRequired_err :: err where
  "ErrSyncRecoveryRequired_err = GoErr [ErrSyncRecoveryRequired]
     ''orphaned skill catalog synchronization requires explicit recovery with syntroph skill recovery --clear-orphan''"
definition ErrSyncLivenessUnverifiable_err :: err where
  "ErrSyncLivenessUnverifiable_err = GoErr [ErrSyncLivenessUnverifiable]
     ''skill catalog synchronization owner liveness cannot be verified''"

text \<open>\<open>boundSyncDiagnostic\<close>: cut before a rune so that the message with its suffix has 1024 bytes at most.\<close>

definition rune_start :: "char \<Rightarrow> bool" where
  "rune_start ch = (\<not> (128 \<le> byte ch \<and> byte ch < 192))"

fun rune_boundary :: "string \<Rightarrow> nat \<Rightarrow> nat" where
  "rune_boundary m 0 = 0"
| "rune_boundary m (Suc n) = (if rune_start (m ! Suc n) then Suc n else rune_boundary m n)"

definition maxSyncDiagnosticBytes :: nat where "maxSyncDiagnosticBytes = 1024"
definition truncated_mark :: string where "truncated_mark = ''... [truncated]''"

definition bound_sync_diagnostic :: "err option \<Rightarrow> err option" where
  "bound_sync_diagnostic er =
     (case er of
        None \<Rightarrow> None
      | Some e \<Rightarrow>
          if length (err_text e) \<le> maxSyncDiagnosticBytes then Some e
          else Some (GoErr (err_chain e)
            (take (rune_boundary (err_text e) (maxSyncDiagnosticBytes - length truncated_mark)) (err_text e)
             @ truncated_mark)))"

text \<open>From the reading of the runtime lock to the summaries: what is to be published.\<close>

definition collect_entries ::
  "(string \<Rightarrow> string) \<Rightarrow> source_view \<Rightarrow> yaml_reader \<Rightarrow> catalog \<Rightarrow> string
     \<Rightarrow> 'a cstate_scheme \<Rightarrow> catalog_entry list res option \<times> 'a cstate_scheme"
where
  "collect_entries sha sv yr c i w =
     (case read_strict_yaml sv (yr_lock yr) (yr_rest yr) (rs_runtime_lock (cc_settings c)) of
        Inl ye \<Rightarrow>
          (Some (Inl (if errors_is (yaml_err ye) ErrNotExist
             then new_err (''runtime skill lock is missing at '' @ rs_runtime_lock (cc_settings c)
               @ ''; create or restore the configured lock before running syntroph skill sync'')
             else wrap_with ''read runtime skill lock'' (yaml_err ye))), w)
      | Inr lk \<Rightarrow>
          if rl_schema_version lk \<noteq> RuntimeLockSchemaVersion
          then (Some (Inl (new_err (''runtime skill lock schema_version must be '' @ int_text RuntimeLockSchemaVersion))), w)
          else
     (case load_runtime_packages sha sv c i (rl_schema_version lk) (rl_packages lk) [] w of
        (Some (Inr es), w1) \<Rightarrow>
          (case find_source (rs_sources (cc_settings c)) ''local'' of
             None \<Rightarrow> (Some (Inr (sort_key entry_qualified es)), w1)
           | Some src \<Rightarrow>
              (case load_local_packages sha sv yr c i src w1 of
                 (Some (Inr ls), w2) \<Rightarrow>
                   (case add_unique_entries es ls of
                      Inl e \<Rightarrow> (Some (Inl e), w2)
                    | Inr es' \<Rightarrow> (Some (Inr (sort_key entry_qualified es')), w2))
               | r \<Rightarrow> r))
      | r \<Rightarrow> r))"

text \<open>What \<open>Sync\<close> does between the creation of its staging directory and its clean-up.\<close>

definition sync_body ::
  "(string \<Rightarrow> string) \<Rightarrow> source_view \<Rightarrow> yaml_reader \<Rightarrow> catalog \<Rightarrow> sync_owner
     \<Rightarrow> 'a cstate_scheme \<Rightarrow> (sync_result \<times> err option) option \<times> 'a cstate_scheme"
where
  "sync_body sha sv yr c me w =
     (let i = so_owner_id me; fail = (\<lambda>e. Some (zero_sync, Some e)) in
      case write_atomic_mode (upd_staging i (\<lambda>d. d\<lparr>sd_owner := Some (JsonFile (enc_owner me))\<rparr>)) w of
        (Some e, w1) \<Rightarrow> (fail (wrap_with ''write skill catalog staging owner'' e), w1)
      | (None, w1) \<Rightarrow>
     (case reach_checkpoint c ''staging_created'' of
        Some e \<Rightarrow> (fail e, w1)
      | None \<Rightarrow>
     (case collect_entries sha sv yr c i w1 of
        (None, w2) \<Rightarrow> (None, w2)
      | (Some (Inl e), w2) \<Rightarrow> (fail e, w2)
      | (Some (Inr es), w2) \<Rightarrow>
     (case new_skill_port es (rs_aliases (cc_settings c)) of
        Inl e \<Rightarrow> (fail (wrap_with ''validate skill catalog preparer'' e), w2)
      | Inr port \<Rightarrow>
     (case reach_checkpoint c ''store_ready'' of
        Some e \<Rightarrow> (fail e, w2)
      | None \<Rightarrow>
     (case stage_index c i (summarize_entries es) w2 of
        (Some e, w3) \<Rightarrow> (fail e, w3)
      | (None, w3) \<Rightarrow>
     (case verify_staged_index i w3 of
        (Some e, w4) \<Rightarrow> (fail e, w4)
      | (None, w4) \<Rightarrow>
     (case reach_checkpoint c ''index_staged'' of
        Some e \<Rightarrow> (fail e, w4)
      | None \<Rightarrow>
     (case publish_staged_index i w4 of
        (Some e, w5) \<Rightarrow> (fail e, w5)
      | (None, w5) \<Rightarrow>
     (case reach_checkpoint c ''index_published'' of
        Some e \<Rightarrow> (fail e, w5)
      | None \<Rightarrow> (Some (\<lparr>sy_state = SyncSucceeded, sy_owner = None, sy_entries = summarize_entries es\<rparr>, None), w5)))))))))))"

text \<open>The deferred clean-up: the staging directory, and the lock only when that is gone.\<close>

definition sync_cleanup ::
  "sync_owner \<Rightarrow> err option \<Rightarrow> 'a cstate_scheme \<Rightarrow> err option \<times> 'a cstate_scheme" where
  "sync_cleanup me er w =
     (case attempt (\<lambda>v. v\<lparr>cs_staging := map_del (so_owner_id me) (cs_staging v)\<rparr>) w of
        (Some e, w1) \<Rightarrow> (join_errs er (Some e), w1)
      | (None, w1) \<Rightarrow> (case release_sync_lock me w1 of (r, w2) \<Rightarrow> (join_errs er r, w2)))"

definition empty_staging :: staging_dir where
  "empty_staging = \<lparr>sd_owner = None, sd_objects = [], sd_index = None\<rparr>"

definition make_staging :: "string \<Rightarrow> 'a cstate_scheme \<Rightarrow> 'a cstate_scheme" where
  "make_staging i v =
     (if map_of (cs_staging v) i = None then v\<lparr>cs_staging := map_put i empty_staging (cs_staging v)\<rparr> else v)"

definition sync_catalog ::
  "(string \<Rightarrow> string) \<Rightarrow> ('a cstate_scheme \<Rightarrow> string res \<times> 'a cstate_scheme) \<Rightarrow> source_view \<Rightarrow> yaml_reader \<Rightarrow> catalog
     \<Rightarrow> 'a cstate_scheme \<Rightarrow> (sync_result \<times> err option) option \<times> 'a cstate_scheme"
where
  "sync_catalog sha rand sv yr c w =
     (let done = (\<lambda>r e. Some (r, bound_sync_diagnostic e)) in
      case ctx_err w of
        (Some e, w1) \<Rightarrow> (done zero_sync (Some e), w1)
      | (None, w1) \<Rightarrow>
     (case acquire_sync_lock rand c w1 of
        (Inl e, w2) \<Rightarrow> (done zero_sync (Some e), w2)
      | (Inr (OwnedElsewhere ow), w2) \<Rightarrow>
          (case cc_process_state c (so_pid ow) of
             ProcessAlive \<Rightarrow> (done (zero_sync\<lparr>sy_state := SyncInProgress, sy_owner := Some ow\<rparr>) None, w2)
           | ProcessDead \<Rightarrow> (done (zero_sync\<lparr>sy_state := SyncRecoveryRequired, sy_owner := Some ow\<rparr>)
                             (Some ErrSyncRecoveryRequired_err), w2)
           | ProcessUnknown \<Rightarrow> (done (zero_sync\<lparr>sy_state := SyncRecoveryRequired, sy_owner := Some ow\<rparr>)
                             (Some ErrSyncLivenessUnverifiable_err), w2))
      | (Inr (Acquired me), w2) \<Rightarrow>
         (case attempt (make_staging (so_owner_id me)) w2 of
            (Some e, w3) \<Rightarrow>
              (case release_sync_lock me w3 of
                 (r, w4) \<Rightarrow> (done zero_sync (join_errs (Some (wrap_with ''create skill catalog staging directory'' e)) r), w4))
          | (None, w3) \<Rightarrow>
             (case sync_body sha sv yr c me w3 of
                (None, w4) \<Rightarrow> (None, w4)
              | (Some (res, er), w4) \<Rightarrow>
                 (case sync_cleanup me er w4 of (er', w5) \<Rightarrow> (done res er', w5))))))"

section \<open>Reading the catalog\<close>

definition read_index_data :: "'a cstate_scheme \<Rightarrow> (catalog_index \<times> string) res \<times> 'a cstate_scheme" where
  "read_index_data w =
     (case try_io w of
        (Some e, w1) \<Rightarrow> (Inl (wrap_with ''read active skill catalog index'' e), w1)
      | (None, w1) \<Rightarrow>
         (case cs_index w1 of
            None \<Rightarrow> (Inl (wrap_with ''read active skill catalog index'' ErrNotExist_err), w1)
          | Some f \<Rightarrow>
             (case if_content f of
                BadFile \<Rightarrow> (Inl (new_err ''parse active skill catalog index: invalid JSON''), w1)
              | JsonFile j \<Rightarrow>
                 (case dec_index j of
                    None \<Rightarrow> (Inl (new_err ''parse active skill catalog index: invalid JSON''), w1)
                  | Some ix \<Rightarrow>
                      if ci_schema_version ix \<noteq> 1
                      then (Inl (new_err ''active skill catalog index has an unsupported schema version''), w1)
                      else (Inr (ix, if_bytes f), w1)))))"

definition read_index :: "'a cstate_scheme \<Rightarrow> catalog_index res \<times> 'a cstate_scheme" where
  "read_index w =
     (case read_index_data w of (Inl e, w1) \<Rightarrow> (Inl e, w1) | (Inr (ix, b), w1) \<Rightarrow> (Inr ix, w1))"

definition list_catalog :: "'a cstate_scheme \<Rightarrow> entry_summary list res \<times> 'a cstate_scheme" where
  "list_catalog w =
     (case ctx_err w of
        (Some e, w1) \<Rightarrow> (Inl e, w1)
      | (None, w1) \<Rightarrow> (case read_index w1 of (Inl e, w2) \<Rightarrow> (Inl e, w2) | (Inr ix, w2) \<Rightarrow> (Inr (ci_entries ix), w2)))"

definition unsupported_summary :: "entry_summary \<Rightarrow> catalog_entry" where
  "unsupported_summary s = \<lparr>ce_state = es_state s,
     ce_package = zero_package\<lparr>pk_identity := es_identity s\<rparr>, ce_diagnostic = es_diagnostic s\<rparr>"

definition show_catalog :: "string \<Rightarrow> 'a cstate_scheme \<Rightarrow> catalog_entry res \<times> 'a cstate_scheme" where
  "show_catalog name w =
     (case ctx_err w of
        (Some e, w1) \<Rightarrow> (Inl e, w1)
      | (None, w1) \<Rightarrow>
     (case read_index w1 of
        (Inl e, w2) \<Rightarrow> (Inl e, w2)
      | (Inr ix, w2) \<Rightarrow>
         (let n = trim_space name in
          case find (\<lambda>s. qualified_name (es_identity s) = n) (ci_entries ix) of
            None \<Rightarrow> (Inl (not_found_err n), w2)
          | Some s \<Rightarrow>
              if es_state s = SkillReady then
                (case read_stored_package (pi_package_hash (es_identity s)) w2 of
                   (Inl e, w3) \<Rightarrow> (Inl e, w3)
                 | (Inr pkg, w3) \<Rightarrow> (Inr \<lparr>ce_state = es_state s, ce_package = pkg, ce_diagnostic = es_diagnostic s\<rparr>, w3))
              else (Inr (unsupported_summary s), w2))))"

text \<open>The loop of \<open>Verify\<close>: the entries with their new state, and the number of those that are not Ready.\<close>

fun verify_entries ::
  "(string \<Rightarrow> string) \<Rightarrow> catalog \<Rightarrow> entry_summary list \<Rightarrow> 'a cstate_scheme \<Rightarrow> (entry_summary list \<times> nat) \<times> 'a cstate_scheme"
where
  "verify_entries sha c [] w = (([], 0), w)"
| "verify_entries sha c (s # ss) w =
     (case (if es_state s \<noteq> SkillReady then ((s, 1), w)
            else (case verify_stored_integrity sha c (pi_package_hash (es_identity s)) w of
                    (None, w1) \<Rightarrow> ((s, 0), w1)
                  | (Some e, w1) \<Rightarrow> ((\<lparr>es_state = UnsupportedSkillPackage, es_identity = es_identity s,
                      es_diagnostic = cut_diagnostic (err_text e)\<rparr>, 1), w1))) of
        ((s', k), w1) \<Rightarrow>
          (case verify_entries sha c ss w1 of ((ss', n), w2) \<Rightarrow> ((s' # ss', k + n), w2)))"

definition verify_catalog ::
  "(string \<Rightarrow> string) \<Rightarrow> catalog \<Rightarrow> string \<Rightarrow> 'a cstate_scheme \<Rightarrow> (entry_summary list \<times> err option) \<times> 'a cstate_scheme"
where
  "verify_catalog sha c name w =
     (case ctx_err w of
        (Some e, w1) \<Rightarrow> (([], Some e), w1)
      | (None, w1) \<Rightarrow>
     (case read_index w1 of
        (Inl e, w2) \<Rightarrow> (([], Some e), w2)
      | (Inr ix, w2) \<Rightarrow>
         (let n = trim_space name in
          case (if n = [] then Some (ci_entries ix)
                else map_option (\<lambda>s. [s]) (find (\<lambda>s. qualified_name (es_identity s) = n) (ci_entries ix))) of
            None \<Rightarrow> (([], Some (not_found_err n)), w2)
          | Some es \<Rightarrow>
             (case verify_entries sha c es w2 of
                ((es', k), w3) \<Rightarrow>
                  ((es', if k > 0 then Some (skill_err ErrUnsupportedSkill (''unsupported skill package: '' @ nat_text k
                      @ '' of '' @ nat_text (length es) @ '' skill package(s) failed verification'')) else None), w3)))))"

fun load_entries ::
  "(string \<Rightarrow> string) \<Rightarrow> catalog \<Rightarrow> entry_summary list \<Rightarrow> 'a cstate_scheme \<Rightarrow> catalog_entry list res \<times> 'a cstate_scheme"
where
  "load_entries sha c [] w = (Inr [], w)"
| "load_entries sha c (s # ss) w =
     (case ctx_err w of
        (Some e, w1) \<Rightarrow> (Inl e, w1)
      | (None, w1) \<Rightarrow>
     (case (if es_state s \<noteq> SkillReady then (Inr (unsupported_summary s), w1)
            else (case verify_stored_integrity sha c (pi_package_hash (es_identity s)) w1 of
                    (Some e, w2) \<Rightarrow> (Inr ((unsupported_summary s)\<lparr>ce_state := UnsupportedSkillPackage,
                       ce_diagnostic := cut_diagnostic (err_text e)\<rparr>), w2)
                  | (None, w2) \<Rightarrow>
                     (case read_stored_package (pi_package_hash (es_identity s)) w2 of
                        (Inl e, w3) \<Rightarrow> (Inl e, w3)
                      | (Inr pkg, w3) \<Rightarrow>
                          (Inr \<lparr>ce_state = es_state s, ce_package = pkg, ce_diagnostic = es_diagnostic s\<rparr>, w3)))) of
        (Inl e, w3) \<Rightarrow> (Inl e, w3)
      | (Inr e, w3) \<Rightarrow>
         (case load_entries sha c ss w3 of
            (Inl er, w4) \<Rightarrow> (Inl er, w4)
          | (Inr es, w4) \<Rightarrow> (Inr (e # es), w4))))"

text \<open>
  \<open>Prepare\<close>. The port is kept with the hash of the index it was built from; a new port starts with an
  empty registry of invocations.
\<close>

definition catalog_prepare ::
  "(string \<Rightarrow> string) \<Rightarrow> (string \<Rightarrow> float64 option) \<Rightarrow> ('a cstate_scheme \<Rightarrow> string res \<times> 'a cstate_scheme) \<Rightarrow> catalog
     \<Rightarrow> prepare_request \<Rightarrow> 'a cstate_scheme \<Rightarrow> skill_bundle res \<times> 'a cstate_scheme"
where
  "catalog_prepare sha lit rand c q w =
     (case read_index_data w of
        (Inl e, w1) \<Rightarrow> (Inl e, w1)
      | (Inr (ix, bytes), w1) \<Rightarrow>
          (case cs_preparer w1 of
             Some (h, port) \<Rightarrow>
               if h = sha bytes then prepare_skill sha lit (random_invocation_id rand) port q w1
               else
              (case load_entries sha c (ci_entries ix) w1 of
                 (Inl e, w2) \<Rightarrow> (Inl e, w2)
               | (Inr es, w2) \<Rightarrow>
                 (case new_skill_port es (ci_aliases ix) of
                    Inl e \<Rightarrow> (Inl e, w2)
                  | Inr port' \<Rightarrow> prepare_skill sha lit (random_invocation_id rand) port' q
                      (w2\<lparr>cs_preparer := Some (sha bytes, port'), by_id := []\<rparr>)))
           | None \<Rightarrow>
              (case load_entries sha c (ci_entries ix) w1 of
                 (Inl e, w2) \<Rightarrow> (Inl e, w2)
               | (Inr es, w2) \<Rightarrow>
                 (case new_skill_port es (ci_aliases ix) of
                    Inl e \<Rightarrow> (Inl e, w2)
                  | Inr port' \<Rightarrow> prepare_skill sha lit (random_invocation_id rand) port' q
                      (w2\<lparr>cs_preparer := Some (sha bytes, port'), by_id := []\<rparr>)))))"

section \<open>Recovery\<close>

definition SyncRecoveryNone :: string where "SyncRecoveryNone = ''none''"
definition SyncRecoveryInProgress :: string where "SyncRecoveryInProgress = ''in_progress''"
definition SyncRecoveryOrphaned :: string where "SyncRecoveryOrphaned = ''orphaned''"
definition SyncRecoveryUnverifiable :: string where "SyncRecoveryUnverifiable = ''unverifiable''"

record sync_recovery =
  rc_state :: string
  rc_owner :: "sync_owner option"
  rc_staging :: string
  rc_candidates :: "(string \<times> sync_owner) list"

text \<open>The loop over what \<open>Glob\<close> found, sorted; each is inspected and read.\<close>

fun discover_candidates ::
  "string list \<Rightarrow> 'a cstate_scheme \<Rightarrow> (string \<times> sync_owner) list res \<times> 'a cstate_scheme" where
  "discover_candidates [] w = (Inr [], w)"
| "discover_candidates (n # ns) w =
     (case try_io w of
        (Some e, w1) \<Rightarrow>
          if errors_is e ErrNotExist then discover_candidates ns w1
          else (Inl (wrap_with ''inspect skill catalog sync lock candidate'' e), w1)
      | (None, w1) \<Rightarrow>
     (case read_sync_owner (\<lambda>v. map_of (cs_candidates v) n) w1 of
        (Inl e, w2) \<Rightarrow>
          if errors_is e ErrNotExist then discover_candidates ns w2
          else (Inl (wrap_with ''read skill catalog sync lock candidate'' e), w2)
      | (Inr ow, w2) \<Rightarrow>
          if n \<noteq> candidate_name (so_owner_id ow)
          then (Inl (new_err ''skill catalog sync lock candidate name does not match its owner''), w2)
          else
         (case discover_candidates ns w2 of
            (Inl e, w3) \<Rightarrow> (Inl e, w3)
          | (Inr cs, w3) \<Rightarrow> (Inr ((n, ow) # cs), w3))))"

text \<open>The state after the probes, in their order: uncertainty wins over a live owner.\<close>

definition probe_state :: "catalog \<Rightarrow> int \<Rightarrow> string \<Rightarrow> string" where
  "probe_state c pid st =
     (case cc_process_state c pid of
        ProcessUnknown \<Rightarrow> SyncRecoveryUnverifiable
      | ProcessAlive \<Rightarrow> if st \<noteq> SyncRecoveryUnverifiable then SyncRecoveryInProgress else st
      | ProcessDead \<Rightarrow> st)"

definition recovery_pids :: "sync_owner option \<Rightarrow> (string \<times> sync_owner) list \<Rightarrow> int list" where
  "recovery_pids ow cs = (case ow of None \<Rightarrow> [] | Some x \<Rightarrow> [so_pid x]) @ map (so_pid \<circ> snd) cs"

definition recovery_state :: "catalog \<Rightarrow> sync_owner option \<Rightarrow> (string \<times> sync_owner) list \<Rightarrow> string" where
  "recovery_state c ow cs = fold (probe_state c) (recovery_pids ow cs) SyncRecoveryOrphaned"

definition staging_path :: "catalog \<Rightarrow> string \<Rightarrow> string" where
  "staging_path c i = cc_root c @ ''/staging/'' @ i"

definition inspect_sync_recovery :: "catalog \<Rightarrow> 'a cstate_scheme \<Rightarrow> sync_recovery res \<times> 'a cstate_scheme" where
  "inspect_sync_recovery c w =
     (case ctx_err w of
        (Some e, w1) \<Rightarrow> (Inl e, w1)
      | (None, w1) \<Rightarrow>
     (case discover_candidates (sort (map fst (cs_candidates w1))) w1 of
        (Inl e, w2) \<Rightarrow> (Inl e, w2)
      | (Inr cs, w2) \<Rightarrow>
     (case read_sync_owner cs_lock w2 of
        (Inl e, w3) \<Rightarrow>
          if errors_is e ErrNotExist then
            (if cs = [] then (Inr \<lparr>rc_state = SyncRecoveryNone, rc_owner = None, rc_staging = [], rc_candidates = []\<rparr>, w3)
             else (Inr \<lparr>rc_state = recovery_state c None cs, rc_owner = None, rc_staging = [], rc_candidates = cs\<rparr>, w3))
          else (Inl (wrap_with ''inspect skill catalog sync recovery'' e), w3)
      | (Inr ow, w3) \<Rightarrow>
          (Inr \<lparr>rc_state = recovery_state c (Some ow) cs, rc_owner = Some ow,
            rc_staging = staging_path c (so_owner_id ow), rc_candidates = cs\<rparr>, w3))))"

definition probe_dead :: "catalog \<Rightarrow> int \<Rightarrow> err option" where
  "probe_dead c pid =
     (case cc_process_state c pid of
        ProcessAlive \<Rightarrow> Some ErrSyncStillRunning_err
      | ProcessUnknown \<Rightarrow> Some ErrSyncLivenessUnverifiable_err
      | ProcessDead \<Rightarrow> None)"

text \<open>The owner recorded in the staging directory must be the lock's.\<close>

definition check_staging_owner :: "sync_owner \<Rightarrow> 'a cstate_scheme \<Rightarrow> err option \<times> 'a cstate_scheme" where
  "check_staging_owner ow w =
     (case read_sync_owner (\<lambda>v. Option.bind (map_of (cs_staging v) (so_owner_id ow)) sd_owner) w of
        (Inl e, w1) \<Rightarrow>
          if \<not> errors_is e ErrNotExist
          then (Some (wrap_with ''verify orphaned skill catalog staging owner'' e), w1)
          else
         (case try_io w1 of
            (Some e', w2) \<Rightarrow>
              (if \<not> errors_is e' ErrNotExist then Some (wrap_with ''inspect orphaned skill catalog staging'' e') else None, w2)
          | (None, w2) \<Rightarrow> (None, w2))
      | (Inr so, w1) \<Rightarrow>
          (if so \<noteq> ow then Some (new_err ''orphaned skill catalog staging ownership does not match the installation lock'')
           else None, w1))"

fun remove_candidates :: "string list \<Rightarrow> 'a cstate_scheme \<Rightarrow> err option \<times> 'a cstate_scheme" where
  "remove_candidates [] w = (None, w)"
| "remove_candidates (n # ns) w =
     (case attempt (\<lambda>v. v\<lparr>cs_candidates := map_del n (cs_candidates v)\<rparr>) w of
        (Some e, w1) \<Rightarrow>
          if \<not> errors_is e ErrNotExist
          then (Some (wrap_with ''remove orphaned skill catalog lock candidate'' e), w1)
          else remove_candidates ns w1
      | (None, w1) \<Rightarrow> remove_candidates ns w1)"

definition clear_orphaned ::
  "sync_owner option \<Rightarrow> string list \<Rightarrow> 'a cstate_scheme \<Rightarrow> err option \<times> 'a cstate_scheme" where
  "clear_orphaned ow ns w =
     (case (case ow of None \<Rightarrow> (None, w)
            | Some x \<Rightarrow> attempt (\<lambda>v. v\<lparr>cs_staging := map_del (so_owner_id x) (cs_staging v)\<rparr>) w) of
        (Some e, w1) \<Rightarrow> (Some (wrap_with ''remove orphaned skill catalog staging'' e), w1)
      | (None, w1) \<Rightarrow>
     (case remove_candidates ns w1 of
        (Some e, w2) \<Rightarrow> (Some e, w2)
      | (None, w2) \<Rightarrow>
     (case ow of
        Some x \<Rightarrow>
          (case release_sync_lock x w2 of
             (Some e, w3) \<Rightarrow> (Some (wrap_with ''clear orphaned skill catalog sync lock'' e), w3)
           | (None, w3) \<Rightarrow> (None, w3))
      | None \<Rightarrow>
          if ns = [] then (None, w2)
          else
         (case sync_directory w2 of
            (Some e, w3) \<Rightarrow> (Some (wrap_with ''persist orphaned skill catalog candidate cleanup'' e), w3)
          | (None, w3) \<Rightarrow> (None, w3)))))"

definition recover_orphaned_sync :: "catalog \<Rightarrow> 'a cstate_scheme \<Rightarrow> err option \<times> 'a cstate_scheme" where
  "recover_orphaned_sync c w =
     (case inspect_sync_recovery c w of
        (Inl e, w1) \<Rightarrow> (Some e, w1)
      | (Inr r, w1) \<Rightarrow>
          if rc_state r = SyncRecoveryNone then (None, w1)
          else
         (case List.map_filter (probe_dead c) (recovery_pids (rc_owner r) (rc_candidates r)) of
            e # _ \<Rightarrow> (Some e, w1)
          | [] \<Rightarrow>
             (case (case rc_owner r of None \<Rightarrow> (None, w1) | Some ow \<Rightarrow> check_staging_owner ow w1) of
                (Some e, w2) \<Rightarrow> (Some e, w2)
              | (None, w2) \<Rightarrow> clear_orphaned (rc_owner r) (map fst (rc_candidates r)) w2)))"

section \<open>What is written is read back\<close>

lemma store_names [simp]:
  "fold_case ''pid'' = ''pid''" "fold_case ''started_at'' = ''started_at''" "fold_case ''owner_id'' = ''owner_id''"
  "fold_case ''schema_version'' = ''schema_version''" "fold_case ''identity'' = ''identity''"
  "fold_case ''diagnostic'' = ''diagnostic''" "fold_case ''aliases'' = ''aliases''" "fold_case ''entries'' = ''entries''"
  "fold_case ''description'' = ''description''" "fold_case ''license'' = ''license''"
  "fold_case ''source_url'' = ''source_url''" "fold_case ''source_revision'' = ''source_revision''"
  "fold_case ''instructions_path'' = ''instructions_path''" "fold_case ''instructions'' = ''instructions''"
  "fold_case ''assets'' = ''assets''" "fold_case ''arguments_schema'' = ''arguments_schema''"
  "fold_case ''compatible_runtimes'' = ''compatible_runtimes''"
  by (rule fold_case_lower, code_simp)+

lemma dec_enc_owner:
  assumes "0 < so_pid ow" "so_pid ow < 2 ^ 63" "so_schema_version ow = SyncLockSchemaVersion"
  shows "dec_owner (enc_owner ow) = Some ow"
  using assms by (simp add: dec_owner_def enc_owner_def equal_fold_def SyncLockSchemaVersion_def)

lemma dec_enc_asset [simp]: "elem zero_asset dec_asset (enc_asset a) = Some a"
  by (simp add: elem_def dec_asset_def enc_asset_def zero_asset_def equal_fold_def)

lemma dec_enc_summary [simp]: "elem zero_summary dec_summary (enc_summary s) = Some s"
  by (simp add: elem_def dec_summary_def enc_summary_def zero_summary_def equal_fold_def)

text \<open>An arguments schema comes back as decoding into \<open>any\<close> leaves it.\<close>

definition reread_schema :: "(string \<times> goval) list \<Rightarrow> (string \<times> goval) list" where
  "reread_schema m = map_build (map (map_prod id (any_of_json False \<circ> json_of_any)) m)"

lemma dec_enc_package:
  assumes "- (2 ^ 63) \<le> pk_schema_version p" "pk_schema_version p < 2 ^ 63"
  shows "dec_package (enc_package p) = Some (p\<lparr>pk_arguments_schema := reread_schema (pk_arguments_schema p)\<rparr>)"
proof -
  have build: "fold (\<lambda>kv. map_put (fst kv) (any_of_json False (snd kv))) (map (map_prod id json_of_any) m) [] = reread_schema m" for m
    unfolding map_build_def reread_schema_def fold_map by (simp add: comp_def case_prod_beta map_prod_def)
  have args: "dec_args False None (field_values ''arguments_schema'' (opt_args ''arguments_schema'' (Some m)))
      = Some (if m = [] then None else Some (reread_schema m))" for m
    by (simp add: opt_args_def build)
  have "reread_schema [] = []" by (simp add: reread_schema_def map_build_def)
  moreover have "dec_slice (elem zero_asset dec_asset) [] (field_values ''assets'' (opt_arr ''assets'' (map enc_asset as))) = Some as" for as
    by (rule dec_opt_arr) (simp_all add: dec_all_map)
  ultimately show ?thesis
    using assms by (cases p) (simp add: dec_package_def enc_package_def equal_fold_def args)
qed

lemma dec_str_entries_map:
  "sorted_wrt (<) (map fst (m @ kvs)) \<Longrightarrow> dec_str_entries m (map (map_prod id JStr) kvs) = Some (m @ kvs)"
proof (induction kvs arbitrary: m)
  case (Cons kv kvs)
  obtain k v where kv: "kv = (k, v)" by (cases kv)
  from Cons.prems kv have "sorted_wrt (<) (map fst m @ [k])" by (auto simp: sorted_wrt_append)
  then have "map_put k v m = m @ [(k, v)]" by (rule map_put_last)
  with Cons.IH [of "m @ [(k, v)]"] Cons.prems kv show ?case by simp
qed simp

lemma dec_enc_index:
  assumes "ci_schema_version ix = 1" "sorted_wrt (<) (map fst (ci_aliases ix))"
  shows "dec_index (enc_index ix) = Some ix"
proof -
  have "dec_all (elem zero_summary dec_summary) (map enc_summary es) = Some es" for es
    by (rule dec_all_map) simp
  with assms dec_str_entries_map [of "[]" "ci_aliases ix"] show ?thesis
    by (cases ix) (simp add: dec_index_def enc_index_def equal_fold_def)
qed

end
