(* ===== verification/Windows_Files.thy ===== *)
theory Windows_Files
  imports Skill_Store
begin

unbundle bit_operations_syntax

text \<open>
  The Windows side of \<open>adapters/skillfilesystem\<close>: \<open>process_windows.go\<close> and \<open>filesystem_windows.go\<close>. The system calls are
  parameters: \<open>OpenProcess\<close> gives an error number or a handle, \<open>WaitForSingleObject\<close> an error or a status, \<open>MoveFileExW\<close>
  whether it succeeded and the last error number. A path with a NUL byte has no UTF-16 form. The
  process id is cut to 32 bits.
\<close>

section \<open>Processes\<close>

definition errorInvalidParameter :: nat where "errorInvalidParameter = 87"
definition wait_object_0 :: nat where "wait_object_0 = 0"
definition wait_timeout :: nat where "wait_timeout = 258"

definition windows_process_state :: "(int \<Rightarrow> nat + 'h) \<Rightarrow> ('h \<Rightarrow> nat + nat) \<Rightarrow> int \<Rightarrow> process_state" where
  "windows_process_state open_process wait pid =
     (case open_process (pid mod 2 ^ 32) of
        Inl e \<Rightarrow> if e = errorInvalidParameter then ProcessDead else ProcessUnknown
      | Inr handle \<Rightarrow>
         (case wait handle of
            Inl e \<Rightarrow> ProcessUnknown
          | Inr status \<Rightarrow>
              if status = wait_object_0 then ProcessDead
              else if status = wait_timeout then ProcessAlive
              else ProcessUnknown))"

section \<open>Files\<close>

definition moveFileReplaceExisting :: nat where "moveFileReplaceExisting = 1"
definition moveFileWriteThrough :: nat where "moveFileWriteThrough = 8"
definition errorFileExists :: nat where "errorFileExists = 80"
definition errorAlreadyExists :: nat where "errorAlreadyExists = 183"

definition einval :: err where "einval = new_err ''invalid argument''"

definition utf16_pointer :: "string \<Rightarrow> string res" where
  "utf16_pointer s = (if char_of (0 :: nat) \<in> set s then Inl einval else Inr s)"

definition move_file_ex ::
  "(nat \<Rightarrow> err) \<Rightarrow> (string \<Rightarrow> string \<Rightarrow> nat \<Rightarrow> 'w \<Rightarrow> (bool \<times> nat) \<times> 'w) \<Rightarrow> string \<Rightarrow> string \<Rightarrow> nat \<Rightarrow> 'w \<Rightarrow> err option \<times> 'w"
where
  "move_file_ex errno_err call source target flags w =
     (case utf16_pointer source of
        Inl e \<Rightarrow> (Some e, w)
      | Inr s \<Rightarrow>
     (case utf16_pointer target of
        Inl e \<Rightarrow> (Some e, w)
      | Inr t \<Rightarrow>
     (case call s t flags w of
        ((ok, e), w1) \<Rightarrow>
          if ok then (None, w1)
          else if e = errorFileExists \<or> e = errorAlreadyExists then (Some (GoErr [ErrExist] ''file already exists''), w1)
          else if e = 0 then (Some einval, w1)
          else (Some (errno_err e), w1))))"

definition windows_publish_candidate ::
  "(nat \<Rightarrow> err) \<Rightarrow> (string \<Rightarrow> string \<Rightarrow> nat \<Rightarrow> 'w \<Rightarrow> (bool \<times> nat) \<times> 'w) \<Rightarrow> string \<Rightarrow> string \<Rightarrow> 'w \<Rightarrow> (bool \<times> err option) \<times> 'w"
where
  "windows_publish_candidate errno_err call candidate target w =
     (case move_file_ex errno_err call candidate target moveFileWriteThrough w of
        (Some e, w1) \<Rightarrow> ((False, Some e), w1)
      | (None, w1) \<Rightarrow> ((True, None), w1))"

definition windows_replace_file ::
  "(nat \<Rightarrow> err) \<Rightarrow> (string \<Rightarrow> string \<Rightarrow> nat \<Rightarrow> 'w \<Rightarrow> (bool \<times> nat) \<times> 'w) \<Rightarrow> string \<Rightarrow> string \<Rightarrow> 'w \<Rightarrow> err option \<times> 'w"
where
  "windows_replace_file errno_err call source target w =
     move_file_ex errno_err call source target (moveFileReplaceExisting OR moveFileWriteThrough) w"

definition windows_publish_directory ::
  "(nat \<Rightarrow> err) \<Rightarrow> (string \<Rightarrow> string \<Rightarrow> nat \<Rightarrow> 'w \<Rightarrow> (bool \<times> nat) \<times> 'w) \<Rightarrow> string \<Rightarrow> string \<Rightarrow> 'w \<Rightarrow> err option \<times> 'w"
where
  "windows_publish_directory errno_err call source target w =
     move_file_ex errno_err call source target moveFileWriteThrough w"

definition windows_sync_directory :: "'w \<Rightarrow> err option \<times> 'w" where
  "windows_sync_directory w = (None, w)"

section \<open>What rests on the flags\<close>

text \<open>
  What is documented of \<open>MoveFileExW\<close>: over a target that exists, a move without the flag for replacement fails, with
  one of two error numbers and no effect.
\<close>

definition refuses_existing ::
  "('w \<Rightarrow> string \<Rightarrow> bool) \<Rightarrow> (string \<Rightarrow> string \<Rightarrow> nat \<Rightarrow> 'w \<Rightarrow> (bool \<times> nat) \<times> 'w) \<Rightarrow> bool" where
  "refuses_existing exists call =
     (\<forall>s t flags w. exists w t \<longrightarrow> flags AND moveFileReplaceExisting = 0 \<longrightarrow>
        (\<exists>e \<in> {errorFileExists, errorAlreadyExists}. call s t flags w = ((False, e), w)))"

lemma write_through_only: "moveFileWriteThrough AND moveFileReplaceExisting = 0"
  by (simp add: moveFileWriteThrough_def moveFileReplaceExisting_def)

lemma replace_flag_set: "(moveFileReplaceExisting OR moveFileWriteThrough) AND moveFileReplaceExisting \<noteq> 0"
  by (simp add: moveFileWriteThrough_def moveFileReplaceExisting_def)

lemma existing_refused:
  assumes "refuses_existing exists call" "exists w target"
  obtains e where "move_file_ex errno_err call s target moveFileWriteThrough w = (Some e, w)"
    "utf16_pointer s = Inr c \<Longrightarrow> utf16_pointer target = Inr t \<Longrightarrow> errors_is e ErrExist"
proof (cases "utf16_pointer s")
  case (Inl e)
  with that [of e] show thesis by (simp add: move_file_ex_def)
next
  case s: (Inr s')
  show thesis
  proof (cases "utf16_pointer target")
    case (Inl e)
    with s that [of e] show thesis by (simp add: move_file_ex_def)
  next
    case (Inr t')
    then have "t' = target" by (simp add: utf16_pointer_def split: if_splits)
    with assms write_through_only obtain e where "e \<in> {errorFileExists, errorAlreadyExists}"
      "call s' t' moveFileWriteThrough w = ((False, e), w)"
      unfolding refuses_existing_def by blast
    with s Inr that [of "GoErr [ErrExist] ''file already exists''"] show thesis by (auto simp: move_file_ex_def)
  qed
qed

text \<open>
  The lock and the published objects are exclusive on Windows as on Unix: over an existing target the publication changes
  nothing, and the error is the one that the acquisition of the lock takes for a lock that is held.
\<close>

lemma windows_publication_exclusive:
  assumes "refuses_existing exists call" "exists w target"
  shows "windows_publish_candidate errno_err call candidate target w = ((published, er), w') \<Longrightarrow> \<not> published \<and> er \<noteq> None \<and> w' = w"
    "utf16_pointer candidate = Inr c \<Longrightarrow> utf16_pointer target = Inr t \<Longrightarrow>
      \<exists>e. windows_publish_candidate errno_err call candidate target w = ((False, Some e), w) \<and> errors_is e ErrExist"
    "windows_publish_directory errno_err call source target w = (er, w') \<Longrightarrow> er \<noteq> None \<and> w' = w"
proof -
  obtain e where e: "move_file_ex errno_err call candidate target moveFileWriteThrough w = (Some e, w)"
    "utf16_pointer candidate = Inr c \<Longrightarrow> utf16_pointer target = Inr t \<Longrightarrow> errors_is e ErrExist"
    using existing_refused [OF assms] by blast
  then show "windows_publish_candidate errno_err call candidate target w = ((published, er), w') \<Longrightarrow> \<not> published \<and> er \<noteq> None \<and> w' = w"
    "utf16_pointer candidate = Inr c \<Longrightarrow> utf16_pointer target = Inr t \<Longrightarrow>
      \<exists>e. windows_publish_candidate errno_err call candidate target w = ((False, Some e), w) \<and> errors_is e ErrExist"
    by (auto simp: windows_publish_candidate_def)
  show "windows_publish_directory errno_err call source target w = (er, w') \<Longrightarrow> er \<noteq> None \<and> w' = w"
    by (rule existing_refused [OF assms, of errno_err source]) (auto simp: windows_publish_directory_def)
qed

end
