(* ===== verification/Session_Close.thy ===== *)
theory Session_Close
  imports Session Managed_Mirror
begin

text \<open>
  \<open>SessionCloser.Close\<close> (\<open>core/session.go\<close>) as a whole, and the adapter that bridges it to the
  mirrors (\<open>adapters/storageadapter/core_adapter.go\<close>). The bus, when there is one, stands over the
  saga journal, the only journal of the repository. The ports are records of functions on the
  state. \<^term>\<open>None\<close> as the result of a close is that the code panics (on a hash that is too short)
  or does not return. The flag \<open>allocated\<close> beside a diary says that its code references are not a
  nil slice, which the rendering of an empty slice shows.
\<close>

section \<open>Ports\<close>

record preflight_check =
  pc_name :: string
  pc_status :: string
  pc_detail :: string
  pc_action :: string

record preflight_result =
  pr_enabled :: bool
  pr_ready :: bool
  pr_backend :: string
  pr_provider :: string
  pr_repository :: string
  pr_checks :: "preflight_check list"
  pr_cause :: "err option"

definition zero_preflight :: preflight_result where
  "zero_preflight = \<lparr>pr_enabled = False, pr_ready = False, pr_backend = [], pr_provider = [], pr_repository = [],
     pr_checks = [], pr_cause = None\<rparr>"

record 'w memory_port =
  mp_find :: "string \<Rightarrow> 'w \<Rightarrow> (session_diary \<times> bool \<times> err option) \<times> 'w"
  mp_save :: "bool \<Rightarrow> session_diary \<Rightarrow> 'w \<Rightarrow> err option option \<times> 'w"

definition local_memory :: "json_reader \<Rightarrow> 'a mstate_scheme memory_port" where
  "local_memory rv = \<lparr>mp_find = find_diary rv, mp_save = save_diary\<rparr>"

text \<open>The optional interfaces of a storage port are optional fields.\<close>

record 'w storage_port =
  sp_mirror :: "bool \<Rightarrow> session_diary \<Rightarrow> 'w \<Rightarrow> storage_result \<times> 'w"
  sp_preflight :: "('w \<Rightarrow> preflight_result \<times> 'w) option"
  sp_mirror_event :: "(string \<Rightarrow> bool \<Rightarrow> session_diary \<Rightarrow> 'w \<Rightarrow> storage_result \<times> 'w) option"
  sp_recover_event :: "(string \<Rightarrow> bool \<Rightarrow> session_diary \<Rightarrow> 'w \<Rightarrow> storage_result \<times> 'w) option"
  sp_resolve :: "(bool \<Rightarrow> session_diary \<Rightarrow> string \<Rightarrow> string \<Rightarrow> 'w \<Rightarrow> storage_result \<times> 'w) option"

record 'w session_closer =
  cl_memory :: "'w memory_port option"
  cl_bus :: "'w bus option"
  cl_graph :: "'w graph_port option"
  cl_storage :: "'w storage_port option"

record close_request =
  cq_repository_id :: string
  cq_commit_sha :: string
  cq_author :: string
  cq_runtime :: string
  cq_repository_root :: string
  cq_artifact :: string
  cq_format :: string
  cq_manual_summary :: string
  cq_now :: int

section \<open>What Close computes before it writes\<close>

definition request_artifact :: "json_reader \<Rightarrow> close_request \<Rightarrow> session_artifact res" where
  "request_artifact rv q =
     (if cq_artifact q \<noteq> [] then parse_session_artifact rv (cq_artifact q) (cq_format q)
      else manual_session_artifact (cq_manual_summary q))"

definition request_allocated :: "json_reader \<Rightarrow> close_request \<Rightarrow> bool" where
  "request_allocated rv q = (cq_artifact q \<noteq> [] \<and> references_allocated rv (cq_artifact q) (cq_format q))"

definition artifact_hash :: "(string \<Rightarrow> string) \<Rightarrow> session_artifact \<Rightarrow> string" where
  "artifact_hash sha a = sha (json_text (enc_session_artifact a))"

definition close_key :: "(string \<Rightarrow> string) \<Rightarrow> close_request \<Rightarrow> session_artifact \<Rightarrow> string" where
  "close_key sha q a =
     sha (cq_repository_id q @ [newline] @ cq_commit_sha q @ [newline] @ artifact_hash sha a)"

fun reconcile_all ::
  "(string \<Rightarrow> string) \<Rightarrow> bool \<Rightarrow> invocation_record list \<Rightarrow> 'a jstate_scheme
     \<Rightarrow> invocation_record list res \<times> 'a jstate_scheme"
where
  "reconcile_all sha journaled [] w = (Inr [], w)"
| "reconcile_all sha journaled (r # rs) w =
     (case reconcile_record sha journaled r w of
        (Inl e, w1) \<Rightarrow> (Inl e, w1)
      | (Inr r', w1) \<Rightarrow>
         (case reconcile_all sha journaled rs w1 of
            (Inl e, w2) \<Rightarrow> (Inl e, w2)
          | (Inr rs', w2) \<Rightarrow> (Inr (r' # rs'), w2)))"

fun verify_all ::
  "(string \<Rightarrow> string) \<Rightarrow> file_view \<Rightarrow> string \<Rightarrow> invocation_record list \<Rightarrow> 'a env_scheme
     \<Rightarrow> invocation_record list res option \<times> 'a env_scheme"
where
  "verify_all sha fv root [] w = (Some (Inr []), w)"
| "verify_all sha fv root (r # rs) w =
     (case verify_artifacts sha fv root (ir_artifacts r) w of
        (None, w1) \<Rightarrow> (None, w1)
      | (Some (Inl e), w1) \<Rightarrow> (Some (Inl e), w1)
      | (Some (Inr as), w1) \<Rightarrow>
         (case verify_all sha fv root rs w1 of
            (None, w2) \<Rightarrow> (None, w2)
          | (Some (Inl e), w2) \<Rightarrow> (Some (Inl e), w2)
          | (Some (Inr rs'), w2) \<Rightarrow> (Some (Inr (r\<lparr>ir_artifacts := as\<rparr> # rs')), w2)))"

definition repository_root :: "close_request \<Rightarrow> string" where
  "repository_root q = (if trim_space (cq_repository_root q) = [] then dot else trim_space (cq_repository_root q))"

definition closed_diary ::
  "string \<Rightarrow> string \<Rightarrow> close_request \<Rightarrow> int \<Rightarrow> session_artifact \<Rightarrow> code_reference list \<Rightarrow> invocation_record list
     \<Rightarrow> string \<Rightarrow> string \<Rightarrow> session_diary"
where
  "closed_diary key hash q t a refs invs state snapshot =
     \<lparr>sd_session_id = take 24 key, sd_key = key, sd_repository_id = cq_repository_id q,
      sd_commit_sha = cq_commit_sha q, sd_artifact_hash = hash, sd_author = cq_author q,
      sd_runtime = cq_runtime q, sd_created_at = t, sd_title = sa_title a, sd_summary = sa_summary a,
      sd_decisions = sa_decisions a, sd_lessons = sa_lessons a, sd_code_references = refs,
      sd_related = sa_related a, sd_graph_snapshot_id = snapshot, sd_graph_state = state,
      sd_invocations = invs\<rparr>"

definition session_closed_event :: "session_diary \<Rightarrow> event" where
  "session_closed_event d =
     \<lparr>ev_id = sd_session_id d, ev_type = ''session.closed'', ev_occurred_at = sd_created_at d,
      ev_repository_id = sd_repository_id d, ev_saga_id = sd_session_id d,
      ev_correlation_id = sd_session_id d, ev_causation_id = [], ev_schema_version = 1,
      ev_payload = Some (enc_diary d)\<rparr>"

section \<open>Links to the invocations\<close>

definition link_event :: "session_diary \<Rightarrow> string \<Rightarrow> int \<Rightarrow> invocation_record \<Rightarrow> event" where
  "link_event d cause t i =
     \<lparr>ev_id = ir_invocation_id i @ '':linked:'' @ sd_session_id d, ev_type = SkillEventInvocationLinked,
      ev_occurred_at = t, ev_repository_id = sd_repository_id d, ev_saga_id = ir_invocation_id i,
      ev_correlation_id = sd_session_id d, ev_causation_id = cause,
      ev_schema_version = SkillEventSchemaVersion,
      ev_payload = Some (linked_payload (ir_invocation_id i) (sd_session_id d))\<rparr>"

fun emit_links ::
  "(string \<Rightarrow> string) \<Rightarrow> session_diary \<Rightarrow> string \<Rightarrow> int \<Rightarrow> invocation_record list \<Rightarrow> 'a jstate_scheme
     \<Rightarrow> err option \<times> 'a jstate_scheme"
where
  "emit_links sha d cause t [] w = (None, w)"
| "emit_links sha d cause t (i # is) w =
     (if ir_invocation_id i = [] then emit_links sha d cause t is w
      else (case append_event sha (link_event d cause t i) w of
              (Some e, w1) \<Rightarrow> (Some e, w1)
            | (None, w1) \<Rightarrow> emit_links sha d cause t is w1))"

section \<open>Mirroring\<close>

definition storage_id :: "session_diary \<Rightarrow> string" where
  "storage_id d = sd_session_id d @ '':storage''"

definition mirror_event ::
  "session_diary \<Rightarrow> string \<Rightarrow> string \<Rightarrow> int \<Rightarrow> string \<Rightarrow> storage_result \<Rightarrow> event" where
  "mirror_event d i ty t cause r =
     \<lparr>ev_id = i, ev_type = ty, ev_occurred_at = t, ev_repository_id = sd_repository_id d,
      ev_saga_id = sd_session_id d, ev_correlation_id = sd_session_id d, ev_causation_id = cause,
      ev_schema_version = 1, ev_payload = Some (enc_result r)\<rparr>"

definition intent_event :: "session_diary \<Rightarrow> storage_result \<Rightarrow> int \<Rightarrow> event" where
  "intent_event d intent t = mirror_event d (storage_id d) ''storage.sync.requested'' t (sd_session_id d) intent"

definition outcome_of :: "session_diary \<Rightarrow> storage_result \<Rightarrow> int \<Rightarrow> event" where
  "outcome_of d r t =
     mirror_event d (storage_id d @ '':outcome'') (storage_event_type (sr_state r)) t (storage_id d) r"

definition mirror_attempt :: "session_diary \<Rightarrow> storage_result \<Rightarrow> int \<Rightarrow> handler_attempt" where
  "mirror_attempt d r t =
     \<lparr>ha_event_id = storage_id d, ha_saga_id = sd_session_id d, ha_handler_id = ''storage-mirror'',
      ha_attempted_at = t,
      ha_outcome = (if sr_already_in_progress r then ''skipped''
                    else if sr_state r \<noteq> Mirrored then ''failed'' else ''succeeded''),
      ha_error = (if sr_state r \<noteq> Mirrored then sr_error r else [])\<rparr>"

text \<open>The preflight check: the intent to journal, and the result where the check already failed.\<close>

definition storage_intent ::
  "'w storage_port \<Rightarrow> session_diary \<Rightarrow> 'w \<Rightarrow> (storage_result \<times> storage_result option) \<times> 'w" where
  "storage_intent p d w =
     (let intent = zero_result\<lparr>sr_event_id := storage_id d, sr_state := SyncPending, sr_key := sd_key d,
                               sr_failure_class := FailureTransient\<rparr> in
      case sp_preflight p of
        None \<Rightarrow> ((intent, None), w)
      | Some check \<Rightarrow>
         (case check w of (c, w1) \<Rightarrow>
            (let cause = (case pr_cause c of Some e \<Rightarrow> e
                          | None \<Rightarrow> new_err ''storage prerequisites are missing'') in
             ((intent\<lparr>sr_backend := pr_backend c, sr_provider := pr_provider c\<rparr>,
               if pr_ready c then None
               else Some (zero_result\<lparr>sr_event_id := storage_id d, sr_state := PrerequisiteMissing,
                 sr_backend := pr_backend c, sr_provider := pr_provider c,
                 sr_failure_class := FailurePrerequisite, sr_error := err_text cause,
                 sr_cause := Some cause\<rparr>)), w1))))"

definition mirror_diary ::
  "'w storage_port \<Rightarrow> bool \<Rightarrow> session_diary \<Rightarrow> 'w \<Rightarrow> storage_result \<times> 'w" where
  "mirror_diary p al d w =
     (case sp_mirror_event p of
        Some mirror \<Rightarrow> mirror (storage_id d) al d w
      | None \<Rightarrow> (case sp_mirror p al d w of (r, w1) \<Rightarrow> (r\<lparr>sr_event_id := storage_id d\<rparr>, w1)))"

definition record_outcome ::
  "(string \<Rightarrow> string) \<Rightarrow> (string \<Rightarrow> string option) \<Rightarrow> session_diary \<Rightarrow> storage_result \<Rightarrow> 'a jstate_scheme
     \<Rightarrow> (handler_attempt option \<times> err option) \<times> 'a jstate_scheme"
where
  "record_outcome sha strip d r w =
     (case time_now w of (t, w1) \<Rightarrow>
     (let a = mirror_attempt d r t in
      case append_attempt sha strip a w1 of
        (Some e, w2) \<Rightarrow> ((None, Some e), w2)
      | (None, w2) \<Rightarrow>
          if sr_already_in_progress r then ((Some a, None), w2)
          else
         (case time_now w2 of (t2, w3) \<Rightarrow>
         (case append_event sha (outcome_of d r t2) w3 of
            (e, w4) \<Rightarrow> ((Some a, e), w4)))))"

text \<open>The last part of Close: the durable intent, the remote effect, its outcome.\<close>

definition mirror_closed ::
  "(string \<Rightarrow> string) \<Rightarrow> (string \<Rightarrow> string option) \<Rightarrow> 'a jstate_scheme storage_port \<Rightarrow> bool \<Rightarrow> session_diary
     \<Rightarrow> 'a jstate_scheme \<Rightarrow> (handler_attempt option \<times> err option) \<times> 'a jstate_scheme"
where
  "mirror_closed sha strip p al d w =
     (case storage_intent p d w of ((intent, failed), w1) \<Rightarrow>
     (case time_now w1 of (t, w2) \<Rightarrow>
     (case append_event sha (intent_event d intent t) w2 of
        (Some e, w3) \<Rightarrow> ((None, Some e), w3)
      | (None, w3) \<Rightarrow>
         (case (case failed of Some r \<Rightarrow> (r, w3) | None \<Rightarrow> mirror_diary p al d w3) of
            (r, w4) \<Rightarrow> record_outcome sha strip d (result_for_journal strip r) w4))))"

section \<open>Close\<close>

text \<open>After the local diary: the event, the links, the mirror.\<close>

definition publish_closed ::
  "(string \<Rightarrow> string) \<Rightarrow> (string \<Rightarrow> string option) \<Rightarrow> 'a jstate_scheme bus \<Rightarrow> 'a jstate_scheme storage_port option
     \<Rightarrow> bool \<Rightarrow> session_diary \<Rightarrow> 'a jstate_scheme \<Rightarrow> (delivery \<times> err option) \<times> 'a jstate_scheme"
where
  "publish_closed sha strip bus storage al d w =
     (case publish sha strip bus (session_closed_event d) w of
        ((dl, Some e), w1) \<Rightarrow> ((dl, Some e), w1)
      | ((dl, None), w1) \<Rightarrow>
     (case emit_links sha d (sd_session_id d) (sd_created_at d) (sd_invocations d) w1 of
        (Some e, w2) \<Rightarrow> ((dl, Some e), w2)
      | (None, w2) \<Rightarrow>
     (case storage of
        None \<Rightarrow> ((dl, None), w2)
      | Some p \<Rightarrow>
         (case mirror_closed sha strip p al d w2 of
            ((a, e), w3) \<Rightarrow>
              ((dl\<lparr>de_attempts := de_attempts dl @ (case a of None \<Rightarrow> [] | Some x \<Rightarrow> [x])\<rparr>, e), w3)))))"

definition save_and_publish ::
  "(string \<Rightarrow> string) \<Rightarrow> (string \<Rightarrow> string option) \<Rightarrow> 'a mstate_scheme session_closer \<Rightarrow> 'a mstate_scheme memory_port
     \<Rightarrow> bool \<Rightarrow> session_diary \<Rightarrow> 'a mstate_scheme
     \<Rightarrow> (session_diary \<times> delivery \<times> err option) option \<times> 'a mstate_scheme"
where
  "save_and_publish sha strip c m al d w =
     (case mp_save m al d w of
        (None, w1) \<Rightarrow> (None, w1)
      | (Some (Some e), w1) \<Rightarrow> (Some (zero_diary, no_delivery, Some e), w1)
      | (Some None, w1) \<Rightarrow>
         (case cl_bus c of
            None \<Rightarrow> (Some (d, no_delivery\<lparr>de_event_id := sd_session_id d\<rparr>, None), w1)
          | Some bus \<Rightarrow>
             (case publish_closed sha strip bus (cl_storage c) al d w1 of
                ((dl, e), w2) \<Rightarrow> (Some (d, dl, e), w2))))"

text \<open>The diary of a new session, with the flag of its references: reconciliation, artifacts, references.\<close>

definition build_diary ::
  "(string \<Rightarrow> string) \<Rightarrow> file_view \<Rightarrow> bool \<Rightarrow> 'a mstate_scheme graph_port option \<Rightarrow> bool \<Rightarrow> close_request
     \<Rightarrow> session_artifact \<Rightarrow> 'a mstate_scheme \<Rightarrow> (bool \<times> session_diary) res option \<times> 'a mstate_scheme"
where
  "build_diary sha fv journaled graph al q a w =
     (case reconcile_all sha journaled (sa_invocations a) w of
        (Inl e, w1) \<Rightarrow> (Some (Inl e), w1)
      | (Inr invs, w1) \<Rightarrow>
     (case verify_all sha fv (repository_root q) invs w1 of
        (None, w2) \<Rightarrow> (None, w2)
      | (Some (Inl e), w2) \<Rightarrow> (Some (Inl e), w2)
      | (Some (Inr invs'), w2) \<Rightarrow>
     (case (if is_zero_time (cq_now q) then time_now w2 else (cq_now q, w2)) of
        (t, w3) \<Rightarrow>
     (case resolve_code_references graph (cq_repository_id q) (cq_commit_sha q) (sa_code_references a) invs' w3 of
        ((refs, invs'', state, snapshot), w4) \<Rightarrow>
          (Some (Inr (al \<or> graph \<noteq> None \<and> state = GraphResolutionPending,
             closed_diary (close_key sha q a) (artifact_hash sha a) q t a refs invs'' state snapshot)), w4)))))"

definition close_new ::
  "(string \<Rightarrow> string) \<Rightarrow> (string \<Rightarrow> string option) \<Rightarrow> file_view \<Rightarrow> 'a mstate_scheme session_closer
     \<Rightarrow> 'a mstate_scheme memory_port \<Rightarrow> bool \<Rightarrow> close_request \<Rightarrow> session_artifact \<Rightarrow> 'a mstate_scheme
     \<Rightarrow> (session_diary \<times> delivery \<times> err option) option \<times> 'a mstate_scheme"
where
  "close_new sha strip fv c m al q a w =
     (case build_diary sha fv (cl_bus c \<noteq> None) (cl_graph c) al q a w of
        (None, w1) \<Rightarrow> (None, w1)
      | (Some (Inl e), w1) \<Rightarrow> (Some (zero_diary, no_delivery, Some e), w1)
      | (Some (Inr (al', d)), w1) \<Rightarrow> save_and_publish sha strip c m al' d w1)"

definition close_session ::
  "json_reader \<Rightarrow> (string \<Rightarrow> string) \<Rightarrow> (string \<Rightarrow> string option) \<Rightarrow> file_view \<Rightarrow> 'a mstate_scheme session_closer
     \<Rightarrow> close_request \<Rightarrow> 'a mstate_scheme
     \<Rightarrow> (session_diary \<times> delivery \<times> err option) option \<times> 'a mstate_scheme"
where
  "close_session rv sha strip fv c q w =
     (case cl_memory c of
        None \<Rightarrow> (Some (zero_diary, no_delivery, Some (new_err ''memory port is required'')), w)
      | Some m \<Rightarrow>
     (if cq_repository_id q = [] \<or> cq_commit_sha q = []
      then (Some (zero_diary, no_delivery, Some (new_err ''repository id and commit SHA are required'')), w)
      else
     (case request_artifact rv q of
        Inl e \<Rightarrow> (Some (zero_diary, no_delivery, Some e), w)
      | Inr a \<Rightarrow>
     (case mp_find m (close_key sha q a) w of
        ((d, found, Some e), w1) \<Rightarrow> (Some (zero_diary, no_delivery, Some e), w1)
      | ((d, found, None), w1) \<Rightarrow>
          if found then (Some (d, no_delivery\<lparr>de_event_id := sd_session_id d\<rparr>, None), w1)
          else close_new sha strip fv c m (request_allocated rv q) q a w1))))"

section \<open>The adapter of the mirrors\<close>

definition adapter_document :: "bool \<Rightarrow> session_diary \<Rightarrow> remote_diary" where
  "adapter_document al d =
     \<lparr>rd_session_id = sd_session_id d, rd_repository_id = sd_repository_id d, rd_commit_sha = sd_commit_sha d,
      rd_artifact_hash = sd_artifact_hash d, rd_content = render_diary al d\<rparr>"

record 'w storage_adapter =
  ad_provider :: "'w provider option"
  ad_backend :: string
  ad_provider_id :: string
  ad_check :: "('w \<Rightarrow> preflight_result \<times> 'w) option"

definition adapter_preflight :: "'w storage_adapter \<Rightarrow> 'w \<Rightarrow> preflight_result \<times> 'w" where
  "adapter_preflight a w =
     (case ad_check a of
        Some check \<Rightarrow> check w
      | None \<Rightarrow>
          (if ad_provider a \<noteq> None then zero_preflight\<lparr>pr_enabled := True, pr_ready := True\<rparr>
           else zero_preflight\<lparr>pr_enabled := True,
             pr_cause := Some (GoErr [ErrPrerequisiteMissing] ''storage prerequisite missing'')\<rparr>, w))"

definition adapter_unavailable :: "'w storage_adapter \<Rightarrow> storage_result" where
  "adapter_unavailable a = zero_result\<lparr>sr_state := SyncPending, sr_backend := ad_backend a,
     sr_provider := ad_provider_id a, sr_cause := Some (GoErr [ErrUnavailable] ''storage mirror unavailable'')\<rparr>"

definition adapter_mirror_event ::
  "'w storage_adapter \<Rightarrow> string \<Rightarrow> bool \<Rightarrow> session_diary \<Rightarrow> 'w \<Rightarrow> storage_result \<times> 'w" where
  "adapter_mirror_event a i al d w =
     (case ad_provider a of
        None \<Rightarrow> ((adapter_unavailable a)\<lparr>sr_event_id := i\<rparr>, w)
      | Some p \<Rightarrow> (case pv_mirror p (adapter_document al d) w of (r, w1) \<Rightarrow> (r\<lparr>sr_event_id := i\<rparr>, w1)))"

definition adapter_resolve ::
  "'w storage_adapter \<Rightarrow> bool \<Rightarrow> session_diary \<Rightarrow> string \<Rightarrow> string \<Rightarrow> 'w \<Rightarrow> storage_result \<times> 'w" where
  "adapter_resolve a al d choice revision w =
     (case ad_provider a of
        None \<Rightarrow> (adapter_unavailable a, w)
      | Some p \<Rightarrow> pv_resolve p (adapter_document al d) choice revision w)"

definition adapter_recover_event ::
  "'w storage_adapter \<Rightarrow> string \<Rightarrow> bool \<Rightarrow> session_diary \<Rightarrow> 'w \<Rightarrow> storage_result \<times> 'w" where
  "adapter_recover_event a i al d w =
     (case (case ad_provider a of None \<Rightarrow> None | Some p \<Rightarrow> pv_recover p) of
        None \<Rightarrow> ((adapter_unavailable a)\<lparr>sr_event_id := i, sr_key := sd_key d, sr_failure_class := FailureTransient,
                  sr_cause := Some (new_err ''configured storage provider does not support explicit recovery'')\<rparr>, w)
      | Some recover \<Rightarrow> (case recover (adapter_document al d) w of (r, w1) \<Rightarrow> (r\<lparr>sr_event_id := i\<rparr>, w1)))"

definition adapter_port :: "'w storage_adapter \<Rightarrow> 'w storage_port" where
  "adapter_port a =
     \<lparr>sp_mirror = (\<lambda>al d. adapter_mirror_event a (sd_session_id d) al d), sp_preflight = Some (adapter_preflight a),
      sp_mirror_event = Some (adapter_mirror_event a), sp_recover_event = Some (adapter_recover_event a),
      sp_resolve = Some (adapter_resolve a)\<rparr>"

section \<open>The remote effect comes after the intent\<close>

text \<open>The mirror ran in a state where the intent had just been appended to the journal, and its outcome was recorded.\<close>

definition mirrored_after_intent ::
  "(string \<Rightarrow> string) \<Rightarrow> (string \<Rightarrow> string option) \<Rightarrow> 'a jstate_scheme storage_port \<Rightarrow> 'a jstate_scheme \<Rightarrow> bool" where
  "mirrored_after_intent sha strip p w' =
     (\<exists>al d intent t w2 w3 r w4. append_event sha (intent_event d intent t) w2 = (None, w3)
        \<and> mirror_diary p al d w3 = (r, w4) \<and> w' = snd (record_outcome sha strip d (result_for_journal strip r) w4))"

lemma storage_intent_preflight: "sp_preflight p' = sp_preflight p \<Longrightarrow> storage_intent p' d w = storage_intent p d w"
  by (simp add: storage_intent_def)

lemma mirror_closed_gate:
  assumes "mirror_closed sha strip p al d w = (res, w')" "sp_preflight p' = sp_preflight p"
  shows "mirror_closed sha strip p' al d w = (res, w') \<or> mirrored_after_intent sha strip p w'"
proof -
  obtain intent failed w1 where 1: "storage_intent p d w = ((intent, failed), w1)"
    by (cases "storage_intent p d w") auto
  obtain t w2 where 2: "time_now w1 = (t, w2)" by (cases "time_now w1")
  obtain e w3 where 3: "append_event sha (intent_event d intent t) w2 = (e, w3)"
    by (cases "append_event sha (intent_event d intent t) w2")
  obtain r w4 where 4: "mirror_diary p al d w3 = (r, w4)" by (cases "mirror_diary p al d w3")
  note steps = 1 2 3 4 storage_intent_preflight [OF assms(2), of d w]
  show ?thesis
  proof (cases "e = None \<and> failed = None")
    case True
    with assms(1) steps have "w' = snd (record_outcome sha strip d (result_for_journal strip r) w4)"
      by (simp add: mirror_closed_def)
    with True 3 4 show ?thesis unfolding mirrored_after_intent_def by blast
  next
    case False
    with assms(1) steps show ?thesis by (cases e; cases failed) (simp_all add: mirror_closed_def)
  qed
qed

lemma publish_closed_gate:
  assumes "publish_closed sha strip bus (Some p) al d w = (res, w')" "sp_preflight p' = sp_preflight p"
  shows "publish_closed sha strip bus (Some p') al d w = (res, w') \<or> mirrored_after_intent sha strip p w'"
proof -
  obtain dl e w1 where 1: "publish sha strip bus (session_closed_event d) w = ((dl, e), w1)"
    by (cases "publish sha strip bus (session_closed_event d) w") auto
  obtain e2 w2 where 2: "emit_links sha d (sd_session_id d) (sd_created_at d) (sd_invocations d) w1 = (e2, w2)"
    by (cases "emit_links sha d (sd_session_id d) (sd_created_at d) (sd_invocations d) w1")
  obtain a e3 w3 where 3: "mirror_closed sha strip p al d w2 = ((a, e3), w3)"
    by (cases "mirror_closed sha strip p al d w2") auto
  show ?thesis
  proof (cases "e = None \<and> e2 = None")
    case True
    with assms(1) 1 2 3 have "w' = w3" by (simp add: publish_closed_def)
    with mirror_closed_gate [OF 3 assms(2)] True assms(1) 1 2 3 show ?thesis
      by (auto simp: publish_closed_def)
  next
    case False
    with assms(1) 1 2 show ?thesis by (cases e; cases e2) (auto simp: publish_closed_def)
  qed
qed

lemma save_gate:
  assumes "save_and_publish sha strip c m al d w = (res, w')" "cl_storage c = Some p" "sp_preflight p' = sp_preflight p"
  shows "save_and_publish sha strip (c\<lparr>cl_storage := Some p'\<rparr>) m al d w = (res, w') \<or> mirrored_after_intent sha strip p w'"
proof -
  obtain s w1 where 1: "mp_save m al d w = (s, w1)" by (cases "mp_save m al d w")
  show ?thesis
  proof (cases "s = Some None \<and> cl_bus c \<noteq> None")
    case True
    then obtain bus where b: "cl_bus c = Some bus" by auto
    obtain dl e w2 where 2: "publish_closed sha strip bus (Some p) al d w1 = ((dl, e), w2)"
      by (cases "publish_closed sha strip bus (Some p) al d w1") auto
    from publish_closed_gate [OF 2 assms(3)] True b 1 2 assms(1,2) show ?thesis
      by (auto simp: save_and_publish_def)
  next
    case False
    with assms(1,2) 1 show ?thesis
      by (auto simp: save_and_publish_def split: option.splits)
  qed
qed

lemma close_new_gate:
  assumes "close_new sha strip fv c m al q a w = (res, w')" "cl_storage c = Some p" "sp_preflight p' = sp_preflight p"
  shows "close_new sha strip fv (c\<lparr>cl_storage := Some p'\<rparr>) m al q a w = (res, w') \<or> mirrored_after_intent sha strip p w'"
proof -
  obtain b w1 where 1: "build_diary sha fv (cl_bus c \<noteq> None) (cl_graph c) al q a w = (b, w1)"
    by (cases "build_diary sha fv (cl_bus c \<noteq> None) (cl_graph c) al q a w")
  show ?thesis
  proof (cases "\<exists>x d. b = Some (Inr (x, d))")
    case True
    then obtain x d where b: "b = Some (Inr (x, d))" by blast
    with assms(1) 1 have "save_and_publish sha strip c m x d w1 = (res, w')" by (simp add: close_new_def)
    from save_gate [OF this assms(2,3)] b 1 show ?thesis by (simp add: close_new_def)
  next
    case False
    with assms(1) 1 show ?thesis by (auto simp: close_new_def split: option.splits sum.splits)
  qed
qed

text \<open>C2: whatever fails, a close either never consults the mirror (any other port with the same
  preflight check gives the same result and the same state), or it ran the mirror in a state where the intent
  event had just been appended to the journal, and went on to record the outcome.\<close>

theorem remote_effect_needs_intent:
  assumes "close_session rv sha strip fv c q w = (res, w')" "cl_storage c = Some p" "sp_preflight p' = sp_preflight p"
  shows "close_session rv sha strip fv (c\<lparr>cl_storage := Some p'\<rparr>) q w = (res, w') \<or> mirrored_after_intent sha strip p w'"
proof (cases "\<exists>m a d w1. cl_memory c = Some m \<and> cq_repository_id q \<noteq> [] \<and> cq_commit_sha q \<noteq> []
    \<and> request_artifact rv q = Inr a \<and> mp_find m (close_key sha q a) w = ((d, False, None), w1)")
  case True
  then obtain m a d w1 where s: "cl_memory c = Some m" "cq_repository_id q \<noteq> []" "cq_commit_sha q \<noteq> []"
    "request_artifact rv q = Inr a" "mp_find m (close_key sha q a) w = ((d, False, None), w1)" by blast
  with assms(1) have "close_new sha strip fv c m (request_allocated rv q) q a w1 = (res, w')"
    by (simp add: close_session_def)
  from close_new_gate [OF this assms(2,3)] s show ?thesis by (simp add: close_session_def)
next
  case False
  with assms(1) show ?thesis
    by (auto simp: close_session_def split: option.splits sum.splits prod.splits if_splits)
qed

section \<open>The evidence of a close\<close>

text \<open>The functions of the storage port leave the segment of the saga to the closer.\<close>

definition keeps_segment :: "(string \<Rightarrow> string) \<Rightarrow> string \<Rightarrow> ('a jstate_scheme \<Rightarrow> 'b \<times> 'a jstate_scheme) \<Rightarrow> bool" where
  "keeps_segment sha saga f = (\<forall>w. saga_segment sha saga (snd (f w)) = saga_segment sha saga w)"

definition port_keeps_segment :: "(string \<Rightarrow> string) \<Rightarrow> string \<Rightarrow> 'a jstate_scheme storage_port \<Rightarrow> bool" where
  "port_keeps_segment sha saga p =
     ((\<forall>check. sp_preflight p = Some check \<longrightarrow> keeps_segment sha saga check)
      \<and> (\<forall>mirror i al d. sp_mirror_event p = Some mirror \<longrightarrow> keeps_segment sha saga (mirror i al d))
      \<and> (\<forall>al d. keeps_segment sha saga (sp_mirror p al d)))"

lemma same_segment:
  "saga_segment sha saga w' = saga_segment sha saga w \<Longrightarrow>
     closed sha saga w' = closed sha saga w \<and> saga_lines sha saga w' = saga_lines sha saga w"
  by (simp add: closed_def saga_lines_def)

lemma storage_intent_segment:
  assumes "port_keeps_segment sha saga p" "storage_intent p d w = (x, w')"
  shows "saga_segment sha saga w' = saga_segment sha saga w"
proof (cases "sp_preflight p")
  case None
  with assms(2) show ?thesis by (simp add: storage_intent_def Let_def)
next
  case (Some check)
  obtain c w1 where c: "check w = (c, w1)" by (cases "check w")
  from assms(1) Some have "keeps_segment sha saga check" by (simp add: port_keeps_segment_def)
  then have "saga_segment sha saga (snd (check w)) = saga_segment sha saga w" unfolding keeps_segment_def by blast
  with assms(2) Some c show ?thesis by (simp add: storage_intent_def Let_def)
qed

lemma mirror_diary_segment:
  assumes "port_keeps_segment sha saga p" "mirror_diary p al d w = (r, w')"
  shows "saga_segment sha saga w' = saga_segment sha saga w"
proof -
  have "saga_segment sha saga (snd (mirror_diary p al d w)) = saga_segment sha saga w"
    using assms(1)
    by (auto simp: mirror_diary_def port_keeps_segment_def keeps_segment_def split: option.split prod.split)
      (metis snd_conv)
  with assms(2) show ?thesis by simp
qed

lemma storage_sagas [simp]:
  "ev_saga_id (session_closed_event d) = sd_session_id d" "ev_saga_id (intent_event d r t) = sd_session_id d"
  "ev_saga_id (outcome_of d r t) = sd_session_id d" "ha_saga_id (mirror_attempt d r t) = sd_session_id d"
  by (simp_all add: session_closed_event_def intent_event_def outcome_of_def mirror_event_def mirror_attempt_def)

definition storage_records ::
  "(string \<Rightarrow> string option) \<Rightarrow> session_diary \<Rightarrow> storage_result \<Rightarrow> int \<Rightarrow> storage_result \<Rightarrow> int \<Rightarrow> int \<Rightarrow> journal_record list" where
  "storage_records strip d intent t r t2 t3 =
     [event_record (intent_event d intent t), attempt_record (sanitised strip (mirror_attempt d r t2))]
     @ (if sr_already_in_progress r then [] else [event_record (outcome_of d r t3)])"

lemma record_outcome_lines:
  assumes "record_outcome sha strip d r w = ((a, er), w')" "closed sha (sd_session_id d) w"
  obtains k :: nat and t2 t3 where
    "closed sha (sd_session_id d) w' \<longrightarrow> saga_lines sha (sd_session_id d) w'
       = saga_lines sha (sd_session_id d) w @ take k (map line_of (tl (storage_records strip d r 0 r t2 t3)))"
    "er = None \<longrightarrow> closed sha (sd_session_id d) w' \<and> k = 2"
proof -
  let ?s = "sd_session_id d"
  obtain t2 w1 where 1: "time_now w = (t2, w1)" by (cases "time_now w")
  obtain e2 w2 where 2: "append_attempt sha strip (mirror_attempt d r t2) w1 = (e2, w2)"
    by (cases "append_attempt sha strip (mirror_attempt d r t2) w1")
  obtain t3 w3 where 3: "time_now w2 = (t3, w3)" by (cases "time_now w2")
  obtain e4 w4 where 4: "append_event sha (outcome_of d r t3) w3 = (e4, w4)"
    by (cases "append_event sha (outcome_of d r t3) w3")
  have c1: "closed sha ?s w1" "saga_lines sha ?s w1 = saga_lines sha ?s w"
    using assms(2) same_saga_time [OF 1] by simp_all
  note l2 = append_attempt_lines [OF 2, simplified, OF c1(1)]
  show thesis
  proof (cases e2)
    case (Some e)
    with assms(1) 1 2 have "w' = w2" "er = Some e" by (auto simp: record_outcome_def Let_def)
    with l2(2) c1 that [of 0 t2 t3] that [of 1 t2 t3] show thesis
      by (cases "saga_lines sha ?s w2 = saga_lines sha ?s w1") (auto simp: storage_records_def)
  next
    case None
    note l2 = l2(1) [OF None]
    show thesis
    proof (cases "sr_already_in_progress r")
      case True
      with assms(1) 1 2 None have "w' = w2" by (auto simp: record_outcome_def Let_def)
      with l2 c1 that [of 2 t2 t3] True show thesis by (simp add: storage_records_def)
    next
      case False
      with assms(1) 1 2 3 4 None have w': "w' = w4" "er = e4" by (auto simp: record_outcome_def Let_def)
      have c3: "closed sha ?s w3" "saga_lines sha ?s w3 = saga_lines sha ?s w2"
        using l2 same_saga_time [OF 3] by simp_all
      note l4 = append_event_lines [OF 4, simplified, OF c3(1)]
      show thesis
      proof (cases e4)
        case (Some e)
        with l4(2) c3 l2 c1 w' False that [of 1 t2 t3] that [of 2 t2 t3] show thesis
          by (cases "saga_lines sha ?s w4 = saga_lines sha ?s w3") (auto simp: storage_records_def)
      next
        case None
        with l4(1) c3 l2 c1 w' False that [of 2 t2 t3] show thesis by (simp add: storage_records_def)
      qed
    qed
  qed
qed

lemma storage_intent_state: "storage_intent p d w = ((intent, failed), w') \<Longrightarrow> sr_state intent = SyncPending"
  by (auto simp: storage_intent_def Let_def split: option.splits prod.splits)

lemma mirror_closed_lines:
  assumes "mirror_closed sha strip p al d w = ((a, er), w')" "closed sha (sd_session_id d) w"
    "port_keeps_segment sha (sd_session_id d) p"
  obtains k :: nat and intent t r t2 t3 where "sr_state intent = SyncPending"
    "closed sha (sd_session_id d) w' \<longrightarrow> saga_lines sha (sd_session_id d) w'
       = saga_lines sha (sd_session_id d) w @ take k (map line_of (storage_records strip d intent t r t2 t3))"
    "er = None \<longrightarrow> closed sha (sd_session_id d) w' \<and> k = 3"
proof -
  let ?s = "sd_session_id d"
  obtain intent failed w1 where 1: "storage_intent p d w = ((intent, failed), w1)"
    by (cases "storage_intent p d w") auto
  note pending = storage_intent_state [OF 1]
  obtain t w2 where 2: "time_now w1 = (t, w2)" by (cases "time_now w1")
  obtain e3 w3 where 3: "append_event sha (intent_event d intent t) w2 = (e3, w3)"
    by (cases "append_event sha (intent_event d intent t) w2")
  have c2: "closed sha ?s w2" "saga_lines sha ?s w2 = saga_lines sha ?s w"
    using assms(2) same_segment [OF storage_intent_segment [OF assms(3) 1]] same_saga_time [OF 2] by simp_all
  note l3 = append_event_lines [OF 3, simplified, OF c2(1)]
  show thesis
  proof (cases e3)
    case (Some e)
    with assms(1) 1 2 3 have "w' = w3" "er = Some e" by (auto simp: mirror_closed_def)
    with l3(2) c2 that [OF pending, of 0 t zero_result 0 0] that [OF pending, of 1 t zero_result 0 0] show thesis
      by (cases "saga_lines sha ?s w3 = saga_lines sha ?s w2") (auto simp: storage_records_def)
  next
    case None
    note l3 = l3(1) [OF None]
    obtain r w4 where 4: "(case failed of Some r \<Rightarrow> (r, w3) | None \<Rightarrow> mirror_diary p al d w3) = (r, w4)"
      by (cases "case failed of Some r \<Rightarrow> (r, w3) | None \<Rightarrow> mirror_diary p al d w3")
    then have "saga_segment sha ?s w4 = saga_segment sha ?s w3"
      using mirror_diary_segment [OF assms(3)] by (auto split: option.splits)
    note c4 = same_segment [OF this]
    define r' where "r' = result_for_journal strip r"
    from assms(1) 1 2 3 4 None have 5: "record_outcome sha strip d r' w4 = ((a, er), w')"
      by (simp add: mirror_closed_def r'_def)
    have "closed sha ?s w4" using c4 l3 by simp
    then obtain k :: nat and t2 t3 where k: "closed sha ?s w' \<longrightarrow> saga_lines sha ?s w'
       = saga_lines sha ?s w4 @ take k (map line_of (tl (storage_records strip d r' 0 r' t2 t3)))"
      "er = None \<longrightarrow> closed sha ?s w' \<and> k = 2"
      by (rule record_outcome_lines [OF 5])
    have "map line_of (storage_records strip d intent t r' t2 t3)
        = line_of (event_record (intent_event d intent t)) # map line_of (tl (storage_records strip d r' 0 r' t2 t3))"
      by (simp add: storage_records_def)
    with k l3 c4 c2 that [OF pending, of "Suc k" t r' t2 t3] show thesis by auto
  qed
qed

text \<open>Links go to the sagas of the invocations.\<close>

lemma append_event_other:
  assumes "append_event sha e w = (r, w')" "safe_segment_name sha (ev_saga_id e) \<noteq> safe_segment_name sha saga"
  shows "saga_segment sha saga w' = saga_segment sha saga w"
proof (cases "validate_event e")
  case None
  with assms(1) have "append_record sha (ev_saga_id e) (event_record e) w = (r, w')" by (simp add: append_event_def)
  from append_record_frame [OF this] assms(2) show ?thesis
    by (auto simp: only_entry_def saga_segment_def)
qed (use assms(1) in \<open>simp add: append_event_def\<close>)

lemma emit_links_other:
  assumes "emit_links sha d cause t is w = (r, w')"
    "\<forall>i \<in> set is. safe_segment_name sha (ir_invocation_id i) \<noteq> safe_segment_name sha saga"
  shows "saga_segment sha saga w' = saga_segment sha saga w"
  using assms
proof (induction "is" arbitrary: w)
  case (Cons i rest)
  obtain e w1 where 1: "append_event sha (link_event d cause t i) w = (e, w1)"
    by (cases "append_event sha (link_event d cause t i) w")
  have "saga_segment sha saga w1 = saga_segment sha saga w"
    by (rule append_event_other [OF 1]) (use Cons.prems(2) in \<open>simp add: link_event_def\<close>)
  with Cons 1 show ?case by (auto split: if_splits option.splits)
qed simp

definition close_records ::
  "(string \<Rightarrow> string option) \<Rightarrow> session_diary \<Rightarrow> storage_result \<Rightarrow> int \<Rightarrow> storage_result \<Rightarrow> int \<Rightarrow> int \<Rightarrow> journal_record list" where
  "close_records strip d intent t r t2 t3 = event_record (session_closed_event d) # storage_records strip d intent t r t2 t3"

text \<open>The event of the closed session with no subscriber, and what it leaves when the close ends there.\<close>

lemma publish_unsubscribed:
  assumes "append_event sha (session_closed_event d) w = (e1, w1)" "subs_of bus ''session.closed'' = []"
  shows "publish sha strip bus (session_closed_event d) w = (if e1 = None
      then ((\<lparr>de_event_id = ev_id (session_closed_event d), de_attempts = []\<rparr>, None), w1)
      else ((\<lparr>de_event_id = [], de_attempts = []\<rparr>, e1), w1))"
  using assms by (auto simp: publish_def append_event_def session_closed_event_def split: option.splits)

lemma stopped_at_closed:
  assumes "append_event sha (session_closed_event d) w = (e1, w1)" "closed sha (sd_session_id d) w"
  shows "\<exists>k. closed sha (sd_session_id d) w1 \<longrightarrow> saga_lines sha (sd_session_id d) w1 = saga_lines sha (sd_session_id d) w
    @ take k (map line_of (close_records strip d (zero_result\<lparr>sr_state := SyncPending\<rparr>) 0 zero_result 0 0))"
proof (cases "saga_lines sha (sd_session_id d) w1 = saga_lines sha (sd_session_id d) w")
  case True
  then show ?thesis by (intro exI [of _ 0]) simp
next
  case False
  with append_event_lines(2) [OF assms(1), simplified, OF assms(2)] show ?thesis
    by (intro exI [of _ 1]) (simp add: close_records_def)
qed

lemma close_evidence:
  assumes "publish_closed sha strip bus (Some p) al d w = ((dl, er), w')" "closed sha (sd_session_id d) w"
    "subs_of bus ''session.closed'' = []" "port_keeps_segment sha (sd_session_id d) p"
    "\<forall>i \<in> set (sd_invocations d). safe_segment_name sha (ir_invocation_id i) \<noteq> safe_segment_name sha (sd_session_id d)"
  shows "\<exists>k intent t r t2 t3. sr_state intent = SyncPending \<and>
     (closed sha (sd_session_id d) w' \<longrightarrow> saga_lines sha (sd_session_id d) w' = saga_lines sha (sd_session_id d) w
        @ take k (map line_of (close_records strip d intent t r t2 t3)))
     \<and> (er = None \<longrightarrow> closed sha (sd_session_id d) w' \<and> k = 4)"
proof -
  let ?s = "sd_session_id d" and ?e = "session_closed_event d"
  obtain e1 w1 where 1: "append_event sha ?e w = (e1, w1)" by (cases "append_event sha ?e w")
  note l1 = append_event_lines [OF 1, simplified, OF assms(2)]
  note pub = publish_unsubscribed [OF 1 assms(3), of strip]
  show ?thesis
  proof (cases e1)
    case (Some e)
    with assms(1) pub have "w' = w1" "er = Some e" by (auto simp: publish_closed_def)
    moreover have "sr_state (zero_result\<lparr>sr_state := SyncPending\<rparr>) = SyncPending" by simp
    ultimately show ?thesis using stopped_at_closed [OF 1 assms(2), of strip] by blast
  next
    case None
    note l1 = l1(1) [OF None]
    obtain e2 w2 where 2: "emit_links sha d ?s (sd_created_at d) (sd_invocations d) w1 = (e2, w2)"
      by (cases "emit_links sha d ?s (sd_created_at d) (sd_invocations d) w1")
    note c2 = same_segment [OF emit_links_other [OF 2 assms(5)]]
    show ?thesis
    proof (cases e2)
      case (Some e)
      with assms(1) pub None 2 have w': "w' = w2" "er = Some e" by (simp_all add: publish_closed_def)
      show ?thesis
        by (rule exI [of _ 1], rule exI [of _ "zero_result\<lparr>sr_state := SyncPending\<rparr>"], intro exI [of _ 0] exI [of _ zero_result])
          (use l1 c2 w' in \<open>simp add: close_records_def\<close>)
    next
      case n2: None
      obtain a e3 w3 where 3: "mirror_closed sha strip p al d w2 = ((a, e3), w3)"
        by (cases "mirror_closed sha strip p al d w2") auto
      from assms(1) pub None 2 n2 3 have w': "w' = w3" "er = e3" by (simp_all add: publish_closed_def)
      have "closed sha ?s w2" using c2 l1 by simp
      then obtain k :: nat and intent t r t2 t3 where k: "sr_state intent = SyncPending" "closed sha ?s w3 \<longrightarrow> saga_lines sha ?s w3
          = saga_lines sha ?s w2 @ take k (map line_of (storage_records strip d intent t r t2 t3))"
        "e3 = None \<longrightarrow> closed sha ?s w3 \<and> k = 3"
        by (rule mirror_closed_lines [OF 3 _ assms(4)])
      show ?thesis
        by (intro exI [of _ "Suc k"] exI [of _ intent] exI [of _ t] exI [of _ r] exI [of _ t2] exI [of _ t3])
          (use k l1 c2 w' in \<open>simp add: close_records_def\<close>)
    qed
  qed
qed

text \<open>C3: whatever fails, the publication of a closed session adds to its saga a prefix of: the closed
  event, the intent to mirror, the attempt, and the outcome (no outcome for a mirror that is already in progress) -- and
  all of it when the close reports no error. So a close that stops anywhere leaves the evidence of how far it came.\<close>

theorem close_evidence_ordered:
  assumes "publish_closed sha strip bus (Some p) al d w = ((dl, er), w')" "closed sha (sd_session_id d) w"
    "subs_of bus ''session.closed'' = []" "port_keeps_segment sha (sd_session_id d) p"
    "\<forall>i \<in> set (sd_invocations d). safe_segment_name sha (ir_invocation_id i) \<noteq> safe_segment_name sha (sd_session_id d)"
  shows "\<exists>k intent t r t2 t3.
     (closed sha (sd_session_id d) w' \<longrightarrow> saga_lines sha (sd_session_id d) w' = saga_lines sha (sd_session_id d) w
        @ take k (map line_of (close_records strip d intent t r t2 t3)))
     \<and> (er = None \<longrightarrow> closed sha (sd_session_id d) w' \<and> k = 4)"
  using close_evidence [OF assms] by blast

section \<open>Closing again\<close>

text \<open>No port of the closer touches the diary files.\<close>

definition keeps_diaries :: "('a mstate_scheme \<Rightarrow> 'b \<times> 'a mstate_scheme) \<Rightarrow> bool" where
  "keeps_diaries f = (\<forall>w. diaries (snd (f w)) = diaries w)"

definition ports_keep_diaries :: "'a mstate_scheme session_closer \<Rightarrow> bool" where
  "ports_keep_diaries c =
     ((\<forall>bus. cl_bus c = Some bus \<longrightarrow> (\<forall>su \<in> set (subs_of bus ''session.closed''). \<forall>e. keeps_diaries (su_handler su e)))
      \<and> (\<forall>g. cl_graph c = Some g \<longrightarrow> (\<forall>q. keeps_diaries (gp_resolve g q))
            \<and> (\<forall>publish s. gp_publish g = Some publish \<longrightarrow> keeps_diaries (publish s)))
      \<and> (\<forall>p. cl_storage c = Some p \<longrightarrow> (\<forall>check. sp_preflight p = Some check \<longrightarrow> keeps_diaries check)
            \<and> (\<forall>mirror i al d. sp_mirror_event p = Some mirror \<longrightarrow> keeps_diaries (mirror i al d))
            \<and> (\<forall>al d. keeps_diaries (sp_mirror p al d))))"

lemma keepsD: "keeps_diaries f \<Longrightarrow> f w = (r, w') \<Longrightarrow> diaries w' = diaries w"
  unfolding keeps_diaries_def by (metis snd_conv)

text \<open>The operations of the environment and of the journal do not touch them either.\<close>

lemma diaries_time: "time_now (w :: 'a mstate_scheme) = (t, w') \<Longrightarrow> diaries w' = diaries w"
  by (auto simp: time_now_def)

lemma diaries_append_record:
  "append_record sha saga r (w :: 'a mstate_scheme) = (res, w') \<Longrightarrow> diaries w' = diaries w"
  by (drule append_record_frame) (auto simp: only_entry_def dest: arg_cong [of _ _ diaries])

lemma diaries_append_event: "append_event sha e (w :: 'a mstate_scheme) = (res, w') \<Longrightarrow> diaries w' = diaries w"
  using diaries_append_record by (auto simp: append_event_def split: option.splits)

lemma diaries_append_attempt:
  "append_attempt sha strip a (w :: 'a mstate_scheme) = (res, w') \<Longrightarrow> diaries w' = diaries w"
  using diaries_append_record by (auto simp: append_attempt_def Let_def split: option.splits)

lemma diaries_reconcile:
  "reconcile_all sha j rs (w :: 'a mstate_scheme) = (res, w') \<Longrightarrow> diaries w' = diaries w"
proof (induction rs arbitrary: w w' res)
  case (Cons r rs)
  obtain r1 w1 where 1: "reconcile_record sha j r w = (r1, w1)" by (cases "reconcile_record sha j r w")
  have "\<exists>fs. w1 = w\<lparr>faults := fs\<rparr>"
    using 1 by (auto simp: reconcile_record_def gather_evidence_def split: if_splits prod.splits sum.splits
        dest!: read_saga_frame)
  then have d1: "diaries w1 = diaries w" by auto
  obtain r2 w2 where 2: "reconcile_all sha j rs w1 = (r2, w2)" by (cases "reconcile_all sha j rs w1")
  from Cons.IH [OF 2] d1 1 2 Cons.prems show ?case by (auto split: sum.splits)
qed simp

lemma verify_artifact_frame:
  "verify_artifact_file sha sniff fs p q w = (a, w') \<Longrightarrow> \<exists>fs. w' = w\<lparr>faults := fs\<rparr>"
  unfolding verify_artifact_file_def
  by (auto split: prod.splits option.splits node_kind.splits dest!: try_io_frame try_ios_frame)

lemma diaries_verify_artifacts:
  "verify_artifacts sha fv root as (w :: 'a mstate_scheme) = (res, w') \<Longrightarrow> diaries w' = diaries w"
proof (induction as arbitrary: w w' res)
  case (Cons a as)
  show ?case
  proof (cases "\<exists>p. resolve_artifact_path (fv_eval fv) root (ia_path a) = Some (Inr p)")
    case True
    then obtain p where p: "resolve_artifact_path (fv_eval fv) root (ia_path a) = Some (Inr p)" by blast
    obtain v w1 where 1: "verify_artifact_file sha (fv_sniff fv) (fv_files fv) (ia_path a) (path_text p) w = (v, w1)"
      by (cases "verify_artifact_file sha (fv_sniff fv) (fv_files fv) (ia_path a) (path_text p) w")
    obtain r2 w2 where 2: "verify_artifacts sha fv root as w1 = (r2, w2)" by (cases "verify_artifacts sha fv root as w1")
    from Cons.IH [OF 2] verify_artifact_frame [OF 1] have "diaries w2 = diaries w" by auto
    with p 1 2 Cons.prems show ?thesis by (auto split: option.splits sum.splits)
  next
    case False
    with Cons.prems show ?thesis by (auto split: option.splits sum.splits)
  qed
qed simp

lemma diaries_verify:
  "verify_all sha fv root rs (w :: 'a mstate_scheme) = (res, w') \<Longrightarrow> diaries w' = diaries w"
proof (induction rs arbitrary: w w' res)
  case (Cons r rs)
  obtain r1 w1 where 1: "verify_artifacts sha fv root (ir_artifacts r) w = (r1, w1)"
    by (cases "verify_artifacts sha fv root (ir_artifacts r) w")
  obtain r2 w2 where 2: "verify_all sha fv root rs w1 = (r2, w2)" by (cases "verify_all sha fv root rs w1")
  from Cons.IH [OF 2] diaries_verify_artifacts [OF 1] 1 2 Cons.prems show ?case
    by (auto split: option.splits sum.splits)
qed simp

lemma diaries_resolve:
  assumes "resolve_code_references (cl_graph c) repo commit refs invs w = (res, w')" "ports_keep_diaries c"
  shows "diaries w' = diaries w"
proof (cases "cl_graph c")
  case None
  with assms(1) show ?thesis by (simp add: resolve_code_references_def)
next
  case (Some g)
  let ?q = "\<lparr>gq_repository_id = repo, gq_commit_sha = commit, gq_references = reference_batch refs invs\<rparr>"
  obtain r1 w1 where 1: "gp_resolve g ?q w = (r1, w1)" by (cases "gp_resolve g ?q w")
  have d1: "diaries w1 = diaries w"
    using keepsD [of "gp_resolve g ?q"] 1 assms(2) Some by (simp add: ports_keep_diaries_def)
  show ?thesis
  proof (cases "\<exists>r publish. r1 = Inr r \<and> gp_publish g = Some publish")
    case True
    then obtain r publish where p: "r1 = Inr r" "gp_publish g = Some publish" by blast
    let ?s = "\<lparr>gs_id = [], gs_repository_id = repo, gs_commit_sha = commit, gs_created_at = 0,
      gs_references = gr_references r\<rparr>"
    obtain r2 w2 where 2: "publish ?s w1 = (r2, w2)" by (cases "publish ?s w1")
    have "diaries w2 = diaries w1"
      using keepsD [of "publish ?s"] 2 assms(2) Some p by (simp add: ports_keep_diaries_def)
    with d1 1 2 p Some assms(1) show ?thesis by (simp add: resolve_code_references_def Let_def)
  next
    case False
    with d1 1 Some assms(1) show ?thesis
      by (auto simp: resolve_code_references_def Let_def split: sum.splits option.splits)
  qed
qed

lemma build_diary_result:
  assumes "build_diary sha fv j (cl_graph c) al q a w = (b, w')" "ports_keep_diaries c"
  shows "diaries w' = diaries w"
    "b = Some (Inr (x, d)) \<Longrightarrow> sd_key d = close_key sha q a"
proof -
  obtain r1 w1 where 1: "reconcile_all sha j (sa_invocations a) w = (r1, w1)"
    by (cases "reconcile_all sha j (sa_invocations a) w")
  note d1 = diaries_reconcile [OF 1]
  have "diaries w' = diaries w \<and> (b = Some (Inr (x, d)) \<longrightarrow> sd_key d = close_key sha q a)"
  proof (cases r1)
    case (Inl e)
    with assms(1) 1 d1 show ?thesis by (auto simp: build_diary_def)
  next
    case r1: (Inr invs)
    obtain r2 w2 where 2: "verify_all sha fv (repository_root q) invs w1 = (r2, w2)"
      by (cases "verify_all sha fv (repository_root q) invs w1")
    note d2 = diaries_verify [OF 2]
    show ?thesis
    proof (cases "\<exists>invs'. r2 = Some (Inr invs')")
      case False
      with assms(1) 1 2 r1 d1 d2 show ?thesis by (auto simp: build_diary_def split: option.splits sum.splits)
    next
      case True
      then obtain invs' where r2: "r2 = Some (Inr invs')" by blast
      obtain t w3 where 3: "(if is_zero_time (cq_now q) then time_now w2 else (cq_now q, w2)) = (t, w3)"
        by (cases "if is_zero_time (cq_now q) then time_now w2 else (cq_now q, w2)")
      then have d3: "diaries w3 = diaries w2" using diaries_time by (auto split: if_splits)
      obtain refs invs'' state snapshot w4 where 4: "resolve_code_references (cl_graph c) (cq_repository_id q)
          (cq_commit_sha q) (sa_code_references a) invs' w3 = ((refs, invs'', state, snapshot), w4)"
        by (metis surj_pair)
      from assms(1) 1 2 3 4 r1 r2 have "w' = w4" "b = Some (Inr (al \<or> cl_graph c \<noteq> None \<and> state = GraphResolutionPending,
             closed_diary (close_key sha q a) (artifact_hash sha a) q t a refs invs'' state snapshot))"
        by (simp_all add: build_diary_def)
      with d1 d2 d3 diaries_resolve [OF 4 assms(2)] show ?thesis by (auto simp: closed_diary_def)
    qed
  qed
  then show "diaries w' = diaries w" "b = Some (Inr (x, d)) \<Longrightarrow> sd_key d = close_key sha q a" by blast+
qed

lemma diaries_deliver:
  assumes "deliver sha strip e ss w = (r, w')" "\<forall>su \<in> set ss. \<forall>e. keeps_diaries (su_handler su e)"
  shows "diaries w' = diaries w"
  using assms
proof (induction ss arbitrary: w w' r)
  case (Cons su ss)
  obtain t w1 where 1: "time_now w = (t, w1)" by (cases "time_now w")
  obtain r1 w2 where 2: "su_handler su e w1 = (r1, w2)" by (cases "su_handler su e w1")
  have d2: "diaries w2 = diaries w1" using keepsD [of "su_handler su e"] 2 Cons.prems(2) by simp
  obtain r3 w3 where 3: "append_attempt sha strip (attempt_of e (su_id su) t r1) w2 = (r3, w3)"
    by (cases "append_attempt sha strip (attempt_of e (su_id su) t r1) w2")
  obtain r4 w4 where 4: "deliver sha strip e ss w3 = (r4, w4)" by (cases "deliver sha strip e ss w3")
  have "diaries w4 = diaries w3" using Cons.IH [OF 4] Cons.prems(2) by simp
  with d2 diaries_time [OF 1] diaries_append_attempt [OF 3] have "diaries w3 = diaries w" "diaries w4 = diaries w"
    by simp_all
  with 1 2 3 4 Cons.prems(1) show ?case
    by (cases r3) (auto simp: Let_def split: prod.splits)
qed simp

lemma diaries_links:
  "emit_links sha d cause t is (w :: 'a mstate_scheme) = (r, w') \<Longrightarrow> diaries w' = diaries w"
proof (induction "is" arbitrary: w w' r)
  case (Cons i rest)
  obtain e w1 where 1: "append_event sha (link_event d cause t i) w = (e, w1)"
    by (cases "append_event sha (link_event d cause t i) w")
  from Cons diaries_append_event [OF 1] 1 show ?case by (auto split: if_splits option.splits)
qed simp

lemma diaries_mirror:
  assumes "mirror_closed sha strip p al d w = (r, w')" "cl_storage c = Some p" "ports_keep_diaries c"
  shows "diaries w' = diaries w"
proof -
  have p: "\<And>check. sp_preflight p = Some check \<Longrightarrow> keeps_diaries check"
    "\<And>mirror i al d. sp_mirror_event p = Some mirror \<Longrightarrow> keeps_diaries (mirror i al d)"
    "\<And>al d. keeps_diaries (sp_mirror p al d)"
    using assms(2,3) by (simp_all add: ports_keep_diaries_def)
  obtain intent failed w1 where 1: "storage_intent p d w = ((intent, failed), w1)"
    by (cases "storage_intent p d w") auto
  then have d1: "diaries w1 = diaries w"
    using keepsD [OF p(1)] by (auto simp: storage_intent_def Let_def split: option.splits prod.splits)
  obtain t w2 where 2: "time_now w1 = (t, w2)" by (cases "time_now w1")
  obtain e3 w3 where 3: "append_event sha (intent_event d intent t) w2 = (e3, w3)"
    by (cases "append_event sha (intent_event d intent t) w2")
  have d3: "diaries w3 = diaries w" using d1 diaries_time [OF 2] diaries_append_event [OF 3] by simp
  show ?thesis
  proof (cases e3)
    case (Some e)
    with assms(1) 1 2 3 d3 show ?thesis by (simp add: mirror_closed_def)
  next
    case None
    obtain x w4 where 4: "(case failed of Some r \<Rightarrow> (r, w3) | None \<Rightarrow> mirror_diary p al d w3) = (x, w4)"
      by (cases "case failed of Some r \<Rightarrow> (r, w3) | None \<Rightarrow> mirror_diary p al d w3")
    have d4: "diaries w4 = diaries w3"
      using 4 keepsD [OF p(2)] keepsD [OF p(3)]
      by (auto simp: mirror_diary_def split: option.splits prod.splits)
    obtain t2 w5 where 5: "time_now w4 = (t2, w5)" by (cases "time_now w4")
    let ?r = "result_for_journal strip x"
    obtain e6 w6 where 6: "append_attempt sha strip (mirror_attempt d ?r t2) w5 = (e6, w6)"
      by (cases "append_attempt sha strip (mirror_attempt d ?r t2) w5")
    obtain t3 w7 where 7: "time_now w6 = (t3, w7)" by (cases "time_now w6")
    obtain e8 w8 where 8: "append_event sha (outcome_of d ?r t3) w7 = (e8, w8)"
      by (cases "append_event sha (outcome_of d ?r t3) w7")
    have "diaries w6 = diaries w" "diaries w8 = diaries w"
      using d3 d4 diaries_time [OF 5] diaries_append_attempt [OF 6] diaries_time [OF 7] diaries_append_event [OF 8]
      by simp_all
    moreover have "w' = w6 \<or> w' = w8"
      using assms(1) 1 2 3 4 5 6 7 8 None
      by (auto simp: mirror_closed_def record_outcome_def Let_def split: option.splits if_splits)
    ultimately show ?thesis by auto
  qed
qed

lemma diaries_publish_closed:
  assumes "publish_closed sha strip bus (cl_storage c) al d w = (r, w')" "cl_bus c = Some bus" "ports_keep_diaries c"
  shows "diaries w' = diaries w"
proof -
  obtain dl e w1 where 1: "publish sha strip bus (session_closed_event d) w = ((dl, e), w1)"
    by (cases "publish sha strip bus (session_closed_event d) w") auto
  have d1: "diaries w1 = diaries w"
  proof -
    obtain e0 w0 where 0: "append_event sha (session_closed_event d) w = (e0, w0)" by (cases "append_event sha (session_closed_event d) w")
    have "\<forall>su \<in> set (subs_of bus ''session.closed''). \<forall>e. keeps_diaries (su_handler su e)"
      using assms(2,3) by (simp add: ports_keep_diaries_def)
    then have "deliver sha strip (session_closed_event d) (subs_of bus ''session.closed'') w0 = (x, w1) \<Longrightarrow> diaries w1 = diaries w0" for x
      using diaries_deliver by blast
    with 0 1 diaries_append_event [OF 0] show ?thesis
      by (auto simp: publish_def session_closed_event_def split: option.splits prod.splits)
  qed
  obtain e2 w2 where 2: "emit_links sha d (sd_session_id d) (sd_created_at d) (sd_invocations d) w1 = (e2, w2)"
    by (cases "emit_links sha d (sd_session_id d) (sd_created_at d) (sd_invocations d) w1")
  have d2: "diaries w2 = diaries w" using d1 diaries_links [OF 2] by simp
  show ?thesis
  proof (cases "\<exists>p. e = None \<and> e2 = None \<and> cl_storage c = Some p")
    case False
    with assms(1) 1 2 d1 d2 show ?thesis by (auto simp: publish_closed_def split: option.splits)
  next
    case True
    then obtain p where p: "e = None" "e2 = None" "cl_storage c = Some p" by blast
    obtain a e3 w3 where 3: "mirror_closed sha strip p al d w2 = ((a, e3), w3)"
      by (cases "mirror_closed sha strip p al d w2") auto
    from diaries_mirror [OF 3 p(3) assms(3)] d2 assms(1) 1 2 3 p show ?thesis by (simp add: publish_closed_def)
  qed
qed

lemma walk_found:
  "walk_diaries rv key m found w = ((x, e), w') \<Longrightarrow>
     x = found \<or> (\<exists>pc \<in> set m. read_diary rv (snd pc) = Some x \<and> sd_key x = key)"
proof (induction rv key m found w rule: walk_diaries.induct)
  case (2 rv key p content rest found w)
  obtain e1 w1 where 1: "try_io w = (e1, w1)" by (cases "try_io w")
  obtain e2 w2 where t2: "try_io w1 = (e2, w2)" by (cases "try_io w1")
  show ?case
    using "2.prems" "2.IH" 1 t2 by (fastforce split: option.splits if_splits)
qed simp

lemma find_unfound:
  assumes "find_diary rv key w = ((d, True, e), w')" "\<forall>pc \<in> set (diaries w). \<forall>d'. read_diary rv (snd pc) = Some d' \<longrightarrow> sd_key d' \<noteq> key"
  shows False
proof -
  obtain e1 w1 where 1: "try_io w = (e1, w1)" by (cases "try_io w")
  have "diaries w1 = diaries w" using try_io_frame [OF 1] by auto
  with assms(1) 1 have "walk_diaries rv key (walk_order (diaries w)) zero_diary w1 = ((d, e), w')" "sd_key d \<noteq> []"
    by (auto simp: find_diary_def split: option.splits prod.splits)
  with walk_found [OF this(1)] assms(2) show False by (auto simp: zero_diary_def)
qed

lemma find_frame: "find_diary rv key w = (r, w') \<Longrightarrow> diaries w' = diaries w"
proof -
  have walk: "walk_diaries rv key m found v = (r, v') \<Longrightarrow> \<exists>fs. v' = v\<lparr>faults := fs\<rparr>"
    for rv key m found and v v' :: "'a mstate_scheme" and r
  proof (induction rv key m found v rule: walk_diaries.induct)
    case (2 rv key p content rest found w)
    obtain e1 w1 where 1: "try_io w = (e1, w1)" by (cases "try_io w")
    obtain e2 w2 where t2: "try_io w1 = (e2, w2)" by (cases "try_io w1")
    show ?case
      using "2.prems" "2.IH" 1 t2 try_io_frame [OF 1] try_io_frame [OF t2]
      by (fastforce split: option.splits if_splits)
  qed auto
  assume a: "find_diary rv key w = (r, w')"
  obtain e1 w1 where 1: "try_io w = (e1, w1)" by (cases "try_io w")
  obtain x v where 2: "walk_diaries rv key (walk_order (diaries w1)) zero_diary w1 = (x, v)"
    by (cases "walk_diaries rv key (walk_order (diaries w1)) zero_diary w1")
  from a 1 2 try_io_frame [OF 1] walk [OF 2] show ?thesis
    by (auto simp: find_diary_def split: option.splits prod.splits)
qed

lemma save_success:
  assumes "save_diary al d w = (Some None, w')" "map_of (diaries w) (diary_path d) = None"
  shows "diaries w' = map_put (diary_path d) (render_diary al d) (diaries w)"
proof -
  obtain e w1 where 1: "ctx_err w = (e, w1)" by (cases "ctx_err w")
  obtain e2 w2 where 2: "try_io w1 = (e2, w2)" by (cases "try_io w1")
  obtain q w3 where 3: "write_diary (diary_path d) (render_diary al d) w2 = (q, w3)"
    by (cases "write_diary (diary_path d) (render_diary al d) w2")
  have "diaries w2 = diaries w" using ctx_err_frame [OF 1] try_io_frame [OF 2] by auto
  with assms 1 2 3 write_diary_cases [OF 3] show ?thesis
    by (auto simp: save_diary_def split: option.splits if_splits)
qed

lemma close_saves:
  assumes "close_session rv sha strip fv c q w = (Some (d, dl, None), w')" "cl_memory c = Some (local_memory rv)"
    "ports_keep_diaries c" "map_of (diaries w) (diary_path d) = None"
    "\<forall>pc \<in> set (diaries w). \<forall>d'. read_diary rv (snd pc) = Some d' \<longrightarrow> sd_key d' \<noteq> sd_key d"
  obtains al a where "diaries w' = map_put (diary_path d) (render_diary al d) (diaries w)"
    "request_artifact rv q = Inr a" "sd_key d = close_key sha q a" "cq_repository_id q \<noteq> []" "cq_commit_sha q \<noteq> []"
proof -
  from assms(1,2) obtain a where a: "request_artifact rv q = Inr a" "cq_repository_id q \<noteq> []" "cq_commit_sha q \<noteq> []"
    by (auto simp: close_session_def split: if_splits sum.splits)
  obtain d0 found e w1 where 1: "find_diary rv (close_key sha q a) w = ((d0, found, e), w1)"
    by (metis surj_pair)
  note d1 = find_frame [OF 1]
  obtain b w2 where 2: "build_diary sha fv (cl_bus c \<noteq> None) (cl_graph c) (request_allocated rv q) q a w1 = (b, w2)"
    by (cases "build_diary sha fv (cl_bus c \<noteq> None) (cl_graph c) (request_allocated rv q) q a w1")
  note b2 = build_diary_result [OF 2 assms(3)]
  have e: "e = None" using assms(1,2) a 1 by (cases e) (auto simp: close_session_def local_memory_def)
  have "\<not> found"
  proof
    assume f: found
    with assms(1,2) a 1 e have "d0 = d" by (simp add: close_session_def local_memory_def)
    obtain e0 w0 where 0: "try_io w = (e0, w0)" by (cases "try_io w")
    with 1 f e have "walk_diaries rv (close_key sha q a) (walk_order (diaries w0)) zero_diary w0 = ((d0, None), w1)" "sd_key d0 \<noteq> []"
      by (auto simp: find_diary_def split: option.splits prod.splits)
    from walk_found [OF this(1)] this(2) have "sd_key d0 = close_key sha q a" by (auto simp: zero_diary_def)
    with f 1 e find_unfound [of rv "close_key sha q a" w d0 None w1] assms(5) \<open>d0 = d\<close> show False by simp
  qed
  with assms(1,2) a 1 e 2 obtain al where b: "b = Some (Inr (al, d))"
    and s: "save_and_publish sha strip c (local_memory rv) al d w2 = (Some (d, dl, None), w')"
    by (auto simp: close_session_def local_memory_def close_new_def save_and_publish_def
        split: option.splits sum.splits prod.splits)
  obtain r w3 where 3: "save_diary al d w2 = (r, w3)" by (cases "save_diary al d w2")
  with s have r: "r = Some None" by (auto simp: save_and_publish_def local_memory_def split: option.splits)
  have "diaries w3 = map_put (diary_path d) (render_diary al d) (diaries w)"
    using save_success [of al d w2 w3] 3 r assms(4) d1 b2(1) by simp
  moreover have "diaries w' = diaries w3"
    using s 3 r diaries_publish_closed [OF _ _ assms(3)]
    by (auto simp: save_and_publish_def local_memory_def split: option.splits prod.splits)
  ultimately show thesis using that [of al a] a b2(2) [OF b] by simp
qed

text \<open>C1: after a close that reported no error, whatever failed on the way, the same artifact closed again
  at the same commit, by any closer over the same store, gets the stored diary and changes
  nothing: no event, no graph publication, no remote effect.\<close>

theorem close_is_idempotent:
  assumes "close_session rv sha strip fv c q w = (Some (d, dl, None), w1)" "cl_memory c = Some (local_memory rv)"
    "ports_keep_diaries c" "map_of (diaries w) (diary_path d) = None"
    "\<forall>pc \<in> set (diaries w). \<forall>d'. read_diary rv (snd pc) = Some d' \<longrightarrow> sd_key d' \<noteq> sd_key d"
    "findable d" "rv (json_text (enc_diary d)) = Some (enc_diary d, [])"
    "diaries w2 = diaries w1" "faults w2 = []" "cl_memory c2 = Some (local_memory rv)"
    "cq_repository_id q2 = cq_repository_id q" "cq_commit_sha q2 = cq_commit_sha q"
    "request_artifact rv q2 = request_artifact rv q"
  shows "close_session rv sha strip fv2 c2 q2 w2
     = (Some (stored_diary d, no_delivery\<lparr>de_event_id := sd_session_id d\<rparr>, None), w2)"
proof -
  obtain al a where a: "diaries w1 = map_put (diary_path d) (render_diary al d) (diaries w)"
    "request_artifact rv q = Inr a" "sd_key d = close_key sha q a" "cq_repository_id q \<noteq> []" "cq_commit_sha q \<noteq> []"
    by (rule close_saves [OF assms(1-5)])
  have "find_diary rv (sd_key d) w2 = ((stored_diary d, True, None), w2)"
    by (rule find_stored [OF assms(6,7,4,5) _ assms(9)]) (use a assms(8) in simp)
  moreover have "close_key sha q2 a = sd_key d" using a assms(11,12) by (simp add: close_key_def)
  ultimately show ?thesis
    using assms(10-13) a by (simp add: close_session_def local_memory_def stored_diary_def)
qed

section \<open>Examples\<close>

definition plain_port :: "'w storage_port" where
  "plain_port = \<lparr>sp_mirror = (\<lambda>al d w. (zero_result\<lparr>sr_state := Mirrored, sr_key := sd_key d\<rparr>, w)), sp_preflight = None,
     sp_mirror_event = None, sp_recover_event = None, sp_resolve = None\<rparr>"

definition sample_closer :: "json_reader \<Rightarrow> mstate session_closer" where
  "sample_closer rv = \<lparr>cl_memory = Some (local_memory rv), cl_bus = Some [], cl_graph = None, cl_storage = Some plain_port\<rparr>"

definition sample_close :: close_request where
  "sample_close = \<lparr>cq_repository_id = ''r'', cq_commit_sha = ''c'', cq_author = ''a'', cq_runtime = [], cq_repository_root = [],
     cq_artifact = [], cq_format = [], cq_manual_summary = ''S'', cq_now = 0\<rparr>"

definition sample_sha :: "string \<Rightarrow> string" where
  "sample_sha s = replicate 64 (CHR ''a'')"

theorem remote_effect_needs_intent_witness:
  "fst (close_session (\<lambda>t. None) sample_sha (\<lambda>u. None) sample_view
      ((sample_closer (\<lambda>t. None))\<lparr>cl_storage := Some (plain_port\<lparr>sp_mirror := (\<lambda>al d w. (zero_result, w))\<rparr>)\<rparr>)
      sample_close (empty_memory\<lparr>faults := [FailClean (new_err ''disk'')]\<rparr>))
    = fst (close_session (\<lambda>t. None) sample_sha (\<lambda>u. None) sample_view (sample_closer (\<lambda>t. None))
      sample_close (empty_memory\<lparr>faults := [FailClean (new_err ''disk'')]\<rparr>))
   \<or> mirrored_after_intent sample_sha (\<lambda>u. None) plain_port
      (snd (close_session (\<lambda>t. None) sample_sha (\<lambda>u. None) sample_view (sample_closer (\<lambda>t. None))
      sample_close (empty_memory\<lparr>faults := [FailClean (new_err ''disk'')]\<rparr>)))"
  using remote_effect_needs_intent [of "\<lambda>t. None" sample_sha "\<lambda>u. None" sample_view "sample_closer (\<lambda>t. None)" sample_close
      "empty_memory\<lparr>faults := [FailClean (new_err ''disk'')]\<rparr>" _ _ plain_port "plain_port\<lparr>sp_mirror := (\<lambda>al d w. (zero_result, w))\<rparr>",
      OF prod.collapse [symmetric]]
  by (auto simp: sample_closer_def)

theorem close_evidence_ordered_witness:
  "\<exists>k intent t r t2 t3. k = 4 \<and> saga_lines id ''s''
       (snd (publish_closed id (\<lambda>u. None) [] (Some plain_port) False sample_session empty_memory))
     = take k (map line_of (close_records (\<lambda>u. None) sample_session intent t r t2 t3))"
proof -
  have e: "snd (fst (publish_closed id (\<lambda>u. None) [] (Some plain_port) False sample_session empty_memory)) = None"
    by code_simp
  obtain dl er w' where p: "publish_closed id (\<lambda>u. None) [] (Some plain_port) False sample_session empty_memory = ((dl, er), w')"
    by (metis surj_pair)
  have i: "sd_session_id sample_session = ''s''" "sd_invocations sample_session = []"
    by (simp_all add: sample_session_def zero_diary_def)
  have c: "closed id ''s'' empty_memory" "saga_lines id ''s'' empty_memory = []"
    by (simp_all add: closed_def saga_lines_def saga_segment_def empty_memory_def empty_segment_def)
  have "port_keeps_segment id ''s'' plain_port"
    by (simp add: port_keeps_segment_def keeps_segment_def plain_port_def)
  with close_evidence_ordered [OF p, unfolded i] c e p show ?thesis
    by (auto simp: subs_of_def)
qed

definition closed_sample :: session_diary where
  "closed_sample = closed_diary (replicate 64 (CHR ''a'')) (replicate 64 (CHR ''a'')) sample_close 1
     (zero_session_artifact\<lparr>sa_title := ''Session diary'', sa_summary := ''S''\<rparr>) [] [] GraphResolutionPending []"

definition closed_reader :: json_reader where
  "closed_reader t = (if t = json_text (enc_diary closed_sample) then Some (enc_diary closed_sample, []) else None)"

theorem close_is_idempotent_witness:
  "\<exists>w1. close_session closed_reader sample_sha (\<lambda>u. None) sample_view ((sample_closer closed_reader)\<lparr>cl_bus := None\<rparr>) sample_close
        empty_memory = (Some (closed_sample, no_delivery\<lparr>de_event_id := take 24 (replicate 64 (CHR ''a''))\<rparr>, None), w1)
     \<and> close_session closed_reader sample_sha (\<lambda>u. None) sample_view (sample_closer closed_reader) sample_close w1
      = (Some (closed_sample, no_delivery\<lparr>de_event_id := take 24 (replicate 64 (CHR ''a''))\<rparr>, None), w1)"
proof -
  let ?c = "(sample_closer closed_reader)\<lparr>cl_bus := None\<rparr>"
  obtain res w1 where 1: "close_session closed_reader sample_sha (\<lambda>u. None) sample_view ?c sample_close empty_memory = (res, w1)"
    by (cases "close_session closed_reader sample_sha (\<lambda>u. None) sample_view ?c sample_close empty_memory")
  have "fst (close_session closed_reader sample_sha (\<lambda>u. None) sample_view ?c sample_close empty_memory)
      = Some (closed_sample, no_delivery\<lparr>de_event_id := take 24 (replicate 64 (CHR ''a''))\<rparr>, None)"
    by code_simp
  with 1 have r: "res = Some (closed_sample, no_delivery\<lparr>de_event_id := take 24 (replicate 64 (CHR ''a''))\<rparr>, None)" by simp
  have f: "faults w1 = []"
  proof -
    have "faults (snd (close_session closed_reader sample_sha (\<lambda>u. None) sample_view ?c sample_close empty_memory)) = []"
      by code_simp
    with 1 show ?thesis by simp
  qed
  have k: "ports_keep_diaries ?c"
    by (simp add: ports_keep_diaries_def sample_closer_def plain_port_def keeps_diaries_def)
  have st: "stored_diary closed_sample = closed_sample"
    by (simp add: stored_diary_def closed_sample_def closed_diary_def)
  have "findable closed_sample" by code_simp
  with close_is_idempotent [OF 1 [unfolded r] _ k, of w1 "sample_closer closed_reader" sample_close sample_view] f 1 r st
  show ?thesis
    by (auto simp: sample_closer_def empty_memory_def closed_reader_def closed_sample_def closed_diary_def)
qed

end
