(* ===== verification/Sync_Commands.thy ===== *)
theory Sync_Commands
  imports Session_Close Recovery
begin

text \<open>
  The commands that act on obligations, \<open>sync retry\<close> and \<open>sync resolve\<close> (\<open>cmd/syntroph/main.go\<close>). The flags come parsed;
  how the storage port is set up and the files that are read are arguments, and a command returns what it printed and its error. The payload of an event that has a
  field of another type is passed over by \<open>retryGraph\<close> as a whole; no event of the program has one.
\<close>

section \<open>The diary of a saga\<close>

text \<open>Whether the decoded references are a slice at all: the payload of an event leaves out an empty one.\<close>

definition payload_allocated :: "json \<Rightarrow> bool" where
  "payload_allocated j =
     (case j of
        JObj kvs \<Rightarrow> fold (\<lambda>v b. case v of JArr js \<Rightarrow> True | JNull \<Rightarrow> False | _ \<Rightarrow> b) (field_values ''code_references'' kvs) False
      | _ \<Rightarrow> False)"

definition record_diary :: "journal_record \<Rightarrow> (bool \<times> session_diary) option" where
  "record_diary r =
     (case jr_event r of
        None \<Rightarrow> None
      | Some e \<Rightarrow>
          if ev_type e \<noteq> ''session.closed'' then None
          else
         (case ev_payload e of
            None \<Rightarrow> None
          | Some j \<Rightarrow> map_option (Pair (payload_allocated j)) (dec_diary j)))"

definition diary_from_saga ::
  "(string \<Rightarrow> string) \<Rightarrow> string \<Rightarrow> 'a jstate_scheme \<Rightarrow> (bool \<times> session_diary) res \<times> 'a jstate_scheme" where
  "diary_from_saga sha saga w =
     (case read_saga sha saga w of
        (Inl e, w1) \<Rightarrow> (Inl e, w1)
      | (Inr rs, w1) \<Rightarrow>
          ((case List.map_filter record_diary rs of
              d # _ \<Rightarrow> Inr d
            | [] \<Rightarrow> Inl (new_err ''session diary not found in saga journal'')), w1))"

section \<open>Retrying\<close>

definition saga_event :: "string \<Rightarrow> string \<Rightarrow> int \<Rightarrow> string \<Rightarrow> string \<Rightarrow> string \<Rightarrow> json \<Rightarrow> event" where
  "saga_event i ty t repository saga cause payload =
     \<lparr>ev_id = i, ev_type = ty, ev_occurred_at = t, ev_repository_id = repository, ev_saga_id = saga,
      ev_correlation_id = saga, ev_causation_id = cause, ev_schema_version = 1, ev_payload = Some payload\<rparr>"

definition retry_request :: "string \<Rightarrow> recovery_item \<Rightarrow> int \<Rightarrow> event" where
  "retry_request scope i t = saga_event (ri_saga_id i @ '':retry:'' @ scope) ''sync.retry.requested'' t
     (ri_repository_id i) (ri_saga_id i) (ri_event_id i) (JObj [(''scope'', JStr scope)])"

definition retry_attempt :: "string \<Rightarrow> string \<Rightarrow> recovery_item \<Rightarrow> string \<Rightarrow> string \<Rightarrow> int \<Rightarrow> handler_attempt" where
  "retry_attempt scope handler i outcome er t =
     \<lparr>ha_event_id = ri_saga_id i @ '':retry:'' @ scope, ha_saga_id = ri_saga_id i, ha_handler_id = handler,
      ha_attempted_at = t, ha_outcome = outcome, ha_error = er\<rparr>"

definition retry_outcome :: "recovery_item \<Rightarrow> storage_result \<Rightarrow> int \<Rightarrow> event" where
  "retry_outcome i r t = saga_event (ri_saga_id i @ '':storage-retry-result'') (storage_event_type (sr_state r)) t
     (ri_repository_id i) (ri_saga_id i) (ri_saga_id i @ '':retry:storage'') (enc_result r)"

definition retry_storage ::
  "(string \<Rightarrow> string) \<Rightarrow> 'a jstate_scheme storage_port option \<Rightarrow> recovery_item \<Rightarrow> 'a jstate_scheme
     \<Rightarrow> storage_result res \<times> 'a jstate_scheme"
where
  "retry_storage sha port i w =
     (case diary_from_saga sha (ri_saga_id i) w of
        (Inl e, w1) \<Rightarrow> (Inl e, w1)
      | (Inr (al, d), w1) \<Rightarrow>
         (case (case port of None \<Rightarrow> None | Some p \<Rightarrow> sp_recover_event p) of
            None \<Rightarrow> (Inl (new_err ''storage adapter does not support explicit recovery''), w1)
          | Some recover \<Rightarrow>
             (case recover (ri_saga_id i @ '':storage-retry'') al d w1 of (r, w2) \<Rightarrow> (Inr r, w2))))"

text \<open>\<open>retryGraph\<close>: every payload of the saga is decoded over the one diary.\<close>

definition saga_diary :: "journal_record list \<Rightarrow> session_diary" where
  "saga_diary rs =
     fold (\<lambda>r d. case jr_event r of
                   Some e \<Rightarrow> (case ev_payload e of
                               Some (JObj kvs) \<Rightarrow> (case dec_diary_fields kvs d of Some d' \<Rightarrow> d' | None \<Rightarrow> d)
                             | _ \<Rightarrow> d)
                 | None \<Rightarrow> d) rs zero_diary"

definition retry_graph ::
  "(string \<Rightarrow> string) \<Rightarrow> recovery_item \<Rightarrow> 'a gstate_scheme \<Rightarrow> err option \<times> 'a gstate_scheme" where
  "retry_graph sha i w =
     (case read_saga sha (ri_saga_id i) w of
        (Inl e, w1) \<Rightarrow> (Some e, w1)
      | (Inr rs, w1) \<Rightarrow>
     (case new_local_graph ''.syntroph/graph'' w1 of
        (Some e, w2) \<Rightarrow> (Some e, w2)
      | (None, w2) \<Rightarrow>
     (let d = saga_diary rs in
      case local_resolve \<lparr>gq_repository_id = sd_repository_id d, gq_commit_sha = sd_commit_sha d,
                          gq_references = sd_code_references d\<rparr> w2 of
        (Inl e, w3) \<Rightarrow> (Some e, w3)
      | (Inr q, w3) \<Rightarrow>
         (case publish_snapshot sha \<lparr>gs_id = [], gs_repository_id = sd_repository_id d, gs_commit_sha = sd_commit_sha d,
                 gs_created_at = 0, gs_references = gr_references q\<rparr> w3 of
            (Inl e, w4) \<Rightarrow> (Some e, w4)
          | (Inr s, w4) \<Rightarrow> (None, w4)))))"

datatype retry_step = Stop err | Skipped | Counted

definition or_stop :: "retry_step \<Rightarrow> err option \<times> 'w \<Rightarrow> retry_step \<times> 'w" where
  "or_stop s r = (case r of (Some e, w) \<Rightarrow> (Stop e, w) | (None, w) \<Rightarrow> (s, w))"

definition retry_graph_item ::
  "(string \<Rightarrow> string) \<Rightarrow> (string \<Rightarrow> string option) \<Rightarrow> recovery_item \<Rightarrow> 'a gstate_scheme \<Rightarrow> retry_step \<times> 'a gstate_scheme"
where
  "retry_graph_item sha strip i w =
     (case time_now w of (t, w0) \<Rightarrow>
     (case append_event sha (retry_request ''graph'' i t) w0 of
        (Some e, w1) \<Rightarrow> (Stop e, w1)
      | (None, w1) \<Rightarrow>
     (case retry_graph sha i w1 of
        (Some e, w2) \<Rightarrow>
          (case time_now w2 of (t2, w3) \<Rightarrow>
             or_stop Skipped (append_attempt sha strip (retry_attempt ''graph'' ''graph-retry'' i ''failed'' (err_text e) t2) w3))
      | (None, w2) \<Rightarrow>
          (case time_now w2 of (t2, w3) \<Rightarrow>
             or_stop Counted (append_attempt sha strip (retry_attempt ''graph'' ''graph-retry'' i ''succeeded'' [] t2) w3)))))"

text \<open>What is journaled of a result.\<close>

definition result_attempt :: "recovery_item \<Rightarrow> storage_result \<Rightarrow> int \<Rightarrow> handler_attempt" where
  "result_attempt i r t =
     (if sr_state r \<noteq> Mirrored then retry_attempt ''storage'' ''storage-retry'' i ''failed'' (sr_error r) t
      else retry_attempt ''storage'' ''storage-retry'' i ''succeeded'' [] t)"

definition record_retry ::
  "(string \<Rightarrow> string) \<Rightarrow> (string \<Rightarrow> string option) \<Rightarrow> recovery_item \<Rightarrow> storage_result \<Rightarrow> 'a jstate_scheme
     \<Rightarrow> retry_step \<times> 'a jstate_scheme"
where
  "record_retry sha strip i r w =
     (case time_now w of (t, w1) \<Rightarrow>
     (case append_attempt sha strip (result_attempt i r t) w1 of
        (Some e, w2) \<Rightarrow> (Stop e, w2)
      | (None, w2) \<Rightarrow>
         (case time_now w2 of (t2, w3) \<Rightarrow> or_stop Counted (append_event sha (retry_outcome i r t2) w3))))"

definition retry_storage_item ::
  "(string \<Rightarrow> string) \<Rightarrow> (string \<Rightarrow> string option) \<Rightarrow> 'a jstate_scheme storage_port option \<Rightarrow> recovery_item
     \<Rightarrow> 'a jstate_scheme \<Rightarrow> retry_step \<times> 'a jstate_scheme"
where
  "retry_storage_item sha strip port i w =
     (case time_now w of (t, w0) \<Rightarrow>
     (case append_event sha (retry_request ''storage'' i t) w0 of
        (Some e, w1) \<Rightarrow> (Stop e, w1)
      | (None, w1) \<Rightarrow>
     (case retry_storage sha port i w1 of
        (Inl e, w2) \<Rightarrow>
          (case time_now w2 of (t2, w3) \<Rightarrow>
             or_stop Skipped (append_attempt sha strip
               (retry_attempt ''storage'' ''storage-retry'' i ''failed'' (safe_diagnostic strip (err_text e)) t2) w3))
      | (Inr r, w2) \<Rightarrow> record_retry sha strip i (result_for_journal strip r) w2)))"

definition in_scope :: "bool \<Rightarrow> recovery_item \<Rightarrow> bool" where
  "in_scope storage i =
     (if storage then ri_state i \<in> {SyncPending, PrerequisiteMissing}
      else ri_state i \<in> {GraphResolutionPending, GraphSyncPending})"

text \<open>The loop; the result is the error that ends the command, how many items count and the items it came to.\<close>

fun retry_all ::
  "(recovery_item \<Rightarrow> 'w \<Rightarrow> retry_step \<times> 'w) \<Rightarrow> recovery_item list \<Rightarrow> 'w \<Rightarrow> (err option \<times> nat) \<times> 'w" where
  "retry_all step [] w = ((None, 0), w)"
| "retry_all step (i # is) w =
     (case step i w of
        (Stop e, w1) \<Rightarrow> ((Some e, 0), w1)
      | (s, w1) \<Rightarrow>
         (case retry_all step is w1 of
            ((e, n), w2) \<Rightarrow> ((e, if s = Counted then Suc n else n), w2)))"

definition shutdown_result :: "(string \<Rightarrow> string option) \<Rightarrow> recovery_item \<Rightarrow> string \<Rightarrow> err \<Rightarrow> storage_result" where
  "shutdown_result strip i event_id cause =
     zero_result\<lparr>sr_event_id := event_id, sr_state := SyncPending, sr_backend := ri_backend i, sr_provider := ri_provider i,
       sr_key := ri_key i, sr_remote_id := ri_remote_id i, sr_remote_url := ri_remote_url i,
       sr_remote_rev := ri_remote_revision i, sr_failure_class := FailureTransient,
       sr_error := safe_diagnostic strip (err_text cause), sr_cause := Some cause\<rparr>"

definition journal_shutdown_failure ::
  "(string \<Rightarrow> string) \<Rightarrow> (string \<Rightarrow> string option) \<Rightarrow> err \<Rightarrow> recovery_item \<Rightarrow> 'a jstate_scheme
     \<Rightarrow> err option \<times> 'a jstate_scheme"
where
  "journal_shutdown_failure sha strip cause i w =
     (case time_now w of (t, w1) \<Rightarrow>
     (let event_id = ri_saga_id i @ '':storage-shutdown:'' @ int_text t in
      case append_attempt sha strip \<lparr>ha_event_id = event_id, ha_saga_id = ri_saga_id i, ha_handler_id = ''storage-shutdown'',
             ha_attempted_at = t, ha_outcome = ''failed'', ha_error = safe_diagnostic strip (err_text cause)\<rparr> w1 of
        (Some e, w2) \<Rightarrow> (Some e, w2)
      | (None, w2) \<Rightarrow>
          append_event sha (saga_event event_id ''storage.sync.pending'' t (ri_repository_id i) (ri_saga_id i) (ri_event_id i)
            (enc_result (shutdown_result strip i event_id cause))) w2))"

fun journal_shutdown_failures ::
  "(string \<Rightarrow> string) \<Rightarrow> (string \<Rightarrow> string option) \<Rightarrow> err \<Rightarrow> recovery_item list \<Rightarrow> 'a jstate_scheme
     \<Rightarrow> err option \<times> 'a jstate_scheme"
where
  "journal_shutdown_failures sha strip cause [] w = (None, w)"
| "journal_shutdown_failures sha strip cause (i # is) w =
     (case journal_shutdown_failure sha strip cause i w of
        (Some e, w1) \<Rightarrow> (Some e, w1)
      | (None, w1) \<Rightarrow> journal_shutdown_failures sha strip cause is w1)"

text \<open>The life cycle of a provider that has one.\<close>

record 'w command_life =
  lf_begin :: "'w \<Rightarrow> 'w"
  lf_end :: "'w \<Rightarrow> err option \<times> 'w"

definition retry_line :: "string \<Rightarrow> nat \<Rightarrow> string" where
  "retry_line scope n = ''Retry requested for '' @ scope @ '' synchronization for '' @ nat_text n
     @ '' saga(s). External effects require the configured adapter.'' @ [newline]"

definition shutdown_line :: "nat \<Rightarrow> string \<Rightarrow> string" where
  "shutdown_line n diagnostic = ''MCP shutdown failed after the storage retry and was journaled for '' @ nat_text n
     @ '' saga(s): '' @ diagnostic @ [newline]"

text \<open>The items that the loop has gone into: all of them, unless an error ends it, and then the command returns.\<close>

definition retry_command ::
  "(string \<Rightarrow> string) \<Rightarrow> (string \<Rightarrow> string option)
     \<Rightarrow> ('a gstate_scheme \<Rightarrow> ('a gstate_scheme storage_port option \<times> 'a gstate_scheme command_life option) \<times> 'a gstate_scheme)
     \<Rightarrow> bool \<Rightarrow> bool \<Rightarrow> 'a gstate_scheme \<Rightarrow> (string \<times> err option) \<times> 'a gstate_scheme"
where
  "retry_command sha strip setup graph storage w =
     (if graph = storage then (([], Some (new_err ''sync retry requires exactly one of --graph or --storage'')), w)
      else
     (case inspect_recovery sha strip w of
        (Inl e, w1) \<Rightarrow> (([], Some e), w1)
      | (Inr items, w1) \<Rightarrow>
     (case (if storage then setup w1 else ((None, None), w1)) of
        ((port, life), w2) \<Rightarrow>
     (let todo = filter (in_scope storage) items;
          w3 = (case life of Some l \<Rightarrow> lf_begin l w2 | None \<Rightarrow> w2) in
      case retry_all (if storage then retry_storage_item sha strip port else retry_graph_item sha strip) todo w3 of
        ((Some e, n), w4) \<Rightarrow> (([], Some e), case life of Some l \<Rightarrow> snd (lf_end l w4) | None \<Rightarrow> w4)
      | ((None, n), w4) \<Rightarrow>
         (let done_line = retry_line (if storage then ''storage'' else ''graph'') n in
          case (case life of Some l \<Rightarrow> lf_end l w4 | None \<Rightarrow> (None, w4)) of
            (None, w5) \<Rightarrow> ((done_line, None), w5)
          | (Some cause, w5) \<Rightarrow>
             (case journal_shutdown_failures sha strip cause todo w5 of
                (Some e, w6) \<Rightarrow> (([], Some e), w6)
              | (None, w6) \<Rightarrow>
                  ((shutdown_line (length todo) (safe_diagnostic strip (err_text cause)) @ done_line, None), w6)))))))"

section \<open>Resolving\<close>

record resolve_flags =
  rf_local :: string
  rf_remote :: string
  rf_keep_local :: bool
  rf_keep_remote :: bool
  rf_revision :: string
  rf_root :: string
  rf_arguments :: "string list"

definition diff_text :: "string \<Rightarrow> string \<Rightarrow> string \<Rightarrow> string" where
  "diff_text saga here there = ''Conflict '' @ saga @ [newline] @ ''--- local'' @ [newline] @ here @ [newline]
     @ ''--- remote'' @ [newline] @ there @ [newline]"

record resolve_plan =
  pl_allocated :: bool
  pl_diary :: session_diary
  pl_item :: recovery_item
  pl_shown :: string

text \<open>Everything before the port is asked for: what is printed, and an error or the plan.\<close>

definition plan_resolution ::
  "(string \<Rightarrow> string) \<Rightarrow> (string \<Rightarrow> string option) \<Rightarrow> (string \<Rightarrow> string res) \<Rightarrow> string \<Rightarrow> 'a jstate_scheme
     \<Rightarrow> resolve_plan res \<times> 'a jstate_scheme"
where
  "plan_resolution sha strip files saga w =
     (case diary_from_saga sha saga w of
        (Inl e, w1) \<Rightarrow> (Inl e, w1)
      | (Inr (al, d), w1) \<Rightarrow>
     (case inspect_recovery sha strip w1 of
        (Inl e, w2) \<Rightarrow> (Inl e, w2)
      | (Inr items, w2) \<Rightarrow>
         ((case find (\<lambda>i. ri_saga_id i = saga \<and> ri_state i = SyncConflict) items of
             None \<Rightarrow> Inl (new_err ''sync resolve requires a persisted storage conflict with offline diff evidence'')
           | Some i \<Rightarrow>
               if ri_conflict_snapshot i = []
               then Inl (new_err ''sync resolve requires a persisted storage conflict with offline diff evidence'')
               else
              (case files (ri_conflict_snapshot i) of
                 Inl e \<Rightarrow> Inl (wrap_with ''read remote conflict snapshot'' e)
               | Inr there \<Rightarrow> Inr \<lparr>pl_allocated = al, pl_diary = d, pl_item = i,
                   pl_shown = diff_text saga (render_diary al d) there\<rparr>)), w2)))"

text \<open>The checks after the diff is printed.\<close>

definition resolution_problem :: "bool \<Rightarrow> string \<Rightarrow> recovery_item \<Rightarrow> err option" where
  "resolution_problem has_resolver revision i =
     (if \<not> has_resolver
      then Some (new_err ''sync resolve requires --local-file and --remote-file, or a configured storage adapter'')
      else if revision \<noteq> [] \<and> revision \<noteq> ri_remote_revision i
      then Some (new_err ''--revision does not match the revision persisted with the displayed conflict'')
      else if ri_remote_revision i = []
      then Some (new_err ''storage conflict does not contain an observed remote revision'')
      else None)"

definition resolve_attempt :: "string \<Rightarrow> string \<Rightarrow> string \<Rightarrow> int \<Rightarrow> handler_attempt" where
  "resolve_attempt saga outcome er t =
     \<lparr>ha_event_id = saga @ '':storage-resolve'', ha_saga_id = saga, ha_handler_id = ''storage-resolve'',
      ha_attempted_at = t, ha_outcome = outcome, ha_error = er\<rparr>"

definition unresolved_err :: err where
  "unresolved_err = new_err ''storage conflict remains unresolved''"

text \<open>What is journaled of the result of a resolution, and the error of the command.\<close>

definition record_resolution ::
  "(string \<Rightarrow> string) \<Rightarrow> (string \<Rightarrow> string option) \<Rightarrow> string \<Rightarrow> string \<Rightarrow> string \<Rightarrow> storage_result \<Rightarrow> 'a jstate_scheme
     \<Rightarrow> err option \<times> 'a jstate_scheme"
where
  "record_resolution sha strip saga repository cause r w =
     (case time_now w of (t, w1) \<Rightarrow>
      if sr_state r \<noteq> Mirrored then
        (if sr_error r \<noteq> [] then
          (case append_attempt sha strip (resolve_attempt saga ''failed'' (sr_error r) t) w1 of
             (Some e, w2) \<Rightarrow> (Some e, w2)
           | (None, w2) \<Rightarrow>
             (case time_now w2 of (t2, w3) \<Rightarrow>
             (case append_event sha (saga_event (saga @ '':storage-resolve-result'') (storage_event_type (sr_state r)) t2
                     repository saga (saga @ '':storage-resolve'') (enc_result r)) w3 of
                (Some e, w4) \<Rightarrow> (Some e, w4)
              | (None, w4) \<Rightarrow> (Some (new_err (sr_error r)), w4))))
         else (Some unresolved_err,
               snd (append_attempt sha strip (resolve_attempt saga ''failed'' ''storage conflict remains unresolved'' t) w1)))
      else
       (case append_attempt sha strip (resolve_attempt saga ''succeeded'' [] t) w1 of
          (Some e, w2) \<Rightarrow> (Some e, w2)
        | (None, w2) \<Rightarrow>
           (case time_now w2 of (t2, w3) \<Rightarrow>
              append_event sha (saga_event (saga @ '':storage-resolved'') ''storage.sync.resolved'' t2 repository saga cause
                (enc_result r)) w3)))"

definition resolve_saga ::
  "(string \<Rightarrow> string) \<Rightarrow> (string \<Rightarrow> string option) \<Rightarrow> (string \<Rightarrow> string res)
     \<Rightarrow> ('a jstate_scheme \<Rightarrow> 'a jstate_scheme storage_port option \<times> 'a jstate_scheme)
     \<Rightarrow> bool \<Rightarrow> string \<Rightarrow> string \<Rightarrow> 'a jstate_scheme \<Rightarrow> (string \<times> err option) \<times> 'a jstate_scheme"
where
  "resolve_saga sha strip files setup keep_local revision saga w =
     (let choice = (if keep_local then KeepLocal else KeepRemote) in
      case plan_resolution sha strip files saga w of
        (Inl e, w1) \<Rightarrow> (([], Some e), w1)
      | (Inr pl, w1) \<Rightarrow>
     (case setup w1 of
        (port, w2) \<Rightarrow>
     (let resolver = (case port of None \<Rightarrow> None | Some p \<Rightarrow> sp_resolve p) in
      case resolution_problem (resolver \<noteq> None) revision (pl_item pl) of
        Some e \<Rightarrow> ((pl_shown pl, Some e), w2)
      | None \<Rightarrow>
         (case the resolver (pl_allocated pl) (pl_diary pl) choice (ri_remote_revision (pl_item pl)) w2 of
            (r, w3) \<Rightarrow>
         (case record_resolution sha strip saga (sd_repository_id (pl_diary pl)) (ri_event_id (pl_item pl))
                 (result_for_journal strip r) w3 of
            (Some e, w4) \<Rightarrow> ((pl_shown pl, Some e), w4)
          | (None, w4) \<Rightarrow> ((pl_shown pl @ ''Resolution recorded: '' @ choice @ ''.'' @ [newline], None), w4))))))"

definition resolve_command ::
  "(string \<Rightarrow> string) \<Rightarrow> (string \<Rightarrow> string option) \<Rightarrow> (string \<Rightarrow> string res)
     \<Rightarrow> ('a jstate_scheme \<Rightarrow> 'a jstate_scheme storage_port option \<times> 'a jstate_scheme)
     \<Rightarrow> resolve_flags \<Rightarrow> 'a jstate_scheme \<Rightarrow> (string \<times> err option) \<times> 'a jstate_scheme"
where
  "resolve_command sha strip files setup q w =
     (if length (rf_arguments q) \<noteq> 1 then (([], Some (new_err ''sync resolve requires a conflict id'')), w)
      else if rf_keep_local q = rf_keep_remote q
      then (([], Some (new_err ''sync resolve requires exactly one of --keep-local or --keep-remote'')), w)
      else if rf_local q = [] \<and> rf_remote q = [] then
        (case new_saga_journal (path_text (join_text (rf_root q) ''journal'')) w of
           (Some e, w1) \<Rightarrow> (([], Some e), w1)
         | (None, w1) \<Rightarrow> resolve_saga sha strip files setup (rf_keep_local q) (rf_revision q) (hd (rf_arguments q)) w1)
      else if rf_local q = [] \<or> rf_remote q = []
      then (([], Some (new_err ''sync resolve requires --local-file and --remote-file to display a diff'')), w)
      else
     (case files (rf_local q) of
        Inl e \<Rightarrow> (([], Some e), w)
      | Inr here \<Rightarrow>
     (case files (rf_remote q) of
        Inl e \<Rightarrow> (([], Some e), w)
      | Inr there \<Rightarrow>
          ((diff_text (hd (rf_arguments q)) here there
              @ (if rf_keep_remote q then ''Resolution recorded: keep-remote.'' else ''Resolution recorded: keep-local.'') @ [newline],
            None), w))))"

end
