(* ===== verification/Sync_Facts.thy ===== *)
theory Sync_Facts
  imports Sync_Commands
begin

text \<open>
  Properties of the commands on obligations: a resolution acts on the evidence that is persisted, what is recorded of an
  outcome decides what recovery shows next, and the diary that a retry reads back from the journal is not always the diary that the close mirrored.
\<close>

section \<open>Reading\<close>

lemma diary_from_saga_frame: "diary_from_saga sha saga w = (r, w') \<Longrightarrow> \<exists>fs. w' = w\<lparr>faults := fs\<rparr>"
  unfolding diary_from_saga_def by (auto split: prod.splits sum.splits dest!: read_saga_frame)

lemma inspect_recovery_frame: "inspect_recovery sha strip w = (r, w') \<Longrightarrow> \<exists>fs. w' = w\<lparr>faults := fs\<rparr>"
  unfolding inspect_recovery_def
  by (auto split: prod.splits sum.splits dest!: list_sagas_frame inspect_sagas_frame)

lemma plan_resolution_frame:
  "plan_resolution sha strip files saga w = (r, w') \<Longrightarrow> \<exists>fs. w' = w\<lparr>faults := fs\<rparr>"
  unfolding plan_resolution_def
  by (auto split: prod.splits sum.splits dest!: diary_from_saga_frame inspect_recovery_frame)

text \<open>A plan is made of what the journal and the snapshot hold.\<close>

lemma plan_resolution_evidence:
  assumes "plan_resolution sha strip files saga w = (Inr pl, w')"
  shows "\<exists>w1 items there. diary_from_saga sha saga w = (Inr (pl_allocated pl, pl_diary pl), w1)
     \<and> inspect_recovery sha strip w1 = (Inr items, w') \<and> pl_item pl \<in> set items
     \<and> ri_saga_id (pl_item pl) = saga \<and> ri_state (pl_item pl) = SyncConflict
     \<and> ri_conflict_snapshot (pl_item pl) \<noteq> [] \<and> files (ri_conflict_snapshot (pl_item pl)) = Inr there
     \<and> pl_shown pl = diff_text saga (render_diary (pl_allocated pl) (pl_diary pl)) there"
proof -
  obtain al d w1 where 1: "diary_from_saga sha saga w = (Inr (al, d), w1)"
    using assms by (auto simp: plan_resolution_def split: prod.splits sum.splits)
  obtain items where 2: "inspect_recovery sha strip w1 = (Inr items, w')"
    using assms 1 by (auto simp: plan_resolution_def split: prod.splits sum.splits)
  obtain i where 3: "find (\<lambda>i. ri_saga_id i = saga \<and> ri_state i = SyncConflict) items = Some i"
    using assms 1 2 by (auto simp: plan_resolution_def split: option.splits)
  from 3 have i: "i \<in> set items" "ri_saga_id i = saga" "ri_state i = SyncConflict"
    by (auto simp: find_Some_iff)
  from assms 1 2 3 i show ?thesis
    by (auto simp: plan_resolution_def split: sum.splits if_splits)
qed

text \<open>C7: a resolution never acts on anything but the conflict that is on record. Either
  the command fails and has done nothing but set the port up, or the saga had a conflict with an observed revision and a snapshot
  that could be read; what was printed is the diary of the journal beside that snapshot, the flag for the revision was absent or agreed
  with it, and the port was asked once, for that diary, the choice of the flags and exactly the persisted revision.\<close>

theorem resolve_uses_persisted_evidence:
  assumes "resolve_saga sha strip files setup keep_local revision saga w = ((out, e), w')"
  shows "(e \<noteq> None \<and> (\<exists>fs. w' = w\<lparr>faults := fs\<rparr> \<or> w' = snd (setup (w\<lparr>faults := fs\<rparr>))))
    \<or> (\<exists>p resolver al d items i there v fs v2 r v3.
         diary_from_saga sha saga w = (Inr (al, d), v) \<and> inspect_recovery sha strip v = (Inr items, w\<lparr>faults := fs\<rparr>)
         \<and> i \<in> set items \<and> ri_saga_id i = saga \<and> ri_state i = SyncConflict
         \<and> files (ri_conflict_snapshot i) = Inr there \<and> prefix (diff_text saga (render_diary al d) there) out
         \<and> ri_remote_revision i \<noteq> [] \<and> revision \<in> {[], ri_remote_revision i}
         \<and> setup (w\<lparr>faults := fs\<rparr>) = (Some p, v2) \<and> sp_resolve p = Some resolver
         \<and> resolver al d (if keep_local then KeepLocal else KeepRemote) (ri_remote_revision i) v2 = (r, v3)
         \<and> record_resolution sha strip saga (sd_repository_id d) (ri_event_id i) (result_for_journal strip r) v3 = (e, w'))"
proof -
  obtain pl v1 where 1: "plan_resolution sha strip files saga w = (pl, v1)" by (metis surj_pair)
  from plan_resolution_frame [OF 1] obtain fs where fs: "v1 = w\<lparr>faults := fs\<rparr>" by blast
  show ?thesis
  proof (cases pl)
    case (Inl x)
    with assms 1 fs show ?thesis by (auto simp: resolve_saga_def Let_def)
  next
    case (Inr q)
    note ev = plan_resolution_evidence [OF 1 [unfolded Inr]]
    obtain port v2 where 2: "setup v1 = (port, v2)" by (metis surj_pair)
    let ?resolver = "case port of None \<Rightarrow> None | Some p \<Rightarrow> sp_resolve p"
    show ?thesis
    proof (cases "resolution_problem (?resolver \<noteq> None) revision (pl_item q)")
      case (Some x)
      with assms 1 Inr 2 have "e = Some x" "w' = v2" by (simp_all add: resolve_saga_def Let_def)
      moreover from this(2) 2 fs have "w' = snd (setup (w\<lparr>faults := fs\<rparr>))" by simp
      ultimately show ?thesis by blast
    next
      case None
      then obtain resolver where "?resolver = Some resolver"
        and rev': "ri_remote_revision (pl_item q) \<noteq> []" "revision \<in> {[], ri_remote_revision (pl_item q)}"
        by (auto simp: resolution_problem_def split: if_splits)
      then obtain p where p: "port = Some p" "sp_resolve p = Some resolver" by (auto split: option.splits)
      obtain r v3 where 3: "resolver (pl_allocated q) (pl_diary q) (if keep_local then KeepLocal else KeepRemote)
          (ri_remote_revision (pl_item q)) v2 = (r, v3)"
        by (metis surj_pair)
      obtain e' w3 where 4: "record_resolution sha strip saga (sd_repository_id (pl_diary q)) (ri_event_id (pl_item q))
          (result_for_journal strip r) v3 = (e', w3)"
        by (metis surj_pair)
      from assms 1 Inr 2 p 3 4 None have "e' = e" "w3 = w'" "prefix (pl_shown q) out"
        by (auto simp: resolve_saga_def Let_def split: option.splits)
      with ev rev' 2 p 3 4 fs show ?thesis by metis
    qed
  qed
qed

lemma payload_not_allocated: "sd_code_references d = [] \<Longrightarrow> \<not> payload_allocated (enc_diary d)"
  by (simp add: payload_allocated_def enc_diary_def equal_fold_def opt_arr_def [of "''code_references''"])

text \<open>A saga with a conflict, and a provider that takes any choice.\<close>

definition conflict_diary :: session_diary where
  "conflict_diary = zero_diary\<lparr>sd_session_id := ''s'', sd_repository_id := ''o/r'', sd_title := ''T''\<rparr>"

definition conflict_event :: event where
  "conflict_event = saga_event ''e2'' ''storage.sync.conflict'' 2 ''o/r'' ''s'' ''s''
     (enc_result (zero_result\<lparr>sr_state := SyncConflict, sr_remote_rev := ''r2'', sr_conflict_snapshot := ''snap''\<rparr>))"

definition conflict_journal :: jstate where
  "conflict_journal = empty_journal\<lparr>entries := [(''s.jsonl'', File \<lparr>seg_lines =
     [Line (enc_record (event_record (session_closed_event conflict_diary))), Line (enc_record (event_record conflict_event))],
     seg_open = False\<rparr>)]\<rparr>"

definition taking_port :: "jstate storage_port" where
  "taking_port = \<lparr>sp_mirror = (\<lambda>al d w. (zero_result, w)), sp_preflight = None, sp_mirror_event = None, sp_recover_event = None,
     sp_resolve = Some (\<lambda>al d choice revision w. (zero_result\<lparr>sr_state := Mirrored, sr_remote_rev := revision\<rparr>, w))\<rparr>"

lemma conflict_records:
  "journalable (event_record (session_closed_event conflict_diary))" "journalable (event_record conflict_event)"
proof -
  have "length (json_text (enc_record (event_record (session_closed_event conflict_diary)))) < 1000"
    "length (json_text (enc_record (event_record conflict_event))) < 1000" by code_simp+
  then show "journalable (event_record (session_closed_event conflict_diary))" "journalable (event_record conflict_event)"
    by (simp_all add: journalable_def max_line_def record_ok_def event_record_def session_closed_event_def conflict_event_def
        saga_event_def int64_def)
qed

lemma conflict_journal_reads:
  "read_saga (\<lambda>s. s) ''s'' conflict_journal
     = (Inr [event_record (session_closed_event conflict_diary), event_record conflict_event], conflict_journal)"
  "list_sagas conflict_journal = (Inr [''s''], conflict_journal)"
proof -
  let ?c = "event_record (session_closed_event conflict_diary)" and ?e = "event_record conflict_event"
  have "saga_segment (\<lambda>s. s) ''s'' conflict_journal = \<lparr>seg_lines = [Line (enc_record ?c)] @ [Line (enc_record ?e)], seg_open = False\<rparr>"
    by (simp add: saga_segment_def conflict_journal_def safe_segment_name_def)
  moreover have "read_lines ([Line (enc_record ?c)] @ [Line (enc_record ?e)]) = Inr [?c, ?e]"
    unfolding read_lines_snoc read_lines_record [OF conflict_records(1)] read_lines_record [OF conflict_records(2)] by simp
  ultimately have "saga_log (\<lambda>s. s) ''s'' conflict_journal = Some [?c, ?e]"
    by (simp add: saga_log_Some del: read_lines.simps append_Cons append_Nil)
  then show "read_saga (\<lambda>s. s) ''s'' conflict_journal = (Inr [?c, ?e], conflict_journal)"
    by (intro read_saga_calm) (simp_all add: conflict_journal_def safe_segment_name_def)
  have "parse_line (Line (enc_record ?c)) = Some ?c" "parse_line (Line (enc_record ?e)) = Some ?e"
    using conflict_records by (simp_all add: journalable_def dec_enc_record)
  moreover have "ev_saga_id (session_closed_event conflict_diary) = ''s''" "ev_saga_id conflict_event = ''s''"
    by (simp_all add: session_closed_event_def conflict_diary_def conflict_event_def saga_event_def)
  ultimately show "list_sagas conflict_journal = (Inr [''s''], conflict_journal)"
    by (simp add: list_sagas_def conflict_journal_def has_suffix_def map_build_def)
      (simp add: event_record_def map_build_def)
qed

lemma conflict_diary_reads: "dec_diary (enc_diary conflict_diary) = Some conflict_diary"
  using dec_enc_diary [of conflict_diary] by (simp add: diary_ok_def conflict_diary_def zero_diary_def stored_diary_def)

lemma conflict_journal_diary:
  "diary_from_saga (\<lambda>s. s) ''s'' conflict_journal = (Inr (False, conflict_diary), conflict_journal)"
proof -
  have "sd_code_references conflict_diary = []" by (simp add: conflict_diary_def zero_diary_def)
  with conflict_diary_reads have "record_diary (event_record (session_closed_event conflict_diary)) = Some (False, conflict_diary)"
    by (simp add: record_diary_def session_closed_event_def event_record_def payload_not_allocated)
  then show ?thesis by (simp add: diary_from_saga_def conflict_journal_reads)
qed

lemma conflict_journal_items:
  "\<exists>i. inspect_recovery (\<lambda>s. s) (\<lambda>u. None) conflict_journal = (Inr [i], conflict_journal) \<and> ri_saga_id i = ''s''
     \<and> ri_state i = SyncConflict \<and> ri_conflict_snapshot i = ''snap'' \<and> ri_remote_revision i = ''r2''"
proof -
  have "payload_diary (session_closed_event conflict_diary) = Some conflict_diary" "sd_graph_state conflict_diary = []"
    "ev_type (session_closed_event conflict_diary) = ''session.closed''"
    by (simp_all add: payload_diary_def session_closed_event_def conflict_diary_reads) (simp add: conflict_diary_def zero_diary_def)
  moreover have "payload_result conflict_event = Some (zero_result\<lparr>sr_state := SyncConflict, sr_remote_rev := ''r2'',
        sr_conflict_snapshot := ''snap''\<rparr>)" "ev_type conflict_event = ''storage.sync.conflict''"
    by (simp_all add: payload_result_def conflict_event_def saga_event_def dec_enc_result)
      (simp add: durable_result_def zero_result_def)
  ultimately show ?thesis
    by (simp add: inspect_recovery_def conflict_journal_reads saga_items_def scan_records_def start_scan_def scan_storage_def
        scan_closed_def storage_items_def handler_items_def graph_items_def apply_storage_recovery_def Let_def SyncConflict_def
        GraphResolutionPending_def GraphSyncPending_def new_item_def zero_result_def)
qed

lemma conflict_recordable:
  "fst (record_resolution (\<lambda>s. s) (\<lambda>u. None) ''s'' ''o/r'' c (result_for_journal (\<lambda>u. None) (zero_result\<lparr>sr_state := Mirrored,
     sr_remote_rev := ''r2''\<rparr>)) conflict_journal) = None"
proof -
  have "faults conflict_journal = []" "map_of (entries conflict_journal) (safe_segment_name (\<lambda>s. s) ''s'') \<noteq> Some Subdir"
    by (simp_all add: conflict_journal_def empty_journal_def safe_segment_name_def)
  then show ?thesis
    by (simp add: record_resolution_def time_now_def resolve_attempt_def saga_event_def append_attempt_def append_event_def
        validate_attempt_def validate_event_def append_record_calm Let_def result_for_journal_def Mirrored_def zero_result_def
        is_zero_time_def conflict_journal_def empty_journal_def)
qed

theorem resolve_uses_persisted_evidence_witness:
  "\<exists>out w' here. resolve_saga (\<lambda>s. s) (\<lambda>u. None) (\<lambda>p. Inr ''there'') (Pair (Some taking_port)) True ''r2'' ''s'' conflict_journal
       = ((out, None), w') \<and> prefix (diff_text ''s'' here ''there'') out"
proof -
  obtain i where i: "inspect_recovery (\<lambda>s. s) (\<lambda>u. None) conflict_journal = (Inr [i], conflict_journal)" "ri_saga_id i = ''s''"
      "ri_state i = SyncConflict" "ri_conflict_snapshot i = ''snap''" "ri_remote_revision i = ''r2''"
    using conflict_journal_items by auto
  let ?r = "result_for_journal (\<lambda>u. None) (zero_result\<lparr>sr_state := Mirrored, sr_remote_rev := ''r2''\<rparr>)"
  have "sd_repository_id conflict_diary = ''o/r''" by (simp add: conflict_diary_def)
  moreover obtain w' where "record_resolution (\<lambda>s. s) (\<lambda>u. None) ''s'' ''o/r'' (ri_event_id i) ?r conflict_journal = (None, w')"
    using conflict_recordable [of "ri_event_id i"] by (metis prod.collapse)
  ultimately obtain out where run:
      "resolve_saga (\<lambda>s. s) (\<lambda>u. None) (\<lambda>p. Inr ''there'') (Pair (Some taking_port)) True ''r2'' ''s'' conflict_journal = ((out, None), w')"
    by (simp add: resolve_saga_def plan_resolution_def conflict_journal_diary i taking_port_def
        resolution_problem_def Let_def)
  from resolve_uses_persisted_evidence [OF run] have "\<exists>here. prefix (diff_text ''s'' here ''there'') out" by auto
  with run show ?thesis by blast
qed

section \<open>Outcomes\<close>

lemma append_event_ok:
  assumes "append_event sha e w = (None, w')" "journalable (event_record e)" "saga_log sha (ev_saga_id e) w = Some rs"
  shows "saga_log sha (ev_saga_id e) w' = Some (rs @ [event_record e])"
proof -
  from assms(1) have "append_record sha (ev_saga_id e) (event_record e) w = (None, w')"
    by (simp add: append_event_def split: option.splits)
  then show ?thesis by (rule sj.append_success [OF _ assms(2,3)])
qed

lemma append_attempt_clock:
  fixes w :: "'a jstate_scheme"
  assumes "append_attempt sha strip a w = (r, w')"
  shows "clock w' = clock w \<and> reads w' = reads w"
proof -
  have *: "clock w' = clock w \<and> reads w' = reads w"
    if "w'\<lparr>faults := faults w, entries := entries w\<rparr> = w" for w w' :: "'a jstate_scheme"
    using arg_cong [OF that, of clock] arg_cong [OF that, of reads] by simp
  show ?thesis
    using assms unfolding append_attempt_def Let_def
    by (auto split: option.splits dest!: append_record_frame simp: only_entry_def intro!: * [THEN conjunct1] * [THEN conjunct2])
qed

text \<open>An attempt and then an event of one saga.\<close>

lemma attempt_then_event:
  fixes w :: "'a jstate_scheme"
  assumes "append_attempt sha strip a w = (None, w1)" "time_now w1 = (t, w2)" "append_event sha (e t) w2 = (None, w')"
    "ha_saga_id a = saga" "ev_saga_id (e t) = saga" "saga_log sha saga w = Some rs"
    "journalable (attempt_record (sanitised strip a))" "journalable (event_record (e (clock w (reads w))))"
  shows "saga_log sha saga w' = Some ((rs @ [attempt_record (sanitised strip a)]) @ [event_record (e (clock w (reads w)))])"
proof -
  from assms(2) append_attempt_clock [OF assms(1)] have t: "t = clock w (reads w)" "saga_log sha saga w2 = saga_log sha saga w1"
    by (auto simp: time_now_def)
  from append_attempt_ok [OF assms(1,7)] assms(4,6) t(2)
  have "saga_log sha saga w2 = Some (rs @ [attempt_record (sanitised strip a)])" by simp
  with append_event_ok [OF assms(3)] assms(5,8) t(1) show ?thesis by simp
qed

text \<open>What recovery shows when the last storage event of a saga is that of a result.\<close>

lemma event_of_result_decides:
  assumes "ev_type e = storage_event_type (sr_state r)" "ev_payload e = Some (enc_result r)"
    "items = saga_items strip saga (rs @ [event_record e])"
  shows "if sr_state r = Mirrored then \<forall>it \<in> set items. ri_state it \<in> {''HandlerPending'', [], GraphResolutionPending, GraphSyncPending}
    else \<exists>it \<in> set items. ri_saga_id it = saga \<and> ri_state it = sr_state r \<and> ri_remote_revision it = sr_remote_rev r"
proof (cases "sr_state r = Mirrored")
  case True
  then have "ev_type e = ''storage.sync.succeeded''" using assms(1) by (simp add: storage_event_type_def)
  with assms(3) scan_graph_state [of saga "rs @ [event_record e]"] resolved_storage_is_silent [of e "[]" _ strip saga rs]
  have "\<forall>it \<in> set items. ri_state it \<in> {''HandlerPending'', [], GraphResolutionPending, GraphSyncPending}" by fastforce
  with True show ?thesis by simp
next
  case False
  then have "ev_type e \<in> {''storage.sync.pending'', ''storage.sync.conflict'', ''storage.prerequisite.missing''}"
    using assms(1) by (simp add: storage_event_type_def)
  moreover have "payload_result e = Some (durable_result r)" using assms(2) by (simp add: payload_result_def dec_enc_result)
  ultimately show ?thesis
    using storage_surfaced [of e "durable_result r" "[]" strip saga rs] False assms(3) by (auto simp: durable_result_def)
qed

text \<open>C6: what is journaled of an explicit retry decides the obligation. When a retry has
  been counted, the log of the saga has the attempt and the event of the result after everything that it held, and from
  then on inspection shows no storage obligation of that saga if the result was mirrored, and otherwise one that has
  exactly the state and the remote revision of the result.\<close>

theorem recorded_outcome_decides_obligation:
  assumes "record_retry sha strip i r w = (Counted, w')" "saga_log sha (ri_saga_id i) w = Some rs"
    "journalable (attempt_record (sanitised strip (result_attempt i r (clock w (reads w)))))"
    "journalable (event_record (retry_outcome i r (clock w (Suc (reads w)))))"
  shows "\<exists>items log. saga_log sha (ri_saga_id i) w' = Some (rs @ log) \<and> length log = 2
    \<and> items = saga_items strip (ri_saga_id i) (rs @ log)
    \<and> (if sr_state r = Mirrored then \<forall>it \<in> set items. ri_state it \<in> {''HandlerPending'', [], GraphResolutionPending, GraphSyncPending}
       else \<exists>it \<in> set items. ri_saga_id it = ri_saga_id i \<and> ri_state it = sr_state r
          \<and> ri_remote_revision it = sr_remote_rev r)"
proof -
  let ?v = "w\<lparr>reads := Suc (reads w)\<rparr>" and ?a = "result_attempt i r (clock w (reads w))"
  obtain w1 t w2 where 1: "append_attempt sha strip ?a ?v = (None, w1)" "time_now w1 = (t, w2)"
      "append_event sha (retry_outcome i r t) w2 = (None, w')"
    using assms(1) by (auto simp: record_retry_def or_stop_def time_now_def split: prod.splits option.splits)
  have ids: "ha_saga_id ?a = ri_saga_id i" "ev_saga_id (retry_outcome i r t) = ri_saga_id i"
    by (simp_all add: result_attempt_def retry_attempt_def retry_outcome_def saga_event_def)
  have log: "saga_log sha (ri_saga_id i) w' = Some ((rs @ [attempt_record (sanitised strip ?a)])
      @ [event_record (retry_outcome i r (clock w (Suc (reads w))))])"
    using attempt_then_event [of sha strip ?a ?v w1 t w2 "retry_outcome i r" w' "ri_saga_id i" rs, OF 1 ids] assms(2-4)
    by simp
  let ?e = "retry_outcome i r (clock w (Suc (reads w)))"
  let ?log = "[attempt_record (sanitised strip ?a), event_record ?e]"
  have e: "ev_type ?e = storage_event_type (sr_state r)" "ev_payload ?e = Some (enc_result r)"
    by (simp_all add: retry_outcome_def saga_event_def)
  have "saga_items strip (ri_saga_id i) (rs @ ?log)
      = saga_items strip (ri_saga_id i) ((rs @ [attempt_record (sanitised strip ?a)]) @ [event_record ?e])" by simp
  note event_of_result_decides [OF e this]
  with log show ?thesis
    by (intro exI [of _ "saga_items strip (ri_saga_id i) (rs @ ?log)"] exI [of _ ?log]) simp
qed

definition conflict_item :: recovery_item where
  "conflict_item = (new_item ''s'')\<lparr>ri_event_id := ''e1'', ri_repository_id := ''o/r'', ri_state := SyncPending\<rparr>"

definition conflict_result :: storage_result where
  "conflict_result = zero_result\<lparr>sr_state := SyncConflict, sr_remote_rev := ''r2''\<rparr>"

lemma conflict_recorded:
  "record_retry (\<lambda>s. s) (\<lambda>u. None) conflict_item conflict_result empty_journal
     = (Counted, snd (record_retry (\<lambda>s. s) (\<lambda>u. None) conflict_item conflict_result empty_journal))"
  "journalable (attempt_record (sanitised (\<lambda>u. None) (result_attempt conflict_item conflict_result 1)))"
  "journalable (event_record (retry_outcome conflict_item conflict_result 2))"
proof -
  have "fst (record_retry (\<lambda>s. s) (\<lambda>u. None) conflict_item conflict_result empty_journal) = Counted" by code_simp
  then show "record_retry (\<lambda>s. s) (\<lambda>u. None) conflict_item conflict_result empty_journal
     = (Counted, snd (record_retry (\<lambda>s. s) (\<lambda>u. None) conflict_item conflict_result empty_journal))"
    by (metis prod.collapse)
  have "length (json_text (enc_record (attempt_record (sanitised (\<lambda>u. None) (result_attempt conflict_item conflict_result 1))))) < 1000"
    "length (json_text (enc_record (event_record (retry_outcome conflict_item conflict_result 2)))) < 1000" by code_simp+
  then show "journalable (attempt_record (sanitised (\<lambda>u. None) (result_attempt conflict_item conflict_result 1)))"
    "journalable (event_record (retry_outcome conflict_item conflict_result 2))"
    by (simp_all add: journalable_def max_line_def record_ok_def attempt_record_def event_record_def retry_outcome_def
        saga_event_def int64_def)
qed

theorem recorded_outcome_decides_obligation_witness:
  "\<exists>log. saga_log (\<lambda>s. s) ''s'' (snd (record_retry (\<lambda>s. s) (\<lambda>u. None) conflict_item conflict_result empty_journal)) = Some log
     \<and> length log = 2 \<and> (\<exists>it \<in> set (saga_items (\<lambda>u. None) ''s'' log). ri_state it = SyncConflict \<and> ri_remote_revision it = ''r2'')"
proof -
  have "saga_log (\<lambda>s. s) (ri_saga_id conflict_item) empty_journal = Some []"
    by (simp add: saga_log_def saga_segment_def empty_journal_def empty_segment_def)
  moreover have "clock empty_journal (reads empty_journal) = 1" "clock empty_journal (Suc (reads empty_journal)) = 2"
    "ri_saga_id conflict_item = ''s''" "sr_state conflict_result = SyncConflict" "sr_remote_rev conflict_result = ''r2''"
    "SyncConflict \<noteq> Mirrored"
    by (simp_all add: empty_journal_def conflict_item_def conflict_result_def new_item_def SyncConflict_def Mirrored_def)
  ultimately show ?thesis
    using recorded_outcome_decides_obligation [OF conflict_recorded(1), of "[]"] conflict_recorded(2,3) by auto
qed

section \<open>What a retry sends\<close>

lemma render_depends_on_allocation:
  assumes "sd_code_references d = []"
  shows "render_diary True d \<noteq> render_diary False (stored_diary d)"
  using assms by (simp add: render_diary_def front_matter_def bullets_def render_references_def stored_diary_def)

text \<open>The payload of the closed event leaves an empty reference list out, so a retry renders the references that the close
  rendered as \<open>[]\<close> as \<open>null\<close>: the same diary with another content, which no provider takes for the same.\<close>

theorem retried_diary_differs:
  assumes "diary_ok d" "sd_code_references d = []"
  shows "record_diary (event_record (session_closed_event d)) = Some (False, stored_diary d)
    \<and> render_diary True d \<noteq> render_diary False (stored_diary d)"
  using assms payload_not_allocated render_depends_on_allocation
  by (simp add: record_diary_def session_closed_event_def event_record_def dec_enc_diary)

text \<open>With two files the command prints that a resolution is recorded, and records nothing.\<close>

theorem file_resolution_records_nothing:
  assumes "resolve_command sha strip files setup q w = ((out, None), w')" "rf_local q \<noteq> []"
  shows "w' = w \<and> (\<exists>shown. out = shown @ ''Resolution recorded: '' @ (if rf_keep_remote q then KeepRemote else KeepLocal) @ ''.'' @ [newline])"
  using assms by (auto simp: resolve_command_def KeepRemote_def KeepLocal_def split: if_splits sum.splits)

end
