(* ===== verification/Close_Recovery.thy ===== *)
theory Close_Recovery
  imports Sync_Facts
begin

text \<open>
  The close and the recovery view together: what inspection shows after a close that ended anywhere, in success, in an
  error or with its process.
\<close>

lemma read_lines_records:
  assumes "read_lines ls = Inr rs" "\<forall>x \<in> set log. journalable x"
  shows "read_lines (ls @ map line_of log) = Inr (rs @ log)"
  using assms(2)
proof (induction log rule: rev_induct)
  case (snoc x log)
  then show ?case
    using read_lines_snoc_record [of x "ls @ map line_of log"] by (simp add: line_of_def [of x])
qed (simp add: assms(1))

text \<open>A saga that can be read holds only lines that fit.\<close>

lemma readable_records:
  assumes "read_lines (ls @ map line_of log) = Inr rs'" "\<forall>x \<in> set log. record_ok x"
  shows "\<forall>x \<in> set log. journalable x"
proof -
  have "line_fits l" if "read_lines ks = Inr rs" "l \<in> set ks" for ks l rs
    using that by (induction ks arbitrary: rs) (auto simp: Let_def split: if_splits option.splits sum.splits)
  then have "\<forall>l \<in> set (map line_of log). line_fits l" using assms(1) by auto
  with assms(2) show ?thesis by (simp add: journalable_def line_of_def)
qed

lemma saga_log_extended:
  assumes "saga_log sha s w = Some rs" "saga_log sha s w' = Some rs'"
    "saga_lines sha s w' = saga_lines sha s w @ map line_of log" "\<forall>x \<in> set log. record_ok x"
  shows "rs' = rs @ log"
proof -
  from assms(2,3) have r: "read_lines (saga_lines sha s w @ map line_of log) = Inr rs'"
    by (simp add: saga_log_Some saga_lines_def)
  from read_lines_records [OF _ readable_records [OF r assms(4)], of "saga_lines sha s w" rs] assms(1) r show ?thesis
    by (simp add: saga_log_Some saga_lines_def)
qed

lemma close_records_ok: "x \<in> set (close_records strip d intent t r t2 t3) \<Longrightarrow> record_ok x"
  by (auto simp: close_records_def storage_records_def record_ok_def event_record_def attempt_record_def session_closed_event_def
      intent_event_def outcome_of_def mirror_event_def int64_def split: if_splits)

text \<open>The intent alone, or with the attempt after it, is an obligation.\<close>

lemma intent_is_surfaced:
  assumes "sr_state intent = SyncPending" "list_all no_storage_event later"
  shows "\<exists>it \<in> set (saga_items strip saga (rs @ [event_record (intent_event d intent t)] @ later)).
    ri_saga_id it = saga \<and> ri_state it = SyncPending"
proof -
  have "payload_result (intent_event d intent t) = Some (durable_result intent)"
    by (simp add: payload_result_def intent_event_def mirror_event_def dec_enc_result)
  moreover have "ev_type (intent_event d intent t) = ''storage.sync.requested''"
    by (simp add: intent_event_def mirror_event_def)
  ultimately show ?thesis
    using storage_surfaced [of "intent_event d intent t" "durable_result intent" later strip saga rs] assms
    by (auto simp: durable_result_def)
qed

lemma attempt_is_silent: "no_storage_event (attempt_record a)"
  by (simp add: no_storage_event_def attempt_record_def)

text \<open>What is shown after the first records of a close.\<close>

lemma surfaced_after_intent:
  fixes k :: nat
  assumes "sr_state intent = SyncPending" "2 \<le> k" "log = take k (close_records strip d intent t r t2 t3)"
    "items = saga_items strip saga (rs @ log)"
  shows "(\<exists>it \<in> set items. ri_saga_id it = saga \<and> ri_state it \<in> {SyncPending, sr_state r})
    \<or> sr_state r = Mirrored \<and> last log = event_record (outcome_of d r t3)"
proof (cases "k \<le> 3 \<or> sr_already_in_progress r")
  case True
  then obtain later where "log = [event_record (session_closed_event d)] @ [event_record (intent_event d intent t)] @ later"
    "list_all no_storage_event later"
    using assms(2,3) by (cases "k = 2") (auto simp: close_records_def storage_records_def attempt_is_silent take_Cons' split: if_splits)
  with intent_is_surfaced [OF assms(1), of later strip saga "rs @ [event_record (session_closed_event d)]" d t] assms(4)
  show ?thesis by auto
next
  case False
  let ?before = "[event_record (session_closed_event d), event_record (intent_event d intent t),
      attempt_record (sanitised strip (mirror_attempt d r t2))]"
  from False have log: "log = ?before @ [event_record (outcome_of d r t3)]"
    using assms(3) by (simp add: close_records_def storage_records_def)
  have "ev_type (outcome_of d r t3) = storage_event_type (sr_state r)" "ev_payload (outcome_of d r t3) = Some (enc_result r)"
    by (simp_all add: outcome_of_def mirror_event_def)
  from event_of_result_decides [OF this, of items strip saga "rs @ ?before"] assms(4) log
  have "if sr_state r = Mirrored then True else \<exists>it \<in> set items. ri_saga_id it = saga \<and> ri_state it = sr_state r"
    by (auto split: if_splits)
  with log show ?thesis by (auto split: if_splits)
qed

text \<open>The saga of a close without error can be read when its lines are short.\<close>

lemma readable_close:
  assumes "publish_closed sha strip bus (Some p) al d w = ((dl, None), w')" "saga_log sha (sd_session_id d) w = Some rs"
    "subs_of bus ''session.closed'' = []" "port_keeps_segment sha (sd_session_id d) p"
    "\<forall>i \<in> set (sd_invocations d). safe_segment_name sha (ir_invocation_id i) \<noteq> safe_segment_name sha (sd_session_id d)"
    "list_all (\<lambda>l. case l of Line j \<Rightarrow> length (json_text j) < 2000 | _ \<Rightarrow> False) (saga_lines sha (sd_session_id d) w')"
  shows "\<exists>rs'. saga_log sha (sd_session_id d) w' = Some rs'"
proof -
  have c: "closed sha (sd_session_id d) w" using assms(2) by (simp add: saga_log_Some closed_def)
  from close_evidence [OF assms(1) c assms(3-5)] obtain intent t r t2 t3 where
    k: "closed sha (sd_session_id d) w'" "saga_lines sha (sd_session_id d) w'
        = saga_lines sha (sd_session_id d) w @ map line_of (take 4 (close_records strip d intent t r t2 t3))"
    by (auto simp: take_map)
  have "\<forall>x \<in> set (take 4 (close_records strip d intent t r t2 t3)). journalable x"
  proof
    fix x assume x: "x \<in> set (take 4 (close_records strip d intent t r t2 t3))"
    then have "line_of x \<in> set (saga_lines sha (sd_session_id d) w')" by (simp add: k(2))
    with assms(6) have "case line_of x of Line j \<Rightarrow> length (json_text j) < 2000 | _ \<Rightarrow> False" by (simp only: list_all_iff)
    then have "length (json_text (enc_record x)) < max_line" by (simp add: line_of_def max_line_def)
    with close_records_ok [OF in_set_takeD [OF x]] show "journalable x" by (simp add: journalable_def)
  qed
  from read_lines_records [OF _ this, of "saga_lines sha (sd_session_id d) w" rs] k assms(2) show ?thesis
    by (auto simp: saga_log_Some saga_lines_def closed_def)
qed

text \<open>C5: a mirror that was begun is never lost from sight. Wherever a close ends, if
  the journal of its saga can be read then the saga has gained the first records of a close, and once the intent is among
  them (without it no provider is called, and with no error it always is) recovery shows an obligation for the saga,
  except when the outcome on record is that the diary is mirrored.\<close>

theorem interrupted_mirror_is_surfaced:
  assumes "publish_closed sha strip bus (Some p) al d w = ((dl, er), w')" "saga_log sha (sd_session_id d) w = Some rs"
    "saga_log sha (sd_session_id d) w' = Some rs'"
    "subs_of bus ''session.closed'' = []" "port_keeps_segment sha (sd_session_id d) p"
    "\<forall>i \<in> set (sd_invocations d). safe_segment_name sha (ir_invocation_id i) \<noteq> safe_segment_name sha (sd_session_id d)"
  shows "\<exists>k intent t r t2 t3. rs' = rs @ take k (close_records strip d intent t r t2 t3) \<and> (er = None \<longrightarrow> k = 4)
    \<and> (k < 2
       \<or> (\<exists>it \<in> set (saga_items strip (sd_session_id d) rs').
            ri_saga_id it = sd_session_id d \<and> ri_state it \<in> {SyncPending, sr_state r})
       \<or> sr_state r = Mirrored \<and> last rs' = event_record (outcome_of d r t3))"
proof -
  have c: "closed sha (sd_session_id d) w" using assms(2) by (simp add: saga_log_Some closed_def)
  from close_evidence [OF assms(1) c assms(4-6)] assms(3) obtain k :: nat and intent t r t2 t3 where
    k: "sr_state intent = SyncPending" "saga_lines sha (sd_session_id d) w'
        = saga_lines sha (sd_session_id d) w @ take k (map line_of (close_records strip d intent t r t2 t3))"
      "er = None \<longrightarrow> k = 4" by (auto simp: saga_log_Some closed_def)
  define log where "log = take k (close_records strip d intent t r t2 t3)"
  have rs': "rs' = rs @ log"
    using saga_log_extended [OF assms(2,3), of log] k(2) close_records_ok [of _ strip d intent t r t2 t3]
    by (auto simp: log_def take_map dest: in_set_takeD)
  have "k < 2 \<or> (\<exists>it \<in> set (saga_items strip (sd_session_id d) (rs @ log)).
        ri_saga_id it = sd_session_id d \<and> ri_state it \<in> {SyncPending, sr_state r})
      \<or> sr_state r = Mirrored \<and> log \<noteq> [] \<and> last log = event_record (outcome_of d r t3)"
    using surfaced_after_intent [OF k(1) _ log_def refl, of "sd_session_id d" rs] log_def by (fastforce simp: close_records_def)
  with rs' k(3) log_def show ?thesis by (metis last_appendR)
qed

theorem interrupted_mirror_is_surfaced_witness:
  "\<exists>rs intent t r t2 t3. saga_log id ''s'' (snd (publish_closed id (\<lambda>u. None) [] (Some plain_port) False sample_session empty_memory)) = Some rs
     \<and> rs = close_records (\<lambda>u. None) sample_session intent t r t2 t3
     \<and> ((\<exists>it \<in> set (saga_items (\<lambda>u. None) ''s'' rs). ri_saga_id it = ''s'' \<and> ri_state it \<in> {SyncPending, sr_state r})
        \<or> sr_state r = Mirrored \<and> last rs = event_record (outcome_of sample_session r t3))"
proof -
  have e: "snd (fst (publish_closed id (\<lambda>u. None) [] (Some plain_port) False sample_session empty_memory)) = None"
    by code_simp
  obtain dl er w' where p: "publish_closed id (\<lambda>u. None) [] (Some plain_port) False sample_session empty_memory = ((dl, er), w')"
    by (metis surj_pair)
  have i: "sd_session_id sample_session = ''s''" "sd_invocations sample_session = []"
    by (simp_all add: sample_session_def zero_diary_def)
  have l: "saga_log id ''s'' empty_memory = Some []"
    by (simp add: saga_log_def saga_segment_def empty_memory_def empty_segment_def)
  have port: "port_keeps_segment id ''s'' plain_port"
    by (simp add: port_keeps_segment_def keeps_segment_def plain_port_def)
  have bus: "subs_of [] ''session.closed'' = []" by (simp add: subs_of_def)
  have links: "\<forall>i \<in> set []. safe_segment_name id (ir_invocation_id i) \<noteq> safe_segment_name id ''s''" by simp
  have all: "take 4 (close_records (\<lambda>u. None) sample_session intent t r t2 t3) = close_records (\<lambda>u. None) sample_session intent t r t2 t3"
    for intent t r t2 t3 by (simp add: close_records_def storage_records_def)
  from e p have er: "er = None" by simp
  have "list_all (\<lambda>l. case l of Line j \<Rightarrow> length (json_text j) < 2000 | _ \<Rightarrow> False)
      (saga_lines id ''s'' (snd (publish_closed id (\<lambda>u. None) [] (Some plain_port) False sample_session empty_memory)))"
    by code_simp
  from readable_close [OF p [unfolded er] _ _ port [folded i(1)] , unfolded i] this l bus p
  obtain rs where l': "saga_log id ''s'' w' = Some rs" by auto
  from er interrupted_mirror_is_surfaced [OF p, unfolded i, OF l l' bus port links] p l' all show ?thesis by fastforce
qed

text \<open>
  Before the intent there is nothing to see: a close that ends after the diary is saved, or after the closed event, leaves
  no storage obligation, and since a second close returns the stored diary with no effect the diary is never mirrored.
\<close>

theorem close_without_intent_is_forgotten:
  assumes "it \<in> set (saga_items strip saga [event_record (session_closed_event d)])"
  shows "ri_state it \<in> {GraphResolutionPending, GraphSyncPending}"
proof -
  have s: "sc_storage (scan_records saga [event_record (session_closed_event d)]) = None"
    "ri_attempts (sc_item (scan_records saga [event_record (session_closed_event d)])) = []"
    by (simp_all add: scan_records_def scan_record_def event_record_def scan_storage_def session_closed_event_def start_scan_def
        scan_closed_def new_item_def split: option.splits)
  with assms scan_graph_state [of saga "[event_record (session_closed_event d)]"] show ?thesis
    by (auto simp: saga_items_def Let_def storage_items_def handler_items_def graph_items_def split: if_splits)
qed

end
