(* ===== verification/Go_Flags.thy ===== *)
theory Go_Flags
  imports Go_Json
begin

text \<open>
  What the commands use of Go's package \<open>flag\<close>: \<open>FlagSet.Parse\<close> with boolean and string flags. The values are kept as
  text, \<open>true\<close> and \<open>false\<close> for the boolean ones; a flag that is given twice has its last value.
\<close>

section \<open>Parsing\<close>

datatype flag_kind = BoolFlag | StringFlag

type_synonym flag_values = "(string \<times> string) list"

definition parse_bool :: "string \<Rightarrow> bool option" where
  "parse_bool s =
     (if s \<in> {''1'', ''t'', ''T'', ''TRUE'', ''true'', ''True''} then Some True
      else if s \<in> {''0'', ''f'', ''F'', ''FALSE'', ''false'', ''False''} then Some False
      else None)"

definition help_err :: err where "help_err = new_err ''flag: help requested''"

text \<open>The name and, after the first \<open>=\<close> that is not the first character, the value.\<close>

definition split_flag :: "string \<Rightarrow> string \<times> string option" where
  "split_flag s =
     (case index_of ''='' s of
        None \<Rightarrow> (s, None)
      | Some i \<Rightarrow> (take i s, Some (drop (Suc i) s)))"

definition unknown_flag :: "string \<Rightarrow> err" where
  "unknown_flag name =
     (if name \<in> {''help'', ''h''} then help_err else new_err (''flag provided but not defined: -'' @ name))"

text \<open>\<open>parseOne\<close>: the flags end, the argument is no good, or a flag gets its value.\<close>

datatype flag_step = FlagsEnd "string list" | FlagError err | FlagValue string string "string list"

definition flag_value :: "flag_kind \<Rightarrow> string \<Rightarrow> string option \<Rightarrow> string list \<Rightarrow> flag_step" where
  "flag_value k name value args =
     (case (k, value) of
        (BoolFlag, None) \<Rightarrow> FlagValue name ''true'' args
      | (BoolFlag, Some v) \<Rightarrow>
         (case parse_bool v of
            None \<Rightarrow> FlagError (new_err (''invalid boolean value '' @ go_quote v @ '' for -'' @ name @ '': parse error''))
          | Some b \<Rightarrow> FlagValue name (if b then ''true'' else ''false'') args)
      | (StringFlag, Some v) \<Rightarrow> FlagValue name v args
      | (StringFlag, None) \<Rightarrow>
         (case args of
            [] \<Rightarrow> FlagError (new_err (''flag needs an argument: -'' @ name))
          | a # rest \<Rightarrow> FlagValue name a rest))"

definition parse_one :: "(string \<times> flag_kind) list \<Rightarrow> string \<Rightarrow> string list \<Rightarrow> flag_step" where
  "parse_one fs s args =
     (if length s < 2 \<or> hd s \<noteq> CHR ''-'' then FlagsEnd (s # args)
      else if s = ''--'' then FlagsEnd args
      else
     (let name0 = (if s ! 1 = CHR ''-'' then drop 2 s else drop 1 s) in
      if name0 = [] \<or> hd name0 = CHR ''-'' \<or> hd name0 = CHR ''='' then FlagError (new_err (''bad flag syntax: '' @ s))
      else
     (case map_of fs (fst (split_flag name0)) of
        None \<Rightarrow> FlagError (unknown_flag (fst (split_flag name0)))
      | Some k \<Rightarrow> flag_value k (fst (split_flag name0)) (snd (split_flag name0)) args)))"

lemma flag_value_cases:
  assumes "flag_value k name value args = FlagValue n v rest"
  shows "length rest \<le> length args"
  using assms by (auto simp: flag_value_def split: flag_kind.splits option.splits list.splits if_splits)

lemma parse_one_shorter: "parse_one fs s args = FlagValue n v rest \<Longrightarrow> length rest < length (s # args)"
  by (auto simp: parse_one_def Let_def dest!: flag_value_cases split: if_splits option.splits)

function parse_flags :: "(string \<times> flag_kind) list \<Rightarrow> flag_values \<Rightarrow> string list \<Rightarrow> (flag_values \<times> string list) res" where
  "parse_flags fs vs [] = Inr (vs, [])"
| "parse_flags fs vs (s # args) =
     (case parse_one fs s args of
        FlagsEnd rest \<Rightarrow> Inr (vs, rest)
      | FlagError e \<Rightarrow> Inl e
      | FlagValue name v rest \<Rightarrow> parse_flags fs (map_put name v vs) rest)"
  by pat_completeness auto

termination
  by (relation "measure (\<lambda>(fs, vs, args). length args)") (auto dest: parse_one_shorter [simplified])

definition flag_text :: "string \<Rightarrow> flag_values \<Rightarrow> string" where
  "flag_text name vs = (case map_of vs name of Some v \<Rightarrow> v | None \<Rightarrow> [])"

definition flag_set :: "string \<Rightarrow> flag_values \<Rightarrow> bool" where
  "flag_set name vs = (map_of vs name = Some ''true'')"

text \<open>The commands that take a positional argument first move it behind the flags.\<close>

definition rotate_positional :: "string list \<Rightarrow> string list" where
  "rotate_positional args =
     (if args \<noteq> [] \<and> \<not> has_prefix ''-'' (hd args) then tl args @ [hd args] else args)"

section \<open>Properties\<close>

text \<open>What follows the flags stays as it is.\<close>

lemma flag_value_append:
  "flag_value k name value args = FlagValue n v rest \<Longrightarrow> flag_value k name value (args @ [p]) = FlagValue n v (rest @ [p])"
  by (auto simp: flag_value_def split: flag_kind.splits option.splits list.splits if_splits)

lemma flag_value_end: "flag_value k name value args \<noteq> FlagsEnd rest"
  by (auto simp: flag_value_def split: flag_kind.splits option.splits list.splits)

lemma parse_one_append:
  "parse_one fs s args = FlagValue n v rest \<Longrightarrow> parse_one fs s (args @ [p]) = FlagValue n v (rest @ [p])"
  "parse_one fs s args = FlagsEnd rest \<Longrightarrow> parse_one fs s (args @ [p]) = FlagsEnd (rest @ [p])"
  by (auto simp: parse_one_def Let_def flag_value_append flag_value_end split: if_splits option.splits)

lemma parse_flags_append:
  assumes "parse_flags fs vs flags = Inr (vs', rest)" "\<not> has_prefix ''-'' p"
  shows "parse_flags fs vs (flags @ [p]) = Inr (vs', rest @ [p])"
  using assms(1)
proof (induction fs vs flags arbitrary: vs' rest rule: parse_flags.induct)
  case (1 fs vs)
  then show ?case using assms(2) by (cases p) (auto simp: parse_one_def)
next
  case (2 fs vs s args)
  then show ?case
    by (cases "parse_one fs s args") (auto simp: parse_one_append)
qed

lemma parse_flags_rotated:
  assumes "parse_flags fs vs flags = Inr (vs', [])" "\<not> has_prefix ''-'' p"
  shows "parse_flags fs vs (rotate_positional (p # flags)) = Inr (vs', [p])"
  using parse_flags_append [OF assms] assms(2) by (simp add: rotate_positional_def)

end
