(* ===== verification/Config.thy ===== *)
theory Config
  imports Skill_Store
begin

text \<open>
  \<open>config/config.go\<close>: the configuration of a repository. The package \<open>yaml.v3\<close> is a parameter (what the first document
  decodes to, and what follows it), and so are \<open>url.Parse\<close>, \<open>filepath.Abs\<close> and \<open>filepath.EvalSymlinks\<close>. The aliases are
  walked in the order of their list; Go walks a map in no fixed order.
\<close>

section \<open>The configuration file\<close>

definition ProviderGitHubREST :: string where "ProviderGitHubREST = ''github-rest''"
definition ProviderGitHubMCP :: string where "ProviderGitHubMCP = ''github-mcp''"
definition ProviderGitHubWikiGit :: string where "ProviderGitHubWikiGit = ''github-wiki-git''"

lemmas provider_names = ProviderGitHubREST_def ProviderGitHubMCP_def ProviderGitHubWikiGit_def

record storage_config =
  sg_backend :: string
  sg_provider :: string
  sg_repository :: string
  sg_allow_cross :: bool
  sg_mcp_command :: "string list"
  sg_git_executable :: string
  sg_author_name :: string
  sg_author_email :: string

record skills_config =
  sl_enabled :: bool
  sl_runtime_lock :: string
  sl_sources :: "(string \<times> string) list"
  sl_aliases :: "(string \<times> string) list"

record config_file =
  cf_graphify :: string
  cf_storage :: "storage_config option"
  cf_skills :: "skills_config option"

definition no_config :: config_file where
  "no_config = \<lparr>cf_graphify = [], cf_storage = None, cf_skills = None\<rparr>"

definition load_config ::
  "(string \<Rightarrow> config_file res) \<Rightarrow> (string \<Rightarrow> yaml_rest) \<Rightarrow> string res \<Rightarrow> config_file res" where
  "load_config decode rest data =
     (case data of
        Inl e \<Rightarrow> if errors_is e ErrNotExist then Inr no_config else Inl (wrap_with ''read Syntroph configuration'' e)
      | Inr body \<Rightarrow>
          if trim_space body = [] then Inr no_config
          else if hd (trim_space body) \<in> {CHR ''{'', CHR ''[''}
          then Inl (new_err ''Syntroph configuration must use YAML syntax in .syntroph/config.yaml; JSON is not supported'')
          else
         (case decode body of
            Inl e \<Rightarrow> Inl (wrap_with ''parse Syntroph YAML configuration'' e)
          | Inr c \<Rightarrow>
             (case rest body of
                EndOfInput \<Rightarrow> Inr c
              | SecondDocument \<Rightarrow> Inl (new_err ''Syntroph configuration must contain exactly one YAML document'')
              | BadRest e \<Rightarrow> Inl (wrap_with ''parse Syntroph YAML configuration'' e))))"

section \<open>The repository\<close>

text \<open>What the code reads off a \<open>*url.URL\<close>; the user is its name and whether there is a password.\<close>

record parsed_url =
  pu_scheme :: string
  pu_hostname :: string
  pu_user :: "(string \<times> bool) option"
  pu_path :: string

definition foreign_host_err :: err where
  "foreign_host_err = new_err ''repository must be hosted on github.com''"

definition userinfo_err :: err where
  "userinfo_err = new_err ''Git remote URL must not contain userinfo or embedded credentials''"

definition github :: string where "github = ''github.com''"

text \<open>The path of the repository in each of the forms of a remote.\<close>

definition remote_path :: "(string \<Rightarrow> parsed_url option) \<Rightarrow> string \<Rightarrow> string res" where
  "remote_path parse value =
     (if contains_str value ''://'' then
        (case parse value of
           None \<Rightarrow> Inl foreign_host_err
         | Some u \<Rightarrow>
             if \<not> equal_fold (pu_hostname u) github then Inl foreign_host_err
             else if (case pu_user u of None \<Rightarrow> False
                      | Some (name, password) \<Rightarrow> \<not> (equal_fold (pu_scheme u) ''ssh'' \<and> name = ''git'' \<and> \<not> password))
             then Inl userinfo_err
             else Inr (pu_path u))
      else
     (case index_of ''@'' value of
        Some i \<Rightarrow>
          if \<not> has_prefix ''git@'' value then Inl userinfo_err
          else
         (case index_of '':'' (drop i value) of
            None \<Rightarrow> Inl foreign_host_err
          | Some c \<Rightarrow>
              if \<not> equal_fold (take (c - 1) (drop (i + 1) value)) github then Inl foreign_host_err
              else Inr (drop (i + c + 1) value))
      | None \<Rightarrow> Inr (if has_prefix ''github.com/'' (to_lower value) then drop 11 value else value)))"

definition normalize_repository :: "(string \<Rightarrow> parsed_url option) \<Rightarrow> string \<Rightarrow> string res" where
  "normalize_repository parse value =
     (let v = trim_space value in
      if v = [] then Inl (new_err ''Git origin is missing; configure remote.origin.url before enabling storage'')
      else
     (case remote_path parse v of
        Inl e \<Rightarrow> Inl e
      | Inr raw \<Rightarrow>
         (let path = trim_suffix ''.git'' (trim_set ''/'' raw); parts = split_on (CHR ''/'') path in
          if length parts \<noteq> 2 \<or> trim_space (parts ! 0) = [] \<or> trim_space (parts ! 1) = []
             \<or> CHR ''?'' \<in> set path \<or> CHR ''#'' \<in> set path
          then Inl (new_err (''repository '' @ go_quote v @ '' must be owner/name or a GitHub remote URL''))
          else Inr (parts ! 0 @ ''/'' @ parts ! 1))))"

section \<open>Storage\<close>

record resolved_storage =
  rg_enabled :: bool
  rg_backend :: string
  rg_provider :: string
  rg_repository :: string
  rg_origin :: string
  rg_cross :: bool
  rg_allow_cross :: bool
  rg_mcp_command :: "string list"
  rg_git_executable :: string
  rg_author_name :: string
  rg_author_email :: string

definition no_storage :: resolved_storage where
  "no_storage = \<lparr>rg_enabled = False, rg_backend = [], rg_provider = [], rg_repository = [], rg_origin = [], rg_cross = False,
     rg_allow_cross = False, rg_mcp_command = [], rg_git_executable = [], rg_author_name = [], rg_author_email = []\<rparr>"

definition storage_problem :: "storage_config \<Rightarrow> string \<Rightarrow> string \<Rightarrow> err option" where
  "storage_problem s backend provider =
     (if backend = [] then Some (new_err ''storage backend is required when storage is configured'')
      else if provider = [] then Some (new_err ''storage provider is required when storage is configured'')
      else if backend = BackendIssues \<and> provider \<noteq> ProviderGitHubREST \<and> provider \<noteq> ProviderGitHubMCP
      then Some (new_err (''issues requires provider '' @ ProviderGitHubREST @ '' or '' @ ProviderGitHubMCP))
      else if backend = BackendWiki \<and> provider \<noteq> ProviderGitHubWikiGit
      then Some (new_err (''wiki requires provider '' @ ProviderGitHubWikiGit))
      else if backend \<noteq> BackendIssues \<and> backend \<noteq> BackendWiki
      then Some (new_err (''unsupported storage backend '' @ go_quote backend))
      else if provider \<noteq> ProviderGitHubMCP \<and> sg_mcp_command s \<noteq> []
      then Some (new_err (''storage.mcp is only valid with provider '' @ ProviderGitHubMCP))
      else if provider \<noteq> ProviderGitHubWikiGit
         \<and> (sg_git_executable s \<noteq> [] \<or> sg_author_name s \<noteq> [] \<or> sg_author_email s \<noteq> [])
      then Some (new_err (''storage.wiki is only valid with provider '' @ ProviderGitHubWikiGit))
      else None)"

definition resolve_storage ::
  "(string \<Rightarrow> parsed_url option) \<Rightarrow> config_file \<Rightarrow> string \<Rightarrow> resolved_storage res" where
  "resolve_storage parse c origin =
     (case cf_storage c of
        None \<Rightarrow> Inr no_storage
      | Some s \<Rightarrow>
     (let backend = trim_space (sg_backend s); provider = trim_space (sg_provider s);
          repository = trim_space (sg_repository s) in
      case storage_problem s backend provider of
        Some e \<Rightarrow> Inl e
      | None \<Rightarrow>
     (case normalize_repository parse origin of
        Inl e \<Rightarrow> Inl (wrap_with ''derive storage repository from origin'' e)
      | Inr home \<Rightarrow>
     (case (if repository \<noteq> [] then normalize_repository parse repository else Inr home) of
        Inl e \<Rightarrow> Inl (wrap_with ''invalid storage.repository'' e)
      | Inr destination \<Rightarrow>
     (let cross = (destination \<noteq> home) in
      if cross \<and> (\<not> sg_allow_cross s \<or> repository = [])
      then Inl (new_err (''storage.repository '' @ go_quote destination @ '' differs from origin '' @ go_quote home
             @ ''; set the explicit destination and allow_cross_repository: true''))
      else Inr \<lparr>rg_enabled = True, rg_backend = backend, rg_provider = provider, rg_repository = destination,
             rg_origin = home, rg_cross = cross, rg_allow_cross = sg_allow_cross s, rg_mcp_command = sg_mcp_command s,
             rg_git_executable = sg_git_executable s, rg_author_name = sg_author_name s,
             rg_author_email = sg_author_email s\<rparr>)))))"

section \<open>Skills\<close>

definition path_within_existing_parent :: "(string \<Rightarrow> clean_path res) \<Rightarrow> clean_path \<Rightarrow> clean_path res option" where
  "path_within_existing_parent ev c = eval_existing ev c []"

text \<open>\<open>resolveRepositoryPath\<close>; \<^term>\<open>None\<close> is that the walk over the parents does not return.\<close>

definition resolve_repository_path ::
  "(string \<Rightarrow> clean_path res) \<Rightarrow> string \<Rightarrow> string \<Rightarrow> string \<Rightarrow> clean_path res option" where
  "resolve_repository_path ev root value label =
     (let v = trim_space value in
      if v = [] then Some (Inl (new_err (label @ '' is required when skills are enabled'')))
      else if has_prefix ''/'' v then Some (Inl (new_err (label @ '' must be relative to the Repository Installation'')))
      else
     (let resolved = join_text root v in
      if escapes (rel_parts (clean root) resolved)
      then Some (Inl (new_err (label @ '' escapes the Repository Installation'')))
      else
     (case ev root of
        Inl e \<Rightarrow> Some (Inl (wrap_with ''resolve Repository Installation symlinks'' e))
      | Inr canonical_root \<Rightarrow>
     (case path_within_existing_parent ev resolved of
        None \<Rightarrow> None
      | Some (Inl e) \<Rightarrow> Some (Inl (wrap_with (''resolve '' @ label @ '' symlinks'') e))
      | Some (Inr canonical) \<Rightarrow>
          if escapes (rel_parts canonical_root canonical)
          then Some (Inl (new_err (label @ '' escapes the Repository Installation through a symlink'')))
          else Some (Inr resolved)))))"

text \<open>The loop over the configured sources, after the ones in \<open>done\<close>.\<close>

fun resolve_sources ::
  "(string \<Rightarrow> clean_path res) \<Rightarrow> string \<Rightarrow> skill_source list \<Rightarrow> (string \<times> string) list \<Rightarrow> skill_source list res option"
where
  "resolve_sources ev root acc [] = Some (Inr acc)"
| "resolve_sources ev root acc ((i, path) # ss) =
     (if trim_space i = [] \<or> trim_space i \<noteq> i
      then Some (Inl (new_err ''skill source id is required and must not contain surrounding whitespace''))
      else if i \<in> sk_id ` set acc then Some (Inl (new_err (''duplicate skill source id '' @ go_quote i)))
      else
     (case resolve_repository_path ev root path (''skill source '' @ i) of
        None \<Rightarrow> None
      | Some (Inl e) \<Rightarrow> Some (Inl e)
      | Some (Inr r) \<Rightarrow> resolve_sources ev root (acc @ [\<lparr>sk_id = i, sk_root = path_text r\<rparr>]) ss))"

definition resolve_aliases :: "(string \<times> string) list \<Rightarrow> (string \<times> string) list res" where
  "resolve_aliases as =
     (let bs = map (map_prod trim_space trim_space) as in
      if list_ex (\<lambda>(a, t). a = [] \<or> t = []) bs
      then Inl (new_err ''skill aliases require non-empty names and targets'')
      else Inr (map_build bs))"

definition no_skills :: resolved_skills where
  "no_skills = \<lparr>rs_enabled = False, rs_runtime_lock = [], rs_sources = [], rs_aliases = []\<rparr>"

definition resolve_skills ::
  "(string \<Rightarrow> string res) \<Rightarrow> (string \<Rightarrow> clean_path res) \<Rightarrow> config_file \<Rightarrow> string \<Rightarrow> resolved_skills res option" where
  "resolve_skills absolute ev c repository =
     (case cf_skills c of
        None \<Rightarrow> Some (Inr no_skills)
      | Some s \<Rightarrow>
          if \<not> sl_enabled s then Some (Inr no_skills)
          else
     (case absolute repository of
        Inl e \<Rightarrow> Some (Inl (wrap_with ''resolve repository root'' e))
      | Inr root \<Rightarrow>
     (case resolve_repository_path ev root (sl_runtime_lock s) ''skills.runtime_lock'' of
        None \<Rightarrow> None
      | Some (Inl e) \<Rightarrow> Some (Inl e)
      | Some (Inr lock) \<Rightarrow>
     (case resolve_repository_path ev root ''.syntroph/skills'' ''implicit local skill source'' of
        None \<Rightarrow> None
      | Some (Inl e) \<Rightarrow> Some (Inl e)
      | Some (Inr local_root) \<Rightarrow>
     (case resolve_sources ev root [\<lparr>sk_id = ''local'', sk_root = path_text local_root\<rparr>] (sl_sources s) of
        None \<Rightarrow> None
      | Some (Inl e) \<Rightarrow> Some (Inl e)
      | Some (Inr sources) \<Rightarrow>
         (case resolve_aliases (sl_aliases s) of
            Inl e \<Rightarrow> Some (Inl e)
          | Inr as \<Rightarrow> Some (Inr \<lparr>rs_enabled = True, rs_runtime_lock = path_text lock, rs_sources = sources,
              rs_aliases = as\<rparr>)))))))"

section \<open>Properties\<close>

text \<open>A repository in its normal form.\<close>

definition owner_and_name :: "string \<Rightarrow> bool" where
  "owner_and_name r \<longleftrightarrow> (\<exists>o' n. r = o' @ ''/'' @ n \<and> CHR ''/'' \<notin> set o' \<and> CHR ''/'' \<notin> set n
     \<and> trim_space o' \<noteq> [] \<and> trim_space n \<noteq> [] \<and> CHR ''?'' \<notin> set r \<and> CHR ''#'' \<notin> set r)"

lemma normalize_repository_shape:
  assumes "normalize_repository parse v = Inr r"
  shows "owner_and_name r"
proof -
  from assms obtain raw where "remote_path parse (trim_space v) = Inr raw"
    by (auto simp: normalize_repository_def Let_def split: if_splits sum.splits)
  define path where "path = trim_suffix ''.git'' (trim_set ''/'' raw)"
  from assms \<open>remote_path parse (trim_space v) = Inr raw\<close> have
    l: "length (split_on (CHR ''/'') path) = 2" and
    q: "trim_space (split_on (CHR ''/'') path ! 0) \<noteq> []" "trim_space (split_on (CHR ''/'') path ! 1) \<noteq> []"
       "CHR ''?'' \<notin> set path" "CHR ''#'' \<notin> set path" and
    r: "r = split_on (CHR ''/'') path ! 0 @ ''/'' @ split_on (CHR ''/'') path ! 1"
    by (auto simp: normalize_repository_def path_def Let_def split: if_splits)
  from l obtain a b where ab: "split_on (CHR ''/'') path = [a, b]"
    by (auto simp: length_Suc_conv numeral_2_eq_2)
  have path: "path = a @ ''/'' @ b" using join_split [of "CHR ''/''" path] ab by simp
  have "CHR ''/'' \<notin> set a" "CHR ''/'' \<notin> set b" using split_on_pieces [of _ "CHR ''/''" path] ab by simp_all
  moreover have "r = path" "trim_space a \<noteq> []" "trim_space b \<noteq> []" using q(1,2) r ab path by simp_all
  ultimately show ?thesis using q(3,4) path unfolding owner_and_name_def by blast
qed

lemma resolved_destination:
  assumes "resolve_storage parse c origin = Inr r" "rg_enabled r"
  shows "\<exists>s. cf_storage c = Some s
    \<and> normalize_repository parse origin = Inr (rg_origin r)
    \<and> (rg_repository r = rg_origin r
       \<or> sg_allow_cross s \<and> trim_space (sg_repository s) \<noteq> []
         \<and> normalize_repository parse (sg_repository s) = Inr (rg_repository r))
    \<and> rg_cross r = (rg_repository r \<noteq> rg_origin r)
    \<and> owner_and_name (rg_repository r)
    \<and> (rg_backend r, rg_provider r) \<in> {(BackendIssues, ProviderGitHubREST), (BackendIssues, ProviderGitHubMCP),
         (BackendWiki, ProviderGitHubWikiGit)}
    \<and> (rg_mcp_command r \<noteq> [] \<longrightarrow> rg_provider r = ProviderGitHubMCP)
    \<and> (rg_author_name r \<noteq> [] \<or> rg_author_email r \<noteq> [] \<or> rg_git_executable r \<noteq> [] \<longrightarrow> rg_provider r = ProviderGitHubWikiGit)"
proof -
  from assms obtain s where s: "cf_storage c = Some s"
    by (auto simp: resolve_storage_def no_storage_def split: option.splits)
  let ?b = "trim_space (sg_backend s)" and ?p = "trim_space (sg_provider s)" and ?r = "trim_space (sg_repository s)"
  from assms(1) s obtain home destination where
    1: "storage_problem s ?b ?p = None" "normalize_repository parse origin = Inr home"
      "(if ?r \<noteq> [] then normalize_repository parse ?r else Inr home) = Inr destination"
      "\<not> (destination \<noteq> home \<and> (\<not> sg_allow_cross s \<or> ?r = []))"
    and r: "r = \<lparr>rg_enabled = True, rg_backend = ?b, rg_provider = ?p, rg_repository = destination,
             rg_origin = home, rg_cross = (destination \<noteq> home), rg_allow_cross = sg_allow_cross s, rg_mcp_command = sg_mcp_command s,
             rg_git_executable = sg_git_executable s, rg_author_name = sg_author_name s,
             rg_author_email = sg_author_email s\<rparr>"
    by (auto simp: resolve_storage_def Let_def split: option.splits sum.splits if_splits)
  have trimmed: "normalize_repository parse ?r = normalize_repository parse (sg_repository s)"
    by (simp add: normalize_repository_def)
  have "owner_and_name destination"
    using 1(2,3) normalize_repository_shape by (auto split: if_splits)
  moreover have "destination = home \<or> sg_allow_cross s \<and> ?r \<noteq> [] \<and> normalize_repository parse (sg_repository s) = Inr destination"
    using 1(3,4) trimmed by auto
  moreover have "(?b, ?p) \<in> {(BackendIssues, ProviderGitHubREST), (BackendIssues, ProviderGitHubMCP), (BackendWiki, ProviderGitHubWikiGit)}"
    "sg_mcp_command s \<noteq> [] \<longrightarrow> ?p = ProviderGitHubMCP"
    "sg_author_name s \<noteq> [] \<or> sg_author_email s \<noteq> [] \<or> sg_git_executable s \<noteq> [] \<longrightarrow> ?p = ProviderGitHubWikiGit"
    using 1(1) by (auto simp: storage_problem_def split: if_splits)
  ultimately show ?thesis using s 1(2) r by auto
qed

text \<open>C21: mirroring never goes to another repository by accident. When storage is
  enabled, the destination is the repository of the origin, or it was written out in the configuration together with the
  permission to cross repositories; it is an owner and a name, the provider is one of the backend's own, and no provider
  gets the settings of another.\<close>

theorem storage_destination_is_explicit:
  assumes "resolve_storage parse c origin = Inr r" "rg_enabled r"
  shows "\<exists>s. cf_storage c = Some s
    \<and> normalize_repository parse origin = Inr (rg_origin r)
    \<and> (rg_repository r = rg_origin r
       \<or> sg_allow_cross s \<and> trim_space (sg_repository s) \<noteq> []
         \<and> normalize_repository parse (sg_repository s) = Inr (rg_repository r))
    \<and> rg_cross r = (rg_repository r \<noteq> rg_origin r)
    \<and> owner_and_name (rg_repository r)
    \<and> (rg_backend r, rg_provider r) \<in> {(BackendIssues, ProviderGitHubREST), (BackendIssues, ProviderGitHubMCP),
         (BackendWiki, ProviderGitHubWikiGit)}
    \<and> (rg_mcp_command r \<noteq> [] \<longrightarrow> rg_provider r = ProviderGitHubMCP)
    \<and> (rg_author_name r \<noteq> [] \<or> rg_author_email r \<noteq> [] \<or> rg_git_executable r \<noteq> [] \<longrightarrow> rg_provider r = ProviderGitHubWikiGit)"
  using assms by (rule resolved_destination)

definition sample_storage :: storage_config where
  "sample_storage = \<lparr>sg_backend = BackendIssues, sg_provider = ProviderGitHubREST, sg_repository = ''o/other'',
     sg_allow_cross = True, sg_mcp_command = [], sg_git_executable = [], sg_author_name = [], sg_author_email = []\<rparr>"

theorem storage_destination_is_explicit_witness:
  "\<exists>r. resolve_storage (\<lambda>u. None) (no_config\<lparr>cf_storage := Some sample_storage\<rparr>) ''git@github.com:o/n.git'' = Inr r
     \<and> rg_repository r = ''o/other'' \<and> owner_and_name (rg_repository r) \<and> rg_cross r"
proof -
  let ?r = "\<lparr>rg_enabled = True, rg_backend = BackendIssues, rg_provider = ProviderGitHubREST, rg_repository = ''o/other'',
     rg_origin = ''o/n'', rg_cross = True, rg_allow_cross = True, rg_mcp_command = [], rg_git_executable = [],
     rg_author_name = [], rg_author_email = []\<rparr>"
  have run: "resolve_storage (\<lambda>u. None) (no_config\<lparr>cf_storage := Some sample_storage\<rparr>) ''git@github.com:o/n.git'' = Inr ?r"
    by code_simp
  from storage_destination_is_explicit [OF run] run show ?thesis by simp
qed

text \<open>A name of letters, digits, hyphens and underscores.\<close>

definition plain_name :: "string \<Rightarrow> bool" where
  "plain_name s \<longleftrightarrow> s \<noteq> [] \<and> list_all (\<lambda>c. is_letter c \<or> is_digit c \<or> c = CHR ''-'' \<or> c = CHR ''_'') s"

lemma plain_name_char:
  assumes "plain_name s" "c \<in> set s"
  shows "byte c < 128" "\<not> ascii_ws c" "c \<noteq> CHR ''/''" "c \<noteq> CHR '':''" "c \<noteq> CHR ''@''" "c \<noteq> CHR ''.''" "c \<noteq> CHR ''?''" "c \<noteq> CHR ''#''"
    "ascii_lower c \<noteq> CHR ''.''"
proof -
  have c: "is_letter c \<or> is_digit c \<or> c = CHR ''-'' \<or> c = CHR ''_''"
    using assms by (auto simp: plain_name_def list_all_iff)
  then show "byte c < 128" "\<not> ascii_ws c" "c \<noteq> CHR ''/''" "c \<noteq> CHR '':''" "c \<noteq> CHR ''@''" "c \<noteq> CHR ''.''" "c \<noteq> CHR ''?''" "c \<noteq> CHR ''#''"
    by (auto simp: is_letter_def is_digit_def ascii_ws_def byte_def)
  show "ascii_lower c \<noteq> CHR ''.''"
  proof
    assume dot: "ascii_lower c = CHR ''.''"
    show False
    proof (cases "65 \<le> byte c \<and> byte c \<le> 90")
      case True
      with dot have "byte (char_of (byte c + 32)) = 46" by (simp add: ascii_lower_def byte_def)
      with True show False by (simp add: byte_def)
    next
      case False
      with dot c show False by (auto simp: ascii_lower_def is_letter_def is_digit_def byte_def)
    qed
  qed
qed

lemma plain_name_trim:
  assumes "plain_name s"
  shows "trim_space s = s" "s \<noteq> []" "hd s \<in> set s" "last s \<in> set s"
proof -
  show s: "s \<noteq> []" "hd s \<in> set s" "last s \<in> set s" using assms by (simp_all add: plain_name_def)
  then show "trim_space s = s" using plain_name_char(1,2) [OF assms] by (intro trim_space_id) blast
qed

lemma plain_name_absent:
  assumes "plain_name s"
  shows "CHR ''/'' \<notin> set s" "CHR '':'' \<notin> set s" "CHR ''@'' \<notin> set s" "CHR ''.'' \<notin> set s" "CHR ''?'' \<notin> set s"
    "CHR ''#'' \<notin> set s" "CHR ''.'' \<notin> ascii_lower ` set s" "\<forall>c\<in>set s. byte c < 128 \<and> \<not> ascii_ws c"
  using plain_name_char [OF assms] by (blast, blast, blast, blast, blast, blast, metis imageE, blast)

lemma map_runes_ascii: "\<forall>c\<in>set s. byte c < 128 \<Longrightarrow> map_runes tbl s = map ascii_lower s"
  by (induction s) simp_all


text \<open>What is left of a remote of \<open>o/n\<close> once the host is off.\<close>

lemma split_on_pair: "c \<notin> set a \<Longrightarrow> c \<notin> set b \<Longrightarrow> split_on c (a @ c # b) = [a, b]"
  by (induction a) (auto simp: split_on_absent)

lemma no_git_suffix:
  assumes "CHR ''.'' \<notin> set s"
  shows "trim_suffix ''.git'' s = s"
proof -
  have "\<not> has_suffix ''.git'' s"
    using assms by (auto simp: has_suffix_def has_prefix_iff_prefix prefix_def)
  then show ?thesis by (simp add: trim_suffix_def)
qed

lemma trim_set_slash:
  assumes "x \<noteq> []" "hd x \<noteq> CHR ''/''" "last x \<noteq> CHR ''/''"
  shows "trim_set ''/'' x = x" "trim_set ''/'' (CHR ''/'' # x) = x"
proof -
  have "dropWhile (\<lambda>c. c \<in> set ''/'') x = x" using assms by (cases x) simp_all
  moreover have "dropWhile (\<lambda>c. c \<in> set ''/'') (rev x) = rev x" using assms by (cases x rule: rev_cases) simp_all
  ultimately show "trim_set ''/'' x = x" "trim_set ''/'' (CHR ''/'' # x) = x" by (simp_all add: trim_set_def)
qed

lemma normalize_plain_repository:
  assumes "plain_name o'" "plain_name n" "trim_space v \<noteq> []"
    "remote_path parse (trim_space v) = Inr raw"
    "raw \<in> {o' @ ''/'' @ n, o' @ ''/'' @ n @ ''.git'', CHR ''/'' # o' @ ''/'' @ n, CHR ''/'' # o' @ ''/'' @ n @ ''.git''}"
  shows "normalize_repository parse v = Inr (o' @ ''/'' @ n)"
proof -
  note co = plain_name_char [OF assms(1)] and cn = plain_name_char [OF assms(2)]
  note to = plain_name_trim [OF assms(1)] and tn = plain_name_trim [OF assms(2)]
  let ?p = "o' @ ''/'' @ n"
  have dot: "CHR ''.'' \<notin> set ?p" using co(6) cn(6) by auto
  have plain: "trim_set ''/'' ?p = ?p" "trim_set ''/'' (CHR ''/'' # ?p) = ?p"
    by (rule trim_set_slash; use to tn co(3) cn(3) in auto)+
  have git: "trim_set ''/'' (?p @ ''.git'') = ?p @ ''.git''" "trim_set ''/'' (CHR ''/'' # ?p @ ''.git'') = ?p @ ''.git''"
    by (rule trim_set_slash; use to tn co(3) cn(3) in auto)+
  have path: "trim_suffix ''.git'' (trim_set ''/'' raw) = ?p"
    using assms(5) plain git no_git_suffix [OF dot] trim_suffix_append [of "''.git''" ?p] by auto
  have "split_on (CHR ''/'') ?p = [o', n]" using split_on_pair [of "CHR ''/''" o' n] co(3) cn(3) by auto
  moreover have "CHR ''?'' \<notin> set ?p" "CHR ''#'' \<notin> set ?p" using co(7,8) cn(7,8) by auto
  ultimately show ?thesis using assms(3,4) path to tn by (simp add: normalize_repository_def Let_def)
qed


text \<open>The pair of two plain names, as a text.\<close>

lemma no_scheme: "CHR '':'' \<notin> set s \<Longrightarrow> \<not> contains_str s ''://''"
  by (auto simp: contains_str_iff)

lemma absent_index: "c \<notin> set s \<Longrightarrow> index_of [c] s = None"
  by (induction s) auto

lemma plain_pair:
  assumes "plain_name o'" "plain_name n"
  shows "CHR '':'' \<notin> set (o' @ ''/'' @ n)" "CHR ''@'' \<notin> set (o' @ ''/'' @ n)" "o' @ ''/'' @ n \<noteq> []"
    "CHR ''.'' \<notin> ascii_lower ` set (o' @ ''/'' @ n)" "\<forall>c\<in>set (o' @ ''/'' @ n). byte c < 128"
    "trim_space (o' @ ''/'' @ n) = o' @ ''/'' @ n" "trim_space (''github.com/'' @ o' @ ''/'' @ n) = ''github.com/'' @ o' @ ''/'' @ n"
    "trim_space (''git@github.com:'' @ (o' @ ''/'' @ n) @ ''.git'') = ''git@github.com:'' @ (o' @ ''/'' @ n) @ ''.git''"
proof -
  note to = plain_name_trim [OF assms(1)] and tn = plain_name_trim [OF assms(2)]
  note ao = plain_name_absent [OF assms(1)] and an = plain_name_absent [OF assms(2)]
  show "CHR '':'' \<notin> set (o' @ ''/'' @ n)" "CHR ''@'' \<notin> set (o' @ ''/'' @ n)" "o' @ ''/'' @ n \<noteq> []" using ao an by simp_all
  have "ascii_lower (CHR ''/'') \<noteq> CHR ''.''" by (simp add: ascii_lower_def byte_def)
  with ao(7) an(7) show "CHR ''.'' \<notin> ascii_lower ` set (o' @ ''/'' @ n)"
    by (simp only: set_append image_Un list.set image_insert image_empty Un_iff insert_iff empty_iff) metis
  show "\<forall>c\<in>set (o' @ ''/'' @ n). byte c < 128" using ao(8) an(8) by (simp add: ball_Un byte_def)
  show "trim_space (o' @ ''/'' @ n) = o' @ ''/'' @ n" "trim_space (''github.com/'' @ o' @ ''/'' @ n) = ''github.com/'' @ o' @ ''/'' @ n"
    "trim_space (''git@github.com:'' @ (o' @ ''/'' @ n) @ ''.git'') = ''git@github.com:'' @ (o' @ ''/'' @ n) @ ''.git''"
    using to tn ao(8) an(8) by (intro trim_space_id; auto simp: byte_def ascii_ws_def)+
qed

text \<open>The path that each form of a remote gives.\<close>

lemma pair_path:
  assumes "plain_name o'" "plain_name n"
  shows "remote_path parse (o' @ ''/'' @ n) = Inr (o' @ ''/'' @ n)"
proof -
  note p = plain_pair [OF assms]
  have "CHR ''.'' \<notin> set (to_lower (o' @ ''/'' @ n))"
    using p(4) unfolding to_lower_def map_runes_ascii [OF p(5)] set_map .
  then have "\<not> has_prefix ''github.com/'' (to_lower (o' @ ''/'' @ n))" by (auto simp: has_prefix_iff_prefix prefix_def)
  then show ?thesis using no_scheme [OF p(1)] absent_index [OF p(2)] by (simp add: remote_path_def)
qed

lemma host_path:
  assumes "plain_name o'" "plain_name n"
  shows "remote_path parse (''github.com/'' @ o' @ ''/'' @ n) = Inr (o' @ ''/'' @ n)"
proof -
  note p = plain_pair [OF assms]
  have s: "CHR '':'' \<notin> set (''github.com/'' @ o' @ ''/'' @ n)" "CHR ''@'' \<notin> set (''github.com/'' @ o' @ ''/'' @ n)"
    using p(1,2) by auto
  have "\<forall>c\<in>set (''github.com/'' @ o' @ ''/'' @ n). byte c < 128" using p(5) by (simp add: byte_def)
  then have "has_prefix ''github.com/'' (to_lower (''github.com/'' @ o' @ ''/'' @ n))"
    by (simp add: to_lower_def map_runes_ascii ascii_lower_def byte_def)
  then show ?thesis using no_scheme [OF s(1)] absent_index [OF s(2)] by (simp add: remote_path_def)
qed

lemma scp_path:
  assumes "plain_name o'" "plain_name n"
  shows "remote_path parse (''git@github.com:'' @ (o' @ ''/'' @ n) @ ''.git'') = Inr ((o' @ ''/'' @ n) @ ''.git'')"
proof -
  let ?p = "o' @ ''/'' @ n"
  note to = plain_name_trim [OF assms(1)] and co = plain_name_char [OF assms(1)]
  have "\<not> contains_str (''git@github.com:'' @ ?p @ ''.git'') ''://''"
  proof
    assume "contains_str (''git@github.com:'' @ ?p @ ''.git'') ''://''"
    then obtain u v where uv: "''git@github.com:'' @ ?p @ ''.git'' = u @ ''://'' @ v" unfolding contains_str_iff by blast
    then have "''git@github.com'' @ CHR '':'' # (?p @ ''.git'') = u @ CHR '':'' # (''//'' @ v)" by simp
    moreover have "CHR '':'' \<notin> set ''git@github.com''" "CHR '':'' \<notin> set (?p @ ''.git'')"
      using plain_pair(1) [OF assms] by auto
    ultimately have "?p @ ''.git'' = ''//'' @ v" using append_Cons_eq_iff by metis
    then have "hd o' = CHR ''/''" using to(2) by (cases o') simp_all
    then show False using to(3) co(3) by blast
  qed
  then show ?thesis by (simp add: remote_path_def github_def equal_fold_refl)
qed

lemma url_path:
  assumes "contains_str v ''://''" "parse v = Some u" "equal_fold (pu_hostname u) github"
    "pu_user u = None \<or> pu_user u = Some (''git'', False) \<and> equal_fold (pu_scheme u) ''ssh''"
  shows "remote_path parse v = Inr (pu_path u)"
  using assms by (auto simp: remote_path_def)

text \<open>C30: the forms of a remote agree. A repository that is written as \<open>owner/name\<close>, in the form of
  \<open>scp\<close>, under its host, or as a URL of GitHub (however the URL was parsed, with no user or as \<open>git\<close> over \<open>ssh\<close>
  without a password) is one and the same destination, so that an origin and a configured repository in different forms are
  not taken for different repositories.\<close>

theorem normalize_forms_agree:
  assumes "plain_name o'" "plain_name n"
  shows "normalize_repository parse (o' @ ''/'' @ n) = Inr (o' @ ''/'' @ n)
    \<and> normalize_repository parse (''git@github.com:'' @ o' @ ''/'' @ n @ ''.git'') = Inr (o' @ ''/'' @ n)
    \<and> normalize_repository parse (''github.com/'' @ o' @ ''/'' @ n) = Inr (o' @ ''/'' @ n)
    \<and> (\<forall>url u. contains_str (trim_space url) ''://'' \<and> parse (trim_space url) = Some u \<and> equal_fold (pu_hostname u) github
        \<and> (pu_user u = None \<or> pu_user u = Some (''git'', False) \<and> equal_fold (pu_scheme u) ''ssh'')
        \<and> pu_path u \<in> {CHR ''/'' # o' @ ''/'' @ n, CHR ''/'' # o' @ ''/'' @ n @ ''.git''}
        \<longrightarrow> normalize_repository parse url = Inr (o' @ ''/'' @ n))"
proof -
  let ?p = "o' @ ''/'' @ n"
  note finish = normalize_plain_repository [OF assms] and p = plain_pair [OF assms]
  have "normalize_repository parse ?p = Inr ?p"
    by (rule finish) (use p pair_path [OF assms] in auto)
  moreover have "normalize_repository parse (''github.com/'' @ ?p) = Inr ?p"
    by (rule finish) (use p(7) host_path [OF assms] in auto)
  moreover have "normalize_repository parse (''git@github.com:'' @ ?p @ ''.git'') = Inr ?p"
    by (rule finish) (use p(8) scp_path [OF assms] in auto)
  moreover have "normalize_repository parse url = Inr ?p"
    if "contains_str (trim_space url) ''://''" "parse (trim_space url) = Some u" "equal_fold (pu_hostname u) github"
      "pu_user u = None \<or> pu_user u = Some (''git'', False) \<and> equal_fold (pu_scheme u) ''ssh''"
      "pu_path u \<in> {CHR ''/'' # o' @ ''/'' @ n, CHR ''/'' # o' @ ''/'' @ n @ ''.git''}" for url u
  proof (rule finish)
    show "trim_space url \<noteq> []" using that(1) by (auto simp: contains_str_def)
    show "remote_path parse (trim_space url) = Inr (pu_path u)" using that by (intro url_path)
  qed (use that in auto)
  ultimately show ?thesis unfolding append_assoc by blast
qed


theorem normalize_forms_agree_witness:
  "normalize_repository (\<lambda>u. None) ''git@github.com:octo/re-po.git'' = normalize_repository (\<lambda>u. None) ''octo/re-po''"
  using normalize_forms_agree [of "''octo''" "''re-po''" "\<lambda>u. None"]
  by (simp add: plain_name_def is_letter_def byte_def)

text \<open>The form is not always canonical: only one suffix is taken off, so the result need not be its own normal form.\<close>

theorem normal_form_not_canonical:
  "normalize_repository parse ''o/n.git.git'' = Inr ''o/n.git'' \<and> normalize_repository parse ''o/n.git'' = Inr ''o/n''"
  by code_simp

text \<open>A path that is kept: it lies below the root as written, and below the real root once links are followed.\<close>

definition stays_in_repository :: "(string \<Rightarrow> clean_path res) \<Rightarrow> string \<Rightarrow> string \<Rightarrow> bool" where
  "stays_in_repository ev root p \<longleftrightarrow> (\<exists>c rest real c' rest'. p = path_text c \<and> cp_rooted c = cp_rooted (clean root)
     \<and> cp_parts c = cp_parts (clean root) @ rest
     \<and> ev root = Inr real \<and> eval_existing ev c [] = Some (Inr c') \<and> cp_rooted c' = cp_rooted real
     \<and> cp_parts c' = cp_parts real @ rest')"

lemma resolve_repository_path_confined:
  assumes "resolve_repository_path ev root v label = Some (Inr c)"
  shows "stays_in_repository ev root (path_text c)"
proof -
  from assms obtain real c' where "\<not> escapes (rel_parts (clean root) c)" "ev root = Inr real"
    "eval_existing ev c [] = Some (Inr c')" "\<not> escapes (rel_parts real c')"
    by (auto simp: resolve_repository_path_def path_within_existing_parent_def Let_def
        split: if_splits sum.splits option.splits)
  then show ?thesis unfolding stays_in_repository_def
    using not_escapes [of "clean root" c] not_escapes [of real c'] by metis
qed

lemma resolve_sources_confined:
  "resolve_sources ev root acc ss = Some (Inr rs) \<Longrightarrow> distinct (map sk_id acc) \<Longrightarrow> \<forall>s\<in>set acc. stays_in_repository ev root (sk_root s) \<Longrightarrow>
     distinct (map sk_id rs) \<and> (\<forall>s\<in>set rs. stays_in_repository ev root (sk_root s)) \<and> (\<exists>more'. rs = acc @ more' \<and> map sk_id more' = map fst ss)"
proof (induction ss arbitrary: acc)
  case Nil
  then show ?case by simp
next
  case (Cons a ss)
  obtain i path where a: "a = (i, path)" by (cases a)
  with Cons.prems(1) obtain r where r: "resolve_repository_path ev root path (''skill source '' @ i) = Some (Inr r)"
    "i \<notin> sk_id ` set acc" "resolve_sources ev root (acc @ [\<lparr>sk_id = i, sk_root = path_text r\<rparr>]) ss = Some (Inr rs)"
    by (auto split: if_splits option.splits sum.splits)
  from Cons.IH [OF r(3)] Cons.prems(2,3) r(2) resolve_repository_path_confined [OF r(1)] a show ?case by auto
qed

text \<open>C17: with skills enabled, the runtime lock and every skill source lie inside the
  repository, as they are written and also once symbolic links are followed; the repository's own source comes first and no
  two sources share an id.\<close>

theorem skill_inputs_confined:
  assumes "resolve_skills absolute ev c repository = Some (Inr r)" "rs_enabled r"
  shows "\<exists>root s. absolute repository = Inr root \<and> cf_skills c = Some s \<and> sl_enabled s
     \<and> stays_in_repository ev root (rs_runtime_lock r) \<and> (\<forall>x\<in>set (rs_sources r). stays_in_repository ev root (sk_root x))
     \<and> map sk_id (rs_sources r) = ''local'' # map fst (sl_sources s) \<and> distinct (map sk_id (rs_sources r))"
proof -
  from assms obtain s where s: "cf_skills c = Some s" "sl_enabled s"
    by (auto simp: resolve_skills_def no_skills_def split: option.splits if_splits)
  with assms(1) obtain root lock local_root sources as where
    1: "absolute repository = Inr root" "resolve_repository_path ev root (sl_runtime_lock s) ''skills.runtime_lock'' = Some (Inr lock)"
      "resolve_repository_path ev root ''.syntroph/skills'' ''implicit local skill source'' = Some (Inr local_root)"
      "resolve_sources ev root [\<lparr>sk_id = ''local'', sk_root = path_text local_root\<rparr>] (sl_sources s) = Some (Inr sources)"
    and r: "r = \<lparr>rs_enabled = True, rs_runtime_lock = path_text lock, rs_sources = sources, rs_aliases = as\<rparr>"
    by (auto simp: resolve_skills_def split: option.splits sum.splits)
  have "distinct (map sk_id sources) \<and> (\<forall>x\<in>set sources. stays_in_repository ev root (sk_root x))
      \<and> (\<exists>more'. sources = [\<lparr>sk_id = ''local'', sk_root = path_text local_root\<rparr>] @ more' \<and> map sk_id more' = map fst (sl_sources s))"
    by (rule resolve_sources_confined [OF 1(4)]) (simp_all add: resolve_repository_path_confined [OF 1(3)])
  then have "distinct (map sk_id sources)" "\<forall>x\<in>set sources. stays_in_repository ev root (sk_root x)"
    "map sk_id sources = ''local'' # map fst (sl_sources s)" by auto
  with s 1(1) r resolve_repository_path_confined [OF 1(2)] show ?thesis by simp
qed

definition sample_skills :: skills_config where
  "sample_skills = \<lparr>sl_enabled = True, sl_runtime_lock = ''d/lock.yaml'', sl_sources = [(''team'', ''d/skills'')], sl_aliases = []\<rparr>"

lemma sample_walk:
  "eval_existing sample_eval (join_text ''/r'' ''d/lock.yaml'') [] = Some (Inr \<lparr>cp_rooted = True, cp_parts = [''r'', ''d'', ''lock.yaml'']\<rparr>)"
  "eval_existing sample_eval (join_text ''/r'' ''d/skills'') [] = Some (Inr \<lparr>cp_rooted = True, cp_parts = [''r'', ''d'', ''skills'']\<rparr>)"
  "eval_existing sample_eval (join_text ''/r'' ''.syntroph/skills'') [] = Some (Inr \<lparr>cp_rooted = True, cp_parts = [''r'', ''.syntroph'', ''skills'']\<rparr>)"
  by code_simp+

theorem skill_inputs_confined_witness:
  "\<exists>r. resolve_skills Inr sample_eval (no_config\<lparr>cf_skills := Some sample_skills\<rparr>) ''/r'' = Some (Inr r)
     \<and> map sk_id (rs_sources r) = [''local'', ''team''] \<and> stays_in_repository sample_eval ''/r'' (rs_runtime_lock r)"
proof -
  let ?r = "\<lparr>rs_enabled = True, rs_runtime_lock = ''/r/d/lock.yaml'',
    rs_sources = [\<lparr>sk_id = ''local'', sk_root = ''/r/.syntroph/skills''\<rparr>, \<lparr>sk_id = ''team'', sk_root = ''/r/d/skills''\<rparr>], rs_aliases = []\<rparr>"
  have run: "resolve_skills Inr sample_eval (no_config\<lparr>cf_skills := Some sample_skills\<rparr>) ''/r'' = Some (Inr ?r)"
    by code_simp
  from skill_inputs_confined [OF run] show ?thesis using run by simp
qed

end
