(* ===== verification/Skill_Store_Facts.thy ===== *)
theory Skill_Store_Facts
  imports Skill_Store
begin

text \<open>
  What holds of the catalog on disk under every pattern of I/O errors and wherever the process is
  killed. A property of the disk that the environment does not influence is carried through an operation as soon as the
  operation's effects keep it: the locale \<^emph>\<open>disk_property\<close> proves this once for every operation, and its
  interpretations are the properties of the store, of the lock and of the staging
  area that the theorems need.
\<close>

section \<open>Properties of the disk\<close>

text \<open>The random source draws on the environment only, and gives the 16 bytes asked for.\<close>

definition random_source :: "('a cstate_scheme \<Rightarrow> string res \<times> 'a cstate_scheme) \<Rightarrow> bool" where
  "random_source rand =
     (\<forall>w. (\<exists>fs n. snd (rand w) = w\<lparr>faults := fs, reads := n\<rparr>) \<and> (\<forall>b. fst (rand w) = Inr b \<longrightarrow> length b = 16))"

text \<open>The owner that \<open>Sync\<close> makes for itself.\<close>

definition own_owner :: "catalog \<Rightarrow> sync_owner \<Rightarrow> bool" where
  "own_owner c me = (so_schema_version me = SyncLockSchemaVersion \<and> so_pid me = cc_pid c)"

text \<open>The changes of the staging area and of the store that a synchronisation makes.\<close>

definition keeps_owner :: "(staging_dir \<Rightarrow> staging_dir) \<Rightarrow> bool" where
  "keeps_owner f = (\<forall>d. sd_owner (f d) = sd_owner d)"

definition updates_staging :: "('a cstate_scheme \<Rightarrow> bool) \<Rightarrow> string \<Rightarrow> bool" where
  "updates_staging Q i = (\<forall>v f. Q v \<longrightarrow> cs_life v \<noteq> Some 0 \<longrightarrow> keeps_owner f \<longrightarrow> Q (upd_staging i f v))"

definition moves_objects :: "('a cstate_scheme \<Rightarrow> bool) \<Rightarrow> string \<Rightarrow> bool" where
  "moves_objects Q i = (\<forall>v h. Q v \<longrightarrow> cs_life v \<noteq> Some 0 \<longrightarrow> map_of (cs_objects v) h = None \<longrightarrow> Q (move_object i h v))"

definition materializes ::
  "('a cstate_scheme \<Rightarrow> bool) \<Rightarrow> (string \<Rightarrow> string) \<Rightarrow> source_view \<Rightarrow> catalog \<Rightarrow> string \<Rightarrow> bool" where
  "materializes Q sha sv c i =
     (\<forall>(src :: skill_source) directory d pkg files v r v'. load_package sha sv (sk_id src) (sk_root src) directory d = Some (Loaded pkg files)
        \<longrightarrow> materialize c i pkg files v = (r, v') \<longrightarrow> Q v \<longrightarrow> Q v')"

lemma keeps_owner_simps [simp]:
  "keeps_owner (upd_object h g)" "keeps_owner (\<lambda>d. d\<lparr>sd_objects := k d\<rparr>)" "keeps_owner (\<lambda>d. d\<lparr>sd_index := x\<rparr>)"
  by (simp_all add: keeps_owner_def upd_object_def split: option.split)

lemma updates_stagingD: "updates_staging Q i \<Longrightarrow> keeps_owner f \<Longrightarrow> Q v \<Longrightarrow> cs_life v \<noteq> Some 0 \<Longrightarrow> Q (upd_staging i f v)"
  by (simp add: updates_staging_def)

locale disk_property =
  fixes Q :: "'a cstate_scheme \<Rightarrow> bool"
  assumes env_free: "Q (w\<lparr>faults := fs\<rparr>) = Q w" "Q (w\<lparr>reads := n\<rparr>) = Q w"
    and life_step: "cs_life w = Some (Suc n) \<Longrightarrow> Q w \<Longrightarrow> Q v \<Longrightarrow> Q (v\<lparr>cs_life := Some n\<rparr>)"
begin

lemma io_Q [simp]: "Q (snd (try_io w)) = Q w" "Q (snd (ctx_err w)) = Q w" "Q (snd (try_ios n w)) = Q w"
    "Q (snd (sync_directory w)) = Q w" "Q (snd (time_now w)) = Q w"
proof -
  show "Q (snd (try_io w)) = Q w" using try_io_frame [of w "fst (try_io w)"] env_free(1) by (metis prod.collapse)
  show "Q (snd (ctx_err w)) = Q w" using ctx_err_frame [of w "fst (ctx_err w)"] env_free(1) by (metis prod.collapse)
  show ios: "Q (snd (try_ios n w)) = Q w" for n
    using try_ios_frame [of n w "fst (try_ios n w)"] env_free(1) by (metis prod.collapse)
  show "Q (snd (sync_directory w)) = Q w" by (simp add: sync_directory_def ios)
  show "Q (snd (time_now w)) = Q w" by (simp add: time_now_def env_free(2))
qed

lemma io_D:
  "try_io w = (r, w') \<Longrightarrow> Q w' = Q w" "ctx_err w = (r, w') \<Longrightarrow> Q w' = Q w" "try_ios n w = (r, w') \<Longrightarrow> Q w' = Q w"
  "sync_directory w = (r, w') \<Longrightarrow> Q w' = Q w" "time_now w = (t, w') \<Longrightarrow> Q w' = Q w"
  using io_Q by (metis snd_conv)+

lemma effect_Q: "(Q w \<Longrightarrow> cs_life w \<noteq> Some 0 \<Longrightarrow> Q (f w)) \<Longrightarrow> Q w \<Longrightarrow> Q (effect f w)"
  by (simp add: effect_def life_step split: option.split nat.split)

lemma attempt_Q:
  assumes "attempt f w = (r, w')" "Q w" "\<And>v. Q v \<Longrightarrow> cs_life v \<noteq> Some 0 \<Longrightarrow> Q (f v)"
  shows "Q w'"
  using assms by (auto simp: attempt_def dest: io_D split: prod.splits option.splits intro: effect_Q)

lemma write_atomic_Q:
  assumes "write_atomic_mode f w = (r, w')" "Q w" "\<And>v. Q v \<Longrightarrow> cs_life v \<noteq> Some 0 \<Longrightarrow> Q (f v)"
  shows "Q w'"
  using assms by (auto simp: write_atomic_mode_def dest!: io_D split: prod.splits option.splits intro: effect_Q)

lemma write_durable_Q:
  assumes "write_durable f g w = (r, w')" "Q w" "\<And>v. Q v \<Longrightarrow> cs_life v \<noteq> Some 0 \<Longrightarrow> Q (f v)" "\<And>v. Q v \<Longrightarrow> cs_life v \<noteq> Some 0 \<Longrightarrow> Q (g v)"
  shows "Q w'"
  using assms by (auto simp: write_durable_def dest!: io_D split: prod.splits option.splits intro: effect_Q)

lemma read_sync_owner_Q: "read_sync_owner f w = (r, w') \<Longrightarrow> Q w' = Q w"
  by (auto simp: read_sync_owner_def dest: io_D split: prod.splits option.splits)

lemma read_stored_package_Q: "read_stored_package h w = (r, w') \<Longrightarrow> Q w' = Q w"
  by (auto simp: read_stored_package_def dest: io_D
      split: prod.splits option.splits json_file.splits)

lemma release_Q:
  assumes "release_sync_lock me w = (r, w')" "Q w"
    "\<And>v ow. Q v \<Longrightarrow> cs_life v \<noteq> Some 0 \<Longrightarrow> decode_sync_owner (cs_lock v) = Inr ow \<Longrightarrow> so_owner_id ow = so_owner_id me \<Longrightarrow> Q (v\<lparr>cs_lock := None\<rparr>)"
  shows "Q w'"
proof (cases "read_sync_owner cs_lock w")
  case (Pair x w1)
  note q = read_sync_owner_Q [OF Pair]
  show ?thesis
  proof (cases "\<exists>ow. x = Inr ow \<and> so_owner_id ow = so_owner_id me")
    case False
    with assms Pair q show ?thesis by (auto simp: release_sync_lock_def split: sum.splits)
  next
    case True
    then obtain ow where ow: "x = Inr ow" "so_owner_id ow = so_owner_id me" by blast
    from Pair ow have dec: "decode_sync_owner (cs_lock w1) = Inr ow"
      by (auto simp: read_sync_owner_def split: prod.splits option.splits)
    obtain y w2 where a: "attempt (\<lambda>v. v\<lparr>cs_lock := None\<rparr>) w1 = (y, w2)" by (cases "attempt (\<lambda>v. v\<lparr>cs_lock := None\<rparr>) w1")
    obtain z w1' where t: "try_io w1 = (z, w1')" by (cases "try_io w1")
    from try_io_frame [OF t] have lock: "cs_lock w1' = cs_lock w1" by auto
    have "Q w2"
    proof (cases z)
      case None
      with a t have "w2 = effect (\<lambda>v. v\<lparr>cs_lock := None\<rparr>) w1'" by (simp add: attempt_def)
      moreover have "Q w1'" using io_D(1) [OF t] q assms(2) by simp
      ultimately show ?thesis using effect_Q [of w1'] assms(3) [of w1' ow] dec lock ow by simp
    next
      case (Some e)
      with a t io_D(1) [OF t] q assms(2) show ?thesis by (simp add: attempt_def)
    qed
    with assms(1) Pair ow a show ?thesis
      by (auto simp: release_sync_lock_def dest: io_D split: option.splits)
  qed
qed

lemma drop_candidate_Q:
  assumes "Q w" "\<And>v. Q v \<Longrightarrow> cs_life v \<noteq> Some 0 \<Longrightarrow> Q (v\<lparr>cs_candidates := map_del n (cs_candidates v)\<rparr>)"
  shows "Q (drop_candidate n w)"
proof -
  obtain r w' where a: "attempt (\<lambda>v. v\<lparr>cs_candidates := map_del n (cs_candidates v)\<rparr>) w = (r, w')"
    by (cases "attempt (\<lambda>v. v\<lparr>cs_candidates := map_del n (cs_candidates v)\<rparr>) w")
  from attempt_Q [OF a assms(1)] assms(2) a show ?thesis by (simp add: drop_candidate_def)
qed

lemma publish_candidate_Q:
  assumes "publish_lock_candidate taken link unlink w = (r, w')" "Q w"
    "\<And>v. Q v \<Longrightarrow> cs_life v \<noteq> Some 0 \<Longrightarrow> \<not> taken v \<Longrightarrow> Q (link v)" "\<And>v. Q v \<Longrightarrow> cs_life v \<noteq> Some 0 \<Longrightarrow> Q (unlink v)"
  shows "Q w'"
proof -
  obtain z w1 where t: "try_io w = (z, w1)" by (cases "try_io w")
  then have q1: "Q w1" using io_D(1) assms(2) by blast
  show ?thesis
  proof (cases "z = None \<and> \<not> taken w1")
    case False
    with assms(1) t q1 show ?thesis by (auto simp: publish_lock_candidate_def split: option.splits)
  next
    case True
    obtain y w2 where a: "attempt unlink (effect link w1) = (y, w2)" by (cases "attempt unlink (effect link w1)")
    have "Q (effect link w1)" using effect_Q q1 assms(3) True by blast
    from attempt_Q [OF a this assms(4)] have "Q w2" .
    with assms(1) t True a show ?thesis by (auto simp: publish_lock_candidate_def split: option.splits)
  qed
qed

lemma write_files_Q:
  "write_package_files i h fs w = (r, w') \<Longrightarrow> Q w \<Longrightarrow> updates_staging Q i \<Longrightarrow> Q w'"
proof (induction fs arbitrary: w)
  case (Cons f fs)
  obtain p data where f: "f = (p, data)" by (cases f)
  let ?dir = "upd_staging i (upd_object h (\<lambda>ob. ob\<lparr>ob_files := Some (case ob_files ob of None \<Rightarrow> [] | Some m \<Rightarrow> m)\<rparr>))"
  let ?create = "upd_staging i (upd_object h (put_file p []))"
  let ?fill = "upd_staging i (upd_object h (put_file p data))"
  obtain x w1 where a: "attempt ?dir w = (x, w1)" by (cases "attempt ?dir w")
  obtain y w2 where d: "write_durable ?create ?fill w1 = (y, w2)" by (cases "write_durable ?create ?fill w1")
  note keep = updates_stagingD [OF Cons.prems(3) keeps_owner_simps(1)]
  have q1: "Q w1" by (rule attempt_Q [OF a Cons.prems(2)]) (rule keep, assumption+)
  have q2: "Q w2" by (rule write_durable_Q [OF d q1]) (rule keep, assumption+)+
  from Cons.prems(1) f a d have "w' = w1 \<or> w' = w2 \<or> write_package_files i h fs w2 = (r, w')"
    by (auto split: option.splits)
  with q1 q2 Cons.IH [OF _ q2 Cons.prems(3)] show ?case by blast
qed simp

lemma publish_object_Q:
  assumes "publish_object i h w = (r, w')" "Q w" "moves_objects Q i"
  shows "Q w'"
proof -
  obtain z w1 where t: "try_io w = (z, w1)" by (cases "try_io w")
  with assms(2) have q1: "Q w1" using io_D(1) by blast
  with assms(3) have "map_of (cs_objects w1) h = None \<Longrightarrow> Q (effect (move_object i h) w1)"
    using effect_Q unfolding moves_objects_def by blast
  with assms(1) t q1 show ?thesis by (auto simp: publish_object_def split: option.splits if_splits)
qed

lemma fill_object_Q:
  assumes "fill_object c i pkg files w = (r, w')" "Q w" "updates_staging Q i" "moves_objects Q i"
  shows "Q w'"
proof -
  let ?h = "pi_package_hash (pk_identity pkg)"
  let ?create = "upd_staging i (upd_object ?h (\<lambda>ob. ob\<lparr>ob_package := Some BadFile\<rparr>))"
  let ?fill = "upd_staging i (upd_object ?h (\<lambda>ob. ob\<lparr>ob_package := Some (JsonFile (enc_package pkg))\<rparr>))"
  obtain x w1 where d: "write_durable ?create ?fill w = (x, w1)" by (cases "write_durable ?create ?fill w")
  obtain y w2 where f: "write_package_files i ?h files w1 = (y, w2)" by (cases "write_package_files i ?h files w1")
  obtain z w3 where t: "try_io w2 = (z, w3)" by (cases "try_io w2")
  obtain u w4 where p: "publish_object i ?h w3 = (u, w4)" by (cases "publish_object i ?h w3")
  obtain v w5 where s: "sync_directory w4 = (v, w5)" by (cases "sync_directory w4")
  note keep = updates_stagingD [OF assms(3) keeps_owner_simps(1)]
  have q1: "Q w1" by (rule write_durable_Q [OF d assms(2)]) (rule keep, assumption+)+
  have q2: "Q w2" by (rule write_files_Q [OF f q1 assms(3)])
  have q3: "Q w3" using q2 io_D(1) [OF t] by simp
  have q4: "Q w4" by (rule publish_object_Q [OF p q3 assms(4)])
  have q5: "Q w5" using q4 io_D(4) [OF s] by simp
  from assms(1) d f t p s have "w' \<in> {w1, w2, w3, w4, w5}"
    by (auto simp: fill_object_def Let_def split: option.splits)
  with q1 q2 q3 q4 q5 show ?thesis by blast
qed

lemma materialize_Q:
  assumes "materialize c i pkg files w = (r, w')" "Q w" "updates_staging Q i" "moves_objects Q i"
  shows "Q w'"
proof -
  let ?h = "pi_package_hash (pk_identity pkg)"
  let ?mk = "upd_staging i (\<lambda>d. d\<lparr>sd_objects := map_put ?h empty_object (sd_objects d)\<rparr>)"
  let ?rm = "upd_staging i (\<lambda>d. d\<lparr>sd_objects := map_del ?h (sd_objects d)\<rparr>)"
  obtain a w1 where 1: "try_io w = (a, w1)" by (cases "try_io w")
  obtain b w2 where 2: "try_io w1 = (b, w2)" by (cases "try_io w1")
  obtain d w3 where 3: "try_io w2 = (d, w3)" by (cases "try_io w2")
  obtain e w4 where 4: "try_io w3 = (e, w4)" by (cases "try_io w3")
  obtain x w5 where 5: "fill_object c i pkg files (effect ?mk w4) = (x, w5)"
    by (cases "fill_object c i pkg files (effect ?mk w4)")
  obtain y w6 where 6: "attempt ?rm w5 = (y, w6)" by (cases "attempt ?rm w5")
  have q: "Q w1" "Q w2" "Q w3" "Q w4" using io_D(1) 1 2 3 4 assms(2) by blast+
  have "Q (effect ?mk w4)" by (rule effect_Q [OF _ q(4)]) (rule updates_stagingD [OF assms(3) keeps_owner_simps(2)], assumption+)
  then have q5: "Q w5" by (rule fill_object_Q [OF 5 _ assms(3,4)])
  have q6: "Q w6" by (rule attempt_Q [OF 6 q5]) (rule updates_stagingD [OF assms(3) keeps_owner_simps(2)], assumption+)
  from assms(1) 1 2 3 4 5 6 have "w' \<in> {w1, w2, w3, w4, w6}"
    by (auto simp: materialize_def Let_def split: option.splits if_splits)
  with q q6 show ?thesis by blast
qed

lemma materializesI: "updates_staging Q i \<Longrightarrow> moves_objects Q i \<Longrightarrow> materializes Q sha sv c i"
  unfolding materializes_def using materialize_Q by blast

lemma load_into_store_Q:
  assumes "load_into_store sha sv c i src directory d w = (r, w')" "Q w" "materializes Q sha sv c i"
  shows "Q w'"
proof (cases "\<exists>pkg files. load_package sha sv (sk_id src) (sk_root src) directory d = Some (Loaded pkg files)")
  case False
  with assms(1,2) show ?thesis by (auto simp: load_into_store_def split: option.splits loaded.splits)
next
  case True
  then obtain pkg files where l: "load_package sha sv (sk_id src) (sk_root src) directory d = Some (Loaded pkg files)" by blast
  obtain x w1 where 1: "materialize c i pkg files w = (x, w1)" by (cases "materialize c i pkg files w")
  from assms(3) l 1 assms(2) have "Q w1" unfolding materializes_def by blast
  with assms(1) l 1 show ?thesis by (auto simp: load_into_store_def split: option.splits)
qed

lemma load_runtime_Q:
  "load_runtime_packages sha sv c i ver ds es w = (r, w') \<Longrightarrow> Q w \<Longrightarrow> materializes Q sha sv c i \<Longrightarrow> Q w'"
proof (induction ds arbitrary: es w)
  case (Cons d0 ds)
  let ?d = "if pd_schema_version d0 = 0 then d0\<lparr>pd_schema_version := ver\<rparr> else d0"
  obtain a w1 where 1: "ctx_err w = (a, w1)" by (cases "ctx_err w")
  with Cons.prems(2) have q1: "Q w1" using io_D(2) by blast
  show ?case
  proof (cases "find_source (rs_sources (cc_settings c)) (pd_source_id ?d)")
    case None
    with Cons.prems(1) 1 q1 show ?thesis by (auto simp: Let_def split: option.splits if_splits)
  next
    case (Some src)
    obtain x w2 where 2: "load_into_store sha sv c i src (pd_directory ?d) ?d w1 = (x, w2)"
      by (cases "load_into_store sha sv c i src (pd_directory ?d) ?d w1")
    have q2: "Q w2" by (rule load_into_store_Q [OF 2 q1 Cons.prems(3)])
    from Cons.prems(1) 1 Some 2 have "w' \<in> {w1, w2} \<or> (\<exists>es'. load_runtime_packages sha sv c i ver ds es' w2 = (r, w'))"
      by (simp add: Let_def split: option.splits if_splits sum.splits) blast+
    with q1 q2 Cons.IH [OF _ q2 Cons.prems(3)] show ?thesis by blast
  qed
qed simp

lemma load_local_Q:
  "load_local_directories sha sv yr c i src ds w = (r, w') \<Longrightarrow> Q w \<Longrightarrow> materializes Q sha sv c i \<Longrightarrow> Q w'"
proof (induction ds arbitrary: r w w')
  case (Cons nd ds)
  obtain name isdir where nd: "nd = (name, isdir)" by (cases nd)
  obtain a w1 where 1: "ctx_err w = (a, w1)" by (cases "ctx_err w")
  with Cons.prems(2) have q1: "Q w1" using io_D(2) by blast
  from Cons.prems(1) nd 1 have "w' = w1 \<or> load_local_directories sha sv yr c i src ds w1 = (r, w')
      \<or> (\<exists>r2 w2. (w2 = w1 \<or> (\<exists>d. load_into_store sha sv c i src name d w1 = (r2, w2)))
          \<and> (w' = w2 \<or> (\<exists>r3. load_local_directories sha sv yr c i src ds w2 = (r3, w'))))"
    by (simp split: option.splits if_splits sum.splits yaml_error.splits prod.splits) blast+
  with q1 Cons.IH [OF _ q1 Cons.prems(3)] show ?case
    using load_into_store_Q [OF _ q1 Cons.prems(3)] Cons.IH [OF _ _ Cons.prems(3)] by blast
qed simp

lemma collect_Q:
  assumes "collect_entries sha sv yr c i w = (r, w')" "Q w" "materializes Q sha sv c i"
  shows "Q w'"
proof (cases "\<exists>lk. read_strict_yaml sv (yr_lock yr) (yr_rest yr) (rs_runtime_lock (cc_settings c)) = Inr lk
    \<and> rl_schema_version lk = RuntimeLockSchemaVersion")
  case False
  with assms(1,2) show ?thesis by (auto simp: collect_entries_def split: sum.splits)
next
  case True
  then obtain lk where lk: "read_strict_yaml sv (yr_lock yr) (yr_rest yr) (rs_runtime_lock (cc_settings c)) = Inr lk"
    "rl_schema_version lk = RuntimeLockSchemaVersion" by blast
  let ?run = "load_runtime_packages sha sv c i (rl_schema_version lk) (rl_packages lk) [] w"
  obtain x w1 where 1: "?run = (x, w1)" by (cases ?run)
  have q1: "Q w1" by (rule load_runtime_Q [OF 1 assms(2,3)])
  show ?thesis
  proof (cases "\<exists>es src. x = Some (Inr es) \<and> find_source (rs_sources (cc_settings c)) ''local'' = Some src")
    case False
    with assms(1) lk 1 have "w' = w1"
      by (cases x; cases "the x") (auto simp: collect_entries_def split: option.splits)
    with q1 show ?thesis by simp
  next
    case True
    then obtain es src where es: "x = Some (Inr es)" "find_source (rs_sources (cc_settings c)) ''local'' = Some src" by blast
    obtain y w2 where 2: "load_local_packages sha sv yr c i src w1 = (y, w2)"
      by (cases "load_local_packages sha sv yr c i src w1")
    with q1 have "Q w2"
      by (auto simp: load_local_packages_def split: sum.splits if_splits intro: load_local_Q [OF _ _ assms(3)])
    moreover from assms(1) lk 1 es 2 have "w' = w2"
      by (cases y; cases "the y"; cases "add_unique_entries es (projr (the y))") (simp_all add: collect_entries_def)
    ultimately show ?thesis by simp
  qed
qed

lemma stage_index_Q:
  assumes "stage_index c i es w = (r, w')" "Q w" "updates_staging Q i"
  shows "Q w'"
proof -
  let ?ix = "\<lparr>ci_schema_version = 1, ci_aliases = clone_aliases (rs_aliases (cc_settings c)), ci_entries = es\<rparr>"
  let ?f = "upd_staging i (\<lambda>d. d\<lparr>sd_index := Some (index_text ?ix)\<rparr>)"
  obtain x w1 where a: "write_atomic_mode ?f w = (x, w1)" by (cases "write_atomic_mode ?f w")
  have "Q w1" by (rule write_atomic_Q [OF a assms(2)]) (rule updates_stagingD [OF assms(3) keeps_owner_simps(3)], assumption+)
  with assms(1) a show ?thesis by (auto simp: stage_index_def split: option.splits)
qed

lemma verify_summaries_Q: "verify_summaries ss w = (r, w') \<Longrightarrow> Q w' = Q w"
proof (induction ss arbitrary: w)
  case (Cons s ss)
  obtain x w1 where 1: "read_stored_package (pi_package_hash (es_identity s)) w = (x, w1)"
    by (cases "read_stored_package (pi_package_hash (es_identity s)) w")
  with Cons read_stored_package_Q [OF 1] show ?case by (auto split: if_splits sum.splits)
qed simp

lemma verify_staged_Q: "verify_staged_index i w = (r, w') \<Longrightarrow> Q w' = Q w"
  by (auto simp: verify_staged_index_def dest: io_D(1) verify_summaries_Q
      split: prod.splits option.splits json_file.splits if_splits)

lemma publish_lock_Q:
  assumes "publish_sync_lock c me w = (r, w')" "Q w"
    and link: "\<And>v. Q v \<Longrightarrow> cs_life v \<noteq> Some 0 \<Longrightarrow> cs_lock v = None \<Longrightarrow> Q (v\<lparr>cs_lock := Some (JsonFile (enc_owner me))\<rparr>)"
    and drop: "\<And>v. Q v \<Longrightarrow> cs_life v \<noteq> Some 0 \<Longrightarrow> Q (v\<lparr>cs_candidates := map_del (candidate_name (so_owner_id me)) (cs_candidates v)\<rparr>)"
    and free: "\<And>v ow. Q v \<Longrightarrow> cs_life v \<noteq> Some 0 \<Longrightarrow> decode_sync_owner (cs_lock v) = Inr ow \<Longrightarrow> so_owner_id ow = so_owner_id me
      \<Longrightarrow> Q (v\<lparr>cs_lock := None\<rparr>)"
  shows "Q w'"
proof -
  let ?n = "candidate_name (so_owner_id me)"
  let ?pub = "publish_lock_candidate (\<lambda>v. cs_lock v \<noteq> None) (\<lambda>v. v\<lparr>cs_lock := Some (JsonFile (enc_owner me))\<rparr>)
      (\<lambda>v. v\<lparr>cs_candidates := map_del ?n (cs_candidates v)\<rparr>) w"
  obtain pe w1 where 0: "?pub = (pe, w1)" by (cases ?pub)
  obtain pb er where pe: "pe = (pb, er)" by (cases pe)
  note 1 = 0 [unfolded pe]
  have q1: "Q w1" by (rule publish_candidate_Q [OF 1 assms(2)]) (use link drop in auto)
  obtain x2 w2 where 2: "read_sync_owner cs_lock w1 = (x2, w2)" by (cases "read_sync_owner cs_lock w1")
  with q1 have q2: "Q w2" using read_sync_owner_Q by blast
  obtain x3 w3 where 3: "release_sync_lock me w1 = (x3, w3)" by (cases "release_sync_lock me w1")
  have q3: "Q w3" by (rule release_Q [OF 3 q1]) (rule free, assumption+)
  obtain x4 w4 where 4: "sync_directory w1 = (x4, w4)" by (cases "sync_directory w1")
  with q1 have q4: "Q w4" using io_D(4) by blast
  obtain x5 w5 where 5: "release_sync_lock me w4 = (x5, w5)" by (cases "release_sync_lock me w4")
  have q5: "Q w5" by (rule release_Q [OF 5 q4]) (rule free, assumption+)
  have dq: "Q v \<Longrightarrow> Q (drop_candidate ?n v)" for v by (rule drop_candidate_Q) (use drop in auto)
  from assms(1) 1 2 3 4 5 have "w' \<in> {drop_candidate ?n w1, drop_candidate ?n w2, drop_candidate ?n w3, w4, w5}"
    by (auto simp: publish_sync_lock_def Let_def split: option.splits if_splits sum.splits)
  with q1 q2 q3 q4 q5 dq show ?thesis by blast
qed

lemma sync_cleanup_Q:
  assumes "sync_cleanup me er w = (r, w')" "Q w"
    and gone: "\<And>v. Q v \<Longrightarrow> cs_life v \<noteq> Some 0 \<Longrightarrow> Q (v\<lparr>cs_staging := map_del (so_owner_id me) (cs_staging v)\<rparr>)"
    and free: "\<And>v ow. Q v \<Longrightarrow> cs_life v \<noteq> Some 0 \<Longrightarrow> decode_sync_owner (cs_lock v) = Inr ow \<Longrightarrow> so_owner_id ow = so_owner_id me
      \<Longrightarrow> Q (v\<lparr>cs_lock := None\<rparr>)"
  shows "Q w'"
proof -
  let ?f = "\<lambda>v. v\<lparr>cs_staging := map_del (so_owner_id me) (cs_staging v)\<rparr>"
  obtain x w1 where 1: "attempt ?f w = (x, w1)" by (cases "attempt ?f w")
  have q1: "Q w1" by (rule attempt_Q [OF 1 assms(2) gone])
  obtain y w2 where 2: "release_sync_lock me w1 = (y, w2)" by (cases "release_sync_lock me w1")
  have q2: "Q w2" by (rule release_Q [OF 2 q1]) (rule free, assumption+)
  from assms(1) 1 2 have "w' = w1 \<or> w' = w2" by (auto simp: sync_cleanup_def split: option.splits)
  with q1 q2 show ?thesis by blast
qed

lemma through_candidate_Q:
  assumes "lock_through_candidate c me w = (r, w')" "Q w"
    and cand: "\<And>v. Q v \<Longrightarrow> cs_life v \<noteq> Some 0 \<Longrightarrow>
      Q (v\<lparr>cs_candidates := map_put (candidate_name (so_owner_id me)) (JsonFile (enc_owner me)) (cs_candidates v)\<rparr>)"
    and drop: "\<And>v. Q v \<Longrightarrow> cs_life v \<noteq> Some 0 \<Longrightarrow> Q (v\<lparr>cs_candidates := map_del (candidate_name (so_owner_id me)) (cs_candidates v)\<rparr>)"
    and pub: "\<And>v x v'. publish_sync_lock c me v = (x, v') \<Longrightarrow> Q v \<Longrightarrow> Q v'"
  shows "Q w'" "r = Inr q \<Longrightarrow> \<exists>v. Q v \<and> publish_sync_lock c me v = (Inr q, w')"
proof -
  let ?n = "candidate_name (so_owner_id me)"
  let ?pub = "publish_lock_candidate (\<lambda>v. map_of (cs_candidates v) ?n \<noteq> None)
      (\<lambda>v. v\<lparr>cs_candidates := map_put ?n (JsonFile (enc_owner me)) (cs_candidates v)\<rparr>) (\<lambda>v. v) w"
  obtain pe w1 where 10: "?pub = (pe, w1)" by (cases ?pub)
  obtain pb f where pe: "pe = (pb, f)" by (cases pe)
  note 1 = 10 [unfolded pe]
  obtain g w2 where 2: "sync_directory w1 = (g, w2)" by (cases "sync_directory w1")
  obtain h w3 where 3: "publish_sync_lock c me w2 = (h, w3)" by (cases "publish_sync_lock c me w2")
  have q1: "Q w1" by (rule publish_candidate_Q [OF 1 assms(2)]) (use cand in auto)
  have q2: "Q w2" using q1 io_D(4) [OF 2] by simp
  have q3: "Q w3" by (rule pub [OF 3 q2])
  have dq: "Q v \<Longrightarrow> Q (drop_candidate ?n v)" for v by (rule drop_candidate_Q) (use drop in auto)
  from assms(1) 1 2 3 have "w' \<in> {w1, drop_candidate ?n w1, drop_candidate ?n w2, w3}
      \<and> (r = Inr q \<longrightarrow> publish_sync_lock c me w2 = (Inr q, w'))"
    by (auto simp: lock_through_candidate_def Let_def split: option.splits if_splits)
  with q1 q2 q3 dq show "Q w'" "r = Inr q \<Longrightarrow> \<exists>v. Q v \<and> publish_sync_lock c me v = (Inr q, w')"
    by blast+
qed

text \<open>Publishing the lock when it is taken: no part of the lock changes.\<close>

lemma publish_taken_Q:
  assumes "publish_sync_lock c me w = (r, w')" "Q w" "\<And>v. Q v \<Longrightarrow> cs_lock v \<noteq> None"
    and drop: "\<And>v. Q v \<Longrightarrow> cs_life v \<noteq> Some 0 \<Longrightarrow> Q (v\<lparr>cs_candidates := map_del (candidate_name (so_owner_id me)) (cs_candidates v)\<rparr>)"
  shows "Q w'" "r \<noteq> Inr (Acquired ow)"
proof -
  let ?n = "candidate_name (so_owner_id me)"
  obtain x w1 where 1: "try_io w = (x, w1)" by (cases "try_io w")
  have q1: "Q w1" using assms(2) io_D(1) [OF 1] by simp
  obtain y w2 where 2: "read_sync_owner cs_lock w1 = (y, w2)" by (cases "read_sync_owner cs_lock w1")
  have q2: "Q w2" using q1 read_sync_owner_Q [OF 2] by simp
  have dq: "Q v \<Longrightarrow> Q (drop_candidate ?n v)" for v by (rule drop_candidate_Q) (use drop in auto)
  from assms(1) 1 2 assms(3) [OF q1] have "w' \<in> {drop_candidate ?n w1, drop_candidate ?n w2} \<and> r \<noteq> Inr (Acquired ow)"
    by (auto simp: publish_sync_lock_def publish_lock_candidate_def Let_def split: option.splits if_splits sum.splits)
  with q1 q2 dq show "Q w'" "r \<noteq> Inr (Acquired ow)" by blast+
qed

text \<open>
  The body of a synchronisation, for a property that its changes of the staging area and of the store keep: it
  either stops before the publication, or runs the verification of the staged index and then the
  publication.
\<close>

lemma body_Q:
  assumes "sync_body sha sv yr c me w = (r, w')" "Q w" "updates_staging Q (so_owner_id me)" "materializes Q sha sv c (so_owner_id me)"
    and own: "\<forall>v. Q v \<longrightarrow> cs_life v \<noteq> Some 0 \<longrightarrow> Q (upd_staging (so_owner_id me) (\<lambda>d. d\<lparr>sd_owner := Some (JsonFile (enc_owner me))\<rparr>) v)"
  obtains (stopped) "Q w'" "\<And>res. r \<noteq> Some (res, None)"
  | (published) es w2 w3 w4 e where "Q w2" "stage_index c (so_owner_id me) (summarize_entries es) w2 = (None, w3)"
      "verify_staged_index (so_owner_id me) w3 = (None, w4)" "Q w4"
      "publish_staged_index (so_owner_id me) w4 = (e, w')"
      "\<And>res. r = Some (res, None) \<Longrightarrow> e = None \<and> sy_entries res = summarize_entries es"
proof -
  let ?i = "so_owner_id me"
  let ?f = "upd_staging ?i (\<lambda>d. d\<lparr>sd_owner := Some (JsonFile (enc_owner me))\<rparr>)"
  obtain a w1 where 1: "write_atomic_mode ?f w = (a, w1)" by (cases "write_atomic_mode ?f w")
  have q1: "Q w1" by (rule write_atomic_Q [OF 1 assms(2)]) (use own in blast)
  obtain x w2 where 2: "collect_entries sha sv yr c ?i w1 = (x, w2)" by (cases "collect_entries sha sv yr c ?i w1")
  have q2: "Q w2" by (rule collect_Q [OF 2 q1 assms(4)])
  show thesis
  proof (cases "a = None \<and> reach_checkpoint c ''staging_created'' = None \<and> (\<exists>es port. x = Some (Inr es)
      \<and> new_skill_port es (rs_aliases (cc_settings c)) = Inr port) \<and> reach_checkpoint c ''store_ready'' = None")
    case False
    with assms(1) 1 2 have "w' \<in> {w1, w2} \<and> (\<forall>res. r \<noteq> Some (res, None))"
      by (auto simp: sync_body_def Let_def split: option.splits sum.splits)
    with q1 q2 stopped show thesis by blast
  next
    case True
    then obtain es port where es: "x = Some (Inr es)" "new_skill_port es (rs_aliases (cc_settings c)) = Inr port" by blast
    obtain b w3 where 3: "stage_index c ?i (summarize_entries es) w2 = (b, w3)" by (cases "stage_index c ?i (summarize_entries es) w2")
    have q3: "Q w3" by (rule stage_index_Q [OF 3 q2 assms(3)])
    obtain d w4 where 4: "verify_staged_index ?i w3 = (d, w4)" by (cases "verify_staged_index ?i w3")
    have q4: "Q w4" using q3 verify_staged_Q [OF 4] by simp
    obtain e w5 where 5: "publish_staged_index ?i w4 = (e, w5)" by (cases "publish_staged_index ?i w4")
    show thesis
    proof (cases "b = None \<and> d = None \<and> reach_checkpoint c ''index_staged'' = None")
      case False
      with assms(1) 1 2 True es 3 4 have "w' \<in> {w3, w4} \<and> (\<forall>res. r \<noteq> Some (res, None))"
        by (auto simp: sync_body_def Let_def split: option.splits)
      with q3 q4 stopped show thesis by blast
    next
      case t: True
      with assms(1) 1 2 True es 3 4 5 have "w' = w5"
        "\<And>res. r = Some (res, None) \<Longrightarrow> e = None \<and> sy_entries res = summarize_entries es"
        by (auto simp: sync_body_def Let_def split: option.splits)
      with t q2 q4 3 4 5 show thesis by (intro published [of w2 es w3 w4 e]) auto
    qed
  qed
qed

lemma publish_index_Q:
  assumes "publish_staged_index i w = (r, w')" "Q w"
    and index: "\<And>v f. Q v \<Longrightarrow> cs_life v \<noteq> Some 0 \<Longrightarrow> Q (v\<lparr>cs_index := Some f\<rparr>)"
  shows "Q w'"
proof -
  obtain x w1 where 1: "try_io w = (x, w1)" by (cases "try_io w")
  have q1: "Q w1" using assms(2) io_D(1) [OF 1] by simp
  show ?thesis
  proof (cases "staged_index i w1")
    case None
    with assms(1) 1 q1 show ?thesis by (auto simp: publish_staged_index_def split: option.splits)
  next
    case (Some f)
    obtain y w2 where 2: "write_atomic_mode (\<lambda>v. v\<lparr>cs_index := Some f\<rparr>) w1 = (y, w2)"
      by (cases "write_atomic_mode (\<lambda>v. v\<lparr>cs_index := Some f\<rparr>) w1")
    have "Q w2" by (rule write_atomic_Q [OF 2 q1]) (rule index, assumption+)
    with assms(1) 1 Some 2 q1 show ?thesis by (auto simp: publish_staged_index_def split: option.splits)
  qed
qed

lemma body_all_Q:
  assumes "sync_body sha sv yr c me w = (r, w')" "Q w" "updates_staging Q (so_owner_id me)" "materializes Q sha sv c (so_owner_id me)"
    "\<forall>v. Q v \<longrightarrow> cs_life v \<noteq> Some 0 \<longrightarrow> Q (upd_staging (so_owner_id me) (\<lambda>d. d\<lparr>sd_owner := Some (JsonFile (enc_owner me))\<rparr>) v)"
    and index: "\<And>v f. Q v \<Longrightarrow> cs_life v \<noteq> Some 0 \<Longrightarrow> Q (v\<lparr>cs_index := Some f\<rparr>)"
  shows "Q w'"
proof (cases rule: body_Q [OF assms(1-5), case_names stopped published])
  case (published es w2 w3 w4 e)
  show ?thesis by (rule publish_index_Q [OF published(5,4)]) (rule index, assumption+)
qed

end

text \<open>
  An acquisition reads the environment, makes itself an owner, and goes on through the candidate; what it may fail with
  before that leaves the disk alone.
\<close>

definition env_only :: "'a cstate_scheme \<Rightarrow> 'a cstate_scheme \<Rightarrow> bool" where
  "env_only w v = (v = w\<lparr>faults := faults v, reads := reads v\<rparr>)"

lemma env_only_refl [simp]: "env_only w w"
  by (simp add: env_only_def)

lemma env_only_trans: "env_only u v \<Longrightarrow> env_only v w \<Longrightarrow> env_only u w"
  unfolding env_only_def by (cases u; cases v; cases w) simp

lemma env_only_steps:
  "try_io w = (r, w') \<Longrightarrow> env_only w w'" "ctx_err w = (r, w') \<Longrightarrow> env_only w w'"
  "try_ios n w = (r, w') \<Longrightarrow> env_only w w'" "time_now w = (t, w') \<Longrightarrow> env_only w w'"
  by (auto simp: env_only_def time_now_def dest!: try_io_frame ctx_err_frame try_ios_frame)

definition drawn_id :: "('a cstate_scheme \<Rightarrow> string res \<times> 'a cstate_scheme) \<Rightarrow> catalog \<Rightarrow> sync_owner \<Rightarrow> bool" where
  "drawn_id rand c me = (\<exists>v v'. random_sync_owner_id rand (cc_pid c) v = (so_owner_id me, v'))"

lemma acquire_start:
  assumes "acquire_sync_lock rand c w = (r, w')" "random_source rand"
  shows "(\<exists>e. r = Inl e) \<and> env_only w w'
    \<or> (\<exists>me v. own_owner c me \<and> drawn_id rand c me \<and> (\<exists>n. so_started_at me = clock w n) \<and> env_only w v
         \<and> lock_through_candidate c me v = (r, w'))"
proof -
  obtain a w1 where 1: "ctx_err w = (a, w1)" by (cases "ctx_err w")
  obtain b w2 where 2: "try_io w1 = (b, w2)" by (cases "try_io w1")
  obtain t w3 where 3: "time_now w2 = (t, w3)" by (cases "time_now w2")
  obtain i w4 where 4: "random_sync_owner_id rand (cc_pid c) w3 = (i, w4)" by (cases "random_sync_owner_id rand (cc_pid c) w3")
  obtain d w5 where 5: "try_io w4 = (d, w5)" by (cases "try_io w4")
  obtain e w6 where 6: "try_ios 4 w5 = (e, w6)" by (cases "try_ios 4 w5")
  let ?me = "\<lparr>so_schema_version = SyncLockSchemaVersion, so_pid = cc_pid c, so_started_at = t, so_owner_id = i\<rparr>"
  have "env_only w3 w4"
  proof -
    obtain x v where x: "rand w3 = (x, v)" by (cases "rand w3")
    from assms(2) obtain fs n where "snd (rand w3) = w3\<lparr>faults := fs, reads := n\<rparr>" unfolding random_source_def by blast
    with x have "env_only w3 v" by (simp add: env_only_def)
    with 4 x show ?thesis
      by (auto simp: random_sync_owner_id_def split: sum.splits prod.splits dest: env_only_steps(4) intro: env_only_trans)
  qed
  then have env: "env_only w w1" "env_only w w2" "env_only w w5" "env_only w w6"
    using env_only_steps(2) [OF 1] env_only_steps(1) [OF 2] env_only_steps(4) [OF 3] env_only_steps(1) [OF 5] env_only_steps(3) [OF 6]
    by (blast intro: env_only_trans)+
  have "clock w2 = clock w" using env(2) unfolding env_only_def by (cases w; cases w2) simp
  then have "t = clock w (reads w2)" using 3 by (simp add: time_now_def)
  then have me: "own_owner c ?me" "drawn_id rand c ?me" "\<exists>n. so_started_at ?me = clock w n"
    using 4 by (auto simp: own_owner_def drawn_id_def)
  from assms(1) 1 2 3 4 5 6 have "(\<exists>e. r = Inl e) \<and> w' \<in> {w1, w2, w5, w6} \<or> lock_through_candidate c ?me w6 = (r, w')"
    by (auto simp: acquire_sync_lock_def split: option.splits)
  with env me show ?thesis by blast
qed

context disk_property
begin

lemma env_only_Q: "env_only w v \<Longrightarrow> Q v = Q w"
  unfolding env_only_def using env_free by metis

text \<open>The acquisition, for a property that the changes of the lock and of the candidates keep.\<close>

lemma acquire_Q:
  assumes "acquire_sync_lock rand c w = (r, w')" "Q w" "random_source rand"
    and cand: "\<And>v n f. Q v \<Longrightarrow> cs_life v \<noteq> Some 0 \<Longrightarrow> Q (v\<lparr>cs_candidates := map_put n f (cs_candidates v)\<rparr>)"
    and drop: "\<And>v n. Q v \<Longrightarrow> cs_life v \<noteq> Some 0 \<Longrightarrow> Q (v\<lparr>cs_candidates := map_del n (cs_candidates v)\<rparr>)"
    and pub: "\<And>me v x v'. publish_sync_lock c me v = (x, v') \<Longrightarrow> Q v \<Longrightarrow> Q v'"
  shows "Q w'" "r = Inr q \<Longrightarrow> \<exists>me v. Q v \<and> publish_sync_lock c me v = (Inr q, w')"
proof -
  from acquire_start [OF assms(1,3)] consider (early) "\<exists>e. r = Inl e" "env_only w w'"
    | (through) me v where "env_only w v" "lock_through_candidate c me v = (r, w')" by blast
  then have "Q w' \<and> (r = Inr q \<longrightarrow> (\<exists>me v. Q v \<and> publish_sync_lock c me v = (Inr q, w')))"
  proof cases
    case early
    with assms(2) show ?thesis by (auto simp: env_only_Q)
  next
    case through
    from through(1) assms(2) have q: "Q v" by (simp add: env_only_Q)
    have "Q w'" by (rule through_candidate_Q(1) [OF through(2) q]) (erule (1) cand, erule (1) drop, erule (1) pub)
    moreover have "\<exists>v. Q v \<and> publish_sync_lock c me v = (Inr q, w')" if "r = Inr q"
      by (rule through_candidate_Q(2) [OF through(2) q _ _ _ that]) (erule (1) cand, erule (1) drop, erule (1) pub)
    ultimately show ?thesis by blast
  qed
  then show "Q w'" "r = Inr q \<Longrightarrow> \<exists>me v. Q v \<and> publish_sync_lock c me v = (Inr q, w')" by blast+
qed

end

text \<open>The shape of a synchronisation.\<close>

lemma sync_cases:
  assumes "sync_catalog sha rand sv yr c w = (r, w')"
  obtains (outside) w1 where "ctx_err w = (None, w1) \<and> (\<exists>q. acquire_sync_lock rand c w1 = (q, w') \<and> (\<forall>me. q \<noteq> Inr (Acquired me)))
        \<or> (\<exists>e. ctx_err w = (Some e, w'))" "\<exists>res e. r = Some (res, e) \<and> (e = None \<longrightarrow> sy_state res = SyncInProgress)"
  | (released) w1 me w2 w3 e x where "ctx_err w = (None, w1)" "acquire_sync_lock rand c w1 = (Inr (Acquired me), w2)"
      "attempt (make_staging (so_owner_id me)) w2 = (Some e, w3)" "release_sync_lock me w3 = (x, w')"
      "\<And>res. r \<noteq> Some (res, None)"
  | (ran) w1 me w2 w3 q w4 where "ctx_err w = (None, w1)" "acquire_sync_lock rand c w1 = (Inr (Acquired me), w2)"
      "attempt (make_staging (so_owner_id me)) w2 = (None, w3)" "sync_body sha sv yr c me w3 = (q, w4)"
      "q = None \<and> r = None \<and> w' = w4 \<or> (\<exists>res er er'. q = Some (res, er) \<and> sync_cleanup me er w4 = (er', w')
          \<and> r = Some (res, bound_sync_diagnostic er'))"
proof -
  obtain a w1 where 1: "ctx_err w = (a, w1)" by (cases "ctx_err w")
  obtain b w2 where 2: "acquire_sync_lock rand c w1 = (b, w2)" by (cases "acquire_sync_lock rand c w1")
  show thesis
  proof (cases "a = None \<and> (\<exists>me. b = Inr (Acquired me))")
    case False
    with assms 1 2 have "w' = (if a = None then w2 else w1)"
      "\<exists>res e. r = Some (res, e) \<and> (e = None \<longrightarrow> sy_state res = SyncInProgress)"
      by (auto simp: sync_catalog_def Let_def bound_sync_diagnostic_def zero_sync_def
          split: option.splits sum.splits acquired.splits process_state.splits if_splits)
    with False 1 2 show thesis by (intro outside [of w1]) auto
  next
    case True
    then obtain me where me: "a = None" "b = Inr (Acquired me)" by blast
    obtain d w3 where 3: "attempt (make_staging (so_owner_id me)) w2 = (d, w3)" by (cases "attempt (make_staging (so_owner_id me)) w2")
    show thesis
    proof (cases d)
      case (Some e)
      obtain x w4 where 4: "release_sync_lock me w3 = (x, w4)" by (cases "release_sync_lock me w3")
      from assms 1 2 me 3 Some 4 have r: "w' = w4" "r = Some (zero_sync, bound_sync_diagnostic
          (join_errs (Some (wrap_with ''create skill catalog staging directory'' e)) x))"
        by (auto simp: sync_catalog_def Let_def)
      have "bound_sync_diagnostic (join_errs (Some y) x) \<noteq> None" for y
        by (cases x) (auto simp: bound_sync_diagnostic_def)
      with r 1 2 me 3 4 Some show thesis by (intro released [of w1 me w2 e w3 x]) auto
    next
      case None
      obtain q w4 where 4: "sync_body sha sv yr c me w3 = (q, w4)" by (cases "sync_body sha sv yr c me w3")
      with assms 1 2 me 3 None have "q = None \<and> r = None \<and> w' = w4 \<or> (\<exists>res er er'. q = Some (res, er)
          \<and> sync_cleanup me er w4 = (er', w') \<and> r = Some (res, bound_sync_diagnostic er'))"
        by (cases q) (auto simp: sync_catalog_def Let_def split: prod.splits)
      with 1 2 me 3 None 4 show thesis by (intro ran [of w1 me w2 w3 q w4]) auto
    qed
  qed
qed

section \<open>The store and the index\<close>

text \<open>The index is this one, these objects are there, and a process that nobody kills is alive.\<close>

definition store_kept :: "nat option \<Rightarrow> (string \<times> store_object) list \<Rightarrow> index_file option \<Rightarrow> 'a cstate_scheme \<Rightarrow> bool" where
  "store_kept l objs ix v =
     ((l = None \<longrightarrow> cs_life v = None) \<and> cs_index v = ix
      \<and> (\<forall>h ob. map_of objs h = Some ob \<longrightarrow> map_of (cs_objects v) h = Some ob))"

interpretation store_kept: disk_property "store_kept l objs ix" for l objs ix
  by unfold_locales (simp_all add: store_kept_def)

lemma upd_staging_frame [simp]:
  "cs_objects (upd_staging i f v) = cs_objects v" "cs_index (upd_staging i f v) = cs_index v"
  "cs_lock (upd_staging i f v) = cs_lock v" "cs_candidates (upd_staging i f v) = cs_candidates v"
  "cs_life (upd_staging i f v) = cs_life v" "j \<noteq> i \<Longrightarrow> map_of (cs_staging (upd_staging i f v)) j = map_of (cs_staging v) j"
  "map_of (cs_staging (upd_staging i f v)) i = map_option f (map_of (cs_staging v) i)"
  by (simp_all add: upd_staging_def split: option.split)

lemma move_object_frame [simp]:
  "cs_index (move_object i h v) = cs_index v" "cs_lock (move_object i h v) = cs_lock v"
  "cs_candidates (move_object i h v) = cs_candidates v" "cs_life (move_object i h v) = cs_life v"
  "h' \<noteq> h \<Longrightarrow> map_of (cs_objects (move_object i h v)) h' = map_of (cs_objects v) h'"
  by (simp_all add: move_object_def split: option.split)

lemma store_kept_closed [simp]:
  "store_kept l objs ix (v\<lparr>cs_lock := lk\<rparr>) = store_kept l objs ix v"
  "store_kept l objs ix (v\<lparr>cs_candidates := cs\<rparr>) = store_kept l objs ix v"
  "store_kept l objs ix (v\<lparr>cs_staging := st\<rparr>) = store_kept l objs ix v"
  "store_kept l objs ix (upd_staging i f v) = store_kept l objs ix v"
  "updates_staging (store_kept l objs ix) i" "moves_objects (store_kept l objs ix) i"
proof -
  show "moves_objects (store_kept l objs ix) i"
    unfolding moves_objects_def
  proof (intro allI impI)
    fix v :: "'d cstate_scheme" and h
    assume k: "store_kept l objs ix v" "map_of (cs_objects v) h = None"
    have "map_of (cs_objects (move_object i h v)) h' = Some ob" if "map_of objs h' = Some ob" for h' ob
      using k that by (cases "h' = h") (auto simp: store_kept_def)
    with k(1) show "store_kept l objs ix (move_object i h v)" by (simp add: store_kept_def)
  qed
qed (simp_all add: store_kept_def updates_staging_def)

lemma store_kept_staging [simp]: "store_kept l objs ix (make_staging i v) = store_kept l objs ix v"
  by (simp add: make_staging_def)

lemma store_kept_acquire:
  assumes "acquire_sync_lock rand c w = (r, w')" "random_source rand" "store_kept l objs ix w"
  shows "store_kept l objs ix w'"
  by (rule store_kept.acquire_Q(1) [OF assms(1,3,2)]) (simp_all add: store_kept.publish_lock_Q)

lemma store_kept_release: "release_sync_lock me w = (r, w') \<Longrightarrow> store_kept l objs ix w \<Longrightarrow> store_kept l objs ix w'"
  by (rule store_kept.release_Q) simp_all

lemma store_kept_cleanup: "sync_cleanup me er w = (r, w') \<Longrightarrow> store_kept l objs ix w \<Longrightarrow> store_kept l objs ix w'"
  by (rule store_kept.sync_cleanup_Q) simp_all

text \<open>What the store holds for a package hash, and an index whose Ready entries are all there.\<close>

definition stored_package :: "(string \<times> store_object) list \<Rightarrow> string \<Rightarrow> skill_package option" where
  "stored_package m h =
     (case Option.bind (map_of m h) ob_package of Some (JsonFile j) \<Rightarrow> dec_package j | _ \<Rightarrow> None)"

definition file_index :: "index_file \<Rightarrow> catalog_index option" where
  "file_index f = (case if_content f of JsonFile j \<Rightarrow> dec_index j | BadFile \<Rightarrow> None)"

definition stored_ready :: "(string \<times> store_object) list \<Rightarrow> entry_summary \<Rightarrow> bool" where
  "stored_ready m s = (es_state s = SkillReady \<longrightarrow>
     map_option pk_identity (stored_package m (pi_package_hash (es_identity s))) = Some (es_identity s))"

definition index_complete :: "(string \<times> store_object) list \<Rightarrow> index_file \<Rightarrow> bool" where
  "index_complete m f =
     (case file_index f of
        None \<Rightarrow> False
      | Some ix \<Rightarrow> ci_schema_version ix = 1 \<and> list_all (stored_ready m) (ci_entries ix))"

lemma read_stored_frame: "read_stored_package h w = (r, w') \<Longrightarrow> \<exists>fs. w' = w\<lparr>faults := fs\<rparr>"
  by (auto simp: read_stored_package_def dest: try_io_frame split: prod.splits option.splits json_file.splits)

lemma read_stored_Some:
  assumes "read_stored_package h w = (Inr pkg, w')"
  shows "stored_package (cs_objects w) h = Some pkg"
proof -
  obtain x w1 where 1: "try_io w = (x, w1)" by (cases "try_io w")
  from try_io_frame [OF 1] have "cs_objects w1 = cs_objects w" by auto
  with assms 1 show ?thesis
    by (auto simp: read_stored_package_def stored_package_def split: option.splits json_file.splits)
qed

lemma verify_summaries_ready:
  "verify_summaries ss w = (None, w') \<Longrightarrow> list_all (stored_ready (cs_objects w)) ss \<and> (\<exists>fs. w' = w\<lparr>faults := fs\<rparr>)"
proof (induction ss arbitrary: w)
  case (Cons s ss)
  show ?case
  proof (cases "es_state s = SkillReady")
    case False
    with Cons show ?thesis by (simp add: stored_ready_def)
  next
    case True
    obtain x w1 where 1: "read_stored_package (pi_package_hash (es_identity s)) w = (x, w1)"
      by (cases "read_stored_package (pi_package_hash (es_identity s)) w")
    from Cons.prems True 1 obtain pkg where pkg: "x = Inr pkg" "pk_identity pkg = es_identity s"
      "verify_summaries ss w1 = (None, w')"
      by (auto split: sum.splits if_splits)
    from read_stored_frame [OF 1] obtain fs where "w1 = w\<lparr>faults := fs\<rparr>" by blast
    with Cons.IH [OF pkg(3)] read_stored_Some [OF 1 [unfolded pkg(1)]] pkg(2) True show ?thesis
      by (auto simp: stored_ready_def)
  qed
qed simp

lemma verify_staged_complete:
  assumes "verify_staged_index i w = (None, w')"
  shows "\<exists>f fs. staged_index i w = Some f \<and> index_complete (cs_objects w) f \<and> w' = w\<lparr>faults := fs\<rparr>"
proof -
  obtain x w1 where 1: "try_io w = (x, w1)" by (cases "try_io w")
  from try_io_frame [OF 1] obtain fs where fs: "w1 = w\<lparr>faults := fs\<rparr>" by blast
  from assms 1 obtain f j ix where f: "staged_index i w1 = Some f" "if_content f = JsonFile j" "dec_index j = Some ix"
    "ci_schema_version ix = 1" "verify_summaries (ci_entries ix) w1 = (None, w')"
    by (auto simp: verify_staged_index_def split: option.splits json_file.splits if_splits)
  from verify_summaries_ready [OF f(5)] f fs show ?thesis
    by (auto simp: index_complete_def file_index_def staged_index_def)
qed

lemma publish_staged_shape:
  assumes "publish_staged_index i w = (e, w')"
  shows "cs_objects w' = cs_objects w"
    "cs_index w' = cs_index w \<or> (\<exists>f. staged_index i w = Some f \<and> cs_index w' = Some f)"
    "e = None \<Longrightarrow> cs_life w = None \<Longrightarrow> \<exists>f. staged_index i w = Some f \<and> cs_index w' = Some f"
proof -
  obtain x w1 where 1: "try_io w = (x, w1)" by (cases "try_io w")
  from try_io_frame [OF 1] obtain fs where fs: "w1 = w\<lparr>faults := fs\<rparr>" by blast
  then have same: "cs_objects w1 = cs_objects w" "cs_index w1 = cs_index w" "staged_index i w1 = staged_index i w"
    "cs_life w1 = cs_life w" by (simp_all add: staged_index_def)
  have atomic: "cs_objects v' = cs_objects v \<and> (cs_index v' = cs_index v \<or> cs_index v' = Some f)
      \<and> (a = None \<and> cs_life v = None \<longrightarrow> cs_index v' = Some f)"
    if "write_atomic_mode (\<lambda>v. v\<lparr>cs_index := Some f\<rparr>) v = (a, v')" for v v' :: "'a cstate_scheme" and f a
    using that by (auto simp: write_atomic_mode_def effect_def dest!: try_ios_frame split: prod.splits option.splits nat.splits)
  have "cs_objects w' = cs_objects w \<and> (cs_index w' = cs_index w \<or> (\<exists>f. staged_index i w = Some f \<and> cs_index w' = Some f))
     \<and> (e = None \<and> cs_life w = None \<longrightarrow> (\<exists>f. staged_index i w = Some f \<and> cs_index w' = Some f))"
  proof (cases "\<exists>f. x = None \<and> staged_index i w = Some f")
    case False
    with assms 1 same show ?thesis by (auto simp: publish_staged_index_def split: option.splits)
  next
    case True
    then obtain f where f: "x = None" "staged_index i w = Some f" by blast
    obtain a w2 where 2: "write_atomic_mode (\<lambda>v. v\<lparr>cs_index := Some f\<rparr>) w1 = (a, w2)"
      by (cases "write_atomic_mode (\<lambda>v. v\<lparr>cs_index := Some f\<rparr>) w1")
    from assms 1 f same 2 have "w' = w2" "e = None \<Longrightarrow> a = None"
      by (auto simp: publish_staged_index_def split: option.splits)
    with atomic [OF 2] same f show ?thesis by auto
  qed
  then show "cs_objects w' = cs_objects w"
    "cs_index w' = cs_index w \<or> (\<exists>f. staged_index i w = Some f \<and> cs_index w' = Some f)"
    "e = None \<Longrightarrow> cs_life w = None \<Longrightarrow> \<exists>f. staged_index i w = Some f \<and> cs_index w' = Some f" by auto
qed

text \<open>The index that a synchronisation of these entries publishes.\<close>

definition new_index :: "catalog \<Rightarrow> entry_summary list \<Rightarrow> catalog_index" where
  "new_index c es = \<lparr>ci_schema_version = 1, ci_aliases = clone_aliases (rs_aliases (cc_settings c)), ci_entries = es\<rparr>"

lemma new_index_fields [simp]:
  "ci_schema_version (new_index c es) = 1" "ci_entries (new_index c es) = es"
  "ci_aliases (new_index c es) = clone_aliases (rs_aliases (cc_settings c))"
  by (simp_all add: new_index_def)

lemma stage_index_staged:
  assumes "stage_index c i es w = (None, w')" "cs_life w = None" "staged_index i w' = Some f"
  shows "f = index_text (new_index c es)"
proof -
  have atomic: "staged_index i v' = Some f \<Longrightarrow> f = g"
    if "write_atomic_mode (upd_staging i (\<lambda>d. d\<lparr>sd_index := Some g\<rparr>)) v = (None, v')" "cs_life v = None"
    for v v' :: "'a cstate_scheme" and g
    using that by (auto simp: write_atomic_mode_def effect_def staged_index_def bind_eq_Some_conv dest!: try_ios_frame split: prod.splits option.splits)
  with assms show ?thesis by (auto simp: stage_index_def new_index_def split: prod.splits option.splits)
qed

lemma body_publishes:
  assumes "sync_body sha sv yr c me w = (r, w')"
  shows "\<forall>h ob. map_of (cs_objects w) h = Some ob \<longrightarrow> map_of (cs_objects w') h = Some ob"
    "cs_index w' = cs_index w \<or> (\<exists>f. cs_index w' = Some f \<and> index_complete (cs_objects w') f)"
    "cs_life w = None \<Longrightarrow> r = Some (res, None) \<Longrightarrow> cs_index w' = Some (index_text (new_index c (sy_entries res)))
      \<and> index_complete (cs_objects w') (index_text (new_index c (sy_entries res)))"
proof -
  let ?Q = "store_kept (cs_life w) (cs_objects w) (cs_index w)"
  have start: "?Q w" by (simp add: store_kept_def)
  have own: "\<forall>v. ?Q v \<longrightarrow> cs_life v \<noteq> Some 0 \<longrightarrow> ?Q (upd_staging (so_owner_id me) (\<lambda>d. d\<lparr>sd_owner := Some (JsonFile (enc_owner me))\<rparr>) v)"
    by simp
  have "(\<forall>h ob. map_of (cs_objects w) h = Some ob \<longrightarrow> map_of (cs_objects w') h = Some ob)
    \<and> (cs_index w' = cs_index w \<or> (\<exists>f. cs_index w' = Some f \<and> index_complete (cs_objects w') f))
    \<and> (cs_life w = None \<and> r = Some (res, None) \<longrightarrow> cs_index w' = Some (index_text (new_index c (sy_entries res)))
      \<and> index_complete (cs_objects w') (index_text (new_index c (sy_entries res))))"
  proof (cases rule: store_kept.body_Q [OF assms start store_kept_closed(5) store_kept.materializesI [OF store_kept_closed(5,6)] own, case_names stopped published])
    case stopped
    then show ?thesis by (auto simp: store_kept_def)
  next
    case (published es w2 w3 w4 e)
    from verify_staged_complete [OF published(3)] obtain f fs where f: "staged_index (so_owner_id me) w3 = Some f"
      "index_complete (cs_objects w3) f" "w4 = w3\<lparr>faults := fs\<rparr>" by blast
    then have w4: "staged_index (so_owner_id me) w4 = Some f" "cs_objects w4 = cs_objects w3" "cs_life w4 = cs_life w3"
      by (simp_all add: staged_index_def)
    note p = publish_staged_shape [OF published(5)]
    have "f = index_text (new_index c (summarize_entries es))" if "cs_life w = None"
      using stage_index_staged [OF published(2) _ f(1)] published(1) that by (simp add: store_kept_def)
    with p w4 f(2) published(4,6) show ?thesis by (auto simp: store_kept_def)
  qed
  then show "\<forall>h ob. map_of (cs_objects w) h = Some ob \<longrightarrow> map_of (cs_objects w') h = Some ob"
    "cs_index w' = cs_index w \<or> (\<exists>f. cs_index w' = Some f \<and> index_complete (cs_objects w') f)"
    "cs_life w = None \<Longrightarrow> r = Some (res, None) \<Longrightarrow> cs_index w' = Some (index_text (new_index c (sy_entries res)))
      \<and> index_complete (cs_objects w') (index_text (new_index c (sy_entries res)))"
    by auto
qed

lemma index_complete_mono:
  "index_complete m f \<Longrightarrow> \<forall>h ob. map_of m h = Some ob \<longrightarrow> map_of m' h = Some ob \<Longrightarrow> index_complete m' f"
  by (auto simp: index_complete_def stored_ready_def stored_package_def list_all_iff split: option.splits bind_splits)

lemma store_kept_attempt_staging:
  "attempt (make_staging i) w = (r, w') \<Longrightarrow> store_kept l objs ix w \<Longrightarrow> store_kept l objs ix w'"
  by (rule store_kept.attempt_Q, assumption, assumption) simp

lemma bounded_none [simp]:
  "bound_sync_diagnostic e = None \<longleftrightarrow> e = None" "None = bound_sync_diagnostic e \<longleftrightarrow> e = None"
  by (auto simp: bound_sync_diagnostic_def split: option.split)

lemma join_errs_none [simp]: "join_errs a b = None \<longleftrightarrow> a = None \<and> b = None"
  by (cases a; cases b) simp_all

section \<open>Properties of publication\<close>

lemma sync_publishes_core:
  assumes "sync_catalog sha rand sv yr c w = (r, w')" "random_source rand"
  shows "(\<forall>h ob. map_of (cs_objects w) h = Some ob \<longrightarrow> map_of (cs_objects w') h = Some ob)
    \<and> (cs_index w' = cs_index w \<or> (\<exists>f. cs_index w' = Some f \<and> index_complete (cs_objects w') f))
    \<and> (cs_life w = None \<and> r = Some (res, None) \<and> sy_state res = SyncSucceeded
         \<longrightarrow> cs_index w' = Some (index_text (new_index c (sy_entries res)))
      \<and> index_complete (cs_objects w') (index_text (new_index c (sy_entries res))))"
proof -
  let ?Q = "store_kept (cs_life w) (cs_objects w) (cs_index w)"
  have start: "?Q w" by (simp add: store_kept_def)
  show ?thesis
    using assms(1)
  proof (cases rule: sync_cases)
    case (outside w1)
    have "?Q w'"
      using outside(1) start store_kept.io_D(2) store_kept_acquire [OF _ assms(2)] by blast
    with outside(2) show ?thesis by (auto simp: store_kept_def SyncSucceeded_def SyncInProgress_def)
  next
    case (released w1 me w2 w3 e x)
    have "?Q w1" using start store_kept.io_D(2) [OF released(1)] by blast
    from store_kept_release [OF released(4) store_kept_attempt_staging [OF released(3)
        store_kept_acquire [OF released(2) assms(2) this]]]
    have "?Q w'" .
    with released(5) show ?thesis by (auto simp: store_kept_def)
  next
    case (ran w1 me w2 w3 q w4)
    have "?Q w1" using start store_kept.io_D(2) [OF ran(1)] by blast
    from store_kept_attempt_staging [OF ran(3) store_kept_acquire [OF ran(2) assms(2) this]]
    have q3: "?Q w3" .
    note b = body_publishes [OF ran(4)]
    have after: "cs_index w' = cs_index w4 \<and> (\<forall>h ob. map_of (cs_objects w4) h = Some ob \<longrightarrow> map_of (cs_objects w') h = Some ob)"
      using ran(5) store_kept_cleanup [of me _ w4 _ w' "cs_life w4" "cs_objects w4" "cs_index w4"] by (auto simp: store_kept_def)
    have "cs_index w' = cs_index w \<or> (\<exists>f. cs_index w' = Some f \<and> index_complete (cs_objects w') f)"
      using b(2) after q3 index_complete_mono by (fastforce simp: store_kept_def)
    moreover have "cs_index w' = Some (index_text (new_index c (sy_entries res)))
      \<and> index_complete (cs_objects w') (index_text (new_index c (sy_entries res)))"
      if "cs_life w = None" "r = Some (res, None)"
    proof -
      from ran(5) that obtain er er' where "q = Some (res, er)" "sync_cleanup me er w4 = (er', w')" "er' = None" by auto
      then have "q = Some (res, None)" by (auto simp: sync_cleanup_def split: prod.splits option.splits)
      with b(3) q3 that have "cs_index w4 = Some (index_text (new_index c (sy_entries res)))"
        "index_complete (cs_objects w4) (index_text (new_index c (sy_entries res)))" by (auto simp: store_kept_def)
      with after index_complete_mono show ?thesis by auto
    qed
    ultimately show ?thesis using b(1) after q3 by (auto simp: store_kept_def)
  qed
qed

text \<open>C9: whatever fails while a synchronisation runs, and wherever its process
  is killed, no object of the store is lost or rewritten, and readers find either the index they had or one whose Ready
  entries all are in the store under their own identity; a synchronisation that reports success, of a process that
  lived, has published exactly the entries it reports.\<close>

theorem sync_publishes_complete_index:
  assumes "sync_catalog sha rand sv yr c w = (r, w')" "random_source rand"
  shows "(\<forall>h ob. map_of (cs_objects w) h = Some ob \<longrightarrow> map_of (cs_objects w') h = Some ob)
    \<and> (cs_index w' = cs_index w \<or> (\<exists>f. cs_index w' = Some f \<and> index_complete (cs_objects w') f))
    \<and> (cs_life w = None \<and> r = Some (res, None) \<and> sy_state res = SyncSucceeded
         \<longrightarrow> cs_index w' = Some (index_text (new_index c (sy_entries res)))
      \<and> index_complete (cs_objects w') (index_text (new_index c (sy_entries res))))"
  by (rule sync_publishes_core [OF assms])

text \<open>The catalog belongs to this owner, and its store, index and staging area are these.\<close>

definition owned_kept :: "'a cstate_scheme \<Rightarrow> 'a cstate_scheme \<Rightarrow> bool" where
  "owned_kept w v = (cs_lock w \<noteq> None \<and> cs_lock v = cs_lock w \<and> cs_objects v = cs_objects w \<and> cs_index v = cs_index w
     \<and> cs_staging v = cs_staging w)"

interpretation owned_kept: disk_property "owned_kept w" for w :: "'a cstate_scheme"
  by unfold_locales (simp_all add: owned_kept_def)

lemma owned_kept_candidates [simp]: "owned_kept w (v\<lparr>cs_candidates := cs\<rparr>) = owned_kept w v"
  by (simp add: owned_kept_def)

lemma owned_acquire:
  assumes "acquire_sync_lock rand c w = (r, w')" "random_source rand" "owned_kept w0 w"
  shows "owned_kept w0 w'" "r \<noteq> Inr (Acquired me)"
proof -
  have pub: "owned_kept w0 v'" if "publish_sync_lock c m v = (x, v')" "owned_kept w0 v" for m v x v'
    using that by (rule owned_kept.publish_taken_Q) (auto simp: owned_kept_def)
  show "owned_kept w0 w'"
    by (rule owned_kept.acquire_Q(1) [OF assms(1,3,2)]) (simp, simp, erule (1) pub)
  show "r \<noteq> Inr (Acquired me)"
  proof
    assume eq: "r = Inr (Acquired me)"
    have "\<exists>m v. owned_kept w0 v \<and> publish_sync_lock c m v = (Inr (Acquired me), w')"
      by (rule owned_kept.acquire_Q(2) [OF assms(1,3,2)]) (simp, simp, erule (1) pub, rule eq)
    then obtain m v where "owned_kept w0 v" "publish_sync_lock c m v = (Inr (Acquired me), w')" by blast
    with owned_kept.publish_taken_Q(2) [OF this(2,1)] show False by (auto simp: owned_kept_def)
  qed
qed

text \<open>While the lock file is there, whoever wrote it and whatever it holds, a
  synchronisation changes neither the lock, nor the store, nor the index, nor anything staged, and never
  reports success: it ends as in progress, as needing recovery, or with an error.\<close>

theorem sync_respects_owner:
  assumes "sync_catalog sha rand sv yr c w = (r, w')" "random_source rand" "cs_lock w \<noteq> None"
  shows "cs_lock w' = cs_lock w \<and> cs_objects w' = cs_objects w \<and> cs_index w' = cs_index w \<and> cs_staging w' = cs_staging w
    \<and> (\<exists>res e. r = Some (res, e) \<and> (e = None \<longrightarrow> sy_state res = SyncInProgress))"
proof -
  have start: "owned_kept w w" using assms(3) by (simp add: owned_kept_def)
  have none: False if "ctx_err w = (None, w1)" "acquire_sync_lock rand c w1 = (Inr (Acquired me), w2)" for w1 me w2
    using owned_acquire(2) [OF that(2) assms(2)] start owned_kept.io_D(2) [OF that(1), of w] by blast
  show ?thesis
    using assms(1)
  proof (cases rule: sync_cases)
    case (outside w1)
    have "owned_kept w w'"
      using outside(1) start owned_kept.io_D(2) owned_acquire(1) [OF _ assms(2)] by blast
    with outside(2) show ?thesis by (simp add: owned_kept_def)
  qed (use none in blast)+
qed

section \<open>Recovery\<close>

lemma read_owner_frame:
  assumes "read_sync_owner f w = (r, w')" "\<And>fs. f (w\<lparr>faults := fs\<rparr>) = f w"
  shows "\<exists>fs. w' = w\<lparr>faults := fs\<rparr>" "r = Inr ow \<Longrightarrow> decode_sync_owner (f w) = Inr ow"
proof -
  obtain x w1 where 1: "try_io w = (x, w1)" by (cases "try_io w")
  from try_io_frame [OF 1] obtain fs where "w1 = w\<lparr>faults := fs\<rparr>" by blast
  with assms 1 show "\<exists>fs. w' = w\<lparr>faults := fs\<rparr>" "r = Inr ow \<Longrightarrow> decode_sync_owner (f w) = Inr ow"
    by (auto simp: read_sync_owner_def split: option.splits)
qed

lemma discover_frame:
  "discover_candidates ns w = (r, w') \<Longrightarrow> (\<exists>fs. w' = w\<lparr>faults := fs\<rparr>)
     \<and> (\<forall>cs. r = Inr cs \<longrightarrow> (\<forall>(n, ow) \<in> set cs. decode_sync_owner (map_of (cs_candidates w) n) = Inr ow))"
proof (induction ns arbitrary: w r w')
  case (Cons n ns)
  obtain x w1 where 1: "try_io w = (x, w1)" by (cases "try_io w")
  from try_io_frame [OF 1] obtain fs1 where fs1: "w1 = w\<lparr>faults := fs1\<rparr>" by blast
  let ?get = "\<lambda>v. map_of (cs_candidates v) n"
  obtain y w2 where 2: "read_sync_owner ?get w1 = (y, w2)" by (cases "read_sync_owner ?get w1")
  from read_owner_frame(1) [OF 2] obtain fs2 where fs2: "w2 = w1\<lparr>faults := fs2\<rparr>" by auto
  have dec: "decode_sync_owner (map_of (cs_candidates w) n) = Inr ow" if "y = Inr ow" for ow
    using read_owner_frame(2) [OF 2 _ that] fs1 by simp
  have same: "\<exists>fs. w1 = w\<lparr>faults := fs\<rparr>" "\<exists>fs. w2 = w\<lparr>faults := fs\<rparr>" using fs1 fs2 by auto
  obtain q w3 where 3: "discover_candidates ns w2 = (q, w3)" by (cases "discover_candidates ns w2")
  note IH2 = Cons.IH [OF 3]
  show ?case
  proof (cases x)
    case (Some e)
    show ?thesis
    proof (cases "errors_is e ErrNotExist")
      case True
      with Cons.prems 1 Some have "discover_candidates ns w1 = (r, w')" by simp
      from Cons.IH [OF this] fs1 show ?thesis by auto
    next
      case False
      with Cons.prems 1 Some fs1 show ?thesis by auto
    qed
  next
    case None
    show ?thesis
    proof (cases y)
      case (Inl e)
      with Cons.prems 1 2 3 None have "r = q \<and> w' = w3 \<or> (\<exists>e. r = Inl e) \<and> w' = w2" by (auto split: if_splits)
      with IH2 fs1 fs2 show ?thesis by auto
    next
      case (Inr ow)
      with Cons.prems 1 2 3 None have "(\<exists>e. r = Inl e) \<and> (w' = w2 \<or> w' = w3)
          \<or> (\<exists>cs. q = Inr cs \<and> r = Inr ((n, ow) # cs) \<and> w' = w3)"
        by (auto split: if_splits sum.splits)
      with IH2 fs1 fs2 dec [OF Inr] show ?thesis by auto
    qed
  qed
qed auto

lemma inspect_frame:
  assumes "inspect_sync_recovery c w = (r, w')"
  shows "\<exists>fs. w' = w\<lparr>faults := fs\<rparr>"
    "r = Inr q \<Longrightarrow> rc_owner q = Some ow \<Longrightarrow> decode_sync_owner (cs_lock w) = Inr ow"
    "r = Inr q \<Longrightarrow> (n, ow) \<in> set (rc_candidates q) \<Longrightarrow> decode_sync_owner (map_of (cs_candidates w) n) = Inr ow"
proof -
  obtain x w1 where 1: "ctx_err w = (x, w1)" by (cases "ctx_err w")
  from ctx_err_frame [OF 1] obtain fs1 where fs1: "w1 = w\<lparr>faults := fs1\<rparr>" by blast
  let ?ns = "sort (map fst (cs_candidates w1))"
  obtain y w2 where 2: "discover_candidates ?ns w1 = (y, w2)" by (cases "discover_candidates ?ns w1")
  note d = discover_frame [OF 2]
  then obtain fs2 where fs2: "w2 = w1\<lparr>faults := fs2\<rparr>" by blast
  obtain z w3 where 3: "read_sync_owner cs_lock w2 = (z, w3)" by (cases "read_sync_owner cs_lock w2")
  from read_owner_frame(1) [OF 3] obtain fs3 where fs3: "w3 = w2\<lparr>faults := fs3\<rparr>" by auto
  have lock: "decode_sync_owner (cs_lock w) = Inr ow" if "z = Inr ow" for ow
    using read_owner_frame(2) [OF 3 _ that] fs1 fs2 by simp
  from assms 1 2 3 have "w' \<in> {w1, w2, w3}"
    by (auto simp: inspect_sync_recovery_def split: option.splits sum.splits if_splits)
  with fs1 fs2 fs3 show "\<exists>fs. w' = w\<lparr>faults := fs\<rparr>" by auto
  show "decode_sync_owner (cs_lock w) = Inr ow" if "r = Inr q" "rc_owner q = Some ow"
    using assms 1 2 3 that lock by (auto simp: inspect_sync_recovery_def split: option.splits sum.splits if_splits)
  show "decode_sync_owner (map_of (cs_candidates w) n) = Inr ow" if "r = Inr q" "(n, ow) \<in> set (rc_candidates q)"
  proof -
    from assms 1 2 3 that obtain cs where "y = Inr cs" "(n, ow) \<in> set cs"
      by (auto simp: inspect_sync_recovery_def split: option.splits sum.splits if_splits)
    with d fs1 show ?thesis by fastforce
  qed
qed

lemma check_staging_frame: "check_staging_owner ow w = (r, w') \<Longrightarrow> \<exists>fs. w' = w\<lparr>faults := fs\<rparr>"
proof -
  assume a: "check_staging_owner ow w = (r, w')"
  let ?get = "\<lambda>v. Option.bind (map_of (cs_staging v) (so_owner_id ow)) sd_owner"
  obtain x w1 where 1: "read_sync_owner ?get w = (x, w1)" by (cases "read_sync_owner ?get w")
  from read_owner_frame(1) [OF 1] obtain fs where "w1 = w\<lparr>faults := fs\<rparr>" by auto
  with a 1 show ?thesis
    by (auto simp: check_staging_owner_def split: sum.splits if_splits prod.splits option.splits dest!: try_io_frame)
qed

text \<open>
  Compared with a state: the store and the index are the same, and whatever is gone of the lock, of the
  staging area and of the candidates was recorded for a process that is dead.
\<close>

definition dead_owner :: "catalog \<Rightarrow> json_file option \<Rightarrow> bool" where
  "dead_owner c f = (case decode_sync_owner f of Inr ow \<Rightarrow> cc_process_state c (so_pid ow) = ProcessDead | Inl e \<Rightarrow> False)"

definition only_dead_gone :: "catalog \<Rightarrow> 'a cstate_scheme \<Rightarrow> 'a cstate_scheme \<Rightarrow> bool" where
  "only_dead_gone c w v =
     (cs_objects v = cs_objects w \<and> cs_index v = cs_index w
      \<and> (cs_lock v = cs_lock w \<or> cs_lock v = None \<and> dead_owner c (cs_lock w))
      \<and> (\<forall>i. map_of (cs_staging v) i = map_of (cs_staging w) i
          \<or> map_of (cs_staging v) i = None \<and> dead_owner c (cs_lock w)
            \<and> map_sum id so_owner_id (decode_sync_owner (cs_lock w)) = Inr i)
      \<and> (\<forall>n. map_of (cs_candidates v) n = map_of (cs_candidates w) n
          \<or> map_of (cs_candidates v) n = None \<and> dead_owner c (map_of (cs_candidates w) n)))"

interpretation only_dead: disk_property "only_dead_gone c w" for c and w :: "'a cstate_scheme"
  by unfold_locales (simp_all add: only_dead_gone_def)

lemma remove_candidates_dead:
  "remove_candidates ns v = (r, v') \<Longrightarrow> only_dead_gone c w v \<Longrightarrow>
     \<forall>n \<in> set ns. dead_owner c (map_of (cs_candidates w) n) \<Longrightarrow> only_dead_gone c w v'"
proof (induction ns arbitrary: v)
  case (Cons n ns)
  let ?f = "\<lambda>v. v\<lparr>cs_candidates := map_del n (cs_candidates v)\<rparr>"
  obtain x v1 where 1: "attempt ?f v = (x, v1)" by (cases "attempt ?f v")
  have "only_dead_gone c w v1"
    by (rule only_dead.attempt_Q [OF 1 Cons.prems(2)]) (use Cons.prems(3) in \<open>simp add: only_dead_gone_def\<close>)
  with Cons.IH [of v1] Cons.prems 1 show ?case by (auto split: option.splits if_splits)
qed simp

lemma clear_orphaned_dead:
  assumes "clear_orphaned ow ns v = (r, v')" "only_dead_gone c w v"
    "\<And>x. ow = Some x \<Longrightarrow> decode_sync_owner (cs_lock w) = Inr x \<and> cc_process_state c (so_pid x) = ProcessDead"
    "\<forall>n \<in> set ns. dead_owner c (map_of (cs_candidates w) n)"
  shows "only_dead_gone c w v'"
proof (cases ow)
  case None
  obtain y v2 where 2: "remove_candidates ns v = (y, v2)" by (cases "remove_candidates ns v")
  from remove_candidates_dead [OF 2 assms(2,4)] have q2: "only_dead_gone c w v2" .
  with assms(1) None 2 show ?thesis
    by (auto simp: clear_orphaned_def dest: only_dead.io_D(4) split: option.splits if_splits prod.splits)
next
  case (Some x)
  note x = assms(3) [OF Some]
  then have dead: "dead_owner c (cs_lock w)" by (simp add: dead_owner_def)
  let ?f = "\<lambda>v. v\<lparr>cs_staging := map_del (so_owner_id x) (cs_staging v)\<rparr>"
  obtain z v1 where 1: "attempt ?f v = (z, v1)" by (cases "attempt ?f v")
  have q1: "only_dead_gone c w v1"
    by (rule only_dead.attempt_Q [OF 1 assms(2)]) (use x dead in \<open>auto simp: only_dead_gone_def\<close>)
  obtain y v2 where 2: "remove_candidates ns v1 = (y, v2)" by (cases "remove_candidates ns v1")
  from remove_candidates_dead [OF 2 q1 assms(4)] have q2: "only_dead_gone c w v2" .
  obtain u v3 where 3: "release_sync_lock x v2 = (u, v3)" by (cases "release_sync_lock x v2")
  have q3: "only_dead_gone c w v3"
    by (rule only_dead.release_Q [OF 3 q2]) (use dead in \<open>simp add: only_dead_gone_def\<close>)
  from assms(1) Some 1 2 3 have "v' \<in> {v1, v2, v3}" by (auto simp: clear_orphaned_def split: option.splits)
  with q1 q2 q3 show ?thesis by blast
qed

text \<open>When no process of an inspection is left to probe, the owners it found are dead.\<close>

lemma probed_dead:
  assumes "inspect_sync_recovery c w = (Inr q, w1)"
    "List.map_filter (probe_dead c) (recovery_pids (rc_owner q) (rc_candidates q)) = []"
  shows "rc_owner q = Some ow \<Longrightarrow> decode_sync_owner (cs_lock w) = Inr ow \<and> cc_process_state c (so_pid ow) = ProcessDead"
    "n \<in> set (map fst (rc_candidates q)) \<Longrightarrow> dead_owner c (map_of (cs_candidates w) n)"
proof -
  have dead: "cc_process_state c p = ProcessDead" if "p \<in> set (recovery_pids (rc_owner q) (rc_candidates q))" for p
    using assms(2) that by (cases "cc_process_state c p") (auto simp: map_filter_def filter_empty_conv probe_dead_def)
  show "decode_sync_owner (cs_lock w) = Inr ow \<and> cc_process_state c (so_pid ow) = ProcessDead" if "rc_owner q = Some ow"
    using inspect_frame(2) [OF assms(1) refl that] dead [of "so_pid ow"] that by (simp add: recovery_pids_def)
  assume "n \<in> set (map fst (rc_candidates q))"
  then obtain ow where ow: "(n, ow) \<in> set (rc_candidates q)" by auto
  then have "so_pid ow \<in> set (recovery_pids (rc_owner q) (rc_candidates q))" by (force simp: recovery_pids_def)
  with inspect_frame(3) [OF assms(1) refl ow] dead show "dead_owner c (map_of (cs_candidates w) n)" by (simp add: dead_owner_def)
qed

text \<open>C27: an explicit recovery, whatever fails in it, leaves the store and the index as they
  are, and removes the lock, a staging directory or a candidate only when the process recorded for it is
  confirmed dead; an owner that is alive or cannot be verified loses nothing.\<close>

theorem recovery_removes_only_the_dead:
  assumes "recover_orphaned_sync c w = (r, w')"
  shows "only_dead_gone c w w'"
proof -
  have start: "only_dead_gone c w (w\<lparr>faults := fs\<rparr>)" for fs by (simp add: only_dead_gone_def)
  obtain x w1 where 1: "inspect_sync_recovery c w = (x, w1)" by (cases "inspect_sync_recovery c w")
  obtain fs1 where fs1: "w1 = w\<lparr>faults := fs1\<rparr>" using inspect_frame(1) [OF 1] by blast
  show ?thesis
  proof (cases "\<exists>q. x = Inr q \<and> rc_state q \<noteq> SyncRecoveryNone
      \<and> List.map_filter (probe_dead c) (recovery_pids (rc_owner q) (rc_candidates q)) = []")
    case False
    with assms 1 have "w' = w1" by (auto simp: recover_orphaned_sync_def split: sum.splits if_splits list.splits)
    with fs1 start show ?thesis by simp
  next
    case True
    then obtain q where q: "x = Inr q" "rc_state q \<noteq> SyncRecoveryNone"
      "List.map_filter (probe_dead c) (recovery_pids (rc_owner q) (rc_candidates q)) = []" by blast
    note dead = probed_dead [OF 1 [unfolded q(1)] q(3)]
    let ?chk = "case rc_owner q of None \<Rightarrow> (None, w1) | Some ow \<Rightarrow> check_staging_owner ow w1"
    obtain y w2 where 2: "?chk = (y, w2)" by (cases ?chk)
    then obtain fs2 where fs2: "w2 = w\<lparr>faults := fs2\<rparr>"
      using fs1 by (cases "rc_owner q") (auto dest: check_staging_frame)
    show ?thesis
    proof (cases y)
      case (Some e)
      with assms 1 q 2 have "w' = w2" by (simp add: recover_orphaned_sync_def)
      with fs2 start show ?thesis by simp
    next
      case None
      with assms 1 q 2 have run: "clear_orphaned (rc_owner q) (map fst (rc_candidates q)) w2 = (r, w')"
        by (simp add: recover_orphaned_sync_def)
      show ?thesis
        using clear_orphaned_dead [OF run] fs2 start dead by auto
    qed
  qed
qed

end
