(* ===== verification/Skill_Store_Recovery.thy ===== *)
theory Skill_Store_Recovery
  imports Skill_Store_Facts
begin

text \<open>
  What a synchronisation leaves behind when its process is killed between any two of its effects, and that
  the explicit recovery then clears all of it.
\<close>

section \<open>Owners\<close>

definition portable_id_char :: "char \<Rightarrow> bool" where
  "portable_id_char c = (is_letter c \<or> is_digit c \<or> c = CHR ''-'')"

lemma hex_char_portable: "n < 16 \<Longrightarrow> portable_id_char (hex_char n)"
  by (auto simp: portable_id_char_def hex_char_def is_letter_def is_digit_def byte_char_of)

lemma hex_encode_portable: "list_all portable_id_char (hex_encode bs)"
proof -
  have "byte b div 16 < 16 \<and> byte b mod 16 < 16" for b
    using nat_of_char_less_256 [of b] by (simp add: byte_def less_mult_imp_div_less)
  then show ?thesis by (induction bs) (auto simp: hex_encode_def intro: hex_char_portable)
qed

lemma int_text_portable: "list_all portable_id_char (int_text i)"
  using nat_text_digits by (auto simp: int_text_def list_all_iff portable_id_char_def)

lemma drawn_id_valid:
  assumes "drawn_id rand c me" "random_source rand"
  shows "valid_sync_owner_id (so_owner_id me)"
proof -
  from assms(1) obtain v v' where d: "random_sync_owner_id rand (cc_pid c) v = (so_owner_id me, v')"
    by (auto simp: drawn_id_def)
  have "so_owner_id me \<noteq> [] \<and> list_all portable_id_char (so_owner_id me)"
  proof (cases "fst (rand v)")
    case (Inl e)
    obtain t v2 where t: "time_now (snd (rand v)) = (t, v2)" by (cases "time_now (snd (rand v))")
    with d Inl have "so_owner_id me = int_text (cc_pid c) @ ''-'' @ int_text (unix_nano t)"
      by (cases "rand v") (auto simp: random_sync_owner_id_def)
    then show ?thesis using int_text_portable by (simp add: portable_id_char_def)
  next
    case (Inr b)
    with d have "so_owner_id me = hex_encode b" by (cases "rand v") (auto simp: random_sync_owner_id_def)
    moreover from Inr assms(2) have "length b = 16" unfolding random_source_def by blast
    then have "hex_encode b \<noteq> []" by (cases b) (auto simp: hex_encode_def)
    ultimately show ?thesis using hex_encode_portable [of b] by simp
  qed
  then show ?thesis by (simp add: valid_sync_owner_id_def portable_id_char_def list_all_iff)
qed

text \<open>A process whose owner records can be read back.\<close>

definition good_owner :: "sync_owner \<Rightarrow> bool" where
  "good_owner me = (decode_sync_owner (Some (JsonFile (enc_owner me))) = Inr me)"

lemma good_ownerI:
  assumes "own_owner c me" "drawn_id rand c me" "random_source rand" "0 < cc_pid c" "cc_pid c < 2 ^ 63"
    "\<not> is_zero_time (so_started_at me)"
  shows "good_owner me"
  using assms(1,4-6) drawn_id_valid [OF assms(2,3)]
  by (simp add: good_owner_def decode_sync_owner_def own_owner_def dec_enc_owner)

section \<open>Debris\<close>

definition clean_catalog :: "'a cstate_scheme \<Rightarrow> bool" where
  "clean_catalog v = (cs_lock v = None \<and> cs_candidates v = [] \<and> cs_staging v = [])"

text \<open>
  What may be left of the synchronisation of this owner: its lock, its candidate, and while the lock is there its
  staging directory.
\<close>

definition own_lock :: "sync_owner \<Rightarrow> 'a cstate_scheme \<Rightarrow> bool" where
  "own_lock me v = (cs_lock v = Some (JsonFile (enc_owner me)))"

definition own_candidates :: "sync_owner \<Rightarrow> 'a cstate_scheme \<Rightarrow> bool" where
  "own_candidates me v =
     (cs_candidates v = [] \<or> cs_candidates v = [(candidate_name (so_owner_id me), JsonFile (enc_owner me))])"

definition own_staging :: "sync_owner \<Rightarrow> 'a cstate_scheme \<Rightarrow> bool" where
  "own_staging me v =
     (cs_staging v = [] \<or> (\<exists>d. cs_staging v = [(so_owner_id me, d)]
        \<and> (sd_owner d = None \<or> sd_owner d = Some (JsonFile (enc_owner me)))))"

definition unstaged :: "sync_owner \<Rightarrow> 'a cstate_scheme \<Rightarrow> bool" where
  "unstaged me v = ((cs_lock v = None \<or> own_lock me v) \<and> own_candidates me v \<and> cs_staging v = [])"

definition staged :: "sync_owner \<Rightarrow> 'a cstate_scheme \<Rightarrow> bool" where
  "staged me v = (own_lock me v \<and> own_candidates me v \<and> own_staging me v)"

definition debris :: "sync_owner \<Rightarrow> 'a cstate_scheme \<Rightarrow> bool" where
  "debris me v = (unstaged me v \<or> staged me v)"

lemmas debris_defs = own_lock_def own_candidates_def own_staging_def unstaged_def staged_def

interpretation unstaged: disk_property "unstaged me" for me
  by unfold_locales (simp_all add: debris_defs)

interpretation staged: disk_property "staged me" for me
  by unfold_locales (simp_all add: debris_defs)

text \<open>A process that was killed changes nothing any more.\<close>

definition killed :: "sync_owner \<Rightarrow> 'a cstate_scheme \<Rightarrow> bool" where
  "killed me v = (cs_life v = Some 0 \<and> debris me v)"

interpretation killed: disk_property "killed me" for me
  by unfold_locales (simp_all add: killed_def debris_def debris_defs)

lemma killed_closed [simp]: "updates_staging (killed me) i" "moves_objects (killed me) i"
  by (simp_all add: updates_staging_def moves_objects_def killed_def)

lemma own_staging_upd:
  "own_staging me v \<Longrightarrow> keeps_owner f \<Longrightarrow> own_staging me (upd_staging (so_owner_id me) f v)"
  by (auto simp: own_staging_def upd_staging_def keeps_owner_def)

lemma staged_closed [simp]: "updates_staging (staged me) (so_owner_id me)" "moves_objects (staged me) (so_owner_id me)"
proof -
  show "updates_staging (staged me) (so_owner_id me)"
    by (simp add: updates_staging_def staged_def own_lock_def own_candidates_def own_staging_upd)
  show "moves_objects (staged me) (so_owner_id me)"
    unfolding moves_objects_def
  proof (intro allI impI)
    fix v and h
    assume s: "staged me v"
    let ?v = "upd_staging (so_owner_id me) (\<lambda>d. d\<lparr>sd_objects := map_del h (sd_objects d)\<rparr>) v"
    have "cs_staging (move_object (so_owner_id me) h v) \<in> {cs_staging v, cs_staging ?v}"
      by (simp add: move_object_def split: option.split)
    moreover have "own_staging me ?v" using s by (intro own_staging_upd) (simp_all add: staged_def)
    ultimately show "staged me (move_object (so_owner_id me) h v)"
      using s by (auto simp: staged_def own_lock_def own_candidates_def own_staging_def)
  qed
qed

lemma own_release: "good_owner me \<Longrightarrow> decode_sync_owner (cs_lock v) = Inr ow \<Longrightarrow> own_lock me v \<Longrightarrow> ow = me"
  by (simp add: good_owner_def own_lock_def)

lemma unstaged_release:
  "release_sync_lock x v = (r, v') \<Longrightarrow> unstaged me v \<Longrightarrow> unstaged me v'"
  by (rule unstaged.release_Q, assumption, assumption) (simp add: debris_defs)

section \<open>What is left after a synchronisation\<close>

lemma clean_unstaged: "clean_catalog v \<Longrightarrow> unstaged me v"
  by (simp add: clean_catalog_def unstaged_def own_candidates_def)

lemma publish_unstaged:
  "publish_sync_lock c me v = (r, v') \<Longrightarrow> unstaged me v \<Longrightarrow> unstaged me v'"
  by (rule unstaged.publish_lock_Q, assumption, assumption) (auto simp: debris_defs)

lemma through_unstaged: "lock_through_candidate c me v = (r, v') \<Longrightarrow> unstaged me v \<Longrightarrow> unstaged me v'"
  by (rule unstaged.through_candidate_Q(1), assumption, assumption, auto simp: debris_defs)
    (auto dest: publish_unstaged simp: debris_defs)

text \<open>A lock that was acquired is this process's own, and it is there unless the process was killed.\<close>

lemma publish_acquired:
  assumes "publish_sync_lock c me v = (Inr (Acquired x), v')"
  shows "x = me \<and> (own_lock me v' \<or> cs_life v' = Some 0)"
proof -
  let ?link = "\<lambda>v. v\<lparr>cs_lock := Some (JsonFile (enc_owner me))\<rparr>"
  let ?unlink = "\<lambda>v. v\<lparr>cs_candidates := map_del (candidate_name (so_owner_id me)) (cs_candidates v)\<rparr>"
  obtain a v1 where 1: "try_io v = (a, v1)" by (cases "try_io v")
  obtain b v2 where 2: "try_io (effect ?link v1) = (b, v2)" by (cases "try_io (effect ?link v1)")
  obtain d v3 where 3: "sync_directory (effect ?unlink v2) = (d, v3)" by (cases "sync_directory (effect ?unlink v2)")
  from assms 1 2 3 have v': "x = me" "v' = v3"
    by (auto simp: publish_sync_lock_def publish_lock_candidate_def attempt_def Let_def
        split: option.splits if_splits sum.splits prod.splits)
  have "cs_lock v2 = cs_lock (effect ?link v1)" "cs_life v2 = cs_life (effect ?link v1)"
    using try_io_frame [OF 2] by auto
  moreover have "cs_lock v3 = cs_lock (effect ?unlink v2)" "cs_life v3 = cs_life (effect ?unlink v2)"
    using try_ios_frame [OF 3 [unfolded sync_directory_def]] by auto
  ultimately show ?thesis
    using v' by (auto simp: effect_def own_lock_def split: option.splits nat.splits)
qed

lemma through_acquired:
  assumes "lock_through_candidate c me v = (Inr (Acquired x), v')"
  shows "x = me \<and> (own_lock me v' \<or> cs_life v' = Some 0)"
proof -
  from assms have "\<exists>u. publish_sync_lock c me u = (Inr (Acquired x), v')"
    by (auto simp: lock_through_candidate_def Let_def split: option.splits prod.splits if_splits)
  with publish_acquired show ?thesis by blast
qed

lemma make_staging_staged: "staged me v \<Longrightarrow> staged me (make_staging (so_owner_id me) v)"
  by (auto simp: make_staging_def debris_defs empty_staging_def)

lemma unstaged_own: "unstaged me v \<Longrightarrow> own_lock me v \<Longrightarrow> staged me v"
  by (simp add: debris_defs)

lemma cleanup_debris:
  assumes "sync_cleanup me er w = (r, w')" "killed me w \<or> staged me w"
  shows "debris me w'"
proof (cases "killed me w")
  case True
  have "killed me w'" by (rule killed.sync_cleanup_Q [OF assms(1) True]) (simp_all add: killed_def)
  then show ?thesis by (simp add: killed_def)
next
  case False
  with assms(2) have st: "staged me w" by blast
  let ?f = "\<lambda>v. v\<lparr>cs_staging := map_del (so_owner_id me) (cs_staging v)\<rparr>"
  obtain x w1 where 1: "try_io w = (x, w1)" by (cases "try_io w")
  have st1: "staged me w1" using st staged.io_D(1) [OF 1] by simp
  show ?thesis
  proof (cases x)
    case (Some e)
    with assms(1) 1 have "w' = w1" by (simp add: sync_cleanup_def attempt_def)
    with st1 show ?thesis by (simp add: debris_def)
  next
    case None
    obtain y w2 where 2: "release_sync_lock me (effect ?f w1) = (y, w2)" by (cases "release_sync_lock me (effect ?f w1)")
    with assms(1) 1 None have w': "w' = w2" by (simp add: sync_cleanup_def attempt_def)
    show ?thesis
    proof (cases "cs_life w1 = Some 0")
      case True
      then have k: "killed me (effect ?f w1)" using st1 by (simp add: effect_def killed_def debris_def)
      have "killed me w2" by (rule killed.release_Q [OF 2 k]) (simp add: killed_def)
      with w' show ?thesis by (simp add: killed_def)
    next
      case False
      then have "unstaged me (effect ?f w1)"
        using st1 by (auto simp: effect_def debris_defs split: option.split nat.split)
      from unstaged_release [OF 2 this] w' show ?thesis by (simp add: debris_def)
    qed
  qed
qed

lemma body_debris:
  assumes "sync_body sha sv yr c me w = (r, w')"
  shows "killed me w \<Longrightarrow> killed me w'" "staged me w \<Longrightarrow> staged me w'"
proof -
  show "killed me w'" if "killed me w"
    by (rule killed.body_all_Q [OF assms that]) (simp_all add: killed.materializesI, simp_all add: killed_def)
  have owner: "own_staging me v \<Longrightarrow> own_staging me (upd_staging (so_owner_id me) (\<lambda>d. d\<lparr>sd_owner := Some (JsonFile (enc_owner me))\<rparr>) v)"
    for v :: "'a cstate_scheme"
    by (auto simp: own_staging_def upd_staging_def)
  show "staged me w'" if "staged me w"
    by (rule staged.body_all_Q [OF assms that])
      (simp_all add: staged.materializesI, simp_all add: owner staged_def own_lock_def own_candidates_def, simp add: own_staging_def)
qed

text \<open>The shape of what is left, wherever the process was killed.\<close>

lemma sync_debris:
  assumes "sync_catalog sha rand sv yr c w = (r, w')" "random_source rand" "clean_catalog w"
    "0 < cc_pid c" "cc_pid c < 2 ^ 63" "\<And>n. \<not> is_zero_time (clock w n)"
  shows "clean_catalog w' \<or> (\<exists>me. own_owner c me \<and> good_owner me \<and> debris me w')"
proof -
  have clean: "clean_catalog v = clean_catalog u" if "env_only u v" for u v :: "'a cstate_scheme"
    using that unfolding env_only_def clean_catalog_def by (cases u; cases v) simp
  have start: "clean_catalog w1" "\<And>n. \<not> is_zero_time (clock w1 n)" if "ctx_err w = (a, w1)" for a w1
    using that assms(3,6) ctx_err_frame [OF that] by (auto simp: clean_catalog_def)
  have acq: "clean_catalog w2 \<and> (\<exists>e. q = Inl e) \<or> (\<exists>me. own_owner c me \<and> good_owner me \<and> unstaged me w2
      \<and> (\<forall>x. q = Inr (Acquired x) \<longrightarrow> x = me \<and> (own_lock me w2 \<or> cs_life w2 = Some 0)))"
    if "ctx_err w = (None, w1)" "acquire_sync_lock rand c w1 = (q, w2)" for w1 q w2
    using acquire_start [OF that(2) assms(2)] start [OF that(1)] clean
      through_unstaged clean_unstaged through_acquired good_ownerI [OF _ _ assms(2,4,5)] by metis
  show ?thesis
    using assms(1)
  proof (cases rule: sync_cases)
    case (outside w1)
    then show ?thesis using acq start by (metis debris_def)
  next
    case (released w1 me w2 w3 e x)
    from acq [OF released(1,2)] have me: "own_owner c me" "good_owner me" "unstaged me w2" by blast+
    from released(3) obtain z where "try_io w2 = (Some z, w3)" by (auto simp: attempt_def split: prod.splits option.splits)
    with me(3) have "unstaged me w3" using unstaged.io_D(1) by blast
    from unstaged_release [OF released(4) this] me show ?thesis by (auto simp: debris_def)
  next
    case (ran w1 me w2 w3 q w4)
    from acq [OF ran(1,2)] have me: "own_owner c me" "good_owner me" "unstaged me w2"
      "own_lock me w2 \<or> cs_life w2 = Some 0" by blast+
    have "killed me w3 \<or> staged me w3"
    proof (cases "cs_life w2 = Some 0")
      case True
      then have k: "killed me w2" using me(3) by (simp add: killed_def debris_def)
      have "killed me w3" by (rule killed.attempt_Q [OF ran(3) k]) (simp add: killed_def)
      then show ?thesis ..
    next
      case False
      with me(3,4) have "staged me w2" by (blast intro: unstaged_own)
      then have "staged me w3" by (rule staged.attempt_Q [OF ran(3)]) (rule make_staging_staged)
      then show ?thesis ..
    qed
    then have b: "killed me w4 \<or> staged me w4" using body_debris [OF ran(4)] by blast
    from ran(5) have "debris me w'"
    proof
      assume "q = None \<and> r = None \<and> w' = w4"
      with b show ?thesis by (auto simp: killed_def debris_def)
    next
      assume "\<exists>res er er'. q = Some (res, er) \<and> sync_cleanup me er w4 = (er', w') \<and> r = Some (res, bound_sync_diagnostic er')"
      with cleanup_debris b show ?thesis by blast
    qed
    with me show ?thesis by blast
  qed
qed

section \<open>Recovery\<close>

text \<open>The next process: nothing fails for it, and nobody kills it.\<close>

definition next_process :: "'a cstate_scheme \<Rightarrow> 'a cstate_scheme" where
  "next_process v = v\<lparr>faults := [], cs_life := None\<rparr>"

lemma read_owner_calm [simp]: "faults v = [] \<Longrightarrow> read_sync_owner f v = (decode_sync_owner (f v), v)"
  by (simp add: read_sync_owner_def)

lemma effect_calm [simp]: "cs_life v = None \<Longrightarrow> effect f v = f v"
  by (simp add: effect_def)

lemma attempt_calm [simp]: "faults v = [] \<Longrightarrow> cs_life v = None \<Longrightarrow> attempt f v = (None, f v)"
  by (simp add: attempt_def)

lemma sync_directory_calm [simp]: "faults v = [] \<Longrightarrow> sync_directory v = (None, v)"
  by (simp add: sync_directory_def)

lemma decode_absent [simp]: "decode_sync_owner None = Inl ErrNotExist_err"
  by (simp add: decode_sync_owner_def)

lemma not_exist_err [simp]: "errors_is ErrNotExist_err ErrNotExist"
  by (simp add: ErrNotExist_err_def)

lemma release_calm:
  "faults v = [] \<Longrightarrow> cs_life v = None \<Longrightarrow> good_owner me \<Longrightarrow> own_lock me v \<Longrightarrow> release_sync_lock me v = (None, v\<lparr>cs_lock := None\<rparr>)"
  by (simp add: release_sync_lock_def own_lock_def good_owner_def)

lemma discover_own:
  assumes "faults v = []" "good_owner me" "own_candidates me v"
  shows "discover_candidates (sort (map fst (cs_candidates v))) v = (Inr (map (\<lambda>n. (n, me)) (map fst (cs_candidates v))), v)"
  using assms by (auto simp: own_candidates_def good_owner_def)

lemma remove_own:
  "faults v = [] \<Longrightarrow> cs_life v = None \<Longrightarrow> own_candidates me v \<Longrightarrow>
     remove_candidates (map fst (cs_candidates v)) v = (None, v\<lparr>cs_candidates := []\<rparr>)"
  by (auto simp: own_candidates_def)

text \<open>The state once everything has been cleared.\<close>

definition cleared :: "'a cstate_scheme \<Rightarrow> 'a cstate_scheme" where
  "cleared v = v\<lparr>cs_lock := None, cs_candidates := [], cs_staging := []\<rparr>"

lemma cleared_env [simp]: "faults (cleared v) = faults v" "cs_life (cleared v) = cs_life v"
  by (simp_all add: cleared_def)

lemma recover_unlocked:
  assumes "faults v = []" "cs_life v = None" "good_owner me" "unstaged me v" "cs_lock v = None"
    "cc_process_state c (so_pid me) = ProcessDead"
  shows "recover_orphaned_sync c v = (None, cleared v)"
proof -
  have cand: "own_candidates me v" and st: "cs_staging v = []" using assms(4) by (simp_all add: unstaged_def)
  have "recovery_state c None [(n, me)] = SyncRecoveryOrphaned" for n
    using assms(6) by (simp add: recovery_state_def recovery_pids_def probe_state_def)
  moreover have "SyncRecoveryOrphaned \<noteq> SyncRecoveryNone" by (simp add: SyncRecoveryOrphaned_def SyncRecoveryNone_def)
  moreover have "List.map_filter (probe_dead c) [so_pid me] = []"
    using assms(6) by (simp add: map_filter_def probe_dead_def)
  moreover have "v\<lparr>cs_candidates := []\<rparr> = cleared v" using assms(5) st by (cases v) (simp add: cleared_def)
  ultimately show ?thesis
    using cand remove_own [OF assms(1,2) cand] discover_own [OF assms(1,3) cand] assms(1,2,5)
    by (auto simp: own_candidates_def recover_orphaned_sync_def inspect_sync_recovery_def clear_orphaned_def
        recovery_pids_def)
qed

lemma check_staging_own:
  assumes "faults v = []" "good_owner me" "own_staging me v"
  shows "check_staging_owner me v = (None, v)"
proof -
  let ?f = "Option.bind (map_of (cs_staging v) (so_owner_id me)) sd_owner"
  have "?f = None \<or> ?f = Some (JsonFile (enc_owner me))"
    using assms(3) by (auto simp: own_staging_def)
  then show ?thesis
    using assms(1,2) by (auto simp: check_staging_owner_def good_owner_def)
qed

lemma recover_locked:
  assumes "faults v = []" "cs_life v = None" "good_owner me" "own_lock me v" "own_candidates me v" "own_staging me v"
    "cc_process_state c (so_pid me) = ProcessDead"
  shows "recover_orphaned_sync c v = (None, cleared v)"
proof -
  let ?cs = "map (\<lambda>n. (n, me)) (map fst (cs_candidates v))"
  have pids: "set (recovery_pids (Some me) ?cs) \<subseteq> {so_pid me}" by (auto simp: recovery_pids_def)
  have state: "recovery_state c (Some me) ?cs = SyncRecoveryOrphaned"
    using assms(5,7) by (auto simp: own_candidates_def recovery_state_def recovery_pids_def probe_state_def)
  have probes: "List.map_filter (probe_dead c) (recovery_pids (Some me) ?cs) = []"
    using assms(5,7) by (auto simp: own_candidates_def map_filter_def probe_dead_def recovery_pids_def)
  have lock: "decode_sync_owner (cs_lock v) = Inr me" using assms(3,4) by (simp add: good_owner_def own_lock_def)
  have ins: "inspect_sync_recovery c v = (Inr \<lparr>rc_state = SyncRecoveryOrphaned, rc_owner = Some me,
      rc_staging = staging_path c (so_owner_id me), rc_candidates = ?cs\<rparr>, v)"
    using discover_own [OF assms(1,3,5)] assms(1) lock state by (simp add: inspect_sync_recovery_def)
  let ?v1 = "v\<lparr>cs_staging := map_del (so_owner_id me) (cs_staging v)\<rparr>"
  have st: "map_del (so_owner_id me) (cs_staging v) = []" using assms(6) by (auto simp: own_staging_def)
  have "own_candidates me ?v1" using assms(5) by (simp add: own_candidates_def)
  from remove_own [OF _ _ this] assms(1,2)
  have rem: "remove_candidates (map fst (cs_candidates v)) ?v1 = (None, ?v1\<lparr>cs_candidates := []\<rparr>)" by simp
  have rel: "release_sync_lock me (?v1\<lparr>cs_candidates := []\<rparr>) = (None, ?v1\<lparr>cs_candidates := [], cs_lock := None\<rparr>)"
    using release_calm [of "?v1\<lparr>cs_candidates := []\<rparr>" me] assms(1-4) by (simp add: own_lock_def)
  have "clear_orphaned (Some me) (map fst ?cs) v = (None, cleared v)"
    using assms(1,2) rem rel st by (cases v) (simp add: clear_orphaned_def comp_def cleared_def)
  then show ?thesis
    using ins probes check_staging_own [OF assms(1,3,6)]
    by (simp add: recover_orphaned_sync_def SyncRecoveryOrphaned_def SyncRecoveryNone_def)
qed

text \<open>C10: a synchronisation that starts on a clean catalog may fail anywhere, and be killed between
  any two of its changes of the disk; once its process is dead, the explicit recovery of a later process succeeds and leaves
  no lock, no candidate and nothing staged, with the store and the index as the interrupted one left them.\<close>

theorem interrupted_sync_is_recovered:
  assumes "sync_catalog sha rand sv yr c w = (r, w')" "random_source rand" "clean_catalog w"
    "0 < cc_pid c" "cc_pid c < 2 ^ 63" "\<And>n. \<not> is_zero_time (clock w n)"
    "cc_process_state c' (cc_pid c) = ProcessDead"
  shows "\<exists>v. recover_orphaned_sync c' (next_process w') = (None, v) \<and> clean_catalog v
     \<and> cs_objects v = cs_objects w' \<and> cs_index v = cs_index w'"
proof -
  let ?v = "next_process w'"
  have calm: "faults ?v = []" "cs_life ?v = None" by (simp_all add: next_process_def)
  have disk: "cs_objects (cleared ?v) = cs_objects w'" "cs_index (cleared ?v) = cs_index w'" "clean_catalog (cleared ?v)"
    by (simp_all add: cleared_def next_process_def clean_catalog_def)
  from sync_debris [OF assms(1-6)] have "recover_orphaned_sync c' ?v = (None, cleared ?v)"
  proof
    assume cl: "clean_catalog w'"
    then have "cleared ?v = ?v" by (cases w') (simp add: clean_catalog_def cleared_def next_process_def)
    with cl calm show ?thesis
      by (simp add: recover_orphaned_sync_def inspect_sync_recovery_def clean_catalog_def next_process_def)
  next
    assume "\<exists>me. own_owner c me \<and> good_owner me \<and> debris me w'"
    then obtain me where me: "own_owner c me" "good_owner me" "debris me w'" by blast
    from me(3) have d: "unstaged me ?v \<or> staged me ?v"
      by (simp add: next_process_def debris_def debris_defs)
    have dead: "cc_process_state c' (so_pid me) = ProcessDead" using me(1) assms(7) by (simp add: own_owner_def)
    show ?thesis
    proof (cases "cs_lock ?v = None")
      case True
      with d have "unstaged me ?v" by (auto simp: staged_def own_lock_def)
      from recover_unlocked [OF calm me(2) this True dead] show ?thesis .
    next
      case False
      with d have "own_lock me ?v" "own_candidates me ?v" "own_staging me ?v" by (auto simp: debris_defs)
      from recover_locked [OF calm me(2) this dead] show ?thesis .
    qed
  qed
  with disk show ?thesis by blast
qed

end
