(* ===== verification/Skill_Store_Integrity.thy ===== *)
theory Skill_Store_Integrity
  imports Skill_Store_Recovery
begin

text \<open>
  The content of the store: an object that is published is complete, the store stays intact under every
  synchronisation, and what verification and preparation accept.
\<close>

section \<open>A published object is complete\<close>

lemma map_put_twice: "map_put p d (map_put p e m) = map_put p d m"
  by (induction p e m rule: map_put.induct) auto

definition full_object :: "skill_package \<Rightarrow> source_file list \<Rightarrow> store_object" where
  "full_object pkg files = fold (\<lambda>(p, data). put_file p data) files
     \<lparr>ob_package = Some (JsonFile (enc_package pkg)), ob_files = None\<rparr>"

text \<open>The object being staged is this one, unless the process was killed or there is no staging directory.\<close>

definition staging_holds :: "string \<Rightarrow> string \<Rightarrow> store_object \<Rightarrow> 'a cstate_scheme \<Rightarrow> bool" where
  "staging_holds i h ob v = (cs_life v = Some 0 \<or> staged_object i h v = None \<or> staged_object i h v = Some ob)"

lemma staging_holds_env [simp]: "staging_holds i h ob (v\<lparr>faults := fs\<rparr>) = staging_holds i h ob v"
  by (simp add: staging_holds_def staged_object_def)

lemma staging_holds_io: "try_io w = (r, w') \<Longrightarrow> staging_holds i h ob w' = staging_holds i h ob w"
    "try_ios n w = (r, w') \<Longrightarrow> staging_holds i h ob w' = staging_holds i h ob w"
  by (auto dest!: try_io_frame try_ios_frame)

lemma staged_life [simp]: "staged_object i h (v\<lparr>cs_life := l\<rparr>) = staged_object i h v"
  by (simp add: staged_object_def)

lemma staged_upd [simp]:
  "staged_object i h (upd_staging i (upd_object h f) v) = map_option f (staged_object i h v)"
proof (cases "map_of (cs_staging v) i")
  case None
  then show ?thesis by (simp add: staged_object_def)
next
  case (Some d)
  then show ?thesis by (cases "map_of (sd_objects d) h") (simp_all add: staged_object_def upd_object_def)
qed

lemma staging_holds_effect:
  "staging_holds i h ob v \<Longrightarrow> staging_holds i h (f ob) (effect (upd_staging i (upd_object h f)) v)"
  by (auto simp: staging_holds_def effect_def split: option.split nat.split)

lemma write_durable_holds:
  assumes "write_durable (upd_staging i (upd_object h f)) (upd_staging i (upd_object h g)) w = (None, w')"
    "staging_holds i h ob w"
  shows "staging_holds i h (g (f ob)) w'"
proof -
  obtain a w1 where 1: "try_io w = (a, w1)" by (cases "try_io w")
  let ?v1 = "effect (upd_staging i (upd_object h f)) w1"
  obtain b w2 where 2: "try_io ?v1 = (b, w2)" by (cases "try_io ?v1")
  let ?v2 = "effect (upd_staging i (upd_object h g)) w2"
  obtain d w3 where 3: "try_ios 2 ?v2 = (d, w3)" by (cases "try_ios 2 ?v2")
  have "staging_holds i h ob w1" using staging_holds_io(1) [OF 1] assms(2) by simp
  then have "staging_holds i h (f ob) ?v1" by (rule staging_holds_effect)
  then have "staging_holds i h (f ob) w2" using staging_holds_io(1) [OF 2] by simp
  then have "staging_holds i h (g (f ob)) ?v2" by (rule staging_holds_effect)
  then have "staging_holds i h (g (f ob)) w3" using staging_holds_io(2) [OF 3] by simp
  moreover from assms(1) 1 2 3 have "w' = w3" by (auto simp: write_durable_def split: option.splits)
  ultimately show ?thesis by simp
qed

lemma put_file_twice [simp]: "put_file p d (put_file p e ob) = put_file p d ob"
  by (simp add: put_file_def map_put_twice)

lemma put_file_dir [simp]:
  "put_file p d (ob\<lparr>ob_files := Some (case ob_files ob of None \<Rightarrow> [] | Some m \<Rightarrow> m)\<rparr>) = put_file p d ob"
  by (simp add: put_file_def)

lemma write_files_hold:
  "write_package_files i h fs w = (None, w') \<Longrightarrow> staging_holds i h ob w \<Longrightarrow>
     staging_holds i h (fold (\<lambda>(p, data). put_file p data) fs ob) w'"
proof (induction fs arbitrary: w ob)
  case (Cons f fs)
  obtain p data where f: "f = (p, data)" by (cases f)
  let ?dir = "\<lambda>ob. ob\<lparr>ob_files := Some (case ob_files ob of None \<Rightarrow> [] | Some m \<Rightarrow> m)\<rparr>"
  obtain a w1 where 1: "try_io w = (a, w1)" by (cases "try_io w")
  let ?v1 = "effect (upd_staging i (upd_object h ?dir)) w1"
  let ?put = "write_durable (upd_staging i (upd_object h (put_file p []))) (upd_staging i (upd_object h (put_file p data))) ?v1"
  obtain b w2 where 2: "?put = (b, w2)" by (cases ?put)
  from Cons.prems(1) f 1 2 have ok: "a = None" "b = None" "write_package_files i h fs w2 = (None, w')"
    by (auto simp: attempt_def split: option.splits)
  have "staging_holds i h ob w1" using staging_holds_io(1) [OF 1] Cons.prems(2) by simp
  then have v1: "staging_holds i h (?dir ob) ?v1" by (rule staging_holds_effect)
  have "staging_holds i h (put_file p data (put_file p [] (?dir ob))) w2"
    by (rule write_durable_holds [OF 2 [unfolded ok(2)] v1])
  then have "staging_holds i h (put_file p data ob) w2" by simp
  from Cons.IH [OF ok(3) this] f show ?case by simp
qed simp

text \<open>Everything but the publication leaves the objects alone.\<close>

interpretation same_objects: disk_property "\<lambda>v. cs_objects v = ob" for ob
  by unfold_locales simp_all

lemma same_objects_staging [simp]: "updates_staging (\<lambda>v. cs_objects v = ob) i"
  by (simp add: updates_staging_def)

lemma publish_object_objects:
  assumes "publish_object i h w = (r, w')" "staging_holds i h ob w"
  shows "cs_objects w' = cs_objects w \<or> map_of (cs_objects w) h = None \<and> cs_objects w' = map_put h ob (cs_objects w)"
proof -
  obtain a w1 where 1: "try_io w = (a, w1)" by (cases "try_io w")
  then have w1: "cs_objects w1 = cs_objects w" "staging_holds i h ob w1"
    using same_objects.io_D(1) [OF 1, of "cs_objects w"] staging_holds_io(1) [OF 1] assms(2) by auto
  then have "cs_objects (effect (move_object i h) w1) = cs_objects w
      \<or> cs_objects (effect (move_object i h) w1) = map_put h ob (cs_objects w)"
    by (auto simp: effect_def staging_holds_def move_object_def split: option.split nat.split)
  with assms(1) 1 w1(1) show ?thesis
    by (auto simp: publish_object_def split: option.splits if_splits)
qed

lemma fill_object_objects:
  assumes "fill_object c i pkg files w = (r, w')" "staging_holds i (pi_package_hash (pk_identity pkg)) empty_object w"
  shows "cs_objects w' = cs_objects w \<or> map_of (cs_objects w) (pi_package_hash (pk_identity pkg)) = None
     \<and> cs_objects w' = map_put (pi_package_hash (pk_identity pkg)) (full_object pkg files) (cs_objects w)"
proof -
  let ?h = "pi_package_hash (pk_identity pkg)"
  let ?durable = "write_durable (upd_staging i (upd_object ?h (\<lambda>ob. ob\<lparr>ob_package := Some BadFile\<rparr>)))
      (upd_staging i (upd_object ?h (\<lambda>ob. ob\<lparr>ob_package := Some (JsonFile (enc_package pkg))\<rparr>))) w"
  obtain x w1 where 1: "?durable = (x, w1)" by (cases ?durable)
  obtain y w2 where 2: "write_package_files i ?h files w1 = (y, w2)" by (cases "write_package_files i ?h files w1")
  obtain z w3 where 3: "try_io w2 = (z, w3)" by (cases "try_io w2")
  obtain u w4 where 4: "publish_object i ?h w3 = (u, w4)" by (cases "publish_object i ?h w3")
  obtain v w5 where 5: "sync_directory w4 = (v, w5)" by (cases "sync_directory w4")
  have o1: "cs_objects w1 = cs_objects w" by (rule same_objects.write_durable_Q [OF 1]) simp_all
  have o2: "cs_objects w2 = cs_objects w" by (rule same_objects.write_files_Q [OF 2 o1]) simp
  have o3: "cs_objects w3 = cs_objects w" using o2 same_objects.io_D(1) [OF 3] by blast
  have o5: "cs_objects w5 = cs_objects w4" using same_objects.io_D(4) [OF 5, of "cs_objects w4"] by simp
  show ?thesis
  proof (cases "x = None \<and> y = None \<and> z = None \<and> reach_checkpoint c ''store_object_staged'' = None")
    case False
    with assms(1) 1 2 3 have "w' \<in> {w1, w2, w3}" by (auto simp: fill_object_def Let_def split: option.splits)
    with o1 o2 o3 show ?thesis by auto
  next
    case True
    have "staging_holds i ?h \<lparr>ob_package = Some (JsonFile (enc_package pkg)), ob_files = None\<rparr> w1"
      using write_durable_holds [OF 1 [unfolded True [THEN conjunct1]] assms(2)] by (simp add: empty_object_def)
    from write_files_hold [OF _ this] 2 True have "staging_holds i ?h (full_object pkg files) w2" by (simp add: full_object_def)
    then have "staging_holds i ?h (full_object pkg files) w3" using staging_holds_io(1) [OF 3] by simp
    from publish_object_objects [OF 4 this] o3 o5
    have "cs_objects w4 = cs_objects w \<or> map_of (cs_objects w) ?h = None \<and> cs_objects w4 = map_put ?h (full_object pkg files) (cs_objects w)"
      by simp
    moreover from assms(1) 1 2 3 4 5 True have "w' \<in> {w4, w5}"
      by (auto simp: fill_object_def Let_def split: option.splits)
    ultimately show ?thesis using o5 by auto
  qed
qed

lemma materialize_objects:
  assumes "materialize c i pkg files w = (r, w')"
  shows "cs_objects w' = cs_objects w \<or> map_of (cs_objects w) (pi_package_hash (pk_identity pkg)) = None
     \<and> cs_objects w' = map_put (pi_package_hash (pk_identity pkg)) (full_object pkg files) (cs_objects w)"
proof -
  let ?h = "pi_package_hash (pk_identity pkg)"
  let ?mk = "upd_staging i (\<lambda>d. d\<lparr>sd_objects := map_put ?h empty_object (sd_objects d)\<rparr>)"
  let ?rm = "upd_staging i (\<lambda>d. d\<lparr>sd_objects := map_del ?h (sd_objects d)\<rparr>)"
  obtain a w1 where 1: "try_io w = (a, w1)" by (cases "try_io w")
  obtain b w2 where 2: "try_io w1 = (b, w2)" by (cases "try_io w1")
  obtain d w3 where 3: "try_io w2 = (d, w3)" by (cases "try_io w2")
  obtain e w4 where 4: "try_io w3 = (e, w4)" by (cases "try_io w3")
  obtain x w5 where 5: "fill_object c i pkg files (effect ?mk w4) = (x, w5)"
    by (cases "fill_object c i pkg files (effect ?mk w4)")
  obtain y w6 where 6: "attempt ?rm w5 = (y, w6)" by (cases "attempt ?rm w5")
  have o4: "cs_objects w1 = cs_objects w" "cs_objects w2 = cs_objects w" "cs_objects w3 = cs_objects w" "cs_objects w4 = cs_objects w"
    using try_io_frame [OF 1] try_io_frame [OF 2] try_io_frame [OF 3] try_io_frame [OF 4] by auto
  have mk: "cs_objects (effect ?mk w4) = cs_objects w"
    by (rule same_objects.effect_Q [OF _ o4(4)]) simp
  have "staging_holds i ?h empty_object (effect ?mk w4)"
    by (auto simp: staging_holds_def effect_def staged_object_def split: option.split nat.split bind_splits)
  note f = fill_object_objects [OF 5 this, unfolded mk]
  have o6: "cs_objects w6 = cs_objects w5" by (rule same_objects.attempt_Q [OF 6]) simp_all
  from assms 1 2 3 4 5 6 have "w' \<in> {w1, w2, w3, w4, w6}"
    by (auto simp: materialize_def Let_def split: option.splits if_splits)
  with o4 f o6 show ?thesis by auto
qed

section \<open>Intact objects\<close>

text \<open>
  An object that holds what its \<open>package.json\<close> says, and only that: the instructions, each asset with its
  recorded hash, under portable paths.
\<close>

definition agrees :: "(string \<Rightarrow> string) \<Rightarrow> skill_package \<Rightarrow> (string \<times> string) list \<Rightarrow> bool" where
  "agrees sha p m =
     (pk_instructions_path p \<noteq> [] \<and> list_all portable_path (wanted_files p)
      \<and> map_of m (pk_instructions_path p) = Some (pk_instructions p)
      \<and> list_all (\<lambda>a. map_option sha (map_of m (as_path a)) = Some (as_sha256 a)) (pk_assets p)
      \<and> list_all (\<lambda>f. f \<in> set (wanted_files p)) (map fst m))"

definition object_agrees :: "(string \<Rightarrow> string) \<Rightarrow> skill_package \<Rightarrow> store_object \<Rightarrow> bool" where
  "object_agrees sha p ob =
     (case (ob_package ob, ob_files ob) of
        (Some (JsonFile j), Some m) \<Rightarrow> dec_package j = Some p \<and> agrees sha p m
      | _ \<Rightarrow> False)"

definition intact :: "(string \<Rightarrow> string) \<Rightarrow> string \<Rightarrow> store_object \<Rightarrow> bool" where
  "intact sha h ob = (\<exists>p. object_agrees sha p ob \<and> pi_package_hash (pk_identity p) = h)"

definition store_intact :: "(string \<Rightarrow> string) \<Rightarrow> 'a cstate_scheme \<Rightarrow> bool" where
  "store_intact sha v = (\<forall>h ob. map_of (cs_objects v) h = Some ob \<longrightarrow> intact sha h ob)"

lemma fold_put_files:
  "files \<noteq> [] \<Longrightarrow> ob_files (fold (\<lambda>(p, data). put_file p data) files ob)
     = Some (fold (\<lambda>(k, v). map_put k v) files (case ob_files ob of None \<Rightarrow> [] | Some m \<Rightarrow> m))"
proof (induction files arbitrary: ob)
  case (Cons f fs)
  then show ?case by (cases f; cases "fs = []") (simp_all add: put_file_def)
qed simp

lemma fold_put_package: "ob_package (fold (\<lambda>(p, data). put_file p data) files ob) = ob_package ob"
  by (induction files arbitrary: ob) (auto simp: put_file_def)

lemma full_object_content:
  assumes "files \<noteq> []" "sorted_wrt (<) (map fst files)"
  shows "full_object pkg files = \<lparr>ob_package = Some (JsonFile (enc_package pkg)), ob_files = Some files\<rparr>"
proof -
  have "ob_files (full_object pkg files) = Some (map_build files)"
    using fold_put_files [OF assms(1)] by (simp add: full_object_def map_build_def)
  moreover have "ob_package (full_object pkg files) = Some (JsonFile (enc_package pkg))"
    by (simp add: full_object_def fold_put_package)
  ultimately show ?thesis using map_build_sorted [OF assms(2)] by (cases "full_object pkg files") simp
qed

lemma loaded_object_intact:
  assumes "load_package sha sv sid root directory d0 = Some (Loaded pkg files)"
  shows "intact sha (pi_package_hash (pk_identity pkg)) (full_object pkg files)"
proof -
  from load_package_loaded [OF assms] obtain d where l: "normalize_declaration d0 = (None, d)"
    "map fst files = pd_files d" "pkg = build_package sha sid d files" by blast
  note n = normalize_declaration_ok [OF l(1), unfolded normal_declaration_def]
  let ?p = "pkg\<lparr>pk_arguments_schema := reread_schema (pk_arguments_schema pkg)\<rparr>"
  have dist: "distinct (map fst files)" and srt: "sorted (map fst files)" using n l(2) by simp_all
  have ins: "pd_instructions d \<in> fst ` set files" using n l(2) by (metis list.set_map)
  then have ne: "files \<noteq> []" by auto
  have "sorted_wrt (<) (map fst files)" using dist srt by (simp add: strict_sorted_iff)
  note full = full_object_content [OF ne this, of pkg]
  have key: "sort_key fst files = files" by (rule sort_key_sorted [OF srt])
  have schema: "pk_schema_version pkg = 1" using n l(3) by (simp add: build_package_def SkillSchemaVersion_def)
  have dec: "dec_package (enc_package pkg) = Some ?p" by (rule dec_enc_package) (simp_all add: schema)
  have paths: "pk_instructions_path ?p = pd_instructions d" by (simp add: l(3) build_package_def)
  have ports: "\<forall>f \<in> fst ` set files. portable_path f" using n l(2) by (metis list.set_map list_all_iff)
  have assets: "pk_assets ?p = map (\<lambda>(p, data). \<lparr>as_path = p, as_sha256 = sha data, as_media_type = static_media_type p\<rparr>)
      (filter (\<lambda>f. fst f \<noteq> pd_instructions d) files)" by (simp add: l(3) build_package_def key)
  have wanted: "set (wanted_files ?p) = fst ` set files"
  proof -
    have "pd_instructions d \<noteq> []" using ports ins by (auto simp: portable_path_def plain_def)
    then show ?thesis using ins by (force simp: wanted_files_def paths assets)
  qed
  from ins obtain body where body: "map_of files (pd_instructions d) = Some body"
    by (metis map_of_eq_None_iff not_Some_eq)
  have "pk_instructions ?p = body" using body by (simp add: l(3) build_package_def)
  moreover have "map_option sha (map_of files (as_path a)) = Some (as_sha256 a)" if "a \<in> set (pk_assets ?p)" for a
    using that dist by (auto simp: assets)
  ultimately have "agrees sha ?p files"
    using wanted ports ins body by (auto simp: agrees_def list_all_iff paths portable_path_def plain_def)
  then have "object_agrees sha ?p (full_object pkg files)" by (simp add: object_agrees_def full dec)
  then show ?thesis unfolding intact_def by (rule exI [where x = ?p, OF conjI]) simp
qed

interpretation intact: disk_property "store_intact sha" for sha
  by unfold_locales (simp_all add: store_intact_def)

lemma intact_staging [simp]:
  "updates_staging (store_intact sha) i"
  "store_intact sha (v\<lparr>cs_index := ix\<rparr>) = store_intact sha v" "store_intact sha (v\<lparr>cs_lock := lk\<rparr>) = store_intact sha v"
  "store_intact sha (v\<lparr>cs_candidates := cs\<rparr>) = store_intact sha v" "store_intact sha (v\<lparr>cs_staging := st\<rparr>) = store_intact sha v"
  "store_intact sha (upd_staging i f v) = store_intact sha v" "store_intact sha (make_staging i v) = store_intact sha v"
  by (simp_all add: updates_staging_def store_intact_def make_staging_def)

lemma intact_materializes: "materializes (store_intact sha) sha sv c i"
  unfolding materializes_def
proof (intro allI impI)
  fix src directory d pkg files v r v'
  assume l: "load_package sha sv (sk_id src) (sk_root src) directory d = Some (Loaded pkg files)"
    and m: "materialize c i pkg files v = (r, v')" and ok: "store_intact sha v"
  from materialize_objects [OF m] loaded_object_intact [OF l] ok show "store_intact sha v'"
    by (auto simp: store_intact_def split: if_splits)
qed

lemma store_stays_intact_core:
  assumes "sync_catalog sha rand sv yr c w = (r, w')" "random_source rand" "store_intact sha w"
  shows "store_intact sha w'"
proof -
  have acq: "store_intact sha w2" if "acquire_sync_lock rand c w1 = (q, w2)" "store_intact sha w1" for w1 q w2
    by (rule intact.acquire_Q(1) [OF that assms(2)]) (simp_all add: intact.publish_lock_Q)
  show ?thesis
    using assms(1)
  proof (cases rule: sync_cases)
    case (outside w1)
    with assms(3) acq intact.io_D(2) show ?thesis by blast
  next
    case (released w1 me w2 w3 e x)
    have "store_intact sha w2" using acq [OF released(2)] intact.io_D(2) [OF released(1)] assms(3) by blast
    then have "store_intact sha w3" by (rule intact.attempt_Q [OF released(3)]) simp
    then show ?thesis by (rule intact.release_Q [OF released(4)]) simp
  next
    case (ran w1 me w2 w3 q w4)
    have "store_intact sha w2" using acq [OF ran(2)] intact.io_D(2) [OF ran(1)] assms(3) by blast
    then have "store_intact sha w3" by (rule intact.attempt_Q [OF ran(3)]) simp
    then have w4: "store_intact sha w4"
      by (rule intact.body_all_Q [OF ran(4)]) (simp_all add: intact_materializes)
    then show ?thesis using ran(5) intact.sync_cleanup_Q [OF _ w4] by auto
  qed
qed

text \<open>C14: every synchronisation, whatever its sources hold, whatever fails and wherever its process
  is killed, keeps the store intact: no object is ever published that lacks a part of its package or holds anything else.\<close>

theorem store_stays_intact:
  assumes "sync_catalog sha rand sv yr c w = (r, w')" "random_source rand" "store_intact sha w"
  shows "store_intact sha w'"
  by (rule store_stays_intact_core [OF assms])

section \<open>Verification\<close>

lemma stored_file_portable:
  "portable_path f \<Longrightarrow> stored_file c h (Some m) f = map_of m f"
proof -
  assume f: "portable_path f"
  then have "clean_parts False [] (split_on (CHR ''/'') f) = split_on (CHR ''/'') f"
    by (simp add: clean_parts_plain portable_path_def)
  moreover have "hd (split_on (CHR ''/'') f) \<noteq> dotdot"
    using f by (cases "split_on (CHR ''/'') f") (auto simp: portable_path_def plain_def)
  ultimately show ?thesis by (simp add: stored_file_def Let_def)
qed

lemma read_file_portable:
  "faults w = [] \<Longrightarrow> portable_path f \<Longrightarrow> read_stored_file c h (Some m) f w = (map_of m f, w)"
  by (simp add: read_stored_file_def stored_file_portable)

lemma check_assets_calm:
  "faults w = [] \<Longrightarrow> \<forall>a \<in> set as. portable_path (as_path a) \<and> map_option sha (map_of m (as_path a)) = Some (as_sha256 a) \<Longrightarrow>
     check_assets sha c h (Some m) as w = (None, w)"
  by (induction as) (auto simp: read_file_portable)

text \<open>What is compared is the object with its own \<open>package.json\<close>.\<close>

lemma integrity_of_agreeing:
  assumes "faults w = []" "map_of (cs_objects w) h = Some ob" "object_agrees sha p ob"
  shows "read_stored_package h w = (Inr p, w)" "verify_stored_integrity sha c h w = (None, w)"
proof -
  from assms(3) obtain j m where ob: "ob_package ob = Some (JsonFile j)" "ob_files ob = Some m" "dec_package j = Some p"
    "agrees sha p m"
    by (auto simp: object_agrees_def split: option.splits json_file.splits prod.splits)
  show r: "read_stored_package h w = (Inr p, w)"
    using assms(1,2) ob by (simp add: read_stored_package_def)
  have a: "pk_instructions_path p \<noteq> []" "\<forall>f \<in> set (wanted_files p). portable_path f"
    "map_of m (pk_instructions_path p) = Some (pk_instructions p)"
    "\<forall>a \<in> set (pk_assets p). map_option sha (map_of m (as_path a)) = Some (as_sha256 a)"
    "\<forall>f \<in> set (map fst m). f \<in> set (wanted_files p)"
    using ob(4) by (auto simp: agrees_def list_all_iff)
  have port: "portable_path (pk_instructions_path p)" "\<forall>a \<in> set (pk_assets p). portable_path (as_path a)"
    using a(1,2) by (auto simp: wanted_files_def)
  have assets: "check_assets sha c h (Some m) (pk_assets p) w = (None, w)"
    by (rule check_assets_calm [OF assms(1)]) (use port a(4) in blast)
  have "filter (\<lambda>f. f \<notin> set (wanted_files p)) (walk_files m) = []"
    using a(5) by (auto simp: walk_files_def filter_empty_conv)
  then show "verify_stored_integrity sha c h w = (None, w)"
    using assms(1,2) ob(2) a(1,3) assets
    by (simp add: verify_stored_integrity_def check_instructions_def check_undeclared_def r read_file_portable [OF assms(1) port(1)])
qed

lemma verify_entries_intact:
  "faults w = [] \<Longrightarrow> store_intact sha w \<Longrightarrow> \<forall>s \<in> set ss. stored_ready (cs_objects w) s \<Longrightarrow>
     verify_entries sha c ss w = ((ss, length (filter (\<lambda>s. es_state s \<noteq> SkillReady) ss)), w)"
proof (induction ss)
  case (Cons s ss)
  show ?case
  proof (cases "es_state s = SkillReady")
    case True
    with Cons.prems(3) obtain p where "stored_package (cs_objects w) (pi_package_hash (es_identity s)) = Some p"
      by (auto simp: stored_ready_def)
    then obtain ob where ob: "map_of (cs_objects w) (pi_package_hash (es_identity s)) = Some ob"
      by (auto simp: stored_package_def split: option.splits json_file.splits bind_splits)
    with Cons.prems(2) obtain q where "object_agrees sha q ob" by (auto simp: store_intact_def intact_def)
    from integrity_of_agreeing(2) [OF Cons.prems(1) ob this] Cons True show ?thesis by simp
  next
    case False
    with Cons show ?thesis by simp
  qed
qed simp

text \<open>C28: once a synchronisation has published its index over an intact store, verifying the
  whole catalog, in a later process that nothing disturbs, confirms every Ready entry as it was recorded, and
  reports a failure exactly when some entry is not Ready.\<close>

theorem synchronised_packages_verify:
  assumes "sync_catalog sha rand sv yr c w = (r, w')" "random_source rand" "store_intact sha w" "cs_life w = None"
    "r = Some (res, None)" "sy_state res = SyncSucceeded"
  shows "\<exists>er. verify_catalog sha c' [] (next_process w') = ((sy_entries res, er), next_process w')
     \<and> (er = None \<longleftrightarrow> (\<forall>s \<in> set (sy_entries res). es_state s = SkillReady))"
proof -
  let ?v = "next_process w'"
  let ?ix = "new_index c (sy_entries res)"
  have env: "faults ?v = []" "cs_objects ?v = cs_objects w'" "cs_index ?v = cs_index w'" by (simp_all add: next_process_def)
  from sync_publishes_core [OF assms(1,2)] assms(4-6) have ix: "cs_index w' = Some (index_text ?ix)"
    "index_complete (cs_objects w') (index_text ?ix)"
    by (auto simp: assms(5))
  have dec: "dec_index (enc_index ?ix) = Some ?ix"
    by (rule dec_enc_index) (simp_all add: clone_aliases_def sorted_map_build)
  have ready: "\<forall>s \<in> set (sy_entries res). stored_ready (cs_objects ?v) s"
    using ix(2) by (simp add: index_complete_def file_index_def index_text_def dec list_all_iff env)
  have "store_intact sha w'" by (rule store_stays_intact_core [OF assms(1-3)])
  then have "store_intact sha ?v" by (simp add: store_intact_def env)
  from verify_entries_intact [OF env(1) this ready]
  have ver: "verify_entries sha c' (sy_entries res) ?v
      = ((sy_entries res, length (filter (\<lambda>s. es_state s \<noteq> SkillReady) (sy_entries res))), ?v)" .
  have "read_index ?v = (Inr ?ix, ?v)"
    using ix(1) by (simp add: read_index_def read_index_data_def env index_text_def dec)
  with ver show ?thesis
    by (simp add: verify_catalog_def env filter_empty_conv)
qed

section \<open>What is accepted\<close>

text \<open>What a check that passed has seen of an object.\<close>

definition matches_files :: "(string \<Rightarrow> string) \<Rightarrow> catalog \<Rightarrow> string \<Rightarrow> store_object \<Rightarrow> skill_package \<Rightarrow> bool" where
  "matches_files sha c h ob p =
     ((pk_instructions_path p \<noteq> [] \<longrightarrow> stored_file c h (ob_files ob) (pk_instructions_path p) = Some (pk_instructions p))
      \<and> list_all (\<lambda>a. map_option sha (stored_file c h (ob_files ob) (as_path a)) = Some (as_sha256 a)) (pk_assets p)
      \<and> (case ob_files ob of None \<Rightarrow> False | Some m \<Rightarrow> list_all (\<lambda>f. f \<in> set (wanted_files p)) (map fst m)))"

lemma read_file_Some:
  "read_stored_file c h files f w = (Some d, w') \<Longrightarrow> stored_file c h files f = Some d"
  by (auto simp: read_stored_file_def split: prod.splits option.splits)

lemma read_file_frame: "read_stored_file c h files f w = (r, w') \<Longrightarrow> \<exists>fs. w' = w\<lparr>faults := fs\<rparr>"
  by (auto simp: read_stored_file_def dest: try_io_frame split: prod.splits option.splits)

lemma check_assets_frame: "check_assets sha c h files as w = (r, w') \<Longrightarrow> \<exists>fs. w' = w\<lparr>faults := fs\<rparr>"
proof (induction as arbitrary: w)
  case (Cons a as)
  obtain d w1 where 1: "read_stored_file c h files (as_path a) w = (d, w1)"
    by (cases "read_stored_file c h files (as_path a) w")
  from read_file_frame [OF 1] Cons.IH [of w1] Cons.prems 1 show ?case
    by (auto split: option.splits if_splits)
qed auto

lemma check_assets_None:
  "check_assets sha c h files as w = (None, w') \<Longrightarrow>
     list_all (\<lambda>a. map_option sha (stored_file c h files (as_path a)) = Some (as_sha256 a)) as"
proof (induction as arbitrary: w)
  case (Cons a as)
  then show ?case
    by (auto split: prod.splits option.splits if_splits dest: read_file_Some)
qed simp

lemma check_instructions_frame: "check_instructions c h files p w = (r, w') \<Longrightarrow> \<exists>fs. w' = w\<lparr>faults := fs\<rparr>"
  by (auto simp: check_instructions_def Let_def dest!: read_file_frame split: prod.splits option.splits if_splits)

lemma check_undeclared_frame: "check_undeclared files p w = (r, w') \<Longrightarrow> \<exists>fs. w' = w\<lparr>faults := fs\<rparr>"
  by (auto simp: check_undeclared_def dest!: try_io_frame split: prod.splits option.splits)

lemma integrity_frame: "verify_stored_integrity sha c h w = (r, w') \<Longrightarrow> \<exists>fs. w' = w\<lparr>faults := fs\<rparr>"
  by (auto simp: verify_stored_integrity_def Let_def
      dest!: read_stored_frame check_instructions_frame check_assets_frame check_undeclared_frame
      split: prod.splits sum.splits option.splits)

lemma check_instructions_None:
  "check_instructions c h files p w = (None, w') \<Longrightarrow> pk_instructions_path p \<noteq> [] \<Longrightarrow>
     stored_file c h files (pk_instructions_path p) = Some (pk_instructions p)"
  by (auto simp: check_instructions_def Let_def split: prod.splits option.splits if_splits dest: read_file_Some)

lemma check_undeclared_None:
  "check_undeclared files p w = (None, w') \<Longrightarrow> \<exists>m. files = Some m \<and> list_all (\<lambda>f. f \<in> set (wanted_files p)) (map fst m)"
  by (auto simp: check_undeclared_def walk_files_def filter_empty_conv list_all_iff
      split: prod.splits option.splits list.splits)

lemma integrity_passed:
  assumes "verify_stored_integrity sha c h w = (None, w')"
  shows "\<exists>ob p. map_of (cs_objects w) h = Some ob \<and> stored_package (cs_objects w) h = Some p \<and> matches_files sha c h ob p"
proof -
  obtain x w1 where 1: "read_stored_package h w = (x, w1)" by (cases "read_stored_package h w")
  from read_stored_frame [OF 1] have o1: "cs_objects w1 = cs_objects w" by auto
  from assms 1 obtain p where p: "x = Inr p" by (auto simp: verify_stored_integrity_def split: sum.splits)
  from read_stored_Some [OF 1 [unfolded p]] have sp: "stored_package (cs_objects w) h = Some p" .
  then obtain ob where ob: "map_of (cs_objects w) h = Some ob"
    by (auto simp: stored_package_def split: option.splits json_file.splits bind_splits)
  let ?files = "ob_files ob"
  obtain y w2 where 2: "check_instructions c h ?files p w1 = (y, w2)" by (cases "check_instructions c h ?files p w1")
  obtain z w3 where 3: "check_assets sha c h ?files (pk_assets p) w2 = (z, w3)"
    by (cases "check_assets sha c h ?files (pk_assets p) w2")
  from assms 1 p ob o1 2 3 have ok: "y = None" "z = None" "check_undeclared ?files p w3 = (None, w')"
    by (auto simp: verify_stored_integrity_def Let_def split: option.splits)
  from check_undeclared_None [OF ok(3)] check_assets_None [OF 3 [unfolded ok(2)]]
    check_instructions_None [OF 2 [unfolded ok(1)]]
  have "matches_files sha c h ob p" by (auto simp: matches_files_def)
  with ob sp show ?thesis by blast
qed

text \<open>Where the entries for preparation come from.\<close>

definition checked_entry ::
  "(string \<Rightarrow> string) \<Rightarrow> catalog \<Rightarrow> (string \<times> store_object) list \<Rightarrow> entry_summary list \<Rightarrow> catalog_entry \<Rightarrow> bool" where
  "checked_entry sha c m ss e =
     (ce_state e = SkillReady \<longrightarrow> (\<exists>s \<in> set ss. es_state s = SkillReady
        \<and> stored_package m (pi_package_hash (es_identity s)) = Some (ce_package e)
        \<and> (\<exists>ob. map_of m (pi_package_hash (es_identity s)) = Some ob
             \<and> matches_files sha c (pi_package_hash (es_identity s)) ob (ce_package e))))"

lemma checked_mono: "checked_entry sha c m ss e \<Longrightarrow> checked_entry sha c m (s # ss) e"
  by (auto simp: checked_entry_def)

lemma load_entries_checked:
  "load_entries sha c ss w = (r, w') \<Longrightarrow>
     (\<exists>fs. w' = w\<lparr>faults := fs\<rparr>) \<and> (\<forall>es. r = Inr es \<longrightarrow> (\<forall>e \<in> set es. checked_entry sha c (cs_objects w) ss e))"
proof (induction ss arbitrary: w r w')
  case (Cons s ss)
  let ?h = "pi_package_hash (es_identity s)"
  obtain a w1 where 1: "ctx_err w = (a, w1)" by (cases "ctx_err w")
  obtain fs1 where fs1: "w1 = w\<lparr>faults := fs1\<rparr>" using ctx_err_frame [OF 1] by blast
  let ?one = "if es_state s \<noteq> SkillReady then (Inr (unsupported_summary s), w1)
      else (case verify_stored_integrity sha c ?h w1 of
              (Some e, w2) \<Rightarrow> (Inr ((unsupported_summary s)\<lparr>ce_state := UnsupportedSkillPackage,
                 ce_diagnostic := cut_diagnostic (err_text e)\<rparr>), w2)
            | (None, w2) \<Rightarrow>
               (case read_stored_package ?h w2 of
                  (Inl e, w3) \<Rightarrow> (Inl e, w3)
                | (Inr pkg, w3) \<Rightarrow> (Inr \<lparr>ce_state = es_state s, ce_package = pkg, ce_diagnostic = es_diagnostic s\<rparr>, w3)))"
  obtain q w3 where 3: "?one = (q, w3)" by (cases ?one)
  obtain t w4 where 4: "load_entries sha c ss w3 = (t, w4)" by (cases "load_entries sha c ss w3")
  have one: "(\<exists>fs. w3 = w\<lparr>faults := fs\<rparr>) \<and> (\<forall>e. q = Inr e \<longrightarrow> checked_entry sha c (cs_objects w) (s # ss) e)"
  proof (cases "es_state s = SkillReady")
    case False
    with 3 fs1 show ?thesis by (auto simp: checked_entry_def unsupported_summary_def)
  next
    case True
    obtain x w2 where 2: "verify_stored_integrity sha c ?h w1 = (x, w2)" by (cases "verify_stored_integrity sha c ?h w1")
    obtain fs2 where fs2: "w2 = w1\<lparr>faults := fs2\<rparr>" using integrity_frame [OF 2] by blast
    show ?thesis
    proof (cases x)
      case (Some e)
      with 3 True 2 fs1 fs2 show ?thesis
        by (auto simp: checked_entry_def UnsupportedSkillPackage_def SkillReady_def)
    next
      case None
      from integrity_passed [OF 2 [unfolded None]] fs1 obtain ob p where p: "map_of (cs_objects w) ?h = Some ob"
        "stored_package (cs_objects w) ?h = Some p" "matches_files sha c ?h ob p" by auto
      obtain y v where y: "read_stored_package ?h w2 = (y, v)" by (cases "read_stored_package ?h w2")
      have "\<exists>fs. v = w\<lparr>faults := fs\<rparr>" using read_stored_frame [OF y] fs1 fs2 by auto
      moreover have "pkg = p" if "y = Inr pkg" for pkg
        using read_stored_Some [OF y [unfolded that]] p(2) fs1 fs2 by simp
      ultimately show ?thesis using 3 True 2 None y p by (auto simp: checked_entry_def split: sum.splits)
    qed
  qed
  then obtain fs3 where fs3: "w3 = w\<lparr>faults := fs3\<rparr>" by blast
  note IH = Cons.IH [OF 4]
  from Cons.prems 1 3 4 have "(\<exists>e. r = Inl e) \<and> (w' = w1 \<or> w' = w3 \<or> w' = w4)
      \<or> (\<exists>e es. q = Inr e \<and> t = Inr es \<and> r = Inr (e # es) \<and> w' = w4)"
    by (auto split: option.splits sum.splits)
  with one IH fs1 fs3 checked_mono show ?case by auto
qed auto

section \<open>Preparation\<close>

lemma scan_catalog_entry: "scan_catalog es n = Inr e \<Longrightarrow> e \<in> set es"
proof -
  assume a: "scan_catalog es n = Inr e"
  show ?thesis
  proof (cases "filter (\<lambda>e. entry_qualified e = n) es")
    case (Cons x xs)
    with a have "e \<in> set (filter (\<lambda>e. entry_qualified e = n) es)" by (simp add: scan_catalog_def)
    then show ?thesis by simp
  next
    case Nil
    with a have "filter (\<lambda>e. entry_name e = n) es = [e]" by (auto simp: scan_catalog_def split: list.splits)
    then have "e \<in> set (filter (\<lambda>e. entry_name e = n) es)" by simp
    then show ?thesis by simp
  qed
qed

lemma resolved_entry:
  assumes "new_skill_port es aliases = Inr p" "resolve_skill_name p n = Inr e"
  shows "e \<in> set es"
proof -
  from assms(2) resolve_name_scan [OF assms(1), of n] have "scan_names es aliases n = Inr e" by simp
  then have "(\<exists>m. scan_catalog es m = Inr e) \<or> (\<exists>xs. filter (\<lambda>e. entry_qualified e = n) es = e # xs)"
    by (auto simp: scan_names_def split: list.splits option.splits sum.splits)
  then show ?thesis
  proof
    assume "\<exists>xs. filter (\<lambda>e. entry_qualified e = n) es = e # xs"
    then obtain xs where "filter (\<lambda>e. entry_qualified e = n) es = e # xs" by blast
    then have "e \<in> set (filter (\<lambda>e. entry_qualified e = n) es)" by (simp only: list.set_intros)
    then show ?thesis by simp
  qed (use scan_catalog_entry in blast)
qed

lemma random_invocation_frame:
  assumes "random_source rand"
  shows "by_id (snd (random_invocation_id rand w)) = by_id w" "entries (snd (random_invocation_id rand w)) = entries w"
proof -
  obtain x v where 1: "rand w = (x, v)" by (cases "rand w")
  from assms obtain fs n where "snd (rand w) = w\<lparr>faults := fs, reads := n\<rparr>" unfolding random_source_def by blast
  with 1 have "by_id v = by_id w" "entries v = entries w" by simp_all
  with 1 show "by_id (snd (random_invocation_id rand w)) = by_id w" "entries (snd (random_invocation_id rand w)) = entries w"
    by (simp_all add: random_invocation_id_def split: sum.split)
qed

lemma read_index_data_frame: "read_index_data w = (r, w') \<Longrightarrow> \<exists>fs. w' = w\<lparr>faults := fs\<rparr>"
  by (auto simp: read_index_data_def dest: try_io_frame
      split: prod.splits option.splits json_file.splits if_splits)

lemma read_index_data_Inr:
  assumes "read_index_data w = (Inr (ix, bytes), w')"
  shows "\<exists>f. cs_index w = Some f \<and> file_index f = Some ix \<and> if_bytes f = bytes"
proof -
  obtain x w1 where 1: "try_io w = (x, w1)" by (cases "try_io w")
  from try_io_frame [OF 1] have "cs_index w1 = cs_index w" by auto
  with assms 1 show ?thesis
    by (auto simp: read_index_data_def file_index_def split: option.splits json_file.splits if_splits)
qed

text \<open>What \<open>Prepare\<close> comes down to: an early failure, the port it kept, or a new port with an empty registry.\<close>

lemma catalog_prepare_cases:
  assumes "catalog_prepare sha lit rand c q w = (r, w')"
  obtains (failed) e fs where "r = Inl e" "w' = w\<lparr>faults := fs\<rparr>"
  | (kept) ix bytes port fs where "read_index_data w = (Inr (ix, bytes), w\<lparr>faults := fs\<rparr>)" "cs_preparer w = Some (sha bytes, port)"
      "prepare_skill sha lit (random_invocation_id rand) port q (w\<lparr>faults := fs\<rparr>) = (r, w')"
  | (fresh) ix bytes port es fs fs' where "read_index_data w = (Inr (ix, bytes), w\<lparr>faults := fs\<rparr>)"
      "load_entries sha c (ci_entries ix) (w\<lparr>faults := fs\<rparr>) = (Inr es, w\<lparr>faults := fs'\<rparr>)"
      "new_skill_port es (ci_aliases ix) = Inr port"
      "prepare_skill sha lit (random_invocation_id rand) port q
         (w\<lparr>faults := fs', cs_preparer := Some (sha bytes, port), by_id := []\<rparr>) = (r, w')"
proof -
  obtain x w1 where 1: "read_index_data w = (x, w1)" by (cases "read_index_data w")
  obtain fs where fs: "w1 = w\<lparr>faults := fs\<rparr>" using read_index_data_frame [OF 1] by blast
  show thesis
  proof (cases x)
    case (Inl e)
    with assms 1 have "r = Inl e" "w' = w1" by (simp_all add: catalog_prepare_def)
    with fs failed show thesis by blast
  next
    case (Inr ib)
    obtain ix bytes where ib: "ib = (ix, bytes)" by (cases ib)
    note 1 = 1 [unfolded Inr ib fs]
    show thesis
    proof (cases "\<exists>port. cs_preparer w = Some (sha bytes, port)")
      case True
      then obtain port where port: "cs_preparer w = Some (sha bytes, port)" by blast
      with assms 1 have "prepare_skill sha lit (random_invocation_id rand) port q (w\<lparr>faults := fs\<rparr>) = (r, w')"
        by (simp add: catalog_prepare_def)
      with 1 port kept show thesis by blast
    next
      case False
      obtain y w2 where 2: "load_entries sha c (ci_entries ix) (w\<lparr>faults := fs\<rparr>) = (y, w2)"
        by (cases "load_entries sha c (ci_entries ix) (w\<lparr>faults := fs\<rparr>)")
      obtain fs' where fs': "w2 = w\<lparr>faults := fs'\<rparr>" using load_entries_checked [OF 2] by auto
      have run: "(r, w') = (case y of
           Inl e \<Rightarrow> (Inl e, w2)
         | Inr es \<Rightarrow> (case new_skill_port es (ci_aliases ix) of
              Inl e \<Rightarrow> (Inl e, w2)
            | Inr port' \<Rightarrow> prepare_skill sha lit (random_invocation_id rand) port' q
                (w2\<lparr>cs_preparer := Some (sha bytes, port'), by_id := []\<rparr>)))"
        using assms 1 2 False by (cases "cs_preparer w") (auto simp: catalog_prepare_def)
      show thesis
      proof (cases "\<exists>es port. y = Inr es \<and> new_skill_port es (ci_aliases ix) = Inr port")
        case False
        with run have "(\<exists>e. r = Inl e) \<and> w' = w2" by (auto split: sum.splits)
        with fs' failed show thesis by blast
      next
        case True
        then obtain es port where es: "y = Inr es" "new_skill_port es (ci_aliases ix) = Inr port" by blast
        with run have "prepare_skill sha lit (random_invocation_id rand) port q
            (w2\<lparr>cs_preparer := Some (sha bytes, port), by_id := []\<rparr>) = (r, w')" by simp
        with 1 2 es fs' fresh show thesis by blast
      qed
    qed
  qed
qed

text \<open>What a bundle that is prepared by a fresh process comes from.\<close>

lemma prepared_content:
  assumes "catalog_prepare sha lit rand c q w = (Inr b, w')" "cs_preparer w = None" "random_source rand"
  shows "\<exists>f ix s ob p. cs_index w = Some f \<and> file_index f = Some ix \<and> s \<in> set (ci_entries ix) \<and> es_state s = SkillReady
    \<and> map_of (cs_objects w) (pi_package_hash (es_identity s)) = Some ob
    \<and> stored_package (cs_objects w) (pi_package_hash (es_identity s)) = Some p
    \<and> matches_files sha c (pi_package_hash (es_identity s)) ob p
    \<and> sb_identity b = pk_identity p \<and> sb_instructions b = pk_instructions p \<and> sb_assets b = pk_assets p"
  using assms(1)
proof (cases rule: catalog_prepare_cases)
  case (fresh ix bytes port es fs fs')
  let ?v = "w\<lparr>faults := fs', cs_preparer := Some (sha bytes, port), by_id := []\<rparr>"
  from read_index_data_Inr [OF fresh(1)] obtain f where f: "cs_index w = Some f" "file_index f = Some ix" by blast
  have quiet: "trim_space (pr_invocation_id q) \<noteq> [] \<or> (\<forall>v. by_id (snd (random_invocation_id rand v)) = by_id v)"
    using random_invocation_frame(1) [OF assms(3)] by blast
  from fresh(4) quiet obtain x i e v where e: "by_id v = by_id ?v" "prepare_entry sha lit x i e q v = (Inr b, w')"
    "resolve_skill_name port (trim_space (pr_name q)) = Inr e" "ce_state e = SkillReady"
    by (cases rule: prepare_cases) auto
  from resolved_entry [OF fresh(3) e(3)] load_entries_checked [OF fresh(2)]
  have "checked_entry sha c (cs_objects w) (ci_entries ix) e" by auto
  with e(4) obtain s ob where s: "s \<in> set (ci_entries ix)" "es_state s = SkillReady"
    "stored_package (cs_objects w) (pi_package_hash (es_identity s)) = Some (ce_package e)"
    "map_of (cs_objects w) (pi_package_hash (es_identity s)) = Some ob"
    "matches_files sha c (pi_package_hash (es_identity s)) ob (ce_package e)"
    unfolding checked_entry_def by blast
  from e(1,2) have "new_skill_bundle sha lit i (ce_package e) (pr_runtime q) (pr_arguments q) = Inr b"
    by (auto simp: prepare_entry_def register_bundle_def Let_def split: if_splits sum.splits option.splits)
  then have "sb_identity b = pk_identity (ce_package e)" "sb_instructions b = pk_instructions (ce_package e)"
    "sb_assets b = pk_assets (ce_package e)"
    by (auto simp: new_skill_bundle_def Let_def split: option.splits sum.splits)
  with f s show ?thesis by blast
qed (use assms(2) in auto)

text \<open>A process that builds its port from the active index prepares a bundle only from a
  Ready entry of that index whose stored files, when they were read, were the recorded instructions, had the
  recorded hashes and were all declared; the bundle carries those instructions and assets. A store that drifted from its
  records gives no bundle.\<close>

theorem prepared_content_was_checked:
  assumes "catalog_prepare sha lit rand c q w = (Inr b, w')" "cs_preparer w = None" "random_source rand"
  shows "\<exists>f ix s ob p. cs_index w = Some f \<and> file_index f = Some ix \<and> s \<in> set (ci_entries ix) \<and> es_state s = SkillReady
    \<and> map_of (cs_objects w) (pi_package_hash (es_identity s)) = Some ob
    \<and> stored_package (cs_objects w) (pi_package_hash (es_identity s)) = Some p
    \<and> matches_files sha c (pi_package_hash (es_identity s)) ob p
    \<and> sb_identity b = pk_identity p \<and> sb_instructions b = pk_instructions p \<and> sb_assets b = pk_assets p"
  using assms by (rule prepared_content)

text \<open>The catalog is a port: it has what the client of a port relies on.\<close>

interpretation catalog_port: skill_service "catalog_prepare sha lit rand c" "registry_ok sha"
  for sha lit and rand :: "'a cstate_scheme \<Rightarrow> string res \<times> 'a cstate_scheme" and c
proof unfold_locales
  fix q :: prepare_request and w :: "'a cstate_scheme"
  assume i: "trim_space (pr_invocation_id q) \<noteq> []"
  obtain r w' where p: "catalog_prepare sha lit rand c q w = (r, w')" by (cases "catalog_prepare sha lit rand c q w")
  have run: "entries v' = entries v \<and> (registry_ok sha v \<longrightarrow> registry_ok sha v')"
    if "prepare_skill sha lit (random_invocation_id rand) port q v = (r, v')" for port v v'
    using memory_port.prepare_quiet [OF i, of sha lit "random_invocation_id rand" port v]
      memory_port.prepare_ok [OF i, of sha v lit "random_invocation_id rand" port] that by simp
  have fresh: "registry_ok sha (w\<lparr>faults := fs, cs_preparer := x, by_id := []\<rparr>)" for fs x by (simp add: registry_ok_def)
  have env: "registry_ok sha (w\<lparr>faults := fs\<rparr>) = registry_ok sha w" for fs by (rule registry_ok_cong) simp
  have "entries w' = entries w \<and> (registry_ok sha w \<longrightarrow> registry_ok sha w')"
    using p
  proof (cases rule: catalog_prepare_cases)
    case (failed e fs)
    with env show ?thesis by simp
  next
    case (kept ix bytes port fs)
    from run [OF kept(3)] env show ?thesis by simp
  next
    case (fresh ix bytes port es fs fs')
    from run [OF fresh(4)] \<open>\<And>fs x. registry_ok sha (w\<lparr>faults := fs, cs_preparer := x, by_id := []\<rparr>)\<close> show ?thesis by simp
  qed
  with p show "entries (snd (catalog_prepare sha lit rand c q w)) = entries w"
    "registry_ok sha w \<Longrightarrow> registry_ok sha (snd (catalog_prepare sha lit rand c q w))" by simp_all
next
  fix q :: prepare_request and b and w w' :: "'a cstate_scheme"
  assume i: "trim_space (pr_invocation_id q) \<noteq> []" and ok: "registry_ok sha w"
    and p: "catalog_prepare sha lit rand c q w = (Inr b, w')"
  from p show "sb_invocation_id b = trim_space (pr_invocation_id q)"
  proof (cases rule: catalog_prepare_cases)
    case (kept ix bytes port fs)
    have "registry_ok sha (w\<lparr>faults := fs\<rparr>)" using ok registry_ok_cong [of "w\<lparr>faults := fs\<rparr>" w] by simp
    from memory_port.prepare_identity [OF i this kept(3)] show ?thesis .
  next
    case (fresh ix bytes port es fs fs')
    have "registry_ok sha (w\<lparr>faults := fs', cs_preparer := Some (sha bytes, port), by_id := []\<rparr>)" by (simp add: registry_ok_def)
    from memory_port.prepare_identity [OF i this fresh(4)] show ?thesis .
  qed simp
qed

text \<open>A loaded package may have no instructions but blanks; the port that a synchronisation builds from its entries then
  rejects all of them.\<close>

lemma blank_instructions_fail_the_sync:
  assumes "e \<in> set es" "ce_state e = SkillReady" "trim_space (pk_instructions (ce_package e)) = []"
  shows "\<exists>er. new_skill_port es aliases = Inl er"
proof (cases "new_skill_port es aliases")
  case (Inr p)
  from new_port_indexes(3) [OF this] assms(1) have "validate_catalog_entry e = None" by blast
  with assms(2,3) show ?thesis
    by (simp add: validate_catalog_entry_def Let_def SkillReady_def UnsupportedSkillPackage_def split: if_splits)
qed simp

text \<open>What is checked is whether an object agrees with its own \<open>package.json\<close>, and nothing
  else: under any package hash, whoever wrote the object and whatever package it now records, an object that agrees with
  itself passes the verification and is loaded for preparation as the Ready package it claims to be. The
  package hash is never computed again.\<close>

theorem rewritten_object_is_accepted:
  assumes "faults w = []" "map_of (cs_objects w) h = Some ob" "object_agrees sha p ob"
    "es_state s = SkillReady" "pi_package_hash (es_identity s) = h"
  shows "verify_stored_integrity sha c h w = (None, w)
    \<and> load_entries sha c [s] w = (Inr [\<lparr>ce_state = SkillReady, ce_package = p, ce_diagnostic = es_diagnostic s\<rparr>], w)"
  using integrity_of_agreeing [OF assms(1-3)] assms(1,4,5) by simp

end
