(* ===== verification/Skill_Store_Samples.thy ===== *)
theory Skill_Store_Samples
  imports Skill_Store_Integrity
begin

text \<open>
  The catalog on disk at concrete inputs.
\<close>

section \<open>A sample catalog\<close>

text \<open>
  A random source, a source with one package \<open>s/p\<close> of one file, a catalog over it, and the state before anything
  was synchronised. \<open>filepath.EvalSymlinks\<close> finds no links.
\<close>

definition demo_rand :: "'a cstate_scheme \<Rightarrow> string res \<times> 'a cstate_scheme" where
  "demo_rand w = (Inr (replicate 16 (CHR ''a'')), w)"

definition demo_hash :: "string \<Rightarrow> string" where
  "demo_hash s = replicate 64 (CHR ''a'')"

definition plain_source :: source_view where
  "plain_source = \<lparr>sv_lstat = (\<lambda>p. Inr \<lparr>fi_regular = True, fi_executable = False, fi_size = 2\<rparr>), sv_read = (\<lambda>p. Inr ''hi''),
     sv_dir = (\<lambda>p. Inr []), sv_open = (\<lambda>p. Inr \<lparr>fi_regular = True, fi_executable = False, fi_size = 2\<rparr>),
     sv_eval = (\<lambda>p. Inr (clean p))\<rparr>"

definition demo_declaration :: package_declaration where
  "demo_declaration = \<lparr>pd_schema_version = 1, pd_source_id = ''s'', pd_name = ''p'', pd_directory = ''d'',
     pd_description = ''x'', pd_license = ''MIT'', pd_source_url = ''u'', pd_source_revision = ''v'',
     pd_instructions = ''x.md'', pd_files = [''x.md''], pd_arguments_schema = [], pd_runtimes = []\<rparr>"

definition demo_yaml :: yaml_reader where
  "demo_yaml = \<lparr>yr_lock = (\<lambda>s. Inr \<lparr>rl_schema_version = 1, rl_packages = [demo_declaration]\<rparr>),
     yr_declaration = (\<lambda>s. Inr demo_declaration), yr_rest = (\<lambda>s. EndOfInput)\<rparr>"

definition demo_catalog :: catalog where
  "demo_catalog = \<lparr>cc_root = ''/c'', cc_settings = \<lparr>rs_enabled = True, rs_runtime_lock = ''/r/lock'',
     rs_sources = [\<lparr>sk_id = ''s'', sk_root = ''/r''\<rparr>], rs_aliases = []\<rparr>, cc_checkpoint = None,
     cc_process_state = (\<lambda>p. ProcessDead), cc_pid = 7, cc_outside = (\<lambda>h p. None)\<rparr>"

definition empty_cstate :: cstate where
  "empty_cstate = \<lparr>faults = [], clock = (\<lambda>n. 1), reads = 0, entries = [], by_id = [], cs_objects = [], cs_index = None,
     cs_staging = [], cs_lock = None, cs_candidates = [], cs_preparer = None, cs_life = None\<rparr>"

lemma demo_rand_ok: "random_source demo_rand"
  unfolding random_source_def
proof (intro allI conjI)
  fix w :: "'a cstate_scheme"
  show "\<exists>fs n. snd (demo_rand w) = w\<lparr>faults := fs, reads := n\<rparr>"
    by (rule exI [of _ "faults w"], rule exI [of _ "reads w"]) (simp add: demo_rand_def)
qed (auto simp: demo_rand_def)


lemma demo_normalized: "normalize_declaration demo_declaration = (None, demo_declaration)"
  by code_simp

lemma demo_confined:
  "confined_path (sv_eval plain_source) ''/r'' ''d'' = Some (Inr (clean ''/r/d''))"
  "confined_path (sv_eval plain_source) (path_text (clean ''/r/d'')) ''x.md'' = Some (Inr (clean ''/r/d/x.md''))"
proof -
  have ev: "eval_existing (sv_eval plain_source) p [] = Some (Inr (clean (path_text p)))" if "path_text p = t" for p t
    by (subst eval_existing.simps) (simp add: plain_source_def)
  show "confined_path (sv_eval plain_source) ''/r'' ''d'' = Some (Inr (clean ''/r/d''))"
    unfolding confined_path_def Let_def ev [OF refl] by code_simp
  show "confined_path (sv_eval plain_source) (path_text (clean ''/r/d'')) ''x.md'' = Some (Inr (clean ''/r/d/x.md''))"
    unfolding confined_path_def Let_def ev [OF refl] by code_simp
qed

lemma demo_file: "validate_static_file ''x.md'' ''x.md'' ''hi'' = None"
  by code_simp

definition demo_package :: skill_package where
  "demo_package = build_package demo_hash ''s'' demo_declaration [(''x.md'', ''hi'')]"

lemma demo_loaded:
  "load_package demo_hash plain_source ''s'' ''/r'' ''d'' demo_declaration = Some (Loaded demo_package [(''x.md'', ''hi'')])"
proof -
  have d: "pd_source_id demo_declaration = ''s''" "pd_files demo_declaration = [''x.md'']"
    "pd_instructions demo_declaration = ''x.md''"
    by (simp_all add: demo_declaration_def)
  have "check_declared_file plain_source ''s'' demo_declaration (clean ''/r/d'') 0 ''x.md'' = Some (FileOk ''hi'' 2)"
    unfolding check_declared_file_def demo_confined(2)
    by (simp add: Let_def plain_source_def d demo_file maxInstructionsBytes_def maxBundleBytes_def)
  then show ?thesis
    unfolding load_package_def demo_normalized demo_confined(1) by (simp add: d demo_package_def)
qed

definition demo_id :: string where "demo_id = hex_encode (replicate 16 (CHR ''a''))"

definition demo_owner :: sync_owner where
  "demo_owner = \<lparr>so_schema_version = SyncLockSchemaVersion, so_pid = 7, so_started_at = 1, so_owner_id = demo_id\<rparr>"

definition demo_lock :: cstate where
  "demo_lock = empty_cstate\<lparr>reads := 1, cs_lock := Some (JsonFile (enc_owner demo_owner))\<rparr>"

lemma demo_acquired:
  "acquire_sync_lock demo_rand demo_catalog empty_cstate = (Inr (Acquired demo_owner), demo_lock)"
  by (simp add: acquire_sync_lock_def time_now_def empty_cstate_def demo_rand_def random_sync_owner_id_def demo_owner_def
      lock_through_candidate_def Let_def publish_lock_candidate_def publish_sync_lock_def sync_directory_def attempt_def effect_def
      reach_checkpoint_def demo_catalog_def demo_lock_def demo_id_def [symmetric])

definition demo_dir :: staging_dir where
  "demo_dir = \<lparr>sd_owner = Some (JsonFile (enc_owner demo_owner)), sd_objects = [], sd_index = None\<rparr>"

definition demo_started :: cstate where
  "demo_started = demo_lock\<lparr>cs_staging := [(demo_id, demo_dir)]\<rparr>"

definition demo_object :: store_object where
  "demo_object = \<lparr>ob_package = Some (JsonFile (enc_package demo_package)), ob_files = Some [(''x.md'', ''hi'')]\<rparr>"

definition demo_h :: string where "demo_h = demo_hash []"

lemma demo_hash_h: "pi_package_hash (pk_identity demo_package) = demo_h"
  by (simp add: demo_package_def build_package_def hash_package_def demo_hash_def demo_h_def)

definition demo_stored :: cstate where
  "demo_stored = demo_started\<lparr>cs_objects := [(demo_h, demo_object)]\<rparr>"

lemma demo_move_calm: "faults w = [] \<Longrightarrow> faults (move_object i h w) = []"
  by (simp add: move_object_def upd_staging_def split: option.split)

lemma demo_filled:
  assumes "map_of (cs_staging w) demo_id = Some d" "map_of (sd_objects d) demo_h = Some empty_object"
    "faults w = []" "cs_life w = None" "cs_objects w = []"
  shows "fill_object demo_catalog demo_id demo_package [(''x.md'', ''hi'')] w
    = (None, move_object demo_id demo_h (upd_staging demo_id (upd_object demo_h (\<lambda>ob. demo_object)) w))"
  using assms
  by (simp add: fill_object_def Let_def demo_hash_h upd_staging_def upd_object_def effect_def write_durable_def attempt_def
      empty_object_def put_file_def reach_checkpoint_def demo_catalog_def publish_object_def sync_directory_def
      demo_object_def map_put_twice demo_move_calm)

lemma demo_materialized:
  "materialize demo_catalog demo_id demo_package [(''x.md'', ''hi'')] demo_started = (None, demo_stored)"
  by (simp add: materialize_def Let_def demo_hash_h demo_started_def demo_stored_def demo_lock_def
      empty_cstate_def staged_object_def demo_dir_def upd_staging_def upd_object_def effect_def attempt_def
      move_object_def demo_filled)

definition demo_entry :: catalog_entry where
  "demo_entry = \<lparr>ce_state = SkillReady, ce_package = demo_package, ce_diagnostic = []\<rparr>"

lemma demo_collected:
  "collect_entries demo_hash plain_source demo_yaml demo_catalog demo_id demo_started = (Some (Inr [demo_entry]), demo_stored)"
proof -
  have lock: "read_strict_yaml plain_source (yr_lock demo_yaml) (yr_rest demo_yaml) ''/r/lock''
      = Inr \<lparr>rl_schema_version = 1, rl_packages = [demo_declaration]\<rparr>"
    by (simp add: read_strict_yaml_def plain_source_def demo_yaml_def maxManifestBytes_def Let_def)
  have src: "find_source (rs_sources (cc_settings demo_catalog)) ''s'' = Some \<lparr>sk_id = ''s'', sk_root = ''/r''\<rparr>"
    "find_source (rs_sources (cc_settings demo_catalog)) ''local'' = None"
    by (simp_all add: find_source_def demo_catalog_def)
  have d: "pd_source_id demo_declaration = ''s''" "pd_schema_version demo_declaration = 1"
    "pd_directory demo_declaration = ''d''"
    by (simp_all add: demo_declaration_def)
  have calm: "faults demo_started = []"
    by (simp add: demo_started_def demo_lock_def empty_cstate_def)
  have "load_into_store demo_hash plain_source demo_catalog demo_id \<lparr>sk_id = ''s'', sk_root = ''/r''\<rparr> ''d'' demo_declaration
      demo_started = (Some (Inr demo_entry), demo_stored)"
    by (simp add: load_into_store_def demo_loaded demo_materialized demo_entry_def)
  moreover have "rs_runtime_lock (cc_settings demo_catalog) = ''/r/lock''" by (simp add: demo_catalog_def)
  ultimately show ?thesis
    using lock calm d by (simp add: collect_entries_def src RuntimeLockSchemaVersion_def add_unique_entry_def)
qed

definition demo_port :: skill_port where
  "demo_port = \<lparr>sp_entries = [(''s/p'', demo_entry)], sp_by_unqualified = [(''p'', [''s/p''])], sp_aliases = []\<rparr>"

lemma demo_package_parts:
  "pk_identity demo_package = \<lparr>pi_source_id = ''s'', pi_name = ''p'', pi_package_hash = demo_h\<rparr>"
  "pk_schema_version demo_package = 1" "pk_instructions demo_package = ''hi''" "pk_assets demo_package = []"
  "pk_instructions_path demo_package = ''x.md''" "pk_runtimes demo_package = []" "pk_arguments_schema demo_package = []"
  by (simp_all add: demo_package_def build_package_def hash_package_def demo_hash_def demo_h_def demo_declaration_def)

lemma demo_port_made: "new_skill_port [demo_entry] [] = Inr demo_port"
proof -
  have texts: "trim_space ''s'' = ''s''" "trim_space ''p'' = ''p''" "trim_space ''hi'' = ''hi''" by code_simp+
  have hex: "length demo_h = 64" "list_all is_hex_char demo_h" by (unfold demo_h_def demo_hash_def) code_simp+
  have "validate_catalog_entry demo_entry = None"
    by (simp add: validate_catalog_entry_def Let_def demo_entry_def demo_package_parts texts hex SkillReady_def
        UnsupportedSkillPackage_def SkillSchemaVersion_def)
  then show ?thesis
    by (simp add: new_skill_port_def entry_qualified_def entry_name_def qualified_name_def demo_port_def demo_entry_def
        demo_package_parts unqualified_matches_def clone_aliases_def map_build_sorted)
qed

lemma demo_summary: "summarize_entries [demo_entry] = [\<lparr>es_state = SkillReady, es_identity = pk_identity demo_package, es_diagnostic = []\<rparr>]"
  by (simp add: summarize_entries_def demo_entry_def)

definition demo_index :: catalog_index where
  "demo_index = new_index demo_catalog (summarize_entries [demo_entry])"

lemma demo_index_read: "dec_index (enc_index demo_index) = Some demo_index"
  by (rule dec_enc_index) (simp_all add: demo_index_def clone_aliases_def sorted_map_build)

lemma demo_package_read: "dec_package (enc_package demo_package) = Some demo_package"
  using dec_enc_package [of demo_package] by (simp add: demo_package_parts reread_schema_def map_build_sorted)

definition demo_staged :: cstate where
  "demo_staged = demo_stored\<lparr>cs_staging := [(demo_id, demo_dir\<lparr>sd_index := Some (index_text demo_index)\<rparr>)]\<rparr>"

lemmas demo_states = demo_started_def demo_stored_def demo_lock_def empty_cstate_def demo_dir_def

lemma demo_stage: "stage_index demo_catalog demo_id (summarize_entries [demo_entry]) demo_stored = (None, demo_staged)"
  by (simp add: stage_index_def write_atomic_mode_def Let_def effect_def upd_staging_def demo_states demo_staged_def
      demo_index_def new_index_def)

lemma demo_verify: "verify_staged_index demo_id demo_staged = (None, demo_staged)"
proof -
  have calm: "faults demo_staged = []" and ob: "map_of (cs_objects demo_staged) demo_h = Some demo_object"
    and ix: "staged_index demo_id demo_staged = Some (index_text demo_index)"
    by (simp_all add: demo_states demo_staged_def staged_index_def)
  have "read_stored_package demo_h demo_staged = (Inr demo_package, demo_staged)"
    using calm ob by (simp add: read_stored_package_def demo_object_def demo_package_read)
  moreover have "ci_entries demo_index = [\<lparr>es_state = SkillReady, es_identity = pk_identity demo_package, es_diagnostic = []\<rparr>]"
    by (simp add: demo_index_def demo_summary)
  moreover have "ci_schema_version demo_index = 1" by (simp add: demo_index_def)
  ultimately show ?thesis
    using calm ix by (simp add: verify_staged_index_def index_text_def demo_index_read demo_hash_h)
qed

definition demo_synced :: cstate where
  "demo_synced = empty_cstate\<lparr>reads := 1, cs_objects := [(demo_h, demo_object)], cs_index := Some (index_text demo_index)\<rparr>"

lemma demo_publish: "publish_staged_index demo_id demo_staged
    = (None, demo_staged\<lparr>cs_index := Some (index_text demo_index)\<rparr>)"
  by (simp add: publish_staged_index_def demo_staged_def demo_states staged_index_def write_atomic_mode_def effect_def)

lemma demo_body: "sync_body demo_hash plain_source demo_yaml demo_catalog demo_owner (demo_lock\<lparr>cs_staging := [(demo_id, empty_staging)]\<rparr>)
    = (Some (\<lparr>sy_state = SyncSucceeded, sy_owner = None, sy_entries = summarize_entries [demo_entry]\<rparr>, None),
       demo_staged\<lparr>cs_index := Some (index_text demo_index)\<rparr>)"
proof -
  have own: "write_atomic_mode (upd_staging demo_id (\<lambda>d. d\<lparr>sd_owner := Some (JsonFile (enc_owner demo_owner))\<rparr>))
      (demo_lock\<lparr>cs_staging := [(demo_id, empty_staging)]\<rparr>) = (None, demo_started)"
    by (simp add: write_atomic_mode_def effect_def upd_staging_def demo_states empty_staging_def)
  have "reach_checkpoint demo_catalog p = None" "so_owner_id demo_owner = demo_id" "rs_aliases (cc_settings demo_catalog) = []" for p
    by (simp_all add: reach_checkpoint_def demo_catalog_def demo_owner_def)
  then show ?thesis
    by (simp add: sync_body_def Let_def own demo_collected demo_port_made demo_stage demo_verify demo_publish)
qed

lemma demo_owner_read: "decode_sync_owner (Some (JsonFile (enc_owner demo_owner))) = Inr demo_owner"
proof -
  have "valid_sync_owner_id demo_id" unfolding demo_id_def by code_simp
  moreover have "\<not> is_zero_time 1" by code_simp
  moreover have "dec_owner (enc_owner demo_owner) = Some demo_owner" by (rule dec_enc_owner) (simp_all add: demo_owner_def)
  ultimately show ?thesis by (simp add: decode_sync_owner_def demo_owner_def)
qed

lemma demo_run: "sync_catalog demo_hash demo_rand plain_source demo_yaml demo_catalog empty_cstate
    = (Some (\<lparr>sy_state = SyncSucceeded, sy_owner = None, sy_entries = summarize_entries [demo_entry]\<rparr>, None), demo_synced)"
proof -
  have own: "so_owner_id demo_owner = demo_id" by (simp add: demo_owner_def)
  have "attempt (make_staging (so_owner_id demo_owner)) demo_lock = (None, demo_lock\<lparr>cs_staging := [(demo_id, empty_staging)]\<rparr>)"
    by (simp add: attempt_def effect_def make_staging_def demo_states demo_owner_def)
  moreover have "sync_cleanup demo_owner None (demo_staged\<lparr>cs_index := Some (index_text demo_index)\<rparr>) = (None, demo_synced)"
    by (simp add: sync_cleanup_def attempt_def effect_def release_sync_lock_def read_sync_owner_def demo_staged_def demo_states
        demo_owner_read sync_directory_def demo_synced_def own)
  moreover have "ctx_err empty_cstate = (None, empty_cstate)" by (simp add: empty_cstate_def)
  ultimately show ?thesis
    by (simp add: sync_catalog_def Let_def demo_acquired demo_body bound_sync_diagnostic_def)
qed

lemma demo_intact: "object_agrees demo_hash demo_package demo_object"
  by (simp add: object_agrees_def demo_object_def demo_package_read agrees_def wanted_files_def demo_package_parts
     portable_path_def plain_def dot_def dotdot_def)

section \<open>The properties, applied\<close>

theorem sync_publishes_complete_index_witness:
  "cs_index demo_synced = Some (index_text demo_index) \<and> index_complete (cs_objects demo_synced) (index_text demo_index)
    \<and> stored_package (cs_objects demo_synced) demo_h = Some demo_package"
proof -
  from sync_publishes_complete_index [OF demo_run demo_rand_ok,
      of "\<lparr>sy_state = SyncSucceeded, sy_owner = None, sy_entries = summarize_entries [demo_entry]\<rparr>"]
  have "index_complete (cs_objects demo_synced) (index_text demo_index)"
    by (simp add: demo_index_def empty_cstate_def)
  moreover have "stored_package (cs_objects demo_synced) demo_h = Some demo_package"
    by (simp add: demo_synced_def stored_package_def demo_object_def demo_package_read)
  ultimately show ?thesis by (simp add: demo_synced_def)
qed

theorem sync_respects_owner_witness:
  "cs_lock (snd (sync_catalog demo_hash demo_rand plain_source demo_yaml demo_catalog demo_lock)) = cs_lock demo_lock
    \<and> cs_lock demo_lock \<noteq> None"
  using sync_respects_owner [OF prod.collapse [symmetric] demo_rand_ok, of demo_lock demo_hash plain_source demo_yaml demo_catalog]
  by (simp add: demo_lock_def)

theorem store_stays_intact_witness: "store_intact demo_hash demo_synced \<and> cs_objects demo_synced \<noteq> []"
  using store_stays_intact [OF demo_run demo_rand_ok]
  by (simp add: empty_cstate_def store_intact_def intact_def demo_synced_def)

theorem synchronised_packages_verify_witness:
  "verify_catalog demo_hash demo_catalog [] (next_process demo_synced)
    = (([\<lparr>es_state = SkillReady, es_identity = pk_identity demo_package, es_diagnostic = []\<rparr>], None), next_process demo_synced)"
  using synchronised_packages_verify [OF demo_run demo_rand_ok _ _ refl, of demo_catalog]
  by (auto simp: empty_cstate_def store_intact_def intact_def demo_summary)

theorem recovery_removes_only_the_dead_witness:
  "only_dead_gone (demo_catalog\<lparr>cc_process_state := (\<lambda>p. ProcessAlive)\<rparr>) demo_lock
     (snd (recover_orphaned_sync (demo_catalog\<lparr>cc_process_state := (\<lambda>p. ProcessAlive)\<rparr>) demo_lock))"
  by (rule recovery_removes_only_the_dead [OF prod.collapse [symmetric]])

theorem interrupted_sync_is_recovered_witness:
  "\<exists>v. recover_orphaned_sync demo_catalog (next_process (snd (sync_catalog demo_hash demo_rand plain_source demo_yaml demo_catalog
       (empty_cstate\<lparr>cs_life := Some 2\<rparr>)))) = (None, v) \<and> clean_catalog v"
proof -
  have clean: "clean_catalog (empty_cstate\<lparr>cs_life := Some 2\<rparr>)"
    and times: "\<And>n. \<not> is_zero_time (clock (empty_cstate\<lparr>cs_life := Some 2\<rparr>) n)"
    by (simp_all add: clean_catalog_def empty_cstate_def is_zero_time_def)
  have "cc_pid demo_catalog = 7" "cc_process_state demo_catalog 7 = ProcessDead" by (simp_all add: demo_catalog_def)
  with interrupted_sync_is_recovered [OF prod.collapse [symmetric] demo_rand_ok clean _ _ times, of demo_catalog demo_catalog demo_hash plain_source demo_yaml]
  show ?thesis by auto
qed

theorem rewritten_object_is_accepted_witness:
  "verify_stored_integrity demo_hash demo_catalog ''other'' (demo_synced\<lparr>cs_objects := [(''other'', demo_object)]\<rparr>)
    = (None, demo_synced\<lparr>cs_objects := [(''other'', demo_object)]\<rparr>)"
  using rewritten_object_is_accepted [OF _ _ demo_intact, of "demo_synced\<lparr>cs_objects := [(''other'', demo_object)]\<rparr>" "''other''"
     "\<lparr>es_state = SkillReady, es_identity = \<lparr>pi_source_id = [], pi_name = [], pi_package_hash = ''other''\<rparr>, es_diagnostic = []\<rparr>"]
  by (simp add: demo_synced_def empty_cstate_def)

theorem package_hash_pins_content_witness:
  "sort_key fst [(''x.md'', ''hi''), (''a.md'', ''b'')] = sort_key fst [(''a.md'', ''b''), (''x.md'', ''hi'' :: string)]"
proof -
  let ?fs = "[(''x.md'', ''hi''), (''a.md'', ''b'')]" and ?gs = "[(''a.md'', ''b''), (''x.md'', ''hi'' :: string)]"
  have same: "package_preimage demo_declaration ?fs = package_preimage demo_declaration ?gs"
    by (simp add: package_preimage_def)
  have short: "length (json_text (enc_declaration demo_declaration)) < 300" by code_simp
  have "sort_key fst ?fs = sort_key fst ?gs"
    using package_hash_pins_content [of id demo_declaration ?fs demo_declaration ?gs] same short
    by (simp add: hash_package_def)
  then show ?thesis .
qed

theorem ready_packages_are_bounded_witness:
  "length [(''x.md'', ''hi'' :: string)] \<le> maxPackageFiles \<and> utf8_valid (pk_instructions demo_package)"
  using ready_packages_are_bounded [OF demo_loaded] by (simp add: steady_source_def plain_source_def)

definition demo_prepare :: prepare_request where
  "demo_prepare = \<lparr>pr_name = ''p'', pr_invocation_id = ''i'', pr_runtime = [], pr_arguments = None\<rparr>"

lemma demo_prepared_in:
  fixes w :: "'a cstate_scheme"
  assumes calm: "faults w = []" and ob: "map_of (cs_objects w) demo_h = Some demo_object"
    and ix: "cs_index w = Some (index_text demo_index)" and none: "cs_preparer w = None"
  shows "\<exists>b x y. catalog_prepare demo_hash no_floats demo_rand demo_catalog demo_prepare w = (Inr b, w\<lparr>cs_preparer := x, by_id := y\<rparr>)"
proof -
  have names: "trim_space ''p'' = ''p''" "trim_space ''i'' = ''i''" "trim_space [] = []" by code_simp+
  have read: "read_index_data w = (Inr (demo_index, if_bytes (index_text demo_index)), w)"
    using calm ix by (simp add: read_index_data_def index_text_def demo_index_read) (simp add: demo_index_def)
  have ents: "ci_entries demo_index = [\<lparr>es_state = SkillReady, es_identity = pk_identity demo_package, es_diagnostic = []\<rparr>]"
    "ci_aliases demo_index = []"
    by (simp_all add: demo_index_def demo_summary demo_catalog_def clone_aliases_def map_build_sorted)
  have loaded: "load_entries demo_hash demo_catalog (ci_entries demo_index) w = (Inr [demo_entry], w)"
    using integrity_of_agreeing [OF calm ob demo_intact] calm by (simp add: ents demo_hash_h demo_entry_def)
  have found: "resolve_skill_name demo_port ''p'' = Inr demo_entry"
    by (simp add: resolve_skill_name_def resolve_package_name_def unqualified_matches_def demo_port_def)
  have "\<exists>b. new_skill_bundle demo_hash no_floats ''i'' demo_package [] None = Inr b"
    by (simp add: new_skill_bundle_def Let_def demo_package_parts validate_runtime_def names normalize_arguments_def
        parse_schema_def validate_arguments_def)
  then obtain b where b: "new_skill_bundle demo_hash no_floats ''i'' demo_package [] None = Inr b" ..
  moreover have entry: "ce_state demo_entry = SkillReady" "ce_package demo_entry = demo_package" by (simp_all add: demo_entry_def)
  ultimately show ?thesis
    using calm
    by (simp add: catalog_prepare_def read none loaded ents(2) demo_port_made prepare_skill_def Let_def demo_prepare_def names
        found prepare_entry_def entry register_bundle_def) blast
qed

lemma demo_prepared: "\<exists>b w'. catalog_prepare demo_hash no_floats demo_rand demo_catalog demo_prepare demo_synced = (Inr b, w')"
  using demo_prepared_in [of demo_synced] by (auto simp: demo_synced_def empty_cstate_def)

theorem prepared_content_was_checked_witness:
  "\<exists>b w'. catalog_prepare demo_hash no_floats demo_rand demo_catalog demo_prepare demo_synced = (Inr b, w')
     \<and> sb_instructions b = ''hi''"
proof -
  from demo_prepared obtain b w' where b: "catalog_prepare demo_hash no_floats demo_rand demo_catalog demo_prepare demo_synced = (Inr b, w')"
    by blast
  have "cs_preparer demo_synced = None" by (simp add: demo_synced_def empty_cstate_def)
  from prepared_content_was_checked [OF b this demo_rand_ok] obtain h p where
    "stored_package (cs_objects demo_synced) h = Some p" "sb_instructions b = pk_instructions p"
    by blast
  moreover from this(1) have "p = demo_package"
    by (auto simp: stored_package_def demo_synced_def demo_object_def demo_package_read split: if_splits)
  ultimately show ?thesis using b by (simp add: demo_package_parts)
qed

end
