(* ===== verification/Skill_Commands.thy ===== *)
theory Skill_Commands
  imports Go_Flags Config Skill_Invocation Skill_Store_Samples
begin

text \<open>
  The commands of the skill catalog (\<open>cmd/syntroph/skill_commands.go\<close>). The configuration, the file system
  outside the catalog and the process table are a record of functions. A command returns the value that it prints and its
  error; the rendering as JSON is modelled for the bundle, whose text is what \<open>--output\<close> writes. \<^term>\<open>None\<close> is a command that does not return.
\<close>

section \<open>Surroundings\<close>

record ostate = cstate +
  written_files :: "(string \<times> string) list"

record 'w skill_world =
  kw_load :: "string \<Rightarrow> config_file res"
  kw_absolute :: "string \<Rightarrow> string res"
  kw_eval :: "string \<Rightarrow> clean_path res"
  kw_process :: "int \<Rightarrow> process_state"
  kw_pid :: int
  kw_outside :: "string \<Rightarrow> string list \<Rightarrow> string option"
  kw_rand :: "'w \<Rightarrow> string res \<times> 'w"
  kw_sources :: source_view
  kw_yaml :: yaml_reader
  kw_literal :: "string \<Rightarrow> float64 option"
  kw_json :: json_reader
  kw_read :: "string \<Rightarrow> string res"

text \<open>The view of a package that \<open>show\<close> prints: no instructions.\<close>

record package_metadata =
  pm_schema_version :: int
  pm_identity :: package_identity
  pm_description :: string
  pm_license :: string
  pm_source_url :: string
  pm_source_revision :: string
  pm_instructions_path :: string
  pm_assets :: "skill_asset list"
  pm_arguments_schema :: "(string \<times> goval) list"
  pm_runtimes :: "string list"

record skill_show_view =
  sw_state :: string
  sw_package :: package_metadata
  sw_diagnostic :: string

definition show_view :: "catalog_entry \<Rightarrow> skill_show_view" where
  "show_view e =
     (let p = ce_package e in
      \<lparr>sw_state = ce_state e,
       sw_package = \<lparr>pm_schema_version = pk_schema_version p, pm_identity = pk_identity p, pm_description = pk_description p,
         pm_license = pk_license p, pm_source_url = pk_source_url p, pm_source_revision = pk_source_revision p,
         pm_instructions_path = pk_instructions_path p, pm_assets = pk_assets p,
         pm_arguments_schema = pk_arguments_schema p, pm_runtimes = pk_runtimes p\<rparr>,
       sw_diagnostic = ce_diagnostic e\<rparr>)"

datatype skill_value =
    SyncValue sync_result
  | ListValue "entry_summary list"
  | ShowValue skill_show_view
  | VerifyValue "entry_summary list"
  | RecoveryValue sync_recovery
  | BundleText string

type_synonym skill_answer = "(skill_value option \<times> err option) option"

definition skill_failed :: "err \<Rightarrow> skill_answer" where
  "skill_failed e = Some (None, Some e)"

section \<open>Preparing\<close>

record prepare_flags =
  pq_runtime :: string
  pq_arguments_text :: string
  pq_arguments_file :: string
  pq_invocation_id :: string
  pq_output :: string
  pq_repository :: string
  pq_session :: string

text \<open>What is printed, from \<open>MarshalJSON\<close> of the bundle.\<close>

definition bundle_text :: "skill_bundle \<Rightarrow> string" where
  "bundle_text b = json_indent (enc_bundle b) [] @ [newline]"

definition arguments_json_err :: err where
  "arguments_json_err = new_err ''parse skill arguments JSON: invalid JSON''"

text \<open>\<open>None\<close> inside is the nil map. The second \<open>Decode\<close> must find the end of the input.\<close>

definition decode_arguments :: "json_reader \<Rightarrow> string \<Rightarrow> (string \<times> goval) list option res" where
  "decode_arguments rv raw =
     (if trim_space raw = [] then Inr None
      else
     (case rv raw of
        None \<Rightarrow> Inl arguments_json_err
      | Some (j, rest) \<Rightarrow>
     (case dec_args True None [j] of
        None \<Rightarrow> Inl arguments_json_err
      | Some m \<Rightarrow>
          if list_all json_space rest then Inr m
          else
         (case rv rest of
            Some x \<Rightarrow> Inl (new_err ''skill arguments must contain exactly one JSON object'')
          | None \<Rightarrow> Inl arguments_json_err))))"

definition parse_skill_prepare_arguments ::
  "json_reader \<Rightarrow> (string \<Rightarrow> string res) \<Rightarrow> prepare_flags \<Rightarrow> (string \<times> goval) list option res" where
  "parse_skill_prepare_arguments rv read opts =
     (if pq_arguments_file opts \<noteq> [] then
        (case read (pq_arguments_file opts) of
           Inl e \<Rightarrow> Inl (wrap_with ''read skill arguments file'' e)
         | Inr data \<Rightarrow> decode_arguments rv data)
      else if pq_arguments_text opts \<noteq> [] then decode_arguments rv (pq_arguments_text opts)
      else Inr None)"

definition write_private_file ::
  "string \<Rightarrow> string \<Rightarrow> 'a ostate_scheme \<Rightarrow> err option \<times> 'a ostate_scheme" where
  "write_private_file path data w =
     write_atomic_mode (\<lambda>v. v\<lparr>written_files := map_put path data (written_files v)\<rparr>) w"

text \<open>The request that the flags make.\<close>

definition prepare_input ::
  "'w skill_world \<Rightarrow> string \<Rightarrow> string \<Rightarrow> prepare_flags \<Rightarrow> (prepare_request \<times> prepare_options) res" where
  "prepare_input k root name opts =
     (let n = trim_space name in
      if n = [] then Inl (new_err ''syntroph skill prepare requires one qualified name, alias, or unique unqualified name'')
      else if pq_arguments_text opts \<noteq> [] \<and> pq_arguments_file opts \<noteq> []
      then Inl (new_err ''syntroph skill prepare accepts at most one of --arguments or --arguments-file'')
      else
     (case parse_skill_prepare_arguments (kw_json k) (kw_read k) opts of
        Inl e \<Rightarrow> Inl e
      | Inr args \<Rightarrow>
     (case (if trim_space (pq_repository opts) = [] then kw_absolute k root else Inr (trim_space (pq_repository opts))) of
        Inl e \<Rightarrow> Inl (wrap_with ''resolve repository identity'' e)
      | Inr repository \<Rightarrow>
          Inr (\<lparr>pr_name = n, pr_invocation_id = trim_space (pq_invocation_id opts), pr_runtime = trim_space (pq_runtime opts),
                pr_arguments = args\<rparr>,
               \<lparr>po_repository_id = repository, po_session_id = trim_space (pq_session opts), po_now = 0\<rparr>))))"

definition run_skill_prepare ::
  "(string \<Rightarrow> string) \<Rightarrow> (string \<Rightarrow> string option) \<Rightarrow> 'a ostate_scheme skill_world \<Rightarrow> catalog \<Rightarrow> string \<Rightarrow> string
     \<Rightarrow> prepare_flags \<Rightarrow> 'a ostate_scheme \<Rightarrow> (skill_value option \<times> err option) \<times> 'a ostate_scheme"
where
  "run_skill_prepare sha strip k c root name opts w =
     (case prepare_input k root name opts of
        Inl e \<Rightarrow> ((None, Some e), w)
      | Inr (q, po) \<Rightarrow>
     (case new_saga_journal (path_text (join_text root ''.syntroph/journal'')) w of
        (Some e, w1) \<Rightarrow> ((None, Some e), w1)
      | (None, w1) \<Rightarrow>
     (case preparer_prepare sha strip (kw_rand k)
             \<lparr>sk_port = Some (catalog_prepare sha (kw_literal k) (kw_rand k) c), sk_journaled = True\<rparr> q po w1 of
        ((b, dl, Some e), w2) \<Rightarrow> ((None, Some e), w2)
      | ((b, dl, None), w2) \<Rightarrow>
          if pq_output opts = [] then ((Some (BundleText (bundle_text b)), None), w2)
          else (case write_private_file (pq_output opts) (bundle_text b) w2 of (e, w3) \<Rightarrow> ((None, e), w3)))))"

section \<open>The commands\<close>

definition skill_commands :: "string list" where
  "skill_commands = [''sync'', ''list'', ''show'', ''verify'', ''prepare'', ''recovery'']"

definition skill_flags :: "string \<Rightarrow> (string \<times> flag_kind) list" where
  "skill_flags command =
     [(''root'', StringFlag)]
     @ (if command = ''recovery'' then [(''clear-orphan'', BoolFlag)] else [])
     @ (if command = ''prepare''
        then map (\<lambda>n. (n, StringFlag)) [''runtime'', ''arguments'', ''arguments-file'', ''invocation-id'', ''output'', ''repository'', ''session'']
        else [])"

definition positional_problem :: "string \<Rightarrow> string list \<Rightarrow> err option" where
  "positional_problem command args =
     (if command \<in> {''show'', ''prepare''} then
        (if length args \<noteq> 1 then Some (new_err (''syntroph skill '' @ command
           @ '' requires one qualified name, alias, or unique unqualified name'')) else None)
      else if command = ''verify'' then
        (if length args > 1 then Some (new_err ''syntroph skill verify accepts at most one qualified package name'') else None)
      else if args \<noteq> [] then Some (new_err (''syntroph skill '' @ command @ '' does not accept positional arguments''))
      else None)"

text \<open>The command line up to the command itself: the command, the flags and the positional arguments.\<close>

definition parse_skill_command :: "string list \<Rightarrow> (string \<times> flag_values \<times> string list) res" where
  "parse_skill_command args =
     (case args of
        [] \<Rightarrow> Inl (new_err ''usage: syntroph skill <sync|list|show|verify|prepare|recovery> [--root repository]'')
      | command # rest \<Rightarrow>
         (case parse_flags (skill_flags command) [(''root'', ''.'')]
                 (if command \<in> {''show'', ''verify'', ''prepare''} then rotate_positional rest else rest) of
            Inl e \<Rightarrow> Inl e
          | Inr (vs, pos) \<Rightarrow>
             (case positional_problem command pos of
                Some e \<Rightarrow> Inl e
              | None \<Rightarrow>
                  if command \<notin> set skill_commands then Inl (new_err (''unknown skill command '' @ go_quote command))
                  else Inr (command, vs, pos))))"

definition prepare_flags_of :: "flag_values \<Rightarrow> prepare_flags" where
  "prepare_flags_of vs = \<lparr>pq_runtime = flag_text ''runtime'' vs, pq_arguments_text = flag_text ''arguments'' vs,
     pq_arguments_file = flag_text ''arguments-file'' vs, pq_invocation_id = flag_text ''invocation-id'' vs,
     pq_output = flag_text ''output'' vs, pq_repository = flag_text ''repository'' vs, pq_session = flag_text ''session'' vs\<rparr>"

text \<open>The catalog of the configuration.\<close>

definition open_catalog :: "'w skill_world \<Rightarrow> string \<Rightarrow> catalog res option" where
  "open_catalog k root =
     (case kw_load k (path_text (join_text (path_text (join_text root ''.syntroph'')) ''config.yaml'')) of
        Inl e \<Rightarrow> Some (Inl e)
      | Inr cfg \<Rightarrow>
     (case resolve_skills (kw_absolute k) (kw_eval k) cfg root of
        None \<Rightarrow> None
      | Some (Inl e) \<Rightarrow> Some (Inl e)
      | Some (Inr r) \<Rightarrow>
          if \<not> rs_enabled r then Some (Inl (new_err ''skills are disabled; configure skills.enabled in .syntroph/config.yaml''))
          else Some (new_catalog (kw_absolute k) (kw_process k) (kw_pid k) (kw_outside k) root r)))"

definition shown :: "('x \<Rightarrow> skill_value) \<Rightarrow> 'x res \<times> 'w \<Rightarrow> skill_answer \<times> 'w" where
  "shown f r = (case r of (Inl e, w) \<Rightarrow> (skill_failed e, w) | (Inr x, w) \<Rightarrow> (Some (Some (f x), None), w))"

definition run_on_catalog ::
  "(string \<Rightarrow> string) \<Rightarrow> (string \<Rightarrow> string option) \<Rightarrow> 'a ostate_scheme skill_world \<Rightarrow> catalog \<Rightarrow> string \<Rightarrow> flag_values
     \<Rightarrow> string list \<Rightarrow> 'a ostate_scheme \<Rightarrow> skill_answer \<times> 'a ostate_scheme"
where
  "run_on_catalog sha strip k c command vs pos w =
     (let name = (case pos of [] \<Rightarrow> [] | p # _ \<Rightarrow> p) in
      if command = ''verify'' then
        (case verify_catalog sha c name w of
           ((es, e), w1) \<Rightarrow> (Some (if es = [] then None else Some (VerifyValue es), e), w1))
      else if command = ''prepare'' then
        (case run_skill_prepare sha strip k c (flag_text ''root'' vs) name (prepare_flags_of vs) w of (r, w1) \<Rightarrow> (Some r, w1))
      else if command = ''sync'' then
        (case sync_catalog sha (kw_rand k) (kw_sources k) (kw_yaml k) c w of
           (None, w1) \<Rightarrow> (None, w1)
         | (Some (r, Some e), w1) \<Rightarrow> (skill_failed e, w1)
         | (Some (r, None), w1) \<Rightarrow> (Some (Some (SyncValue r), None), w1))
      else if command = ''list'' then shown ListValue (list_catalog w)
      else if command = ''show'' then shown (\<lambda>e. ShowValue (show_view e)) (show_catalog name w)
      else if command = ''recovery'' then
        (case (if flag_set ''clear-orphan'' vs then recover_orphaned_sync c w else (None, w)) of
           (Some e, w1) \<Rightarrow> (skill_failed e, w1)
         | (None, w1) \<Rightarrow> shown RecoveryValue (inspect_sync_recovery c w1))
      else (Some (None, None), w))"

definition run_skill ::
  "(string \<Rightarrow> string) \<Rightarrow> (string \<Rightarrow> string option) \<Rightarrow> 'a ostate_scheme skill_world \<Rightarrow> string list
     \<Rightarrow> 'a ostate_scheme \<Rightarrow> skill_answer \<times> 'a ostate_scheme"
where
  "run_skill sha strip k args w =
     (case parse_skill_command args of
        Inl e \<Rightarrow> (skill_failed e, w)
      | Inr (command, vs, pos) \<Rightarrow>
     (case open_catalog k (flag_text ''root'' vs) of
        None \<Rightarrow> (None, w)
      | Some (Inl e) \<Rightarrow> (skill_failed e, w)
      | Some (Inr c) \<Rightarrow> run_on_catalog sha strip k c command vs pos w))"

section \<open>Lemmas\<close>

lemma preparation_success:
  assumes "run_preparation sha strip port i q opts t w = ((b, d, None), w')"
  obtains w1 w2 where "append_event sha (requested_event i q opts t) w = (None, w1)" "port q w1 = (Inr b, w2)"
  using assms by (auto simp: run_preparation_def split_result_def Let_def split: prod.splits option.splits sum.splits)

text \<open>An append to the journal leaves the catalog alone.\<close>

lemma append_event_catalog:
  fixes w :: "'a cstate_scheme"
  assumes "append_event sha e w = (r, w')"
  shows "cs_objects w' = cs_objects w \<and> cs_index w' = cs_index w \<and> cs_preparer w' = cs_preparer w"
proof -
  have *: "cs_objects w' = cs_objects w \<and> cs_index w' = cs_index w \<and> cs_preparer w' = cs_preparer w"
    if "w'\<lparr>faults := faults w, entries := entries w\<rparr> = w"
    using arg_cong [OF that, of cs_objects] arg_cong [OF that, of cs_index] arg_cong [OF that, of cs_preparer] by simp
  show ?thesis
  proof (cases "validate_event e")
    case None
    with assms have "append_record sha (ev_saga_id e) (event_record e) w = (r, w')" by (simp add: append_event_def)
    from append_record_frame [OF this] * show ?thesis by (simp add: only_entry_def)
  next
    case (Some er)
    with assms show ?thesis by (simp add: append_event_def)
  qed
qed

text \<open>The successful command: the request of the flags, the preparer, and where the bundle goes.\<close>

lemma prepare_command_success:
  assumes "run_skill_prepare sha strip k c root name opts w = ((v, None), w')"
  obtains q po w1 b dl w2 where "prepare_input k root name opts = Inr (q, po)" "\<exists>fs. w1 = w\<lparr>faults := fs\<rparr>"
    "preparer_prepare sha strip (kw_rand k) \<lparr>sk_port = Some (catalog_prepare sha (kw_literal k) (kw_rand k) c),
       sk_journaled = True\<rparr> q po w1 = ((b, dl, None), w2)"
    "if pq_output opts = [] then v = Some (BundleText (bundle_text b)) \<and> w' = w2
     else v = None \<and> write_private_file (pq_output opts) (bundle_text b) w2 = (None, w')"
proof -
  obtain q po where 1: "prepare_input k root name opts = Inr (q, po)"
    using assms by (auto simp: run_skill_prepare_def split: sum.splits)
  obtain w1 where 2: "new_saga_journal (path_text (join_text root ''.syntroph/journal'')) w = (None, w1)"
    using assms 1 by (auto simp: run_skill_prepare_def split: prod.splits option.splits)
  then have "\<exists>fs. w1 = w\<lparr>faults := fs\<rparr>" by (auto simp: new_saga_journal_def dest: try_io_frame split: if_splits)
  let ?run = "preparer_prepare sha strip (kw_rand k) \<lparr>sk_port = Some (catalog_prepare sha (kw_literal k) (kw_rand k) c),
       sk_journaled = True\<rparr> q po w1"
  obtain b dl e w2 where 3: "?run = ((b, dl, e), w2)" using that by (cases ?run) auto
  with assms 1 2 have "e = None" by (cases e) (auto simp: run_skill_prepare_def)
  moreover have "if pq_output opts = [] then v = Some (BundleText (bundle_text b)) \<and> w' = w2
     else v = None \<and> write_private_file (pq_output opts) (bundle_text b) w2 = (None, w')"
    using assms 1 2 3 \<open>e = None\<close> by (auto simp: run_skill_prepare_def split: prod.splits)
  ultimately show thesis using that 1 3 \<open>\<exists>fs. w1 = w\<lparr>faults := fs\<rparr>\<close> by blast
qed

section \<open>Properties\<close>

text \<open>C13: a bundle that the command hands out is checked and on record. When \<open>skill prepare\<close>
  succeeds in a fresh process with an explicit identity, the bundle comes from a Ready entry of the active index whose stored
  files were the recorded ones, the saga of that identity has gained the request, the attempt and the prepared event of exactly this
  bundle, and what was printed, or written to the output file, is its text.\<close>

theorem prepared_bundle_is_accounted_for:
  fixes w :: "'a ostate_scheme"
  assumes "run_skill_prepare sha strip k c root name opts w = ((v, None), w')" "cs_preparer w = None"
    "random_source (kw_rand k)" "trim_space (pq_invocation_id opts) = i" "i \<noteq> []" "closed sha i w"
  shows "\<exists>q po b s ob p t t2 t3 w2. prepare_input k root name opts = Inr (q, po)
    \<and> (\<exists>f ix. cs_index w = Some f \<and> file_index f = Some ix \<and> s \<in> set (ci_entries ix)) \<and> es_state s = SkillReady
    \<and> map_of (cs_objects w) (pi_package_hash (es_identity s)) = Some ob
    \<and> matches_files sha c (pi_package_hash (es_identity s)) ob p
    \<and> sb_identity b = pk_identity p \<and> sb_instructions b = pk_instructions p \<and> sb_assets b = pk_assets p
    \<and> saga_lines sha i w2 = saga_lines sha i w
        @ map line_of (lifecycle strip i (q\<lparr>pr_invocation_id := i\<rparr>) po t b None t2 t3)
    \<and> (if pq_output opts = [] then v = Some (BundleText (bundle_text b)) \<and> w' = w2
       else v = None \<and> write_private_file (pq_output opts) (bundle_text b) w2 = (None, w'))"
proof -
  obtain q po w1 b dl w2 where run: "prepare_input k root name opts = Inr (q, po)" "\<exists>fs. w1 = w\<lparr>faults := fs\<rparr>"
    "preparer_prepare sha strip (kw_rand k) \<lparr>sk_port = Some (catalog_prepare sha (kw_literal k) (kw_rand k) c),
       sk_journaled = True\<rparr> q po w1 = ((b, dl, None), w2)"
    "if pq_output opts = [] then v = Some (BundleText (bundle_text b)) \<and> w' = w2
     else v = None \<and> write_private_file (pq_output opts) (bundle_text b) w2 = (None, w')"
    using prepare_command_success [OF assms(1)] by blast
  from run(1) have "pr_invocation_id q = i" using assms(4)
    by (auto simp: prepare_input_def Let_def split: if_splits sum.splits)
  then have id: "trim_space (pr_invocation_id q) = i" using trim_space_idem [of "pq_invocation_id opts"] assms(4) by simp
  from run(2) have entries: "entries w1 = entries w" by auto
  have cl: "closed sha i w1" using assms(6) same_saga(1) [OF entries] by simp
  from skill_service.preparer_lifecycle(2) [OF catalog_port.skill_service_axioms run(3) id assms(5) cl refl] obtain t t2 t3 where
    lines: "saga_lines sha i w2 = saga_lines sha i w
        @ map line_of (lifecycle strip i (q\<lparr>pr_invocation_id := i\<rparr>) po t b None t2 t3)"
    using same_saga(2) [OF entries, of sha i] by auto
  have "\<exists>v1 w3 q'. cs_objects v1 = cs_objects w \<and> cs_index v1 = cs_index w \<and> cs_preparer v1 = cs_preparer w
      \<and> catalog_prepare sha (kw_literal k) (kw_rand k) c q' v1 = (Inr b, w3)"
    using run(3) id assms(5)
  proof (cases rule: preparer_explicit)
    case (ran t' fs n)
    from preparation_success [OF ran] obtain v1 w3 where
      "append_event sha (requested_event i (q\<lparr>pr_invocation_id := i\<rparr>) po t') (w1\<lparr>faults := fs, reads := n\<rparr>) = (None, v1)"
      "catalog_prepare sha (kw_literal k) (kw_rand k) c (q\<lparr>pr_invocation_id := i\<rparr>) v1 = (Inr b, w3)" by blast
    moreover from append_event_catalog [OF this(1)] run(2)
    have "cs_objects v1 = cs_objects w \<and> cs_index v1 = cs_index w \<and> cs_preparer v1 = cs_preparer w" by auto
    ultimately show ?thesis by blast
  qed simp
  then obtain v1 w3 q' where v1: "cs_objects v1 = cs_objects w" "cs_index v1 = cs_index w" "cs_preparer v1 = cs_preparer w"
    "catalog_prepare sha (kw_literal k) (kw_rand k) c q' v1 = (Inr b, w3)" by blast
  from prepared_content [OF v1(4) _ assms(3)] v1(1-3) assms(2) obtain f ix s ob p where
    "cs_index w = Some f" "file_index f = Some ix" "s \<in> set (ci_entries ix)" "es_state s = SkillReady"
    "map_of (cs_objects w) (pi_package_hash (es_identity s)) = Some ob"
    "matches_files sha c (pi_package_hash (es_identity s)) ob p"
    "sb_identity b = pk_identity p" "sb_instructions b = pk_instructions p" "sb_assets b = pk_assets p"
    by auto
  with run(1,4) lines show ?thesis by blast
qed

text \<open>The catalog of one package, in the state of this command.\<close>

definition demo_world :: "ostate skill_world" where
  "demo_world = \<lparr>kw_load = (\<lambda>p. Inr no_config), kw_absolute = (\<lambda>p. Inr ''/r''), kw_eval = (\<lambda>p. Inr (clean p)),
     kw_process = (\<lambda>p. ProcessDead), kw_pid = 7, kw_outside = (\<lambda>h p. None), kw_rand = demo_rand, kw_sources = plain_source,
     kw_yaml = demo_yaml, kw_literal = no_floats, kw_json = (\<lambda>s. None), kw_read = (\<lambda>p. Inl (new_err ''no file''))\<rparr>"

definition demo_flags :: prepare_flags where
  "demo_flags = \<lparr>pq_runtime = [], pq_arguments_text = [], pq_arguments_file = [], pq_invocation_id = ''i'', pq_output = ''out'',
     pq_repository = ''o/n'', pq_session = []\<rparr>"

definition demo_disk :: ostate where
  "demo_disk = cstate.extend demo_synced \<lparr>written_files = []\<rparr>"

lemma demo_disk_facts:
  "faults demo_disk = []" "map_of (cs_objects demo_disk) demo_h = Some demo_object"
  "cs_index demo_disk = Some (index_text demo_index)" "cs_preparer demo_disk = None" "entries demo_disk = []"
  "clock demo_disk = (\<lambda>n. 1)"
  by (simp_all add: demo_disk_def cstate.extend_def demo_synced_def empty_cstate_def)

lemma demo_input: "prepare_input demo_world ''.'' ''p'' demo_flags = Inr (demo_prepare, \<lparr>po_repository_id = ''o/n'',
     po_session_id = [], po_now = 0\<rparr>)"
  by code_simp

lemma append_calm:
  assumes "faults w = []" "map_of (entries w) (safe_segment_name sha saga) \<noteq> Some Subdir"
  shows "\<exists>es. append_record sha saga r w = (None, w\<lparr>entries := es\<rparr>) \<and> map_of es (safe_segment_name sha saga) \<noteq> Some Subdir"
  using append_record_calm [OF assms] by (auto simp: map_of_map_put)

text \<open>A preparation that nothing disturbs.\<close>

lemma calm_preparation:
  fixes w :: "'a jstate_scheme"
  assumes "faults w = []" "map_of (entries w) (safe_segment_name sha i) \<noteq> Some Subdir" "\<And>n. clock w n = 1" "i \<noteq> []"
    "po_repository_id opts \<noteq> []"
    "\<And>es. \<exists>b v. port q (w\<lparr>entries := es\<rparr>) = (Inr b, v) \<and> faults v = [] \<and> entries v = es \<and> (\<forall>n. clock v n = 1)"
  shows "\<exists>b d w'. run_preparation sha strip port i q opts 1 w = ((b, d, None), w') \<and> faults w' = []"
proof -
  have corr: "correlation i opts \<noteq> []" using assms(4) by (simp add: correlation_def Let_def)
  have valid: "validate_event (requested_event i q opts 1) = None" "validate_event (prepared_event i b opts 1) = None" for b
    using assms(4,5) corr by (auto simp: validate_event_def requested_event_def prepared_event_def skill_event_def requested_id_def
        SkillEventPrepareRequested_def SkillEventPrepared_def SkillEventSchemaVersion_def is_zero_time_def)
  obtain es where 1: "append_event sha (requested_event i q opts 1) w = (None, w\<lparr>entries := es\<rparr>)"
      "map_of es (safe_segment_name sha i) \<noteq> Some Subdir"
    using append_calm [OF assms(1,2)] valid(1) by (force simp: append_event_def)
  from assms(6) [of es] obtain b v where 2: "port q (w\<lparr>entries := es\<rparr>) = (Inr b, v)" "faults v = []" "entries v = es" "\<And>n. clock v n = 1" by blast
  let ?v = "v\<lparr>reads := Suc (reads v)\<rparr>" and ?a = "prepare_attempt i 1 None"
  have "validate_attempt (sanitised strip ?a) = None" using assms(4)
    by (simp add: validate_attempt_def sanitised_def prepare_attempt_def requested_id_def is_zero_time_def)
  moreover obtain es' where "append_record sha i (attempt_record (sanitised strip ?a)) ?v = (None, ?v\<lparr>entries := es'\<rparr>)"
      "map_of es' (safe_segment_name sha i) \<noteq> Some Subdir"
    using append_calm [of ?v sha i] 1(2) 2(2,3) by fastforce
  ultimately have 3: "append_attempt sha strip ?a ?v = (None, ?v\<lparr>entries := es'\<rparr>)" "map_of es' (safe_segment_name sha i) \<noteq> Some Subdir"
    by (simp_all add: append_attempt_def sanitised_def [symmetric] Let_def) (simp add: prepare_attempt_def sanitised_def)
  let ?u = "?v\<lparr>entries := es', reads := Suc (Suc (reads v))\<rparr>"
  obtain es'' where 4: "append_event sha (prepared_event i b opts 1) ?u = (None, ?u\<lparr>entries := es''\<rparr>)"
    using append_calm [of ?u sha i] 2(2) 3(2) valid(2) [of b] by (fastforce simp: append_event_def prepared_event_def skill_event_def)
  show ?thesis
    using 1(1) 2(1,2,4) 3(1) 4
    by (simp add: run_preparation_def split_result_def time_now_def Let_def outcome_event_def)
qed

lemma demo_command:
  "\<exists>w'. run_skill_prepare demo_hash (\<lambda>u. None) demo_world demo_catalog ''.'' ''p'' demo_flags demo_disk = ((None, None), w')"
proof -
  let ?o = "\<lparr>po_repository_id = ''o/n'', po_session_id = [], po_now = 0\<rparr>" and ?v = "demo_disk\<lparr>reads := Suc (reads demo_disk)\<rparr>"
  have q: "demo_prepare\<lparr>pr_invocation_id := ''i''\<rparr> = demo_prepare" "pr_invocation_id demo_prepare = ''i''"
    by (simp_all add: demo_prepare_def)
  have names: "trim_space ''i'' = ''i''" by code_simp
  have port: "\<exists>b u. catalog_prepare demo_hash no_floats demo_rand demo_catalog demo_prepare (?v\<lparr>entries := es\<rparr>) = (Inr b, u)
      \<and> faults u = [] \<and> entries u = es \<and> (\<forall>n. clock u n = 1)" for es
    using demo_prepared_in [of "?v\<lparr>entries := es\<rparr>"] demo_disk_facts by fastforce
  have "\<exists>b d w'. run_preparation demo_hash (\<lambda>u. None) (catalog_prepare demo_hash no_floats demo_rand demo_catalog) ''i'' demo_prepare ?o 1 ?v
      = ((b, d, None), w') \<and> faults w' = []"
    by (rule calm_preparation) (use demo_disk_facts port in simp_all)
  then obtain b d w1 where run: "run_preparation demo_hash (\<lambda>u. None) (catalog_prepare demo_hash no_floats demo_rand demo_catalog) ''i'' demo_prepare ?o 1 ?v
      = ((b, d, None), w1)" "faults w1 = []" by blast
  have "preparer_prepare demo_hash (\<lambda>u. None) demo_rand \<lparr>sk_port = Some (catalog_prepare demo_hash no_floats demo_rand demo_catalog),
       sk_journaled = True\<rparr> demo_prepare ?o demo_disk = ((b, d, None), w1)"
    using run(1) demo_disk_facts by (simp add: preparer_prepare_def names q is_zero_time_def time_now_def)
  moreover have "path_text (join_text ''.'' ''.syntroph/journal'') \<noteq> []" by code_simp
  moreover have "kw_rand demo_world = demo_rand" "kw_literal demo_world = no_floats" "pq_output demo_flags = ''out''"
    by (simp_all add: demo_world_def demo_flags_def)
  moreover have "\<exists>w'. write_private_file ''out'' (bundle_text b) w1 = (None, w')"
    using run(2) by (simp add: write_private_file_def write_atomic_mode_def effect_def split: option.split nat.split)
  ultimately show ?thesis
    using demo_disk_facts(1) by (auto simp: run_skill_prepare_def demo_input new_saga_journal_def)
qed

theorem prepared_bundle_is_accounted_for_witness:
  "\<exists>b w2 w'. run_skill_prepare demo_hash (\<lambda>u. None) demo_world demo_catalog ''.'' ''p'' demo_flags demo_disk = ((None, None), w')
     \<and> length (saga_lines demo_hash ''i'' w2) = 3 \<and> write_private_file ''out'' (bundle_text b) w2 = (None, w')"
proof -
  obtain w' where run: "run_skill_prepare demo_hash (\<lambda>u. None) demo_world demo_catalog ''.'' ''p'' demo_flags demo_disk = ((None, None), w')"
    using demo_command by blast
  have "trim_space (pq_invocation_id demo_flags) = ''i''" by code_simp
  moreover have "closed demo_hash ''i'' demo_disk" "saga_lines demo_hash ''i'' demo_disk = []"
    by (simp_all add: closed_def saga_lines_def saga_segment_def demo_disk_facts empty_segment_def)
  moreover have "random_source (kw_rand demo_world)" using demo_rand_ok by (simp add: demo_world_def)
  ultimately obtain q po b t t2 t3 w2 where "saga_lines demo_hash ''i'' w2
      = map line_of (lifecycle (\<lambda>u. None) ''i'' (q\<lparr>pr_invocation_id := ''i''\<rparr>) po t b None t2 t3)"
      "write_private_file ''out'' (bundle_text b) w2 = (None, w')"
    using prepared_bundle_is_accounted_for [OF run demo_disk_facts(4), of "''i''"] by (auto simp: demo_flags_def)
  then have "length (saga_lines demo_hash ''i'' w2) = 3 \<and> write_private_file ''out'' (bundle_text b) w2 = (None, w')"
    by (simp add: lifecycle_def)
  with run show ?thesis by blast
qed

text \<open>The usage of \<open>show\<close> speaks of aliases and unqualified names; the catalog finds qualified names only.\<close>

theorem show_needs_qualified_name:
  assumes "show_catalog name w = (Inr e, w')"
  shows "\<exists>ix s. fst (read_index (snd (ctx_err w))) = Inr ix \<and> s \<in> set (ci_entries ix)
    \<and> qualified_name (es_identity s) = trim_space name"
proof -
  obtain w1 ix w2 where 1: "ctx_err w = (None, w1)" "read_index w1 = (Inr ix, w2)"
    using assms by (auto simp: show_catalog_def split: prod.splits option.splits sum.splits)
  with assms obtain s where "find (\<lambda>s. qualified_name (es_identity s) = trim_space name) (ci_entries ix) = Some s"
    by (auto simp: show_catalog_def Let_def split: option.splits)
  then have "s \<in> set (ci_entries ix)" "qualified_name (es_identity s) = trim_space name"
    by (auto simp: find_Some_iff)
  with 1 show ?thesis by auto
qed

end
