(* ===== verification/Storage_Setup.thy ===== *)
theory Storage_Setup
  imports Config Sync_Facts Wiki_Provider Mcp_Provider Issue_Rest
begin

text \<open>
  \<open>cmd/syntroph/storage_config.go\<close>: how the configuration becomes a storage port, what is checked before, and
  \<open>doctor storage\<close>. The environment, \<open>exec.LookPath\<close>, \<open>git config\<close> and the builders of \<open>storageDependencies\<close> are a record of functions,
  as in the code; what \<open>os.ReadFile\<close> and \<open>yaml.v3\<close> give for the configuration file is the argument \<open>config\<close>. A built provider carries the life cycle that the code finds
  by a type assertion.
\<close>

section \<open>Reports\<close>

definition recovery_check :: preflight_check where
  "recovery_check = \<lparr>pc_name = ''recovery'', pc_status = ''info'',
     pc_detail = ''Diagnostics perform no remote writes, authentication, configuration changes, or automatic recovery.'',
     pc_action = ''Inspect with syntroph sync recovery; after fixing prerequisites, confirm explicitly with syntroph sync retry --storage.''\<rparr>"

definition failed_preflight :: "string \<Rightarrow> err \<Rightarrow> string \<Rightarrow> preflight_result" where
  "failed_preflight name cause action =
     zero_preflight\<lparr>pr_enabled := True, pr_cause := Some cause,
       pr_checks := [\<lparr>pc_name = name, pc_status = ''missing'', pc_detail = err_text cause, pc_action = action\<rparr>, recovery_check]\<rparr>"

definition add_check :: "string \<Rightarrow> string \<Rightarrow> preflight_result \<Rightarrow> preflight_result" where
  "add_check name detail report =
     report\<lparr>pr_checks := pr_checks report @ [\<lparr>pc_name = name, pc_status = ''ok'', pc_detail = detail, pc_action = []\<rparr>]\<rparr>"

definition add_missing :: "string \<Rightarrow> string \<Rightarrow> string \<Rightarrow> preflight_result \<Rightarrow> preflight_result" where
  "add_missing name detail action report =
     report\<lparr>pr_ready := False,
       pr_checks := pr_checks report @ [\<lparr>pc_name = name, pc_status = ''missing'', pc_detail = detail, pc_action = action\<rparr>],
       pr_cause := (case pr_cause report of None \<Rightarrow> Some (new_err detail) | c \<Rightarrow> c)\<rparr>"

section \<open>The prerequisites\<close>

type_synonym 'w built = "'w provider \<times> 'w command_life option"

record 'w storage_dependencies =
  dp_origin :: "string \<Rightarrow> string res"
  dp_getenv :: "string \<Rightarrow> string"
  dp_look_path :: "string \<Rightarrow> string res"
  dp_git_config :: "string \<Rightarrow> string \<Rightarrow> string \<Rightarrow> string res"
  dp_provider_builder :: "(resolved_storage \<Rightarrow> 'w \<Rightarrow> 'w built option \<times> 'w) option"
  dp_wiki_builder :: "(resolved_storage \<Rightarrow> string \<Rightarrow> string \<Rightarrow> string \<Rightarrow> 'w \<Rightarrow> 'w built option \<times> 'w) option"

definition GitHubTokenEnvironment :: string where "GitHubTokenEnvironment = ''SYNTROPH_GITHUB_TOKEN''"

text \<open>\<open>storage/providers.go\<close>: the clients of the token and of the MCP provider; the factories are given.\<close>

definition token_client :: "(string \<Rightarrow> 'c res) option \<Rightarrow> (string \<Rightarrow> string) \<Rightarrow> 'c res" where
  "token_client factory getenv =
     (case factory of
        None \<Rightarrow> Inl (new_err ''GitHub token provider requires a client factory'')
      | Some f \<Rightarrow>
          if getenv GitHubTokenEnvironment = [] then Inl (new_err ''SYNTROPH_GITHUB_TOKEN is empty'')
          else f (getenv GitHubTokenEnvironment))"

definition mcp_provider_client :: "'c res option \<Rightarrow> 'c res" where
  "mcp_provider_client factory =
     (case factory of None \<Rightarrow> Inl (new_err ''mcp provider requires a client factory'') | Some r \<Rightarrow> r)"

text \<open>\<open>defaultProcessAlive\<close> on Unix, from the answer of signal 0, and on Windows.\<close>

definition process_alive_result :: "kill_answer \<Rightarrow> bool" where
  "process_alive_result r = (r = Delivered \<or> r = NotPermitted)"

definition default_process_alive :: "(int \<Rightarrow> kill_answer) \<Rightarrow> int \<Rightarrow> bool" where
  "default_process_alive kill pid = (if pid \<le> 0 then False else process_alive_result (kill pid))"

definition windows_process_alive :: "(int \<Rightarrow> bool) \<Rightarrow> int \<Rightarrow> bool" where
  "windows_process_alive found pid = (if pid \<le> 0 then False else found pid)"

text \<open>\<open>readGitConfig\<close>, given what the command prints, and \<open>gitOrigin\<close>.\<close>

definition read_git_config ::
  "(string \<Rightarrow> string list \<Rightarrow> string res) \<Rightarrow> string \<Rightarrow> string \<Rightarrow> string \<Rightarrow> string res" where
  "read_git_config run executable root key =
     (case run executable [''-C'', root, ''config'', ''--get'', key] of
        Inl e \<Rightarrow> Inl (wrap_with (''read Git '' @ key) e)
      | Inr out \<Rightarrow>
          if trim_space out = [] then Inl (new_err (''Git '' @ key @ '' is empty'')) else Inr (trim_space out))"

definition git_origin :: "(string \<Rightarrow> string list \<Rightarrow> string res) \<Rightarrow> string \<Rightarrow> string res" where
  "git_origin run root = read_git_config run ''git'' root ''remote.origin.url''"

definition default_storage_dependencies ::
  "(string \<Rightarrow> string list \<Rightarrow> string res) \<Rightarrow> (string \<Rightarrow> string) \<Rightarrow> (string \<Rightarrow> string res)
     \<Rightarrow> (resolved_storage \<Rightarrow> string \<Rightarrow> string \<Rightarrow> string \<Rightarrow> 'w \<Rightarrow> 'w built option \<times> 'w) \<Rightarrow> 'w storage_dependencies"
where
  "default_storage_dependencies run getenv look_path wiki =
     \<lparr>dp_origin = git_origin run, dp_getenv = getenv, dp_look_path = look_path, dp_git_config = read_git_config run,
      dp_provider_builder = Some (\<lambda>r w. (None, w)), dp_wiki_builder = Some wiki\<rparr>"

definition check_credentials :: "'w storage_dependencies \<Rightarrow> preflight_result \<Rightarrow> preflight_result" where
  "check_credentials deps report =
     (if trim_space (dp_getenv deps ''SYNTROPH_GITHUB_TOKEN'') = []
      then add_missing ''credentials'' ''SYNTROPH_GITHUB_TOKEN is not set.''
        ''Inject a GitHub token or GitHub App installation token through SYNTROPH_GITHUB_TOKEN; Syntroph never stores it.'' report
      else add_check ''credentials'' ''SYNTROPH_GITHUB_TOKEN is present; its value was not read into configuration or displayed.'' report)"

definition check_mcp_process :: "'w storage_dependencies \<Rightarrow> string list \<Rightarrow> preflight_result \<Rightarrow> preflight_result" where
  "check_mcp_process deps command report =
     (if command = [] \<or> trim_space (hd command) = []
      then add_missing ''MCP process'' ''storage.mcp.command is required for github-mcp.''
        ''Configure the MCP stdio server command; that process owns its own authentication, and Syntroph does not reuse an agent host's MCP session.'' report
      else (case dp_look_path deps (hd command) of
              Inl e \<Rightarrow> add_missing ''MCP process'' (''MCP executable '' @ go_quote (hd command) @ '' is unavailable.'')
                ''Install the configured executable or correct storage.mcp.command.'' report
            | Inr path \<Rightarrow> add_check ''MCP process'' (''MCP stdio executable '' @ go_quote (hd command)
                @ '' is available; it was not started and owns its own authentication.'') report))"

definition check_wiki_author ::
  "'w storage_dependencies \<Rightarrow> string \<Rightarrow> string \<Rightarrow> resolved_storage \<Rightarrow> preflight_result \<Rightarrow> preflight_result" where
  "check_wiki_author deps root exe r report =
     (let name = trim_space (rg_author_name r); email = trim_space (rg_author_email r) in
      if (name = []) \<noteq> (email = [])
      then add_missing ''Wiki commit author'' ''storage.wiki.commit_author requires both name and email.''
        ''Configure both author fields or remove both to use existing Git user.name and user.email.'' report
      else if name \<noteq> []
      then add_check ''Wiki commit author'' (''Wiki commits will use configured author '' @ name @ '' <'' @ email
        @ ''>; Git configuration was not changed.'') report
      else
     (case (dp_git_config deps exe root ''user.name'', dp_git_config deps exe root ''user.email'') of
        (Inr n, Inr m) \<Rightarrow>
          if trim_space n = [] \<or> trim_space m = []
          then add_missing ''Wiki commit author'' ''No complete storage.wiki.commit_author or existing Git user.name/user.email is available.''
            ''Configure storage.wiki.commit_author or Git identity; Syntroph never changes Git configuration.'' report
          else add_check ''Wiki commit author'' (''Wiki commits will use existing Git author '' @ trim_space n @ '' <'' @ trim_space m
            @ ''>; configuration was not changed.'') report
      | _ \<Rightarrow> add_missing ''Wiki commit author'' ''No complete storage.wiki.commit_author or existing Git user.name/user.email is available.''
            ''Configure storage.wiki.commit_author or Git identity; Syntroph never changes Git configuration.'' report))"

definition git_of :: "resolved_storage \<Rightarrow> string" where
  "git_of r = (if trim_space (rg_git_executable r) = [] then ''git'' else trim_space (rg_git_executable r))"

definition wiki_initialization_check :: preflight_check where
  "wiki_initialization_check = \<lparr>pc_name = ''Wiki initialization'', pc_status = ''info'',
     pc_detail = ''GitHub requires the Wiki to be enabled and initialized with at least one page before its Git repository exists.'',
     pc_action = ''Enable Wiki in repository settings and create the first page on GitHub before running syntroph sync retry --storage.''\<rparr>"

definition check_wiki_process ::
  "'w storage_dependencies \<Rightarrow> string \<Rightarrow> resolved_storage \<Rightarrow> preflight_result \<Rightarrow> preflight_result" where
  "check_wiki_process deps root r report =
     (let report' =
        (case dp_look_path deps (git_of r) of
           Inl e \<Rightarrow> add_missing ''Git process'' (''Git executable '' @ go_quote (git_of r) @ '' is unavailable.'')
             ''Install Git or correct storage.wiki.git_executable.'' report
         | Inr path \<Rightarrow> check_wiki_author deps root (git_of r) r
             (add_check ''Git process'' (''Git executable '' @ go_quote (git_of r)
               @ '' is available; no remote command was run.'') report))
      in report'\<lparr>pr_checks := pr_checks report' @ [wiki_initialization_check]\<rparr>)"

definition check_storage_prerequisites ::
  "string \<Rightarrow> resolved_storage \<Rightarrow> 'w storage_dependencies \<Rightarrow> preflight_result" where
  "check_storage_prerequisites root r deps =
     (let report0 = add_check ''configuration''
            (''Exactly one supported provider is selected: '' @ rg_backend r @ '' with '' @ rg_provider r @ ''.'')
            (zero_preflight\<lparr>pr_enabled := True, pr_ready := True, pr_backend := rg_backend r, pr_provider := rg_provider r,
               pr_repository := rg_repository r\<rparr>);
          report1 = add_check ''repository safety''
            (if rg_cross r then ''Cross-repository destination '' @ rg_repository r @ '' is explicitly allowed; origin is ''
               @ rg_origin r @ ''.''
             else ''Destination '' @ rg_repository r @ '' matches the normalized origin.'') report0;
          report2 = (if rg_provider r = ProviderGitHubREST then check_credentials deps report1
                     else if rg_provider r = ProviderGitHubMCP then check_mcp_process deps (rg_mcp_command r) report1
                     else if rg_provider r = ProviderGitHubWikiGit then check_wiki_process deps root r report1
                     else report1)
      in report2\<lparr>pr_checks := pr_checks report2 @ [recovery_check]\<rparr>)"

section \<open>The providers\<close>

definition failed_mirror :: "(string \<Rightarrow> string) \<Rightarrow> string \<Rightarrow> string \<Rightarrow> err \<Rightarrow> remote_diary \<Rightarrow> storage_result" where
  "failed_mirror sha backend provider cause d =
     (let missing = errors_is cause ErrPrerequisiteMissing in
      zero_result\<lparr>sr_state := (if missing then PrerequisiteMissing else SyncPending), sr_backend := backend, sr_provider := provider,
        sr_key := diary_key sha d, sr_failure_class := (if missing then FailurePrerequisite else FailureTransient),
        sr_cause := Some cause\<rparr>)"

text \<open>The provider record has a status that the adapter never asks for; \<open>failedStorageProvider\<close> has none.\<close>

definition failed_storage_provider :: "(string \<Rightarrow> string) \<Rightarrow> string \<Rightarrow> string \<Rightarrow> err \<Rightarrow> 'w provider" where
  "failed_storage_provider sha backend provider cause =
     (let answer = (\<lambda>d w. (failed_mirror sha backend provider cause d, w)) in
      \<lparr>pv_mirror = answer, pv_status = answer, pv_resolve = (\<lambda>d choice observed. answer d), pv_create = None,
       pv_mirror_bound = None, pv_recover = Some answer\<rparr>)"

definition managed_provider :: "(string \<Rightarrow> string) \<Rightarrow> 'a store_scheme managed \<Rightarrow> 'a store_scheme provider" where
  "managed_provider sha m =
     \<lparr>pv_mirror = managed_mirror sha m, pv_status = managed_status m, pv_resolve = managed_resolve sha m, pv_create = None,
      pv_mirror_bound = None, pv_recover = Some (managed_recover sha m)\<rparr>"

text \<open>The constructors that \<open>concreteStorageProvider\<close> calls: \<open>githubissues.New\<close>, \<open>githubissues.NewMCP\<close> and \<open>storage.NewManagedMirror\<close>.\<close>

definition rest_builder ::
  "json_reader \<Rightarrow> (string \<Rightarrow> string) \<Rightarrow> 'n rest \<Rightarrow> string \<Rightarrow> string \<Rightarrow> ('n, 'a) rstate_scheme
     \<Rightarrow> ('n, 'a) rstate_scheme built res \<times> ('n, 'a) rstate_scheme"
where
  "rest_builder rv sha opts repository token w =
     (case new_rest repository token opts w of
        (Inl e, w1) \<Rightarrow> (Inl e, w1)
      | (Inr p, w1) \<Rightarrow> (Inr (issue_provider sha (rest_semantics rv sha p), None), w1))"

definition mcp_builder ::
  "json_reader \<Rightarrow> (string \<Rightarrow> string option) \<Rightarrow> (string \<Rightarrow> string) \<Rightarrow> mcp_options \<Rightarrow> 'n mcp_world \<Rightarrow> (string \<Rightarrow> int option)
     \<Rightarrow> string \<Rightarrow> string list \<Rightarrow> ('n, 'a) mcpstate_scheme \<Rightarrow> ('n, 'a) mcpstate_scheme built res \<times> ('n, 'a) mcpstate_scheme"
where
  "mcp_builder rv strip sha opts wd parse repository command w =
     (case new_mcp repository command opts wd parse w of
        (Inl e, w1) \<Rightarrow> (Inl e, w1)
      | (Inr p, w1) \<Rightarrow> (Inr (mcp_provider rv strip sha p,
          Some \<lparr>lf_begin = begin_command, lf_end = end_command strip p\<rparr>), w1))"

definition managed_builder ::
  "(string \<Rightarrow> string) \<Rightarrow> lock_config \<Rightarrow> string \<Rightarrow> string \<Rightarrow> 'a store_scheme built \<Rightarrow> 'a store_scheme
     \<Rightarrow> 'a store_scheme built res \<times> 'a store_scheme"
where
  "managed_builder sha cfg root provider remote w =
     (case new_managed_mirror root provider cfg (Some (fst remote)) w of
        (Inl e, w1) \<Rightarrow> (Inl e, w1)
      | (Inr m, w1) \<Rightarrow> (Inr (managed_provider sha m, snd remote), w1))"

definition concrete_storage_provider ::
  "(string \<Rightarrow> string) \<Rightarrow> (string \<Rightarrow> string \<Rightarrow> 'a store_scheme \<Rightarrow> 'a store_scheme built res \<times> 'a store_scheme)
     \<Rightarrow> (string \<Rightarrow> string list \<Rightarrow> 'a store_scheme \<Rightarrow> 'a store_scheme built res \<times> 'a store_scheme)
     \<Rightarrow> lock_config \<Rightarrow> resolved_storage \<Rightarrow> string \<Rightarrow> (string \<Rightarrow> string) \<Rightarrow> 'a store_scheme
     \<Rightarrow> 'a store_scheme built option \<times> 'a store_scheme"
where
  "concrete_storage_provider sha rest mcp cfg r root getenv w =
     (let storage_root = path_text (join_text root ''storage'');
          failed = (\<lambda>e. Some (failed_storage_provider sha BackendIssues (rg_provider r) e, None));
          manage = (\<lambda>x. case x of
            (Inl e, w1) \<Rightarrow> (failed e, w1)
          | (Inr remote, w1) \<Rightarrow>
             (case managed_builder sha cfg storage_root (rg_provider r) remote w1 of
                (Inl e, w2) \<Rightarrow> (failed e, w2)
              | (Inr b, w2) \<Rightarrow> (Some b, w2))) in
      if rg_provider r = ProviderGitHubREST then manage (rest (rg_repository r) (getenv GitHubTokenEnvironment) w)
      else if rg_provider r = ProviderGitHubMCP then manage (mcp (rg_repository r) (rg_mcp_command r) w)
      else (None, w))"

definition wiki_remote_url :: "string \<Rightarrow> resolved_storage \<Rightarrow> string" where
  "wiki_remote_url origin r =
     (let v = trim_space origin; fallback = ''https://github.com/'' @ rg_repository r @ ''.wiki.git'' in
      if rg_cross r then
        (if has_prefix ''git@github.com:'' v then ''git@github.com:'' @ rg_repository r @ ''.wiki.git''
         else if has_prefix ''ssh://git@github.com/'' v then ''ssh://git@github.com/'' @ rg_repository r @ ''.wiki.git''
         else fallback)
      else if has_suffix ''.git'' v then trim_suffix ''.git'' v @ ''.wiki.git''
      else if contains_str v ''github.com'' then trim_right_slash v @ ''.wiki.git''
      else fallback)"

definition build_wiki_storage_provider ::
  "(string \<Rightarrow> string option) \<Rightarrow> (string \<Rightarrow> string) \<Rightarrow> (string \<Rightarrow> (string \<times> string \<times> bool) option) \<Rightarrow> lock_config \<Rightarrow> 'n git_world
     \<Rightarrow> resolved_storage \<Rightarrow> string \<Rightarrow> string \<Rightarrow> string \<Rightarrow> ('n, 'a) wstate_scheme built option"
where
  "build_wiki_storage_provider strip sha userinfo cfg git r root checkout origin =
     (case new_wiki_managed userinfo (path_text (join_text root ''storage'')) cfg
             \<lparr>wk_repository = rg_repository r, wk_repository_root = checkout, wk_remote_url = wiki_remote_url origin r,
              wk_web_url = ''https://github.com/'' @ rg_repository r @ ''/wiki'', wk_executable = git_of r,
              wk_author_name = rg_author_name r, wk_author_email = rg_author_email r, wk_world = git\<rparr> of
        Inl e \<Rightarrow> None
      | Inr m \<Rightarrow> Some (wiki_managed_provider strip sha m, None))"

section \<open>The configured port\<close>

record 'w configured =
  cs_adapter :: "'w storage_adapter"
  cs_life :: "'w command_life option"

text \<open>\<open>config\<close> is the result of \<open>config.Load\<close> and \<open>concrete\<close> the function above at the constructors of the program.\<close>

definition static_check :: "preflight_result \<Rightarrow> 'w \<Rightarrow> preflight_result \<times> 'w" where
  "static_check report w = (report, w)"

definition failed_setup :: "preflight_result \<Rightarrow> 'w configured" where
  "failed_setup report = \<lparr>cs_adapter = \<lparr>ad_provider = None, ad_backend = [], ad_provider_id = [], ad_check = Some (static_check report)\<rparr>,
     cs_life = None\<rparr>"

definition choose_provider ::
  "(resolved_storage \<Rightarrow> string \<Rightarrow> 'w \<Rightarrow> 'w built option \<times> 'w) \<Rightarrow> 'w storage_dependencies \<Rightarrow> string \<Rightarrow> string \<Rightarrow> string
     \<Rightarrow> resolved_storage \<Rightarrow> preflight_result \<Rightarrow> 'w \<Rightarrow> 'w built option \<times> 'w"
where
  "choose_provider concrete deps root checkout origin r report w =
     (if \<not> pr_ready report then (None, w)
      else
     (case (if rg_provider r = ProviderGitHubWikiGit \<and> dp_wiki_builder deps \<noteq> None
            then the (dp_wiki_builder deps) r root checkout origin w
            else (case dp_provider_builder deps of Some build \<Rightarrow> build r w | None \<Rightarrow> (None, w))) of
        (Some p, w1) \<Rightarrow> (Some p, w1)
      | (None, w1) \<Rightarrow> concrete r root w1))"

definition load_configured_storage ::
  "(string \<Rightarrow> parsed_url option) \<Rightarrow> config_file res
     \<Rightarrow> (resolved_storage \<Rightarrow> string \<Rightarrow> 'w \<Rightarrow> 'w built option \<times> 'w) \<Rightarrow> 'w storage_dependencies \<Rightarrow> string \<Rightarrow> string \<Rightarrow> 'w
     \<Rightarrow> ('w configured option \<times> preflight_result) \<times> 'w"
where
  "load_configured_storage parse config concrete deps root checkout w =
     (let fix_configuration = ''Fix .syntroph/config.yaml, then run syntroph doctor storage again.'';
          failed = (\<lambda>report. ((Some (failed_setup report), report), w)) in
      case config of
        Inl e \<Rightarrow> failed (failed_preflight ''configuration'' e fix_configuration)
      | Inr c \<Rightarrow>
      if cf_storage c = None
      then ((None, zero_preflight\<lparr>pr_ready := True, pr_checks := [\<lparr>pc_name = ''configuration'', pc_status = ''disabled'',
             pc_detail = ''Remote storage mirroring is not configured.'', pc_action = []\<rparr>]\<rparr>), w)
      else
     (case dp_origin deps checkout of
        Inl e \<Rightarrow> failed (failed_preflight ''repository origin'' e ''Configure remote.origin.url for this GitHub repository.'')
      | Inr origin \<Rightarrow>
     (case resolve_storage parse c origin of
        Inl e \<Rightarrow> failed (failed_preflight ''configuration'' e fix_configuration)
      | Inr r \<Rightarrow>
     (let report = check_storage_prerequisites checkout r deps in
      case choose_provider concrete deps root checkout origin r report w of
        (p, w1) \<Rightarrow>
          ((Some \<lparr>cs_adapter = \<lparr>ad_provider = map_option fst p, ad_backend = rg_backend r, ad_provider_id = rg_provider r,
                    ad_check = Some (static_check report)\<rparr>, cs_life = (case p of None \<Rightarrow> None | Some b \<Rightarrow> snd b)\<rparr>,
            report), w1)))))"

definition configured_port :: "'w configured option \<Rightarrow> 'w storage_port option" where
  "configured_port c = map_option (\<lambda>x. adapter_port (cs_adapter x)) c"

text \<open>\<open>Adapter.BeginCommand\<close> and \<open>EndCommand\<close>: the adapter has them always, and forwards them when it can.\<close>

definition adapter_lifecycle :: "'w configured \<Rightarrow> 'w command_life" where
  "adapter_lifecycle c =
     (case cs_life c of Some l \<Rightarrow> l | None \<Rightarrow> \<lparr>lf_begin = (\<lambda>w. w), lf_end = (\<lambda>w. (None, w))\<rparr>)"

definition configured_graph_executable :: "config_file res \<Rightarrow> string" where
  "configured_graph_executable config = (case config of Inl e \<Rightarrow> [] | Inr c \<Rightarrow> trim_space (cf_graphify c))"

section \<open>The doctor\<close>

definition value_or_dash :: "string \<Rightarrow> string" where
  "value_or_dash v = (if v = [] then ''-'' else v)"

definition check_line :: "preflight_check \<Rightarrow> string" where
  "check_line c = ''['' @ pc_status c @ ''] '' @ pc_name c @ '': '' @ pc_detail c
     @ (if pc_action c \<noteq> [] then '' Next: '' @ pc_action c else []) @ [newline]"

text \<open>The output and the error of the command, given what loading the storage gave.\<close>

definition doctor_report :: "preflight_result \<Rightarrow> string \<times> err option" where
  "doctor_report report =
     (if \<not> pr_enabled report
      then (''Storage mirroring is disabled; no remote checks or effects were performed.'' @ [newline], None)
      else
     (let shown = ''Storage: backend='' @ value_or_dash (pr_backend report) @ '' provider='' @ value_or_dash (pr_provider report)
            @ '' repository='' @ value_or_dash (pr_repository report) @ [newline] @ concat (map check_line (pr_checks report)) in
      if \<not> pr_ready report then (shown, Some (new_err ''storage prerequisites are missing''))
      else (shown @ ''Storage preflight passed. No authentication or remote write was performed.'' @ [newline], None)))"

definition doctor_storage ::
  "(string \<Rightarrow> string \<Rightarrow> 'w \<Rightarrow> ('w configured option \<times> preflight_result) \<times> 'w) \<Rightarrow> string \<Rightarrow> string \<Rightarrow> string list \<Rightarrow> 'w
     \<Rightarrow> (string \<times> err option) \<times> 'w"
where
  "doctor_storage load root checkout arguments w =
     (if arguments \<noteq> [] then (([], Some (new_err ''doctor storage accepts only --root'')), w)
      else
     (case load root checkout w of
        ((c, report), w1) \<Rightarrow>
         (case c of
            None \<Rightarrow> (doctor_report report, w1)
          | Some x \<Rightarrow> (case adapter_preflight (cs_adapter x) w1 of (report', w2) \<Rightarrow> (doctor_report report', w2)))))"

section \<open>Reports are consistent\<close>

text \<open>What a report says: ready if no check is missing, and otherwise the cause is the detail of the first one.\<close>

definition missing_checks :: "preflight_result \<Rightarrow> preflight_check list" where
  "missing_checks report = filter (\<lambda>c. pc_status c = ''missing'') (pr_checks report)"

definition consistent :: "preflight_result \<Rightarrow> bool" where
  "consistent report \<longleftrightarrow> pr_ready report = (missing_checks report = [])
     \<and> map_option err_text (pr_cause report) = (case missing_checks report of [] \<Rightarrow> None | c # _ \<Rightarrow> Some (pc_detail c))"

named_theorems checks \<open>facts on the steps of the preflight\<close>

lemma consistent_add_check [checks]: "consistent report \<Longrightarrow> consistent (add_check name detail report)"
  by (simp add: consistent_def missing_checks_def add_check_def)

lemma consistent_add_missing [checks]: "consistent report \<Longrightarrow> consistent (add_missing name detail action report)"
  by (auto simp: consistent_def missing_checks_def add_missing_def new_err_def split: list.splits option.splits)

lemma consistent_add_info [checks]:
  "consistent report \<Longrightarrow> pc_status c \<noteq> ''missing'' \<Longrightarrow> consistent (report\<lparr>pr_checks := pr_checks report @ [c]\<rparr>)"
  by (simp add: consistent_def missing_checks_def)

lemma consistent_failed [checks]: "consistent (failed_preflight name cause action)"
  by (simp add: consistent_def missing_checks_def failed_preflight_def recovery_check_def zero_preflight_def)

lemma check_statuses [simp]: "pc_status recovery_check = ''info''" "pc_status wiki_initialization_check = ''info''"
  by (simp_all add: recovery_check_def wiki_initialization_check_def)

lemma consistent_credentials [checks]: "consistent report \<Longrightarrow> consistent (check_credentials deps report)"
  by (simp add: check_credentials_def checks)

lemma consistent_mcp [checks]: "consistent report \<Longrightarrow> consistent (check_mcp_process deps command report)"
  by (simp add: check_mcp_process_def checks split: sum.split)

lemma consistent_author [checks]: "consistent report \<Longrightarrow> consistent (check_wiki_author deps root exe r report)"
  by (simp add: check_wiki_author_def checks Let_def split: sum.split)

lemma consistent_wiki [checks]: "consistent report \<Longrightarrow> consistent (check_wiki_process deps root r report)"
  by (simp add: check_wiki_process_def checks Let_def split: sum.split)

lemma consistent_prerequisites: "consistent (check_storage_prerequisites root r deps)"
proof -
  have "consistent (zero_preflight\<lparr>pr_enabled := True, pr_ready := True, pr_backend := b, pr_provider := p, pr_repository := q\<rparr>)" for b p q
    by (simp add: consistent_def missing_checks_def zero_preflight_def)
  then show ?thesis by (simp add: check_storage_prerequisites_def Let_def checks)
qed

lemma enabled_steps [simp]:
  "pr_enabled (add_check name detail report) = pr_enabled report"
  "pr_enabled (add_missing name detail action report) = pr_enabled report"
  "pr_enabled (check_credentials deps report) = pr_enabled report"
  "pr_enabled (check_mcp_process deps command report) = pr_enabled report"
  "pr_enabled (check_wiki_author deps root exe r report) = pr_enabled report"
  "pr_enabled (check_wiki_process deps root r report) = pr_enabled report"
  by (simp_all add: add_check_def add_missing_def check_credentials_def check_mcp_process_def check_wiki_author_def
      check_wiki_process_def Let_def split: sum.split)

lemma enabled_prerequisites [simp]: "pr_enabled (check_storage_prerequisites root r deps)"
  by (simp add: check_storage_prerequisites_def Let_def)

text \<open>A step never makes a report ready again.\<close>

lemma ready_steps:
  "pr_ready (add_check name detail report) = pr_ready report"
  "\<not> pr_ready (add_missing name detail action report)"
  "pr_ready (check_credentials deps report) \<longleftrightarrow> pr_ready report \<and> trim_space (dp_getenv deps GitHubTokenEnvironment) \<noteq> []"
  "pr_ready (check_mcp_process deps command report)
     \<longleftrightarrow> pr_ready report \<and> command \<noteq> [] \<and> trim_space (hd command) \<noteq> [] \<and> (\<exists>p. dp_look_path deps (hd command) = Inr p)"
  "pr_ready (check_wiki_process deps root r report)
     \<longleftrightarrow> (\<exists>p. dp_look_path deps (git_of r) = Inr p) \<and> pr_ready (check_wiki_author deps root (git_of r) r report)"
  by (auto simp: add_check_def add_missing_def check_credentials_def check_mcp_process_def GitHubTokenEnvironment_def
      check_wiki_author_def check_wiki_process_def Let_def split: sum.split)

lemma ready_author:
  "pr_ready (check_wiki_author deps root exe r report) \<Longrightarrow> pr_ready report
     \<and> ((trim_space (rg_author_name r) \<noteq> [] \<and> trim_space (rg_author_email r) \<noteq> [])
        \<or> (\<exists>n m. dp_git_config deps exe root ''user.name'' = Inr n \<and> trim_space n \<noteq> []
            \<and> dp_git_config deps exe root ''user.email'' = Inr m \<and> trim_space m \<noteq> []))"
  by (auto simp: check_wiki_author_def ready_steps Let_def split: if_splits sum.splits)

text \<open>What the selected provider needs.\<close>

definition prerequisites_met :: "string \<Rightarrow> resolved_storage \<Rightarrow> 'w storage_dependencies \<Rightarrow> bool" where
  "prerequisites_met root r deps \<longleftrightarrow>
     (rg_provider r = ProviderGitHubREST \<longrightarrow> trim_space (dp_getenv deps GitHubTokenEnvironment) \<noteq> [])
     \<and> (rg_provider r = ProviderGitHubMCP \<longrightarrow> rg_mcp_command r \<noteq> [] \<and> trim_space (hd (rg_mcp_command r)) \<noteq> []
          \<and> (\<exists>p. dp_look_path deps (hd (rg_mcp_command r)) = Inr p))
     \<and> (rg_provider r = ProviderGitHubWikiGit \<longrightarrow> (\<exists>p. dp_look_path deps (git_of r) = Inr p)
          \<and> ((trim_space (rg_author_name r) \<noteq> [] \<and> trim_space (rg_author_email r) \<noteq> [])
             \<or> (\<exists>n m. dp_git_config deps (git_of r) root ''user.name'' = Inr n \<and> trim_space n \<noteq> []
                 \<and> dp_git_config deps (git_of r) root ''user.email'' = Inr m \<and> trim_space m \<noteq> [])))"

lemma ready_prerequisites:
  assumes "pr_ready (check_storage_prerequisites root r deps)"
  shows "prerequisites_met root r deps"
  using assms unfolding prerequisites_met_def
  by (auto simp: check_storage_prerequisites_def Let_def ready_steps provider_names dest!: ready_author split: if_splits)

text \<open>The outcomes of loading.\<close>

lemma load_cases:
  assumes "load_configured_storage parse config concrete deps root checkout w = ((c, report), w')"
  obtains (disabled) cf where "config = Inr cf" "cf_storage cf = None" "c = None" "w' = w" "\<not> pr_enabled report" "consistent report"
  | (failed) name e action where "c = Some (failed_setup report)" "report = failed_preflight name e action" "w' = w"
  | (checked) cf origin r p where "config = Inr cf" "cf_storage cf \<noteq> None" "dp_origin deps checkout = Inr origin"
      "resolve_storage parse cf origin = Inr r" "report = check_storage_prerequisites checkout r deps"
      "choose_provider concrete deps root checkout origin r report w = (p, w')"
      "c = Some \<lparr>cs_adapter = \<lparr>ad_provider = map_option fst p, ad_backend = rg_backend r, ad_provider_id = rg_provider r,
                    ad_check = Some (static_check report)\<rparr>, cs_life = (case p of None \<Rightarrow> None | Some b \<Rightarrow> snd b)\<rparr>"
proof (cases config)
  case (Inl e)
  with assms show ?thesis by (auto simp: load_configured_storage_def Let_def intro: failed)
next
  case (Inr cf)
  show ?thesis
  proof (cases "cf_storage cf")
    case None
    with Inr assms show ?thesis
      by (intro disabled) (auto simp: load_configured_storage_def Let_def consistent_def missing_checks_def zero_preflight_def)
  next
    case (Some s)
    show ?thesis
    proof (cases "dp_origin deps checkout")
      case (Inl e)
      with Inr Some assms show ?thesis by (auto simp: load_configured_storage_def Let_def intro: failed)
    next
      case (Inr origin)
      note o = this
      show ?thesis
      proof (cases "resolve_storage parse cf origin")
        case (Inl e)
        with \<open>config = Inr cf\<close> o Some assms show ?thesis by (auto simp: load_configured_storage_def Let_def intro: failed)
      next
        case (Inr r)
        obtain p w1 where "choose_provider concrete deps root checkout origin r (check_storage_prerequisites checkout r deps) w = (p, w1)"
          by (metis surj_pair)
        with \<open>config = Inr cf\<close> o Some Inr assms show ?thesis
          by (intro checked [of cf origin r p]) (auto simp: load_configured_storage_def Let_def)
      qed
    qed
  qed
qed

section \<open>Properties\<close>

text \<open>C20: a provider that can reach a remote is only ever built when the configuration
  resolves to an explicit destination and everything the selected provider needs is there: the token, the MCP command, or
  Git and a commit author. Otherwise nothing at all has been touched.\<close>

theorem provider_needs_every_prerequisite:
  assumes "load_configured_storage parse config concrete deps root checkout w = ((Some c, report), w')"
  shows "(ad_provider (cs_adapter c) = None \<and> \<not> pr_ready report \<and> w' = w)
    \<or> (\<exists>cf s origin r. config = Inr cf \<and> cf_storage cf = Some s \<and> dp_origin deps checkout = Inr origin
         \<and> resolve_storage parse cf origin = Inr r \<and> pr_ready report \<and> prerequisites_met checkout r deps
         \<and> ad_backend (cs_adapter c) = rg_backend r \<and> ad_provider_id (cs_adapter c) = rg_provider r
         \<and> (rg_repository r = rg_origin r \<or> sg_allow_cross s \<and> trim_space (sg_repository s) \<noteq> []))"
  using assms
proof (cases rule: load_cases)
  case (checked cf origin r p)
  show ?thesis
  proof (cases "pr_ready report")
    case True
    from checked(2) obtain s where s: "cf_storage cf = Some s" by auto
    with checked(4) have "rg_enabled r" by (auto simp: resolve_storage_def Let_def split: option.splits sum.splits if_splits)
    from resolved_destination [OF checked(4) this] s
    have "rg_repository r = rg_origin r \<or> sg_allow_cross s \<and> trim_space (sg_repository s) \<noteq> []" by auto
    moreover from ready_prerequisites True checked(5) have "prerequisites_met checkout r deps" by blast
    ultimately show ?thesis using checked s True by auto
  next
    case False
    with checked(6) have "p = None" "w' = w" by (simp_all add: choose_provider_def)
    with checked(7) False show ?thesis by simp
  qed
qed (simp_all add: failed_setup_def failed_preflight_def zero_preflight_def)

text \<open>C39: the diagnosis agrees with what it shows. \<open>doctor storage\<close> succeeds exactly when
  it is called without arguments and no check of the report is missing; a report that is not ready has the detail of the
  first missing check as its cause; and a port for which it fails has no provider.\<close>

theorem doctor_passes_iff_nothing_is_missing:
  assumes "load_configured_storage parse config concrete deps root checkout w = ((c, report), w')"
  shows "(snd (fst (doctor_storage (load_configured_storage parse config concrete deps) root checkout arguments w)) = None
        \<longleftrightarrow> arguments = [] \<and> (\<forall>k \<in> set (pr_checks report). pc_status k \<noteq> ''missing''))
    \<and> consistent report
    \<and> (\<not> pr_ready report \<longrightarrow> (\<exists>x. c = Some x \<and> ad_provider (cs_adapter x) = None))"
proof -
  have "consistent report \<and> (\<not> pr_ready report \<longrightarrow> (\<exists>x. c = Some x \<and> ad_provider (cs_adapter x) = None))
      \<and> (pr_enabled report \<longleftrightarrow> c \<noteq> None) \<and> (\<forall>x. c = Some x \<longrightarrow> ad_check (cs_adapter x) = Some (static_check report))"
    using assms
  proof (cases rule: load_cases)
    case (disabled cf)
    with assms show ?thesis by (auto simp: load_configured_storage_def Let_def)
  next
    case (failed name e action)
    with consistent_failed [of name e action] show ?thesis by (simp add: failed_setup_def) (simp add: failed_preflight_def)
  next
    case (checked cf origin r p)
    then show ?thesis by (auto simp: consistent_prerequisites choose_provider_def)
  qed
  moreover from this have "pr_ready report = (\<forall>k \<in> set (pr_checks report). pc_status k \<noteq> ''missing'')"
    by (simp add: consistent_def missing_checks_def filter_empty_conv)
  ultimately show ?thesis using assms
    by (auto simp: doctor_storage_def doctor_report_def adapter_preflight_def static_check_def Let_def split: option.splits)
qed

text \<open>A repository with storage over REST, with and without a token.\<close>

definition sample_dependencies :: "string \<Rightarrow> unit storage_dependencies" where
  "sample_dependencies token = \<lparr>dp_origin = (\<lambda>p. Inr ''git@github.com:o/n.git''),
     dp_getenv = (\<lambda>v. if v = GitHubTokenEnvironment then token else []), dp_look_path = Inr,
     dp_git_config = (\<lambda>e p k. Inl (new_err ''unset'')), dp_provider_builder = None, dp_wiki_builder = None\<rparr>"

definition sample_load :: "string \<Rightarrow> (unit configured option \<times> preflight_result) \<times> unit" where
  "sample_load token = load_configured_storage (\<lambda>u. None) (Inr (no_config\<lparr>cf_storage := Some sample_storage\<rparr>))
     (\<lambda>r root w. (Some (failed_storage_provider (\<lambda>s. s) BackendIssues (rg_provider r) (new_err ''offline''), None), w))
     (sample_dependencies token) ''.syntroph'' ''.'' ()"

lemma sample_load_facts:
  "map_option (\<lambda>c. ad_provider (cs_adapter c) = None) (fst (fst (sample_load ''t''))) = Some False"
  "map_option (\<lambda>c. ad_provider (cs_adapter c) = None) (fst (fst (sample_load []))) = Some True"
  "pr_ready (snd (fst (sample_load ''t'')))" "\<not> pr_ready (snd (fst (sample_load [])))"
  by code_simp+

lemma sample_load_run:
  obtains c report where "load_configured_storage (\<lambda>u. None) (Inr (no_config\<lparr>cf_storage := Some sample_storage\<rparr>))
     (\<lambda>r root w. (Some (failed_storage_provider (\<lambda>s. s) BackendIssues (rg_provider r) (new_err ''offline''), None), w))
     (sample_dependencies token) ''.syntroph'' ''.'' () = ((c, report), ())"
    "sample_load token = ((c, report), ())"
  by (cases "sample_load token") (auto simp: sample_load_def)

theorem provider_needs_every_prerequisite_witness:
  "\<exists>c report r. sample_load ''t'' = ((Some c, report), ()) \<and> ad_provider (cs_adapter c) \<noteq> None
     \<and> prerequisites_met ''.'' r (sample_dependencies ''t'')"
proof -
  obtain c report where run: "load_configured_storage (\<lambda>u. None) (Inr (no_config\<lparr>cf_storage := Some sample_storage\<rparr>))
     (\<lambda>r root w. (Some (failed_storage_provider (\<lambda>s. s) BackendIssues (rg_provider r) (new_err ''offline''), None), w))
     (sample_dependencies ''t'') ''.syntroph'' ''.'' () = ((c, report), ())" "sample_load ''t'' = ((c, report), ())"
    by (rule sample_load_run)
  with sample_load_facts(1) obtain x where x: "c = Some x" "ad_provider (cs_adapter x) \<noteq> None" by (cases c) auto
  from provider_needs_every_prerequisite [OF run(1) [unfolded x(1)]] x run(2) show ?thesis by auto
qed

theorem doctor_passes_iff_nothing_is_missing_witness:
  "\<exists>report. snd (fst (sample_load [])) = report \<and> consistent report
     \<and> (\<exists>k \<in> set (pr_checks report). pc_status k = ''missing'')
     \<and> snd (fst (doctor_storage (load_configured_storage (\<lambda>u. None) (Inr (no_config\<lparr>cf_storage := Some sample_storage\<rparr>))
         (\<lambda>r root w. (Some (failed_storage_provider (\<lambda>s. s) BackendIssues (rg_provider r) (new_err ''offline''), None), w))
         (sample_dependencies [])) ''.syntroph'' ''.'' [] ())) \<noteq> None"
proof -
  obtain c report where run: "load_configured_storage (\<lambda>u. None) (Inr (no_config\<lparr>cf_storage := Some sample_storage\<rparr>))
     (\<lambda>r root w. (Some (failed_storage_provider (\<lambda>s. s) BackendIssues (rg_provider r) (new_err ''offline''), None), w))
     (sample_dependencies []) ''.syntroph'' ''.'' () = ((c, report), ())" "sample_load [] = ((c, report), ())"
    by (rule sample_load_run)
  note all = doctor_passes_iff_nothing_is_missing [OF run(1), of "[]"]
  from sample_load_facts(4) run(2) have "\<not> pr_ready report" by simp
  with all have "\<exists>k \<in> set (pr_checks report). pc_status k = ''missing''"
    by (auto simp: consistent_def missing_checks_def filter_empty_conv)
  with all run(2) show ?thesis by auto
qed

section \<open>Findings\<close>

text \<open>A prerequisite that is still missing at an explicit retry is reported as a pending synchronisation with another
  cause: the obligation that recovery shows next has lost it.\<close>

theorem retry_forgets_missing_prerequisite:
  assumes "load_configured_storage parse config concrete deps root checkout w = ((Some c, report), w')" "\<not> pr_ready report"
  shows "\<exists>recover r. sp_recover_event (adapter_port (cs_adapter c)) = Some recover \<and> recover i al d v = (r, v)
    \<and> sr_state r = SyncPending \<and> sr_failure_class r = FailureTransient
    \<and> sr_cause r = Some (new_err ''configured storage provider does not support explicit recovery'')"
  using assms
proof (cases rule: load_cases)
  case (failed name e action)
  then show ?thesis
    by (auto simp: adapter_port_def adapter_recover_event_def adapter_unavailable_def failed_setup_def)
next
  case (checked cf origin r p)
  with assms(2) have "p = None" by (simp add: choose_provider_def)
  with checked(7) show ?thesis by (auto simp: adapter_port_def adapter_recover_event_def adapter_unavailable_def)
qed simp

text \<open>An origin that ends in \<open>.git/\<close> names the repository without the suffix, and its Wiki with the suffix twice.\<close>

theorem wiki_url_of_slashed_origin:
  "normalize_repository (\<lambda>u. Some \<lparr>pu_scheme = ''https'', pu_hostname = ''github.com'', pu_user = None, pu_path = ''/o/n.git/''\<rparr>)
     ''https://github.com/o/n.git/'' = Inr ''o/n''
   \<and> wiki_remote_url ''https://github.com/o/n.git/'' (no_storage\<lparr>rg_repository := ''o/n''\<rparr>) = ''https://github.com/o/n.git.wiki.git''"
  by code_simp

end
