(* ===== verification/Command_Line.thy ===== *)
theory Command_Line
  imports Skill_Commands Storage_Setup
begin

text \<open>
  \<open>cmd/syntroph/main.go\<close>: the dispatch of the commands, \<open>sync status\<close>, \<open>sync recovery\<close> and \<open>session close\<close>. The state is that
  of a session close; the skill commands, which act on the catalog, are a function of the surroundings. A run returns what it prints, in order, and its error;
  the JSON that \<open>session close\<close> prints is kept as the diary and the delivery. \<^term>\<open>None\<close> is a run that does not return.
\<close>

section \<open>Surroundings\<close>

record 'w cli_world =
  lw_sha :: "string \<Rightarrow> string"
  lw_strip :: "string \<Rightarrow> string option"
  lw_json :: json_reader
  lw_files :: file_view
  lw_read :: "string \<Rightarrow> string res"
  lw_load :: "string \<Rightarrow> config_file res"
  lw_parse_url :: "string \<Rightarrow> parsed_url option"
  lw_dependencies :: "'w storage_dependencies"
  lw_concrete :: "resolved_storage \<Rightarrow> string \<Rightarrow> 'w \<Rightarrow> 'w built option \<times> 'w"
  lw_graphify :: "'w runner option"
  lw_locks :: lock_config
  lw_skill :: "string list \<Rightarrow> 'w \<Rightarrow> skill_answer \<times> 'w"

datatype cli_output = Printed string | ClosedDiary session_diary delivery | SkillShown skill_value

type_synonym cli_answer = "(cli_output list \<times> err option) option"

definition failing :: "err \<Rightarrow> cli_answer" where "failing e = Some ([], Some e)"

definition printing :: "string \<Rightarrow> cli_answer" where "printing s = Some ([Printed s], None)"

text \<open>\<open>filepath.Dir\<close>\<close>

definition dir_text :: "string \<Rightarrow> string" where
  "dir_text p = path_text (clean (rev (dropWhile (\<lambda>c. c \<noteq> CHR ''/'') (rev p))))"

definition tab :: string where "tab = [CHR 0x09]"

section \<open>Inspection\<close>

definition status_line :: "recovery_item \<Rightarrow> string" where
  "status_line i = ri_saga_id i @ tab @ ri_state i @ tab @ ''provider='' @ ri_provider i @ tab @ ''remote='' @ ri_remote_id i
     @ tab @ ''revision='' @ ri_remote_revision i @ tab @ ''failure='' @ ri_failure_class i @ tab @ ''evidence='' @ ri_conflict_snapshot i
     @ tab @ ''error='' @ ri_last_error i @ tab @ ''next='' @ ri_next_action i @ [newline]"

definition sync_status :: "'w cli_world \<Rightarrow> 'a jstate_scheme \<Rightarrow> cli_answer \<times> 'a jstate_scheme" where
  "sync_status x w =
     (case inspect_recovery (lw_sha x) (lw_strip x) w of
        (Inl e, w1) \<Rightarrow> (failing e, w1)
      | (Inr items, w1) \<Rightarrow>
          (printing (if items = [] then ''No pending synchronization obligations.'' @ [newline]
                     else concat (map status_line items)), w1))"

definition attempt_line :: "handler_attempt \<Rightarrow> string" where
  "attempt_line a = ''  attempt '' @ ha_handler_id a @ ''/'' @ ha_event_id a @ '' at '' @ rfc3339_text (ha_attempted_at a)
     @ '': '' @ ha_outcome a @ (if ha_error a \<noteq> [] then '' ('' @ ha_error a @ '')'' else []) @ [newline]"

definition plan_line :: "recovery_item \<Rightarrow> string" where
  "plan_line i = ''- saga '' @ ri_saga_id i @ '': '' @ ri_state i @ ''; provider: '' @ ri_provider i @ ''; remote: '' @ ri_remote_id i
     @ '' '' @ ri_remote_url i @ ''; revision: '' @ ri_remote_revision i @ ''; failure: '' @ ri_failure_class i @ ''; evidence: ''
     @ ri_conflict_snapshot i @ ''; attempts: '' @ nat_text (length (ri_attempts i)) @ ''; last error: '' @ ri_last_error i
     @ ''; next: '' @ ri_next_action i @ [newline] @ concat (map attempt_line (ri_attempts i))"

definition recovery_plan :: "'w cli_world \<Rightarrow> 'a jstate_scheme \<Rightarrow> cli_answer \<times> 'a jstate_scheme" where
  "recovery_plan x w =
     (case inspect_recovery (lw_sha x) (lw_strip x) w of
        (Inl e, w1) \<Rightarrow> (failing e, w1)
      | (Inr items, w1) \<Rightarrow>
          (printing (if items = [] then ''Recovery plan: nothing to recover.'' @ [newline]
                     else ''Recovery plan (no external effects are executed automatically):'' @ [newline]
                       @ concat (map plan_line items)), w1))"

text \<open>\<open>NewMirrorLocks\<close>\<close>

definition new_mirror_locks :: "string \<Rightarrow> 'a env_scheme \<Rightarrow> err option \<times> 'a env_scheme" where
  "new_mirror_locks root w = (if root = [] then (Some (new_err ''storage root is required''), w) else try_io w)"

definition clear_lock :: "'w cli_world \<Rightarrow> string \<Rightarrow> string \<Rightarrow> 'a store_scheme \<Rightarrow> cli_answer \<times> 'a store_scheme" where
  "clear_lock x root key w =
     (case new_mirror_locks (path_text (join_text root ''storage'')) w of
        (Some e, w1) \<Rightarrow> (failing e, w1)
      | (None, w1) \<Rightarrow>
         (case clear_orphan (lw_locks x) key w1 of
            (Some e, w2) \<Rightarrow> (failing e, w2)
          | (None, w2) \<Rightarrow> (printing (''Verified orphaned mirror lock cleared: '' @ key
                @ ''. No external effect was executed.'' @ [newline]), w2)))"

definition sync_recovery_command ::
  "'w cli_world \<Rightarrow> string \<Rightarrow> string list \<Rightarrow> 'a store_scheme \<Rightarrow> cli_answer \<times> 'a store_scheme" where
  "sync_recovery_command x journal_dir args w =
     (case parse_flags [(''clear-lock'', StringFlag), (''root'', StringFlag)] [(''root'', dir_text journal_dir)] args of
        Inl e \<Rightarrow> (failing e, w)
      | Inr (vs, pos) \<Rightarrow>
          if pos \<noteq> [] then (failing (new_err ''sync recovery accepts only --clear-lock and --root''), w)
          else if flag_text ''clear-lock'' vs \<noteq> [] then clear_lock x (flag_text ''root'' vs) (flag_text ''clear-lock'' vs) w
          else recovery_plan x w)"

section \<open>The commands with a storage port\<close>

definition load_storage ::
  "'w cli_world \<Rightarrow> string \<Rightarrow> string \<Rightarrow> 'w \<Rightarrow> ('w configured option \<times> preflight_result) \<times> 'w" where
  "load_storage x root checkout w =
     load_configured_storage (lw_parse_url x) (lw_load x (path_text (join_text root ''config.yaml''))) (lw_concrete x)
       (lw_dependencies x) root checkout w"

definition storage_port_of ::
  "'w cli_world \<Rightarrow> string \<Rightarrow> string \<Rightarrow> 'w \<Rightarrow> ('w storage_port option \<times> 'w command_life option) \<times> 'w" where
  "storage_port_of x root checkout w =
     (case load_storage x root checkout w of
        ((c, report), w1) \<Rightarrow> ((configured_port c, map_option adapter_lifecycle c), w1))"

definition answer_of :: "(string \<times> err option) \<times> 'w \<Rightarrow> cli_answer \<times> 'w" where
  "answer_of r = (case r of ((out, e), w) \<Rightarrow> (Some (if out = [] then [] else [Printed out], e), w))"

definition retry_line_of ::
  "('a gstate_scheme) cli_world \<Rightarrow> string \<Rightarrow> string list \<Rightarrow> 'a gstate_scheme \<Rightarrow> cli_answer \<times> 'a gstate_scheme" where
  "retry_line_of x journal_dir args w =
     (case parse_flags [(''graph'', BoolFlag), (''storage'', BoolFlag)] [] args of
        Inl e \<Rightarrow> (failing e, w)
      | Inr (vs, pos) \<Rightarrow>
          answer_of (retry_command (lw_sha x) (lw_strip x) (storage_port_of x (dir_text journal_dir) (dir_text (dir_text journal_dir)))
            (flag_set ''graph'' vs) (flag_set ''storage'' vs) w))"

definition resolve_flag_kinds :: "(string \<times> flag_kind) list" where
  "resolve_flag_kinds = [(''local-file'', StringFlag), (''remote-file'', StringFlag), (''keep-local'', BoolFlag),
     (''keep-remote'', BoolFlag), (''revision'', StringFlag), (''root'', StringFlag)]"

definition resolve_flags_of :: "flag_values \<Rightarrow> string list \<Rightarrow> resolve_flags" where
  "resolve_flags_of vs pos = \<lparr>rf_local = flag_text ''local-file'' vs, rf_remote = flag_text ''remote-file'' vs,
     rf_keep_local = flag_set ''keep-local'' vs, rf_keep_remote = flag_set ''keep-remote'' vs,
     rf_revision = flag_text ''revision'' vs, rf_root = flag_text ''root'' vs, rf_arguments = pos\<rparr>"

definition resolve_line_of ::
  "('a jstate_scheme) cli_world \<Rightarrow> string list \<Rightarrow> 'a jstate_scheme \<Rightarrow> cli_answer \<times> 'a jstate_scheme" where
  "resolve_line_of x args w =
     (case parse_flags resolve_flag_kinds [(''root'', ''.syntroph'')] (rotate_positional args) of
        Inl e \<Rightarrow> (failing e, w)
      | Inr (vs, pos) \<Rightarrow>
         (let q = resolve_flags_of vs pos in
          answer_of (resolve_command (lw_sha x) (lw_strip x) (lw_read x)
            (\<lambda>v. case storage_port_of x (rf_root q) (dir_text (rf_root q)) v of ((port, life), v1) \<Rightarrow> (port, v1)) q w)))"

section \<open>Closing a session\<close>

definition close_flag_kinds :: "(string \<times> flag_kind) list" where
  "close_flag_kinds = map (\<lambda>n. (n, StringFlag))
     [''artifact'', ''format'', ''summary'', ''repository'', ''commit'', ''author'', ''runtime'', ''root'']"

text \<open>The graph port: Graphify if it is configured, otherwise the local one, or none when that cannot be made.\<close>

definition close_graph ::
  "('a gstate_scheme) cli_world \<Rightarrow> string \<Rightarrow> 'a gstate_scheme \<Rightarrow> 'a gstate_scheme graph_port option \<times> 'a gstate_scheme" where
  "close_graph x root w =
     (let executable = configured_graph_executable (lw_load x (path_text (join_text root ''config.yaml''))) in
      if executable \<noteq> [] then (Some (graphify_port executable (lw_graphify x)), w)
      else (case new_local_graph (path_text (join_text root ''graph'')) w of
              (None, w1) \<Rightarrow> (Some (local_graph_port (lw_sha x)), w1)
            | (Some e, w1) \<Rightarrow> (None, w1)))"

definition close_request_of :: "flag_values \<Rightarrow> string \<Rightarrow> close_request" where
  "close_request_of vs data =
     \<lparr>cq_repository_id = flag_text ''repository'' vs, cq_commit_sha = flag_text ''commit'' vs,
      cq_author = flag_text ''author'' vs, cq_runtime = flag_text ''runtime'' vs,
      cq_repository_root = dir_text (flag_text ''root'' vs), cq_artifact = data,
      cq_format = to_lower (flag_text ''format'' vs), cq_manual_summary = flag_text ''summary'' vs, cq_now = 0\<rparr>"

definition close_line_of ::
  "('a mstate_scheme) cli_world \<Rightarrow> string list \<Rightarrow> 'a mstate_scheme \<Rightarrow> cli_answer \<times> 'a mstate_scheme" where
  "close_line_of x args w =
     (case parse_flags close_flag_kinds [(''root'', ''.syntroph'')] args of
        Inl e \<Rightarrow> (failing e, w)
      | Inr (vs, pos) \<Rightarrow>
     (let root = flag_text ''root'' vs; artifact = flag_text ''artifact'' vs in
      if flag_text ''repository'' vs = [] \<or> flag_text ''commit'' vs = []
      then (failing (new_err ''session close requires --repository and --commit''), w)
      else
     (case (if artifact \<noteq> [] then lw_read x artifact else Inr []) of
        Inl e \<Rightarrow> (failing e, w)
      | Inr data \<Rightarrow>
     (case new_saga_journal (path_text (join_text root ''journal'')) w of
        (Some e, w1) \<Rightarrow> (failing e, w1)
      | (None, w1) \<Rightarrow>
     (case close_graph x root w1 of
        (graph, w2) \<Rightarrow>
     (case storage_port_of x root (dir_text root) w2 of
        ((port, life), w3) \<Rightarrow>
         (case close_session (lw_json x) (lw_sha x) (lw_strip x) (lw_files x)
                 \<lparr>cl_memory = Some (local_memory (lw_json x)), cl_bus = Some [], cl_graph = graph, cl_storage = port\<rparr>
                 (close_request_of vs data) w3 of
            (None, w4) \<Rightarrow> (None, w4)
          | (Some (d, dl, Some e), w4) \<Rightarrow> (failing e, w4)
          | (Some (d, dl, None), w4) \<Rightarrow> (Some ([ClosedDiary d dl], None), w4))))))))"

section \<open>The dispatch\<close>

definition usage_err :: err where
  "usage_err = new_err ''usage: syntroph session close | syntroph skill <sync|list|show|verify|prepare|recovery> | doctor storage | sync <status|recovery|retry|resolve>''"

definition doctor_line_of ::
  "'w cli_world \<Rightarrow> string list \<Rightarrow> 'w \<Rightarrow> cli_answer \<times> 'w" where
  "doctor_line_of x args w =
     (case parse_flags [(''root'', StringFlag)] [(''root'', ''.syntroph'')] args of
        Inl e \<Rightarrow> (failing e, w)
      | Inr (vs, pos) \<Rightarrow>
          answer_of (doctor_storage (load_storage x) (flag_text ''root'' vs) (dir_text (flag_text ''root'' vs)) pos w))"

text \<open>The directory of the journal, and the arguments after the flag for it.\<close>

definition journal_flag :: "string list \<Rightarrow> string \<times> string list" where
  "journal_flag args =
     (case args of
        a # b # c # rest \<Rightarrow>
          if has_prefix ''--journal='' b then (trim_prefix ''--journal='' b, a # c # rest) else (''.syntroph/journal'', args)
      | _ \<Rightarrow> (''.syntroph/journal'', args))"

definition run_sync :: "('a mstate_scheme) cli_world \<Rightarrow> string list \<Rightarrow> 'a mstate_scheme \<Rightarrow> cli_answer \<times> 'a mstate_scheme" where
  "run_sync x args0 w =
     (case journal_flag args0 of
        (dir, args) \<Rightarrow>
     (case new_saga_journal dir w of
        (Some e, w1) \<Rightarrow> (failing e, w1)
      | (None, w1) \<Rightarrow>
         (let command = args ! 1; rest = drop 2 args in
          if command = ''status'' then sync_status x w1
          else if command = ''recovery'' then sync_recovery_command x dir rest w1
          else if command = ''retry'' then retry_line_of x dir rest w1
          else if command = ''resolve'' then resolve_line_of x rest w1
          else (failing (new_err (''unknown sync command '' @ go_quote command)), w1))))"

definition run_skill_line :: "'w cli_world \<Rightarrow> string list \<Rightarrow> 'w \<Rightarrow> cli_answer \<times> 'w" where
  "run_skill_line x args w =
     (case lw_skill x args w of
        (None, w1) \<Rightarrow> (None, w1)
      | (Some (v, e), w1) \<Rightarrow> (Some (case v of None \<Rightarrow> [] | Some s \<Rightarrow> [SkillShown s], e), w1))"

definition run :: "('a mstate_scheme) cli_world \<Rightarrow> string list \<Rightarrow> 'a mstate_scheme \<Rightarrow> cli_answer \<times> 'a mstate_scheme" where
  "run x args w =
     (case args of
        a # b # rest \<Rightarrow>
          if a = ''skill'' then run_skill_line x (b # rest) w
          else if a = ''session'' \<and> b = ''close'' then close_line_of x rest w
          else if a = ''doctor'' \<and> b = ''storage'' then doctor_line_of x rest w
          else if a \<noteq> ''sync'' then (failing usage_err, w)
          else run_sync x args w
      | _ \<Rightarrow> (failing usage_err, w))"

section \<open>Inspecting changes nothing\<close>

lemma sync_status_frame: "sync_status x w = (a, w') \<Longrightarrow> \<exists>fs. w' = w\<lparr>faults := fs\<rparr>"
  by (auto simp: sync_status_def dest!: inspect_recovery_frame split: prod.splits sum.splits)

lemma recovery_plan_frame: "recovery_plan x w = (a, w') \<Longrightarrow> \<exists>fs. w' = w\<lparr>faults := fs\<rparr>"
  by (auto simp: recovery_plan_def dest!: inspect_recovery_frame split: prod.splits sum.splits)

lemma new_saga_journal_frame: "new_saga_journal dir w = (e, w') \<Longrightarrow> \<exists>fs. w' = w\<lparr>faults := fs\<rparr>"
  by (auto simp: new_saga_journal_def dest!: try_io_frame split: if_splits)

text \<open>\<open>sync status\<close>, and \<open>sync recovery\<close> without \<open>--clear-lock\<close>, leave everything as it is; so does a command line
  that is not one of the commands.\<close>

theorem inspection_changes_nothing:
  assumes "run x args w = (a, w')" "journal_flag args = (dir, cmd)" "hd args = ''sync''"
    "cmd ! 1 = ''status'' \<or> cmd ! 1 = ''recovery'' \<and> (\<forall>vs pos. parse_flags [(''clear-lock'', StringFlag), (''root'', StringFlag)]
        [(''root'', dir_text dir)] (drop 2 cmd) = Inr (vs, pos) \<longrightarrow> flag_text ''clear-lock'' vs = [])
     \<or> cmd ! 1 \<notin> {''status'', ''recovery'', ''retry'', ''resolve''}"
  shows "\<exists>fs. w' = w\<lparr>faults := fs\<rparr>"
proof -
  have start: "a = failing usage_err \<and> w' = w \<or> run_sync x args w = (a, w')"
    using assms(1,3) by (auto simp: run_def split: list.splits if_splits)
  obtain e w1 where 1: "new_saga_journal dir w = (e, w1)" by (cases "new_saga_journal dir w")
  from new_saga_journal_frame [OF 1] obtain fs where fs: "w1 = w\<lparr>faults := fs\<rparr>" by blast
  have "\<exists>fs. w' = w\<lparr>faults := fs\<rparr>" if run: "run_sync x args w = (a, w')"
  proof (cases e)
    case (Some er)
    with run assms(2) 1 fs show ?thesis by (auto simp: run_sync_def)
  next
    case None
    from assms(4) have "w' = w1 \<or> (\<exists>a. sync_status x w1 = (a, w')) \<or> (\<exists>a. recovery_plan x w1 = (a, w'))"
      using run assms(2) 1 None
      by (auto simp: run_sync_def Let_def sync_recovery_command_def split: sum.splits if_splits)
    with fs show ?thesis by (auto dest!: sync_status_frame recovery_plan_frame)
  qed
  moreover have "w' = w \<Longrightarrow> \<exists>fs. w' = w\<lparr>faults := fs\<rparr>" by (intro exI [of _ "faults w"]) simp
  ultimately show ?thesis using start by blast
qed

end
