(* ===== verification/Spec2Isabelle.thy ===== *)
theory Spec2Isabelle
  imports Lock_Protocol Issue_Facts Wiki_Facts Mcp_Facts Skill_Contract Windows_Files Close_Recovery Command_Line
begin

text \<open>
  A verification library for Syntroph: a command line tool that closes coding sessions into immutable diaries, keeps an
  append-only journal of what happened, mirrors diaries to GitHub (Issues over REST or MCP, or the repository of a wiki), and
  keeps a verified catalog of skill packages. All paths below are under \<^verbatim>\<open>src/\<close>.

  \<^bold>\<open>The program and how its parts interact.\<close> \<^verbatim>\<open>SessionCloser.Close\<close> (\<^verbatim>\<open>core/session.go\<close>) parses an artifact, verifies its
  invocation records against the journal, resolves code references through a graph port, saves the diary under its idempotency
  key, publishes \<^verbatim>\<open>session.closed\<close> on the bus (\<^verbatim>\<open>core/bus.go\<close>), which journals it first (\<^verbatim>\<open>core/journal.go\<close>), then journals an
  intent, calls the storage port and journals the outcome. The port is an adapter (\<^verbatim>\<open>adapters/storageadapter\<close>) over
  \<^verbatim>\<open>ManagedMirror\<close> (\<^verbatim>\<open>storage/recovery.go\<close>), which holds a lock and keeps bindings and conflict snapshots, over one of the
  providers (\<^verbatim>\<open>adapters/githubissues\<close>, \<^verbatim>\<open>adapters/githubwiki\<close>). \<^verbatim>\<open>InspectRecovery\<close> (\<^verbatim>\<open>core/recovery.go\<close>) projects the journal
  to what is still owed; \<^verbatim>\<open>sync retry\<close> and \<^verbatim>\<open>sync resolve\<close> (\<^verbatim>\<open>cmd/syntroph\<close>) act on that and journal again. Apart from this
  the catalog (\<^verbatim>\<open>adapters/skillfilesystem\<close>) publishes packages as immutable objects under an index, and \<^verbatim>\<open>SkillPreparer\<close>
  (\<^verbatim>\<open>core/skill_journal.go\<close>) journals the preparation of a bundle, which a later close verifies.

  \<^bold>\<open>State.\<close> Every component has a record that extends the one below it, so that the operations of one component
  run on the states of those that contain it: the environment (\<^emph>\<open>env\<close>: pending faults, the clock), the journal and the files
  of sagas (\<^emph>\<open>jstate\<close>), the registry of the in-memory port (\<^emph>\<open>pstate\<close>), locks, bindings and conflicts, diaries, graph snapshots,
  the catalog on disk (\<^emph>\<open>cstate\<close>), the network of a transport. An operation takes the state and returns its result beside
  the new state; a Go error is a value of \<^emph>\<open>err\<close> with the sentinels that \<^verbatim>\<open>errors.Is\<close> would find in it. Every fallible
  step (I/O, a context that may be cancelled) takes one element of the list of faults: it succeeds, fails, or fails after a part of
  the bytes is written. The theorems hold for every such list unless they say otherwise, so they cover every pattern of errors
  and cancellations; a list that is empty is a run without faults.

  \<^bold>\<open>Theories.\<close>
  \<^item> \<^emph>\<open>Prelude\<close>, \<^emph>\<open>Go_Json\<close>, \<^emph>\<open>Go_Runtime\<close>, \<^emph>\<open>Go_Flags\<close>: Go strings (bytes), errors, ordered maps, JSON trees and the decoding of
    structures, the environment, the package \<^verbatim>\<open>flag\<close>.
  \<^item> \<^emph>\<open>Contracts\<close> (\<^verbatim>\<open>core/storagecontract\<close>, \<^verbatim>\<open>core/storage_contract.go\<close>): results, keys, the redaction of diagnostics.
    \<^emph>\<open>Journal\<close> (\<^verbatim>\<open>core/event.go\<close>, \<^verbatim>\<open>core/journal.go\<close>): what is appended is read back, and nothing else changes.
    \<^emph>\<open>Event_Bus\<close> (\<^verbatim>\<open>core/bus.go\<close>). \<^emph>\<open>Recovery\<close> (\<^verbatim>\<open>core/recovery.go\<close>): an obligation is shown exactly while it is unresolved.
  \<^item> \<^emph>\<open>Session_Model\<close>, \<^emph>\<open>Session\<close>, \<^emph>\<open>Session_Close\<close> (\<^verbatim>\<open>core/session.go\<close>): data, parsing, the diary store, the whole close with
    the order of its evidence. \<^emph>\<open>Artifact_Path\<close> (\<^verbatim>\<open>core/skill_artifact.go\<close> and what it uses of \<^verbatim>\<open>path/filepath\<close>),
    \<^emph>\<open>Skill_Invocation\<close> (\<^verbatim>\<open>core/skill_invocation.go\<close>), \<^emph>\<open>Code_Graph\<close> (\<^verbatim>\<open>core/graph.go\<close>, \<^verbatim>\<open>adapters/graphify\<close>).
  \<^item> \<^emph>\<open>Remote_Mirror\<close> (\<^verbatim>\<open>storage/storage.go\<close>), \<^emph>\<open>Local_Stores\<close> and \<^emph>\<open>Managed_Mirror\<close> (\<^verbatim>\<open>storage/recovery.go\<close>), \<^emph>\<open>Lock_Protocol\<close> (the
    mirror lock as a step relation of concurrent processes, one system call at a time, with an invariant by rule induction).
  \<^item> \<^emph>\<open>Provider_Contract\<close>, \<^emph>\<open>Issue_Mirror\<close>, \<^emph>\<open>Issue_Rest\<close>, \<^emph>\<open>Issue_Facts\<close>, \<^emph>\<open>Mcp_Client\<close>, \<^emph>\<open>Mcp_Provider\<close>, \<^emph>\<open>Mcp_Facts\<close>
    (\<^verbatim>\<open>adapters/githubissues\<close>), \<^emph>\<open>Wiki_Provider\<close>, \<^emph>\<open>Wiki_Facts\<close> (\<^verbatim>\<open>adapters/githubwiki\<close>): the decisions of the providers, their
    transports, and that no remote content is written over, adopted or duplicated without evidence.
  \<^item> \<^emph>\<open>Skill_Arguments\<close>, \<^emph>\<open>Skill_Catalog\<close>, \<^emph>\<open>Skill_Preparer\<close> (\<^verbatim>\<open>core/skill*.go\<close>), \<^emph>\<open>Skill_Contract\<close>
    (\<^verbatim>\<open>core/skillcontracttest\<close>: the suite every catalog must pass, and that the in-memory port passes it), \<^emph>\<open>Skill_Package\<close>,
    \<^emph>\<open>Skill_Store\<close>, \<^emph>\<open>Skill_Store_Facts\<close>, \<^emph>\<open>Skill_Store_Recovery\<close>, \<^emph>\<open>Skill_Store_Integrity\<close>, \<^emph>\<open>Skill_Store_Samples\<close>,
    \<^emph>\<open>Windows_Files\<close> (\<^verbatim>\<open>adapters/skillfilesystem\<close>): the package format and its hash, synchronisation, explicit recovery, verification.
  \<^item> \<^emph>\<open>Config\<close> (\<^verbatim>\<open>config/config.go\<close>), \<^emph>\<open>Storage_Setup\<close> (\<^verbatim>\<open>cmd/syntroph/storage_config.go\<close>, \<^verbatim>\<open>storage/providers.go\<close>,
    \<^verbatim>\<open>storage/process_*.go\<close>), \<^emph>\<open>Sync_Commands\<close>, \<^emph>\<open>Sync_Facts\<close>, \<^emph>\<open>Command_Line\<close> (\<^verbatim>\<open>cmd/syntroph/main.go\<close>), \<^emph>\<open>Skill_Commands\<close>
    (\<^verbatim>\<open>cmd/syntroph/skill_commands.go\<close>). \<^emph>\<open>Close_Recovery\<close>: the close and the recovery view together.

  \<^bold>\<open>Interfaces.\<close> Each is a locale that is interpreted on the model's own definitions: \<^emph>\<open>append_log\<close> (the journal),
  \<^emph>\<open>projection_store\<close> (bindings), \<^emph>\<open>document_store\<close> (diaries), \<^emph>\<open>graph_service\<close> (the local and the Graphify graph),
  \<^emph>\<open>skill_service\<close> (the in-memory and the file system catalog; what a preparer guarantees is proved in it),
  \<^emph>\<open>keyed_provider\<close> (Issues over REST and MCP, wiki; \<^emph>\<open>issue_transport\<close> is a sublocale of it), \<^emph>\<open>tool_relation\<close> and
  \<^emph>\<open>issue_relation\<close> (what every tool call over MCP keeps), and \<^emph>\<open>disk_property\<close> (a property that the effects of the catalog
  keep, carried through every operation and every kill).

  \<^bold>\<open>Parameters.\<close> Code that is not in the repository is an argument: the hash \<^emph>\<open>sha\<close> (where a theorem needs that it tells
  two inputs apart it says so), the removal of URL credentials \<^emph>\<open>strip\<close>, the readers of JSON and YAML text, random bytes, the
  clock, the file system as views (\<^verbatim>\<open>Lstat\<close>, \<^verbatim>\<open>EvalSymlinks\<close>, reads), \<^verbatim>\<open>url.Parse\<close>, \<^verbatim>\<open>filepath.Abs\<close>, HTTP, the child process of an
  MCP server, git, the environment, \<^verbatim>\<open>LookPath\<close> and the liveness of processes.

  \<^bold>\<open>Loops and bounds.\<close> Loops over remote pages and the walk to an existing directory are partial functions into \<^emph>\<open>option\<close>:
  \<^term>\<open>None\<close> means that they do not return. The walk always returns; a scan returns when the links between its pages descend,
  and a transport that would scan forever answers with an error in the model. A request is repeated at most twice
  (\<^emph>\<open>rest_attempts\<close>); the wait for an answer over MCP counts down the messages that come before the time limit of the context
  (\<^emph>\<open>mw_patience\<close>, any number per state); a process that is killed has a number of effects left (\<^emph>\<open>cs_life\<close>); argument parsing ends
  because every step takes an argument. No other definition has fuel.

  \<^bold>\<open>Not modelled.\<close> The exit code of \<^verbatim>\<open>main\<close> and the text of printed JSON other than that of a bundle; the shared suite of the
  storage providers (\<^verbatim>\<open>storage/contracttest\<close>), which is test support and drives providers through temporary directories;
  the syntax of YAML and JSON text that is read; two goroutines inside one process, apart from the locks between processes; file
  permissions. Unit tests, docs and scripts are not part of the program.
\<close>

section \<open>Properties across components\<close>

text \<open>C19: whatever a managed operation does, on Issues over REST or over MCP or on the wiki, with any
  server, any child process, any git and any pattern of local faults, it changes no local binding but the one of the diary it is
  about; so no operation can lose or redirect the mirror of another diary.\<close>

theorem managed_operations_touch_one_binding:
  fixes w :: "('n, 'a) rstate_scheme" and v :: "('m, 'b) wstate_scheme" and u :: "('l, 'c) mcpstate_scheme"
  assumes "k \<noteq> diary_key sha d" "mm_remote m = issue_provider sha (rest_semantics rv sha p)"
    "mm_remote l = mcp_provider rv strip sha q"
  shows "((r, w') \<in> {managed_mirror sha m d w, managed_recover sha m d w, managed_resolve sha m d choice observed w}
       \<longrightarrow> stored_binding w' k = stored_binding w k)
    \<and> ((r', v') \<in> {managed_mirror sha (wiki_mirror_of strip sha n) d v, managed_recover sha (wiki_mirror_of strip sha n) d v,
          managed_resolve sha (wiki_mirror_of strip sha n) d choice observed v}
       \<longrightarrow> stored_binding v' k = stored_binding v k)
    \<and> ((r'', u') \<in> {managed_mirror sha l d u, managed_recover sha l d u, managed_resolve sha l d choice observed u}
       \<longrightarrow> stored_binding u' k = stored_binding u k)"
proof -
  have "mm_remote (wiki_mirror_of strip sha n) = wiki_provider strip sha (wm_remote n)"
    by (simp add: wiki_mirror_of_def)
  from wiki_keyed.managed_keeps_others [OF this assms(1)] rest_transport.keyed.managed_keeps_others [OF assms(2,1)]
    mcp_keyed.managed_keeps_others [OF assms(3,1)]
  show ?thesis by blast
qed

theorem managed_operations_touch_one_binding_witness:
  "stored_binding (snd (managed_mirror Local_Stores.sample_sha
      \<lparr>mm_remote = issue_provider Local_Stores.sample_sha (rest_semantics calm_reader Local_Stores.sample_sha calm_server),
       mm_provider = ''github-rest'', mm_root = ''root'', mm_locks = \<lparr>lc_pid = 7, lc_alive = (\<lambda>p. True)\<rparr>\<rparr>
      sample_remote_diary (empty_rstate (0 :: nat)))) ''other'' = None"
proof -
  let ?m = "\<lparr>mm_remote = issue_provider Local_Stores.sample_sha (rest_semantics calm_reader Local_Stores.sample_sha calm_server),
       mm_provider = ''github-rest'', mm_root = ''root'', mm_locks = \<lparr>lc_pid = 7, lc_alive = (\<lambda>p. True)\<rparr>\<rparr>"
  let ?run = "managed_mirror Local_Stores.sample_sha ?m sample_remote_diary (empty_rstate (0 :: nat))"
  have k: "''other'' \<noteq> diary_key Local_Stores.sample_sha sample_remote_diary"
    by (simp add: Local_Stores.sample_key_def eval_nat_numeral)
  have "stored_binding (snd ?run) ''other'' = stored_binding (empty_rstate (0 :: nat)) ''other''"
    by (rule managed_operations_touch_one_binding [where m = ?m and r = "fst ?run"
          and l = "\<lparr>mm_remote = mcp_provider calm_reader (\<lambda>s. None) Local_Stores.sample_sha silent_mcp, mm_provider = MCPProviderID,
            mm_root = ''root'', mm_locks = \<lparr>lc_pid = 7, lc_alive = (\<lambda>p. True)\<rparr>\<rparr> :: nat mcpstate managed",
          OF k, THEN conjunct1, THEN mp])
      simp_all
  then show ?thesis by (simp add: stored_binding_def)
qed

end
